(* ===== verification/Prelude.thy ===== *)
theory Prelude
  imports Main "HOL-Library.AList" "HOL-Library.Multiset"
begin

text \<open>
  The prelude of the development: the collections of rewrite rules the components share,
  Python's dictionaries as association lists in insertion order, and Python's string
  operations \<open>strip\<close> and \<open>upper\<close> on ASCII text.
\<close>

named_theorems dict_simps \<open>lookups and domains of dictionaries\<close>
named_theorems frame_simps \<open>fields that an operation leaves alone\<close>

section \<open>Dictionaries\<close>

text \<open>
  A Python \<open>dict\<close> keeps its keys in insertion order; assigning to a present key keeps the
  key's position. \<open>AList.update\<close> behaves in exactly that way, \<open>AList.delete\<close> is \<open>pop\<close>.
\<close>

type_synonym ('k, 'v) dict = "('k \<times> 'v) list"

abbreviation dict_get :: "('k, 'v) dict \<Rightarrow> 'k \<Rightarrow> 'v option" where
  "dict_get \<equiv> map_of"

abbreviation dict_set :: "'k \<Rightarrow> 'v \<Rightarrow> ('k, 'v) dict \<Rightarrow> ('k, 'v) dict" where
  "dict_set \<equiv> AList.update"

abbreviation dict_pop :: "'k \<Rightarrow> ('k, 'v) dict \<Rightarrow> ('k, 'v) dict" where
  "dict_pop \<equiv> AList.delete"

abbreviation dict_keys :: "('k, 'v) dict \<Rightarrow> 'k list" where
  "dict_keys d \<equiv> map fst d"

abbreviation dict_values :: "('k, 'v) dict \<Rightarrow> 'v list" where
  "dict_values d \<equiv> map snd d"

definition dict_ok :: "('k, 'v) dict \<Rightarrow> bool" where
  "dict_ok d \<longleftrightarrow> distinct (map fst d)"

lemma dict_ok_Nil [simp]: "dict_ok []"
  by (simp add: dict_ok_def)

lemma dict_ok_set [intro, simp]: "dict_ok d \<Longrightarrow> dict_ok (dict_set k v d)"
  unfolding dict_ok_def by (rule distinct_update)

lemma dict_ok_pop [intro, simp]: "dict_ok d \<Longrightarrow> dict_ok (dict_pop k d)"
  unfolding dict_ok_def by (rule distinct_delete)

lemma dict_get_set [dict_simps]:
  "dict_get (dict_set k v d) k' = (if k' = k then Some v else dict_get d k')"
  by (simp add: update_conv')

lemma dict_get_pop [dict_simps]:
  "dict_get (dict_pop k d) k' = (if k' = k then None else dict_get d k')"
  by (simp add: delete_conv')

lemma dict_get_iff: "dict_ok d \<Longrightarrow> dict_get d k = Some v \<longleftrightarrow> (k, v) \<in> set d"
  by (simp add: dict_ok_def)

lemma dict_get_mem: "dict_get d k = Some v \<Longrightarrow> (k, v) \<in> set d"
  by (rule map_of_SomeD)

lemma dict_get_None: "dict_get d k = None \<longleftrightarrow> k \<notin> set (dict_keys d)"
  by (simp add: map_of_eq_None_iff)

lemma dict_keys_set: "set (dict_keys (dict_set k v d)) = insert k (set (dict_keys d))"
  by (induction d) auto

lemma dict_keys_image [dict_simps]: "fst ` set (dict_set k v d) = insert k (fst ` set d)"
  using dict_keys_set [of k v d] by simp

lemma dict_set_new: "k \<notin> set (dict_keys d) \<Longrightarrow> dict_set k v d = d @ [(k, v)]"
  by (induction d) auto

lemma set_dict_pop: "set (dict_pop k d) = {p \<in> set d. fst p \<noteq> k}"
  by (auto simp: AList.delete_eq)

lemma dict_pop_key [dict_simps]: "k \<notin> fst ` set (dict_pop k d)"
  by (auto simp: set_dict_pop)

lemma set_dict_set: "dict_ok d \<Longrightarrow> set (dict_set k v d) = insert (k, v) {p \<in> set d. fst p \<noteq> k}"
  by (induction d) (auto simp: dict_ok_def image_iff)

lemma distinct_map_mset: "mset xs = mset ys \<Longrightarrow> distinct (map f xs) = distinct (map f ys)"
  by (intro mset_eq_imp_distinct_iff) simp

lemma map_sum_Inr: "map_sum id f x = Inr y \<longleftrightarrow> (\<exists>z. x = Inr z \<and> y = f z)"
  by (cases x) auto

section \<open>Strings\<close>

text \<open>
  The model's strings are ASCII. \<open>str.strip\<close> removes the ASCII whitespace that
  \<open>str.isspace\<close> accepts: tab, line feed, vertical tab, form feed, carriage return, the
  separators 28 to 31 and the blank.
\<close>

definition py_space :: "char \<Rightarrow> bool" where
  "py_space c \<longleftrightarrow> of_char c \<in> {9::nat, 10, 11, 12, 13, 28, 29, 30, 31, 32}"

definition strip :: "string \<Rightarrow> string" where
  "strip s = rev (dropWhile py_space (rev (dropWhile py_space s)))"

definition is_upper :: "char \<Rightarrow> bool" where
  "is_upper c \<longleftrightarrow> 65 \<le> (of_char c :: nat) \<and> (of_char c :: nat) \<le> 90"

definition is_lower :: "char \<Rightarrow> bool" where
  "is_lower c \<longleftrightarrow> 97 \<le> (of_char c :: nat) \<and> (of_char c :: nat) \<le> 122"

definition is_digit :: "char \<Rightarrow> bool" where
  "is_digit c \<longleftrightarrow> 48 \<le> (of_char c :: nat) \<and> (of_char c :: nat) \<le> 57"

definition upper_char :: "char \<Rightarrow> char" where
  "upper_char c = (if is_lower c then char_of ((of_char c :: nat) - 32) else c)"

definition lower_char :: "char \<Rightarrow> char" where
  "lower_char c = (if is_upper c then char_of ((of_char c :: nat) + 32) else c)"

definition upper :: "string \<Rightarrow> string" where
  "upper s = map upper_char s"

definition lower :: "string \<Rightarrow> string" where
  "lower s = map lower_char s"

lemma code_shift: "97 \<le> (n::nat) \<and> n \<le> 122 \<Longrightarrow> (n - 32) mod 256 = n - 32"
  by auto

lemma not_lower_upper_char [simp]: "\<not> is_lower (upper_char c)"
proof (cases "is_lower c")
  case True
  then have "(of_char (upper_char c) :: nat) = of_char c - 32"
    by (simp add: upper_char_def is_lower_def code_shift)
  with True have "(of_char (upper_char c) :: nat) \<le> 90"
    unfolding is_lower_def by arith
  then show ?thesis
    unfolding is_lower_def by arith
next
  case False
  then show ?thesis by (simp add: upper_char_def)
qed

lemma upper_char_idem [simp]: "upper_char (upper_char c) = upper_char c"
  using not_lower_upper_char [of c] by (simp add: upper_char_def)

lemma upper_idem [simp]: "upper (upper s) = upper s"
  by (simp add: upper_def comp_def)

lemma length_upper [simp]: "length (upper s) = length s"
  by (simp add: upper_def)

lemma py_space_upper_char [simp]: "py_space (upper_char c) = py_space c"
proof (cases "is_lower c")
  case True
  then have "(of_char (upper_char c) :: nat) = of_char c - 32"
    by (simp add: upper_char_def is_lower_def code_shift)
  with True show ?thesis
    by (auto simp: is_lower_def py_space_def)
next
  case False
  then show ?thesis by (simp add: upper_char_def)
qed

lemma dropWhile_space_upper: "dropWhile py_space (map upper_char s) = map upper_char (dropWhile py_space s)"
  by (simp add: dropWhile_map comp_def)

lemma strip_upper: "strip (upper s) = upper (strip s)"
  by (simp add: strip_def upper_def dropWhile_space_upper rev_map)

lemma dropWhile_snoc_stop: "\<not> P c \<Longrightarrow> dropWhile P (xs @ [c]) = dropWhile P xs @ [c]"
  by (induction xs) auto

lemma strip_Nil [simp]: "strip [] = []"
  by (simp add: strip_def)

lemma strip_idem [simp]: "strip (strip s) = strip s"
proof (cases "dropWhile py_space s")
  case Nil
  then have "strip s = []" unfolding strip_def by (simp only: rev.simps dropWhile.simps)
  then show ?thesis by simp
next
  case (Cons c cs)
  then have nc: "\<not> py_space c" by (metis hd_dropWhile list.discI list.sel(1))
  define t where "t = rev (dropWhile py_space (rev cs))"
  have "strip s = c # t"
    using nc Cons by (simp add: strip_def dropWhile_snoc_stop t_def)
  moreover have "strip (c # t) = c # t"
    using nc by (simp add: strip_def dropWhile_snoc_stop t_def)
  ultimately show ?thesis by simp
qed

text \<open>The normal form \<open>s.strip().upper()\<close> of identifiers.\<close>

definition canonical :: "string \<Rightarrow> string" where
  "canonical s = upper (strip s)"

lemma canonical_idem [simp]: "canonical (canonical s) = canonical s"
  by (simp add: canonical_def strip_upper)

end
