(* ===== verification/Rounding.thy ===== *)
theory Rounding
  imports Prelude Complex_Main
begin

text \<open>
  Correctly rounded arithmetic on exact rationals, generic in the radix, the precision and
  the exponent of the smallest quantum: round to nearest, ties to even. Python's
  \<^verbatim>\<open>decimal\<close> under its default context is the instance with radix 10 and 28
  digits, a binary64 \<^verbatim>\<open>float\<close> is the instance with radix 2 and 53 digits.
  The lemmas show that rounding is odd, monotone, idempotent and the identity on every value
  that has few enough digits.
\<close>

section \<open>Rounding to an integer, ties to even\<close>

definition rhe :: "rat \<Rightarrow> int" where
  "rhe x = (let f = \<lfloor>x\<rfloor>; d = x - of_int f in
     if d < 1 / 2 then f else if 1 / 2 < d then f + 1 else if even f then f else f + 1)"

lemma rhe_of_int [simp]: "rhe (of_int n) = n"
  by (simp add: rhe_def Let_def)

lemma rhe_0 [simp]: "rhe 0 = 0"
  using rhe_of_int [of 0] by simp

lemma rhe_bounds: "of_int (rhe x) \<le> x + 1 / 2" "x - 1 / 2 \<le> of_int (rhe x)"
  by (auto simp: rhe_def Let_def; linarith)+

lemma rhe_cases: "rhe x = \<lfloor>x\<rfloor> \<or> rhe x = \<lfloor>x\<rfloor> + 1"
  by (auto simp: rhe_def Let_def)

lemma rhe_mono: assumes "x \<le> y" shows "rhe x \<le> rhe y"
proof (cases "\<lfloor>x\<rfloor> = \<lfloor>y\<rfloor>")
  case True
  with assms show ?thesis by (auto simp: rhe_def Let_def)
next
  case False
  with floor_mono [OF assms] have "\<lfloor>x\<rfloor> + 1 \<le> \<lfloor>y\<rfloor>" by linarith
  with rhe_cases [of x] rhe_cases [of y] show ?thesis by auto
qed

lemma rhe_le_of_int: "x \<le> of_int n \<Longrightarrow> rhe x \<le> n"
  using rhe_mono [of x "of_int n"] by simp

lemma rhe_ge_of_int: "of_int n \<le> x \<Longrightarrow> n \<le> rhe x"
  using rhe_mono [of "of_int n" x] by simp

lemma rhe_uminus: "rhe (- x) = - rhe x"
proof (cases "x = of_int \<lfloor>x\<rfloor>")
  case True
  then show ?thesis by (metis of_int_minus rhe_of_int)
next
  case False
  then have "\<lceil>x\<rceil> = \<lfloor>x\<rfloor> + 1" by (simp add: ceiling_altdef)
  then have "\<lfloor>- x\<rfloor> = - \<lfloor>x\<rfloor> - 1" by (simp add: floor_minus)
  then show ?thesis by (auto simp: rhe_def Let_def)
qed

section \<open>The exponent of a positive rational\<close>

text \<open>Number of digits of a natural number in radix \<open>b\<close>; 0 has one digit.\<close>

function ndigits :: "nat \<Rightarrow> nat \<Rightarrow> nat" where
  "ndigits b n = (if b < 2 \<or> n < b then 1 else Suc (ndigits b (n div b)))"
  by pat_completeness auto
termination
  by (relation "measure snd") auto

declare ndigits.simps [simp del]

lemma ndigits_pos: "0 < ndigits b n"
  by (subst ndigits.simps) simp

lemma ndigits_upper: "2 \<le> b \<Longrightarrow> n < b ^ ndigits b n"
proof (induction b n rule: ndigits.induct)
  case (1 b n)
  show ?case
  proof (cases "n < b")
    case True
    then show ?thesis by (subst ndigits.simps) simp
  next
    case False
    with 1 have "n div b < b ^ ndigits b (n div b)" by simp
    then have "n < b * b ^ ndigits b (n div b)"
      using "1.prems" by (simp add: div_less_iff_less_mult mult.commute)
    with False 1 show ?thesis by (subst ndigits.simps) simp
  qed
qed

lemma ndigits_lower: "2 \<le> b \<Longrightarrow> 0 < n \<Longrightarrow> b ^ (ndigits b n - 1) \<le> n"
proof (induction b n rule: ndigits.induct)
  case (1 b n)
  show ?case
  proof (cases "n < b")
    case True
    with 1 show ?thesis by (subst ndigits.simps) simp
  next
    case False
    with 1 have pos: "0 < n div b" by (simp add: div_greater_zero_iff)
    with False 1 have "b ^ (ndigits b (n div b) - 1) \<le> n div b" by simp
    then have "b * b ^ (ndigits b (n div b) - 1) \<le> n"
      by (metis mult.commute div_times_less_eq_dividend mult_le_mono2 order.trans)
    moreover have "b * b ^ (ndigits b (n div b) - 1) = b ^ ndigits b (n div b)"
      using ndigits_pos [of b "n div b"] by (simp flip: power_Suc)
    ultimately show ?thesis using False 1 by (subst ndigits.simps) simp
  qed
qed

definition expo :: "nat \<Rightarrow> rat \<Rightarrow> int" where
  "expo b x = (let (n, d) = quotient_of x; k = int (ndigits b (nat n)) - int (ndigits b (nat d))
     in if of_nat b powi k \<le> x then k else k - 1)"

lemma powi_diff_rat: "0 < (b::rat) \<Longrightarrow> b powi (i - j) = b powi i / b powi j"
  by (simp add: power_int_diff)

lemma powi_nat: "(b::rat) powi int n = b ^ n"
  by simp

lemma expo_spec:
  assumes b: "2 \<le> b" and x: "0 < x"
  shows "of_nat b powi expo b x \<le> x" "x < of_nat b powi (expo b x + 1)"
proof -
  obtain n d where q: "quotient_of x = (n, d)" by fastforce
  then have d: "0 < d" and xq: "x = of_int n / of_int d"
    by (auto dest: quotient_of_denom_pos quotient_of_div)
  with x have n: "0 < n" by (simp add: zero_less_divide_iff)
  define i j where "i = ndigits b (nat n)" and "j = ndigits b (nat d)"
  define B where "B = (of_nat b :: rat)"
  have B: "0 < B" "1 < B" using b by (auto simp: B_def)
  have i: "0 < i" and j: "0 < j" by (simp_all add: i_def j_def ndigits_pos)
  have "nat n < b ^ i" "b ^ (i - 1) \<le> nat n" "nat d < b ^ j" "b ^ (j - 1) \<le> nat d"
    using b n d ndigits_lower [OF b, of "nat n"] ndigits_lower [OF b, of "nat d"]
    by (simp_all add: i_def j_def ndigits_upper)
  then have "of_nat (nat n) < (of_nat (b ^ i) :: rat)" "of_nat (b ^ (i - 1)) \<le> (of_nat (nat n) :: rat)"
    "of_nat (nat d) < (of_nat (b ^ j) :: rat)" "of_nat (b ^ (j - 1)) \<le> (of_nat (nat d) :: rat)"
    by (simp_all only: of_nat_less_iff of_nat_le_iff)
  then have nb: "of_int n < B ^ i" "B ^ (i - 1) \<le> of_int n"
    and db: "of_int d < B ^ j" "B ^ (j - 1) \<le> of_int d"
    using n d by (simp_all add: B_def)
  have lo: "B ^ (i - 1) / B ^ j < x"
    unfolding xq using nb db d n B by (intro frac_less2) auto
  have hi: "x < B ^ i / B ^ (j - 1)"
    unfolding xq using nb db d n B by (intro frac_less) auto
  have lo': "B powi (int i - int j - 1) < x"
    using lo i B by (simp add: powi_diff_rat power_diff divide_simps mult_ac)
  have hi': "x < B powi (int i - int j + 1)"
  proof -
    have "B powi (int i - int j + 1) = B ^ i / B ^ (j - 1)"
      using j B by (simp add: powi_diff_rat power_int_add power_diff divide_simps mult_ac)
    with hi show ?thesis by simp
  qed
  have e: "expo b x = (if B powi (int i - int j) \<le> x then int i - int j else int i - int j - 1)"
    by (simp add: expo_def q i_def j_def B_def)
  show "of_nat b powi expo b x \<le> x" using lo' e by (simp add: B_def)
  show "x < of_nat b powi (expo b x + 1)" using hi' e by (simp add: B_def)
qed

lemma powi_less_iff: "1 < (b::rat) \<Longrightarrow> b powi i < b powi j \<longleftrightarrow> i < j"
  by (metis linorder_not_le order_less_imp_le order_less_irrefl order_le_less power_int_increasing
      power_int_strict_increasing order.strict_trans2)

lemma powi_le_iff: "1 < (b::rat) \<Longrightarrow> b powi i \<le> b powi j \<longleftrightarrow> i \<le> j"
  by (meson powi_less_iff linorder_not_le)

lemma expo_unique:
  assumes "2 \<le> b" "0 < x" "of_nat b powi e \<le> x" "x < of_nat b powi (e + 1)"
  shows "expo b x = e"
proof -
  have "of_nat b powi expo b x < (of_nat b :: rat) powi (e + 1)"
    "of_nat b powi e < (of_nat b :: rat) powi (expo b x + 1)"
    using expo_spec [OF assms(1,2)] assms(3,4) by linarith+
  then show ?thesis using assms(1) by (simp add: powi_less_iff)
qed

lemma expo_mono: "2 \<le> b \<Longrightarrow> 0 < x \<Longrightarrow> x \<le> y \<Longrightarrow> expo b x \<le> expo b y"
proof -
  assume b: "2 \<le> b" and x: "0 < x" and xy: "x \<le> y"
  then have "of_nat b powi expo b x < (of_nat b :: rat) powi (expo b y + 1)"
    using expo_spec(1) [OF b x] expo_spec(2) [OF b, of y] by linarith
  then show ?thesis using b by (simp add: powi_less_iff)
qed

lemma expo_less: "2 \<le> b \<Longrightarrow> 0 < x \<Longrightarrow> x < of_nat b powi k \<Longrightarrow> expo b x < k"
  using expo_spec(1) [of b x] powi_less_iff [of "of_nat b" "expo b x" k] by fastforce


section \<open>Rounding to a number of digits\<close>

text \<open>
  \<open>quantum b p t x\<close> is the unit in the last place of \<open>x\<close>: with \<open>p\<close> digits in radix
  \<open>b\<close>, and never below \<open>b\<close> to the power \<open>t\<close> (gradual underflow).
\<close>

definition quantum :: "nat \<Rightarrow> nat \<Rightarrow> int \<Rightarrow> rat \<Rightarrow> rat" where
  "quantum b p t x = of_nat b powi max (expo b \<bar>x\<bar> - int p + 1) t"

definition rnd :: "nat \<Rightarrow> nat \<Rightarrow> int \<Rightarrow> rat \<Rightarrow> rat" where
  "rnd b p t x = (if x = 0 then 0 else of_int (rhe (x / quantum b p t x)) * quantum b p t x)"

text \<open>The values that have at most \<open>p\<close> digits above the least quantum.\<close>

definition fits :: "nat \<Rightarrow> nat \<Rightarrow> int \<Rightarrow> rat \<Rightarrow> bool" where
  "fits b p t x \<longleftrightarrow> (\<exists>c k. x = of_int c * of_nat b powi k \<and> \<bar>c\<bar> \<le> int b ^ p \<and> t \<le> k)"

lemma quantum_pos: "2 \<le> b \<Longrightarrow> 0 < quantum b p t x"
  by (simp add: quantum_def)

lemma quantum_uminus [simp]: "quantum b p t (- x) = quantum b p t x"
  by (simp add: quantum_def)

lemma rnd_0 [simp]: "rnd b p t 0 = 0"
  by (simp add: rnd_def)

lemma rnd_uminus: "rnd b p t (- x) = - rnd b p t x"
  by (simp add: rnd_def rhe_uminus)

lemma rnd_nonneg: "2 \<le> b \<Longrightarrow> 0 \<le> x \<Longrightarrow> 0 \<le> rnd b p t x"
  using quantum_pos [of b p t x] rhe_ge_of_int [of 0 "x / quantum b p t x"]
  by (auto simp: rnd_def)

lemma powi_multiple:
  assumes "2 \<le> b" "j \<le> k"
  shows "\<exists>m::int. of_nat b powi k = of_int m * (of_nat b powi j :: rat)"
proof -
  have "of_nat b powi k = of_nat b powi (k - j) * (of_nat b powi j :: rat)"
    using assms by (simp flip: power_int_add)
  moreover have "of_nat b powi (k - j) = (of_int (int b ^ nat (k - j)) :: rat)"
    using assms by (simp add: power_int_def)
  ultimately show ?thesis by metis
qed

text \<open>A multiple of its own quantum is not changed.\<close>

lemma rnd_multiple:
  assumes "2 \<le> b" "x = of_int m * quantum b p t x"
  shows "rnd b p t x = x"
proof -
  have "x / quantum b p t x = of_int m"
    using assms quantum_pos [OF assms(1), of p t x] by (simp add: field_simps)
  then have "rhe (x / quantum b p t x) = m" by simp
  then show ?thesis using assms by (simp add: rnd_def)
qed

lemma rnd_exact_less:
  assumes b: "2 \<le> b" and x: "x = of_int c * of_nat b powi k" and c: "\<bar>c\<bar> < int b ^ p" and t: "t \<le> k"
  shows "rnd b p t x = x"
proof (cases "c = 0")
  case True
  with x show ?thesis by simp
next
  case False
  define B where "B = (of_nat b :: rat)"
  have B: "1 < B" using b by (simp add: B_def)
  have "\<bar>x\<bar> = of_int \<bar>c\<bar> * B powi k"
    using x B by (simp add: abs_mult B_def)
  also have "\<dots> < of_int (int b ^ p) * B powi k"
    using c B by (intro mult_strict_right_mono) (auto simp del: of_int_power simp flip: of_int_abs)
  also have "\<dots> = B powi (k + int p)"
    using B by (simp add: power_int_add B_def mult.commute)
  finally have "expo b \<bar>x\<bar> < k + int p"
    using expo_less [OF b, of "\<bar>x\<bar>" "k + int p"] x False B by (simp add: B_def)
  then have "max (expo b \<bar>x\<bar> - int p + 1) t \<le> k" using t by simp
  from powi_multiple [OF b this] obtain m :: int
    where "B powi k = of_int m * quantum b p t x" by (auto simp: quantum_def B_def)
  then have "x = of_int (c * m) * quantum b p t x" using x by (simp add: B_def)
  with b show ?thesis by (rule rnd_multiple)
qed

lemma rnd_powi:
  assumes "2 \<le> b" "1 \<le> p" "t \<le> k"
  shows "rnd b p t (of_nat b powi k) = of_nat b powi k"
proof (rule rnd_exact_less [where c = 1 and k = k])
  show "\<bar>1\<bar> < int b ^ p" using assms by (simp add: one_less_power)
qed (use assms in auto)

lemma rnd_exact:
  assumes "2 \<le> b" "1 \<le> p" "fits b p t x"
  shows "rnd b p t x = x"
proof -
  obtain c k where x: "x = of_int c * of_nat b powi k" and c: "\<bar>c\<bar> \<le> int b ^ p" and t: "t \<le> k"
    using assms(3) by (auto simp: fits_def)
  show ?thesis
  proof (cases "\<bar>c\<bar> = int b ^ p")
    case True
    have "of_int (int b ^ p) * of_nat b powi k = (of_nat b powi (k + int p) :: rat)"
      using assms(1) by (simp add: power_int_add mult.commute)
    moreover have "rnd b p t (of_nat b powi (k + int p)) = of_nat b powi (k + int p)"
      using assms t by (intro rnd_powi) auto
    moreover have "c = int b ^ p \<or> c = - (int b ^ p)" using True by linarith
    ultimately show ?thesis using x rnd_uminus by (auto simp del: of_int_power simp: of_int_minus)
  next
    case False
    with c have "\<bar>c\<bar> < int b ^ p" by simp
    from rnd_exact_less [OF assms(1) x this t] show ?thesis .
  qed
qed

lemma rnd_upper:
  assumes b: "2 \<le> b" and p: "1 \<le> p" and x: "0 < x" "x \<le> of_nat b powi k" and t: "t \<le> k"
  shows "rnd b p t x \<le> of_nat b powi k"
proof (cases "x = of_nat b powi k")
  case True
  with assms show ?thesis by (simp add: rnd_powi)
next
  case False
  with x have "expo b \<bar>x\<bar> < k" using expo_less [OF b, of x k] by simp
  then have "max (expo b \<bar>x\<bar> - int p + 1) t \<le> k" using p t by simp
  from powi_multiple [OF b this] obtain m :: int
    where m: "of_nat b powi k = of_int m * quantum b p t x" by (auto simp: quantum_def)
  have q: "0 < quantum b p t x" using b by (rule quantum_pos)
  with x(2) m have "x / quantum b p t x \<le> of_int m" by (simp add: pos_divide_le_eq)
  then have "rhe (x / quantum b p t x) \<le> m" by (rule rhe_le_of_int)
  with q have "of_int (rhe (x / quantum b p t x)) * quantum b p t x \<le> of_int m * quantum b p t x"
    by simp
  with m x show ?thesis by (simp add: rnd_def)
qed

lemma rnd_lower:
  assumes b: "2 \<le> b" and p: "1 \<le> p" and x: "of_nat b powi k \<le> x" and t: "t \<le> k"
  shows "of_nat b powi k \<le> rnd b p t x"
proof -
  have "0 < (of_nat b powi k :: rat)" using b by simp
  with x have pos: "0 < x" by linarith
  have q: "0 < quantum b p t x" using b by (rule quantum_pos)
  define e where "e = max k (max (expo b \<bar>x\<bar> - int p + 1) t)"
  have "k \<le> expo b x"
    using expo_spec(2) [OF b pos] x powi_less_iff [of "of_nat b" k "expo b x + 1"] b by fastforce
  then have "of_nat b powi e \<le> x"
  proof (cases "e = k")
    case False
    with \<open>k \<le> expo b x\<close> t p pos have "e \<le> expo b x" by (auto simp: e_def)
    then have "of_nat b powi e \<le> (of_nat b powi expo b x :: rat)" using b by (simp add: powi_le_iff)
    with expo_spec(1) [OF b pos] show ?thesis by simp
  qed (use x in simp)
  have le: "max (expo b \<bar>x\<bar> - int p + 1) t \<le> e" by (simp add: e_def)
  from powi_multiple [OF b le] obtain m :: int
    where m: "of_nat b powi e = of_int m * quantum b p t x" by (auto simp: quantum_def)
  with q \<open>of_nat b powi e \<le> x\<close> have "of_int m \<le> x / quantum b p t x" by (simp add: pos_le_divide_eq)
  then have "m \<le> rhe (x / quantum b p t x)" by (rule rhe_ge_of_int)
  with q m have "of_nat b powi e \<le> of_int (rhe (x / quantum b p t x)) * quantum b p t x" by simp
  moreover have "of_nat b powi k \<le> (of_nat b powi e :: rat)"
    using b by (simp add: powi_le_iff e_def)
  ultimately show ?thesis using pos by (simp add: rnd_def)
qed

lemma rnd_mono_pos:
  assumes b: "2 \<le> b" and p: "1 \<le> p" and x: "0 < x" and xy: "x \<le> y"
  shows "rnd b p t x \<le> rnd b p t y"
proof (cases "quantum b p t x = quantum b p t y")
  case True
  have "rhe (x / quantum b p t x) \<le> rhe (y / quantum b p t x)"
    using xy quantum_pos [OF b, of p t x] by (intro rhe_mono) (simp add: divide_right_mono)
  then show ?thesis
    using True x xy quantum_pos [OF b, of p t x] by (simp add: rnd_def)
next
  case False
  have le: "expo b x \<le> expo b y" using b x xy by (rule expo_mono)
  let ?k = "expo b x + 1"
  have ne: "expo b x \<noteq> expo b y" and t: "t \<le> expo b y - int p + 1"
    using False le x xy by (auto simp: quantum_def)
  then have k: "?k \<le> expo b y" "t \<le> expo b y" using le p by auto
  have "rnd b p t x \<le> of_nat b powi max ?k t"
  proof (rule rnd_upper [OF b p x])
    have "of_nat b powi ?k \<le> (of_nat b powi max ?k t :: rat)" using b by (simp add: powi_le_iff)
    with expo_spec(2) [OF b x] show "x \<le> of_nat b powi max ?k t" by simp
  qed simp
  also have "\<dots> \<le> rnd b p t y"
  proof (rule rnd_lower [OF b p])
    have "of_nat b powi max ?k t \<le> (of_nat b powi expo b y :: rat)" using b k by (simp add: powi_le_iff)
    with expo_spec(1) [OF b, of y] x xy show "of_nat b powi max ?k t \<le> y" by simp
  qed simp
  finally show ?thesis .
qed

lemma rnd_mono:
  assumes b: "2 \<le> b" and p: "1 \<le> p" and xy: "x \<le> y"
  shows "rnd b p t x \<le> rnd b p t y"
proof -
  consider "0 < x" | "x \<le> 0" "0 \<le> y" | "y < 0" by linarith
  then show ?thesis
  proof cases
    case 1
    from rnd_mono_pos [OF b p this xy] show ?thesis .
  next
    case 2
    have "0 \<le> rnd b p t (- x)" "0 \<le> rnd b p t y" using 2 b by (auto intro: rnd_nonneg)
    then show ?thesis by (simp add: rnd_uminus)
  next
    case 3
    with xy b p have "rnd b p t (- y) \<le> rnd b p t (- x)" by (intro rnd_mono_pos) auto
    then show ?thesis by (simp add: rnd_uminus)
  qed
qed

lemma rnd_fits:
  assumes b: "2 \<le> b" and p: "1 \<le> p"
  shows "fits b p t (rnd b p t x)"
proof (cases "x = 0")
  case True
  have "rnd b p t x = of_int 0 * of_nat b powi t" using True by simp
  then show ?thesis unfolding fits_def by (intro exI [of _ 0] exI [of _ t]) simp
next
  case False
  define k where "k = max (expo b \<bar>x\<bar> - int p + 1) t"
  have q: "quantum b p t x = of_nat b powi k" by (simp add: quantum_def k_def)
  have "\<bar>x\<bar> < of_nat b powi (expo b \<bar>x\<bar> + 1)" using expo_spec(2) [OF b] False by simp
  also have "\<dots> \<le> of_nat b powi (k + int p)" using b by (simp add: powi_le_iff k_def)
  also have "\<dots> = of_int (int b ^ p) * of_nat b powi k"
    using b by (simp add: power_int_add mult.commute)
  finally have lt: "\<bar>x / of_nat b powi k\<bar> < of_int (int b ^ p)"
    using b by (simp add: pos_divide_less_eq)
  then have "x / of_nat b powi k \<le> of_int (int b ^ p)" "of_int (- (int b ^ p)) \<le> x / of_nat b powi k"
    by linarith+
  then have "rhe (x / of_nat b powi k) \<le> int b ^ p" "- (int b ^ p) \<le> rhe (x / of_nat b powi k)"
    by (blast intro: rhe_le_of_int rhe_ge_of_int)+
  then have "\<bar>rhe (x / of_nat b powi k)\<bar> \<le> int b ^ p" by linarith
  moreover have "rnd b p t x = of_int (rhe (x / of_nat b powi k)) * of_nat b powi k"
    using False q by (simp add: rnd_def)
  moreover have "t \<le> k" by (simp add: k_def)
  ultimately show ?thesis unfolding fits_def by blast
qed

lemma rnd_idem [simp]: "2 \<le> b \<Longrightarrow> 1 \<le> p \<Longrightarrow> rnd b p t (rnd b p t x) = rnd b p t x"
  by (simp add: rnd_exact rnd_fits)

text \<open>The error is at most half a unit in the last place.\<close>

lemma rnd_error: "2 \<le> b \<Longrightarrow> \<bar>rnd b p t x - x\<bar> \<le> quantum b p t x / 2"
proof -
  assume b: "2 \<le> b"
  let ?q = "quantum b p t x"
  have q: "0 < ?q" using b by (rule quantum_pos)
  have "\<bar>of_int (rhe (x / ?q)) - x / ?q\<bar> \<le> 1 / 2" using rhe_bounds [of "x / ?q"] by linarith
  then have "\<bar>of_int (rhe (x / ?q)) - x / ?q\<bar> * ?q \<le> 1 / 2 * ?q" using q by (intro mult_right_mono) auto
  then have "\<bar>(of_int (rhe (x / ?q)) - x / ?q) * ?q\<bar> \<le> ?q / 2" using q by (simp add: abs_mult)
  then show ?thesis using q by (cases "x = 0") (simp_all add: rnd_def left_diff_distrib)
qed

end
