(* ===== verification/Decimals.thy ===== *)
theory Decimals
  imports Rounding
begin

text \<open>
  The numbers of the program. A finite \<^verbatim>\<open>decimal.Decimal\<close> is its exact rational value;
  every arithmetic operation computes the exact result and rounds it to the 28 digits of the
  default context, half to even (\<open>dec\<close>). The exponent a \<open>Decimal\<close> keeps besides its value
  (trailing zeros) shows only in \<open>str\<close>, which is a parameter of the components that print.
  A finite \<^verbatim>\<open>float\<close> is its exact value too, with the binary64 rounding \<open>fl\<close>.
  The theory holds the interface \<open>rounding\<close> that both roundings satisfy, the operations with
  their exceptions, and the grid of money and hour values on which sums are exact.
\<close>

section \<open>The interface of a rounding\<close>

locale rounding =
  fixes rd :: "rat \<Rightarrow> rat"
  assumes rd_mono: "x \<le> y \<Longrightarrow> rd x \<le> rd y"
    and rd_minus: "rd (- x) = - rd x"
    and rd_idem: "rd (rd x) = rd x"
begin

lemma rd_zero: "rd 0 = 0"
  using rd_minus [of 0] by simp

lemma rd_nonneg: "0 \<le> x \<Longrightarrow> 0 \<le> rd x"
  using rd_mono [of 0 x] rd_zero by simp

lemma rd_nonpos: "x \<le> 0 \<Longrightarrow> rd x \<le> 0"
  using rd_mono [of x 0] rd_zero by simp

lemma rd_le_rep: "rd z = z \<Longrightarrow> x \<le> z \<Longrightarrow> rd x \<le> z"
  using rd_mono [of x z] by simp

lemma rd_ge_rep: "rd z = z \<Longrightarrow> z \<le> x \<Longrightarrow> z \<le> rd x"
  using rd_mono [of z x] by simp

lemma rd_inj_rep: "rd x = x \<Longrightarrow> rd y = y \<Longrightarrow> rd (- x) = rd (- y) \<longleftrightarrow> x = y"
  by (simp add: rd_minus)

text \<open>Summing non-negative values, rounding after every addition.\<close>

definition rd_sum :: "rat \<Rightarrow> rat list \<Rightarrow> rat" where
  "rd_sum a xs = foldl (\<lambda>s x. rd (s + x)) a xs"

lemma rd_sum_Nil: "rd_sum a [] = a"
  by (simp add: rd_sum_def)

lemma rd_sum_Cons: "rd_sum a (x # xs) = rd_sum (rd (a + x)) xs"
  by (simp add: rd_sum_def)

lemma rd_sum_ge: "rd a = a \<Longrightarrow> \<forall>x\<in>set xs. 0 \<le> x \<Longrightarrow> a \<le> rd_sum a xs"
proof (induction xs arbitrary: a)
  case Nil
  then show ?case by (simp add: rd_sum_Nil)
next
  case (Cons x xs)
  then have "a \<le> rd (a + x)" by (simp add: rd_ge_rep)
  also have "\<dots> \<le> rd_sum (rd (a + x)) xs" using Cons rd_idem by simp
  finally show ?case by (simp add: rd_sum_Cons)
qed

end

section \<open>Decimals\<close>

definition dec :: "rat \<Rightarrow> rat" where
  "dec x = rnd 10 28 (-1000026) x"

definition fl :: "rat \<Rightarrow> rat" where
  "fl x = rnd 2 53 (-1074) x"

interpretation decr: rounding dec
  by unfold_locales (simp_all add: dec_def rnd_mono rnd_uminus)

interpretation flr: rounding fl
  by unfold_locales (simp_all add: fl_def rnd_mono rnd_uminus)

declare decr.rd_idem [simp] decr.rd_zero [simp] flr.rd_idem [simp] flr.rd_zero [simp]

definition dec_add :: "rat \<Rightarrow> rat \<Rightarrow> rat" where
  "dec_add x y = dec (x + y)"

definition dec_sub :: "rat \<Rightarrow> rat \<Rightarrow> rat" where
  "dec_sub x y = dec (x - y)"

definition dec_mul :: "rat \<Rightarrow> rat \<Rightarrow> rat" where
  "dec_mul x y = dec (x * y)"

definition dec_neg :: "rat \<Rightarrow> rat" where
  "dec_neg x = dec (- x)"

definition dec_abs :: "rat \<Rightarrow> rat" where
  "dec_abs x = dec \<bar>x\<bar>"

text \<open>
  The exceptions that the modelled code raises. Messages are not modelled, except where the
  code stores them as data.
\<close>

datatype exn = ValueError | TypeError | KeyError | RuntimeError | AttributeError
  | InvalidOperation | DivisionByZero | ValidationError
  | OverflowError | ZeroDivisionError | OSError | DatabaseError | HTTPError int
  | DuplicateWorkOrderError string
  | AssignmentPersistenceError string string rat "string list"

text \<open>\<open>x / y\<close>: division by zero is trapped.\<close>

definition dec_div :: "rat \<Rightarrow> rat \<Rightarrow> exn + rat" where
  "dec_div x y = (if y = 0 then Inl (if x = 0 then InvalidOperation else DivisionByZero)
     else Inr (dec (x / y)))"

text \<open>
  \<open>x % y\<close>: the quotient is truncated towards zero, so the remainder has the sign of \<open>x\<close>; an
  integer quotient of more than 28 digits is an invalid operation.
\<close>

definition rat_trunc :: "rat \<Rightarrow> int" where
  "rat_trunc x = (if x < 0 then \<lceil>x\<rceil> else \<lfloor>x\<rfloor>)"

definition dec_mod :: "rat \<Rightarrow> rat \<Rightarrow> exn + rat" where
  "dec_mod x y = (if y = 0 then Inl InvalidOperation
     else if 10 ^ 28 \<le> \<bar>rat_trunc (x / y)\<bar> then Inl InvalidOperation
     else Inr (dec (x - of_int (rat_trunc (x / y)) * y)))"

text \<open>\<open>x.quantize(Decimal("1"))\<close>: an integer of at most 28 digits.\<close>

definition quantize_one :: "rat \<Rightarrow> exn + rat" where
  "quantize_one x = (if 10 ^ 28 \<le> \<bar>rhe x\<bar> then Inl InvalidOperation else Inr (of_int (rhe x)))"

text \<open>\<open>sum(xs, Decimal("0"))\<close>.\<close>

definition dec_sum :: "rat list \<Rightarrow> rat" where
  "dec_sum xs = foldl dec_add 0 xs"

lemma foldl_dec_add: "foldl dec_add a xs = decr.rd_sum a xs"
  by (simp add: decr.rd_sum_def dec_add_def [abs_def])

section \<open>Exactly representable values\<close>

text \<open>A value of at most 28 digits, the form in which all values enter the system.\<close>

definition dec_rep :: "rat \<Rightarrow> bool" where
  "dec_rep x \<longleftrightarrow> dec x = x"

lemma dec_rep_dec [simp]: "dec_rep (dec x)"
  by (simp add: dec_rep_def)

lemma dec_rep_0 [simp]: "dec_rep 0"
  by (simp add: dec_rep_def)

lemma dec_neg_rep: "dec_rep x \<Longrightarrow> dec_neg x = - x"
  by (simp add: dec_neg_def dec_rep_def decr.rd_minus)

text \<open>
  The grid: at most eight decimal places and fewer than twenty digits before the point. Every
  sum or difference of two grid values whose result is below the bound is exact.
\<close>

definition grid :: "rat \<Rightarrow> bool" where
  "grid x \<longleftrightarrow> of_int \<lfloor>x * 10 ^ 8\<rfloor> = x * 10 ^ 8 \<and> \<bar>x\<bar> < 10 ^ 20"

lemma grid_iff: "grid x \<longleftrightarrow> (\<exists>n::int. x = of_int n / 10 ^ 8) \<and> \<bar>x\<bar> < 10 ^ 20"
proof -
  have "of_int \<lfloor>x * 10 ^ 8\<rfloor> = x * 10 ^ 8 \<longleftrightarrow> (\<exists>n::int. x * 10 ^ 8 = of_int n)"
    by (metis floor_of_int)
  also have "\<dots> \<longleftrightarrow> (\<exists>n::int. x = of_int n / 10 ^ 8)"
    by (auto simp: field_simps)
  finally show ?thesis by (simp add: grid_def)
qed

lemma dec_exact_places:
  fixes n :: int
  assumes "x = of_int n / 10 ^ d" "\<bar>n\<bar> < 10 ^ 28" "d \<le> 1000026"
  shows "dec x = x"
  unfolding dec_def
proof (rule rnd_exact_less)
  show "x = of_int n * of_nat 10 powi (- int d)"
    using assms(1) by (simp add: power_int_minus divide_inverse)
qed (use assms in auto)

lemma grid_rep: "grid x \<Longrightarrow> dec x = x"
proof -
  assume "grid x"
  then obtain n :: int where n: "x = of_int n / 10 ^ 8" and lt: "\<bar>x\<bar> < 10 ^ 20"
    by (auto simp: grid_iff)
  then have "\<bar>of_int n\<bar> < (10 ^ 28 :: rat)" by (simp add: abs_divide divide_less_eq)
  then have "of_int \<bar>n\<bar> < (of_int (10 ^ 28) :: rat)" by simp
  then have "\<bar>n\<bar> < 10 ^ 28" by (simp only: of_int_less_iff)
  with n show ?thesis by (rule dec_exact_places) simp
qed

lemma grid_dec_rep: "grid x \<Longrightarrow> dec_rep x"
  by (simp add: dec_rep_def grid_rep)

lemma grid_add: "grid x \<Longrightarrow> grid y \<Longrightarrow> \<bar>x + y\<bar> < 10 ^ 20 \<Longrightarrow> grid (x + y)"
  by (auto simp: grid_iff simp flip: add_divide_distrib of_int_add)

lemma grid_diff: "grid x \<Longrightarrow> grid y \<Longrightarrow> \<bar>x - y\<bar> < 10 ^ 20 \<Longrightarrow> grid (x - y)"
  by (auto simp: grid_iff simp flip: diff_divide_distrib of_int_diff)

lemma grid_minus: "grid x \<Longrightarrow> grid (- x)"
  by (auto simp: grid_iff simp flip: minus_divide_left of_int_minus intro: exI)

lemma grid_0 [simp]: "grid 0"
  by (simp add: grid_def)

lemma grid_min: "grid x \<Longrightarrow> grid y \<Longrightarrow> grid (min x y)"
  by (simp add: min_def)

lemma grid_sub_range: "grid x \<Longrightarrow> grid y \<Longrightarrow> 0 \<le> y \<Longrightarrow> y \<le> x \<Longrightarrow> grid (x - y)"
  by (rule grid_diff) (auto simp: grid_def)

lemma dec_sub_grid: "grid x \<Longrightarrow> grid y \<Longrightarrow> 0 \<le> y \<Longrightarrow> y \<le> x \<Longrightarrow> dec_sub x y = x - y"
  by (simp add: dec_sub_def grid_rep grid_sub_range)

lemma dec_add_grid: "grid x \<Longrightarrow> grid y \<Longrightarrow> \<bar>x + y\<bar> < 10 ^ 20 \<Longrightarrow> dec_add x y = x + y"
  by (simp add: dec_add_def grid_rep grid_add)

text \<open>
  A running sum of non-negative grid values is exact until it reaches the bound, and stays
  at or above the bound from there on, so comparing it with a grid value is always right.
\<close>

lemma dec_big: "(10::rat) ^ 20 \<le> x \<Longrightarrow> 10 ^ 20 \<le> dec x"
proof -
  have "dec (of_int (10 ^ 20)) = of_int (10 ^ 20)"
    by (rule dec_exact_places [where n = "10 ^ 20" and d = 0]) simp_all
  then show "10 ^ 20 \<le> x \<Longrightarrow> 10 ^ 20 \<le> dec x" by (intro decr.rd_ge_rep) simp_all
qed

definition tracks :: "rat \<Rightarrow> rat \<Rightarrow> bool" where
  "tracks s x \<longleftrightarrow> (s = x \<and> grid x) \<or> (10 ^ 20 \<le> s \<and> 10 ^ 20 \<le> x)"

lemma tracks_0 [simp]: "tracks 0 0"
  by (simp add: tracks_def)

lemma tracks_add:
  assumes "tracks s x" "grid y" "0 \<le> y" "0 \<le> x"
  shows "tracks (dec_add s y) (x + y)"
proof (cases "s = x \<and> grid x \<and> x + y < 10 ^ 20")
  case True
  then have "grid (x + y)" using assms by (intro grid_add) auto
  with True show ?thesis by (simp add: tracks_def dec_add_def grid_rep)
next
  case False
  then have "10 ^ 20 \<le> s + y" "10 ^ 20 \<le> x + y" using assms by (auto simp: tracks_def)
  with dec_big [of "s + y"] show ?thesis by (simp add: tracks_def dec_add_def)
qed

lemma tracks_compare: "tracks s x \<Longrightarrow> grid y \<Longrightarrow> y \<le> s \<longleftrightarrow> y \<le> x"
  by (auto simp: tracks_def grid_def)

lemma tracks_foldl:
  "tracks s a \<Longrightarrow> 0 \<le> a \<Longrightarrow> \<forall>x\<in>set xs. grid x \<and> 0 \<le> x \<Longrightarrow>
   tracks (foldl dec_add s xs) (a + sum_list xs)"
proof (induction xs arbitrary: s a)
  case Nil
  then show ?case by simp
next
  case (Cons x xs)
  then have "tracks (dec_add s x) (a + x)" by (intro tracks_add) auto
  with Cons have "tracks (foldl dec_add (dec_add s x) xs) (a + x + sum_list xs)"
    by (intro Cons.IH) auto
  then show ?case by (simp add: add.assoc)
qed

lemma dec_sum_tracks: "\<forall>x\<in>set xs. grid x \<and> 0 \<le> x \<Longrightarrow> tracks (dec_sum xs) (sum_list xs)"
  using tracks_foldl [of 0 0 xs] by (simp add: dec_sum_def)

text \<open>Evaluation: a literal with at most eight places rounds to itself.\<close>

lemma dec_literal [simp]:
  "of_int \<lfloor>x * 10 ^ 8\<rfloor> = x * 10 ^ 8 \<Longrightarrow> \<bar>x\<bar> < 10 ^ 20 \<Longrightarrow> dec x = x"
  using grid_rep by (simp add: grid_def)

lemmas dec_op_defs = dec_add_def dec_sub_def dec_mul_def dec_neg_def dec_abs_def

end
