(* ===== verification/Models.thy ===== *)
theory Models
  imports Decimals
begin

text \<open>
  The domain models of \<^verbatim>\<open>mittelwerk/core/models.py\<close>: time stamps, the
  enumerations, equipment, work orders, assignments, workloads, organization snapshots and
  telemetry readings. Constructing a model checks its field constraints and validators
  (\<open>ValidationError\<close>); arithmetic is the decimal arithmetic of \<open>Decimals\<close>. Inputs arrive
  with the type their field declares, so the coercions from other types are not modelled.
\<close>

section \<open>Time stamps\<close>

text \<open>
  A \<^verbatim>\<open>datetime\<close> is naive or aware; an aware one is an instant (microseconds since the
  epoch) with the offset it is displayed in. \<open>ensure_utc\<close> keeps the instant.
\<close>

datatype datetime = Naive int | Aware int int

definition ensure_utc :: "datetime \<Rightarrow> exn + datetime" where
  "ensure_utc dt = (case dt of Naive _ \<Rightarrow> Inl ValueError | Aware t _ \<Rightarrow> Inr (Aware t 0))"

fun instant :: "datetime \<Rightarrow> int" where
  "instant (Naive t) = t"
| "instant (Aware t _) = t"

section \<open>Enumerations\<close>

datatype dispatch_side = REQUEST | OFFER

definition opposite :: "dispatch_side \<Rightarrow> dispatch_side" where
  "opposite s = (if s = REQUEST then OFFER else REQUEST)"

definition side_sign :: "dispatch_side \<Rightarrow> rat" where
  "side_sign s = (if s = REQUEST then 1 else -1)"

fun side_value :: "dispatch_side \<Rightarrow> string" where
  "side_value REQUEST = ''REQUEST''"
| "side_value OFFER = ''OFFER''"

datatype work_order_mode = RATE_CAPPED | ANY_RATE | ESCALATION | ESCALATION_CAPPED

fun mode_value :: "work_order_mode \<Rightarrow> string" where
  "mode_value RATE_CAPPED = ''RATE_CAPPED''"
| "mode_value ANY_RATE = ''ANY_RATE''"
| "mode_value ESCALATION = ''ESCALATION''"
| "mode_value ESCALATION_CAPPED = ''ESCALATION_CAPPED''"

datatype work_order_status = NEW | ACCEPTED | PARTIALLY_ASSIGNED | ASSIGNED | CANCELLED
  | REJECTED | EXPIRED

fun status_value :: "work_order_status \<Rightarrow> string" where
  "status_value NEW = ''NEW''"
| "status_value ACCEPTED = ''ACCEPTED''"
| "status_value PARTIALLY_ASSIGNED = ''PARTIALLY_ASSIGNED''"
| "status_value ASSIGNED = ''ASSIGNED''"
| "status_value CANCELLED = ''CANCELLED''"
| "status_value REJECTED = ''REJECTED''"
| "status_value EXPIRED = ''EXPIRED''"

definition is_terminal :: "work_order_status \<Rightarrow> bool" where
  "is_terminal s \<longleftrightarrow> s \<in> {ASSIGNED, CANCELLED, REJECTED, EXPIRED}"

datatype equipment_category = CNC_MACHINE | HYDRAULIC_PRESS | CONVEYOR_SYSTEM | ROBOTIC_ARM
  | COMPRESSOR | GENERATOR | HVAC_UNIT | FORKLIFT

datatype dispatch_window = OPEN | SHIFT | IMMEDIATE | COMPLETE | SCHEDULED_END

fun window_value :: "dispatch_window \<Rightarrow> string" where
  "window_value OPEN = ''OPEN''"
| "window_value SHIFT = ''SHIFT''"
| "window_value IMMEDIATE = ''IMMEDIATE''"
| "window_value COMPLETE = ''COMPLETE''"
| "window_value SCHEDULED_END = ''SCHEDULED_END''"

lemma opposite_invol [simp]: "opposite (opposite s) = s"
  by (cases s) (auto simp: opposite_def)

lemma opposite_neq [simp]: "opposite s \<noteq> s"
  by (cases s) (auto simp: opposite_def)

lemma side_sign_opposite: "side_sign (opposite s) = - side_sign s"
  by (cases s) (auto simp: opposite_def side_sign_def)

lemma status_value_inj: "status_value s = status_value s' \<longleftrightarrow> s = s'"
  by (cases s; cases s') auto

section \<open>Equipment\<close>

record equipment =
  eq_asset_id :: string
  eq_name :: string
  equipment_type :: equipment_category
  service_interval_days :: int
  hourly_service_rate :: rat
  rate_increment :: rat
  hour_lot_size :: rat
  currency :: string
  site_code :: string

text \<open>The pattern \<^verbatim>\<open>^[A-Z0-9][A-Z0-9._/\-]*$\<close>.\<close>

definition asset_char :: "char \<Rightarrow> bool" where
  "asset_char c \<longleftrightarrow> is_upper c \<or> is_digit c \<or> c \<in> set ''._/-''"

fun asset_id_re :: "string \<Rightarrow> bool" where
  "asset_id_re [] = False"
| "asset_id_re (c # cs) = ((is_upper c \<or> is_digit c) \<and> list_all asset_char cs)"

text \<open>The pattern \<^verbatim>\<open>^[A-Z]{3}$\<close>, matched in full.\<close>

definition currency_re :: "string \<Rightarrow> bool" where
  "currency_re s \<longleftrightarrow> length s = 3 \<and> list_all is_upper s"

text \<open>
  \<open>Equipment(...)\<close>: the \<open>before\<close> validators normalise the identifiers, then the field
  constraints and the \<open>after\<close> validators run.
\<close>

definition mk_equipment :: "equipment \<Rightarrow> exn + equipment" where
  "mk_equipment e =
     (let asset = upper (strip (eq_asset_id e)); cur = upper (strip (currency e)) in
      if length asset < 1 \<or> 32 < length asset \<or> \<not> asset_id_re asset then Inl ValidationError
      else if length (eq_name e) < 1 then Inl ValidationError
      else if service_interval_days e \<le> 0 then Inl ValidationError
      else if hourly_service_rate e \<le> 0 then Inl ValidationError
      else if rate_increment e \<le> 0 then Inl ValidationError
      else if hour_lot_size e \<le> 0 then Inl ValidationError
      else if length cur \<noteq> 3 \<or> \<not> currency_re cur then Inl ValidationError
      else if length (site_code e) < 1 then Inl ValidationError
      else Inr (e\<lparr>eq_asset_id := asset, currency := cur\<rparr>))"

definition is_escalation_capable :: "equipment \<Rightarrow> bool" where
  "is_escalation_capable e \<longleftrightarrow> equipment_type e \<in> {COMPRESSOR, GENERATOR, HVAC_UNIT}"

definition round_rate :: "equipment \<Rightarrow> rat \<Rightarrow> exn + rat" where
  "round_rate e rate =
     (case dec_div rate (rate_increment e) of
        Inl x \<Rightarrow> Inl x
      | Inr s \<Rightarrow> (case quantize_one s of
            Inl x \<Rightarrow> Inl x
          | Inr steps \<Rightarrow> Inr (dec_mul steps (rate_increment e))))"

definition is_valid_rate :: "equipment \<Rightarrow> rat \<Rightarrow> exn + bool" where
  "is_valid_rate e rate =
     (if rate \<le> 0 then Inr False
      else case dec_mod rate (rate_increment e) of
          Inl x \<Rightarrow> Inl x
        | Inr r \<Rightarrow> Inr (r = 0))"

definition is_valid_hours :: "equipment \<Rightarrow> rat \<Rightarrow> exn + bool" where
  "is_valid_hours e hours =
     (if hours \<le> 0 then Inr False
      else case dec_mod hours (hour_lot_size e) of
          Inl x \<Rightarrow> Inl x
        | Inr r \<Rightarrow> Inr (r = 0))"

section \<open>Work orders\<close>

record work_order =
  work_order_id :: string
  wo_organization :: string
  wo_asset :: string
  side :: dispatch_side
  mode :: work_order_mode
  requested_hours :: rat
  max_hourly_rate :: "rat option"
  escalation_rate :: "rat option"
  priority :: int
  dispatch_window :: dispatch_window
  status :: work_order_status
  assigned_hours :: rat
  average_rate :: "rat option"
  created_at :: int
  updated_at :: "int option"
  signature :: "string option"

definition positive_rate :: "rat option \<Rightarrow> bool" where
  "positive_rate r \<longleftrightarrow> (case r of None \<Rightarrow> False | Some x \<Rightarrow> 0 < x)"

text \<open>The \<open>after\<close> validator \<^verbatim>\<open>_validate_work_order\<close>.\<close>

definition validate_work_order :: "work_order \<Rightarrow> bool" where
  "validate_work_order w \<longleftrightarrow>
     (mode w \<in> {RATE_CAPPED, ESCALATION_CAPPED} \<longrightarrow> positive_rate (max_hourly_rate w)) \<and>
     (mode w \<in> {ESCALATION, ESCALATION_CAPPED} \<longrightarrow> positive_rate (escalation_rate w)) \<and>
     assigned_hours w \<le> requested_hours w"

text \<open>The constraints that the fields declare.\<close>

definition work_order_fields_ok :: "work_order \<Rightarrow> bool" where
  "work_order_fields_ok w \<longleftrightarrow>
     1 \<le> length (wo_organization w) \<and> 1 \<le> length (wo_asset w) \<and> length (wo_asset w) \<le> 32 \<and>
     0 < requested_hours w \<and> 1 \<le> priority w \<and> priority w \<le> 5 \<and> 0 \<le> assigned_hours w"

definition work_order_valid :: "work_order \<Rightarrow> bool" where
  "work_order_valid w \<longleftrightarrow> work_order_fields_ok w \<and> validate_work_order w"

definition mk_work_order :: "work_order \<Rightarrow> exn + work_order" where
  "mk_work_order w = (let w' = w\<lparr>wo_asset := upper (strip (wo_asset w))\<rparr> in
     if work_order_valid w' then Inr w' else Inl ValidationError)"

text \<open>
  An assignment to a field re-runs the validators (\<^verbatim>\<open>validate_assignment=True\<close>).
\<close>

definition assign_field :: "(work_order \<Rightarrow> work_order) \<Rightarrow> work_order \<Rightarrow> exn + work_order" where
  "assign_field f w = (if work_order_valid (f w) then Inr (f w) else Inl ValidationError)"

definition remaining_hours :: "work_order \<Rightarrow> rat" where
  "remaining_hours w = dec_sub (requested_hours w) (assigned_hours w)"

definition is_fully_assigned :: "work_order \<Rightarrow> bool" where
  "is_fully_assigned w \<longleftrightarrow> requested_hours w \<le> assigned_hours w"

definition is_request :: "work_order \<Rightarrow> bool" where
  "is_request w \<longleftrightarrow> side w = REQUEST"

definition is_active :: "work_order \<Rightarrow> bool" where
  "is_active w \<longleftrightarrow> \<not> is_terminal (status w)"

section \<open>Assignments\<close>

record service_assignment =
  assignment_id :: string
  sa_asset :: string
  requester_work_order_id :: string
  provider_work_order_id :: string
  hourly_rate :: rat
  hours :: rat
  requester_organization :: string
  provider_organization :: string
  initiating_side :: dispatch_side
  sa_timestamp :: int

definition mk_service_assignment :: "service_assignment \<Rightarrow> exn + service_assignment" where
  "mk_service_assignment a =
     (if 0 < hourly_rate a \<and> 0 < hours a then Inr a else Inl ValidationError)"

definition sa_total_cost :: "service_assignment \<Rightarrow> rat" where
  "sa_total_cost a = dec_mul (hourly_rate a) (hours a)"

section \<open>Workloads\<close>

record workload =
  wl_organization :: string
  wl_asset :: string
  net_hours :: rat
  average_service_rate :: rat
  realized_cost :: rat
  unrealized_cost :: rat
  last_rate :: "rat option"
  last_updated :: int

definition new_workload :: "string \<Rightarrow> string \<Rightarrow> int \<Rightarrow> workload" where
  "new_workload org asset now = \<lparr>wl_organization = org, wl_asset = asset, net_hours = 0,
     average_service_rate = 0, realized_cost = 0, unrealized_cost = 0, last_rate = None,
     last_updated = now\<rparr>"

definition is_idle :: "workload \<Rightarrow> bool" where
  "is_idle w \<longleftrightarrow> net_hours w = 0"

definition is_net_requester :: "workload \<Rightarrow> bool" where
  "is_net_requester w \<longleftrightarrow> 0 < net_hours w"

definition is_net_provider :: "workload \<Rightarrow> bool" where
  "is_net_provider w \<longleftrightarrow> net_hours w < 0"

definition wl_total_cost :: "workload \<Rightarrow> rat" where
  "wl_total_cost w = dec_add (realized_cost w) (unrealized_cost w)"

definition exposure_value :: "rat option \<Rightarrow> workload \<Rightarrow> rat" where
  "exposure_value mark_rate w =
     (let rate = (case mark_rate of Some m \<Rightarrow> Some m | None \<Rightarrow> last_rate w) in
      dec_mul (net_hours w) (case rate of Some r \<Rightarrow> r | None \<Rightarrow> average_service_rate w))"

definition recompute_unrealized_cost :: "rat \<Rightarrow> workload \<Rightarrow> workload" where
  "recompute_unrealized_cost mark_rate w =
     (if net_hours w = 0 then w\<lparr>unrealized_cost := 0\<rparr>
      else w\<lparr>unrealized_cost :=
             dec_mul (dec_sub mark_rate (average_service_rate w)) (net_hours w)\<rparr>)"

text \<open>
  The three branches of \<^verbatim>\<open>Workload.apply_assignment\<close>: opening, increasing, and reducing,
  closing or flipping; each returns the realised cost and the workload.
\<close>

definition increase_workload :: "rat \<Rightarrow> rat \<Rightarrow> rat \<Rightarrow> workload \<Rightarrow> exn + (rat \<times> workload)" where
  "increase_workload signed_delta hrs rate w =
     (let new_hours = dec_add (net_hours w) signed_delta;
          total_cost = dec_add (dec_mul (average_service_rate w) (dec_abs (net_hours w)))
                               (dec_mul rate hrs)
      in case dec_div total_cost (dec_abs new_hours) of
           Inl e \<Rightarrow> Inl e
         | Inr avg \<Rightarrow> Inr (0, w\<lparr>net_hours := new_hours, average_service_rate := avg\<rparr>))"

definition reduce_workload :: "rat \<Rightarrow> rat \<Rightarrow> rat \<Rightarrow> workload \<Rightarrow> rat \<times> workload" where
  "reduce_workload signed_delta hrs rate w =
     (let closing_hours = min hrs (dec_abs (net_hours w));
          position_sign = (if 0 < net_hours w then 1 else -1);
          realised = dec_mul (dec_mul (dec_sub rate (average_service_rate w)) closing_hours)
                             position_sign;
          w1 = w\<lparr>realized_cost := dec_add (realized_cost w) realised\<rparr>;
          new_hours = dec_add (net_hours w) signed_delta
      in (realised,
          if new_hours = 0 then w1\<lparr>net_hours := 0, average_service_rate := 0\<rparr>
          else if (0 < new_hours) = (0 < net_hours w) then w1\<lparr>net_hours := new_hours\<rparr>
          else w1\<lparr>net_hours := new_hours, average_service_rate := rate\<rparr>))"

definition apply_assignment ::
  "dispatch_side \<Rightarrow> rat \<Rightarrow> rat \<Rightarrow> int \<Rightarrow> workload \<Rightarrow> exn + (rat \<times> workload)" where
  "apply_assignment s hrs rate now w =
     (if hrs \<le> 0 then Inl ValueError
      else
        let signed_delta = dec_mul hrs (side_sign s);
            moved =
              (if net_hours w = 0
               then Inr (0, w\<lparr>net_hours := signed_delta, average_service_rate := rate\<rparr>)
               else if (0 < net_hours w) = (0 < signed_delta)
               then increase_workload signed_delta hrs rate w
               else Inr (reduce_workload signed_delta hrs rate w))
        in case moved of
             Inl e \<Rightarrow> Inl e
           | Inr (realised, w1) \<Rightarrow>
               Inr (realised, recompute_unrealized_cost rate
                                (w1\<lparr>last_rate := Some rate, last_updated := now\<rparr>)))"

definition reprice :: "rat \<Rightarrow> int \<Rightarrow> workload \<Rightarrow> rat \<times> workload" where
  "reprice mark_rate now w =
     (let w1 = recompute_unrealized_cost mark_rate (w\<lparr>last_rate := Some mark_rate\<rparr>);
          w2 = w1\<lparr>last_updated := now\<rparr>
      in (unrealized_cost w2, w2))"

section \<open>Organization snapshots\<close>

record organization_snapshot =
  os_organization :: string
  os_workloads :: "workload list"
  total_exposure_value :: rat
  total_realized_cost :: rat
  total_unrealized_cost :: rat
  budget_balance :: rat
  os_timestamp :: int

definition mk_snapshot :: "string \<Rightarrow> workload list \<Rightarrow> rat \<Rightarrow> int \<Rightarrow> organization_snapshot" where
  "mk_snapshot org ws budget now =
     \<lparr>os_organization = org, os_workloads = ws,
      total_exposure_value = dec_add budget (dec_sum (map (exposure_value None) ws)),
      total_realized_cost = dec_sum (map realized_cost ws),
      total_unrealized_cost = dec_sum (map unrealized_cost ws),
      budget_balance = budget, os_timestamp = now\<rparr>"

section \<open>Telemetry readings\<close>

record telemetry_reading =
  tr_asset :: string
  min_reading :: rat
  max_reading :: rat
  last_reading :: rat
  sample_count :: int
  tr_timestamp :: datetime

definition mk_telemetry_reading ::
  "string \<Rightarrow> rat \<Rightarrow> rat \<Rightarrow> rat \<Rightarrow> int \<Rightarrow> datetime option \<Rightarrow> int \<Rightarrow> exn + telemetry_reading" where
  "mk_telemetry_reading asset mn mx lst n stamp now =
     (let a = upper (strip asset) in
      if \<not> asset_id_re a then Inl ValueError
      else if mn \<le> 0 \<or> mx \<le> 0 \<or> lst \<le> 0 then Inl ValueError
      else if mx < mn then Inl ValueError
      else if n < 0 then Inl ValueError
      else case (case stamp of Some t \<Rightarrow> ensure_utc t | None \<Rightarrow> Inr (Aware now 0)) of
          Inl e \<Rightarrow> Inl e
        | Inr t \<Rightarrow> Inr \<lparr>tr_asset = a, min_reading = mn, max_reading = mx, last_reading = lst,
                        sample_count = n, tr_timestamp = t\<rparr>)"

definition midpoint_reading :: "telemetry_reading \<Rightarrow> rat" where
  "midpoint_reading r = dec (dec_add (min_reading r) (max_reading r) / 2)"

definition reading_spread :: "telemetry_reading \<Rightarrow> rat" where
  "reading_spread r = dec_sub (max_reading r) (min_reading r)"


section \<open>Lemmas on equipment\<close>

lemma mk_equipment_fields:
  assumes "mk_equipment e = Inr e'"
  shows "eq_asset_id e' = canonical (eq_asset_id e)" "asset_id_re (eq_asset_id e')"
    "length (eq_asset_id e') \<le> 32" "0 < rate_increment e'" "0 < hour_lot_size e'"
    "0 < hourly_service_rate e'" "currency_re (currency e')" "0 < service_interval_days e'"
  using assms by (auto simp: mk_equipment_def Let_def canonical_def split: if_splits)

lemma mk_equipment_idem: "mk_equipment e = Inr e' \<Longrightarrow> mk_equipment e' = Inr e'"
  by (auto simp: mk_equipment_def Let_def strip_upper split: if_splits)

lemma rat_trunc_of_int [simp]: "rat_trunc (of_int n) = n"
  by (simp add: rat_trunc_def)

lemma dec_of_int: "\<bar>n\<bar> < 10 ^ 28 \<Longrightarrow> dec (of_int n) = of_int n"
  by (rule dec_exact_places [where d = 0]) auto

lemma dec_mod_zero_iff:
  assumes "y \<noteq> 0" "dec_rep y" "dec_mod x y = Inr r" "dec_rep x" "0 \<le> x" "0 < y" "grid x" "grid y"
  shows "r = 0 \<longleftrightarrow> (\<exists>n::int. x = of_int n * y)"
proof -
  let ?n = "\<lfloor>x / y\<rfloor>"
  have t: "rat_trunc (x / y) = ?n" using assms by (simp add: rat_trunc_def divide_less_0_iff)
  then have r: "r = dec (x - of_int ?n * y)" using assms by (auto simp: dec_mod_def split: if_splits)
  have lo: "0 \<le> x - of_int ?n * y" and hi: "x - of_int ?n * y < y"
    using assms(6) floor_divide_lower [of y x] floor_divide_upper [of y x]
    by (simp_all add: field_simps)
  obtain a b :: int where ab: "x = of_int a / 10 ^ 8" "y = of_int b / 10 ^ 8"
    using assms by (auto simp: grid_iff)
  then have "x - of_int ?n * y = of_int (a - ?n * b) / 10 ^ 8" by (simp add: field_simps)
  moreover have "\<bar>y\<bar> < 10 ^ 20" using assms(8) by (simp add: grid_def)
  with lo hi assms(6) have "\<bar>x - of_int ?n * y\<bar> < 10 ^ 20" by linarith
  ultimately have "grid (x - of_int ?n * y)" unfolding grid_iff by blast
  then have "r = x - of_int ?n * y" using r by (simp add: grid_rep)
  then have "r = 0 \<longleftrightarrow> x = of_int ?n * y" by auto
  moreover have "x = of_int n * y \<Longrightarrow> ?n = n" for n using assms(6) by simp
  ultimately show ?thesis by auto
qed

lemma is_valid_hours_iff:
  assumes "grid hrs" "grid (hour_lot_size e)" "0 < hour_lot_size e" "hrs < 10 ^ 19"
  shows "is_valid_hours e hrs = Inr (\<exists>n::int. 0 < n \<and> hrs = of_int n * hour_lot_size e)"
proof (cases "hrs \<le> 0")
  case True
  have "\<not> (0 < n \<and> hrs = of_int n * hour_lot_size e)" for n :: int
    using True assms(3) by (auto simp: not_less mult_le_0_iff)
  with True show ?thesis by (simp add: is_valid_hours_def)
next
  case False
  let ?y = "hour_lot_size e"
  obtain m :: int where m: "?y = of_int m / 10 ^ 8" using assms(2) by (auto simp: grid_iff)
  then have "1 \<le> m" using assms(3) by simp
  then have y: "1 / 10 ^ 8 \<le> ?y" using m by simp
  have "hrs / ?y \<le> hrs * 10 ^ 8"
  proof -
    have "hrs * 1 \<le> hrs * (?y * 10 ^ 8)" using y False by (intro mult_left_mono) auto
    then show ?thesis using assms(3) by (simp add: pos_divide_le_eq mult.commute mult.left_commute)
  qed
  then have q: "hrs / ?y < of_int (10 ^ 28)" using assms(4) by simp
  have "\<lfloor>hrs / ?y\<rfloor> < 10 ^ 28" using q by (simp only: floor_less_iff)
  moreover have p: "0 < hrs / ?y" using False assms(3) by simp
  then have "0 \<le> \<lfloor>hrs / ?y\<rfloor>" by simp
  ultimately have b: "\<not> 10 ^ 28 \<le> \<bar>rat_trunc (hrs / ?y)\<bar>" using p by (simp add: rat_trunc_def)
  then obtain r where r: "dec_mod hrs ?y = Inr r" using assms(3) by (simp add: dec_mod_def)
  have "r = 0 \<longleftrightarrow> (\<exists>n::int. hrs = of_int n * ?y)"
    using dec_mod_zero_iff [OF _ _ r] assms False by (simp add: grid_dec_rep)
  also have "\<dots> \<longleftrightarrow> (\<exists>n::int. 0 < n \<and> hrs = of_int n * ?y)"
  proof
    assume "\<exists>n::int. hrs = of_int n * ?y"
    then obtain n :: int where n: "hrs = of_int n * ?y" by blast
    with False assms(3) have "0 < n" by (simp add: mult_le_0_iff not_le)
    with n show "\<exists>n::int. 0 < n \<and> hrs = of_int n * ?y" by blast
  qed blast
  finally show ?thesis using False r by (simp add: is_valid_hours_def)
qed

text \<open>A rate on the increment grid is a fixed point of the rounding.\<close>

lemma round_rate_multiple:
  assumes "rate_increment e \<noteq> 0" "\<bar>n\<bar> < 10 ^ 28" "dec_rep (of_int n * rate_increment e)"
  shows "round_rate e (of_int n * rate_increment e) = Inr (of_int n * rate_increment e)"
  using assms by (simp add: round_rate_def dec_div_def dec_of_int quantize_one_def dec_mul_def dec_rep_def)

lemma round_rate_result:
  assumes "round_rate e rate = Inr r"
  shows "\<exists>n::int. r = dec (of_int n * rate_increment e) \<and> \<bar>n\<bar> < 10 ^ 28"
  using assms by (auto simp: round_rate_def quantize_one_def dec_mul_def split: sum.splits if_splits)

section \<open>Lemmas on workloads\<close>

definition workload_inv :: "workload \<Rightarrow> bool" where
  "workload_inv w \<longleftrightarrow> (net_hours w = 0 \<longrightarrow> average_service_rate w = 0 \<and> unrealized_cost w = 0)"

lemma new_workload_inv [simp]: "workload_inv (new_workload org asset now)"
  by (simp add: workload_inv_def new_workload_def)

lemma recompute_frame [frame_simps]:
  "net_hours (recompute_unrealized_cost m w) = net_hours w"
  "average_service_rate (recompute_unrealized_cost m w) = average_service_rate w"
  "realized_cost (recompute_unrealized_cost m w) = realized_cost w"
  "wl_organization (recompute_unrealized_cost m w) = wl_organization w"
  "wl_asset (recompute_unrealized_cost m w) = wl_asset w"
  "last_rate (recompute_unrealized_cost m w) = last_rate w"
  "last_updated (recompute_unrealized_cost m w) = last_updated w"
  by (simp_all add: recompute_unrealized_cost_def)

lemma recompute_unrealized:
  "unrealized_cost (recompute_unrealized_cost m w) =
   (if net_hours w = 0 then 0 else dec_mul (dec_sub m (average_service_rate w)) (net_hours w))"
  by (simp add: recompute_unrealized_cost_def)

lemma reprice_inv: "workload_inv w \<Longrightarrow> workload_inv (snd (reprice m now w))"
  by (auto simp: reprice_def Let_def workload_inv_def recompute_unrealized_cost_def)

lemma reprice_frame [frame_simps]:
  "net_hours (snd (reprice m now w)) = net_hours w"
  "realized_cost (snd (reprice m now w)) = realized_cost w"
  "average_service_rate (snd (reprice m now w)) = average_service_rate w"
  "wl_organization (snd (reprice m now w)) = wl_organization w"
  "wl_asset (snd (reprice m now w)) = wl_asset w"
  by (simp_all add: reprice_def Let_def frame_simps)

lemma increase_frame:
  "increase_workload d h r w = Inr (z, w') \<Longrightarrow>
   z = 0 \<and> realized_cost w' = realized_cost w \<and> net_hours w' = dec_add (net_hours w) d \<and>
   wl_organization w' = wl_organization w \<and> wl_asset w' = wl_asset w"
  by (auto simp: increase_workload_def Let_def split: sum.splits)

lemma reduce_frame:
  "reduce_workload d h r w = (z, w') \<Longrightarrow>
   net_hours w' = dec_add (net_hours w) d \<and> realized_cost w' = dec_add (realized_cost w) z \<and>
   wl_organization w' = wl_organization w \<and> wl_asset w' = wl_asset w"
  by (auto simp: reduce_workload_def Let_def split: if_splits)

lemma apply_assignment_keys:
  "apply_assignment s h r now w = Inr (z, w') \<Longrightarrow>
   wl_organization w' = wl_organization w \<and> wl_asset w' = wl_asset w \<and>
   last_rate w' = Some r \<and> last_updated w' = now"
  by (auto simp: apply_assignment_def Let_def frame_simps split: if_splits sum.splits prod.splits
      dest!: increase_frame reduce_frame dest: sym)

lemma signed_hours_exact: "dec_rep h \<Longrightarrow> dec_mul h (side_sign s) = side_sign s * h"
  by (simp add: dec_mul_def side_sign_def dec_rep_def decr.rd_minus)

text \<open>On the grid an assignment always succeeds and moves the net hours by exactly its hours.\<close>

lemma apply_assignment_grid:
  assumes h: "0 < h" "grid h" and n: "grid (net_hours w)"
    and b: "\<bar>net_hours w + side_sign s * h\<bar> < 10 ^ 20"
  shows "\<exists>z w'. apply_assignment s h r now w = Inr (z, w') \<and>
           net_hours w' = net_hours w + side_sign s * h \<and> grid (net_hours w')"
proof -
  let ?d = "side_sign s * h"
  have d: "dec_mul h (side_sign s) = ?d" using h by (simp add: signed_hours_exact grid_dec_rep)
  have gd: "grid ?d" using h by (cases s) (auto simp: side_sign_def grid_minus)
  have d0: "?d \<noteq> 0" using h by (cases s) (auto simp: side_sign_def)
  have sum: "dec_add (net_hours w) ?d = net_hours w + ?d" and g: "grid (net_hours w + ?d)"
    using n gd b by (simp_all add: dec_add_grid grid_add)
  show ?thesis
  proof (cases "net_hours w = 0")
    case True
    then show ?thesis using h d gd by (simp add: apply_assignment_def frame_simps)
  next
    case nz: False
    show ?thesis
    proof (cases "(0 < net_hours w) = (0 < ?d)")
      case True
      with nz d0 have "net_hours w + ?d \<noteq> 0" by linarith
      with g have "dec_abs (net_hours w + ?d) \<noteq> 0"
        by (metis abs_of_neg abs_of_pos dec_abs_def grid_minus grid_rep linorder_neqE neg_0_less_iff_less not_less_iff_gr_or_eq)
      with nz True h d sum g show ?thesis
        by (simp add: apply_assignment_def increase_workload_def Let_def dec_div_def frame_simps)
    next
      case False
      obtain z w1 where red: "reduce_workload ?d h r w = (z, w1)" by fastforce
      with reduce_frame sum have "net_hours w1 = net_hours w + ?d" by metis
      with nz False h d g red show ?thesis
        by (simp add: apply_assignment_def frame_simps)
    qed
  qed
qed

lemma apply_assignment_inv:
  assumes "apply_assignment s h r now w = Inr (z, w')" "grid h" "grid (net_hours w)"
    "\<bar>net_hours w + side_sign s * h\<bar> < 10 ^ 20"
  shows "workload_inv w'"
proof -
  have h: "0 < h" using assms(1) by (auto simp: apply_assignment_def split: if_splits)
  have d: "dec_mul h (side_sign s) = side_sign s * h" using assms by (simp add: signed_hours_exact grid_dec_rep)
  have ne: "side_sign s * h \<noteq> 0" using h by (cases s) (auto simp: side_sign_def)
  obtain z1 w1 where w1: "apply_assignment s h r now w = Inr (z1, w1)"
      and n1: "net_hours w1 = net_hours w + side_sign s * h"
    using apply_assignment_grid [OF h assms(2,3,4)] by blast
  have "net_hours w' = 0 \<Longrightarrow> average_service_rate w' = 0"
    using assms(1) h d ne n1 w1
    by (auto simp: apply_assignment_def Let_def reduce_workload_def frame_simps
        split: if_splits sum.splits prod.splits)
  moreover have "net_hours w' = 0 \<Longrightarrow> unrealized_cost w' = 0"
    using assms(1) by (auto simp: apply_assignment_def Let_def recompute_unrealized frame_simps split: if_splits sum.splits prod.splits)
  ultimately show ?thesis by (simp add: workload_inv_def)
qed

text \<open>
  A step in which no operation rounds: every exact intermediate result of
  \<open>apply_assignment\<close> already has at most 28 digits.
\<close>

definition exact_assignment :: "dispatch_side \<Rightarrow> rat \<Rightarrow> rat \<Rightarrow> workload \<Rightarrow> bool" where
  "exact_assignment s h r w \<longleftrightarrow>
     (let n = net_hours w; a = average_service_rate w; n' = n + side_sign s * h;
          increasing = (n \<noteq> 0 \<and> (0 < n) = (0 < side_sign s * h));
          a' = (if increasing then (a * \<bar>n\<bar> + r * h) / \<bar>n'\<bar> else a)
      in dec_rep h \<and> dec_rep n \<and> dec_rep n' \<and> dec_rep \<bar>n\<bar> \<and> dec_rep \<bar>n'\<bar> \<and>
         dec_rep (a * \<bar>n\<bar>) \<and> dec_rep (r * h) \<and> dec_rep (a * \<bar>n\<bar> + r * h) \<and> dec_rep a' \<and>
         dec_rep (r - a) \<and> dec_rep ((r - a) * min h \<bar>n\<bar>) \<and> dec_rep ((r - a) * n) \<and>
         dec_rep ((r - a) * n') \<and> dec_rep (r - a') \<and> dec_rep ((r - a') * n') \<and>
         dec_rep (realized_cost w + (r - a) * min h \<bar>n\<bar> * sgn n))"

text \<open>
  Trading at a rate does not change the total cost marked at that rate: what an assignment
  adds to the realised cost it takes from the open exposure.
\<close>

lemma apply_assignment_value:
  assumes ap: "apply_assignment s h r now w = Inr (z, w')" and ex: "exact_assignment s h r w"
  shows "realized_cost w' + unrealized_cost w' =
         realized_cost w + (r - average_service_rate w) * net_hours w"
proof -
  let ?n = "net_hours w" and ?a = "average_service_rate w" and ?d = "side_sign s * h"
  have h: "0 < h" using ap by (auto simp: apply_assignment_def split: if_splits)
  note E = ex [unfolded exact_assignment_def Let_def dec_rep_def]
  have d: "dec_mul h (side_sign s) = ?d" using E by (simp add: signed_hours_exact dec_rep_def)
  have s0: "?d = h \<or> ?d = - h" by (cases s) (auto simp: side_sign_def)
  consider "?n = 0" | "?n \<noteq> 0" "(0 < ?n) = (0 < ?d)" | "?n \<noteq> 0" "(0 < ?n) \<noteq> (0 < ?d)" by blast
  then show ?thesis
  proof cases
    case 1
    with ap h d show ?thesis
      by (auto simp: apply_assignment_def Let_def recompute_unrealized frame_simps dec_sub_def dec_mul_def)
  next
    case 2
    define a' where "a' = (?a * \<bar>?n\<bar> + r * h) / \<bar>?n + ?d\<bar>"
    have nz: "?n + ?d \<noteq> 0" using 2 s0 h by linarith
    have a': "dec a' = a'" "dec (r - a') = r - a'" "dec ((r - a') * (?n + ?d)) = (r - a') * (?n + ?d)"
      using E 2 by (simp_all add: a'_def)
    have "increase_workload ?d h r w =
        Inr (0, w\<lparr>net_hours := ?n + ?d, average_service_rate := a'\<rparr>)"
    proof -
      have "dec \<bar>?n\<bar> = \<bar>?n\<bar>" "dec (?a * \<bar>?n\<bar>) = ?a * \<bar>?n\<bar>" "dec (r * h) = r * h"
        "dec (?a * \<bar>?n\<bar> + r * h) = ?a * \<bar>?n\<bar> + r * h" "dec (?n + ?d) = ?n + ?d" "dec \<bar>?n + ?d\<bar> = \<bar>?n + ?d\<bar>"
        using E by blast+
      with a'(1) nz show ?thesis
        by (simp add: increase_workload_def Let_def dec_op_defs dec_div_def a'_def del: dec_literal)
    qed
    with ap h d 2 nz a' have "realized_cost w' = realized_cost w"
      "unrealized_cost w' = (r - a') * (?n + ?d)"
      by (auto simp: apply_assignment_def Let_def recompute_unrealized frame_simps dec_op_defs)
    moreover have "(r - a') * (?n + ?d) = (r - ?a) * ?n"
      using nz 2 h unfolding a'_def
      by (cases s; cases "0 < ?n") (auto simp: side_sign_def field_simps abs_if)
    ultimately show ?thesis by simp
  next
    case 3
    define c where "c = min h \<bar>?n\<bar>"
    obtain z1 w1 where red: "reduce_workload ?d h r w = (z1, w1)" by fastforce
    have e: "dec (r - ?a) = r - ?a" "dec ((r - ?a) * c) = (r - ?a) * c" "dec \<bar>?n\<bar> = \<bar>?n\<bar>"
      "dec (realized_cost w + (r - ?a) * c * sgn ?n) = realized_cost w + (r - ?a) * c * sgn ?n"
      "dec (?n + ?d) = ?n + ?d" "dec ((r - ?a) * (?n + ?d)) = (r - ?a) * (?n + ?d)"
      using E unfolding c_def by blast+
    have z1: "z1 = (r - ?a) * c * sgn ?n"
    proof -
      have "z1 = dec ((r - ?a) * c * (if 0 < ?n then 1 else - 1))"
        using red e(1-3) by (auto simp: reduce_workload_def Let_def dec_op_defs c_def)
      then show ?thesis using e(2) 3 by (auto simp: decr.rd_minus sgn_if split: if_splits)
    qed
    have rc: "realized_cost w1 = realized_cost w + (r - ?a) * c * sgn ?n"
      using reduce_frame [OF red] z1 e(4) by (simp add: dec_add_def)
    have w1n: "net_hours w1 = ?n + ?d" using reduce_frame [OF red] e(5) by (simp add: dec_add_def)
    have av: "average_service_rate w1 =
        (if ?n + ?d = 0 then 0 else if (0 < ?n + ?d) = (0 < ?n) then ?a else r)"
      using red e(5) by (auto simp: reduce_workload_def Let_def dec_add_def split: if_splits)
    have w': "w' = recompute_unrealized_cost r (w1\<lparr>last_rate := Some r, last_updated := now\<rparr>)"
      using ap h d 3 red by (auto simp: apply_assignment_def)
    from e(1,6) have u: "unrealized_cost w' = (if ?n + ?d = 0 then 0 else if (0 < ?n + ?d) = (0 < ?n)
        then (r - ?a) * (?n + ?d) else 0)"
      using w' w1n av by (simp add: recompute_unrealized dec_op_defs)
    have "(r - ?a) * c * sgn ?n + unrealized_cost w' = (r - ?a) * ?n"
      using 3 h unfolding u c_def
      by (cases s; cases "0 < ?n"; cases "?n + ?d = 0")
        (auto simp: side_sign_def algebra_simps min_def abs_if add_eq_0_iff)
    with rc w' show ?thesis by (simp add: frame_simps)
  qed
qed

section \<open>Lemmas on work orders\<close>

text \<open>
  The work orders of the admitted range: valid, hours on the grid, and rates of at most 28
  digits.
\<close>

definition work_order_ok :: "work_order \<Rightarrow> bool" where
  "work_order_ok w \<longleftrightarrow> work_order_valid w \<and> grid (requested_hours w) \<and> grid (assigned_hours w) \<and>
     (\<forall>r. max_hourly_rate w = Some r \<longrightarrow> 0 < r \<and> dec_rep r)"

lemma work_order_ok_hours:
  assumes "work_order_ok w"
  shows "0 \<le> assigned_hours w" "assigned_hours w \<le> requested_hours w" "0 < requested_hours w"
    "grid (requested_hours w)" "grid (assigned_hours w)"
  using assms by (auto simp: work_order_ok_def work_order_valid_def work_order_fields_ok_def
      validate_work_order_def)

lemma remaining_hours_exact:
  "work_order_ok w \<Longrightarrow> remaining_hours w = requested_hours w - assigned_hours w"
  by (simp add: remaining_hours_def dec_sub_grid work_order_ok_hours)

lemma remaining_hours_grid: "work_order_ok w \<Longrightarrow> grid (remaining_hours w)"
  by (simp add: remaining_hours_exact grid_sub_range work_order_ok_hours)

lemma remaining_hours_nonneg: "work_order_ok w \<Longrightarrow> 0 \<le> remaining_hours w"
  using work_order_ok_hours [of w] by (simp add: remaining_hours_exact)

lemma fully_assigned_iff: "work_order_ok w \<Longrightarrow> is_fully_assigned w \<longleftrightarrow> remaining_hours w = 0"
  using work_order_ok_hours [of w] by (auto simp: is_fully_assigned_def remaining_hours_exact)

lemma work_order_ok_status [simp]: "work_order_ok (w\<lparr>status := st\<rparr>) = work_order_ok w"
  by (simp add: work_order_ok_def work_order_valid_def work_order_fields_ok_def validate_work_order_def)

lemma work_order_ok_updated [simp]: "work_order_ok (w\<lparr>updated_at := t\<rparr>) = work_order_ok w"
  by (simp add: work_order_ok_def work_order_valid_def work_order_fields_ok_def validate_work_order_def)

lemma work_order_ok_average [simp]: "work_order_ok (w\<lparr>average_rate := a\<rparr>) = work_order_ok w"
  by (simp add: work_order_ok_def work_order_valid_def work_order_fields_ok_def validate_work_order_def)

lemma work_order_ok_assigned:
  "work_order_ok w \<Longrightarrow> grid a \<Longrightarrow> 0 \<le> a \<Longrightarrow> a \<le> requested_hours w \<Longrightarrow> work_order_ok (w\<lparr>assigned_hours := a\<rparr>)"
  by (simp add: work_order_ok_def work_order_valid_def work_order_fields_ok_def validate_work_order_def)

lemma work_order_ok_valid: "work_order_ok w \<Longrightarrow> work_order_valid w"
  by (simp add: work_order_ok_def)

end
