(* ===== verification/Floats.thy ===== *)
theory Floats
  imports Decimals
begin

text \<open>
  Python's \<^verbatim>\<open>float\<close>: a finite value is the exact rational it denotes, and every operation
  rounds its exact result to binary64, overflowing to an infinity. The sign of a zero is not
  tracked. Comparisons with a NaN are false; a division by zero raises.
\<close>

datatype pyfloat = Fin rat | PosInf | NegInf | NaN

definition to_float :: "rat \<Rightarrow> pyfloat" where
  "to_float x = (let y = fl x in if 2 ^ 1024 \<le> y then PosInf else if y \<le> - (2 ^ 1024) then NegInf else Fin y)"

fun is_finite :: "pyfloat \<Rightarrow> bool" where
  "is_finite (Fin x) = True"
| "is_finite _ = False"

fun f_neg :: "pyfloat \<Rightarrow> pyfloat" where
  "f_neg (Fin x) = Fin (- x)"
| "f_neg PosInf = NegInf"
| "f_neg NegInf = PosInf"
| "f_neg NaN = NaN"

fun f_add :: "pyfloat \<Rightarrow> pyfloat \<Rightarrow> pyfloat" where
  "f_add (Fin x) (Fin y) = to_float (x + y)"
| "f_add NaN _ = NaN"
| "f_add _ NaN = NaN"
| "f_add PosInf NegInf = NaN"
| "f_add NegInf PosInf = NaN"
| "f_add PosInf _ = PosInf"
| "f_add _ PosInf = PosInf"
| "f_add NegInf _ = NegInf"
| "f_add _ NegInf = NegInf"

definition f_sub :: "pyfloat \<Rightarrow> pyfloat \<Rightarrow> pyfloat" where
  "f_sub a b = f_add a (f_neg b)"

fun f_sign :: "pyfloat \<Rightarrow> int" where
  "f_sign (Fin x) = (if 0 < x then 1 else if x < 0 then -1 else 0)"
| "f_sign PosInf = 1"
| "f_sign NegInf = -1"
| "f_sign NaN = 0"

definition f_infinite :: "int \<Rightarrow> pyfloat" where
  "f_infinite s = (if 0 < s then PosInf else if s < 0 then NegInf else NaN)"

fun f_mul :: "pyfloat \<Rightarrow> pyfloat \<Rightarrow> pyfloat" where
  "f_mul (Fin x) (Fin y) = to_float (x * y)"
| "f_mul a b = f_infinite (f_sign a * f_sign b)"

fun f_div :: "pyfloat \<Rightarrow> pyfloat \<Rightarrow> exn + pyfloat" where
  "f_div a (Fin y) = (if y = 0 then Inl ZeroDivisionError
     else case a of Fin x \<Rightarrow> Inr (to_float (x / y)) | _ \<Rightarrow> Inr (f_infinite (f_sign a * f_sign (Fin y))))"
| "f_div a b = Inr (case (a, b) of (Fin x, NaN) \<Rightarrow> NaN | (Fin x, _) \<Rightarrow> Fin 0 | _ \<Rightarrow> NaN)"

fun f_lt :: "pyfloat \<Rightarrow> pyfloat \<Rightarrow> bool" where
  "f_lt (Fin x) (Fin y) = (x < y)"
| "f_lt NaN _ = False"
| "f_lt _ NaN = False"
| "f_lt NegInf b = (b \<noteq> NegInf)"
| "f_lt a PosInf = (a \<noteq> PosInf)"
| "f_lt _ _ = False"

fun f_eq :: "pyfloat \<Rightarrow> pyfloat \<Rightarrow> bool" where
  "f_eq NaN _ = False"
| "f_eq a b = (a = b)"

definition f_le :: "pyfloat \<Rightarrow> pyfloat \<Rightarrow> bool" where
  "f_le a b \<longleftrightarrow> f_lt a b \<or> f_eq a b"

text \<open>\<^verbatim>\<open>max(a, b)\<close> and \<^verbatim>\<open>min(a, b)\<close> keep the first argument unless the second is beyond it.\<close>

definition f_max :: "pyfloat \<Rightarrow> pyfloat \<Rightarrow> pyfloat" where
  "f_max a b = (if f_lt a b then b else a)"

definition f_min :: "pyfloat \<Rightarrow> pyfloat \<Rightarrow> pyfloat" where
  "f_min a b = (if f_lt b a then b else a)"

fun f_abs :: "pyfloat \<Rightarrow> pyfloat" where
  "f_abs (Fin x) = Fin \<bar>x\<bar>"
| "f_abs NaN = NaN"
| "f_abs _ = PosInf"

text \<open>\<^verbatim>\<open>float(n)\<close> of an integer raises when it is out of range.\<close>

definition int_to_float :: "int \<Rightarrow> exn + pyfloat" where
  "int_to_float n = (case to_float (of_int n) of Fin x \<Rightarrow> Inr (Fin x) | _ \<Rightarrow> Inl OverflowError)"

section \<open>Exactly representable floats\<close>

definition fl_rep :: "rat \<Rightarrow> bool" where
  "fl_rep x \<longleftrightarrow> fl x = x \<and> \<bar>x\<bar> < 2 ^ 1024"

fun f_ok :: "pyfloat \<Rightarrow> bool" where
  "f_ok (Fin x) = fl_rep x"
| "f_ok _ = True"

lemma fl_minus: "fl (- x) = - fl x"
  by (rule flr.rd_minus)

lemma fl_exact:
  fixes n :: int
  assumes "x = of_int n / 2 ^ d" "\<bar>n\<bar> \<le> 2 ^ 53" "d \<le> 1074"
  shows "fl x = x"
proof -
  have "x = of_int n * of_nat 2 powi (- int d)"
    using assms(1) by (simp add: power_int_minus field_simps)
  moreover have "\<bar>n\<bar> \<le> int 2 ^ 53" using assms(2) by simp
  moreover have "- 1074 \<le> - int d" using assms(3) by simp
  ultimately have "fits 2 53 (- 1074) x" unfolding fits_def by blast
  then show ?thesis unfolding fl_def by (intro rnd_exact) auto
qed

lemma fl_of_int: "\<bar>n\<bar> \<le> 2 ^ 53 \<Longrightarrow> fl (of_int n) = of_int n"
  by (rule fl_exact [of _ n 0]) auto

lemma fl_rep_of_int: "\<bar>n\<bar> \<le> 2 ^ 53 \<Longrightarrow> fl_rep (of_int n)"
proof -
  assume a: "\<bar>n\<bar> \<le> 2 ^ 53"
  have "\<bar>of_int n\<bar> = (of_int \<bar>n\<bar> :: rat)" by simp
  also have "\<dots> \<le> of_int (2 ^ 53)" using a by (simp only: of_int_le_iff)
  also have "\<dots> < (2 :: rat) ^ 1024" by simp
  finally show ?thesis using fl_of_int [OF a] by (simp add: fl_rep_def)
qed

lemma fl_rep_0 [simp]: "fl_rep 0"
  by (simp add: fl_rep_def)

lemma to_float_rep: "fl_rep x \<Longrightarrow> to_float x = Fin x"
  by (auto simp: to_float_def fl_rep_def Let_def)

lemma to_float_0 [simp]: "to_float 0 = Fin 0"
  by (simp add: to_float_rep)

lemma to_float_Fin: "to_float x = Fin y \<Longrightarrow> y = fl x \<and> fl_rep y"
  by (auto simp: to_float_def fl_rep_def Let_def abs_less_iff split: if_splits)

lemma f_ok_to_float [simp]: "f_ok (to_float x)"
  using to_float_Fin by (cases "to_float x") auto

lemma fl_nonneg: "0 \<le> x \<Longrightarrow> 0 \<le> fl x"
  by (rule flr.rd_nonneg)

lemma fl_le_rep: "fl z = z \<Longrightarrow> x \<le> z \<Longrightarrow> fl x \<le> z"
  by (rule flr.rd_le_rep)

lemma fl_ge_rep: "fl z = z \<Longrightarrow> z \<le> x \<Longrightarrow> z \<le> fl x"
  by (rule flr.rd_ge_rep)

text \<open>A non-negative value below a representable one does not overflow.\<close>

lemma to_float_bounded:
  assumes "0 \<le> x" "x \<le> z" "fl_rep z"
  shows "to_float x = Fin (fl x)" "0 \<le> fl x" "fl x \<le> z" "fl_rep (fl x)"
proof -
  show b: "0 \<le> fl x" "fl x \<le> z" using assms by (auto simp: fl_rep_def intro: fl_nonneg fl_le_rep)
  then have "fl x < 2 ^ 1024" using assms(3) by (simp add: fl_rep_def)
  then show r: "fl_rep (fl x)" using b(1) by (simp add: fl_rep_def)
  have "- (2 ^ 1024) < fl x" using b(1) by (rule less_le_trans [rotated]) simp
  with \<open>fl x < 2 ^ 1024\<close> show "to_float x = Fin (fl x)" by (simp add: to_float_def Let_def)
qed

lemma f_add_finite: "f_add a b = Fin z \<Longrightarrow> \<exists>x y. a = Fin x \<and> b = Fin y"
  by (cases "(a, b)" rule: f_add.cases) auto

lemma f_ok_neg [simp]: "f_ok a \<Longrightarrow> f_ok (f_neg a)"
  by (cases a) (auto simp: fl_rep_def fl_minus)

end
