(* ===== verification/Values.thy ===== *)
theory Values
  imports Models Floats
begin

text \<open>
  The dynamically typed values that events, payloads and responses carry. The text of a
  decimal or of a time stamp is kept symbolic: \<open>VNumText x\<close> is \<^verbatim>\<open>str(x)\<close> of a decimal with
  the value \<open>x\<close> (its trailing zeros are not tracked) and \<open>VTimeText t\<close> is \<^verbatim>\<open>t.isoformat()\<close>.
\<close>

datatype pyval = VNone | VBool bool | VInt int | VFloat pyfloat | VNum rat | VStr string
  | VNumText rat | VTimeText datetime | VList "pyval list" | VDict "(string \<times> pyval) list"

type_synonym payload = "(string, pyval) dict"

fun opt_str :: "string option \<Rightarrow> pyval" where
  "opt_str None = VNone"
| "opt_str (Some s) = VStr s"

fun opt_num_text :: "rat option \<Rightarrow> pyval" where
  "opt_num_text None = VNone"
| "opt_num_text (Some x) = VNumText x"

text \<open>\<^verbatim>\<open>dict.update\<close>.\<close>

definition dict_update :: "('k, 'v) dict \<Rightarrow> ('k, 'v) dict \<Rightarrow> ('k, 'v) dict" where
  "dict_update d e = foldl (\<lambda>a (k, v). dict_set k v a) d e"

section \<open>Operations that change a state and may raise\<close>

text \<open>
  An action maps the state to its outcome and the state it leaves, also when it raises.
\<close>

type_synonym ('s, 'a) action = "'s \<Rightarrow> (exn + 'a) \<times> 's"

definition ret :: "'a \<Rightarrow> ('s, 'a) action" where
  "ret a s = (Inr a, s)"

definition raise :: "exn \<Rightarrow> ('s, 'a) action" where
  "raise e s = (Inl e, s)"

definition andthen :: "('s, 'a) action \<Rightarrow> ('a \<Rightarrow> ('s, 'b) action) \<Rightarrow> ('s, 'b) action" where
  "andthen m f s = (case m s of (Inl e, s') \<Rightarrow> (Inl e, s') | (Inr a, s') \<Rightarrow> f a s')"

definition modify :: "('s \<Rightarrow> 's) \<Rightarrow> ('s, unit) action" where
  "modify f s = (Inr (), f s)"

definition lift_exn :: "exn + 'a \<Rightarrow> ('s, 'a) action" where
  "lift_exn r s = (r, s)"

named_theorems action_simps \<open>evaluation of actions\<close>

lemma action_eval [action_simps]:
  "ret a s = (Inr a, s)"
  "raise e s = (Inl e, s)"
  "modify f s = (Inr (), f s)"
  "lift_exn r s = (r, s)"
  by (simp_all add: ret_def raise_def modify_def lift_exn_def)

lemma andthen_Inr [action_simps]: "m s = (Inr a, s') \<Longrightarrow> andthen m f s = f a s'"
  by (simp add: andthen_def)

lemma andthen_Inl [action_simps]: "m s = (Inl e, s') \<Longrightarrow> andthen m f s = (Inl e, s')"
  by (simp add: andthen_def)

lemma andthen_cases:
  assumes "andthen m f s = (r, s'')"
  obtains (Raised) e where "m s = (Inl e, s'')" "r = Inl e"
    | (Done) a s' where "m s = (Inr a, s')" "f a s' = (r, s'')"
  using assms by (cases "m s"; cases "fst (m s)") (auto simp: andthen_def)

end
