(* ===== verification/Texts.thy ===== *)
theory Texts
  imports Decimals "HOL-Library.List_Lexorder" "HOL-Library.Char_ord"
begin

text \<open>
  Text operations the components share: the decimal text of an integer, joining with a
  separator, and the percent-encoding of \<^verbatim>\<open>urllib.parse\<close> on ASCII text; each with the lemma
  that it can be undone.
\<close>

section \<open>Integers\<close>

definition digit_char :: "nat \<Rightarrow> char" where
  "digit_char n = char_of (48 + n)"

fun nat_text :: "nat \<Rightarrow> string" where
  "nat_text n = (if n < 10 then [digit_char n] else nat_text (n div 10) @ [digit_char (n mod 10)])"

declare nat_text.simps [simp del]

definition int_text :: "int \<Rightarrow> string" where
  "int_text i = (if i < 0 then CHR ''-'' # nat_text (nat (- i)) else nat_text (nat i))"

definition digits_value :: "string \<Rightarrow> nat" where
  "digits_value s = foldl (\<lambda>a c. 10 * a + (of_char c - 48)) 0 s"

lemma digit_code: "n < 10 \<Longrightarrow> (of_char (digit_char n) :: nat) = 48 + n"
  by (simp add: digit_char_def)

lemma digits_value_nat_text [simp]: "digits_value (nat_text n) = n"
  by (induction n rule: nat_text.induct) (subst nat_text.simps, simp add: digits_value_def digit_code)

lemma nat_text_digits: "c \<in> set (nat_text n) \<Longrightarrow> is_digit c"
  by (induction n rule: nat_text.induct) (subst (asm) nat_text.simps, auto simp: is_digit_def digit_code split: if_splits)

lemma nat_text_ne [simp]: "nat_text n \<noteq> []"
  by (subst nat_text.simps) simp

lemma is_digit_minus: "\<not> is_digit CHR ''-''" "\<not> is_digit CHR ''\<newline>''"
  by (simp_all add: is_digit_def)

lemma int_text_inj [simp]: "int_text i = int_text j \<longleftrightarrow> i = j"
proof
  assume e: "int_text i = int_text j"
  have m: "nat_text n \<noteq> CHR ''-'' # cs" for n cs
    using nat_text_digits [of "CHR ''-''" n] is_digit_minus(1) by (metis list.set_intros(1))
  have v: "nat_text a = nat_text b \<Longrightarrow> a = b" for a b
    by (metis digits_value_nat_text)
  show "i = j" using e m v [of "nat (- i)" "nat (- j)"] v [of "nat i" "nat j"] m [symmetric]
    by (auto simp: int_text_def split: if_splits)
qed simp

lemma int_text_no_newline: "CHR ''\<newline>'' \<notin> set (int_text i)"
  using nat_text_digits is_digit_minus(2) by (auto simp: int_text_def)

section \<open>Reading decimals\<close>

text \<open>
  \<^verbatim>\<open>Decimal(text)\<close>: blanks around and underscores inside are ignored; a sign, digits with at
  most one point, an exponent. Other texts, the infinities and NaNs give \<open>None\<close>.
\<close>

definition digits_of :: "string \<Rightarrow> int option" where
  "digits_of s = (if s \<noteq> [] \<and> list_all is_digit s then Some (int (digits_value s)) else None)"

definition read_exponent :: "string \<Rightarrow> int option" where
  "read_exponent s = (case s of [] \<Rightarrow> Some 0
    | c # t \<Rightarrow> if c \<noteq> CHR ''e'' \<and> c \<noteq> CHR ''E'' then None
        else (case t of [] \<Rightarrow> None
          | d # u \<Rightarrow> if d = CHR ''+'' then digits_of u
                     else if d = CHR ''-'' then map_option uminus (digits_of u) else digits_of t))"

definition read_unsigned :: "string \<Rightarrow> rat option" where
  "read_unsigned u =
     (let whole = takeWhile is_digit u; rest = dropWhile is_digit u;
          point = (rest \<noteq> [] \<and> hd rest = CHR ''.'');
          fraction = (if point then takeWhile is_digit (tl rest) else []);
          tail = (if point then dropWhile is_digit (tl rest) else rest)
      in if whole = [] \<and> fraction = [] then None
         else map_option (\<lambda>e. of_nat (digits_value (whole @ fraction)) * 10 powi (e - int (length fraction)))
                (read_exponent tail))"

definition read_decimal :: "string \<Rightarrow> rat option" where
  "read_decimal s =
     (let t = filter (\<lambda>c. c \<noteq> CHR ''_'') (strip s) in
      if t = [] then None
      else if hd t = CHR ''-'' then map_option uminus (read_unsigned (tl t))
      else if hd t = CHR ''+'' then read_unsigned (tl t)
      else read_unsigned t)"

lemma read_decimal_examples:
  "read_decimal ''0.25'' = Some (1/4)" "read_decimal ''-1.5e3'' = Some (-1500)" "read_decimal '' 12 '' = Some 12"
  "read_decimal ''abc'' = None" "read_decimal ''1.2.3'' = None" "read_decimal ''.'' = None"
  by code_simp+

section \<open>Joining\<close>

fun join :: "string \<Rightarrow> string list \<Rightarrow> string" where
  "join sep [] = []"
| "join sep [x] = x"
| "join sep (x # y # xs) = x @ sep @ join sep (y # xs)"

lemma append_sep_inj:
  "c \<notin> set x \<Longrightarrow> c \<notin> set y \<Longrightarrow> x @ c # xs = y @ c # ys \<longleftrightarrow> x = y \<and> xs = ys"
proof (induction x arbitrary: y)
  case Nil
  then show ?case by (cases y) auto
next
  case (Cons a x)
  then show ?case by (cases y) auto
qed

lemma join_Cons_sep: "xs \<noteq> [] \<Longrightarrow> join [c] (x # xs) = x @ c # join [c] xs"
  by (cases xs) auto

lemma join_inj_length:
  "length xs = length ys \<Longrightarrow> \<forall>x\<in>set xs \<union> set ys. c \<notin> set x \<Longrightarrow> join [c] xs = join [c] ys \<longleftrightarrow> xs = ys"
proof (induction xs ys rule: list_induct2)
  case (Cons x xs y ys)
  show ?case
  proof (cases xs)
    case Nil
    with Cons show ?thesis by simp
  next
    case (Cons x' xs')
    then have "xs \<noteq> []" "ys \<noteq> []" using Cons.hyps by auto
    with Cons.prems Cons.IH show ?thesis by (simp add: join_Cons_sep append_sep_inj)
  qed
qed simp

lemma join_sep_free: "xs \<noteq> [] \<Longrightarrow> \<forall>x\<in>set xs. c \<notin> set x \<Longrightarrow> c \<in> set (join [c] xs) \<longleftrightarrow> 2 \<le> length xs"
  by (induction xs rule: induct_list012) auto

lemma join_Nil_iff: "\<forall>x\<in>set xs. x \<noteq> [] \<Longrightarrow> join [c] xs = [] \<longleftrightarrow> xs = []"
  by (induction xs rule: induct_list012) auto

lemma join_inj:
  "\<forall>x\<in>set xs \<union> set ys. c \<notin> set x \<and> x \<noteq> [] \<Longrightarrow> join [c] xs = join [c] ys \<Longrightarrow> xs = ys"
proof (induction xs arbitrary: ys)
  case Nil
  then show ?case using join_Nil_iff [of ys c] by force
next
  case (Cons x xs)
  then have "ys \<noteq> []" using join_Nil_iff [of "x # xs" c] by auto
  then obtain y ys' where y: "ys = y # ys'" by (cases ys) auto
  have free: "c \<notin> set x" "c \<notin> set y" using Cons.prems y by auto
  show ?case
  proof (cases "xs = [] \<or> ys' = []")
    case True
    then show ?thesis
    proof
      assume "xs = []"
      then have "c \<notin> set (join [c] (y # ys'))" using Cons.prems(2) y free by simp
      then have "ys' = []" using join_sep_free [of "y # ys'" c] Cons.prems(1) y by (cases ys') auto
      with \<open>xs = []\<close> Cons.prems y show ?thesis by simp
    next
      assume "ys' = []"
      then have "c \<notin> set (join [c] (x # xs))" using Cons.prems(2) y free by simp
      then have "xs = []" using join_sep_free [of "x # xs" c] Cons.prems(1) by (cases xs) auto
      with \<open>ys' = []\<close> Cons.prems y show ?thesis by simp
    qed
  next
    case False
    with Cons.prems(2) y free have "x = y" "join [c] xs = join [c] ys'"
      by (simp_all add: join_Cons_sep append_sep_inj)
    with Cons.IH [of ys'] Cons.prems(1) y show ?thesis by simp
  qed
qed

section \<open>Percent-encoding\<close>

text \<open>\<^verbatim>\<open>urllib.parse.quote_plus\<close>: letters, digits and \<^verbatim>\<open>_.-~\<close> stay, a blank becomes a plus.\<close>

definition unreserved :: "char \<Rightarrow> bool" where
  "unreserved c \<longleftrightarrow> is_upper c \<or> is_lower c \<or> is_digit c \<or> c \<in> set ''_.-~''"

definition hex_char :: "nat \<Rightarrow> char" where
  "hex_char n = (if n < 10 then char_of (48 + n) else char_of (55 + n))"

definition quote_char :: "char \<Rightarrow> string" where
  "quote_char c =
     (if unreserved c then [c]
      else if c = CHR '' '' then ''+''
      else [CHR ''%'', hex_char (of_char c div 16), hex_char (of_char c mod 16)])"

definition quote_plus :: "string \<Rightarrow> string" where
  "quote_plus s = concat (map quote_char s)"

definition urlencode :: "(string \<times> string) list \<Rightarrow> string" where
  "urlencode items = join ''&'' (map (\<lambda>(k, v). quote_plus k @ ''='' @ quote_plus v) items)"

definition hex_value :: "char \<Rightarrow> nat" where
  "hex_value c = (if is_digit c then of_char c - 48 else of_char c - 55)"

fun unquote_plus :: "string \<Rightarrow> string" where
  "unquote_plus [] = []"
| "unquote_plus (c # cs) =
     (if c = CHR ''%'' then (case cs of a # b # ds \<Rightarrow> char_of (16 * hex_value a + hex_value b) # unquote_plus ds | _ \<Rightarrow> [c])
      else if c = CHR ''+'' then CHR '' '' # unquote_plus cs
      else c # unquote_plus cs)"

lemma hex_code: "n < 16 \<Longrightarrow> (of_char (hex_char n) :: nat) = (if n < 10 then 48 + n else 55 + n)"
  by (simp add: hex_char_def)

lemma hex_value_char: "n < 16 \<Longrightarrow> hex_value (hex_char n) = n"
  by (auto simp: hex_value_def is_digit_def hex_code)

lemma hex_pair: "char_of (16 * hex_value (hex_char (of_char c div 16)) + hex_value (hex_char (of_char c mod 16))) = c"
proof -
  have "(of_char c :: nat) < 256" by simp
  then have "(of_char c :: nat) div 16 < 16" by (simp add: less_mult_imp_div_less)
  then show ?thesis by (simp add: hex_value_char)
qed

lemma reserved_chars: "\<not> unreserved CHR ''%''" "\<not> unreserved CHR ''+''" "\<not> unreserved CHR ''&''" "\<not> unreserved CHR ''=''"
  "\<not> unreserved CHR ''\<newline>''" "\<not> unreserved CHR '' ''"
  by (simp_all add: unreserved_def is_upper_def is_lower_def is_digit_def)

lemma unquote_quote_char: "unquote_plus (quote_char c @ s) = c # unquote_plus s"
  using reserved_chars hex_pair [of c] by (auto simp: quote_char_def)

lemma unquote_quote [simp]: "unquote_plus (quote_plus s) = s"
  by (induction s) (auto simp: quote_plus_def unquote_quote_char)

lemma hex_clean: "n < 16 \<Longrightarrow> is_digit (hex_char n) \<or> is_upper (hex_char n)"
  by (auto simp: is_digit_def is_upper_def hex_code)

lemma quote_char_clean:
  assumes "x \<in> set (quote_char c)"
  shows "unreserved x \<or> x = CHR ''%'' \<or> x = CHR ''+''"
proof -
  have "(of_char c :: nat) < 256" by simp
  then have "(of_char c :: nat) div 16 < 16" by (simp add: less_mult_imp_div_less)
  then show ?thesis using assms hex_clean [of "of_char c div 16"] hex_clean [of "of_char c mod 16"]
    by (auto simp: quote_char_def unreserved_def split: if_splits)
qed

lemma quote_plus_clean: "x \<in> set (quote_plus s) \<Longrightarrow> unreserved x \<or> x = CHR ''%'' \<or> x = CHR ''+''"
  using quote_char_clean by (auto simp: quote_plus_def)

lemma quote_plus_free: "CHR ''&'' \<notin> set (quote_plus s)" "CHR ''='' \<notin> set (quote_plus s)" "CHR ''\<newline>'' \<notin> set (quote_plus s)"
  using quote_plus_clean reserved_chars by blast+

lemma quote_plus_inj: "quote_plus s = quote_plus t \<Longrightarrow> s = t"
  by (metis unquote_quote)

text \<open>The encoding of a list of parameters determines the list.\<close>

lemma urlencode_inj: "urlencode xs = urlencode ys \<Longrightarrow> xs = ys"
proof -
  let ?f = "\<lambda>(k, v). quote_plus k @ ''='' @ quote_plus v"
  assume e: "urlencode xs = urlencode ys"
  have "map ?f xs = map ?f ys"
    by (rule join_inj [of _ _ "CHR ''&''"]) (use e quote_plus_free in \<open>auto simp: urlencode_def\<close>)
  moreover have "inj ?f"
  proof (rule injI, clarify)
    fix k v k' v' assume "quote_plus k @ ''='' @ quote_plus v = quote_plus k' @ ''='' @ quote_plus v'"
    then have "quote_plus k = quote_plus k' \<and> quote_plus v = quote_plus v'"
      using quote_plus_free(2) by (simp add: append_sep_inj)
    then show "k = k' \<and> v = v'" using quote_plus_inj by blast
  qed
  ultimately show ?thesis by (simp add: inj_map_eq_map)
qed

lemma urlencode_no_newline: "CHR ''\<newline>'' \<notin> set (urlencode xs)"
proof -
  have "CHR ''\<newline>'' \<notin> set (join ''&'' zs)" if "\<forall>z\<in>set zs. CHR ''\<newline>'' \<notin> set z" for zs
    using that by (induction "''&''" zs rule: join.induct) auto
  then show ?thesis using quote_plus_free(3) by (auto simp: urlencode_def)
qed

end
