(* ===== verification/Repository.thy ===== *)
theory Repository
  imports Values Texts "HOL-Library.Sublist"
begin

text \<open>
  The ground of the workshop runner, \<^verbatim>\<open>scripts/workshop.py\<close>: its errors, the repository as a tree of files, and
  programs that act on it. The operating system decides about every call that changes the tree or opens a
  file: it works, it is refused with an \<^verbatim>\<open>OSError\<close>, or the process is killed there. The decisions are a list,
  and calls beyond its end work. What is printed is not modelled.
\<close>

section \<open>Errors and programs\<close>

text \<open>
  The first five are the runner's own errors, of which the last four are subclasses of the first; the others are
  exceptions of Python. A killed process handles nothing.
\<close>

datatype failure = WorkshopError | ArtifactError | StateConflictError | PrerequisiteError | AcceptanceFailed
  | OSFault | TypeFault | Killed

datatype decision = Works | Refused | Kills

datatype node = Regular string nat | Directory nat | Link string | Device

type_synonym path = "string list"
type_synonym tree = "(path, node) dict"

record world =
  wd_tree :: tree
  wd_fate :: "decision list"

type_synonym 'a program = "world \<Rightarrow> (failure + 'a) \<times> world"

definition give :: "'a \<Rightarrow> 'a program" where
  "give a w = (Inr a, w)"

definition fail_with :: "failure \<Rightarrow> 'a program" where
  "fail_with e w = (Inl e, w)"

definition chain :: "'a program \<Rightarrow> ('a \<Rightarrow> 'b program) \<Rightarrow> 'b program" where
  "chain m f w = (case m w of (Inl e, w') \<Rightarrow> (Inl e, w') | (Inr a, w') \<Rightarrow> f a w')"

definition handling :: "(failure \<Rightarrow> bool) \<Rightarrow> 'a program \<Rightarrow> (failure \<Rightarrow> 'a program) \<Rightarrow> 'a program" where
  "handling P m h w = (case m w of
      (Inl e, w') \<Rightarrow> if P e then h e w' else (Inl e, w')
    | (Inr a, w') \<Rightarrow> (Inr a, w'))"

definition checked :: "failure + 'a \<Rightarrow> 'a program" where
  "checked r w = (r, w)"

definition asks :: "(tree \<Rightarrow> 'a) \<Rightarrow> 'a program" where
  "asks f w = (Inr (f (wd_tree w)), w)"

definition unless :: "bool \<Rightarrow> failure \<Rightarrow> unit program" where
  "unless b e = (if b then give () else fail_with e)"

fun each :: "('a \<Rightarrow> unit program) \<Rightarrow> 'a list \<Rightarrow> unit program" where
  "each f [] = give ()"
| "each f (x # xs) = chain (f x) (\<lambda>_. each f xs)"

definition runner_error :: "failure \<Rightarrow> bool" where
  "runner_error e \<longleftrightarrow> e \<in> {WorkshopError, ArtifactError, StateConflictError, PrerequisiteError, AcceptanceFailed}"

definition os_fault :: "failure \<Rightarrow> bool" where
  "os_fault e \<longleftrightarrow> e = OSFault"

text \<open>\<^verbatim>\<open>except BaseException\<close>.\<close>

definition raised :: "failure \<Rightarrow> bool" where
  "raised e \<longleftrightarrow> e \<noteq> Killed"

text \<open>\<^verbatim>\<open>except OSError as exc: raise \<dots>\<close>.\<close>

definition translating :: "failure \<Rightarrow> 'a program \<Rightarrow> 'a program" where
  "translating e m = handling os_fault m (\<lambda>_. fail_with e)"

text \<open>One call of the operating system; \<open>None\<close> is an error of the call itself.\<close>

definition sys :: "(tree \<Rightarrow> ('a \<times> tree) option) \<Rightarrow> 'a program" where
  "sys f w = (case wd_fate w of
      Kills # ds \<Rightarrow> (Inl Killed, w\<lparr>wd_fate := ds\<rparr>)
    | Refused # ds \<Rightarrow> (Inl OSFault, w\<lparr>wd_fate := ds\<rparr>)
    | ds \<Rightarrow> (case f (wd_tree w) of
        None \<Rightarrow> (Inl OSFault, w\<lparr>wd_fate := tl ds\<rparr>)
      | Some (a, t) \<Rightarrow> (Inr a, w\<lparr>wd_tree := t, wd_fate := tl ds\<rparr>)))"

definition changes :: "(tree \<Rightarrow> tree option) \<Rightarrow> unit program" where
  "changes f = sys (\<lambda>t. map_option (Pair ()) (f t))"

definition observes :: "(tree \<Rightarrow> 'a option) \<Rightarrow> 'a program" where
  "observes f = sys (\<lambda>t. map_option (\<lambda>a. (a, t)) (f t))"

section \<open>The tree\<close>

text \<open>
  A path is the list of its names below the root of the repository, which is a directory of its own. No link is
  ever followed: the runner refuses paths with links on them before it uses them.
\<close>

definition node_at :: "tree \<Rightarrow> path \<Rightarrow> node option" where
  "node_at t p = (if p = [] then Some (Directory 493) else dict_get t p)"

definition is_directory :: "tree \<Rightarrow> path \<Rightarrow> bool" where
  "is_directory t p = (case node_at t p of Some (Directory m) \<Rightarrow> True | _ \<Rightarrow> False)"

definition is_regular :: "tree \<Rightarrow> path \<Rightarrow> bool" where
  "is_regular t p = (case node_at t p of Some (Regular d m) \<Rightarrow> True | _ \<Rightarrow> False)"

definition is_link :: "tree \<Rightarrow> path \<Rightarrow> bool" where
  "is_link t p = (case node_at t p of Some (Link q) \<Rightarrow> True | _ \<Rightarrow> False)"

definition present :: "tree \<Rightarrow> path \<Rightarrow> bool" where
  "present t p \<longleftrightarrow> node_at t p \<noteq> None"

text \<open>\<^verbatim>\<open>rglob('*')\<close>, which does not descend into links.\<close>

definition below :: "tree \<Rightarrow> path \<Rightarrow> path list" where
  "below t p = filter (strict_prefix p) (dict_keys t)"

definition node_mode :: "node \<Rightarrow> nat" where
  "node_mode n = (case n of Regular d m \<Rightarrow> m | Directory m \<Rightarrow> m | Link q \<Rightarrow> 511 | Device \<Rightarrow> 384)"

definition make_directory :: "nat \<Rightarrow> path \<Rightarrow> tree \<Rightarrow> tree option" where
  "make_directory m p t = (if \<not> present t p \<and> is_directory t (butlast p) then Some (dict_set p (Directory m) t) else None)"

definition remove_entry :: "path \<Rightarrow> tree \<Rightarrow> tree option" where
  "remove_entry p t =
     (if p = [] \<or> \<not> present t p \<or> (is_directory t p \<and> below t p \<noteq> []) then None else Some (dict_pop p t))"

definition unlink :: "path \<Rightarrow> tree \<Rightarrow> tree option" where
  "unlink p t = (if is_directory t p then None else remove_entry p t)"

definition create_file :: "path \<Rightarrow> tree \<Rightarrow> tree option" where
  "create_file p t = (if \<not> present t p \<and> is_directory t (butlast p) then Some (dict_set p (Regular [] 384) t) else None)"

definition write_file :: "string \<Rightarrow> path \<Rightarrow> tree \<Rightarrow> tree option" where
  "write_file d p t = (case node_at t p of Some (Regular _ m) \<Rightarrow> Some (dict_set p (Regular d m) t) | _ \<Rightarrow> None)"

definition change_mode :: "nat \<Rightarrow> path \<Rightarrow> tree \<Rightarrow> tree option" where
  "change_mode m p t = (if p = [] then None else case node_at t p of
      Some (Regular d _) \<Rightarrow> Some (dict_set p (Regular d m) t)
    | Some (Directory _) \<Rightarrow> Some (dict_set p (Directory m) t)
    | _ \<Rightarrow> None)"

definition replace_file :: "path \<Rightarrow> path \<Rightarrow> tree \<Rightarrow> tree option" where
  "replace_file p q t = (case node_at t p of
      Some (Regular d m) \<Rightarrow> if p = q \<or> is_directory t q \<or> \<not> is_directory t (butlast q) then None
        else Some (dict_set q (Regular d m) (dict_pop p t))
    | _ \<Rightarrow> None)"

text \<open>
  \<^verbatim>\<open>rename\<close> moves an entry with all that is below it. It may replace what the target names, but a directory only
  an empty directory.
\<close>

definition moved :: "path \<Rightarrow> path \<Rightarrow> path \<Rightarrow> path" where
  "moved p q x = (if prefix p x then q @ drop (length p) x else x)"

definition rename_entry :: "path \<Rightarrow> path \<Rightarrow> tree \<Rightarrow> tree option" where
  "rename_entry p q t =
     (if p = [] \<or> q = [] \<or> \<not> present t p \<or> prefix p q \<or> \<not> is_directory t (butlast q) \<or>
         (present t q \<and> (is_directory t p \<noteq> is_directory t q \<or> below t q \<noteq> []))
      then None
      else Some (map (\<lambda>(x, n). (moved p q x, n)) (filter (\<lambda>(x, n). x \<noteq> q) t)))"

section \<open>Calls\<close>

definition read_file :: "path \<Rightarrow> string program" where
  "read_file p = observes (\<lambda>t. case node_at t p of Some (Regular d m) \<Rightarrow> Some d | _ \<Rightarrow> None)"

text \<open>\<^verbatim>\<open>lstat\<close>: nothing, or the node.\<close>

definition stat_entry :: "path \<Rightarrow> node option program" where
  "stat_entry p = observes (\<lambda>t. Some (node_at t p))"

text \<open>\<^verbatim>\<open>mkdir(parents=True, exist_ok=True)\<close> with the mode a new directory gets.\<close>

definition ensure_directory :: "nat \<Rightarrow> path \<Rightarrow> unit program" where
  "ensure_directory m p w = (if is_directory (wd_tree w) p then (Inr (), w) else changes (make_directory m p) w)"

definition make_directories :: "nat \<Rightarrow> path \<Rightarrow> unit program" where
  "make_directories m p = each (ensure_directory m) (map (\<lambda>n. take n p) [1..<Suc (length p)])"

text \<open>\<^verbatim>\<open>rmtree\<close> removes entry by entry, what is below a directory before the directory.\<close>

definition removal_order :: "tree \<Rightarrow> path \<Rightarrow> path list" where
  "removal_order t p = rev (sort_key length (below t p)) @ [p]"

definition remove_tree :: "path \<Rightarrow> unit program" where
  "remove_tree p w = each (\<lambda>q. changes (remove_entry q)) (removal_order (wd_tree w) p) w"

text \<open>A name for a temporary file that is not taken.\<close>

definition temporary :: "tree \<Rightarrow> path \<Rightarrow> path" where
  "temporary t p = (case filter (\<lambda>q. \<not> present t q) (map (\<lambda>n. p @ [''.workshop-tmp-'' @ replicate n (CHR ''x'')]) [0..<Suc (length t)]) of
      [] \<Rightarrow> [] | q # _ \<Rightarrow> q)"

text \<open>
  \<^verbatim>\<open>atomic_write_bytes\<close>: a temporary file is written and moved over the target. If that is refused the temporary
  file is removed; a killed process leaves it.
\<close>

definition discard_temporary :: "path \<Rightarrow> unit program" where
  "discard_temporary q w = (if present (wd_tree w) q then changes (unlink q) w else (Inr (), w))"

definition atomic_write :: "nat \<Rightarrow> path \<Rightarrow> string \<Rightarrow> nat \<Rightarrow> unit program" where
  "atomic_write dm p d m =
     chain (translating WorkshopError (make_directories dm (butlast p))) (\<lambda>_.
     chain (asks (\<lambda>t. temporary t (butlast p))) (\<lambda>q.
     chain (translating WorkshopError (changes (create_file q))) (\<lambda>_.
     handling os_fault
       (chain (changes (write_file d q)) (\<lambda>_. chain (changes (change_mode m q)) (\<lambda>_. changes (replace_file q p))))
       (\<lambda>_. chain (discard_temporary q) (\<lambda>_. fail_with WorkshopError)))))"

end
