(* ===== verification/RepositoryLaws.thy ===== *)
theory RepositoryLaws
  imports Repository
begin

text \<open>
  Laws of the tree and of programs on it. A program is judged by a relation between the trees before and after it, for
  every fate: \<open>moves R m\<close>. Programs that only look satisfy it for every preorder; what changes the tree is confined
  to a region, keeps the tree well formed and keeps the directories above a given path.
\<close>

named_theorems moving \<open>rules for \<open>moves\<close>\<close>
named_theorems straight \<open>normal forms of programs\<close>

section \<open>Trees\<close>

definition well_formed :: "tree \<Rightarrow> bool" where
  "well_formed t \<longleftrightarrow> (\<forall>p n. dict_get t p = Some n \<longrightarrow> p \<noteq> [] \<and> is_directory t (butlast p))"

definition anchored :: "path \<Rightarrow> tree \<Rightarrow> bool" where
  "anchored a t \<longleftrightarrow> (\<forall>q. strict_prefix q a \<longrightarrow> is_directory t q)"

lemma node_at_cong: "dict_get t' p = dict_get t p \<Longrightarrow> node_at t' p = node_at t p"
  by (simp add: node_at_def)

lemma is_directory_cong: "dict_get t' p = dict_get t p \<Longrightarrow> is_directory t' p = is_directory t p"
  by (simp add: is_directory_def node_at_def)

lemma present_cong: "dict_get t' p = dict_get t p \<Longrightarrow> present t' p = present t p"
  by (simp add: present_def node_at_def)

lemma is_directory_present: "is_directory t p \<Longrightarrow> present t p"
  by (auto simp: is_directory_def present_def split: option.splits)

lemma is_directory_get: "is_directory t p \<longleftrightarrow> p = [] \<or> (\<exists>m. dict_get t p = Some (Directory m))"
  by (auto simp: is_directory_def node_at_def split: option.splits node.splits)

lemma present_get: "present t p \<longleftrightarrow> p = [] \<or> dict_get t p \<noteq> None"
  by (simp add: present_def node_at_def)

lemma below_get: "q \<in> set (below t p) \<longleftrightarrow> strict_prefix p q \<and> dict_get t q \<noteq> None"
  by (auto simp: below_def map_of_eq_None_iff)

lemma below_empty: "below t p = [] \<longleftrightarrow> (\<forall>q. strict_prefix p q \<longrightarrow> dict_get t q = None)"
  by (metis below_get empty_iff list.set(1) list.set_intros(1) neq_Nil_conv)

lemma well_formed_parent: "well_formed t \<Longrightarrow> dict_get t p = Some n \<Longrightarrow> is_directory t (butlast p)"
  by (auto simp: well_formed_def)

lemma strict_prefix_butlast: "strict_prefix p q \<longleftrightarrow> q \<noteq> [] \<and> prefix p (butlast q)"
  by (cases q rule: rev_cases) (auto simp: strict_prefix_def)

lemma well_formed_above:
  assumes "well_formed t" "present t q" "strict_prefix p q"
  shows "is_directory t p"
  using assms(2,3)
proof (induction q rule: rev_induct)
  case (snoc x q)
  from snoc.prems(1) obtain n where "dict_get t (q @ [x]) = Some n" by (auto simp: present_get)
  with assms(1) have dir: "is_directory t q" by (auto dest: well_formed_parent)
  show ?case
  proof (cases "p = q")
    case False
    with snoc.prems(2) have "strict_prefix p q" by (auto simp: strict_prefix_def)
    with snoc.IH is_directory_present [OF dir] show ?thesis by simp
  qed (use dir in simp)
qed simp

lemma well_formed_anchored: "well_formed t \<Longrightarrow> is_directory t (butlast a) \<Longrightarrow> anchored a t"
  unfolding anchored_def
  by (metis is_directory_present prefix_order.le_less strict_prefix_butlast well_formed_above)

lemma well_formed_gone: "well_formed t \<Longrightarrow> \<not> is_directory t p \<Longrightarrow> strict_prefix p q \<Longrightarrow> dict_get t q = None"
  by (metis present_get well_formed_above)

text \<open>Setting one entry, or removing one that has nothing below it, keeps a tree well formed.\<close>

lemma well_formed_set:
  assumes "well_formed t" "p \<noteq> []" "is_directory t (butlast p)"
    "is_directory t p \<longrightarrow> (\<exists>m. n = Directory m)"
  shows "well_formed (dict_set p n t)"
  unfolding well_formed_def
proof (intro allI impI conjI)
  fix q n' assume q: "dict_get (dict_set p n t) q = Some n'"
  with assms(1,2) show "q \<noteq> []" by (auto simp: dict_simps well_formed_def split: if_splits)
  have "is_directory t (butlast q)" using assms(1,3) q
    by (cases "q = p") (auto simp: dict_simps dest: well_formed_parent)
  then show "is_directory (dict_set p n t) (butlast q)" using assms(4) by (auto simp: is_directory_get dict_simps)
qed

lemma well_formed_pop:
  assumes "well_formed t" "is_directory t p \<Longrightarrow> below t p = []"
  shows "well_formed (dict_pop p t)"
  unfolding well_formed_def
proof (intro allI impI conjI)
  fix q n' assume q: "dict_get (dict_pop p t) q = Some n'"
  then have q': "dict_get t q = Some n'" "q \<noteq> p" by (auto simp: dict_simps split: if_splits)
  with assms(1) show "q \<noteq> []" by (auto simp: well_formed_def)
  from assms(1) q' have dir: "is_directory t (butlast q)" by (auto dest: well_formed_parent)
  have "butlast q = [] \<or> butlast q \<noteq> p"
  proof (rule ccontr)
    assume "\<not> ?thesis"
    with \<open>q \<noteq> []\<close> have "strict_prefix p q" by (auto simp: strict_prefix_butlast)
    with q' assms(2) dir \<open>\<not> ?thesis\<close> show False by (auto simp: below_empty)
  qed
  with dir show "is_directory (dict_pop p t) (butlast q)" by (auto simp: is_directory_get dict_simps)
qed

section \<open>Renaming\<close>

lemma get_renamed_keys:
  "(\<And>x. x \<in> fst ` set xs \<Longrightarrow> f x = y \<longleftrightarrow> x = z) \<Longrightarrow> dict_get (map (\<lambda>(x, n). (f x, n)) xs) y = dict_get xs z"
proof (induction xs)
  case (Cons a xs)
  then have "dict_get (map (\<lambda>(x, n). (f x, n)) xs) y = dict_get xs z" "f (fst a) = y \<longleftrightarrow> fst a = z" by auto
  then show ?case by (cases a) auto
qed simp

lemma get_filtered: "dict_get (filter (\<lambda>(x, n). x \<noteq> q) t) z = (if z = q then None else dict_get t z)"
  by (induction t) auto

lemma keys_filtered: "fst ` set (filter (\<lambda>(x, n). x \<noteq> q) t) = fst ` set t - {q}"
  by force

lemma rename_get:
  assumes r: "rename_entry p q t = Some t'" and wf: "well_formed t"
  shows "dict_get t' x = (if prefix q x then dict_get t (p @ drop (length q) x) else if prefix p x then None else dict_get t x)"
proof -
  from r have t': "t' = map (\<lambda>(x, n). (moved p q x, n)) (filter (\<lambda>(x, n). x \<noteq> q) t)"
    and pq: "\<not> prefix p q" "q \<noteq> []" and q: "present t q \<Longrightarrow> below t q = []"
    by (auto simp: rename_entry_def split: if_splits)
  have free: "y = q" if "y \<in> fst ` set t" "prefix q y" for y
  proof (rule ccontr)
    assume "y \<noteq> q"
    with that have y: "strict_prefix q y" "dict_get t y \<noteq> None" by (auto simp: strict_prefix_def map_of_eq_None_iff)
    with wf have "present t q" by (meson is_directory_present present_get well_formed_above)
    with q y show False by (auto simp: below_empty)
  qed
  have key: "moved p q y = x \<longleftrightarrow>
      y = (if prefix q x then p @ drop (length q) x else x) \<and> (prefix q x \<or> \<not> prefix p x)"
    if "y \<in> fst ` set (filter (\<lambda>(x, n). x \<noteq> q) t)" for y
  proof -
    have "y \<noteq> q" "y \<in> fst ` set t" using that by (simp_all only: keys_filtered) auto
    with free [of y] have "\<not> prefix q y" by auto
    then show ?thesis by (auto simp: moved_def prefix_def)
  qed
  show ?thesis
  proof (cases "prefix q x \<or> \<not> prefix p x")
    case True
    then have "dict_get t' x = dict_get (filter (\<lambda>(x, n). x \<noteq> q) t) (if prefix q x then p @ drop (length q) x else x)"
      unfolding t' by (intro get_renamed_keys) (simp only: key simp_thms)
    also have "\<dots> = dict_get t (if prefix q x then p @ drop (length q) x else x)"
      using pq(1) by (auto simp: get_filtered prefix_def)
    finally show ?thesis using True by auto
  next
    case False
    then have "x \<notin> fst ` set t'" using key unfolding t' by (force simp: image_iff)
    then show ?thesis using False by (simp add: map_of_eq_None_iff)
  qed
qed

lemma rename_well_formed:
  assumes r: "rename_entry p q t = Some t'" and wf: "well_formed t"
  shows "well_formed t'"
  unfolding well_formed_def
proof (intro allI impI conjI)
  note get = rename_get [OF r wf]
  from r have pq: "p \<noteq> []" "q \<noteq> []" "\<not> prefix p q" "is_directory t (butlast q)"
    by (auto simp: rename_entry_def split: if_splits)
  fix x n assume x: "dict_get t' x = Some n"
  with wf pq(2) show "x \<noteq> []" by (auto simp: get well_formed_def split: if_splits)
  show "is_directory t' (butlast x)"
  proof (cases "prefix q x")
    case True
    then obtain ys where ys: "x = q @ ys" by (auto simp: prefix_def)
    show ?thesis
    proof (cases ys rule: rev_cases)
      case Nil
      have "\<not> prefix q (butlast q)" using pq(2) by (meson prefix_order.less_irrefl strict_prefix_butlast)
      moreover have "\<not> prefix p (butlast q)" using pq(3) by (meson prefix_order.trans prefixeq_butlast)
      ultimately show ?thesis using pq(4) ys Nil by (simp add: is_directory_get get)
    next
      case (snoc zs z)
      with x ys have "dict_get t (p @ zs @ [z]) = Some n" by (simp add: get)
      with wf have "is_directory t (p @ zs)" by (metis append_assoc butlast_snoc well_formed_parent)
      with pq(1) show ?thesis by (simp add: ys snoc butlast_append is_directory_get get)
    qed
  next
    case False
    with x have px: "\<not> prefix p x" "dict_get t x = Some n" by (auto simp: get split: if_splits)
    with wf have "is_directory t (butlast x)" by (auto dest: well_formed_parent)
    moreover have "\<not> prefix q (butlast x)" "\<not> prefix p (butlast x)"
      using False px(1) by (meson prefix_order.trans prefixeq_butlast)+
    ultimately show ?thesis by (simp add: is_directory_get get)
  qed
qed

section \<open>Programs\<close>

definition moves :: "(tree \<Rightarrow> tree \<Rightarrow> bool) \<Rightarrow> 'a program \<Rightarrow> bool" where
  "moves R m \<longleftrightarrow> (\<forall>w. R (wd_tree w) (wd_tree (snd (m w))))"

definition orderly :: "(tree \<Rightarrow> tree \<Rightarrow> bool) \<Rightarrow> bool" where
  "orderly R \<longleftrightarrow> reflp R \<and> transp R"

lemma orderly_refl: "orderly R \<Longrightarrow> R t t"
  by (auto simp: orderly_def elim: reflpE)

lemma orderly_trans: "orderly R \<Longrightarrow> R t u \<Longrightarrow> R u v \<Longrightarrow> R t v"
  by (auto simp: orderly_def elim: transpE)

lemma orderly_eq [moving]: "orderly (=)"
  by (auto simp: orderly_def intro: reflpI transpI)

lemma movesD: "moves R m \<Longrightarrow> m w = (r, w') \<Longrightarrow> R (wd_tree w) (wd_tree w')"
  by (auto simp: moves_def dest: spec [of _ w])

lemma moves_give [moving]: "orderly R \<Longrightarrow> moves R (give a)"
  by (simp add: moves_def give_def orderly_refl)

lemma moves_fail [moving]: "orderly R \<Longrightarrow> moves R (fail_with e)"
  by (simp add: moves_def fail_with_def orderly_refl)

lemma moves_checked [moving]: "orderly R \<Longrightarrow> moves R (checked r)"
  by (simp add: moves_def checked_def orderly_refl)

lemma moves_asks [moving]: "orderly R \<Longrightarrow> moves R (asks f)"
  by (simp add: moves_def asks_def orderly_refl)

lemma moves_unless [moving]: "orderly R \<Longrightarrow> moves R (unless b e)"
  by (simp add: unless_def moves_give moves_fail)

lemma moves_chain [moving]:
  assumes "orderly R" "moves R m" "\<And>a. moves R (f a)"
  shows "moves R (chain m f)"
  unfolding moves_def
proof
  fix w
  obtain r w' where m: "m w = (r, w')" by fastforce
  from assms(2) this have "R (wd_tree w) (wd_tree w')" by (rule movesD)
  with assms(1,3) m show "R (wd_tree w) (wd_tree (snd (chain m f w)))"
    by (cases r) (auto simp: chain_def moves_def intro: orderly_trans)
qed

lemma moves_handling [moving]:
  assumes "orderly R" "moves R m" "\<And>e. moves R (h e)"
  shows "moves R (handling P m h)"
  unfolding moves_def
proof
  fix w
  obtain r w' where m: "m w = (r, w')" by fastforce
  from assms(2) this have "R (wd_tree w) (wd_tree w')" by (rule movesD)
  with assms(1,3) m show "R (wd_tree w) (wd_tree (snd (handling P m h w)))"
    by (cases r) (auto simp: handling_def moves_def intro: orderly_trans)
qed

lemma moves_translating [moving]: "orderly R \<Longrightarrow> moves R m \<Longrightarrow> moves R (translating e m)"
  unfolding translating_def by (intro moving)

lemma moves_each_in: "orderly R \<Longrightarrow> (\<And>x. x \<in> set xs \<Longrightarrow> moves R (f x)) \<Longrightarrow> moves R (each f xs)"
  by (induction xs) (simp_all add: moving)

lemma moves_each [moving]: "orderly R \<Longrightarrow> (\<And>x. moves R (f x)) \<Longrightarrow> moves R (each f xs)"
  by (rule moves_each_in)

lemma moves_if [moving]: "(b \<Longrightarrow> moves R x) \<Longrightarrow> (\<not> b \<Longrightarrow> moves R y) \<Longrightarrow> moves R (if b then x else y)"
  by simp

lemma moves_option [moving]:
  "(r = None \<Longrightarrow> moves R x) \<Longrightarrow> (\<And>a. r = Some a \<Longrightarrow> moves R (f a)) \<Longrightarrow> moves R (case r of None \<Rightarrow> x | Some a \<Rightarrow> f a)"
  by (cases r) simp_all

lemma moves_sum [moving]:
  "(\<And>e. r = Inl e \<Longrightarrow> moves R (f e)) \<Longrightarrow> (\<And>a. r = Inr a \<Longrightarrow> moves R (g a)) \<Longrightarrow> moves R (case r of Inl e \<Rightarrow> f e | Inr a \<Rightarrow> g a)"
  by (cases r) simp_all

lemma moves_prod [moving]: "(\<And>a b. r = (a, b) \<Longrightarrow> moves R (f a b)) \<Longrightarrow> moves R (case r of (a, b) \<Rightarrow> f a b)"
  by (cases r) simp

lemma moves_list [moving]:
  "(xs = [] \<Longrightarrow> moves R x) \<Longrightarrow> (\<And>y ys. xs = y # ys \<Longrightarrow> moves R (f y ys)) \<Longrightarrow> moves R (case xs of [] \<Rightarrow> x | y # ys \<Rightarrow> f y ys)"
  by (cases xs) simp_all

lemma moves_node [moving]:
  assumes "\<And>d m. n = Regular d m \<Longrightarrow> moves R (f d m)" "\<And>m. n = Directory m \<Longrightarrow> moves R (g m)"
    "\<And>q. n = Link q \<Longrightarrow> moves R (h q)" "n = Device \<Longrightarrow> moves R x"
  shows "moves R (case n of Regular d m \<Rightarrow> f d m | Directory m \<Rightarrow> g m | Link q \<Rightarrow> h q | Device \<Rightarrow> x)"
  using assms by (cases n) simp_all

lemma sys_tree:
  "wd_tree (snd (sys f w)) = wd_tree w \<or> (\<exists>a. f (wd_tree w) = Some (a, wd_tree (snd (sys f w))))"
  by (auto simp: sys_def split: list.splits decision.splits option.splits)

lemma moves_sys: "orderly R \<Longrightarrow> (\<And>t a t'. f t = Some (a, t') \<Longrightarrow> R t t') \<Longrightarrow> moves R (sys f)"
  unfolding moves_def using sys_tree [of f] by (metis orderly_refl)

lemma moves_changes: "orderly R \<Longrightarrow> (\<And>t t'. f t = Some t' \<Longrightarrow> R t t') \<Longrightarrow> moves R (changes f)"
  unfolding changes_def by (rule moves_sys) auto

lemma moves_observes [moving]: "orderly R \<Longrightarrow> moves R (observes f)"
  unfolding observes_def by (rule moves_sys) (auto intro: orderly_refl)

lemma moves_read_file [moving]: "orderly R \<Longrightarrow> moves R (read_file p)"
  unfolding read_file_def by (intro moving)

lemma moves_stat_entry [moving]: "orderly R \<Longrightarrow> moves R (stat_entry p)"
  unfolding stat_entry_def by (intro moving)

text \<open>A program that is given by cases on the state.\<close>

lemma moves_branch:
  "(\<And>w. m w = m1 w \<or> m w = m2 w) \<Longrightarrow> moves R m1 \<Longrightarrow> moves R m2 \<Longrightarrow> moves R m"
  unfolding moves_def by metis

section \<open>Confinement\<close>

definition stays :: "path \<Rightarrow> (path \<Rightarrow> bool) \<Rightarrow> tree \<Rightarrow> tree \<Rightarrow> bool" where
  "stays a A t t' \<longleftrightarrow> (well_formed t \<and> anchored a t \<longrightarrow>
     well_formed t' \<and> anchored a t' \<and> (\<forall>p. \<not> A p \<longrightarrow> dict_get t' p = dict_get t p))"

definition clear :: "path \<Rightarrow> (path \<Rightarrow> bool) \<Rightarrow> bool" where
  "clear a A \<longleftrightarrow> (\<forall>p. A p \<longrightarrow> \<not> strict_prefix p a)"

lemma orderly_stays [moving]: "orderly (stays a A)"
  by (auto simp: orderly_def stays_def intro!: reflpI transpI)

lemma stays_mono: "stays a A t t' \<Longrightarrow> (\<And>p. A p \<Longrightarrow> B p) \<Longrightarrow> stays a B t t'"
  unfolding stays_def by blast

lemma moves_stays_mono: "moves (stays a A) m \<Longrightarrow> (\<And>p. A p \<Longrightarrow> B p) \<Longrightarrow> moves (stays a B) m"
  unfolding moves_def using stays_mono by blast

lemma stays_anchored:
  assumes "clear a A" "anchored a t" "\<And>p. \<not> A p \<Longrightarrow> dict_get t' p = dict_get t p"
  shows "anchored a t'"
  using assms unfolding anchored_def clear_def by (metis is_directory_cong)

lemma staysI:
  assumes "clear a A" "well_formed t \<Longrightarrow> well_formed t'"
    "\<And>p. well_formed t \<Longrightarrow> \<not> A p \<Longrightarrow> dict_get t' p = dict_get t p"
  shows "stays a A t t'"
  unfolding stays_def using assms stays_anchored [OF assms(1)] by blast

lemma stays_set:
  assumes "clear a A" "A p" "p \<noteq> []" "is_directory t (butlast p)" "is_directory t p \<longrightarrow> (\<exists>m. n = Directory m)"
  shows "stays a A t (dict_set p n t)"
  using assms by (auto intro!: staysI well_formed_set simp: dict_simps)

lemma stays_make_directory:
  assumes "make_directory m p t = Some t'" "clear a A" "A p \<or> strict_prefix p a"
  shows "stays a A t t'"
proof (cases "A p")
  case True
  with assms show ?thesis
    by (auto simp: make_directory_def present_get dest: is_directory_present split: if_splits intro!: stays_set)
next
  case False
  with assms have "\<not> anchored a t" by (auto simp: make_directory_def anchored_def dest: is_directory_present split: if_splits)
  then show ?thesis by (simp add: stays_def)
qed

lemma stays_remove_entry:
  assumes "remove_entry p t = Some t'" "clear a A" "A p"
  shows "stays a A t t'"
  using assms by (auto simp: remove_entry_def dict_simps split: if_splits intro!: staysI well_formed_pop)

lemma stays_unlink: "unlink p t = Some t' \<Longrightarrow> clear a A \<Longrightarrow> A p \<Longrightarrow> stays a A t t'"
  by (auto simp: unlink_def split: if_splits intro: stays_remove_entry)

lemma stays_create_file:
  assumes "create_file p t = Some t'" "clear a A" "A p"
  shows "stays a A t t'"
  using assms by (auto simp: create_file_def present_get dest: is_directory_present split: if_splits intro!: stays_set)

lemma stays_write_file:
  assumes "write_file d p t = Some t'" "clear a A" "A p"
  shows "stays a A t t'"
proof -
  from assms(1) obtain c m where t': "t' = dict_set p (Regular d m) t" and p: "node_at t p = Some (Regular c m)"
    by (auto simp: write_file_def split: option.splits node.splits)
  then have get: "p \<noteq> []" "dict_get t p = Some (Regular c m)" by (auto simp: node_at_def split: if_splits)
  show ?thesis unfolding t' using assms(2,3) get
    by (auto intro!: staysI well_formed_set simp: is_directory_get dict_simps dest: well_formed_parent)
qed

lemma stays_change_mode:
  assumes "change_mode m p t = Some t'" "clear a A" "A p"
  shows "stays a A t t'"
proof -
  from assms(1) obtain n n' where t': "t' = dict_set p n' t" and p: "p \<noteq> []" "dict_get t p = Some n"
    and n: "(\<exists>d. n' = Regular d m \<and> (\<exists>m. n = Regular d m)) \<or> (n' = Directory m \<and> (\<exists>m. n = Directory m))"
    by (auto simp: change_mode_def node_at_def split: if_splits option.splits node.splits)
  show ?thesis unfolding t' using assms(2,3) p n
    by (auto intro!: staysI well_formed_set simp: is_directory_get dict_simps dest: well_formed_parent)
qed

lemma stays_replace_file:
  assumes "replace_file p q t = Some t'" "clear a A" "A p" "A q"
  shows "stays a A t t'"
proof -
  from assms(1) obtain d m where t': "t' = dict_set q (Regular d m) (dict_pop p t)" and p: "node_at t p = Some (Regular d m)"
    and q: "p \<noteq> q" "\<not> is_directory t q" "is_directory t (butlast q)"
    by (auto simp: replace_file_def split: option.splits node.splits if_splits)
  from p have "p \<noteq> []" "\<not> is_directory t p" by (auto simp: node_at_def is_directory_get split: if_splits)
  with q p have "is_directory (dict_pop p t) (butlast q)" "\<not> is_directory (dict_pop p t) q"
    by (auto simp: is_directory_get dict_simps)
  moreover have "well_formed t \<Longrightarrow> well_formed (dict_pop p t)" using \<open>\<not> is_directory t p\<close> by (auto intro: well_formed_pop)
  moreover have "q \<noteq> []" using q(2) by (auto simp: is_directory_get)
  ultimately show ?thesis unfolding t' using assms(2-4)
    by (auto intro!: staysI well_formed_set simp: dict_simps)
qed

lemma stays_rename:
  assumes "rename_entry p q t = Some t'" "clear a A" "\<And>x. prefix p x \<Longrightarrow> A x" "\<And>x. prefix q x \<Longrightarrow> A x"
  shows "stays a A t t'"
  using assms by (auto intro!: staysI rename_well_formed [OF assms(1)] simp: rename_get [OF assms(1)])

section \<open>Confined programs\<close>

lemma confined_ensure_directory:
  assumes "clear a A" "A p \<or> strict_prefix p a"
  shows "moves (stays a A) (ensure_directory m p)"
proof (rule moves_branch)
  fix w show "ensure_directory m p w = give () w \<or> ensure_directory m p w = changes (make_directory m p) w"
    by (simp add: ensure_directory_def give_def)
qed (use assms in \<open>auto intro!: moves_give moves_changes orderly_stays stays_make_directory\<close>)

lemma confined_make_directories:
  assumes "clear a A" "\<And>q. prefix q p \<Longrightarrow> q \<noteq> [] \<Longrightarrow> A q \<or> strict_prefix q a"
  shows "moves (stays a A) (make_directories m p)"
  unfolding make_directories_def
proof (rule moves_each_in)
  fix q assume "q \<in> set (map (\<lambda>n. take n p) [1..<Suc (length p)])"
  then have "prefix q p" "q \<noteq> []" by (auto simp: take_is_prefix)
  with assms show "moves (stays a A) (ensure_directory m q)" by (blast intro: confined_ensure_directory)
qed (rule moving)

lemma confined_remove_tree:
  assumes "clear a A" "\<And>x. prefix p x \<Longrightarrow> A x"
  shows "moves (stays a A) (remove_tree p)"
  unfolding moves_def
proof
  fix w :: world
  have "moves (stays a A) (each (\<lambda>q. changes (remove_entry q)) (removal_order (wd_tree w) p))"
    using assms by (intro moves_each_in moves_changes moving stays_remove_entry)
      (auto simp: removal_order_def below_get strict_prefix_def)
  then show "stays a A (wd_tree w) (wd_tree (snd (remove_tree p w)))" by (simp add: moves_def remove_tree_def)
qed

lemma confined_discard_temporary:
  assumes "clear a A" "A q"
  shows "moves (stays a A) (discard_temporary q)"
proof (rule moves_branch)
  fix w show "discard_temporary q w = changes (unlink q) w \<or> discard_temporary q w = give () w"
    by (simp add: discard_temporary_def give_def)
qed (use assms in \<open>auto intro!: moves_give moves_changes orderly_stays stays_unlink\<close>)

lemma moves_asking: "orderly R \<Longrightarrow> (\<And>t. moves R (g (f t))) \<Longrightarrow> moves R (chain (asks f) g)"
  by (auto simp: moves_def chain_def asks_def)

definition temporary_name :: "nat \<Rightarrow> string" where
  "temporary_name n = ''.workshop-tmp-'' @ replicate n (CHR ''x'')"

lemma temporary_cases: "temporary t p = [] \<or> (\<exists>n. temporary t p = p @ [temporary_name n])"
proof -
  have "set (q # qs) \<subseteq> range (\<lambda>n. p @ [temporary_name n])"
    if "filter (\<lambda>q. \<not> present t q) (map (\<lambda>n. p @ [temporary_name n]) [0..<Suc (length t)]) = q # qs" for q qs
    unfolding that [symmetric] by auto
  then show ?thesis unfolding temporary_def temporary_name_def [symmetric] by (auto split: list.splits)
qed

lemma confined_written:
  assumes "clear a A" "A q \<or> q = []" "A p"
  shows "moves (stays a A) (changes (create_file q))" "moves (stays a A) (changes (write_file d q))"
    "moves (stays a A) (changes (change_mode m q))" "moves (stays a A) (changes (replace_file q p))"
    "moves (stays a A) (discard_temporary q)"
proof -
  show "moves (stays a A) (changes (create_file q))" using assms
    by (auto intro!: moves_changes orderly_stays stays_create_file simp: create_file_def present_def node_at_def split: if_splits)
  show "moves (stays a A) (changes (write_file d q))" using assms
    by (intro moves_changes orderly_stays) (auto intro: stays_write_file simp: write_file_def node_at_def)
  show "moves (stays a A) (changes (change_mode m q))" using assms
    by (intro moves_changes orderly_stays) (auto intro: stays_change_mode simp: change_mode_def)
  show "moves (stays a A) (changes (replace_file q p))" using assms
    by (intro moves_changes orderly_stays) (auto intro: stays_replace_file simp: replace_file_def node_at_def)
  show "moves (stays a A) (discard_temporary q)"
  proof (cases "A q")
    case False
    with assms(2) have "\<And>t. unlink q t = None" by (simp add: unlink_def is_directory_get)
    then have "moves (stays a A) (changes (unlink q))" by (intro moves_changes orderly_stays) simp
    then show ?thesis by (intro moves_branch [of "discard_temporary q" "changes (unlink q)" "give ()"] moving)
      (simp add: discard_temporary_def give_def)
  qed (rule confined_discard_temporary [OF assms(1)])
qed

lemma confined_atomic_write:
  assumes "clear a A" "A p" "\<And>n. A (butlast p @ [temporary_name n])"
    "\<And>q. strict_prefix q p \<Longrightarrow> q \<noteq> [] \<Longrightarrow> A q \<or> strict_prefix q a"
  shows "moves (stays a A) (atomic_write dm p d m)"
  unfolding atomic_write_def
proof (intro moves_asking moves_chain moves_translating orderly_stays)
  show "moves (stays a A) (make_directories dm (butlast p))"
  proof (intro confined_make_directories assms(1))
    fix q assume q: "prefix q (butlast p)" "q \<noteq> []"
    then have "p \<noteq> []" by auto
    with q assms(4) show "A q \<or> strict_prefix q a" by (simp add: strict_prefix_butlast [of q p])
  qed
next
  fix t
  let ?q = "temporary t (butlast p)"
  have "A ?q \<or> ?q = []" using assms(3) temporary_cases [of t "butlast p"] by auto
  note written = confined_written [OF assms(1) this assms(2)]
  show "moves (stays a A) (changes (create_file ?q))" by (rule written)
  show "moves (stays a A) (handling os_fault
       (chain (changes (write_file d ?q)) (\<lambda>_. chain (changes (change_mode m ?q)) (\<lambda>_. changes (replace_file ?q p))))
       (\<lambda>_. chain (discard_temporary ?q) (\<lambda>_. fail_with WorkshopError)))"
    by (intro moves_handling moves_chain moves_fail orderly_stays written)
qed


section \<open>Inversion\<close>

lemma chainE:
  assumes "chain m f w = (r, w')"
  obtains (fails) e where "m w = (Inl e, w')" "r = Inl e"
    | (works) a w1 where "m w = (Inr a, w1)" "f a w1 = (r, w')"
  using assms by (cases "m w") (auto simp: chain_def split: sum.splits)

lemma chain_works:
  assumes "chain m f w = (Inr b, w')"
  obtains a w1 where "m w = (Inr a, w1)" "f a w1 = (Inr b, w')"
  using assms by (rule chainE) auto

lemma handlingE:
  assumes "handling P m h w = (r, w')"
  obtains (passed) "m w = (r, w')" "\<And>e. r = Inl e \<Longrightarrow> \<not> P e"
    | (handled) e w1 where "m w = (Inl e, w1)" "P e" "h e w1 = (r, w')"
  using assms by (cases "m w") (auto simp: handling_def split: sum.splits if_splits)

lemma translating_works: "translating e m w = (Inr a, w') \<longleftrightarrow> m w = (Inr a, w')"
  by (auto simp: translating_def handling_def fail_with_def split: prod.splits sum.splits if_splits)

lemma translatingE:
  assumes "translating e m w = (r, w')"
  obtains r' where "m w = (r', w')" "r = Inr a \<Longrightarrow> r' = Inr a" "r = Inl e' \<Longrightarrow> \<exists>e. r' = Inl e"
  using assms by (auto simp: translating_def handling_def fail_with_def split: prod.splits sum.splits if_splits)

lemma changes_works: "changes f w = (Inr u, w') \<Longrightarrow> f (wd_tree w) = Some (wd_tree w')"
  by (auto simp: changes_def sys_def split: list.splits decision.splits option.splits)

lemma changes_fails: "changes f w = (Inl e, w') \<Longrightarrow> wd_tree w' = wd_tree w"
  by (auto simp: changes_def sys_def split: list.splits decision.splits option.splits)

lemma observes_works: "observes f w = (Inr a, w') \<Longrightarrow> f (wd_tree w) = Some a \<and> wd_tree w' = wd_tree w"
  by (auto simp: observes_def sys_def split: list.splits decision.splits option.splits)

lemma looks: "moves (=) m \<Longrightarrow> m w = (r, w') \<Longrightarrow> wd_tree w' = wd_tree w"
  by (metis movesD)

lemma stays_within:
  assumes "moves (stays [] A) m" "m w = (r, w')" "well_formed (wd_tree w)"
  shows "well_formed (wd_tree w')" "\<not> A p \<Longrightarrow> dict_get (wd_tree w') p = dict_get (wd_tree w) p"
  using movesD [OF assms(1,2)] assms(3) by (simp_all add: stays_def anchored_def)

lemma clear_root: "clear [] A"
  by (simp add: clear_def)

text \<open>Whatever happens, the target of an atomic write is as before or complete.\<close>

lemma atomic_write_outcome:
  assumes run: "atomic_write dm p d m w = (r, w')" and wf: "well_formed (wd_tree w)"
    and p: "p \<noteq> []" "\<And>n. p \<noteq> butlast p @ [temporary_name n]"
  shows "dict_get (wd_tree w') p = (case r of Inl e \<Rightarrow> dict_get (wd_tree w) p | Inr u \<Rightarrow> Some (Regular d m))"
proof -
  let ?A = "\<lambda>x. x \<noteq> p"
  let ?same = "\<lambda>v. dict_get (wd_tree v) p = dict_get (wd_tree w) p"
  have dirs: "moves (stays [] ?A) (make_directories dm (butlast p))"
    using p(1) by (intro confined_make_directories clear_root) (metis prefix_order.less_irrefl strict_prefix_butlast)
  from run [unfolded atomic_write_def] show ?thesis
  proof (cases rule: chainE)
    case (fails e)
    then show ?thesis
      using movesD [OF moves_translating [OF orderly_stays dirs] fails(1)] wf by (simp add: stays_def anchored_def)
  next
    case (works a w1)
    then have w1: "make_directories dm (butlast p) w = (Inr a, w1)" by (simp add: translating_works)
    note wf1 = stays_within(1) [OF dirs w1 wf] and same1 = stays_within(2) [OF dirs w1 wf, of p, simplified]
    define q where "q = temporary (wd_tree w1) (butlast p)"
    have q: "?A q" using temporary_cases [of "wd_tree w1" "butlast p"] p by (metis q_def)
    from works(2) have "chain (translating WorkshopError (changes (create_file q))) (\<lambda>_.
        handling os_fault
          (chain (changes (write_file d q)) (\<lambda>_. chain (changes (change_mode m q)) (\<lambda>_. changes (replace_file q p))))
          (\<lambda>_. chain (discard_temporary q) (\<lambda>_. fail_with WorkshopError))) w1 = (r, w')"
      by (simp add: chain_def asks_def q_def)
    then show ?thesis
    proof (cases rule: chainE)
      case (fails e)
      then show ?thesis using same1 by (auto elim!: translatingE dest: changes_fails split: sum.splits)
    next
      case (works a w2)
      have create: "moves (stays [] ?A) (changes (create_file q))"
        using q by (intro moves_changes orderly_stays) (auto intro: stays_create_file clear_root)
      have inner: "moves (stays [] ?A) (changes (write_file d q))" "moves (stays [] ?A) (changes (change_mode m q))"
        "moves (stays [] ?A) (discard_temporary q)"
        using q by (intro moves_changes orderly_stays confined_discard_temporary clear_root;
          auto intro: stays_write_file stays_change_mode clear_root)+
      from works(1) have w2: "changes (create_file q) w1 = (Inr a, w2)" by (simp add: translating_works)
      note wf2 = stays_within(1) [OF create w2 wf1] and same2 = stays_within(2) [OF create w2 wf1, of p, simplified]
      have written: "dict_get (wd_tree v) p = (case x of Inl e \<Rightarrow> dict_get (wd_tree w) p | Inr u \<Rightarrow> Some (Regular d m)) \<and>
          well_formed (wd_tree v)"
        if "chain (changes (write_file d q)) (\<lambda>_. chain (changes (change_mode m q)) (\<lambda>_. changes (replace_file q p))) w2 = (x, v)" for x v
        using that
      proof (cases rule: chainE)
        case (fails e)
        with wf2 same1 same2 show ?thesis by (auto dest: changes_fails)
      next
        case (works a w3)
        note wf3 = stays_within(1) [OF inner(1) works(1) wf2] and same3 = stays_within(2) [OF inner(1) works(1) wf2, of p, simplified]
        from changes_works [OF works(1)] obtain m' where "wd_tree w3 = dict_set q (Regular d m') (wd_tree w2)" "q \<noteq> []"
          by (auto simp: write_file_def node_at_def split: option.splits node.splits if_splits) metis
        then have q3: "node_at (wd_tree w3) q = Some (Regular d m')" by (simp add: node_at_def dict_simps)
        from works(2) show ?thesis
        proof (cases rule: chainE)
          case (fails e)
          with wf3 same1 same2 same3 show ?thesis by (auto dest: changes_fails)
        next
          case (works b w4)
          note wf4 = stays_within(1) [OF inner(2) works(1) wf3] and same4 = stays_within(2) [OF inner(2) works(1) wf3, of p, simplified]
          from changes_works [OF works(1)] q3 have q4: "node_at (wd_tree w4) q = Some (Regular d m)"
            by (auto simp: change_mode_def node_at_def dict_simps split: if_splits dest!: sym [of "dict_set q n t" for n t])
          show ?thesis
          proof (cases x)
            case (Inl e)
            with works(2) wf4 same1 same2 same3 same4 show ?thesis by (auto dest: changes_fails)
          next
            case (Inr u)
            with works(2) have step: "replace_file q p (wd_tree w4) = Some (wd_tree v)" by (auto dest: changes_works)
            then have "wd_tree v = dict_set p (Regular d m) (dict_pop q (wd_tree w4))"
              using q4 by (simp add: replace_file_def split: if_splits)
            then have "dict_get (wd_tree v) p = Some (Regular d m)" by (simp add: dict_simps)
            moreover have "stays [] (\<lambda>_. True) (wd_tree w4) (wd_tree v)" using step by (rule stays_replace_file) (simp_all add: clear_root)
            ultimately show ?thesis using wf4 Inr by (simp add: stays_def anchored_def)
          qed
        qed
      qed
      from works(2) show ?thesis
      proof (cases rule: handlingE)
        case passed
        then show ?thesis using written by blast
      next
        case (handled e w5)
        from written [OF handled(1)] have w5: "?same w5" "well_formed (wd_tree w5)" by simp_all
        from handled(3) obtain x w6 where w6: "discard_temporary q w5 = (x, w6)" and r: "wd_tree w' = wd_tree w6" "\<exists>e. r = Inl e"
          by (auto elim!: chainE simp: fail_with_def)
        from stays_within(2) [OF inner(3) w6 w5(2), of p] w5(1) r show ?thesis by auto
      qed
    qed
  qed
qed

lemma removed_all:
  assumes "each (\<lambda>q. changes (remove_entry q)) qs w = (Inr u, w')"
  shows "(\<forall>q \<in> set qs. dict_get (wd_tree w') q = None) \<and> (\<forall>x. dict_get (wd_tree w) x = None \<longrightarrow> dict_get (wd_tree w') x = None)"
  using assms
proof (induction qs arbitrary: w)
  case Nil
  then show ?case by (auto simp: give_def)
next
  case (Cons q qs)
  from Cons.prems obtain a w1 where w1: "changes (remove_entry q) w = (Inr a, w1)"
    and rest: "each (\<lambda>q. changes (remove_entry q)) qs w1 = (Inr u, w')"
    by (auto elim: chain_works)
  from changes_works [OF w1] have "wd_tree w1 = dict_pop q (wd_tree w)" by (simp add: remove_entry_def split: if_splits)
  with Cons.IH [OF rest] show ?case by (auto simp: dict_simps)
qed

lemma remove_tree_works:
  assumes "remove_tree p w = (Inr u, w')" "prefix p x"
  shows "dict_get (wd_tree w') x = None"
proof -
  note gone = removed_all [OF assms(1) [unfolded remove_tree_def]]
  show ?thesis
  proof (cases "x = p \<or> dict_get (wd_tree w) x = None")
    case False
    then have "x \<in> set (below (wd_tree w) p)" using assms(2) by (auto simp: below_get strict_prefix_def)
    then show ?thesis using gone by (simp add: removal_order_def)
  qed (use gone in \<open>auto simp: removal_order_def\<close>)
qed

section \<open>Normal forms\<close>

lemma chain_give [straight]: "chain (give a) f = f a"
  by (simp add: chain_def give_def fun_eq_iff)

lemma chain_fail [straight]: "chain (fail_with e) f = fail_with e"
  by (simp add: chain_def fail_with_def fun_eq_iff)

lemma chain_assoc [straight]: "chain (chain m f) g = chain m (\<lambda>a. chain (f a) g)"
  by (simp add: chain_def fun_eq_iff split: sum.splits prod.splits)

lemma chain_checked [straight]: "chain (checked r) f = (case r of Inl e \<Rightarrow> fail_with e | Inr a \<Rightarrow> f a)"
  by (simp add: chain_def checked_def fail_with_def fun_eq_iff split: sum.splits)

end
