(* ===== verification/Manifests.thy ===== *)
theory Manifests
  imports Repository
begin

text \<open>
  What the runner accepts, \<^verbatim>\<open>scripts/workshop.py\<close>: the checks of JSON objects, of paths and of identifiers, and
  the manifest of a scenario. The functions are pure: they return the error or the value.
\<close>

section \<open>Objects\<close>

definition require :: "bool \<Rightarrow> failure \<Rightarrow> failure + unit" where
  "require b e = (if b then Inr () else Inl e)"

fun map_checked :: "('a \<Rightarrow> failure + 'b) \<Rightarrow> 'a list \<Rightarrow> failure + 'b list" where
  "map_checked f [] = Inr []"
| "map_checked f (x # xs) = (case f x of Inl e \<Rightarrow> Inl e | Inr y \<Rightarrow> map_sum id ((#) y) (map_checked f xs))"

definition check_keys :: "payload \<Rightarrow> string list \<Rightarrow> string list \<Rightarrow> failure + unit" where
  "check_keys d required optional =
     require (set required \<subseteq> set (dict_keys d) \<and> set (dict_keys d) \<subseteq> set required \<union> set optional) ArtifactError"

definition as_str :: "payload \<Rightarrow> string \<Rightarrow> failure + string" where
  "as_str d k = (case dict_get d k of
      Some (VStr s) \<Rightarrow> if strip s = [] then Inl ArtifactError else Inr s
    | _ \<Rightarrow> Inl ArtifactError)"

definition as_int :: "payload \<Rightarrow> string \<Rightarrow> int \<Rightarrow> int \<Rightarrow> int \<Rightarrow> failure + int" where
  "as_int d k fallback low high = (case dict_get d k of
      None \<Rightarrow> Inr fallback
    | Some (VInt n) \<Rightarrow> if low \<le> n \<and> n \<le> high then Inr n else Inl ArtifactError
    | Some _ \<Rightarrow> Inl ArtifactError)"

definition nonempty_text :: "pyval \<Rightarrow> failure + string" where
  "nonempty_text v = (case v of VStr s \<Rightarrow> if s = [] then Inl ArtifactError else Inr s | _ \<Rightarrow> Inl ArtifactError)"

definition as_str_list :: "payload \<Rightarrow> string \<Rightarrow> string list \<Rightarrow> failure + string list" where
  "as_str_list d k fallback = (case dict_get d k of
      None \<Rightarrow> Inr fallback
    | Some (VList vs) \<Rightarrow> map_checked nonempty_text vs
    | Some _ \<Rightarrow> Inl ArtifactError)"

definition as_object :: "pyval \<Rightarrow> failure + payload" where
  "as_object v = (case v of VDict d \<Rightarrow> Inr d | _ \<Rightarrow> Inl ArtifactError)"

definition as_dict_list :: "payload \<Rightarrow> string \<Rightarrow> failure + payload list" where
  "as_dict_list d k = (case dict_get d k of
      Some (VList vs) \<Rightarrow> if vs = [] then Inl ArtifactError else map_checked as_object vs
    | _ \<Rightarrow> Inl ArtifactError)"

definition opt_text :: "payload \<Rightarrow> string \<Rightarrow> failure + string option" where
  "opt_text d k = (case dict_get d k of
      None \<Rightarrow> Inr None
    | Some VNone \<Rightarrow> Inr None
    | Some (VStr s) \<Rightarrow> if s = [] then Inl ArtifactError else Inr (Some s)
    | Some _ \<Rightarrow> Inl ArtifactError)"

text \<open>
  What a loop over \<^verbatim>\<open>raw.get(key, []) or []\<close> runs over: nothing for a value that is false, the elements of a list, the
  characters of a text, the keys of an object; a number or a truth value cannot be iterated.
\<close>

definition loop_over :: "payload \<Rightarrow> string \<Rightarrow> failure + pyval list" where
  "loop_over d k = (case dict_get d k of
      None \<Rightarrow> Inr []
    | Some VNone \<Rightarrow> Inr []
    | Some (VList vs) \<Rightarrow> Inr vs
    | Some (VStr s) \<Rightarrow> Inr (map (\<lambda>c. VStr [c]) s)
    | Some (VDict e) \<Rightarrow> Inr (map (\<lambda>(k, v). VStr k) e)
    | Some (VBool b) \<Rightarrow> if b then Inl TypeFault else Inr []
    | Some (VInt n) \<Rightarrow> if n = 0 then Inr [] else Inl TypeFault
    | Some (VFloat x) \<Rightarrow> if x = Fin 0 then Inr [] else Inl TypeFault
    | Some _ \<Rightarrow> Inl TypeFault)"

section \<open>Paths\<close>

fun split_char :: "char \<Rightarrow> string \<Rightarrow> string list" where
  "split_char c [] = [[]]"
| "split_char c (x # xs) =
     (if x = c then [] # split_char c xs
      else (case split_char c xs of [] \<Rightarrow> [[x]] | w # ws \<Rightarrow> (x # w) # ws))"

fun join_char :: "char \<Rightarrow> string list \<Rightarrow> string" where
  "join_char c [] = []"
| "join_char c [w] = w"
| "join_char c (w # ws) = w @ c # join_char c ws"

definition slash :: char where "slash = CHR ''/''"

text \<open>\<^verbatim>\<open>PurePosixPath\<close> of a relative path drops empty names and names \<^verbatim>\<open>.\<close>; its text is \<^verbatim>\<open>.\<close> when nothing is left.\<close>

definition pure_path :: "string \<Rightarrow> path" where
  "pure_path s = filter (\<lambda>w. w \<noteq> [] \<and> w \<noteq> ''.'') (split_char slash s)"

definition posix :: "path \<Rightarrow> string" where
  "posix p = (if p = [] then ''.'' else join_char slash p)"

definition rstrip_slash :: "string \<Rightarrow> string" where
  "rstrip_slash s = rev (dropWhile (\<lambda>c. c = slash) (rev s))"

definition is_alnum :: "char \<Rightarrow> bool" where
  "is_alnum c \<longleftrightarrow> is_upper c \<or> is_lower c \<or> is_digit c"

definition safe_path_char :: "char \<Rightarrow> bool" where
  "safe_path_char c \<longleftrightarrow> is_alnum c \<or> c \<in> set ''._-/''"

definition check_relpath :: "string \<Rightarrow> failure + path" where
  "check_relpath rel =
     (if rel = [] \<or> rel \<noteq> strip rel then Inl ArtifactError
      else if CHR 0x5C \<in> set rel then Inl ArtifactError
      else if hd rel = slash \<or> (length rel > 1 \<and> rel ! 1 = CHR '':'') then Inl ArtifactError
      else if \<not> list_all safe_path_char rel then Inl ArtifactError
      else (let p = pure_path rel in
        if list_ex (\<lambda>w. w = ''..'' \<or> w = ''.'') p then Inl ArtifactError
        else if posix p \<noteq> rstrip_slash rel then Inl ArtifactError
        else Inr p))"

text \<open>\<^verbatim>\<open>resolve_under_root\<close>: no link on the way; without links a relative path stays below the root.\<close>

definition resolve_under_root :: "path \<Rightarrow> path program" where
  "resolve_under_root p w =
     (if list_ex (\<lambda>n. is_link (wd_tree w) (take n p)) [1..<Suc (length p)] then (Inl ArtifactError, w) else (Inr p, w))"

definition check_scenario_id :: "string \<Rightarrow> failure + string" where
  "check_scenario_id s =
     (if s = [] \<or> length s > 64 then Inl ArtifactError
      else if \<not> list_all (\<lambda>c. is_lower c \<or> is_digit c \<or> c = CHR ''-'') s then Inl ArtifactError
      else if hd s = CHR ''-'' \<or> last s = CHR ''-'' then Inl ArtifactError
      else Inr s)"

definition scenario_root :: path where "scenario_root = [''workshop'', ''scenarios'']"
definition fallback_root :: path where "fallback_root = [''workshop'', ''fallbacks'']"
definition catalogue_path :: path where "catalogue_path = scenario_root @ [''catalogue.json'']"
definition state_dir_rel :: path where "state_dir_rel = [''.workshop-state'']"

definition work_dir_rel :: "string \<Rightarrow> path" where
  "work_dir_rel i = scenario_root @ pure_path i @ [''work'']"

definition backup_dir_rel :: "string \<Rightarrow> path" where
  "backup_dir_rel i = state_dir_rel @ [''backups''] @ pure_path i"

definition attempt_dir_rel :: "string \<Rightarrow> path" where
  "attempt_dir_rel i = state_dir_rel @ [''attempts''] @ pure_path i"

definition pre_start_work_dir_rel :: "string \<Rightarrow> path" where
  "pre_start_work_dir_rel i = backup_dir_rel i @ [''pre-start-work'']"

definition check_confined :: "string \<Rightarrow> path \<Rightarrow> bool \<Rightarrow> failure + path" where
  "check_confined rel parent itself = (case check_relpath rel of
      Inl e \<Rightarrow> Inl e
    | Inr p \<Rightarrow> if p = parent then (if itself then Inr p else Inl ArtifactError)
        else if strict_prefix parent p then Inr p else Inl ArtifactError)"

definition hex_char :: "char \<Rightarrow> bool" where
  "hex_char c \<longleftrightarrow> c \<in> set ''0123456789abcdef''"

definition check_sha256 :: "string \<Rightarrow> failure + string" where
  "check_sha256 s = (if length (lower s) = 64 \<and> list_all hex_char (lower s) then Inr (lower s) else Inl ArtifactError)"

text \<open>
  \<^verbatim>\<open>int(s, 8)\<close> of a text that begins with a zero: blanks around it are dropped, a prefix \<^verbatim>\<open>0o\<close> may follow, and single
  underscores may stand between digits (and after the prefix).
\<close>

definition octal_digit :: "char \<Rightarrow> nat" where
  "octal_digit c = length (takeWhile (\<lambda>d. d \<noteq> c) ''01234567'')"

fun octal_digits :: "string \<Rightarrow> nat \<Rightarrow> nat option" where
  "octal_digits [] n = Some n"
| "octal_digits (c # cs) n =
     (if c \<in> set ''01234567'' then octal_digits cs (8 * n + octal_digit c)
      else if c = CHR ''_'' \<and> cs \<noteq> [] \<and> hd cs \<noteq> CHR ''_'' then octal_digits cs n
      else None)"

definition octal :: "string \<Rightarrow> nat option" where
  "octal s = (let d = strip s in
     if length d > 1 \<and> d ! 1 \<in> set ''oO'' then (if drop 2 d = [] then None else octal_digits (drop 2 d) 0)
     else octal_digits d 0)"

definition octal_text :: "nat \<Rightarrow> string" where
  "octal_text m = map (\<lambda>k. char_of (48 + (m div 8 ^ k) mod 8)) [3, 2, 1, 0]"

definition check_mode_string :: "string \<Rightarrow> failure + string" where
  "check_mode_string s =
     (if length s \<noteq> 4 \<or> hd s \<noteq> CHR ''0'' then Inl ArtifactError
      else (case octal s of None \<Rightarrow> Inl ArtifactError | Some m \<Rightarrow> if m \<le> 511 then Inr s else Inl ArtifactError))"

text \<open>\<open>aware\<close> tells whether a text is an ISO time stamp, and then whether it has a time zone.\<close>

definition check_utc_timestamp :: "(string \<Rightarrow> bool option) \<Rightarrow> string \<Rightarrow> failure + string" where
  "check_utc_timestamp aware s = (if aware s = Some True then Inr s else Inl ArtifactError)"

section \<open>Manifests\<close>

datatype scenario_kind = Kind_code | Kind_evidence

record stage_item =
  si_payload :: path
  si_target :: path
  si_mode :: nat
  si_description :: string

record acceptance_command =
  am_label :: string
  am_argv :: "string list"
  am_timeout :: int

record evidence_field =
  ef_label :: string
  ef_min_chars :: int
  ef_options :: "string list"

record evidence_block =
  eb_prefix :: string
  eb_min_count :: int
  eb_fields :: "evidence_field list"

record evidence_check =
  ec_path :: path
  ec_headings :: "string list"
  ec_min_words :: int
  ec_placeholders :: "string list"
  ec_fields :: "evidence_field list"
  ec_blocks :: "evidence_block list"

record manifest =
  mf_id :: string
  mf_title :: string
  mf_kind :: scenario_kind
  mf_lab :: string
  mf_summary :: string
  mf_directory :: path
  mf_fallback :: path
  mf_artifacts :: "path list"
  mf_imports :: "string list"
  mf_stage :: "stage_item list"
  mf_commands :: "acceptance_command list"
  mf_evidence :: "evidence_check option"
  mf_doc :: path
  mf_briefing :: "string list"

definition stage_mode :: "payload \<Rightarrow> failure + nat" where
  "stage_mode raw = (case (case dict_get raw ''mode'' of None \<Rightarrow> VStr ''0644'' | Some v \<Rightarrow> v) of
      VStr s \<Rightarrow> if length s \<noteq> 4 \<or> hd s \<noteq> CHR ''0'' then Inl ArtifactError
        else (case octal s of
            None \<Rightarrow> Inl ArtifactError
          | Some m \<Rightarrow> if m \<in> {420, 384, 493} then Inr m else Inl ArtifactError)
    | _ \<Rightarrow> Inl ArtifactError)"

definition path_key :: "payload \<Rightarrow> string \<Rightarrow> failure + path" where
  "path_key raw k = (case as_str raw k of Inl e \<Rightarrow> Inl e | Inr s \<Rightarrow> check_relpath s)"

definition parse_stage_item :: "string \<Rightarrow> path list \<Rightarrow> payload \<Rightarrow> failure + stage_item" where
  "parse_stage_item i seen raw =
     (case check_keys raw [''payload'', ''target'', ''description''] [''mode''] of Inl e \<Rightarrow> Inl e | Inr _ \<Rightarrow>
     (case path_key raw ''payload'' of Inl e \<Rightarrow> Inl e | Inr source \<Rightarrow>
     (case path_key raw ''target'' of Inl e \<Rightarrow> Inl e | Inr target \<Rightarrow>
      if \<not> prefix (scenario_root @ pure_path i) source \<or> \<not> prefix (scenario_root @ pure_path i) target \<or> target \<in> set seen then Inl ArtifactError
      else (case stage_mode raw of Inl e \<Rightarrow> Inl e | Inr m \<Rightarrow>
        map_sum id (\<lambda>d. \<lparr>si_payload = source, si_target = target, si_mode = m, si_description = d\<rparr>) (as_str raw ''description'')))))"

fun parse_stage_items :: "string \<Rightarrow> path list \<Rightarrow> payload list \<Rightarrow> failure + stage_item list" where
  "parse_stage_items i seen [] = Inr []"
| "parse_stage_items i seen (raw # raws) = (case parse_stage_item i seen raw of
      Inl e \<Rightarrow> Inl e
    | Inr item \<Rightarrow> map_sum id ((#) item) (parse_stage_items i (si_target item # seen) raws))"

definition parse_stage :: "string \<Rightarrow> payload \<Rightarrow> failure + stage_item list" where
  "parse_stage i d = (case as_dict_list d ''stage'' of Inl e \<Rightarrow> Inl e | Inr raws \<Rightarrow> parse_stage_items i [] raws)"

definition python_placeholder :: string where "python_placeholder = ''{python}''"

definition argv_token_ok :: "string \<Rightarrow> bool" where
  "argv_token_ok s \<longleftrightarrow> (hd s = CHR ''{'' \<longrightarrow> s = python_placeholder) \<and> CHR 0x0A \<notin> set s \<and> CHR 0x0D \<notin> set s \<and> CHR 0x00 \<notin> set s"

definition parse_command :: "payload \<Rightarrow> failure + acceptance_command" where
  "parse_command raw =
     (case check_keys raw [''label'', ''argv''] [''timeout_seconds''] of Inl e \<Rightarrow> Inl e | Inr _ \<Rightarrow>
     (case as_str_list raw ''argv'' [] of Inl e \<Rightarrow> Inl e | Inr argv \<Rightarrow>
      if argv = [] \<or> \<not> list_all argv_token_ok argv then Inl ArtifactError
      else (case as_str raw ''label'' of Inl e \<Rightarrow> Inl e | Inr l \<Rightarrow>
        map_sum id (\<lambda>n. \<lparr>am_label = l, am_argv = argv, am_timeout = n\<rparr>) (as_int raw ''timeout_seconds'' 120 1 900))))"

definition parse_commands :: "payload \<Rightarrow> failure + acceptance_command list" where
  "parse_commands raw = (case as_dict_list raw ''commands'' of Inl e \<Rightarrow> Inl e | Inr raws \<Rightarrow> map_checked parse_command raws)"

definition parse_field :: "pyval \<Rightarrow> failure + evidence_field" where
  "parse_field v = (case as_object v of Inl e \<Rightarrow> Inl e | Inr item \<Rightarrow>
     (case check_keys item [''label''] [''min_chars'', ''must_contain_any''] of Inl e \<Rightarrow> Inl e | Inr _ \<Rightarrow>
     (case as_str item ''label'' of Inl e \<Rightarrow> Inl e | Inr l \<Rightarrow>
     (case as_int item ''min_chars'' 10 1 2000 of Inl e \<Rightarrow> Inl e | Inr n \<Rightarrow>
      map_sum id (\<lambda>ws. \<lparr>ef_label = l, ef_min_chars = n, ef_options = ws\<rparr>) (as_str_list item ''must_contain_any'' [])))))"

definition parse_fields :: "payload \<Rightarrow> failure + evidence_field list" where
  "parse_fields raw = (case loop_over raw ''fields'' of Inl e \<Rightarrow> Inl e | Inr vs \<Rightarrow> map_checked parse_field vs)"

definition parse_block :: "pyval \<Rightarrow> failure + evidence_block" where
  "parse_block v = (case as_object v of Inl e \<Rightarrow> Inl e | Inr raw \<Rightarrow>
     (case check_keys raw [''heading_prefix'', ''min_count''] [''fields''] of Inl e \<Rightarrow> Inl e | Inr _ \<Rightarrow>
     (case as_str raw ''heading_prefix'' of Inl e \<Rightarrow> Inl e | Inr h \<Rightarrow>
     (case as_int raw ''min_count'' 1 1 20 of Inl e \<Rightarrow> Inl e | Inr n \<Rightarrow>
      map_sum id (\<lambda>fs. \<lparr>eb_prefix = h, eb_min_count = n, eb_fields = fs\<rparr>) (parse_fields raw)))))"

definition parse_evidence :: "pyval \<Rightarrow> failure + evidence_check" where
  "parse_evidence v = (case as_object v of Inl e \<Rightarrow> Inl e | Inr raw \<Rightarrow>
     (case check_keys raw [''path'', ''required_headings''] [''min_words_per_section'', ''placeholders'', ''fields'', ''blocks''] of
        Inl e \<Rightarrow> Inl e | Inr _ \<Rightarrow>
     (case path_key raw ''path'' of Inl e \<Rightarrow> Inl e | Inr p \<Rightarrow>
     (case as_str_list raw ''required_headings'' [] of Inl e \<Rightarrow> Inl e | Inr hs \<Rightarrow>
      if hs = [] \<or> \<not> list_all (\<lambda>h. hd h = CHR ''#'') hs then Inl ArtifactError
      else (case (case loop_over raw ''blocks'' of Inl e \<Rightarrow> Inl e | Inr vs \<Rightarrow> map_checked parse_block vs) of
        Inl e \<Rightarrow> Inl e | Inr bs \<Rightarrow>
      (case as_int raw ''min_words_per_section'' 12 1 500 of Inl e \<Rightarrow> Inl e | Inr n \<Rightarrow>
      (case as_str_list raw ''placeholders'' [''TODO'', ''TBD'', ''<fill in>'', ''PLACEHOLDER''] of Inl e \<Rightarrow> Inl e | Inr ps \<Rightarrow>
       map_sum id (\<lambda>fs. \<lparr>ec_path = p, ec_headings = hs, ec_min_words = n, ec_placeholders = ps, ec_fields = fs, ec_blocks = bs\<rparr>)
         (parse_fields raw))))))))"

definition parse_acceptance :: "pyval \<Rightarrow> scenario_kind \<Rightarrow> failure + acceptance_command list \<times> evidence_check option" where
  "parse_acceptance v kind = (case as_object v of Inl e \<Rightarrow> Inl e | Inr raw \<Rightarrow>
     (case as_str raw ''kind'' of Inl e \<Rightarrow> Inl e | Inr k \<Rightarrow>
      if k = ''command'' then
        (if kind \<noteq> Kind_code then Inl ArtifactError
         else (case check_keys raw [''kind'', ''commands''] [] of Inl e \<Rightarrow> Inl e | Inr _ \<Rightarrow>
           map_sum id (\<lambda>cs. (cs, None)) (parse_commands raw)))
      else if k = ''evidence'' then
        (if kind \<noteq> Kind_evidence then Inl ArtifactError
         else (case check_keys raw [''kind'', ''evidence''] [] of Inl e \<Rightarrow> Inl e | Inr _ \<Rightarrow>
           map_sum id (\<lambda>ec. ([], Some ec)) (parse_evidence (the (dict_get raw ''evidence'')))))
      else Inl ArtifactError))"

definition kind_of :: "string \<Rightarrow> failure + scenario_kind" where
  "kind_of s = (if s = ''code'' then Inr Kind_code else if s = ''evidence'' then Inr Kind_evidence else Inl ArtifactError)"

definition module_name_ok :: "string \<Rightarrow> bool" where
  "module_name_ok s \<longleftrightarrow> (let r = filter (\<lambda>c. c \<noteq> CHR ''_'' \<and> c \<noteq> CHR ''.'') s in r \<noteq> [] \<and> list_all is_alnum r)"

definition parse_manifest :: "payload \<Rightarrow> string \<Rightarrow> failure + manifest" where
  "parse_manifest d expected =
     (case check_keys d [''schema_version'', ''id'', ''title'', ''kind'', ''lab'', ''summary'', ''fallback'', ''acceptance_doc'',
        ''stage'', ''acceptance''] [''required_artifacts'', ''required_imports'', ''briefing''] of Inl e \<Rightarrow> Inl e | Inr _ \<Rightarrow>
     (case as_int d ''schema_version'' 0 1 1 of Inl e \<Rightarrow> Inl e | Inr version \<Rightarrow>
      if version \<noteq> 1 then Inl ArtifactError else
     (case as_str d ''id'' of Inl e \<Rightarrow> Inl e | Inr i \<Rightarrow>
      if i \<noteq> expected then Inl ArtifactError else
     (case (case as_str d ''kind'' of Inl e \<Rightarrow> Inl e | Inr s \<Rightarrow> kind_of s) of Inl e \<Rightarrow> Inl e | Inr kind \<Rightarrow>
     (case path_key d ''fallback'' of Inl e \<Rightarrow> Inl e | Inr fb \<Rightarrow>
      if fb \<noteq> fallback_root @ pure_path i then Inl ArtifactError else
     (case path_key d ''acceptance_doc'' of Inl e \<Rightarrow> Inl e | Inr doc \<Rightarrow>
     (case (case as_str_list d ''required_artifacts'' [] of Inl e \<Rightarrow> Inl e | Inr ss \<Rightarrow> map_checked check_relpath ss) of
        Inl e \<Rightarrow> Inl e | Inr arts \<Rightarrow>
     (case as_str_list d ''required_imports'' [] of Inl e \<Rightarrow> Inl e | Inr mods \<Rightarrow>
      if \<not> list_all module_name_ok mods then Inl ArtifactError else
     (case parse_stage i d of Inl e \<Rightarrow> Inl e | Inr items \<Rightarrow>
     (case parse_acceptance (the (dict_get d ''acceptance'')) kind of Inl e \<Rightarrow> Inl e | Inr (cs, ev) \<Rightarrow>
     (case as_str d ''title'' of Inl e \<Rightarrow> Inl e | Inr ti \<Rightarrow>
     (case as_str d ''lab'' of Inl e \<Rightarrow> Inl e | Inr lab \<Rightarrow>
     (case as_str d ''summary'' of Inl e \<Rightarrow> Inl e | Inr sm \<Rightarrow>
      map_sum id (\<lambda>br. \<lparr>mf_id = i, mf_title = ti, mf_kind = kind, mf_lab = lab, mf_summary = sm,
          mf_directory = scenario_root @ pure_path i, mf_fallback = fb, mf_artifacts = arts, mf_imports = mods, mf_stage = items,
          mf_commands = cs, mf_evidence = ev, mf_doc = doc, mf_briefing = br\<rparr>)
        (as_str_list d ''briefing'' []))))))))))))))"

end
