(* ===== verification/Journal.thy ===== *)
theory Journal
  imports Manifests
begin

text \<open>
  The state the runner keeps between commands, \<^verbatim>\<open>scripts/workshop.py\<close>: its records, their JSON form and the
  strict reading of it, and the file it lives in.
\<close>

section \<open>The machine\<close>

text \<open>
  What other code provides: SHA-256, JSON text (of an object as a file, with its final newline, and of a line of an
  inventory) and its reading from bytes, the decoding of UTF-8, ISO time stamps, the text of the root, the mode of new directories, and which modules
  can be imported. An object is dumped in the order of its keys; where the code sorts them, they are given sorted.
\<close>

record machine =
  mc_sha :: "string \<Rightarrow> string"
  mc_dump :: "pyval \<Rightarrow> string"
  mc_line :: "pyval \<Rightarrow> string"
  mc_load :: "string \<Rightarrow> pyval option"
  mc_utf8 :: "string \<Rightarrow> string option"
  mc_aware :: "string \<Rightarrow> bool option"
  mc_root :: string
  mc_dir_mode :: nat
  mc_module :: "string \<Rightarrow> bool"

section \<open>Records\<close>

record target_record =
  tg_path :: string
  tg_existed :: bool
  tg_pre_sha :: "string option"
  tg_pre_mode :: "string option"
  tg_backup :: "string option"
  tg_sha :: "string option"
  tg_mode :: "string option"

datatype phase = Staging | Active

text \<open>Of the repository's identity only the commit and the branch are ever kept.\<close>

record git_identity =
  gi_branch :: "string option"
  gi_commit :: "string option"

record scenario_state =
  ss_id :: string
  ss_phase :: phase
  ss_started :: string
  ss_root :: string
  ss_git :: "git_identity option"
  ss_catalogue :: string
  ss_manifest :: string
  ss_targets :: "target_record list"
  ss_created :: "string list"
  ss_existed :: "bool option"
  ss_moved :: "bool option"
  ss_pre_sha :: "string option"
  ss_version :: int

definition target_to_json :: "target_record \<Rightarrow> payload" where
  "target_to_json g =
     [(''backup'', opt_str (tg_backup g)), (''existed_before'', VBool (tg_existed g)), (''path'', VStr (tg_path g)),
      (''pre_mode'', opt_str (tg_pre_mode g)), (''pre_sha256'', opt_str (tg_pre_sha g)),
      (''staged_mode'', opt_str (tg_mode g)), (''staged_sha256'', opt_str (tg_sha g))]"

fun opt_check :: "(string \<Rightarrow> failure + string) \<Rightarrow> string option \<Rightarrow> failure + unit" where
  "opt_check f None = Inr ()"
| "opt_check f (Some s) = map_sum id (\<lambda>_. ()) (f s)"

definition confined :: "path \<Rightarrow> bool \<Rightarrow> string \<Rightarrow> failure + string" where
  "confined parent itself s = map_sum id (\<lambda>_. s) (check_confined s parent itself)"

text \<open>Checks one after the other; the first error is raised.\<close>

fun all_checks :: "(failure + unit) list \<Rightarrow> failure + unit" where
  "all_checks [] = Inr ()"
| "all_checks (c # cs) = (case c of Inl e \<Rightarrow> Inl e | Inr u \<Rightarrow> all_checks cs)"

definition target_from_json :: "pyval \<Rightarrow> string \<Rightarrow> failure + target_record" where
  "target_from_json v i = (case as_object v of Inl e \<Rightarrow> Inl e | Inr raw \<Rightarrow>
     (case check_keys raw [''path'', ''existed_before'', ''pre_sha256'', ''pre_mode'', ''backup''] [''staged_sha256'', ''staged_mode''] of
        Inl e \<Rightarrow> Inl e | Inr _ \<Rightarrow>
     (case the (dict_get raw ''existed_before'') of VBool existed \<Rightarrow>
     (case as_str raw ''path'' of Inl e \<Rightarrow> Inl e | Inr p \<Rightarrow>
     (case confined (work_dir_rel i) False p of Inl e \<Rightarrow> Inl e | Inr _ \<Rightarrow>
     (case opt_text raw ''backup'' of Inl e \<Rightarrow> Inl e | Inr backup \<Rightarrow>
     (case opt_check (confined (backup_dir_rel i) False) backup of Inl e \<Rightarrow> Inl e | Inr _ \<Rightarrow>
     (case opt_text raw ''pre_sha256'' of Inl e \<Rightarrow> Inl e | Inr pre_sha \<Rightarrow>
     (case opt_text raw ''pre_mode'' of Inl e \<Rightarrow> Inl e | Inr pre_mode \<Rightarrow>
     (case opt_text raw ''staged_sha256'' of Inl e \<Rightarrow> Inl e | Inr sha \<Rightarrow>
     (case opt_text raw ''staged_mode'' of Inl e \<Rightarrow> Inl e | Inr mode' \<Rightarrow>
      map_sum id (\<lambda>_. \<lparr>tg_path = p, tg_existed = existed, tg_pre_sha = pre_sha, tg_pre_mode = pre_mode, tg_backup = backup,
          tg_sha = sha, tg_mode = mode'\<rparr>)
        (all_checks
          [opt_check check_sha256 pre_sha, opt_check check_sha256 sha, opt_check check_mode_string pre_mode,
           opt_check check_mode_string mode',
           require (existed \<longrightarrow> backup \<noteq> None \<and> pre_sha \<noteq> None \<and> pre_mode \<noteq> None) ArtifactError,
           require (\<not> existed \<longrightarrow> backup = None \<and> pre_sha = None \<and> pre_mode = None) ArtifactError])))))))))
      | _ \<Rightarrow> Inl ArtifactError)))"

fun phase_text :: "phase \<Rightarrow> string" where
  "phase_text Staging = ''staging''"
| "phase_text Active = ''active''"

definition phase_of :: "string \<Rightarrow> failure + phase" where
  "phase_of s = (if s = ''staging'' then Inr Staging else if s = ''active'' then Inr Active else Inl ArtifactError)"

definition git_to_json :: "git_identity option \<Rightarrow> pyval" where
  "git_to_json g = (case g of None \<Rightarrow> VNone | Some g \<Rightarrow> VDict
     ((case gi_branch g of None \<Rightarrow> [] | Some s \<Rightarrow> [(''branch'', VStr s)]) @
      (case gi_commit g of None \<Rightarrow> [] | Some s \<Rightarrow> [(''commit'', VStr s)])))"

definition git_value :: "payload \<Rightarrow> string \<Rightarrow> string option" where
  "git_value d k = (case dict_get d k of Some (VStr s) \<Rightarrow> Some (take 128 s) | _ \<Rightarrow> None)"

definition git_from_json :: "pyval \<Rightarrow> failure + git_identity option" where
  "git_from_json v = (case v of
      VNone \<Rightarrow> Inr None
    | VDict d \<Rightarrow> Inr (Some \<lparr>gi_branch = git_value d ''branch'', gi_commit = git_value d ''commit''\<rparr>)
    | _ \<Rightarrow> Inl ArtifactError)"

definition tool_version :: string where "tool_version = ''1.3.0''"

definition state_to_json :: "scenario_state \<Rightarrow> failure + payload" where
  "state_to_json s = (case (ss_existed s, ss_moved s) of
      (Some existed, Some moved') \<Rightarrow> Inr
       [(''catalogue_sha256'', VStr (ss_catalogue s)), (''created_dirs'', VList (map VStr (ss_created s))),
        (''git'', git_to_json (ss_git s)), (''manifest_sha256'', VStr (ss_manifest s)), (''phase'', VStr (phase_text (ss_phase s))),
        (''pre_start_work_sha256'', opt_str (ss_pre_sha s)), (''repo_root'', VStr (ss_root s)), (''scenario_id'', VStr (ss_id s)),
        (''schema_version'', VInt 2), (''started_at'', VStr (ss_started s)),
        (''targets'', VList (map (\<lambda>g. VDict (target_to_json g)) (ss_targets s))), (''tool_version'', VStr tool_version),
        (''work_dir_existed_before'', VBool existed), (''work_dir_moved'', VBool moved')]
    | _ \<Rightarrow> Inl ArtifactError)"

definition text_of :: "pyval \<Rightarrow> failure + string" where
  "text_of v = (case v of VStr s \<Rightarrow> Inr s | _ \<Rightarrow> Inl ArtifactError)"

definition list_of :: "pyval \<Rightarrow> failure + pyval list" where
  "list_of v = (case v of VList vs \<Rightarrow> Inr vs | _ \<Rightarrow> Inl ArtifactError)"

definition common_keys :: "string list" where
  "common_keys = [''schema_version'', ''tool_version'', ''scenario_id'', ''phase'', ''started_at'', ''repo_root'', ''git'',
     ''catalogue_sha256'', ''manifest_sha256'', ''targets'', ''created_dirs'']"

definition version_keys :: "int \<Rightarrow> string list" where
  "version_keys n = (if n = 2 then [''work_dir_existed_before'', ''work_dir_moved'', ''pre_start_work_sha256''] else [])"

text \<open>The fields of the second version; \<open>phase\<close> decides what an active state must have recorded.\<close>

definition work_fields :: "payload \<Rightarrow> int \<Rightarrow> phase \<Rightarrow> failure + bool option \<times> bool option \<times> string option" where
  "work_fields raw version ph =
     (if version \<noteq> 2 then Inr (None, None, None)
      else (case (the (dict_get raw ''work_dir_existed_before''), the (dict_get raw ''work_dir_moved'')) of
         (VBool existed, VBool moved') \<Rightarrow>
           if moved' \<and> \<not> existed then Inl ArtifactError
           else (case opt_text raw ''pre_start_work_sha256'' of Inl e \<Rightarrow> Inl e | Inr sha \<Rightarrow>
             map_sum id (\<lambda>_. (Some existed, Some moved', sha))
               (all_checks [opt_check check_sha256 sha, require (existed \<or> sha = None) ArtifactError,
                  require (\<not> (ph = Active \<and> existed \<and> (\<not> moved' \<or> sha = None))) ArtifactError]))
       | _ \<Rightarrow> Inl ArtifactError))"

definition hash_key :: "payload \<Rightarrow> string \<Rightarrow> failure + string" where
  "hash_key raw k = (case as_str raw k of Inl e \<Rightarrow> Inl e | Inr s \<Rightarrow> check_sha256 s)"

definition state_from_json :: "machine \<Rightarrow> payload \<Rightarrow> failure + scenario_state" where
  "state_from_json mc raw =
     (case as_int raw ''schema_version'' 0 1 2 of Inl e \<Rightarrow> Inl e | Inr version \<Rightarrow>
     (case check_keys raw (common_keys @ version_keys version) [] of Inl e \<Rightarrow> Inl e | Inr _ \<Rightarrow>
     (case as_str raw ''tool_version'' of Inl e \<Rightarrow> Inl e | Inr _ \<Rightarrow>
     (case (case as_str raw ''scenario_id'' of Inl e \<Rightarrow> Inl e | Inr s \<Rightarrow> check_scenario_id s) of Inl e \<Rightarrow> Inl e | Inr i \<Rightarrow>
     (case (case as_str raw ''phase'' of Inl e \<Rightarrow> Inl e | Inr s \<Rightarrow> phase_of s) of Inl e \<Rightarrow> Inl e | Inr ph \<Rightarrow>
     (case git_from_json (the (dict_get raw ''git'')) of Inl e \<Rightarrow> Inl e | Inr git \<Rightarrow>
     (case list_of (the (dict_get raw ''targets'')) of Inl e \<Rightarrow> Inl e | Inr raws \<Rightarrow>
     (case (case list_of (the (dict_get raw ''created_dirs'')) of Inl e \<Rightarrow> Inl e | Inr vs \<Rightarrow> map_checked text_of vs) of
        Inl e \<Rightarrow> Inl e | Inr dirs \<Rightarrow>
     (case map_checked (confined (work_dir_rel i) True) dirs of Inl e \<Rightarrow> Inl e | Inr _ \<Rightarrow>
      if \<not> distinct dirs then Inl ArtifactError else
     (case map_checked (\<lambda>v. target_from_json v i) raws of Inl e \<Rightarrow> Inl e | Inr gs \<Rightarrow>
      if \<not> distinct (map tg_path gs) \<or> \<not> distinct (filter (\<lambda>b. b \<noteq> None) (map tg_backup gs)) then Inl ArtifactError else
     (case work_fields raw version ph of Inl e \<Rightarrow> Inl e | Inr (existed, moved', pre) \<Rightarrow>
     (case (case as_str raw ''started_at'' of Inl e \<Rightarrow> Inl e | Inr s \<Rightarrow> check_utc_timestamp (mc_aware mc) s) of
        Inl e \<Rightarrow> Inl e | Inr started \<Rightarrow>
     (case as_str raw ''repo_root'' of Inl e \<Rightarrow> Inl e | Inr root' \<Rightarrow>
     (case hash_key raw ''catalogue_sha256'' of Inl e \<Rightarrow> Inl e | Inr ch \<Rightarrow>
      map_sum id (\<lambda>mh. \<lparr>ss_id = i, ss_phase = ph, ss_started = started, ss_root = root', ss_git = git, ss_catalogue = ch,
          ss_manifest = mh, ss_targets = gs, ss_created = dirs, ss_existed = existed, ss_moved = moved', ss_pre_sha = pre,
          ss_version = version\<rparr>)
        (hash_key raw ''manifest_sha256'')))))))))))))))"

section \<open>The file\<close>

definition state_file_rel :: path where "state_file_rel = state_dir_rel @ [''state.json'']"
definition max_state_bytes :: nat where "max_state_bytes = 262144"
definition max_manifest_bytes :: nat where "max_manifest_bytes = 131072"

definition read_json :: "machine \<Rightarrow> path \<Rightarrow> nat \<Rightarrow> payload program" where
  "read_json mc p limit w =
     (if \<not> is_regular (wd_tree w) p then (Inl ArtifactError, w)
      else chain (read_file p) (\<lambda>d.
        if length d > limit then fail_with ArtifactError
        else (case mc_load mc d of Some (VDict e) \<Rightarrow> give e | _ \<Rightarrow> fail_with ArtifactError)) w)"

definition load_state :: "machine \<Rightarrow> scenario_state option program" where
  "load_state mc =
     chain (resolve_under_root state_file_rel) (\<lambda>p.
     chain (translating ArtifactError (stat_entry p)) (\<lambda>n. case n of
        None \<Rightarrow> give None
      | Some (Regular _ _) \<Rightarrow>
          chain (read_json mc p max_state_bytes) (\<lambda>raw.
          chain (checked (state_from_json mc raw)) (\<lambda>s.
          if ss_root s \<noteq> mc_root mc then fail_with ArtifactError else give (Some s)))
      | _ \<Rightarrow> fail_with ArtifactError))"

definition save_state :: "machine \<Rightarrow> scenario_state \<Rightarrow> unit program" where
  "save_state mc s =
     chain (checked (state_to_json s)) (\<lambda>d.
     chain (resolve_under_root state_file_rel) (\<lambda>p.
     atomic_write (mc_dir_mode mc) p (mc_dump mc (VDict d)) 384))"

text \<open>\<^verbatim>\<open>unlink(missing_ok=True)\<close>.\<close>

definition unlink_present :: "path \<Rightarrow> unit program" where
  "unlink_present p = changes (\<lambda>t. if present t p then unlink p t else Some t)"

definition clear_state :: "unit program" where
  "clear_state = chain (resolve_under_root state_file_rel) (\<lambda>p. translating WorkshopError (unlink_present p))"

end
