(* ===== verification/Staging.thy ===== *)
theory Staging
  imports Journal
begin

text \<open>
  Staging a scenario and restoring what was there before, \<^verbatim>\<open>scripts/workshop.py\<close>: the work directory of a scenario is
  moved away as a whole, fresh files are staged in its place, and restoring moves it back.
\<close>

section \<open>Hashes\<close>

definition max_archive_files :: nat where "max_archive_files = 200"
definition max_archive_file_bytes :: nat where "max_archive_file_bytes = 2097152"
definition max_archive_total_bytes :: nat where "max_archive_total_bytes = 20971520"

definition sha256_file :: "machine \<Rightarrow> path \<Rightarrow> string program" where
  "sha256_file mc p = translating WorkshopError (chain (read_file p) (\<lambda>d. give (mc_sha mc d)))"

definition read_bytes_checked :: "path \<Rightarrow> string program" where
  "read_bytes_checked p = translating WorkshopError (read_file p)"

text \<open>The record of one entry of a tree, with the bytes counted so far.\<close>

definition tree_record :: "machine \<Rightarrow> path \<Rightarrow> path \<Rightarrow> nat \<Rightarrow> (pyval \<times> nat) program" where
  "tree_record mc base p sofar =
     (let relative = (if p = base then ''.'' else posix (drop (length base) p)) in
      chain (translating WorkshopError (stat_entry p)) (\<lambda>n. case n of
        None \<Rightarrow> fail_with WorkshopError
      | Some (Link q) \<Rightarrow> chain (translating WorkshopError (stat_entry p)) (\<lambda>_.
          give (VDict [(''kind'', VStr ''symlink''), (''mode'', VStr (octal_text 511)), (''path'', VStr relative), (''target'', VStr q)], sofar))
      | Some (Directory m) \<Rightarrow>
          give (VDict [(''kind'', VStr ''directory''), (''mode'', VStr (octal_text m)), (''path'', VStr relative)], sofar)
      | Some (Regular d m) \<Rightarrow>
          if length d > max_archive_file_bytes \<or> sofar + length d > max_archive_total_bytes then fail_with WorkshopError
          else chain (sha256_file mc p) (\<lambda>h. give (VDict [(''kind'', VStr ''file''), (''mode'', VStr (octal_text m)),
            (''path'', VStr relative), (''sha256'', VStr h), (''size'', VInt (int (length d)))], sofar + length d))
      | Some Device \<Rightarrow> fail_with WorkshopError))"

fun tree_records :: "machine \<Rightarrow> path \<Rightarrow> path list \<Rightarrow> nat \<Rightarrow> pyval list program" where
  "tree_records mc base [] sofar = give []"
| "tree_records mc base (p # ps) sofar = chain (tree_record mc base p sofar) (\<lambda>(r, sofar').
     chain (tree_records mc base ps sofar') (\<lambda>rs. give (r # rs)))"

definition newline :: char where "newline = CHR 0x0A"

definition work_tree_sha256 :: "machine \<Rightarrow> path \<Rightarrow> string program" where
  "work_tree_sha256 mc p =
     chain (asks (\<lambda>t. is_directory t p)) (\<lambda>ok. if \<not> ok then fail_with WorkshopError else
     chain (translating WorkshopError (observes (\<lambda>t. Some (sort_key posix (below t p))))) (\<lambda>ps.
     if length ps > max_archive_files then fail_with WorkshopError
     else chain (tree_records mc p (p # ps) 0) (\<lambda>rs. give (mc_sha mc (concat (map (\<lambda>r. mc_line mc r @ [newline]) rs))))))"

section \<open>Where things are\<close>

definition target_path_of :: "target_record \<Rightarrow> string \<Rightarrow> path program" where
  "target_path_of g i = chain (checked (check_confined (tg_path g) (work_dir_rel i) False)) resolve_under_root"

definition backup_path_of :: "target_record \<Rightarrow> string \<Rightarrow> path program" where
  "backup_path_of g i = (case tg_backup g of
      None \<Rightarrow> fail_with WorkshopError
    | Some b \<Rightarrow> chain (checked (check_confined b (backup_dir_rel i) False)) resolve_under_root)"

definition created_dir_path_of :: "string \<Rightarrow> string \<Rightarrow> path program" where
  "created_dir_path_of rel i = chain (checked (check_confined rel (work_dir_rel i) True)) resolve_under_root"

definition work_dir_path_of :: "string \<Rightarrow> path program" where
  "work_dir_path_of i = chain (resolve_under_root (butlast (work_dir_rel i))) (\<lambda>_. give (work_dir_rel i))"

definition pre_start_work_path_of :: "string \<Rightarrow> path program" where
  "pre_start_work_path_of i = resolve_under_root (pre_start_work_dir_rel i)"

definition inspect_work_directory :: "string \<Rightarrow> bool program" where
  "inspect_work_directory i =
     chain (work_dir_path_of i) (\<lambda>work.
     chain (asks (\<lambda>t. present t work \<and> \<not> is_directory t work)) (\<lambda>odd. if odd then fail_with WorkshopError else
     chain (pre_start_work_path_of i) (\<lambda>backup.
     chain (asks (\<lambda>t. present t backup)) (\<lambda>stale. if stale then fail_with WorkshopError else
     asks (\<lambda>t. is_directory t work)))))"

definition plan_targets :: "manifest \<Rightarrow> target_record list \<times> string list" where
  "plan_targets m =
     (map (\<lambda>item. \<lparr>tg_path = posix (si_target item), tg_existed = False, tg_pre_sha = None, tg_pre_mode = None,
        tg_backup = None, tg_sha = None, tg_mode = None\<rparr>) (mf_stage m),
      [posix (work_dir_rel (mf_id m))])"

section \<open>Restoring\<close>

text \<open>Whether there was an entry.\<close>

definition remove_work_entry :: "path \<Rightarrow> bool program" where
  "remove_work_entry p = chain (translating WorkshopError (stat_entry p)) (\<lambda>n. case n of
      None \<Rightarrow> give False
    | Some (Directory _) \<Rightarrow> chain (translating WorkshopError (remove_tree p)) (\<lambda>_. give True)
    | Some _ \<Rightarrow> chain (translating WorkshopError (changes (unlink p))) (\<lambda>_. give True))"

definition discard_backups :: "string \<Rightarrow> unit program" where
  "discard_backups i =
     chain (resolve_under_root (backup_dir_rel i)) (\<lambda>p.
     chain (asks (\<lambda>t. is_directory t p)) (\<lambda>ok.
     if ok then translating WorkshopError (remove_tree p) else give ()))"

definition restore_work_directory :: "machine \<Rightarrow> scenario_state \<Rightarrow> unit program" where
  "restore_work_directory mc s =
     chain (work_dir_path_of (ss_id s)) (\<lambda>work.
     chain (pre_start_work_path_of (ss_id s)) (\<lambda>backup.
     chain (if ss_existed s = Some True then
         chain (asks (\<lambda>t. is_directory t backup)) (\<lambda>there.
         if there then
           chain (case ss_pre_sha s of
               None \<Rightarrow> give ()
             | Some sha \<Rightarrow> chain (work_tree_sha256 mc backup) (\<lambda>h. unless (h = sha) WorkshopError)) (\<lambda>_.
           chain (remove_work_entry work) (\<lambda>_. translating WorkshopError (changes (rename_entry backup work))))
         else if ss_phase s = Staging \<and> ss_moved s = Some False then
           chain (asks (\<lambda>t. is_directory t work)) (\<lambda>kept. unless kept WorkshopError)
         else fail_with WorkshopError)
       else chain (remove_work_entry work) (\<lambda>_. give ()))
     (\<lambda>_. discard_backups (ss_id s))))"

definition restore_existing :: "machine \<Rightarrow> scenario_state \<Rightarrow> target_record \<Rightarrow> path \<Rightarrow> unit program" where
  "restore_existing mc s g p = (case (tg_pre_sha g, tg_pre_mode g) of
      (Some sha, Some pm) \<Rightarrow>
        chain (backup_path_of g (ss_id s)) (\<lambda>b.
        chain (asks (\<lambda>t. (is_regular t b, is_regular t p))) (\<lambda>(kept, there).
        chain (if kept then chain (read_bytes_checked b) (\<lambda>d. if mc_sha mc d \<noteq> sha then fail_with WorkshopError else give d)
          else if there then chain (sha256_file mc p) (\<lambda>h. if h = sha then read_bytes_checked p else fail_with WorkshopError)
          else fail_with WorkshopError) (\<lambda>d.
        chain (atomic_write (mc_dir_mode mc) p d (the (octal pm))) (\<lambda>_.
        chain (sha256_file mc p) (\<lambda>h. unless (h = sha) WorkshopError)))))
    | _ \<Rightarrow> fail_with WorkshopError)"

definition restore_target :: "machine \<Rightarrow> scenario_state \<Rightarrow> target_record \<Rightarrow> unit program" where
  "restore_target mc s g =
     chain (target_path_of g (ss_id s)) (\<lambda>p.
     chain (asks (\<lambda>t. (is_directory t p, present t p))) (\<lambda>(dir, there).
     if dir then fail_with WorkshopError
     else if tg_existed g then restore_existing mc s g p
     else if there then translating WorkshopError (changes (unlink p)) else give ()))"

definition remove_created_dir :: "string \<Rightarrow> string \<Rightarrow> unit program" where
  "remove_created_dir i rel =
     chain (created_dir_path_of rel i) (\<lambda>p.
     chain (asks (\<lambda>t. is_directory t p)) (\<lambda>there.
     if there then translating WorkshopError (remove_tree p) else give ()))"

definition remove_created_dirs :: "scenario_state \<Rightarrow> unit program" where
  "remove_created_dirs s = each (remove_created_dir (ss_id s)) (sort_key (\<lambda>d. - int (length d)) (ss_created s))"

definition restore_targets :: "machine \<Rightarrow> scenario_state \<Rightarrow> unit program" where
  "restore_targets mc s =
     chain (each (restore_target mc s) (ss_targets s)) (\<lambda>_.
     chain (remove_created_dirs s) (\<lambda>_. discard_backups (ss_id s)))"

definition restore_scenario :: "machine \<Rightarrow> scenario_state \<Rightarrow> unit program" where
  "restore_scenario mc s = (if ss_version s < 2 then restore_targets mc s else restore_work_directory mc s)"

definition rollback :: "machine \<Rightarrow> scenario_state \<Rightarrow> unit program" where
  "rollback mc s = chain (restore_scenario mc s) (\<lambda>_. clear_state)"

section \<open>Staging\<close>

text \<open>
  The \<^verbatim>\<open>try\<close> block around staging: what is raised leads to a rollback with the state in memory and then to a
  \<^verbatim>\<open>WorkshopError\<close>. The state changes between the steps, so the block is distributed over them.
\<close>

definition attempt :: "machine \<Rightarrow> scenario_state \<Rightarrow> 'a program \<Rightarrow> 'a program" where
  "attempt mc s m = handling raised m (\<lambda>_.
     chain (handling runner_error (rollback mc s) (\<lambda>_. fail_with WorkshopError)) (\<lambda>_. fail_with WorkshopError))"

definition move_work_away :: "machine \<Rightarrow> string \<Rightarrow> path program" where
  "move_work_away mc i =
     chain (work_dir_path_of i) (\<lambda>work.
     chain (pre_start_work_path_of i) (\<lambda>backup.
     chain (translating WorkshopError (chain (make_directories (mc_dir_mode mc) (butlast backup)) (\<lambda>_.
       changes (rename_entry work backup)))) (\<lambda>_. give backup)))"

definition preserve_work :: "machine \<Rightarrow> scenario_state \<Rightarrow> scenario_state program" where
  "preserve_work mc s =
     (if ss_existed s \<noteq> Some True then give s
      else chain (attempt mc s (move_work_away mc (ss_id s))) (\<lambda>backup.
        chain (attempt mc s (work_tree_sha256 mc backup)) (\<lambda>h.
        let s' = s\<lparr>ss_pre_sha := Some h, ss_moved := Some True\<rparr> in
        chain (attempt mc s' (save_state mc s')) (\<lambda>_. give s'))))"

definition apply_payload :: "machine \<Rightarrow> string \<Rightarrow> stage_item \<Rightarrow> target_record \<Rightarrow> target_record program" where
  "apply_payload mc i item g =
     chain (target_path_of g i) (\<lambda>p.
     chain (resolve_under_root (si_payload item)) (\<lambda>q.
     chain (read_bytes_checked q) (\<lambda>d.
     chain (atomic_write (mc_dir_mode mc) p d (si_mode item)) (\<lambda>_.
     give (g\<lparr>tg_sha := Some (mc_sha mc d), tg_mode := Some (octal_text (si_mode item))\<rparr>)))))"

fun apply_payloads :: "machine \<Rightarrow> string \<Rightarrow> (stage_item \<times> target_record) list \<Rightarrow> target_record list program" where
  "apply_payloads mc i [] = give []"
| "apply_payloads mc i ((item, g) # xs) =
     chain (apply_payload mc i item g) (\<lambda>g'. chain (apply_payloads mc i xs) (\<lambda>gs. give (g' # gs)))"

text \<open>From the first durable state to the last one.\<close>

definition stage :: "machine \<Rightarrow> manifest \<Rightarrow> bool \<Rightarrow> scenario_state \<Rightarrow> unit program" where
  "stage mc m activate s =
     chain (save_state mc s) (\<lambda>_.
     chain (preserve_work mc s) (\<lambda>s1.
     chain (attempt mc s1 (apply_payloads mc (ss_id s) (zip (mf_stage m) (ss_targets s1)))) (\<lambda>gs.
     let s2 = s1\<lparr>ss_targets := gs, ss_phase := (if activate then Active else ss_phase s1)\<rparr> in
     attempt mc s2 (save_state mc s2))))"

end
