(* ===== verification/Archives.thy ===== *)
theory Archives
  imports Staging
begin

text \<open>
  Attempts, \<^verbatim>\<open>scripts/workshop.py\<close>: what the participant changed, the bounded inventory of the work directory, the archive
  that a reset leaves, and the strict reading of an archive. The text of a blocker or warning is not modelled.
\<close>

section \<open>What was changed\<close>

datatype target_status = Unchanged | Modified | Mode_changed | Missing | Unknown | Replaced_by_directory | Replaced_by_link | Unsafe

definition target_status :: "machine \<Rightarrow> string \<Rightarrow> target_record \<Rightarrow> target_status program" where
  "target_status mc i g =
     chain (handling (\<lambda>e. e = ArtifactError) (chain (target_path_of g i) (\<lambda>p. give (Some p))) (\<lambda>_. give None)) (\<lambda>r. case r of
       None \<Rightarrow> asks (\<lambda>t. if is_link t (pure_path (tg_path g)) then Replaced_by_link else Unsafe)
     | Some p \<Rightarrow>
         chain (asks (\<lambda>t. (is_directory t p, is_regular t p))) (\<lambda>(dir, file).
         if dir then give Replaced_by_directory
         else if \<not> file then give Missing
         else (case tg_sha g of
             None \<Rightarrow> give Unknown
           | Some sha \<Rightarrow> chain (sha256_file mc p) (\<lambda>h.
               if h \<noteq> sha then give Modified
               else (case tg_mode g of
                   None \<Rightarrow> give Unchanged
                 | Some m \<Rightarrow> chain (translating WorkshopError (stat_entry p)) (\<lambda>n. case n of
                     None \<Rightarrow> fail_with WorkshopError
                   | Some x \<Rightarrow> give (if octal_text (node_mode x mod 512) \<noteq> m then Mode_changed else Unchanged)))))))"

fun statuses :: "machine \<Rightarrow> string \<Rightarrow> target_record list \<Rightarrow> (string \<times> target_status) list program" where
  "statuses mc i [] = give []"
| "statuses mc i (g # gs) = chain (target_status mc i g) (\<lambda>x. chain (statuses mc i gs) (\<lambda>xs. give ((tg_path g, x) # xs)))"

fun any_changed :: "machine \<Rightarrow> string \<Rightarrow> target_record list \<Rightarrow> bool program" where
  "any_changed mc i [] = give False"
| "any_changed mc i (g # gs) = chain (target_status mc i g) (\<lambda>x. if x \<noteq> Unchanged then give True else any_changed mc i gs)"

fun still_files :: "string \<Rightarrow> target_record list \<Rightarrow> path list program" where
  "still_files i [] = give []"
| "still_files i (g # gs) =
     chain (target_path_of g i) (\<lambda>p.
     chain (asks (\<lambda>t. is_regular t p)) (\<lambda>file.
     chain (still_files i gs) (\<lambda>ps. give ((if file then [pure_path (tg_path g)] else []) @ ps))))"

definition collect_attempt_files :: "machine \<Rightarrow> scenario_state \<Rightarrow> path list program" where
  "collect_attempt_files mc s =
     chain (statuses mc (ss_id s) (ss_targets s)) (\<lambda>known.
     chain (work_dir_path_of (ss_id s)) (\<lambda>work.
     chain (asks (\<lambda>t. is_directory t work)) (\<lambda>there.
     chain (if there then handling os_fault (observes (\<lambda>t. Some (sort (filter (is_regular t) (below t work))))) (\<lambda>_. give [])
       else give []) (\<lambda>files.
     let selected = filter (\<lambda>p. dict_get known (posix p) \<noteq> Some Unchanged) files in
     chain (still_files (ss_id s) (filter (\<lambda>g. dict_get known (tg_path g) \<in> {Some Modified, Some Mode_changed} \<and>
         tg_path g \<notin> set (map posix selected)) (ss_targets s))) (\<lambda>more.
     give (sort_key posix (selected @ more)))))))"

section \<open>Inventories\<close>

record work_entry =
  we_path :: string
  we_file :: bool
  we_mode :: string
  we_size :: int
  we_sha :: "string option"

definition entry_kind :: "work_entry \<Rightarrow> string" where
  "entry_kind x = (if we_file x then ''file'' else ''directory'')"

definition entry_to_json :: "work_entry \<Rightarrow> payload" where
  "entry_to_json x = [(''path'', VStr (we_path x)), (''kind'', VStr (entry_kind x)), (''mode'', VStr (we_mode x)),
     (''size'', VInt (we_size x)), (''sha256'', opt_str (we_sha x))]"

definition entry_from_json :: "string \<Rightarrow> payload \<Rightarrow> failure + work_entry" where
  "entry_from_json i raw =
     (case check_keys raw [''path'', ''kind'', ''mode'', ''size'', ''sha256''] [] of Inl e \<Rightarrow> Inl e | Inr _ \<Rightarrow>
     (case as_str raw ''path'' of Inl e \<Rightarrow> Inl e | Inr p \<Rightarrow>
     (case check_confined p (work_dir_rel i) True of Inl e \<Rightarrow> Inl e | Inr _ \<Rightarrow>
     (case as_str raw ''kind'' of Inl e \<Rightarrow> Inl e | Inr k \<Rightarrow>
      if k \<noteq> ''file'' \<and> k \<noteq> ''directory'' then Inl ArtifactError else
     (case (case as_str raw ''mode'' of Inl e \<Rightarrow> Inl e | Inr m \<Rightarrow> check_mode_string m) of Inl e \<Rightarrow> Inl e | Inr m \<Rightarrow>
     (case as_int raw ''size'' 0 0 (int max_archive_file_bytes) of Inl e \<Rightarrow> Inl e | Inr size' \<Rightarrow>
     (case opt_text raw ''sha256'' of Inl e \<Rightarrow> Inl e | Inr sha \<Rightarrow>
      map_sum id (\<lambda>_. \<lparr>we_path = p, we_file = (k = ''file''), we_mode = m, we_size = size', we_sha = sha\<rparr>)
        (if k = ''file'' then (case sha of None \<Rightarrow> Inl ArtifactError | Some h \<Rightarrow> map_sum id (\<lambda>_. ()) (check_sha256 h))
         else require (size' = 0 \<and> sha = None) ArtifactError))))))))"

definition capture_entry :: "machine \<Rightarrow> string \<Rightarrow> path \<Rightarrow> nat \<Rightarrow> (work_entry \<times> nat) program" where
  "capture_entry mc i p sofar =
     chain (checked (check_confined (posix p) (work_dir_rel i) True)) (\<lambda>_.
     chain (translating WorkshopError (stat_entry p)) (\<lambda>n. case n of
       None \<Rightarrow> fail_with WorkshopError
     | Some x \<Rightarrow>
         chain (checked (check_mode_string (octal_text (node_mode x)))) (\<lambda>m. case x of
           Directory _ \<Rightarrow> give (\<lparr>we_path = posix p, we_file = False, we_mode = m, we_size = 0, we_sha = None\<rparr>, sofar)
         | Regular d _ \<Rightarrow>
             chain (resolve_under_root p) (\<lambda>_.
             if length d > max_archive_file_bytes \<or> sofar + length d > max_archive_total_bytes then fail_with ArtifactError
             else chain (sha256_file mc p) (\<lambda>h.
               give (\<lparr>we_path = posix p, we_file = True, we_mode = m, we_size = int (length d), we_sha = Some h\<rparr>, sofar + length d)))
         | _ \<Rightarrow> fail_with ArtifactError)))"

fun capture_entries :: "machine \<Rightarrow> string \<Rightarrow> path list \<Rightarrow> nat \<Rightarrow> work_entry list program" where
  "capture_entries mc i [] sofar = give []"
| "capture_entries mc i (p # ps) sofar = chain (capture_entry mc i p sofar) (\<lambda>(x, sofar').
     chain (capture_entries mc i ps sofar') (\<lambda>xs. give (x # xs)))"

text \<open>The code visits the entries in the order of a stack, here they are visited in the order of the result.\<close>

definition capture_work_tree :: "machine \<Rightarrow> string \<Rightarrow> work_entry list program" where
  "capture_work_tree mc i =
     chain (resolve_under_root (work_dir_rel i)) (\<lambda>work.
     chain (asks (\<lambda>t. is_directory t work)) (\<lambda>there. if \<not> there then fail_with ArtifactError else
     chain (translating WorkshopError (observes (\<lambda>t. Some (sort_key posix (work # below t work))))) (\<lambda>ps.
     if length ps > max_archive_files + 1 then fail_with ArtifactError else capture_entries mc i ps 0)))"

definition inventory_sha256 :: "machine \<Rightarrow> work_entry list \<Rightarrow> string" where
  "inventory_sha256 mc xs = mc_sha mc (mc_line mc (VList (map (\<lambda>x. VDict [(''kind'', VStr (entry_kind x)),
     (''mode'', VStr (we_mode x)), (''path'', VStr (we_path x)), (''sha256'', opt_str (we_sha x)), (''size'', VInt (we_size x))]) xs)))"

section \<open>Archives\<close>

record archive =
  ar_path :: path
  ar_whole :: bool

definition record_directory :: "machine \<Rightarrow> scenario_state \<Rightarrow> path program" where
  "record_directory mc s = resolve_under_root (state_dir_rel @ [''evidence''] @ pure_path (ss_id s) @
     [take 24 (mc_sha mc (ss_id s @ [newline] @ ss_started s @ [newline] @ ss_manifest s))])"

definition records_for_archive :: "machine \<Rightarrow> scenario_state \<Rightarrow> path option program" where
  "records_for_archive mc s = handling (\<lambda>e. e = ArtifactError)
     (chain (record_directory mc s) (\<lambda>p. asks (\<lambda>t. if is_directory t p then Some p else None))) (\<lambda>_. give None)"

definition baseline_json :: "target_record list \<Rightarrow> pyval" where
  "baseline_json gs = VList (map (\<lambda>g. VDict [(''path'', VStr (tg_path g)), (''sha256'', opt_str (tg_sha g)),
     (''mode'', opt_str (tg_mode g))]) gs)"

definition blocker_text :: string where "blocker_text = ''work cannot be captured''"
definition interrupted_text :: string where "interrupted_text = ''interrupted before staging completed''"

definition attempt_metadata :: "machine \<Rightarrow> string \<Rightarrow> scenario_state \<Rightarrow> payload program" where
  "attempt_metadata mc now s =
     chain (handling runner_error (chain (capture_work_tree mc (ss_id s)) (\<lambda>xs. give (xs, None))) (\<lambda>_. give ([], Some blocker_text)))
       (\<lambda>(xs, blocker). give
       [(''schema_version'', VInt 1), (''scenario_id'', VStr (ss_id s)), (''started_at'', VStr (ss_started s)), (''archived_at'', VStr now),
        (''manifest_sha256'', VStr (ss_manifest s)), (''catalogue_sha256'', VStr (ss_catalogue s)),
        (''baseline'', baseline_json (ss_targets s)), (''tree'', VList (map (\<lambda>x. VDict (entry_to_json x)) xs)),
        (''resume_blocker'', opt_str (if ss_phase s = Active then blocker else Some interrupted_text))])"

definition attempt_manifest_name :: string where "attempt_manifest_name = ''attempt.json''"

definition finish_attempt_archive :: "machine \<Rightarrow> scenario_state \<Rightarrow> archive \<Rightarrow> payload \<Rightarrow> archive program" where
  "finish_attempt_archive mc s a meta =
     chain (resolve_under_root (ar_path a)) (\<lambda>dir.
     chain (records_for_archive mc s) (\<lambda>records.
     chain (case records of
         None \<Rightarrow> give meta
       | Some r \<Rightarrow> handling os_fault (chain (changes (rename_entry r (dir @ [''verification'']))) (\<lambda>_. give meta))
           (\<lambda>_. give (meta @ [(''verification_warning'', VStr ''records remain'')]))) (\<lambda>meta'.
     handling runner_error
       (chain (atomic_write (mc_dir_mode mc) (dir @ [attempt_manifest_name]) (mc_dump mc (VDict meta')) 384) (\<lambda>_. give a))
       (\<lambda>_. give a))))"

definition two_digits :: "nat \<Rightarrow> string" where
  "two_digits n = [char_of (48 + n div 10 mod 10), char_of (48 + n mod 10)]"

definition archive_names :: "string \<Rightarrow> string \<Rightarrow> path list" where
  "archive_names i stamp = map (\<lambda>n. attempt_dir_rel i @ [stamp @ CHR ''-'' # two_digits n]) [1..<100]"

definition new_archive_dir :: "machine \<Rightarrow> string \<Rightarrow> string \<Rightarrow> path program" where
  "new_archive_dir mc i stamp =
     chain (resolve_under_root (attempt_dir_rel i)) (\<lambda>_.
     chain (asks (\<lambda>t. filter (\<lambda>p. \<not> present t p) (archive_names i stamp))) (\<lambda>free. case free of
       [] \<Rightarrow> fail_with WorkshopError
     | p # _ \<Rightarrow> chain (translating WorkshopError (chain (make_directories (mc_dir_mode mc) (butlast p)) (\<lambda>_.
           changes (make_directory (mc_dir_mode mc) p)))) (\<lambda>_. give p)))"

definition relocate_work_tree :: "machine \<Rightarrow> string \<Rightarrow> scenario_state \<Rightarrow> payload \<Rightarrow> archive option program" where
  "relocate_work_tree mc stamp s meta =
     chain (work_dir_path_of (ss_id s)) (\<lambda>work.
     chain (translating WorkshopError (stat_entry work)) (\<lambda>n.
     if n = None then give None else
     chain (new_archive_dir mc (ss_id s) stamp) (\<lambda>dir.
     chain (translating WorkshopError (chain (make_directories (mc_dir_mode mc) (butlast (dir @ work))) (\<lambda>_.
       changes (rename_entry work (dir @ work))))) (\<lambda>_.
     chain (finish_attempt_archive mc s \<lparr>ar_path = dir, ar_whole = True\<rparr> meta) (\<lambda>a. give (Some a))))))"

definition expected_directories :: "scenario_state \<Rightarrow> path list" where
  "expected_directories s = work_dir_rel (ss_id s) # concat (map (\<lambda>g. filter (prefix (work_dir_rel (ss_id s)))
     (map (\<lambda>n. take n (pure_path (tg_path g))) [0..<length (pure_path (tg_path g))])) (ss_targets s))"

text \<open>Whether a selective archive is not enough; \<open>True\<close> also when the work directory cannot be looked at.\<close>

definition whole_tree_needed :: "scenario_state \<Rightarrow> bool program" where
  "whole_tree_needed s =
     chain (work_dir_path_of (ss_id s)) (\<lambda>work.
     handling os_fault
       (chain (stat_entry work) (\<lambda>n. case n of
          None \<Rightarrow> give False
        | Some (Directory _) \<Rightarrow> observes (\<lambda>t. Some (list_ex (\<lambda>p. is_link t p \<or>
            (is_directory t p \<and> p \<notin> set (expected_directories s)) \<or> (\<not> is_directory t p \<and> \<not> is_regular t p)) (below t work)))
        | Some _ \<Rightarrow> give True))
       (\<lambda>_. give True))"

text \<open>Whether the files are within the bounds of a selective archive.\<close>

fun sizes_fit :: "path list \<Rightarrow> nat \<Rightarrow> bool program" where
  "sizes_fit [] sofar = give (sofar \<le> max_archive_total_bytes)"
| "sizes_fit (p # ps) sofar =
     chain (resolve_under_root p) (\<lambda>_.
     chain (handling os_fault (chain (stat_entry p) (\<lambda>n. give (case n of Some (Regular d _) \<Rightarrow> Some (length d) | Some _ \<Rightarrow> Some 0 | None \<Rightarrow> None)))
       (\<lambda>_. give None)) (\<lambda>r. case r of
         None \<Rightarrow> give False
       | Some k \<Rightarrow> if k > max_archive_file_bytes then give False else sizes_fit ps (sofar + k)))"

text \<open>\<^verbatim>\<open>copy2\<close> copies the contents and the mode.\<close>

definition copy_file :: "path \<Rightarrow> path \<Rightarrow> unit program" where
  "copy_file p q =
     chain (read_file p) (\<lambda>d.
     chain (changes (create_file q)) (\<lambda>_.
     chain (changes (write_file d q)) (\<lambda>_.
     changes (\<lambda>t. case node_at t p of Some n \<Rightarrow> change_mode (node_mode n) q t | None \<Rightarrow> None))))"

definition archive_file :: "machine \<Rightarrow> path \<Rightarrow> path \<Rightarrow> unit program" where
  "archive_file mc dir p =
     chain (resolve_under_root p) (\<lambda>_.
     translating WorkshopError (chain (make_directories (mc_dir_mode mc) (butlast (dir @ p))) (\<lambda>_. copy_file p (dir @ p))))"

definition archive_attempt :: "machine \<Rightarrow> string \<Rightarrow> string \<Rightarrow> scenario_state \<Rightarrow> archive option program" where
  "archive_attempt mc now stamp s =
     chain (if ss_version s \<ge> 2 \<and> ss_phase s = Staging \<and> ss_existed s = Some True \<and> ss_moved s \<noteq> Some True
         then chain (pre_start_work_path_of (ss_id s)) (\<lambda>b. asks (\<lambda>t. \<not> present t b)) else give False) (\<lambda>untouched.
     if untouched then give None else
     chain (attempt_metadata mc now s) (\<lambda>meta.
     chain (whole_tree_needed s) (\<lambda>whole.
     if whole then relocate_work_tree mc stamp s meta else
     chain (collect_attempt_files mc s) (\<lambda>files.
     chain (any_changed mc (ss_id s) (ss_targets s)) (\<lambda>changed.
     chain (records_for_archive mc s) (\<lambda>records.
     if files = [] \<and> \<not> changed \<and> records = None then give None
     else if length files > max_archive_files then relocate_work_tree mc stamp s meta
     else chain (sizes_fit files 0) (\<lambda>fit.
     if \<not> fit then relocate_work_tree mc stamp s meta else
     chain (new_archive_dir mc (ss_id s) stamp) (\<lambda>dir.
     chain (each (archive_file mc dir) files) (\<lambda>_.
     chain (finish_attempt_archive mc s \<lparr>ar_path = dir, ar_whole = False\<rparr> meta) (\<lambda>a. give (Some a)))))))))))"

section \<open>Reading an archive\<close>

definition owner_access :: "string \<Rightarrow> bool" where
  "owner_access m = (case octal m of None \<Rightarrow> False | Some n \<Rightarrow> (n div 64) mod 8 = 7)"

definition inventory_ok :: "string \<Rightarrow> work_entry list \<Rightarrow> bool" where
  "inventory_ok i xs \<longleftrightarrow> (let indexed = map (\<lambda>x. (we_path x, x)) xs; work = posix (work_dir_rel i);
       is_dir = (\<lambda>p. case dict_get indexed p of Some x \<Rightarrow> \<not> we_file x | None \<Rightarrow> False) in
     distinct (map we_path xs) \<and> is_dir work \<and>
     list_all (\<lambda>x. (we_file x \<or> owner_access (we_mode x)) \<and>
       (we_path x = work \<or> is_dir (posix (butlast (pure_path (we_path x)))))) xs \<and>
     sum_list (map we_size xs) \<le> int max_archive_total_bytes)"

definition parse_attempt :: "machine \<Rightarrow> string \<Rightarrow> payload \<Rightarrow> failure + work_entry list" where
  "parse_attempt mc i meta =
     (case check_keys meta [''schema_version'', ''scenario_id'', ''started_at'', ''archived_at'', ''manifest_sha256'', ''catalogue_sha256'',
        ''baseline'', ''tree'', ''resume_blocker''] [''verification_warning''] of Inl e \<Rightarrow> Inl e | Inr _ \<Rightarrow>
     (case as_int meta ''schema_version'' 0 1 1 of Inl e \<Rightarrow> Inl e | Inr version \<Rightarrow>
      if version \<noteq> 1 \<or> dict_get meta ''scenario_id'' \<noteq> Some (VStr i) then Inl ArtifactError else
     (case map_checked (\<lambda>k. case as_str meta k of Inl e \<Rightarrow> Inl e | Inr s \<Rightarrow> check_utc_timestamp (mc_aware mc) s) [''started_at'', ''archived_at''] of
        Inl e \<Rightarrow> Inl e | Inr _ \<Rightarrow>
     (case map_checked (hash_key meta) [''manifest_sha256'', ''catalogue_sha256''] of Inl e \<Rightarrow> Inl e | Inr _ \<Rightarrow>
     (case opt_text meta ''resume_blocker'' of Inl e \<Rightarrow> Inl e | Inr blocker \<Rightarrow>
      if blocker \<noteq> None then Inl ArtifactError else
     (case as_dict_list meta ''tree'' of Inl e \<Rightarrow> Inl e | Inr raws \<Rightarrow>
      if length raws > max_archive_files + 1 then Inl ArtifactError else
     (case map_checked (entry_from_json i) raws of Inl e \<Rightarrow> Inl e | Inr xs \<Rightarrow>
      if \<not> inventory_ok i xs then Inl ArtifactError else Inr (sort_key we_path xs))))))))"

definition load_attempt :: "machine \<Rightarrow> string \<Rightarrow> string \<Rightarrow> (path \<times> payload \<times> work_entry list) program" where
  "load_attempt mc i attempt_id =
     chain (checked (check_relpath attempt_id)) (\<lambda>q.
     if length q \<noteq> 1 then fail_with ArtifactError else
     chain (resolve_under_root (attempt_dir_rel i @ q)) (\<lambda>dir.
     chain (resolve_under_root (dir @ [attempt_manifest_name])) (\<lambda>p.
     chain (read_json mc p max_state_bytes) (\<lambda>meta.
     chain (checked (parse_attempt mc i meta)) (\<lambda>xs. give (dir, meta, xs))))))"

end
