(* ===== verification/Evidence.thy ===== *)
theory Evidence
  imports Archives
begin

text \<open>
  Acceptance, \<^verbatim>\<open>scripts/workshop.py\<close>: judging an evidence note, and running acceptance commands in a minimal environment.
  The labels and details of the results are messages and are not modelled.
\<close>

section \<open>Texts\<close>

definition lstrip :: "string \<Rightarrow> string" where
  "lstrip s = dropWhile py_space s"

definition contains :: "string \<Rightarrow> string \<Rightarrow> bool" where
  "contains w s \<longleftrightarrow> list_ex (\<lambda>n. take (length w) (drop n s) = w) [0..<Suc (length s)]"

definition mentions :: "string \<Rightarrow> string \<Rightarrow> bool" where
  "mentions w s \<longleftrightarrow> contains (lower w) (lower s)"

text \<open>\<^verbatim>\<open>text.split()\<close>.\<close>

fun words_from :: "string \<Rightarrow> string \<Rightarrow> string list" where
  "words_from w [] = (if w = [] then [] else [rev w])"
| "words_from w (c # cs) =
     (if py_space c then (if w = [] then words_from [] cs else rev w # words_from [] cs) else words_from (c # w) cs)"

definition split_words :: "string \<Rightarrow> string list" where
  "split_words s = words_from [] s"

section \<open>Judging a note\<close>

definition heading_level :: "string \<Rightarrow> nat" where
  "heading_level l = (let s = lstrip l; n = length (takeWhile (\<lambda>c. c = CHR ''#'') s) in
     if n > 0 \<and> take 1 (drop n s) = '' '' then n else 0)"

definition body_of :: "nat \<Rightarrow> string list \<Rightarrow> string list" where
  "body_of level ls = takeWhile (\<lambda>l. \<not> (heading_level l > 0 \<and> heading_level l \<le> level)) ls"

definition section_body :: "string list \<Rightarrow> string \<Rightarrow> string list option" where
  "section_body ls h = (case dropWhile (\<lambda>l. strip l \<noteq> strip h) ls of
      [] \<Rightarrow> None | l # rest \<Rightarrow> Some (body_of (heading_level h) rest))"

definition judge_document_placeholders :: "string \<Rightarrow> evidence_check \<Rightarrow> bool" where
  "judge_document_placeholders text c \<longleftrightarrow> \<not> list_ex (\<lambda>p. mentions p text) (ec_placeholders c)"

definition word_count :: "string \<Rightarrow> nat" where
  "word_count text = length (filter (list_ex is_alnum) (split_words text))"

definition judge_body :: "string list \<Rightarrow> evidence_check \<Rightarrow> bool" where
  "judge_body body c \<longleftrightarrow> (let text = join_char newline body in
     \<not> list_ex (\<lambda>p. mentions p text) (ec_placeholders c) \<and> ec_min_words c \<le> int (word_count text))"

definition field_lines :: "string list \<Rightarrow> string \<Rightarrow> string list" where
  "field_lines ls l = map (\<lambda>s. strip (drop (length l) (strip s))) (filter (\<lambda>s. prefix l (strip s)) ls)"

text \<open>\<^verbatim>\<open>max(values, key=len)\<close>: the first of the longest.\<close>

fun longest :: "string list \<Rightarrow> string" where
  "longest [] = []"
| "longest [v] = v"
| "longest (v # u # vs) = (let best = longest (u # vs) in if length best \<le> length v then v else best)"

definition judge_field :: "string list \<Rightarrow> evidence_field \<Rightarrow> string list \<Rightarrow> bool" where
  "judge_field ls f placeholders \<longleftrightarrow> (let vs = field_lines ls (ef_label f); best = longest vs in
     vs \<noteq> [] \<and> \<not> list_ex (\<lambda>p. mentions p best) placeholders \<and> ef_min_chars f \<le> int (length best) \<and>
     (ef_options f = [] \<or> list_ex (\<lambda>w. mentions w best) (ef_options f)))"

fun block_bodies :: "nat \<Rightarrow> string \<Rightarrow> string list \<Rightarrow> string list list" where
  "block_bodies level h [] = []"
| "block_bodies level h (l # ls) =
     (if prefix h (strip l) then body_of level ls # block_bodies level h ls else block_bodies level h ls)"

definition judge_blocks :: "string list \<Rightarrow> evidence_block \<Rightarrow> evidence_check \<Rightarrow> bool list" where
  "judge_blocks ls b c = (let bodies = block_bodies (heading_level (eb_prefix b)) (eb_prefix b) ls in
     if int (length bodies) < eb_min_count b then [False]
     else True # concat (map (\<lambda>body. judge_body body c # map (\<lambda>f. judge_field body f (ec_placeholders c)) (eb_fields b)) bodies))"

definition max_evidence_bytes :: nat where "max_evidence_bytes = 524288"

definition judge_text :: "string \<Rightarrow> evidence_check \<Rightarrow> bool list" where
  "judge_text text c = (let ls = split_char newline text in
     True # judge_document_placeholders text c #
     map (\<lambda>h. case section_body ls h of None \<Rightarrow> False | Some body \<Rightarrow> judge_body body c) (ec_headings c) @
     map (\<lambda>f. judge_field ls f (ec_placeholders c)) (ec_fields c) @
     concat (map (\<lambda>b. judge_blocks ls b c) (ec_blocks c)))"

definition run_evidence_check :: "machine \<Rightarrow> evidence_check \<Rightarrow> bool list program" where
  "run_evidence_check mc c =
     chain (resolve_under_root (ec_path c)) (\<lambda>p.
     chain (asks (\<lambda>t. is_regular t p)) (\<lambda>there. if \<not> there then give [False] else
     chain (read_file p) (\<lambda>d.
     if length d > max_evidence_bytes then give [False]
     else (case mc_utf8 mc d of None \<Rightarrow> give [False] | Some text \<Rightarrow> give (judge_text text c)))))"

section \<open>Commands\<close>

text \<open>The host: its environment, the directory of the interpreter, whether it is Windows, and \<^verbatim>\<open>os.defpath\<close> split.\<close>

record host =
  ho_environ :: "(string, string) dict"
  ho_python :: string
  ho_python_dir :: string
  ho_windows :: bool
  ho_defpath :: "string list"
  ho_separator :: char

definition inherited_env_keys :: "string list" where
  "inherited_env_keys = [''SYSTEMROOT'', ''SystemRoot'', ''COMSPEC'', ''ComSpec'', ''PATHEXT'', ''WINDIR'', ''NUMBER_OF_PROCESSORS'',
     ''PROCESSOR_ARCHITECTURE'', ''LANG'', ''LC_ALL'', ''LC_CTYPE'']"

text \<open>The first of equal parts stays.\<close>

definition ordered_parts :: "string list \<Rightarrow> string list" where
  "ordered_parts ps = rev (remdups (rev ps))"

definition system_root :: "host \<Rightarrow> string option" where
  "system_root h = (case filter (\<lambda>v. v \<noteq> [])
       (concat (map (\<lambda>k. case dict_get (ho_environ h) k of None \<Rightarrow> [] | Some v \<Rightarrow> [v]) [''SystemRoot'', ''SYSTEMROOT''])) of
      [] \<Rightarrow> None | v # _ \<Rightarrow> Some v)"

definition backslash :: char where "backslash = CHR 0x5C"

definition path_parts :: "host \<Rightarrow> string list" where
  "path_parts h = ho_python_dir h #
     (if ho_windows h then (case system_root h of None \<Rightarrow> [] | Some r \<Rightarrow>
        [r @ backslash # ''System32'', r @ backslash # ''System32'' @ backslash # ''Wbem'']) else []) @
     filter (\<lambda>p. p \<noteq> []) (ho_defpath h)"

definition acceptance_environment :: "host \<Rightarrow> (string, string) dict" where
  "acceptance_environment h =
     dict_set ''PYTHONNOUSERSITE'' ''1'' (dict_set ''PYTHONIOENCODING'' ''utf-8'' (dict_set ''PYTHONDONTWRITEBYTECODE'' ''1''
      (dict_set ''PATH'' (join_char (ho_separator h) (ordered_parts (path_parts h)))
       (concat (map (\<lambda>k. case dict_get (ho_environ h) k of None \<Rightarrow> [] | Some v \<Rightarrow> [(k, v)]) inherited_env_keys)))))"

definition build_argv :: "host \<Rightarrow> acceptance_command \<Rightarrow> string list" where
  "build_argv h c = map (\<lambda>w. if w = python_placeholder then ho_python h else w) (am_argv c)"

text \<open>How a process ends; it may change the tree while it runs.\<close>

datatype process_end = Exits int | Times_out | Not_found | Cannot_run

record check_result =
  cr_passed :: bool
  cr_exit :: "int option"

type_synonym launcher = "string list \<Rightarrow> (string, string) dict \<Rightarrow> int \<Rightarrow> tree \<Rightarrow> process_end \<times> tree"

definition run_acceptance_command :: "host \<Rightarrow> launcher \<Rightarrow> acceptance_command \<Rightarrow> check_result program" where
  "run_acceptance_command h run c w =
     (case run (build_argv h c) (acceptance_environment h) (am_timeout c) (wd_tree w) of
        (Exits n, t) \<Rightarrow> (Inr \<lparr>cr_passed = (n = 0), cr_exit = Some n\<rparr>, w\<lparr>wd_tree := t\<rparr>)
      | (Times_out, t) \<Rightarrow> (Inr \<lparr>cr_passed = False, cr_exit = None\<rparr>, w\<lparr>wd_tree := t\<rparr>)
      | (Not_found, t) \<Rightarrow> (Inl PrerequisiteError, w\<lparr>wd_tree := t\<rparr>)
      | (Cannot_run, t) \<Rightarrow> (Inl WorkshopError, w\<lparr>wd_tree := t\<rparr>))"

fun run_commands :: "host \<Rightarrow> launcher \<Rightarrow> acceptance_command list \<Rightarrow> check_result list program" where
  "run_commands h run [] = give []"
| "run_commands h run (c # cs) = chain (run_acceptance_command h run c) (\<lambda>r. chain (run_commands h run cs) (\<lambda>rs. give (r # rs)))"

section \<open>Bounded output\<close>

definition truncate_output :: "string \<Rightarrow> string \<times> bool" where
  "truncate_output text = (let ls = split_char newline text; joined = join_char newline (take 40 ls) in
     (take 4000 joined, length ls > 40 \<or> length joined > 4000))"

definition strip_escapes :: "string \<Rightarrow> string" where
  "strip_escapes l = filter (\<lambda>c. c = CHR 0x09 \<or> 32 \<le> (of_char c :: nat)) l"

end
