(* ===== verification/Runner.thy ===== *)
theory Runner
  imports Evidence
begin

text \<open>
  The commands of the runner, \<^verbatim>\<open>scripts/workshop.py\<close>: the catalogue, the lock, starting, verifying, resetting and resuming
  a scenario, and what the other commands find. Printed text is not modelled, nor is a catalogue behind a link.
\<close>

section \<open>The catalogue\<close>

definition manifest_name :: string where "manifest_name = ''manifest.json''"
definition max_payload_bytes :: nat where "max_payload_bytes = 262144"

definition manifest_path :: "string \<Rightarrow> path" where
  "manifest_path i = scenario_root @ pure_path i @ [manifest_name]"

type_synonym catalogue = "(string, manifest) dict"

definition load_manifest :: "machine \<Rightarrow> string \<Rightarrow> manifest program" where
  "load_manifest mc i =
     chain (checked (check_relpath i)) (\<lambda>_.
     if slash \<in> set i then fail_with ArtifactError else
     chain (resolve_under_root (manifest_path i)) (\<lambda>p.
     chain (read_json mc p max_manifest_bytes) (\<lambda>raw. checked (parse_manifest raw i))))"

fun load_manifests :: "machine \<Rightarrow> string list \<Rightarrow> catalogue program" where
  "load_manifests mc [] = give []"
| "load_manifests mc (i # is) = chain (load_manifest mc i) (\<lambda>m. chain (load_manifests mc is) (\<lambda>ms. give ((i, m) # ms)))"

definition catalogue_ids :: "payload \<Rightarrow> failure + string list" where
  "catalogue_ids d =
     (case check_keys d [''schema_version'', ''scenarios''] [''description''] of Inl e \<Rightarrow> Inl e | Inr _ \<Rightarrow>
     (case as_int d ''schema_version'' 0 1 1 of Inl e \<Rightarrow> Inl e | Inr version \<Rightarrow>
      if version \<noteq> 1 then Inl ArtifactError else
     (case as_str_list d ''scenarios'' [] of Inl e \<Rightarrow> Inl e | Inr ids \<Rightarrow>
      if ids = [] \<or> \<not> distinct ids then Inl ArtifactError else Inr ids)))"

definition load_catalogue :: "machine \<Rightarrow> catalogue program" where
  "load_catalogue mc =
     chain (read_json mc catalogue_path max_manifest_bytes) (\<lambda>d.
     chain (checked (catalogue_ids d)) (load_manifests mc))"

definition require_scenario :: "catalogue \<Rightarrow> string \<Rightarrow> failure + manifest" where
  "require_scenario c i = (case dict_get c i of None \<Rightarrow> Inl WorkshopError | Some m \<Rightarrow> Inr m)"

definition scenario_manifest :: "machine \<Rightarrow> string \<Rightarrow> manifest program" where
  "scenario_manifest mc i = chain (load_catalogue mc) (\<lambda>c. checked (require_scenario c i))"

definition require_artifact :: "path \<Rightarrow> unit program" where
  "require_artifact p = chain (resolve_under_root p) (\<lambda>p.
     chain (asks (\<lambda>t. present t p)) (\<lambda>there. unless there ArtifactError))"

definition require_payload :: "machine \<Rightarrow> stage_item \<Rightarrow> unit program" where
  "require_payload mc item =
     chain (resolve_under_root (si_payload item)) (\<lambda>p.
     chain (asks (\<lambda>t. is_regular t p)) (\<lambda>there. if \<not> there then fail_with ArtifactError else
     chain (stat_entry p) (\<lambda>n.
     if (case n of Some (Regular d _) \<Rightarrow> length d > max_payload_bytes | _ \<Rightarrow> False) then fail_with ArtifactError else
     chain (read_bytes_checked p) (\<lambda>d. unless (mc_utf8 mc d \<noteq> None) ArtifactError))))"

definition require_directory :: "path \<Rightarrow> unit program" where
  "require_directory p = chain (resolve_under_root p) (\<lambda>p.
     chain (asks (\<lambda>t. is_directory t p)) (\<lambda>there. unless there ArtifactError))"

definition validate_scenario_artifacts :: "machine \<Rightarrow> manifest \<Rightarrow> unit program" where
  "validate_scenario_artifacts mc m =
     chain (require_directory (mf_directory m)) (\<lambda>_.
     chain (each require_artifact (mf_doc m # mf_artifacts m)) (\<lambda>_.
     chain (each (require_payload mc) (mf_stage m)) (\<lambda>_.
     require_directory (mf_fallback m))))"

definition check_required_imports :: "machine \<Rightarrow> manifest \<Rightarrow> unit program" where
  "check_required_imports mc m = unless (list_all (mc_module mc) (mf_imports m)) PrerequisiteError"

definition definition_hashes :: "machine \<Rightarrow> string \<Rightarrow> (string \<times> string) program" where
  "definition_hashes mc i =
     chain (resolve_under_root catalogue_path) (\<lambda>c.
     chain (resolve_under_root (manifest_path i)) (\<lambda>p.
     chain (sha256_file mc c) (\<lambda>ch. chain (sha256_file mc p) (\<lambda>mh. give (ch, mh)))))"

definition check_definition_unchanged :: "machine \<Rightarrow> scenario_state \<Rightarrow> unit program" where
  "check_definition_unchanged mc s = chain (definition_hashes mc (ss_id s)) (\<lambda>(ch, mh).
     unless (ch = ss_catalogue s \<and> mh = ss_manifest s) ArtifactError)"

section \<open>Start and reset\<close>

definition first_state :: "machine \<Rightarrow> string \<Rightarrow> git_identity option \<Rightarrow> manifest \<Rightarrow> bool \<Rightarrow> string \<times> string \<Rightarrow> scenario_state" where
  "first_state mc now git m existed hashes =
     \<lparr>ss_id = mf_id m, ss_phase = Staging, ss_started = now, ss_root = mc_root mc, ss_git = git, ss_catalogue = fst hashes,
      ss_manifest = snd hashes, ss_targets = fst (plan_targets m), ss_created = snd (plan_targets m), ss_existed = Some existed,
      ss_moved = Some False, ss_pre_sha = None, ss_version = 2\<rparr>"

definition refuse_active :: "machine \<Rightarrow> unit program" where
  "refuse_active mc = chain (load_state mc) (\<lambda>s. unless (s = None) StateConflictError)"

definition cmd_start :: "machine \<Rightarrow> string \<Rightarrow> git_identity option \<Rightarrow> bool \<Rightarrow> string \<Rightarrow> unit program" where
  "cmd_start mc now git activate i =
     chain (scenario_manifest mc i) (\<lambda>m.
     chain (refuse_active mc) (\<lambda>_.
     chain (validate_scenario_artifacts mc m) (\<lambda>_.
     chain (check_required_imports mc m) (\<lambda>_.
     chain (inspect_work_directory (mf_id m)) (\<lambda>existed.
     chain (definition_hashes mc (mf_id m)) (\<lambda>hashes.
     stage mc m activate (first_state mc now git m existed hashes)))))))"

definition explain_unknown_scenario :: "machine \<Rightarrow> string \<Rightarrow> unit program" where
  "explain_unknown_scenario mc i =
     handling (\<lambda>e. e = ArtifactError) (chain (scenario_manifest mc i) (\<lambda>_. give ())) (\<lambda>_. give ())"

definition refuse_other :: "machine \<Rightarrow> string \<Rightarrow> scenario_state program" where
  "refuse_other mc i = chain (load_state mc) (\<lambda>r. case r of
      Some s \<Rightarrow> if ss_id s = i then give s else chain (explain_unknown_scenario mc i) (\<lambda>_. fail_with StateConflictError)
    | None \<Rightarrow> chain (explain_unknown_scenario mc i) (\<lambda>_. fail_with StateConflictError))"

definition cmd_reset :: "machine \<Rightarrow> string \<Rightarrow> string \<Rightarrow> string \<Rightarrow> archive option program" where
  "cmd_reset mc now stamp i =
     chain (refuse_other mc i) (\<lambda>s.
     chain (archive_attempt mc now stamp s) (\<lambda>a.
     chain (handling runner_error (restore_scenario mc s) (\<lambda>e. fail_with (if a = None then e else WorkshopError))) (\<lambda>_.
     chain clear_state (\<lambda>_. give a))))"

section \<open>Verify\<close>

definition active_attempt :: "machine \<Rightarrow> string \<Rightarrow> scenario_state program" where
  "active_attempt mc i = chain (load_state mc) (\<lambda>r. case r of
      Some s \<Rightarrow> if ss_id s = i \<and> ss_phase s = Active then give s else fail_with StateConflictError
    | None \<Rightarrow> fail_with StateConflictError)"

definition three_digits :: "nat \<Rightarrow> string" where
  "three_digits n = char_of (48 + n div 100 mod 10) # two_digits n"

definition fingerprint :: "machine \<Rightarrow> work_entry list \<Rightarrow> pyval" where
  "fingerprint mc xs = VDict [(''sha256'', VStr (inventory_sha256 mc xs)), (''entries'', VList (map (\<lambda>x. VDict (entry_to_json x)) xs))]"

definition verification_record :: "machine \<Rightarrow> string \<Rightarrow> string \<Rightarrow> pyval list \<Rightarrow> bool \<Rightarrow> scenario_state \<Rightarrow> work_entry list \<Rightarrow>
    work_entry list \<Rightarrow> payload" where
  "verification_record mc started finished observations passed s before after =
     [(''schema_version'', VInt 1), (''scenario_id'', VStr (ss_id s)), (''attempt_started_at'', VStr (ss_started s)),
      (''started_at'', VStr started), (''finished_at'', VStr finished), (''manifest_sha256'', VStr (ss_manifest s)),
      (''source'', VStr ''local-runner-execution''), (''acceptance_passed'', VBool passed),
      (''assessment'', VStr ''not assessed; no lane, supervision, or live-product claim''),
      (''fingerprint_scope'', VStr (posix (work_dir_rel (ss_id s)))), (''before'', fingerprint mc before),
      (''after'', fingerprint mc after), (''work_changed_during_check'', VBool (before \<noteq> after)),
      (''observations'', VList observations),
      (''privacy'', VStr ''local only; output is bounded and pattern-redacted, not guaranteed secret-free'')]"

fun first_record_path :: "path list \<Rightarrow> path program" where
  "first_record_path [] = fail_with WorkshopError"
| "first_record_path (p # ps) = chain (resolve_under_root p) (\<lambda>p.
     chain (asks (\<lambda>t. present t p)) (\<lambda>taken. if taken then first_record_path ps else give p))"

definition save_verification_record :: "machine \<Rightarrow> string \<Rightarrow> string \<Rightarrow> string \<Rightarrow> pyval list \<Rightarrow> bool \<Rightarrow> scenario_state \<Rightarrow>
    work_entry list \<Rightarrow> path program" where
  "save_verification_record mc started finished stamp observations passed s before =
     chain (capture_work_tree mc (ss_id s)) (\<lambda>after.
     let d = mc_dump mc (VDict (verification_record mc started finished observations passed s before after)) in
     if length d > max_evidence_bytes then fail_with ArtifactError else
     chain (record_directory mc s) (\<lambda>base.
     chain (first_record_path (map (\<lambda>n. base @ [stamp @ CHR ''-'' # three_digits n @ ''.json'']) [1..<1000])) (\<lambda>p.
     chain (atomic_write (mc_dir_mode mc) p d 384) (\<lambda>_. give p))))"

definition run_acceptance :: "machine \<Rightarrow> host \<Rightarrow> launcher \<Rightarrow> manifest \<Rightarrow> check_result list program" where
  "run_acceptance mc h run m = (case mf_kind m of
      Kind_code \<Rightarrow> chain (check_required_imports mc m) (\<lambda>_. run_commands h run (mf_commands m))
    | Kind_evidence \<Rightarrow> (case mf_evidence m of
        None \<Rightarrow> fail_with ArtifactError
      | Some c \<Rightarrow> chain (run_evidence_check mc c) (\<lambda>bs. give (map (\<lambda>b. \<lparr>cr_passed = b, cr_exit = None\<rparr>) bs))))"

text \<open>
  \<open>observe\<close> gives what is recorded of the results: commands, labels, details and output, with secrets replaced by patterns.
  The texts \<open>started\<close>, \<open>finished\<close> and \<open>stamp\<close> are readings of the clock.
\<close>

definition cmd_verify :: "machine \<Rightarrow> host \<Rightarrow> launcher \<Rightarrow> (check_result list \<Rightarrow> pyval list) \<Rightarrow> string \<Rightarrow> string \<Rightarrow> string \<Rightarrow> bool \<Rightarrow> string \<Rightarrow>
    path option program" where
  "cmd_verify mc h run observe started finished stamp recording i =
     chain (scenario_manifest mc i) (\<lambda>m.
     chain (active_attempt mc i) (\<lambda>s.
     chain (check_definition_unchanged mc s) (\<lambda>_.
     chain (if recording then capture_work_tree mc i else give []) (\<lambda>before.
     chain (run_acceptance mc h run m) (\<lambda>results.
     let passed = list_all cr_passed results in
     chain (if recording then chain (save_verification_record mc started finished stamp (observe results) passed s before) (\<lambda>p. give (Some p))
       else give None) (\<lambda>saved.
     if passed then give saved else fail_with AcceptanceFailed))))))"

end
