(* ===== verification/Commands.thy ===== *)
theory Commands
  imports Runner
begin

text \<open>
  The other commands of \<^verbatim>\<open>scripts/workshop.py\<close>, the lock around a command and the exit code of a run. What a command only
  prints is returned, as far as it tells something about the repository.
\<close>

section \<open>Resume\<close>

definition baseline_matches :: "payload \<Rightarrow> stage_item \<Rightarrow> string \<Rightarrow> bool" where
  "baseline_matches raw item h \<longleftrightarrow> dict_get raw ''path'' = Some (VStr (posix (si_target item))) \<and>
     dict_get raw ''sha256'' = Some (VStr h) \<and> dict_get raw ''mode'' = Some (VStr (octal_text (si_mode item)))"

fun resume_sources :: "machine \<Rightarrow> (payload \<times> stage_item) list \<Rightarrow> (string, path) dict program" where
  "resume_sources mc [] = give []"
| "resume_sources mc ((raw, item) # xs) =
     chain (checked (check_keys raw [''path'', ''sha256'', ''mode''] [])) (\<lambda>_.
     chain (resolve_under_root (si_payload item)) (\<lambda>p.
     chain (sha256_file mc p) (\<lambda>h. if \<not> baseline_matches raw item h then fail_with ArtifactError else
     chain (resume_sources mc xs) (\<lambda>d. give ((posix (si_target item), p) # d)))))"

definition saved_content :: "machine \<Rightarrow> path \<Rightarrow> (string, path) dict \<Rightarrow> work_entry \<Rightarrow> string program" where
  "saved_content mc dir sources x =
     chain (resolve_under_root (dir @ pure_path (we_path x))) (\<lambda>archived.
     chain (asks (\<lambda>t. if present t archived then Some archived else dict_get sources (we_path x))) (\<lambda>r. case r of
       None \<Rightarrow> fail_with ArtifactError
     | Some p \<Rightarrow> chain (asks (\<lambda>t. is_regular t p)) (\<lambda>file. if \<not> file then fail_with ArtifactError else
         chain (stat_entry p) (\<lambda>n.
         if (case n of Some (Regular d _) \<Rightarrow> int (length d) \<noteq> we_size x | _ \<Rightarrow> True) then fail_with ArtifactError else
         chain (read_bytes_checked p) (\<lambda>d. if Some (mc_sha mc d) \<noteq> we_sha x then fail_with ArtifactError else give d)))))"

fun saved_contents :: "machine \<Rightarrow> path \<Rightarrow> (string, path) dict \<Rightarrow> work_entry list \<Rightarrow> (string, string) dict program" where
  "saved_contents mc dir sources [] = give []"
| "saved_contents mc dir sources (x # xs) =
     (if \<not> we_file x then saved_contents mc dir sources xs
      else chain (saved_content mc dir sources x) (\<lambda>d.
        chain (saved_contents mc dir sources xs) (\<lambda>ds. give ((we_path x, d) # ds))))"

definition write_entry :: "machine \<Rightarrow> (string, string) dict \<Rightarrow> work_entry \<Rightarrow> unit program" where
  "write_entry mc contents x =
     chain (resolve_under_root (pure_path (we_path x))) (\<lambda>p.
     if \<not> we_file x then make_directories (mc_dir_mode mc) p
     else atomic_write (mc_dir_mode mc) p (the (dict_get contents (we_path x))) (the (octal (we_mode x))))"

definition set_directory_mode :: "work_entry \<Rightarrow> unit program" where
  "set_directory_mode x = (if we_file x then give () else changes (change_mode (the (octal (we_mode x))) (pure_path (we_path x))))"

definition rebuild_work :: "machine \<Rightarrow> string \<Rightarrow> (string, string) dict \<Rightarrow> work_entry list \<Rightarrow> unit program" where
  "rebuild_work mc i contents entries =
     chain (work_dir_path_of i) (\<lambda>work.
     chain (remove_work_entry work) (\<lambda>_.
     chain (each (write_entry mc contents) entries) (\<lambda>_.
     chain (each set_directory_mode (rev entries)) (\<lambda>_.
     chain (capture_work_tree mc i) (\<lambda>xs. unless (xs = entries) WorkshopError)))))"

definition cmd_resume :: "machine \<Rightarrow> string \<Rightarrow> git_identity option \<Rightarrow> string \<Rightarrow> string \<Rightarrow> unit program" where
  "cmd_resume mc now git i attempt_id =
     chain (scenario_manifest mc i) (\<lambda>m.
     chain (refuse_active mc) (\<lambda>_.
     chain (load_attempt mc i attempt_id) (\<lambda>(dir, meta, entries).
     chain (definition_hashes mc i) (\<lambda>(ch, mh).
     if dict_get meta ''catalogue_sha256'' \<noteq> Some (VStr ch) \<or> dict_get meta ''manifest_sha256'' \<noteq> Some (VStr mh)
     then fail_with ArtifactError else
     chain (checked (as_dict_list meta ''baseline'')) (\<lambda>baseline.
     if length baseline \<noteq> length (mf_stage m) then fail_with ArtifactError else
     chain (resume_sources mc (zip baseline (mf_stage m))) (\<lambda>sources.
     chain (saved_contents mc dir (rev sources) entries) (\<lambda>contents.
     chain (cmd_start mc now git False i) (\<lambda>_.
     chain (load_state mc) (\<lambda>r. case r of
       None \<Rightarrow> fail_with StateConflictError
     | Some s \<Rightarrow>
         chain (attempt mc s (rebuild_work mc i contents entries)) (\<lambda>_.
         let s' = s\<lparr>ss_phase := Active\<rparr> in attempt mc s' (save_state mc s')))))))))))"

section \<open>Commands that look\<close>

fun validate_all :: "machine \<Rightarrow> catalogue \<Rightarrow> unit program" where
  "validate_all mc [] = give ()"
| "validate_all mc ((i, m) # ms) = chain (validate_scenario_artifacts mc m) (\<lambda>_. validate_all mc ms)"

text \<open>The scenarios, and which one is active.\<close>

definition cmd_list :: "machine \<Rightarrow> (string list \<times> string option) program" where
  "cmd_list mc =
     chain (load_catalogue mc) (\<lambda>c.
     chain (load_state mc) (\<lambda>s.
     chain (validate_all mc c) (\<lambda>_. give (dict_keys c, map_option ss_id s))))"

datatype status_report =
    Nothing_active
  | Interrupted string
  | Staged string "(string \<times> target_status) list" "path list"

definition added_files :: "machine \<Rightarrow> scenario_state \<Rightarrow> path list program" where
  "added_files mc s = (if ss_version s < 2 then give [] else
     handling runner_error
       (chain (collect_attempt_files mc s) (\<lambda>ps. give (filter (\<lambda>p. posix p \<notin> set (map tg_path (ss_targets s))) ps)))
       (\<lambda>_. give []))"

definition cmd_status :: "machine \<Rightarrow> status_report program" where
  "cmd_status mc = chain (load_state mc) (\<lambda>r. case r of
      None \<Rightarrow> give Nothing_active
    | Some s \<Rightarrow>
        chain (handling runner_error (chain (load_catalogue mc) (\<lambda>_. give ())) (\<lambda>_. give ())) (\<lambda>_.
        if ss_phase s = Staging then give (Interrupted (ss_id s)) else
        chain (statuses mc (ss_id s) (ss_targets s)) (\<lambda>known.
        chain (added_files mc s) (\<lambda>ps. give (Staged (ss_id s) known ps)))))"

text \<open>\<^verbatim>\<open>resync\<close> prints a fixed route for the blocked phase; only its guards are modelled.\<close>

definition cmd_resync :: "machine \<Rightarrow> string \<Rightarrow> unit program" where
  "cmd_resync mc i = chain (scenario_manifest mc i) (\<lambda>_. chain (active_attempt mc i) (\<lambda>_. give ()))"

fun file_sizes :: "path list \<Rightarrow> (path \<times> nat) list program" where
  "file_sizes [] = give []"
| "file_sizes (p # ps) = chain (observes (\<lambda>t. case node_at t p of Some (Regular d _) \<Rightarrow> Some (length d) | _ \<Rightarrow> None)) (\<lambda>n.
     chain (file_sizes ps) (\<lambda>xs. give ((p, n) # xs)))"

definition cmd_fallback :: "machine \<Rightarrow> string \<Rightarrow> (path \<times> nat) list program" where
  "cmd_fallback mc i =
     chain (scenario_manifest mc i) (\<lambda>m.
     chain (resolve_under_root (mf_fallback m)) (\<lambda>dir.
     chain (asks (\<lambda>t. is_directory t dir \<and> is_regular t (dir @ [''README.md'']))) (\<lambda>ok. if \<not> ok then fail_with ArtifactError else
     chain (observes (\<lambda>t. Some (sort_key posix (filter (is_regular t) (below t dir))))) file_sizes)))"

datatype attempt_listing = Unsafe_entry | Manual_only | Resumable nat

definition list_attempt :: "machine \<Rightarrow> string \<Rightarrow> path \<Rightarrow> attempt_listing program" where
  "list_attempt mc i p = chain (asks (\<lambda>t. is_directory t p)) (\<lambda>dir. if \<not> dir then give Unsafe_entry else
     handling (\<lambda>e. e = ArtifactError)
       (chain (load_attempt mc i (last p)) (\<lambda>(d, meta, xs). give (Resumable (length (filter we_file xs)))))
       (\<lambda>_. give Manual_only))"

fun list_attempts :: "machine \<Rightarrow> string \<Rightarrow> path list \<Rightarrow> (string \<times> attempt_listing) list program" where
  "list_attempts mc i [] = give []"
| "list_attempts mc i (p # ps) =
     chain (list_attempt mc i p) (\<lambda>x. chain (list_attempts mc i ps) (\<lambda>xs. give ((last p, x) # xs)))"

definition cmd_attempts :: "machine \<Rightarrow> string \<Rightarrow> (string \<times> attempt_listing) list program" where
  "cmd_attempts mc i =
     chain (checked (check_scenario_id i)) (\<lambda>i.
     chain (resolve_under_root (attempt_dir_rel i)) (\<lambda>base.
     chain (asks (\<lambda>t. is_directory t base)) (\<lambda>there. if \<not> there then give [] else
     chain (observes (\<lambda>t. Some (sort_key posix (filter (\<lambda>p. butlast p = base) (below t base))))) (list_attempts mc i))))"

section \<open>Diff\<close>

fun baseline_sources :: "machine \<Rightarrow> target_record list \<Rightarrow> stage_item list \<Rightarrow> (string, path) dict program" where
  "baseline_sources mc gs [] = give []"
| "baseline_sources mc gs (item # xs) =
     chain (resolve_under_root (si_payload item)) (\<lambda>p.
     case dict_get (map (\<lambda>g. (tg_path g, g)) gs) (posix (si_target item)) of
       None \<Rightarrow> fail_with ArtifactError
     | Some g \<Rightarrow> chain (sha256_file mc p) (\<lambda>h. if Some h \<noteq> tg_sha g then fail_with ArtifactError else
         chain (baseline_sources mc gs xs) (\<lambda>d. give ((posix (si_target item), p) # d))))"

datatype difference = Added_directory string | Type_changed string | Differs string

definition original_directories :: "scenario_state \<Rightarrow> string list" where
  "original_directories s = (let work = work_dir_rel (ss_id s) in
     posix work # concat (map (\<lambda>g. map posix (filter (strict_prefix work)
       (map (\<lambda>n. take n (pure_path (tg_path g))) [0..<length (pure_path (tg_path g))]))) (ss_targets s)))"

definition content_at :: "path option \<Rightarrow> string program" where
  "content_at r = (case r of None \<Rightarrow> give [] | Some p \<Rightarrow> read_bytes_checked p)"

definition current_path :: "string \<Rightarrow> work_entry option \<Rightarrow> path option program" where
  "current_path k x = (case x of None \<Rightarrow> give None | Some _ \<Rightarrow> chain (resolve_under_root (pure_path k)) (\<lambda>p. give (Some p)))"

definition compare_file :: "(string, path) dict \<Rightarrow> (string, target_record) dict \<Rightarrow> (string, work_entry) dict \<Rightarrow> string \<Rightarrow>
    difference option program" where
  "compare_file sources baseline current k =
     chain (content_at (dict_get sources k)) (\<lambda>before.
     if (case dict_get current k of Some x \<Rightarrow> \<not> we_file x | None \<Rightarrow> False) then give (Some (Type_changed k)) else
     chain (current_path k (dict_get current k)) (\<lambda>r.
     chain (content_at r) (\<lambda>after.
     let old_mode = Option.bind (dict_get baseline k) tg_mode; new_mode = map_option we_mode (dict_get current k) in
     give (if before = after \<and> old_mode = new_mode then None else Some (Differs k)))))"

fun compare_files :: "(string, path) dict \<Rightarrow> (string, target_record) dict \<Rightarrow> (string, work_entry) dict \<Rightarrow> string list \<Rightarrow>
    difference list program" where
  "compare_files sources baseline current [] = give []"
| "compare_files sources baseline current (k # ks) =
     chain (compare_file sources baseline current k) (\<lambda>x.
     chain (compare_files sources baseline current ks) (\<lambda>xs. give ((case x of None \<Rightarrow> [] | Some y \<Rightarrow> [y]) @ xs)))"

definition diff_paths :: "scenario_state \<Rightarrow> work_entry list \<Rightarrow> string option \<Rightarrow> failure + string list" where
  "diff_paths s xs selected = (let ks = sort (remdups (map tg_path (ss_targets s) @ map we_path (filter we_file xs))) in
     case selected of None \<Rightarrow> Inr ks
     | Some rel \<Rightarrow> (case check_relpath rel of Inl e \<Rightarrow> Inl e | Inr p \<Rightarrow>
         if posix (work_dir_rel (ss_id s) @ p) \<notin> set ks then Inl ArtifactError else Inr [posix (work_dir_rel (ss_id s) @ p)]))"

text \<open>The differences that are shown; the line by line comparison is the library's.\<close>

definition cmd_diff :: "machine \<Rightarrow> string option \<Rightarrow> string \<Rightarrow> difference list program" where
  "cmd_diff mc selected i =
     chain (scenario_manifest mc i) (\<lambda>m.
     chain (active_attempt mc i) (\<lambda>s.
     chain (check_definition_unchanged mc s) (\<lambda>_.
     chain (baseline_sources mc (rev (ss_targets s)) (mf_stage m)) (\<lambda>sources.
     chain (capture_work_tree mc (ss_id s)) (\<lambda>xs.
     chain (checked (diff_paths s xs selected)) (\<lambda>ks.
     chain (compare_files (rev sources) (map (\<lambda>g. (tg_path g, g)) (rev (ss_targets s))) (map (\<lambda>x. (we_path x, x)) xs) ks) (\<lambda>ds.
     give ((if selected = None then map Added_directory (filter (\<lambda>k. k \<notin> set (original_directories s))
         (map we_path (filter (\<lambda>x. \<not> we_file x) xs))) else []) @ ds))))))))"

section \<open>The lock and the exit code\<close>

definition lock_path :: path where "lock_path = state_dir_rel @ [''lifecycle.lock'']"

definition open_lock :: "tree \<Rightarrow> tree option" where
  "open_lock t = (case node_at t lock_path of
      None \<Rightarrow> create_file lock_path t
    | Some (Regular _ _) \<Rightarrow> Some t
    | Some Device \<Rightarrow> Some t
    | _ \<Rightarrow> None)"

text \<open>
  Whether another process holds the lock is \<open>held\<close>, what is written into the file is \<open>note\<close>. A link in the place of the
  directory is taken to lead to a directory.
\<close>

definition lifecycle_lock :: "bool \<Rightarrow> string \<Rightarrow> 'a program \<Rightarrow> 'a program" where
  "lifecycle_lock held note body =
     chain (asks (\<lambda>t. is_link t state_dir_rel)) (\<lambda>odd. if odd then fail_with ArtifactError else
     chain (translating WorkshopError (make_directories 448 state_dir_rel)) (\<lambda>_.
     chain (translating WorkshopError (changes open_lock)) (\<lambda>_.
     chain (asks (\<lambda>t. is_regular t lock_path)) (\<lambda>file. if \<not> file then fail_with ArtifactError else
     chain (changes (change_mode 384 lock_path)) (\<lambda>_.
     chain (translating WorkshopError (observes Some)) (\<lambda>_. if held then fail_with StateConflictError else
     chain (changes (write_file [] lock_path)) (\<lambda>_.
     chain (changes (write_file note lock_path)) (\<lambda>_. body))))))))"

datatype command =
    List_scenarios
  | Status
  | Start string
  | Verify string bool
  | Reset string
  | Fallback string
  | Diff string "string option"
  | Attempts string
  | Resume string string
  | Resync string

definition locked :: "command \<Rightarrow> bool" where
  "locked c = (case c of Start _ \<Rightarrow> True | Verify _ _ \<Rightarrow> True | Reset _ \<Rightarrow> True | Resume _ _ \<Rightarrow> True | Diff _ _ \<Rightarrow> True
     | Attempts _ \<Rightarrow> True | _ \<Rightarrow> False)"

text \<open>What a run reads from outside the repository.\<close>

record invocation =
  iv_machine :: machine
  iv_host :: host
  iv_launcher :: launcher
  iv_observe :: "check_result list \<Rightarrow> pyval list"
  iv_now :: string
  iv_later :: string
  iv_stamp :: string
  iv_git :: "git_identity option"
  iv_held :: bool
  iv_note :: string

definition quiet :: "'a program \<Rightarrow> unit program" where
  "quiet m = chain m (\<lambda>_. give ())"

definition handler :: "invocation \<Rightarrow> command \<Rightarrow> unit program" where
  "handler v c = (let mc = iv_machine v in case c of
      List_scenarios \<Rightarrow> quiet (cmd_list mc)
    | Status \<Rightarrow> quiet (cmd_status mc)
    | Start i \<Rightarrow> cmd_start mc (iv_now v) (iv_git v) True i
    | Verify i recording \<Rightarrow>
        quiet (cmd_verify mc (iv_host v) (iv_launcher v) (iv_observe v) (iv_now v) (iv_later v) (iv_stamp v) recording i)
    | Reset i \<Rightarrow> quiet (cmd_reset mc (iv_now v) (iv_stamp v) i)
    | Fallback i \<Rightarrow> quiet (cmd_fallback mc i)
    | Diff i selected \<Rightarrow> quiet (cmd_diff mc selected i)
    | Attempts i \<Rightarrow> quiet (cmd_attempts mc i)
    | Resume i a \<Rightarrow> cmd_resume mc (iv_now v) (iv_git v) i a
    | Resync i \<Rightarrow> cmd_resync mc i)"

definition run_main :: "invocation \<Rightarrow> command \<Rightarrow> unit program" where
  "run_main v c =
     chain (asks (\<lambda>t. is_regular t catalogue_path)) (\<lambda>found. if \<not> found then fail_with WorkshopError else
     if locked c then lifecycle_lock (iv_held v) (iv_note v) (handler v c) else handler v c)"

text \<open>An exception that is not the runner's own ends the interpreter with 1; a killed process has no exit code.\<close>

fun failure_code :: "failure \<Rightarrow> int option" where
  "failure_code WorkshopError = Some 1"
| "failure_code ArtifactError = Some 5"
| "failure_code StateConflictError = Some 4"
| "failure_code PrerequisiteError = Some 6"
| "failure_code AcceptanceFailed = Some 3"
| "failure_code OSFault = Some 1"
| "failure_code TypeFault = Some 1"
| "failure_code Killed = None"

definition exit_code :: "failure + unit \<Rightarrow> int option" where
  "exit_code r = (case r of Inl e \<Rightarrow> failure_code e | Inr _ \<Rightarrow> Some 0)"

end
