(* ===== verification/RunnerLaws.thy ===== *)
theory RunnerLaws
  imports RepositoryLaws Commands
begin

text \<open>
  What the commands of the runner leave alone: those that only look change nothing, the others stay in the work
  directory of the scenario and in the state directory.
\<close>

section \<open>Looking\<close>

definition reach :: "path \<Rightarrow> unit program" where
  "reach p = chain (resolve_under_root p) (\<lambda>_. give ())"

lemma chain_resolve [straight]: "chain (resolve_under_root p) f = chain (reach p) (\<lambda>_. f p)"
  by (simp add: reach_def chain_def resolve_under_root_def give_def fun_eq_iff)

lemma moves_resolve [moving]: "orderly R \<Longrightarrow> moves R (resolve_under_root p)"
  by (simp add: moves_def resolve_under_root_def orderly_refl)

lemma moves_reach [moving]: "orderly R \<Longrightarrow> moves R (reach p)"
  unfolding reach_def by (intro moving)

lemma moves_sha256_file [moving]: "orderly R \<Longrightarrow> moves R (sha256_file mc p)"
  unfolding sha256_file_def by (intro moving)

lemma moves_read_bytes [moving]: "orderly R \<Longrightarrow> moves R (read_bytes_checked p)"
  unfolding read_bytes_checked_def by (intro moving)

lemma moves_read_json [moving]: "orderly R \<Longrightarrow> moves R (read_json mc p n)"
  by (rule moves_branch [where ?m1.0 = "fail_with ArtifactError"]) (auto simp: read_json_def fail_with_def intro!: moving split: pyval.splits)

lemma moves_load_state [moving]: "orderly R \<Longrightarrow> moves R (load_state mc)"
  unfolding load_state_def by (intro moving)

lemma moves_tree_record [moving]: "orderly R \<Longrightarrow> moves R (tree_record mc base p n)"
  unfolding tree_record_def Let_def by (intro moving)

lemma moves_tree_records [moving]: "orderly R \<Longrightarrow> moves R (tree_records mc base ps n)"
  by (induction ps arbitrary: n) (auto intro!: moving)

lemma moves_work_tree_sha256 [moving]: "orderly R \<Longrightarrow> moves R (work_tree_sha256 mc p)"
  unfolding work_tree_sha256_def by (intro moving)

lemma moves_target_path [moving]: "orderly R \<Longrightarrow> moves R (target_path_of g i)"
  unfolding target_path_of_def by (intro moving)

lemma moves_backup_path [moving]: "orderly R \<Longrightarrow> moves R (backup_path_of g i)"
  unfolding backup_path_of_def by (intro moving)

lemma moves_created_dir_path [moving]: "orderly R \<Longrightarrow> moves R (created_dir_path_of g i)"
  unfolding created_dir_path_of_def by (intro moving)

lemma moves_work_dir_path [moving]: "orderly R \<Longrightarrow> moves R (work_dir_path_of i)"
  unfolding work_dir_path_of_def by (intro moving)

lemma moves_pre_start_path [moving]: "orderly R \<Longrightarrow> moves R (pre_start_work_path_of i)"
  unfolding pre_start_work_path_of_def by (intro moving)

lemma moves_inspect [moving]: "orderly R \<Longrightarrow> moves R (inspect_work_directory i)"
  unfolding inspect_work_directory_def by (intro moving)

lemma moves_target_status [moving]: "orderly R \<Longrightarrow> moves R (target_status mc i g)"
  unfolding target_status_def by (intro moving)

lemma moves_statuses [moving]: "orderly R \<Longrightarrow> moves R (statuses mc i gs)"
  by (induction gs) (auto intro!: moving)

lemma moves_any_changed [moving]: "orderly R \<Longrightarrow> moves R (any_changed mc i gs)"
  by (induction gs) (auto intro!: moving)

lemma moves_still_files [moving]: "orderly R \<Longrightarrow> moves R (still_files i gs)"
  by (induction gs) (auto intro!: moving)

lemma moves_collect [moving]: "orderly R \<Longrightarrow> moves R (collect_attempt_files mc s)"
  unfolding collect_attempt_files_def Let_def by (intro moving)

lemma moves_capture_entry [moving]: "orderly R \<Longrightarrow> moves R (capture_entry mc i p n)"
  unfolding capture_entry_def by (intro moving)

lemma moves_capture_entries [moving]: "orderly R \<Longrightarrow> moves R (capture_entries mc i ps n)"
  by (induction ps arbitrary: n) (auto intro!: moving)

lemma moves_capture [moving]: "orderly R \<Longrightarrow> moves R (capture_work_tree mc i)"
  unfolding capture_work_tree_def by (intro moving)

lemma moves_record_directory [moving]: "orderly R \<Longrightarrow> moves R (record_directory mc s)"
  unfolding record_directory_def by (intro moving)

lemma moves_records_for_archive [moving]: "orderly R \<Longrightarrow> moves R (records_for_archive mc s)"
  unfolding records_for_archive_def by (intro moving)

lemma moves_attempt_metadata [moving]: "orderly R \<Longrightarrow> moves R (attempt_metadata mc now s)"
  unfolding attempt_metadata_def by (intro moving)

lemma moves_whole_tree_needed [moving]: "orderly R \<Longrightarrow> moves R (whole_tree_needed s)"
  unfolding whole_tree_needed_def by (intro moving)

lemma moves_sizes_fit [moving]: "orderly R \<Longrightarrow> moves R (sizes_fit ps n)"
  by (induction ps arbitrary: n) (auto intro!: moving)

lemma moves_load_attempt [moving]: "orderly R \<Longrightarrow> moves R (load_attempt mc i a)"
  unfolding load_attempt_def by (intro moving)

lemma moves_load_manifest [moving]: "orderly R \<Longrightarrow> moves R (load_manifest mc i)"
  unfolding load_manifest_def by (intro moving)

lemma moves_load_manifests [moving]: "orderly R \<Longrightarrow> moves R (load_manifests mc is)"
  by (induction "is") (auto intro!: moving)

lemma moves_load_catalogue [moving]: "orderly R \<Longrightarrow> moves R (load_catalogue mc)"
  unfolding load_catalogue_def by (intro moving)

lemma moves_scenario_manifest [moving]: "orderly R \<Longrightarrow> moves R (scenario_manifest mc i)"
  unfolding scenario_manifest_def by (intro moving)

lemma moves_require_directory [moving]: "orderly R \<Longrightarrow> moves R (require_directory p)"
  unfolding require_directory_def by (intro moving)

lemma moves_validate [moving]: "orderly R \<Longrightarrow> moves R (validate_scenario_artifacts mc m)"
  unfolding validate_scenario_artifacts_def require_artifact_def require_payload_def by (intro moving)

lemma moves_check_imports [moving]: "orderly R \<Longrightarrow> moves R (check_required_imports mc m)"
  unfolding check_required_imports_def by (intro moving)

lemma moves_definition_hashes [moving]: "orderly R \<Longrightarrow> moves R (definition_hashes mc i)"
  unfolding definition_hashes_def by (intro moving)

lemma moves_check_definition [moving]: "orderly R \<Longrightarrow> moves R (check_definition_unchanged mc s)"
  unfolding check_definition_unchanged_def by (intro moving)

lemma moves_refuse_active [moving]: "orderly R \<Longrightarrow> moves R (refuse_active mc)"
  unfolding refuse_active_def by (intro moving)

lemma moves_refuse_other [moving]: "orderly R \<Longrightarrow> moves R (refuse_other mc i)"
  unfolding refuse_other_def explain_unknown_scenario_def by (intro moving)

lemma moves_active_attempt [moving]: "orderly R \<Longrightarrow> moves R (active_attempt mc i)"
  unfolding active_attempt_def by (intro moving)

lemma moves_run_evidence [moving]: "orderly R \<Longrightarrow> moves R (run_evidence_check mc c)"
  unfolding run_evidence_check_def by (intro moving)

lemma moves_first_record_path [moving]: "orderly R \<Longrightarrow> moves R (first_record_path ps)"
  by (induction ps) (auto intro!: moving)

text \<open>Commands that only look.\<close>

lemma looks_list: "orderly R \<Longrightarrow> moves R (cmd_list mc)"
proof -
  assume R: "orderly R"
  then have "moves R (validate_all mc c)" for c by (induction c) (auto intro!: moving)
  with R show ?thesis unfolding cmd_list_def by (intro moving)
qed

lemma looks_status: "orderly R \<Longrightarrow> moves R (cmd_status mc)"
  unfolding cmd_status_def added_files_def by (intro moving)

lemma looks_resync: "orderly R \<Longrightarrow> moves R (cmd_resync mc i)"
  unfolding cmd_resync_def by (intro moving)

lemma looks_fallback: "orderly R \<Longrightarrow> moves R (cmd_fallback mc i)"
proof -
  assume R: "orderly R"
  then have "moves R (file_sizes ps)" for ps by (induction ps) (auto intro!: moving)
  with R show ?thesis unfolding cmd_fallback_def by (intro moving)
qed

lemma looks_attempts: "orderly R \<Longrightarrow> moves R (cmd_attempts mc i)"
proof -
  assume R: "orderly R"
  then have "moves R (list_attempts mc i ps)" for i ps by (induction ps) (auto intro!: moving simp: list_attempt_def)
  with R show ?thesis unfolding cmd_attempts_def by (intro moving)
qed

lemma looks_diff: "orderly R \<Longrightarrow> moves R (cmd_diff mc selected i)"
proof -
  assume R: "orderly R"
  then have "moves R (baseline_sources mc gs xs)" for gs xs by (induction xs) (auto intro!: moving)
  moreover from R have "moves R (compare_file a b c k)" for a b c k
    unfolding compare_file_def content_at_def current_path_def Let_def by (intro moving)
  with R have "moves R (compare_files a b c ks)" for a b c ks by (induction ks) (auto intro!: moving)
  ultimately show ?thesis unfolding cmd_diff_def using R by (intro moving)
qed

end
