(* ===== verification/PathLaws.thy ===== *)
theory PathLaws
  imports Manifests
begin

text \<open>
  Laws of the path checks: splitting and joining, and exactly which texts the runner accepts as paths.
\<close>

lemma split_nonempty: "split_char c s \<noteq> []"
  by (induction s) (auto split: list.splits)

lemma split_separated: "w \<in> set (split_char c s) \<Longrightarrow> c \<notin> set w"
  by (induction s arbitrary: w) (auto split: if_splits list.splits)

lemma split_subset: "w \<in> set (split_char c s) \<Longrightarrow> x \<in> set w \<Longrightarrow> x \<in> set s"
proof (induction s arbitrary: w)
  case (Cons y s)
  then show ?case by (cases "split_char c s") (fastforce split: if_splits)+
qed simp

lemma safe_slash: "safe_path_char slash"
  by (simp add: safe_path_char_def slash_def)

lemma join_Cons: "ws \<noteq> [] \<Longrightarrow> join_char c (w # ws) = w @ c # join_char c ws"
  by (cases ws) simp_all

lemma join_split: "join_char c (split_char c s) = s"
proof (induction s)
  case (Cons x s)
  then show ?case using split_nonempty [of c s] by (cases "split_char c s"; cases "tl (split_char c s)") (auto simp: join_Cons)
qed simp

lemma split_append: "c \<notin> set w \<Longrightarrow> split_char c (w @ c # s) = w # split_char c s"
  by (induction w) auto

lemma split_single: "c \<notin> set w \<Longrightarrow> split_char c w = [w]"
  by (induction w) auto

lemma split_join: "ws \<noteq> [] \<Longrightarrow> (\<And>w. w \<in> set ws \<Longrightarrow> c \<notin> set w) \<Longrightarrow> split_char c (join_char c ws) = ws"
proof (induction ws)
  case (Cons w ws)
  then show ?case by (cases "ws = []") (simp_all add: join_Cons split_append split_single)
qed simp

lemma split_slashes: "split_char c (replicate n c) = replicate (Suc n) []"
  by (induction n) simp_all

lemma split_join_slashes:
  "ws \<noteq> [] \<Longrightarrow> (\<And>w. w \<in> set ws \<Longrightarrow> c \<notin> set w) \<Longrightarrow>
    split_char c (join_char c ws @ replicate n c) = ws @ replicate n []"
proof (induction ws)
  case (Cons w ws)
  show ?case
  proof (cases "ws = []")
    case True
    with Cons.prems show ?thesis
      by (cases n) (simp_all add: split_single split_append split_slashes)
  next
    case False
    with Cons show ?thesis by (simp add: join_Cons split_append)
  qed
qed simp

definition plain_name :: "string \<Rightarrow> bool" where
  "plain_name w \<longleftrightarrow> w \<noteq> [] \<and> w \<noteq> ''.'' \<and> slash \<notin> set w"

definition safe_name :: "string \<Rightarrow> bool" where
  "safe_name w \<longleftrightarrow> w \<noteq> [] \<and> w \<noteq> ''.'' \<and> w \<noteq> ''..'' \<and> list_all (\<lambda>c. is_alnum c \<or> c \<in> set ''._-'') w"

lemma pure_path_plain: "list_all plain_name (pure_path s)"
  by (auto simp: list_all_iff pure_path_def plain_name_def dest: split_separated)

lemma pure_path_posix:
  assumes "list_all plain_name p"
  shows "pure_path (posix p @ replicate n slash) = p"
proof (cases "p = []")
  case True
  have "split_char slash (CHR ''.'' # replicate n slash) = ''.'' # replicate n []"
    by (cases n) (auto simp: slash_def split_slashes)
  then show ?thesis using True by (simp add: posix_def pure_path_def)
next
  case False
  have "filter (\<lambda>w. w \<noteq> [] \<and> w \<noteq> ''.'') p = p"
    using assms by (auto simp: list_all_iff plain_name_def intro: filter_True)
  with False assms show ?thesis by (simp add: posix_def pure_path_def split_join_slashes list_all_iff plain_name_def)
qed

lemma pure_posix: "list_all plain_name p \<Longrightarrow> pure_path (posix p) = p"
  using pure_path_posix [of p 0] by simp

lemma rstrip_slashes: "\<exists>n. s = rstrip_slash s @ replicate n slash"
proof -
  have "s = rev (dropWhile (\<lambda>c. c = slash) (rev s)) @ rev (takeWhile (\<lambda>c. c = slash) (rev s))"
    by (metis rev_append rev_rev_ident takeWhile_dropWhile_id)
  moreover have "takeWhile (\<lambda>c. c = slash) (rev s) = replicate (length (takeWhile (\<lambda>c. c = slash) (rev s))) slash"
    by (rule replicate_length_same [symmetric]) (auto dest: set_takeWhileD)
  ultimately have "s = rstrip_slash s @ replicate (length (takeWhile (\<lambda>c. c = slash) (rev s))) slash"
    unfolding rstrip_slash_def by (metis rev_replicate)
  then show ?thesis ..
qed

lemma rstrip_posix: "list_all plain_name p \<Longrightarrow> rstrip_slash (posix p @ replicate n slash) = posix p"
proof -
  assume p: "list_all plain_name p"
  have "posix p \<noteq> [] \<and> last (posix p) \<noteq> slash"
  proof (cases p rule: rev_cases)
    case (snoc ws w)
    have "join_char slash (ws @ [w]) = (if ws = [] then w else join_char slash ws @ slash # w)"
      by (induction ws) (auto simp: join_Cons)
    with p snoc show ?thesis by (auto simp: posix_def plain_name_def dest: last_in_set)
  qed (simp add: posix_def slash_def)
  then obtain s c where s: "posix p = s @ [c]" "c \<noteq> slash" by (metis append_butlast_last_id)
  have "dropWhile (\<lambda>c. c = slash) (replicate n slash @ c # rev s) = c # rev s" using s(2) by (induction n) auto
  then show ?thesis by (simp add: rstrip_slash_def s)
qed

lemma safe_plain: "safe_name w \<Longrightarrow> plain_name w"
  by (auto simp: safe_name_def plain_name_def list_all_iff slash_def is_alnum_def is_upper_def is_lower_def is_digit_def)

text \<open>
  A text is accepted as a path exactly if it consists of safe names joined by slashes, possibly followed by slashes, or
  is a dot for the empty path.
\<close>

lemma check_relpath_only: 
  assumes "check_relpath s = Inr p"
  shows "list_all safe_name p \<and> (\<exists>n. s = posix p @ replicate n slash)"
proof -
  from assms have p: "p = pure_path s" "posix p = rstrip_slash s" "list_all safe_path_char s" "''..'' \<notin> set p"
    by (auto simp: check_relpath_def Let_def list_ex_iff split: if_splits)
  have "safe_name w" if w: "w \<in> set p" for w
  proof -
    from w p(1) have split: "w \<in> set (split_char slash s)" "w \<noteq> []" "w \<noteq> ''.''" by (auto simp: pure_path_def)
    from split_separated [OF split(1)] split_subset [OF split(1)] p(3)
    have "list_all (\<lambda>c. is_alnum c \<or> c \<in> set ''._-'') w" by (auto simp: list_all_iff safe_path_char_def slash_def)
    with split w p(4) show ?thesis by (auto simp: safe_name_def)
  qed
  then show ?thesis using rstrip_slashes [of s] p(2) by (simp add: list_all_iff)
qed

lemma safe_char_cases: "safe_path_char c \<Longrightarrow> c \<noteq> CHR 0x5C \<and> c \<noteq> CHR '':'' \<and> \<not> py_space c"
  by (auto simp: safe_path_char_def is_alnum_def is_upper_def is_lower_def is_digit_def py_space_def)

lemma strip_spaceless: "list_all (\<lambda>c. \<not> py_space c) s \<Longrightarrow> strip s = s"
proof -
  have drop: "dropWhile py_space s = s" if "list_all (\<lambda>c. \<not> py_space c) s" for s using that by (cases s) auto
  assume "list_all (\<lambda>c. \<not> py_space c) s"
  then show ?thesis unfolding strip_def by (simp add: drop list_all_iff)
qed

lemma safe_posix: "list_all safe_name p \<Longrightarrow> list_all safe_path_char (posix p)"
proof -
  have "list_all safe_path_char (join_char slash p)" if "list_all safe_name p"
    using that
  proof (induction p)
    case (Cons w p)
    then have "list_all safe_path_char w" by (auto simp: safe_name_def safe_path_char_def list_all_iff)
    with Cons show ?case by (cases "p = []") (auto simp: join_Cons safe_slash)
  qed simp
  then show "list_all safe_name p \<Longrightarrow> ?thesis" by (simp add: posix_def safe_path_char_def)
qed

lemma check_relpath_accepts:
  assumes p: "list_all safe_name p"
  shows "check_relpath (posix p @ replicate n slash) = Inr p"
proof -
  let ?s = "posix p @ replicate n slash"
  have safe: "list_all safe_path_char ?s" using safe_posix [OF p] by (auto simp: list_all_iff safe_slash)
  have no_back: "CHR 0x5C \<notin> set ?s" using safe safe_char_cases by (fastforce simp: list_all_iff)
  have no_colon: "\<not> (length ?s > 1 \<and> ?s ! 1 = CHR '':'')"
    using safe safe_char_cases unfolding list_all_length by fastforce
  have stripped: "strip ?s = ?s" using safe safe_char_cases by (intro strip_spaceless) (auto simp: list_all_iff)
  note chars = no_back no_colon stripped
  have plain: "list_all plain_name p" using p by (auto simp: list_all_iff safe_plain)
  have head: "posix p \<noteq> [] \<and> hd (posix p) \<noteq> slash"
  proof (cases p)
    case (Cons w ws)
    with plain have "w \<noteq> []" "slash \<notin> set w" by (auto simp: plain_name_def)
    then show ?thesis using Cons by (cases ws) (auto simp: posix_def dest: hd_in_set)
  qed (simp add: posix_def slash_def)
  have "\<not> list_ex (\<lambda>w. w = ''..'' \<or> w = ''.'') p" using p by (auto simp: list_ex_iff list_all_iff safe_name_def)
  then show ?thesis
    using safe chars head pure_path_posix [OF plain, of n] rstrip_posix [OF plain, of n] unfolding check_relpath_def by (simp add: Let_def)
qed

lemma check_relpath_exact:
  "check_relpath s = Inr p \<longleftrightarrow> list_all safe_name p \<and> (\<exists>n. s = posix p @ replicate n slash)"
  using check_relpath_only check_relpath_accepts by blast

lemma check_relpath_pure: "check_relpath s = Inr p \<Longrightarrow> pure_path s = p"
  by (auto simp: check_relpath_def Let_def split: if_splits)

lemma check_confined_exact:
  "check_confined s parent itself = Inr p \<longleftrightarrow> check_relpath s = Inr p \<and> (strict_prefix parent p \<or> itself \<and> p = parent)"
  by (auto simp: check_confined_def split: sum.splits if_splits)

end
