(* ===== verification/ConfinementLaws.thy ===== *)
theory ConfinementLaws
  imports RunnerLaws PathLaws
begin

text \<open>
  Where the commands of the runner change the repository: every step has a region, and a command stays in the work
  directory of its scenario and the state directory.
\<close>

section \<open>Regions\<close>

definition in_work :: "string \<Rightarrow> path \<Rightarrow> bool" where
  "in_work i p \<longleftrightarrow> prefix (work_dir_rel i) p"

definition in_home :: "path \<Rightarrow> bool" where
  "in_home p \<longleftrightarrow> prefix state_dir_rel p"

definition in_area :: "string \<Rightarrow> path \<Rightarrow> bool" where
  "in_area i p \<longleftrightarrow> in_work i p \<or> in_home p"

definition in_saved :: "path \<Rightarrow> bool" where
  "in_saved p \<longleftrightarrow> p = state_dir_rel \<or> p = state_file_rel \<or> (\<exists>n. p = state_dir_rel @ [temporary_name n])"

definition in_backups :: "string \<Rightarrow> path \<Rightarrow> bool" where
  "in_backups i p \<longleftrightarrow> prefix (backup_dir_rel i) p"

definition in_stash :: "string \<Rightarrow> path \<Rightarrow> bool" where
  "in_stash i p \<longleftrightarrow> in_work i p \<or> in_backups i p \<or> (p \<noteq> [] \<and> prefix p (backup_dir_rel i))"

definition in_archives :: "path \<Rightarrow> bool" where
  "in_archives p \<longleftrightarrow> p = state_dir_rel \<or> prefix (state_dir_rel @ [''attempts'']) p \<or> prefix (state_dir_rel @ [''evidence'']) p"

definition in_restored :: "string \<Rightarrow> path \<Rightarrow> bool" where
  "in_restored i p \<longleftrightarrow> in_work i p \<or> in_backups i p"

abbreviation confined_to :: "string \<Rightarrow> (path \<Rightarrow> bool) \<Rightarrow> 'a program \<Rightarrow> bool" where
  "confined_to i A m \<equiv> moves (stays (work_dir_rel i) A) m"

lemmas dirs = state_dir_rel_def scenario_root_def work_dir_rel_def backup_dir_rel_def attempt_dir_rel_def state_file_rel_def
  pre_start_work_dir_rel_def

lemma clear_work: "(\<And>p. A p \<Longrightarrow> in_work i p \<or> in_home p) \<Longrightarrow> clear (work_dir_rel i) A"
  unfolding clear_def in_work_def in_home_def
proof (intro allI impI notI)
  fix p
  assume A: "\<And>p. A p \<Longrightarrow> prefix (work_dir_rel i) p \<or> prefix state_dir_rel p" "A p" "strict_prefix p (work_dir_rel i)"
  then consider "prefix (work_dir_rel i) p" | "prefix state_dir_rel p" by blast
  then show False
  proof cases
    case 1
    with A(3) show ?thesis by (meson prefix_order.leD)
  next
    case 2
    with A(3) have "prefix state_dir_rel (work_dir_rel i)" by (meson prefix_order.less_imp_le prefix_order.trans)
    then show ?thesis by (simp add: dirs)
  qed
qed

lemma home_backup: "prefix (backup_dir_rel i) p \<Longrightarrow> in_home p" "p \<noteq> [] \<Longrightarrow> prefix p (backup_dir_rel i) \<Longrightarrow> in_home p"
  by (auto simp: dirs in_home_def prefix_def Cons_eq_append_conv append_eq_Cons_conv)

lemma home_regions: "in_saved p \<Longrightarrow> in_home p" "in_archives p \<Longrightarrow> in_home p" "in_backups i p \<Longrightarrow> in_home p"
  by (auto simp: in_saved_def in_archives_def in_backups_def home_backup; auto simp: in_home_def dirs prefix_def)+

lemma clear_regions [simp]:
  "clear (work_dir_rel i) (in_work i)" "clear (work_dir_rel i) in_saved" "clear (work_dir_rel i) (in_stash i)"
  "clear (work_dir_rel i) (\<lambda>p. in_work i p \<or> in_archives p)" "clear (work_dir_rel i) (in_restored i)"
  "clear (work_dir_rel i) (\<lambda>p. p = state_file_rel)" "clear (work_dir_rel i) in_home" "clear (work_dir_rel i) (in_area i)"
  by (rule clear_work, auto simp: in_stash_def in_restored_def in_area_def home_backup home_regions in_saved_def intro: home_regions(1))+

lemma in_work_extends: "in_work i p \<Longrightarrow> prefix p q \<Longrightarrow> in_work i q"
  unfolding in_work_def by (rule prefix_order.trans)

lemma check_confined_works:
  "check_confined s parent itself = Inr p \<Longrightarrow> strict_prefix parent p \<or> (itself \<and> p = parent)"
  by (auto simp: check_confined_def split: sum.splits if_splits)

section \<open>The state file\<close>

lemma confined_save: "confined_to i in_saved (save_state mc s)"
  unfolding save_state_def straight
  by (intro moving confined_atomic_write)
    (auto simp: in_saved_def state_file_rel_def state_dir_rel_def prefix_Cons strict_prefix_def)

lemma confined_unlink_present: "clear a A \<Longrightarrow> A p \<Longrightarrow> moves (stays a A) (unlink_present p)"
  unfolding unlink_present_def
  by (intro moves_changes orderly_stays) (auto intro: stays_unlink orderly_refl [OF orderly_stays] split: if_splits)

lemma confined_clear: "confined_to i (\<lambda>p. p = state_file_rel) clear_state"
  unfolding clear_state_def straight by (intro moving confined_unlink_present) simp_all

section \<open>Restoring\<close>

lemma confined_remove_work_entry:
  assumes "clear a A" "\<And>q. prefix p q \<Longrightarrow> A q"
  shows "moves (stays a A) (remove_work_entry p)"
proof -
  have "A p" using assms(2) by simp
  then show ?thesis unfolding remove_work_entry_def
    by (intro moving confined_remove_tree moves_changes assms) (auto intro: stays_unlink assms)
qed

lemma confined_discard: "confined_to i (in_restored i) (discard_backups i)"
  unfolding discard_backups_def straight
  by (intro moving confined_remove_tree) (simp_all add: in_restored_def in_backups_def)

lemmas places = work_dir_path_of_def pre_start_work_path_of_def target_path_of_def backup_path_of_def created_dir_path_of_def

lemma pre_start_in_backups: "prefix (pre_start_work_dir_rel i) p \<Longrightarrow> in_backups i p"
  by (auto simp: in_backups_def pre_start_work_dir_rel_def prefix_def)

lemma confined_restore_work: "confined_to i (in_restored i) (restore_work_directory mc (s\<lparr>ss_id := i\<rparr>))"
  unfolding restore_work_directory_def places straight scenario_state.simps
  by (intro moving confined_remove_work_entry confined_discard moves_changes stays_rename; (assumption | simp))
    (simp_all add: confined_discard in_restored_def in_work_def pre_start_in_backups)

lemma confined_write_below:
  assumes "strict_prefix (work_dir_rel i) p"
  shows "confined_to i (in_work i) (atomic_write dm p d m)"
proof (rule confined_atomic_write)
  show "in_work i p" using assms by (simp add: in_work_def strict_prefix_def)
  show "in_work i (butlast p @ [temporary_name n])" for n
    using assms by (auto simp: in_work_def strict_prefix_butlast intro: prefix_prefix)
  show "in_work i q \<or> strict_prefix q (work_dir_rel i)" if "strict_prefix q p" for q
    using assms that by (metis in_work_def prefix_order.le_less prefix_order.less_imp_le prefix_same_cases)
qed simp

lemma confined_restore_existing:
  assumes "strict_prefix (work_dir_rel i) p"
  shows "confined_to i (in_restored i) (restore_existing mc s g p)"
  unfolding restore_existing_def places straight
  by (intro moving moves_stays_mono [OF confined_write_below [OF assms]]) (simp add: in_restored_def)

lemma confined_restore_target: "confined_to i (in_restored i) (restore_target mc (s\<lparr>ss_id := i\<rparr>) g)"
proof (cases "check_confined (tg_path g) (work_dir_rel i) False")
  case (Inl e)
  then show ?thesis by (auto simp: restore_target_def places straight intro!: moving)
next
  case (Inr p)
  then have p: "strict_prefix (work_dir_rel i) p" using check_confined_works by fastforce
  then have "in_restored i p" by (simp add: in_restored_def in_work_def strict_prefix_def)
  with p Inr show ?thesis unfolding restore_target_def places straight scenario_state.simps
    by (simp add: straight) (intro moving confined_restore_existing moves_changes stays_unlink; (assumption | simp))
qed

lemma confined_remove_created_dir: "confined_to i (in_restored i) (remove_created_dir i rel)"
proof (cases "check_confined rel (work_dir_rel i) True")
  case (Inl e)
  then show ?thesis by (auto simp: remove_created_dir_def places straight intro!: moving)
next
  case (Inr p)
  then have "prefix (work_dir_rel i) p" using check_confined_works by fastforce
  then have "prefix p q \<Longrightarrow> in_restored i q" for q by (auto simp: in_restored_def in_work_def)
  with Inr show ?thesis unfolding remove_created_dir_def places
    by (simp add: straight) (intro moving confined_remove_tree; (assumption | simp))
qed

lemma confined_restore: "ss_id s = i \<Longrightarrow> confined_to i (in_restored i) (restore_scenario mc s)"
proof -
  assume i: "ss_id s = i"
  then have s: "s\<lparr>ss_id := i\<rparr> = s" by simp
  have "confined_to i (in_restored i) (restore_targets mc s)"
    unfolding restore_targets_def remove_created_dirs_def
    by (intro moving confined_restore_target [where s = s and i = i, unfolded s] )
      (auto simp: i intro!: moving confined_remove_created_dir confined_discard)
  with confined_restore_work [of i mc s] show ?thesis by (simp add: restore_scenario_def s)
qed

definition in_undone :: "string \<Rightarrow> path \<Rightarrow> bool" where
  "in_undone i p \<longleftrightarrow> in_restored i p \<or> p = state_file_rel"

lemma confined_rollback: "ss_id s = i \<Longrightarrow> confined_to i (in_undone i) (rollback mc s)"
  unfolding rollback_def
  by (intro moving moves_stays_mono [OF confined_restore] moves_stays_mono [OF confined_clear]) (auto simp: in_undone_def)

section \<open>Staging\<close>

lemma confined_attempt: "ss_id s = i \<Longrightarrow> confined_to i (in_area i) m \<Longrightarrow> confined_to i (in_area i) (attempt mc s m)"
  unfolding attempt_def
  by (intro moving moves_stays_mono [OF confined_rollback])
    (auto simp: in_undone_def in_restored_def in_area_def home_regions in_saved_def intro: home_regions(1))

lemma confined_save_area: "confined_to i (in_area i) (save_state mc s)"
  by (rule moves_stays_mono [OF confined_save]) (simp add: in_area_def home_regions)

lemma confined_move_work_away: "confined_to i (in_stash i) (move_work_away mc i)"
  unfolding move_work_away_def places straight
  by (intro moving confined_make_directories moves_changes stays_rename; (assumption | simp))
    (auto simp: in_stash_def in_work_def pre_start_in_backups pre_start_work_dir_rel_def)

lemma stash_in_area: "in_stash i p \<Longrightarrow> in_area i p"
  by (auto simp: in_stash_def in_area_def home_regions home_backup)

lemma confined_preserve: "ss_id s = i \<Longrightarrow> confined_to i (in_area i) (preserve_work mc s)"
  unfolding preserve_work_def Let_def
  by (intro moving confined_attempt confined_save_area)
    (auto intro!: moves_stays_mono [OF confined_move_work_away] stash_in_area moving)

lemma confined_apply_payload: "confined_to i (in_work i) (apply_payload mc i item g)"
proof (cases "check_confined (tg_path g) (work_dir_rel i) False")
  case (Inl e)
  then show ?thesis by (auto simp: apply_payload_def places straight intro!: moving)
next
  case (Inr p)
  then have p: "strict_prefix (work_dir_rel i) p" using check_confined_works by fastforce
  with Inr show ?thesis unfolding apply_payload_def places
    by (simp add: straight) (intro moving confined_write_below; (assumption | simp))
qed

lemma confined_apply_payloads: "confined_to i (in_work i) (apply_payloads mc i xs)"
proof (induction xs)
  case (Cons x xs)
  then show ?case by (cases x) (auto intro!: moving confined_apply_payload)
qed (auto intro: moving)

lemma preserve_id: "preserve_work mc s w = (Inr s', w') \<Longrightarrow> ss_id s' = ss_id s"
  by (auto simp: preserve_work_def Let_def give_def split: if_splits elim!: chain_works)

lemma moves_chain_post:
  assumes "orderly R" "moves R m" "\<And>a w w'. m w = (Inr a, w') \<Longrightarrow> moves R (f a)"
  shows "moves R (chain m f)"
  unfolding moves_def
proof
  fix w :: world
  obtain r w' where m: "m w = (r, w')" by fastforce
  from assms(2) this have "R (wd_tree w) (wd_tree w')" by (rule movesD)
  with assms(1,3) m show "R (wd_tree w) (wd_tree (snd (chain m f w)))"
    by (cases r) (auto simp: chain_def moves_def intro: orderly_trans)
qed

lemma confined_apply_area: "confined_to i (in_area i) (apply_payloads mc i xs)"
  by (rule moves_stays_mono [OF confined_apply_payloads]) (simp add: in_area_def)

lemma confined_stage:
  assumes "ss_id s = i"
  shows "confined_to i (in_area i) (stage mc m activate s)"
  unfolding stage_def Let_def
proof (intro moves_chain [OF orderly_stays confined_save_area] moves_chain_post [OF orderly_stays confined_preserve [OF assms]])
  fix s1 w w' assume "preserve_work mc s w = (Inr s1, w')"
  then have "ss_id s1 = i" using assms by (simp add: preserve_id)
  with assms show "confined_to i (in_area i)
      (chain (attempt mc s1 (apply_payloads mc (ss_id s) (zip (mf_stage m) (ss_targets s1)))) (\<lambda>gs.
        attempt mc (s1\<lparr>ss_targets := gs, ss_phase := (if activate then Active else ss_phase s1)\<rparr>)
          (save_state mc (s1\<lparr>ss_targets := gs, ss_phase := (if activate then Active else ss_phase s1)\<rparr>))))"
    by (intro moves_chain orderly_stays confined_attempt confined_apply_area confined_save_area) (simp_all add: confined_apply_area)
qed

lemma parse_manifest_id: "parse_manifest d i = Inr m \<Longrightarrow> mf_id m = i"
  by (auto simp: parse_manifest_def map_sum_Inr split: sum.splits if_splits prod.splits)

lemma checked_works: "checked r w = (Inr a, w') \<longleftrightarrow> r = Inr a \<and> w' = w"
  by (auto simp: checked_def)

lemma load_manifest_id: "load_manifest mc i w = (Inr m, w') \<Longrightarrow> mf_id m = i"
  unfolding load_manifest_def straight
  by (auto elim!: chain_works simp: checked_works fail_with_def dest: parse_manifest_id split: sum.splits if_splits)

lemma load_manifests_ids: "load_manifests mc is w = (Inr c, w') \<Longrightarrow> dict_get c i = Some m \<Longrightarrow> mf_id m = i"
proof (induction "is" arbitrary: w c)
  case (Cons j js)
  from Cons.prems(1) obtain n w1 d where n: "load_manifest mc j w = (Inr n, w1)"
    and d: "load_manifests mc js w1 = (Inr d, w')" "c = (j, n) # d"
    by (auto simp: give_def elim!: chain_works)
  with Cons.IH [OF d(1)] Cons.prems(2) load_manifest_id [OF n] show ?case by (auto split: if_splits)
qed (auto simp: give_def)

lemma scenario_manifest_id: "scenario_manifest mc i w = (Inr m, w') \<Longrightarrow> mf_id m = i"
  unfolding scenario_manifest_def load_catalogue_def straight
  by (auto elim!: chain_works simp: checked_works fail_with_def require_scenario_def dest: load_manifests_ids
      split: sum.splits option.splits)

theorem confined_start: "confined_to i (in_area i) (cmd_start mc now git activate i)"
  unfolding cmd_start_def
proof (intro moves_chain_post [OF orderly_stays moves_scenario_manifest [OF orderly_stays]])
  fix m w w' assume "scenario_manifest mc i w = (Inr m, w')"
  then have "mf_id m = i" by (rule scenario_manifest_id)
  then show "confined_to i (in_area i)
      (chain (refuse_active mc) (\<lambda>_. chain (validate_scenario_artifacts mc m) (\<lambda>_. chain (check_required_imports mc m) (\<lambda>_.
       chain (inspect_work_directory (mf_id m)) (\<lambda>existed. chain (definition_hashes mc (mf_id m)) (\<lambda>hashes.
       stage mc m activate (first_state mc now git m existed hashes)))))))"
    by (intro moving confined_stage) (simp add: first_state_def)
qed

section \<open>Archives\<close>

definition in_archived :: "string \<Rightarrow> path \<Rightarrow> bool" where
  "in_archived i p \<longleftrightarrow> in_work i p \<or> in_archives p"

lemma clear_archived [simp]: "clear (work_dir_rel i) (in_archived i)"
  unfolding in_archived_def [abs_def] by simp

definition attempts_root :: path where "attempts_root = state_dir_rel @ [''attempts'']"

lemma archive_names_under: "p \<in> set (archive_names i stamp) \<Longrightarrow> prefix attempts_root p"
  by (auto simp: archive_names_def attempts_root_def attempt_dir_rel_def)

lemma new_archive_dir_result: "new_archive_dir mc i stamp w = (Inr p, w') \<Longrightarrow> p \<in> set (archive_names i stamp)"
  unfolding new_archive_dir_def straight
  by (auto elim!: chain_works simp: asks_def give_def fail_with_def translating_works filter_eq_Cons_iff split: list.splits)

lemma under_attempts: "prefix attempts_root p \<Longrightarrow> in_archived i p"
  by (simp add: in_archived_def in_archives_def attempts_root_def)

lemma past_attempts: "prefix attempts_root p \<Longrightarrow> prefix (p @ q) x \<Longrightarrow> in_archived i x"
  by (meson append_prefixD prefix_order.trans under_attempts)

lemma above_attempts:
  assumes "prefix attempts_root p" "prefix q p" "q \<noteq> []"
  shows "in_archived i q"
proof -
  from assms(1,2) have "prefix attempts_root q \<or> strict_prefix q attempts_root"
    by (metis prefix_order.le_less prefix_same_cases)
  with assms(3) show ?thesis
    by (auto simp: in_archived_def in_archives_def attempts_root_def state_dir_rel_def strict_prefix_def prefix_Cons)
qed

lemma butlast_attempts: "p \<in> set (archive_names i stamp) \<Longrightarrow> prefix attempts_root (butlast p)"
  by (auto simp: archive_names_def attempts_root_def attempt_dir_rel_def butlast_append)

lemma confined_directories_attempts:
  "prefix attempts_root p \<Longrightarrow> confined_to i (in_archived i) (make_directories m p)"
  by (rule confined_make_directories) (auto intro: above_attempts)

lemma confined_new_archive_dir: "confined_to i (in_archived i) (new_archive_dir mc j stamp)"
  unfolding new_archive_dir_def straight
proof (intro moves_chain [OF orderly_stays moves_reach [OF orderly_stays]] moves_asking orderly_stays moves_list moves_fail)
  fix t p ps assume "filter (\<lambda>p. \<not> present t p) (archive_names j stamp) = p # ps"
  then have p: "p \<in> set (archive_names j stamp)" by (auto simp: filter_eq_Cons_iff)
  show "confined_to i (in_archived i) (chain (translating WorkshopError (chain (make_directories (mc_dir_mode mc) (butlast p)) (\<lambda>_.
           changes (make_directory (mc_dir_mode mc) p)))) (\<lambda>_. give p))"
    using p by (intro moving confined_directories_attempts butlast_attempts moves_changes stays_make_directory)
      (auto dest!: archive_names_under intro: under_attempts)
qed

lemma records_result: "records_for_archive mc s w = (Inr (Some r), w') \<Longrightarrow> prefix (state_dir_rel @ [''evidence'']) r"
  unfolding records_for_archive_def record_directory_def straight
  by (auto elim!: handlingE chain_works simp: asks_def give_def split: if_splits)

lemma in_evidence: "prefix (state_dir_rel @ [''evidence'']) p \<Longrightarrow> in_archived i p"
  by (simp add: in_archived_def in_archives_def)

lemma confined_finish:
  assumes "prefix attempts_root (ar_path a)"
  shows "confined_to i (in_archived i) (finish_attempt_archive mc s a meta)"
  unfolding finish_attempt_archive_def straight
proof (intro moves_chain [OF orderly_stays moves_reach [OF orderly_stays]] moves_chain_post [OF orderly_stays]
    moves_records_for_archive orderly_stays)
  fix records w w' assume r: "records_for_archive mc s w = (Inr records, w')"
  show "confined_to i (in_archived i) (case records of None \<Rightarrow> give meta
       | Some r \<Rightarrow> handling os_fault (chain (changes (rename_entry r (ar_path a @ [''verification'']))) (\<lambda>_. give meta))
           (\<lambda>_. give (meta @ [(''verification_warning'', VStr ''records remain'')])))"
    using r assms by (intro moving moves_changes stays_rename)
      (auto dest!: records_result intro: in_evidence past_attempts prefix_order.trans)
next
  fix meta'
  have "confined_to i (in_archived i) (atomic_write (mc_dir_mode mc) (ar_path a @ [attempt_manifest_name]) (mc_dump mc (VDict meta')) 384)"
    using assms by (intro confined_atomic_write) (auto intro: under_attempts above_attempts simp: strict_prefix_butlast)
  then show "confined_to i (in_archived i) (handling runner_error
       (chain (atomic_write (mc_dir_mode mc) (ar_path a @ [attempt_manifest_name]) (mc_dump mc (VDict meta')) 384) (\<lambda>_. give a))
       (\<lambda>_. give a))"
    by (intro moving)
qed

lemma confined_relocate: "ss_id s = i \<Longrightarrow> confined_to i (in_archived i) (relocate_work_tree mc stamp s meta)"
  unfolding relocate_work_tree_def places straight
proof (intro moves_chain_post [OF orderly_stays confined_new_archive_dir] moves_chain [OF orderly_stays] moves_reach moves_translating
    moves_stat_entry orderly_stays moves_if moves_give)
  fix dir w w' assume i: "ss_id s = i" and "new_archive_dir mc (ss_id s) stamp w = (Inr dir, w')"
  then have dir: "prefix attempts_root dir" by (auto dest!: new_archive_dir_result archive_names_under)
  show "confined_to i (in_archived i) (make_directories (mc_dir_mode mc) (butlast (dir @ work_dir_rel (ss_id s))))"
    using dir by (intro confined_directories_attempts) (auto simp: butlast_append work_dir_rel_def intro: prefix_prefix)
  show "confined_to i (in_archived i) (changes (rename_entry (work_dir_rel (ss_id s)) (dir @ work_dir_rel (ss_id s))))"
    using i by (intro moves_changes stays_rename orderly_stays)
      (auto simp: in_archived_def [of i] in_work_def, (meson past_attempts [OF dir, unfolded in_archived_def in_work_def])+)
  show "confined_to i (in_archived i) (finish_attempt_archive mc s \<lparr>ar_path = dir, ar_whole = True\<rparr> meta)"
    by (intro confined_finish) (simp add: dir)
qed

lemma confined_archive_file:
  assumes "dir \<in> set (archive_names j stamp)"
  shows "confined_to i (in_archived i) (archive_file mc dir p)"
proof -
  have dir: "prefix attempts_root dir" using assms by (rule archive_names_under)
  then have q: "in_archived i (dir @ p)" by (auto intro: under_attempts prefix_prefix)
  have "prefix attempts_root (butlast (dir @ p))"
    using dir butlast_attempts [OF assms] by (auto simp: butlast_append intro: prefix_prefix)
  then show ?thesis unfolding archive_file_def copy_file_def straight
    by (intro moving confined_directories_attempts moves_changes)
      (auto simp: q intro: stays_create_file stays_write_file stays_change_mode split: option.splits)
qed

lemma confined_archive:
  assumes "ss_id s = i"
  shows "confined_to i (in_archived i) (archive_attempt mc now stamp s)"
proof -
  have copied: "confined_to i (in_archived i) (chain (new_archive_dir mc (ss_id s) stamp) (\<lambda>dir.
     chain (each (archive_file mc dir) files) (\<lambda>_.
     chain (finish_attempt_archive mc s \<lparr>ar_path = dir, ar_whole = False\<rparr> meta) (\<lambda>a. give (Some a)))))" for files meta
  proof (intro moves_chain_post [OF orderly_stays confined_new_archive_dir])
    fix dir w w' assume "new_archive_dir mc (ss_id s) stamp w = (Inr dir, w')"
    then have dir: "dir \<in> set (archive_names (ss_id s) stamp)" by (rule new_archive_dir_result)
    show "confined_to i (in_archived i) (chain (each (archive_file mc dir) files) (\<lambda>_.
       chain (finish_attempt_archive mc s \<lparr>ar_path = dir, ar_whole = False\<rparr> meta) (\<lambda>a. give (Some a))))"
      using dir by (intro moves_chain orderly_stays moves_each confined_archive_file confined_finish moves_give)
        (auto intro: archive_names_under)
  qed
  show ?thesis unfolding archive_attempt_def using assms
    by (intro moves_chain orderly_stays moves_if moves_give moves_asks moves_pre_start_path moves_attempt_metadata
        moves_whole_tree_needed moves_collect moves_any_changed moves_records_for_archive moves_sizes_fit confined_relocate copied)
qed

lemma archived_in_area: "in_archived i p \<Longrightarrow> in_area i p"
  by (auto simp: in_archived_def in_area_def home_regions)

lemma restored_in_area: "in_restored i p \<Longrightarrow> in_area i p"
  by (auto simp: in_restored_def in_area_def home_regions)

lemma refuse_other_result: "refuse_other mc i w = (Inr s, w') \<Longrightarrow> ss_id s = i"
  unfolding refuse_other_def
  by (auto elim!: chain_works simp: give_def fail_with_def split: option.splits if_splits)

theorem confined_reset: "confined_to i (in_area i) (cmd_reset mc now stamp i)"
  unfolding cmd_reset_def
proof (intro moves_chain_post [OF orderly_stays moves_refuse_other [OF orderly_stays]])
  fix s w w' assume "refuse_other mc i w = (Inr s, w')"
  then have i: "ss_id s = i" by (rule refuse_other_result)
  have "confined_to i (in_area i) clear_state"
    by (rule moves_stays_mono [OF confined_clear]) (simp add: in_area_def in_saved_def home_regions)
  then show "confined_to i (in_area i) (chain (archive_attempt mc now stamp s) (\<lambda>a.
     chain (handling runner_error (restore_scenario mc s) (\<lambda>e. fail_with (if a = None then e else WorkshopError))) (\<lambda>_.
     chain clear_state (\<lambda>_. give a))))"
    by (intro moves_chain moves_handling moves_fail moves_give orderly_stays moves_stays_mono [OF confined_archive [OF i]]
        moves_stays_mono [OF confined_restore [OF i]] archived_in_area restored_in_area)
qed

section \<open>Resume and verify\<close>

lemma map_checked_all: "map_checked f xs = Inr ys \<Longrightarrow> y \<in> set ys \<Longrightarrow> \<exists>x \<in> set xs. f x = Inr y"
  by (induction xs arbitrary: ys) (auto simp: map_sum_Inr split: sum.splits)

lemma entry_confined:
  assumes "entry_from_json i raw = Inr x"
  shows "prefix (work_dir_rel i) (pure_path (we_path x))"
proof -
  from assms obtain p where "check_confined (we_path x) (work_dir_rel i) True = Inr p"
    by (auto simp: entry_from_json_def map_sum_Inr split: sum.splits if_splits option.splits)
  then show ?thesis by (auto simp: check_confined_exact strict_prefix_def dest: check_relpath_pure)
qed

lemma plain_work: "list_all plain_name (work_dir_rel i)"
  using pure_path_plain [of i] by (auto simp: work_dir_rel_def scenario_root_def plain_name_def slash_def)

lemma pure_path_work: "pure_path (posix (work_dir_rel i)) = work_dir_rel i"
  "pure_path (posix (butlast (work_dir_rel i))) = butlast (work_dir_rel i)"
  using plain_work [of i] by (auto intro!: pure_posix simp: list_all_iff) (meson in_set_butlastD)

lemma parse_attempt_entries:
  assumes "parse_attempt mc i meta = Inr xs" "x \<in> set xs"
  shows "in_work i (pure_path (we_path x)) \<and> (we_file x \<longrightarrow> pure_path (we_path x) \<noteq> work_dir_rel i)"
proof -
  from assms(1) obtain raws ys where ys: "map_checked (entry_from_json i) raws = Inr ys" "inventory_ok i ys" "xs = sort_key we_path ys"
    by (auto simp: parse_attempt_def split: sum.splits if_splits)
  have below: "prefix (work_dir_rel i) (pure_path (we_path y))" if "y \<in> set ys" for y
    using map_checked_all [OF ys(1) that] entry_confined by blast
  have listed: "x \<in> set ys" using assms(2) ys(3) by simp
  have "\<not> we_file x" if at_work: "pure_path (we_path x) = work_dir_rel i"
  proof
    assume regular: "we_file x"
    let ?d = "map (\<lambda>x. (we_path x, x)) ys"
    from ys(2) have ok: "distinct (map we_path ys)"
      "\<exists>y. dict_get ?d (posix (work_dir_rel i)) = Some y \<and> \<not> we_file y"
      "we_path x = posix (work_dir_rel i) \<or> (\<exists>y. dict_get ?d (posix (butlast (pure_path (we_path x)))) = Some y)"
      using listed by (auto simp: inventory_ok_def Let_def list_all_iff split: option.splits)
    from ok(3) show False
    proof
      assume "we_path x = posix (work_dir_rel i)"
      with listed ok(1) have "dict_get ?d (posix (work_dir_rel i)) = Some x"
        by (metis (no_types, lifting) comp_def fst_conv image_eqI list.map_comp list.map_cong0 list.set_map map_of_is_SomeI)
      with ok(2) regular show False by simp
    next
      assume "\<exists>y. dict_get ?d (posix (butlast (pure_path (we_path x)))) = Some y"
      then obtain y where "y \<in> set ys" "we_path y = posix (butlast (work_dir_rel i))"
        using at_work by (fastforce dest: map_of_SomeD)
      with below [of y] have "prefix (work_dir_rel i) (butlast (work_dir_rel i))" by (simp add: pure_path_work)
      then show False by (simp add: work_dir_rel_def scenario_root_def prefix_def)
    qed
  qed
  with below [OF listed] show ?thesis by (auto simp: in_work_def)
qed

lemma load_attempt_entries:
  "load_attempt mc i a w = (Inr (dir, meta, xs), w') \<Longrightarrow> x \<in> set xs \<Longrightarrow>
    in_work i (pure_path (we_path x)) \<and> (we_file x \<longrightarrow> pure_path (we_path x) \<noteq> work_dir_rel i)"
  unfolding load_attempt_def straight
  by (auto elim!: chain_works simp: give_def fail_with_def checked_works dest: parse_attempt_entries split: sum.splits if_splits)

lemma confined_write_entry:
  assumes "in_work i (pure_path (we_path x))" "we_file x \<Longrightarrow> pure_path (we_path x) \<noteq> work_dir_rel i"
  shows "confined_to i (in_work i) (write_entry mc contents x)"
  unfolding write_entry_def straight
proof (intro moving)
  assume "\<not> \<not> we_file x"
  with assms show "confined_to i (in_work i) (atomic_write (mc_dir_mode mc) (pure_path (we_path x))
      (the (dict_get contents (we_path x))) (the (octal (we_mode x))))"
    by (intro confined_write_below) (auto simp: in_work_def strict_prefix_def)
next
  show "confined_to i (in_work i) (make_directories (mc_dir_mode mc) (pure_path (we_path x)))"
  proof (rule confined_make_directories)
    fix q assume "prefix q (pure_path (we_path x))"
    with assms(1) have "prefix (work_dir_rel i) q \<or> prefix q (work_dir_rel i)" unfolding in_work_def by (rule prefix_same_cases)
    then show "in_work i q \<or> strict_prefix q (work_dir_rel i)" by (auto simp: in_work_def strict_prefix_def)
  qed simp
qed

lemma confined_rebuild:
  assumes "\<And>x. x \<in> set xs \<Longrightarrow> in_work i (pure_path (we_path x)) \<and> (we_file x \<longrightarrow> pure_path (we_path x) \<noteq> work_dir_rel i)"
  shows "confined_to i (in_work i) (rebuild_work mc i contents xs)"
proof -
  have written: "confined_to i (in_work i) (each (write_entry mc contents) xs)"
    using assms by (intro moves_each_in orderly_stays confined_write_entry) auto
  have "confined_to i (in_work i) (set_directory_mode x)" if "x \<in> set xs" for x
    using assms [OF that] unfolding set_directory_mode_def by (intro moving moves_changes) (auto intro: stays_change_mode)
  then have modes: "confined_to i (in_work i) (each set_directory_mode (rev xs))" by (intro moves_each_in orderly_stays) simp
  show ?thesis unfolding rebuild_work_def places straight
    by (intro moves_chain moves_reach moves_capture moves_unless orderly_stays confined_remove_work_entry written modes)
      (simp_all add: in_work_def)
qed

lemma load_state_any: "load_state mc w = (Inr (Some s), w') \<Longrightarrow> \<exists>raw. state_from_json mc raw = Inr s"
  unfolding load_state_def straight
  by (fastforce elim!: chain_works simp: give_def fail_with_def checked_works split: option.splits node.splits if_splits sum.splits)

end
