(* ===== verification/RecoveryLaws.thy ===== *)
theory RecoveryLaws
  imports ConfinementLaws
begin

text \<open>
  Starting and resetting as transactions: whatever the operating system refuses and wherever a process is killed, the
  work directory of before is where a later reset finds it.
\<close>

section \<open>The state on disk\<close>

definition reads_back :: "machine \<Rightarrow> bool" where
  "reads_back mc \<longleftrightarrow> (\<forall>s d. state_to_json s = Inr d \<longrightarrow> mc_load mc (mc_dump mc (VDict d)) = Some (VDict d))"

definition recorded :: "machine \<Rightarrow> scenario_state \<Rightarrow> tree \<Rightarrow> bool" where
  "recorded mc s t \<longleftrightarrow> (\<exists>c m d. dict_get t state_file_rel = Some (Regular c m) \<and> state_to_json s = Inr d \<and>
     mc_load mc c = Some (VDict d))"

lemma recorded_cong: "dict_get t' state_file_rel = dict_get t state_file_rel \<Longrightarrow> recorded mc s t' = recorded mc s t"
  by (simp add: recorded_def)

lemma save_state_outcome:
  assumes "save_state mc s w = (r, w')" "well_formed (wd_tree w)" "reads_back mc"
  shows "case r of Inl e \<Rightarrow> dict_get (wd_tree w') state_file_rel = dict_get (wd_tree w) state_file_rel
    | Inr u \<Rightarrow> recorded mc s (wd_tree w')"
proof (cases "state_to_json s")
  case (Inl e)
  with assms(1) show ?thesis unfolding save_state_def straight by (auto simp: fail_with_def)
next
  case (Inr d)
  with assms(1) have "chain (reach state_file_rel) (\<lambda>_. atomic_write (mc_dir_mode mc) state_file_rel (mc_dump mc (VDict d)) 384) w = (r, w')"
    unfolding save_state_def straight by simp
  then show ?thesis
  proof (cases rule: chainE)
    case (fails e)
    with looks [OF moves_reach [OF orderly_eq] fails(1)] show ?thesis by simp
  next
    case (works a w1)
    have w1: "wd_tree w1 = wd_tree w" by (rule looks [OF moves_reach [OF orderly_eq] works(1)])
    have "state_file_rel \<noteq> []" "\<And>n. state_file_rel \<noteq> butlast state_file_rel @ [temporary_name n]"
      by (simp_all add: dirs temporary_name_def)
    from atomic_write_outcome [OF works(2) _ this] assms(2,3) Inr w1
    show ?thesis by (auto simp: recorded_def reads_back_def split: sum.splits)
  qed
qed

text \<open>What is read back agrees with what was written, where it is accepted at all.\<close>

lemma phase_of_text: "phase_of (phase_text p) = Inr q \<Longrightarrow> q = p"
  by (cases p) (auto simp: phase_of_def)

lemma state_fields:
  assumes "state_to_json s = Inr d" "state_from_json mc d = Inr s'"
  shows "ss_id s' = ss_id s" "ss_phase s' = ss_phase s" "ss_existed s' = ss_existed s" "ss_moved s' = ss_moved s" "ss_version s' = 2"
proof -
  from assms(1) obtain existed moved' where f: "ss_existed s = Some existed" "ss_moved s = Some moved'"
    and d: "d = [(''catalogue_sha256'', VStr (ss_catalogue s)), (''created_dirs'', VList (map VStr (ss_created s))),
        (''git'', git_to_json (ss_git s)), (''manifest_sha256'', VStr (ss_manifest s)), (''phase'', VStr (phase_text (ss_phase s))),
        (''pre_start_work_sha256'', opt_str (ss_pre_sha s)), (''repo_root'', VStr (ss_root s)), (''scenario_id'', VStr (ss_id s)),
        (''schema_version'', VInt 2), (''started_at'', VStr (ss_started s)),
        (''targets'', VList (map (\<lambda>g. VDict (target_to_json g)) (ss_targets s))), (''tool_version'', VStr tool_version),
        (''work_dir_existed_before'', VBool existed), (''work_dir_moved'', VBool moved')]"
    by (auto simp: state_to_json_def split: option.splits)
  have version: "as_int d ''schema_version'' 0 1 2 = Inr 2" by (simp add: d as_int_def)
  have ids: "as_str d ''scenario_id'' = Inr x \<Longrightarrow> check_scenario_id x = Inr i \<Longrightarrow> i = ss_id s" for x i
    by (auto simp: d as_str_def check_scenario_id_def split: if_splits)
  have phases: "as_str d ''phase'' = Inr x \<Longrightarrow> phase_of x = Inr q \<Longrightarrow> q = ss_phase s" for x q
    by (auto simp: d as_str_def dest: phase_of_text split: if_splits)
  have work: "work_fields d 2 q = Inr (a, b, c) \<Longrightarrow> a = ss_existed s \<and> b = ss_moved s" for q a b c
    by (auto simp: d f work_fields_def map_sum_Inr split: if_splits sum.splits)
  from assms(2) version have "ss_id s' = ss_id s \<and> ss_phase s' = ss_phase s \<and> ss_existed s' = ss_existed s \<and> ss_moved s' = ss_moved s \<and> ss_version s' = 2"
    unfolding state_from_json_def
    by (auto simp: map_sum_Inr dest: ids phases work split: sum.splits if_splits prod.splits)
  then show "ss_id s' = ss_id s" "ss_phase s' = ss_phase s" "ss_existed s' = ss_existed s" "ss_moved s' = ss_moved s" "ss_version s' = 2"
    by simp_all
qed

lemma stat_works: "stat_entry p w = (Inr n, w') \<Longrightarrow> n = node_at (wd_tree w) p"
  unfolding stat_entry_def by (auto dest: observes_works)

lemma load_state_none:
  assumes "load_state mc w = (Inr None, w')"
  shows "dict_get (wd_tree w) state_file_rel = None"
proof -
  from assms obtain w1 w2 n where r: "reach state_file_rel w = (Inr (), w1)"
    and n: "translating ArtifactError (stat_entry state_file_rel) w1 = (Inr n, w2)" "n = None"
    unfolding load_state_def straight
    by (auto elim!: chain_works simp: fail_with_def give_def checked_works split: option.splits node.splits if_splits sum.splits)
  from looks [OF moves_reach [OF orderly_eq] r] n show ?thesis
    by (auto simp: translating_works node_at_def dirs dest!: stat_works split: if_splits)
qed

lemma read_json_works:
  assumes "read_json mc p limit w = (Inr e, w')" "dict_get (wd_tree w) p = Some (Regular c m)" "p \<noteq> []"
  shows "mc_load mc c = Some (VDict e)"
  using assms
  by (auto simp: read_json_def read_file_def fail_with_def give_def node_at_def elim!: chain_works dest!: observes_works
      split: if_splits option.splits pyval.splits)

lemma load_state_recorded:
  assumes "recorded mc s (wd_tree w)" "load_state mc w = (Inr r, w')"
  obtains s' where "r = Some s'" "ss_id s' = ss_id s" "ss_phase s' = ss_phase s" "ss_existed s' = ss_existed s"
    "ss_moved s' = ss_moved s" "ss_version s' = 2"
proof -
  from assms(1) obtain c m d where f: "dict_get (wd_tree w) state_file_rel = Some (Regular c m)"
    and d: "state_to_json s = Inr d" "mc_load mc c = Some (VDict d)" by (auto simp: recorded_def)
  have nonroot: "state_file_rel \<noteq> []" by (simp add: dirs)
  from assms(2) obtain w1 w2 n where r: "reach state_file_rel w = (Inr (), w1)"
    and n: "translating ArtifactError (stat_entry state_file_rel) w1 = (Inr n, w2)"
    and rest: "(case n of None \<Rightarrow> give None
      | Some (Regular _ _) \<Rightarrow>
          chain (read_json mc state_file_rel max_state_bytes) (\<lambda>raw.
          case state_from_json mc raw of Inl e \<Rightarrow> fail_with e | Inr s \<Rightarrow>
          if ss_root s \<noteq> mc_root mc then fail_with ArtifactError else give (Some s))
      | _ \<Rightarrow> fail_with ArtifactError) w2 = (Inr r, w')"
    unfolding load_state_def straight by (auto elim!: chain_works)
  have t1: "wd_tree w1 = wd_tree w" by (rule looks [OF moves_reach [OF orderly_eq] r])
  have t2: "wd_tree w2 = wd_tree w1" by (rule looks [OF moves_translating [OF orderly_eq moves_stat_entry [OF orderly_eq]] n])
  from n have "n = Some (Regular c m)" using f nonroot t1 by (auto simp: translating_works node_at_def dest!: stat_works)
  with rest obtain raw w3 where raw: "read_json mc state_file_rel max_state_bytes w2 = (Inr raw, w3)"
    and s': "(case state_from_json mc raw of Inl e \<Rightarrow> fail_with e | Inr s \<Rightarrow>
          if ss_root s \<noteq> mc_root mc then fail_with ArtifactError else give (Some s)) w3 = (Inr r, w')"
    by (auto elim!: chain_works)
  from read_json_works [OF raw _ nonroot] f t1 t2 d(2) have "raw = d" by simp
  with s' obtain s' where "r = Some s'" "state_from_json mc d = Inr s'"
    by (auto simp: fail_with_def give_def split: sum.splits if_splits)
  with that state_fields [OF d(1)] show ?thesis by blast
qed

section \<open>Where the work directory of before is\<close>

definition unchanged_outside :: "string \<Rightarrow> tree \<Rightarrow> tree \<Rightarrow> bool" where
  "unchanged_outside i t0 t \<longleftrightarrow> (\<forall>p. \<not> in_area i p \<longrightarrow> dict_get t p = dict_get t0 p)"

definition same_work :: "string \<Rightarrow> tree \<Rightarrow> tree \<Rightarrow> bool" where
  "same_work i t0 t \<longleftrightarrow> (\<forall>p. in_work i p \<longrightarrow> dict_get t p = dict_get t0 p)"

definition kept :: "string \<Rightarrow> tree \<Rightarrow> tree \<Rightarrow> bool" where
  "kept i t0 t \<longleftrightarrow> (\<forall>x. dict_get t (pre_start_work_dir_rel i @ x) = dict_get t0 (work_dir_rel i @ x))"

definition no_stash :: "string \<Rightarrow> tree \<Rightarrow> bool" where
  "no_stash i t \<longleftrightarrow> (\<forall>p. prefix (pre_start_work_dir_rel i) p \<longrightarrow> dict_get t p = None)"

definition had_work :: "string \<Rightarrow> tree \<Rightarrow> bool" where
  "had_work i t0 \<longleftrightarrow> is_directory t0 (work_dir_rel i)"

definition starts_clean :: "string \<Rightarrow> tree \<Rightarrow> bool" where
  "starts_clean i t0 \<longleftrightarrow> well_formed t0 \<and> anchored (work_dir_rel i) t0 \<and> (present t0 (work_dir_rel i) \<longrightarrow> had_work i t0) \<and>
     no_stash i t0 \<and> dict_get t0 state_file_rel = None"

definition describes :: "string \<Rightarrow> tree \<Rightarrow> scenario_state \<Rightarrow> bool" where
  "describes i t0 s \<longleftrightarrow> ss_id s = i \<and> ss_existed s = Some (had_work i t0)"

definition untouched_yet :: "scenario_state \<Rightarrow> bool" where
  "untouched_yet s \<longleftrightarrow> ss_moved s = Some False \<and> ss_phase s = Staging"

text \<open>While staging runs, and at any time that state \<open>s\<close> is on disk.\<close>

definition safe_work :: "string \<Rightarrow> tree \<Rightarrow> tree \<Rightarrow> bool" where
  "safe_work i t0 t \<longleftrightarrow> (had_work i t0 \<longrightarrow> kept i t0 t \<or> no_stash i t \<and> same_work i t0 t)"

definition undoable :: "string \<Rightarrow> tree \<Rightarrow> scenario_state \<Rightarrow> tree \<Rightarrow> bool" where
  "undoable i t0 s t \<longleftrightarrow>
     (had_work i t0 \<longrightarrow> kept i t0 t \<or> no_stash i t \<and> (untouched_yet s \<longrightarrow> same_work i t0 t))"

lemma safe_undoable: "safe_work i t0 t \<Longrightarrow> undoable i t0 s t"
  by (auto simp: safe_work_def undoable_def)

lemma pre_start_outside: "prefix (pre_start_work_dir_rel i) p \<Longrightarrow> \<not> in_work i p"
  by (auto simp: dirs in_work_def prefix_def)

lemma kept_cong: "(\<And>p. prefix (pre_start_work_dir_rel i) p \<Longrightarrow> dict_get t' p = dict_get t p) \<Longrightarrow> kept i t0 t' = kept i t0 t"
  by (simp add: kept_def)

lemma no_stash_cong: "(\<And>p. prefix (pre_start_work_dir_rel i) p \<Longrightarrow> dict_get t' p = dict_get t p) \<Longrightarrow> no_stash i t' = no_stash i t"
  by (simp add: no_stash_def)

lemma same_work_cong: "(\<And>p. in_work i p \<Longrightarrow> dict_get t' p = dict_get t p) \<Longrightarrow> same_work i t0 t' = same_work i t0 t"
  by (simp add: same_work_def)

lemma kept_directory: "kept i t0 t \<Longrightarrow> had_work i t0 \<Longrightarrow> is_directory t (pre_start_work_dir_rel i)"
  unfolding kept_def had_work_def by (metis append_Nil2 is_directory_get work_dir_rel_def append_is_Nil_conv list.discI)

lemma no_stash_directory: "no_stash i t \<Longrightarrow> \<not> present t (pre_start_work_dir_rel i)"
  by (auto simp: no_stash_def present_get dirs)

lemma stays_use:
  assumes "moves (stays a A) m" "m w = (r, w')" "well_formed (wd_tree w)" "anchored a (wd_tree w)"
  shows "well_formed (wd_tree w')" "anchored a (wd_tree w')" "\<not> A p \<Longrightarrow> dict_get (wd_tree w') p = dict_get (wd_tree w) p"
  using movesD [OF assms(1,2)] assms(3,4) by (simp_all add: stays_def)

lemma renamed_back:
  assumes "rename_entry (pre_start_work_dir_rel i) (work_dir_rel i) t = Some t'" "well_formed t" "kept i t0 t"
  shows "no_stash i t' \<and> same_work i t0 t'"
proof
  note get = rename_get [OF assms(1,2)]
  show "no_stash i t'" unfolding no_stash_def
  proof (intro allI impI)
    fix p assume "prefix (pre_start_work_dir_rel i) p"
    then show "dict_get t' p = None" using pre_start_outside [of i p] by (simp add: get in_work_def)
  qed
  show "same_work i t0 t'" unfolding same_work_def
  proof (intro allI impI)
    fix p assume p: "in_work i p"
    then obtain x where "p = work_dir_rel i @ x" by (auto simp: in_work_def prefix_def)
    with p assms(3) show "dict_get t' p = dict_get t0 p" by (simp add: get kept_def)
  qed
qed

section \<open>Restoring\<close>

definition swap_back :: "machine \<Rightarrow> scenario_state \<Rightarrow> unit program" where
  "swap_back mc s =
     (if ss_existed s = Some True then
        chain (asks (\<lambda>t. is_directory t (pre_start_work_dir_rel (ss_id s)))) (\<lambda>there.
        if there then
          chain (case ss_pre_sha s of
              None \<Rightarrow> give ()
            | Some sha \<Rightarrow> chain (work_tree_sha256 mc (pre_start_work_dir_rel (ss_id s))) (\<lambda>h. unless (h = sha) WorkshopError)) (\<lambda>_.
          chain (remove_work_entry (work_dir_rel (ss_id s))) (\<lambda>_.
          translating WorkshopError (changes (rename_entry (pre_start_work_dir_rel (ss_id s)) (work_dir_rel (ss_id s))))))
        else if ss_phase s = Staging \<and> ss_moved s = Some False then
          chain (asks (\<lambda>t. is_directory t (work_dir_rel (ss_id s)))) (\<lambda>there. unless there WorkshopError)
        else fail_with WorkshopError)
      else chain (remove_work_entry (work_dir_rel (ss_id s))) (\<lambda>_. give ()))"

lemma restore_parts:
  "restore_work_directory mc s = chain (reach (butlast (work_dir_rel (ss_id s)))) (\<lambda>_.
     chain (reach (pre_start_work_dir_rel (ss_id s))) (\<lambda>_. chain (swap_back mc s) (\<lambda>_. discard_backups (ss_id s))))"
  unfolding restore_work_directory_def places straight swap_back_def ..

lemma remove_work_works:
  assumes "remove_work_entry p w = (Inr b, w')" "well_formed (wd_tree w)" "prefix p x" "p \<noteq> []"
  shows "dict_get (wd_tree w') x = None"
proof -
  from assms(1) obtain n w1 where n: "translating WorkshopError (stat_entry p) w = (Inr n, w1)"
    and rest: "(case n of
      None \<Rightarrow> give False
    | Some (Directory _) \<Rightarrow> chain (translating WorkshopError (remove_tree p)) (\<lambda>_. give True)
    | Some _ \<Rightarrow> chain (translating WorkshopError (changes (unlink p))) (\<lambda>_. give True)) w1 = (Inr b, w')"
    unfolding remove_work_entry_def by (auto elim: chain_works)
  have t1: "wd_tree w1 = wd_tree w" by (rule looks [OF moves_translating [OF orderly_eq moves_stat_entry [OF orderly_eq]] n])
  have n': "n = dict_get (wd_tree w) p" using n assms(4) by (auto simp: translating_works node_at_def dest!: stat_works)
  show ?thesis
  proof (cases "is_directory (wd_tree w) p")
    case True
    then obtain m where "n = Some (Directory m)" using n' assms(4) by (auto simp: is_directory_get)
    with rest obtain u where "remove_tree p w1 = (Inr u, w')"
      by (auto simp: translating_works give_def elim!: chain_works)
    then show ?thesis using assms(3) by (rule remove_tree_works)
  next
    case False
    then have below: "x \<noteq> p \<Longrightarrow> dict_get (wd_tree w) x = None"
      using well_formed_gone [OF assms(2)] assms(3) by (auto simp: strict_prefix_def)
    show ?thesis
    proof (cases n)
      case None
      with rest n' t1 below show ?thesis by (cases "x = p") (auto simp: give_def)
    next
      case (Some y)
      moreover have "y \<noteq> Directory m" for m using False n' Some by (metis is_directory_get)
      ultimately have "chain (translating WorkshopError (changes (unlink p))) (\<lambda>_. give True) w1 = (Inr b, w')"
        using rest by (cases y) auto
      then have "unlink p (wd_tree w1) = Some (wd_tree w')"
        by (auto simp: translating_works give_def elim!: chain_works dest!: changes_works)
      then have "wd_tree w' = dict_pop p (wd_tree w)" using t1 by (auto simp: unlink_def remove_entry_def split: if_splits)
      with below show ?thesis by (auto simp: dict_simps)
    qed
  qed
qed

lemma swap_kept:
  assumes run: "swap_back mc s w = (r, w')" and s: "describes i t0 s" and had: "had_work i t0"
    and k: "kept i t0 (wd_tree w)" and wf: "well_formed (wd_tree w)" "anchored (work_dir_rel i) (wd_tree w)"
  shows "(kept i t0 (wd_tree w') \<and> (\<exists>e. r = Inl e)) \<or> (no_stash i (wd_tree w') \<and> same_work i t0 (wd_tree w'))"
proof -
  let ?pre = "pre_start_work_dir_rel i" and ?work = "work_dir_rel i"
  from s had have s': "ss_id s = i" "ss_existed s = Some True" by (simp_all add: describes_def)
  let ?hash = "case ss_pre_sha s of None \<Rightarrow> give ()
      | Some sha \<Rightarrow> chain (work_tree_sha256 mc ?pre) (\<lambda>h. unless (h = sha) WorkshopError)"
  have hash: "moves (=) ?hash" by (intro moving)
  have remove: "moves (stays ?work (in_work i)) (remove_work_entry ?work)"
    by (rule confined_remove_work_entry) (simp_all add: in_work_def)
  have body: "chain ?hash (\<lambda>_. chain (remove_work_entry ?work) (\<lambda>_.
      translating WorkshopError (changes (rename_entry ?pre ?work)))) w = (r, w')"
    using run [unfolded swap_back_def s'] kept_directory [OF k had] by (simp add: chain_def asks_def)
  then show ?thesis
  proof (cases rule: chainE)
    case (fails e)
    with k looks [OF hash fails(1)] show ?thesis by simp
  next
    case (works a w1)
    have t1: "wd_tree w1 = wd_tree w" by (rule looks [OF hash works(1)])
    from works(2) show ?thesis
    proof (cases rule: chainE)
      case (fails e)
      from stays_use [OF remove fails(1)] t1 wf have "kept i t0 (wd_tree w') = kept i t0 (wd_tree w)"
        by (intro kept_cong) (simp add: pre_start_outside)
      with k fails show ?thesis by simp
    next
      case (works b w2)
      note after = stays_use [OF remove works(1), unfolded t1, OF wf]
      have "kept i t0 (wd_tree w2) = kept i t0 (wd_tree w)" by (intro kept_cong after) (rule pre_start_outside)
      with k have k2: "kept i t0 (wd_tree w2)" by simp
      show ?thesis
      proof (cases r)
        case (Inl e)
        with works(2) have "wd_tree w' = wd_tree w2" by (auto elim!: translatingE dest: changes_fails)
        with k2 Inl show ?thesis by simp
      next
        case (Inr u)
        with works(2) have "rename_entry ?pre ?work (wd_tree w2) = Some (wd_tree w')"
          by (auto simp: translating_works dest: changes_works)
        with renamed_back [OF _ after(1) k2] show ?thesis by blast
      qed
    qed
  qed
qed

lemma swap_no_stash:
  assumes run: "swap_back mc s w = (r, w')" and s: "describes i t0 s" and had: "had_work i t0" and n: "no_stash i (wd_tree w)"
  shows "wd_tree w' = wd_tree w \<and> (r = Inr u \<longrightarrow> untouched_yet s)"
proof -
  from s had have s': "ss_id s = i" "ss_existed s = Some True" by (simp_all add: describes_def)
  have "\<not> is_directory (wd_tree w) (pre_start_work_dir_rel i)" using no_stash_directory [OF n] is_directory_present by blast
  with run show ?thesis
    by (auto simp: swap_back_def s' chain_def asks_def fail_with_def unless_def give_def untouched_yet_def split: if_splits)
qed

lemma swap_absent:
  assumes run: "swap_back mc s w = (Inr u, w')" and s: "describes i t0 s" and had: "\<not> had_work i t0" and c: "starts_clean i t0"
    and wf: "well_formed (wd_tree w)"
  shows "same_work i t0 (wd_tree w')"
proof -
  from s had have s': "ss_id s = i" "ss_existed s = Some False" by (simp_all add: describes_def)
  with run obtain b where r: "remove_work_entry (work_dir_rel i) w = (Inr b, w')"
    by (auto simp: swap_back_def give_def elim!: chain_works)
  from c had have "well_formed t0" "\<not> present t0 (work_dir_rel i)" by (auto simp: starts_clean_def)
  then have gone: "dict_get t0 p = None" if "in_work i p" for p
    using that well_formed_gone [of t0 "work_dir_rel i" p] is_directory_present [of t0 "work_dir_rel i"]
    by (cases "p = work_dir_rel i") (auto simp: in_work_def present_get strict_prefix_def)
  have "work_dir_rel i \<noteq> []" by (simp add: dirs)
  with remove_work_works [OF r wf] gone show ?thesis by (simp add: same_work_def in_work_def)
qed

text \<open>Removing never brings anything back.\<close>

definition shrinks :: "tree \<Rightarrow> tree \<Rightarrow> bool" where
  "shrinks t t' \<longleftrightarrow> (\<forall>p. dict_get t p = None \<longrightarrow> dict_get t' p = None)"

lemma orderly_shrinks [moving]: "orderly shrinks"
  by (auto simp: orderly_def shrinks_def intro!: reflpI transpI)

lemma shrinks_discard: "moves shrinks (discard_backups i)"
proof -
  have "moves shrinks (remove_tree p)" for p
    unfolding moves_def
  proof
    fix w :: world
    have "moves shrinks (each (\<lambda>q. changes (remove_entry q)) (removal_order (wd_tree w) p))"
      by (intro moves_each moves_changes moving) (auto simp: shrinks_def remove_entry_def dict_simps split: if_splits)
    then show "shrinks (wd_tree w) (wd_tree (snd (remove_tree p w)))" by (simp add: moves_def remove_tree_def)
  qed
  then show ?thesis unfolding discard_backups_def straight by (intro moving)
qed

lemma backups_outside_work: "in_backups i p \<Longrightarrow> \<not> in_work i p"
  by (auto simp: in_backups_def in_work_def dirs prefix_def)

lemma clear_backups [simp]: "clear (work_dir_rel i) (in_backups i)"
  by (rule clear_work) (simp add: home_regions)

lemma confined_discard_backups: "confined_to i (in_backups i) (discard_backups i)"
  unfolding discard_backups_def straight
  by (intro moving confined_remove_tree) (simp_all add: in_backups_def)

lemma discard_keeps:
  assumes run: "discard_backups i w = (r, w')" and wf: "well_formed (wd_tree w)" "anchored (work_dir_rel i) (wd_tree w)"
  shows "no_stash i (wd_tree w) \<Longrightarrow> no_stash i (wd_tree w')" "same_work i t0 (wd_tree w') = same_work i t0 (wd_tree w)"
proof -
  from movesD [OF shrinks_discard run] show "no_stash i (wd_tree w) \<Longrightarrow> no_stash i (wd_tree w')"
    by (simp add: shrinks_def no_stash_def)
  from stays_use [OF confined_discard_backups run wf] show "same_work i t0 (wd_tree w') = same_work i t0 (wd_tree w)"
    by (intro same_work_cong) (meson backups_outside_work)
qed

lemma restore_outcome:
  assumes run: "restore_work_directory mc s w = (r, w')" and s: "describes i t0 s" and c: "starts_clean i t0"
    and wf: "well_formed (wd_tree w)" "anchored (work_dir_rel i) (wd_tree w)" and ok: "undoable i t0 s (wd_tree w)"
  shows "(safe_work i t0 (wd_tree w) \<longrightarrow> safe_work i t0 (wd_tree w')) \<and> undoable i t0 s (wd_tree w') \<and>
    (r = Inr () \<longrightarrow> same_work i t0 (wd_tree w'))"
proof -
  from s have i: "ss_id s = i" by (simp add: describes_def)
  have reach: "moves (=) (reach p)" for p by (intro moving)
  have swap: "confined_to i (in_restored i) (swap_back mc s)"
    unfolding swap_back_def i
    by (intro moving confined_remove_work_entry moves_changes stays_rename)
      (auto simp: in_restored_def in_work_def pre_start_in_backups intro: stays_rename)
  have same: ?thesis if "wd_tree w' = wd_tree w" "\<exists>e. r = Inl e" using that ok by auto
  from run [unfolded restore_parts i] show ?thesis
  proof (cases rule: chainE)
    case (fails e)
    with same looks [OF reach fails(1)] show ?thesis by simp
  next
    case (works a w1)
    have t1: "wd_tree w1 = wd_tree w" by (rule looks [OF reach works(1)])
    from works(2) show ?thesis
    proof (cases rule: chainE)
      case (fails e)
      with same t1 looks [OF reach fails(1)] show ?thesis by simp
    next
      case (works b w2)
      have t2: "wd_tree w2 = wd_tree w" using t1 looks [OF reach works(1)] by simp
      obtain r3 w3 where r3: "swap_back mc s w2 = (r3, w3)" by fastforce
      note wf3 = stays_use(1,2) [OF swap r3, unfolded t2, OF wf]
      have after: "(safe_work i t0 (wd_tree w) \<longrightarrow> safe_work i t0 (wd_tree w3)) \<and> undoable i t0 s (wd_tree w3) \<and>
          (r3 = Inr () \<longrightarrow> same_work i t0 (wd_tree w3) \<and> (had_work i t0 \<longrightarrow> no_stash i (wd_tree w3)))"
      proof (cases "had_work i t0")
        case True
        with ok consider "kept i t0 (wd_tree w)" | "no_stash i (wd_tree w)" "untouched_yet s \<longrightarrow> same_work i t0 (wd_tree w)"
          by (auto simp: undoable_def)
        then show ?thesis
        proof cases
          case 1
          from swap_kept [OF r3 s True] 1 wf t2 show ?thesis by (auto simp: safe_work_def undoable_def)
        next
          case 2
          from swap_no_stash [OF r3 s True] 2 t2 True show ?thesis by (auto simp: safe_work_def undoable_def)
        qed
      next
        case False
        with swap_absent [OF _ s False c] r3 wf t2 show ?thesis by (auto simp: safe_work_def undoable_def)
      qed
      from works(2) r3 consider e where "r3 = Inl e" "r = Inl e" "w' = w3" | "r3 = Inr ()" "discard_backups i w3 = (r, w')"
        by (auto elim!: chainE)
      then show ?thesis
      proof cases
        case 1
        with after show ?thesis by simp
      next
        case 2
        from discard_keeps [OF 2(2) wf3] after 2(1) show ?thesis by (auto simp: safe_work_def undoable_def)
      qed
    qed
  qed
qed

section \<open>Rolling back\<close>

text \<open>What holds between commands, and what holds while staging.\<close>

definition recoverable :: "machine \<Rightarrow> string \<Rightarrow> tree \<Rightarrow> bool \<Rightarrow> tree \<Rightarrow> bool" where
  "recoverable mc i t0 active t \<longleftrightarrow> well_formed t \<and> anchored (work_dir_rel i) t \<and> unchanged_outside i t0 t \<and>
     (dict_get t state_file_rel = None \<and> same_work i t0 t \<or>
      (\<exists>s. recorded mc s t \<and> describes i t0 s \<and> (active \<longrightarrow> ss_phase s = Active) \<and> undoable i t0 s t))"

definition live :: "machine \<Rightarrow> string \<Rightarrow> tree \<Rightarrow> tree \<Rightarrow> bool" where
  "live mc i t0 t \<longleftrightarrow> well_formed t \<and> anchored (work_dir_rel i) t \<and> unchanged_outside i t0 t \<and>
     (\<exists>s. recorded mc s t \<and> describes i t0 s) \<and> safe_work i t0 t"

lemma live_recoverable: "live mc i t0 t \<Longrightarrow> recoverable mc i t0 False t"
  by (auto simp: live_def recoverable_def intro: safe_undoable)

lemma state_file_regions:
  "\<not> in_work i state_file_rel" "\<not> in_archives state_file_rel" "\<not> in_backups i state_file_rel" "\<not> in_restored i state_file_rel"
  "\<not> in_stash i state_file_rel" "\<not> in_archived i state_file_rel" "in_area i state_file_rel"
  by (auto simp: in_work_def in_archives_def in_backups_def in_restored_def in_stash_def in_archived_def in_area_def in_home_def dirs)

lemma unchanged_outside_trans:
  "unchanged_outside i t0 t \<Longrightarrow> (\<And>p. \<not> A p \<Longrightarrow> dict_get t' p = dict_get t p) \<Longrightarrow> (\<And>p. A p \<Longrightarrow> in_area i p) \<Longrightarrow>
    unchanged_outside i t0 t'"
  unfolding unchanged_outside_def by metis

lemma clear_state_outcome:
  assumes "clear_state w = (r, w')"
  shows "case r of Inl e \<Rightarrow> wd_tree w' = wd_tree w
    | Inr u \<Rightarrow> dict_get (wd_tree w') state_file_rel = None \<and> (\<forall>p. p \<noteq> state_file_rel \<longrightarrow> dict_get (wd_tree w') p = dict_get (wd_tree w) p)"
proof -
  have reach: "moves (=) (reach state_file_rel)" by (intro moving)
  have root: "state_file_rel \<noteq> []" by (simp add: dirs)
  from assms [unfolded clear_state_def straight] show ?thesis
  proof (cases rule: chainE)
    case (fails e)
    with looks [OF reach fails(1)] show ?thesis by simp
  next
    case (works a w1)
    have t1: "wd_tree w1 = wd_tree w" by (rule looks [OF reach works(1)])
    show ?thesis
    proof (cases r)
      case (Inl e)
      with works(2) t1 show ?thesis unfolding unlink_present_def by (auto elim!: translatingE dest: changes_fails)
    next
      case (Inr u)
      with works(2) have "(if present (wd_tree w) state_file_rel then unlink state_file_rel (wd_tree w) else Some (wd_tree w)) = Some (wd_tree w')"
        unfolding unlink_present_def by (auto simp: translating_works t1 dest: changes_works)
      then have "wd_tree w' = dict_pop state_file_rel (wd_tree w) \<or> wd_tree w' = wd_tree w \<and> dict_get (wd_tree w) state_file_rel = None"
        using root by (auto simp: unlink_def remove_entry_def present_get split: if_splits)
      with Inr show ?thesis by (auto simp: dict_simps)
    qed
  qed
qed

lemma rollback_outcome:
  assumes run: "rollback mc s w = (r, w')" and l: "live mc i t0 (wd_tree w)" and s: "describes i t0 s" "ss_version s = 2"
    and c: "starts_clean i t0"
  shows "recoverable mc i t0 False (wd_tree w')"
proof -
  have i: "ss_id s = i" using s by (simp add: describes_def)
  from l have wf: "well_formed (wd_tree w)" "anchored (work_dir_rel i) (wd_tree w)" and out: "unchanged_outside i t0 (wd_tree w)"
    and safe: "safe_work i t0 (wd_tree w)" by (simp_all add: live_def)
  obtain r1 w1 where r1: "restore_scenario mc s w = (r1, w1)" by fastforce
  then have restored: "restore_work_directory mc s w = (r1, w1)" by (simp add: restore_scenario_def s(2))
  note after = stays_use [OF confined_restore [OF i] r1 wf]
  note kept1 = restore_outcome [OF restored s(1) c wf safe_undoable [OF safe]]
  have l1: "live mc i t0 (wd_tree w1)"
    unfolding live_def using l after safe kept1 unchanged_outside_trans [OF out after(3)] recorded_cong [OF after(3)]
    by (auto simp: live_def state_file_regions restored_in_area)
  from run r1 consider "w' = w1" | "r1 = Inr ()" "clear_state w1 = (r, w')"
    unfolding rollback_def by (auto elim!: chainE)
  then show ?thesis
  proof cases
    case 1
    with l1 live_recoverable show ?thesis by simp
  next
    case 2
    have "confined_to i (\<lambda>p. p = state_file_rel) clear_state" by (rule confined_clear)
    note cleared = stays_use [OF this 2(2)]
    show ?thesis
    proof (cases r)
      case (Inl e)
      with clear_state_outcome [OF 2(2)] l1 live_recoverable show ?thesis by simp
    next
      case (Inr u)
      with clear_state_outcome [OF 2(2)]
      have gone: "dict_get (wd_tree w') state_file_rel = None"
        "\<And>p. p \<noteq> state_file_rel \<Longrightarrow> dict_get (wd_tree w') p = dict_get (wd_tree w1) p" by simp_all
      from l1 have out1: "unchanged_outside i t0 (wd_tree w1)" by (simp add: live_def)
      from kept1 2(1) have "same_work i t0 (wd_tree w1)" by simp
      moreover have "same_work i t0 (wd_tree w') = same_work i t0 (wd_tree w1)"
        by (intro same_work_cong gone(2)) (use state_file_regions(1) [of i] in auto)
      moreover have "unchanged_outside i t0 (wd_tree w')"
        by (rule unchanged_outside_trans [OF out1 gone(2)]) (auto simp: state_file_regions)
      ultimately show ?thesis using cleared l1 gone(1) by (simp add: recoverable_def live_def)
    qed
  qed
qed

lemma attempt_outcome:
  assumes run: "attempt mc s m w = (r, w')" and s: "describes i t0 s" "ss_version s = 2" and c: "starts_clean i t0"
    and l: "\<And>e w1. m w = (Inl e, w1) \<Longrightarrow> live mc i t0 (wd_tree w1)"
  shows "case r of Inl e \<Rightarrow> recoverable mc i t0 False (wd_tree w') | Inr a \<Rightarrow> m w = (Inr a, w')"
  using run [unfolded attempt_def]
proof (cases rule: handlingE)
  case passed
  with l live_recoverable show ?thesis by (cases r) auto
next
  case (handled e w1)
  from handled(3) obtain x where x: "rollback mc s w1 = (x, w')" "\<exists>e. r = Inl e"
    by (auto elim!: chainE handlingE simp: fail_with_def)
  with rollback_outcome [OF x(1) l [OF handled(1)] s c] show ?thesis by auto
qed

section \<open>Staging\<close>

definition secured :: "string \<Rightarrow> tree \<Rightarrow> tree \<Rightarrow> bool" where
  "secured i t0 t \<longleftrightarrow> (had_work i t0 \<longrightarrow> kept i t0 t)"

lemma live_frame:
  assumes l: "live mc i t0 (wd_tree w)" and m: "confined_to i A m" "m w = (r, w')"
    and A: "\<And>p. A p \<Longrightarrow> in_area i p" "\<not> A state_file_rel" "\<And>p. prefix (pre_start_work_dir_rel i) p \<Longrightarrow> \<not> A p"
    and sec: "secured i t0 (wd_tree w)"
  shows "live mc i t0 (wd_tree w') \<and> secured i t0 (wd_tree w')"
proof -
  from l have wf: "well_formed (wd_tree w)" "anchored (work_dir_rel i) (wd_tree w)" and out: "unchanged_outside i t0 (wd_tree w)"
    by (simp_all add: live_def)
  note after = stays_use [OF m wf]
  have "kept i t0 (wd_tree w') = kept i t0 (wd_tree w)" using A(3) by (intro kept_cong after(3))
  with l sec after A(1) unchanged_outside_trans [OF out after(3)] recorded_cong [OF after(3) [OF A(2)]] show ?thesis
    by (auto simp: live_def secured_def safe_work_def)
qed

lemma saved_outside:
  "in_saved p \<Longrightarrow> \<not> in_work i p" "in_saved p \<Longrightarrow> \<not> in_backups i p"
  by (auto simp: in_saved_def in_work_def in_backups_def dirs temporary_name_def prefix_def)

lemma saved_frame:
  assumes "save_state mc s w = (r, w')" "well_formed (wd_tree w)" "anchored (work_dir_rel i) (wd_tree w)" "unchanged_outside i t0 (wd_tree w)"
  shows "well_formed (wd_tree w')" "anchored (work_dir_rel i) (wd_tree w')" "unchanged_outside i t0 (wd_tree w')"
    "safe_work i t0 (wd_tree w') = safe_work i t0 (wd_tree w)" "same_work i t0 (wd_tree w') = same_work i t0 (wd_tree w)"
    "kept i t0 (wd_tree w') = kept i t0 (wd_tree w)"
proof -
  note after = stays_use [OF confined_save assms(1-3)]
  show "well_formed (wd_tree w')" "anchored (work_dir_rel i) (wd_tree w')" by (fact after)+
  show "unchanged_outside i t0 (wd_tree w')"
    by (rule unchanged_outside_trans [OF assms(4), of in_saved]) (simp_all add: after in_area_def home_regions)
  have pre: "dict_get (wd_tree w') p = dict_get (wd_tree w) p" if "prefix (pre_start_work_dir_rel i) p" for p
    using that pre_start_in_backups saved_outside(2) by (intro after(3)) blast
  then show "kept i t0 (wd_tree w') = kept i t0 (wd_tree w)" by (rule kept_cong)
  moreover have "no_stash i (wd_tree w') = no_stash i (wd_tree w)" using pre by (rule no_stash_cong)
  moreover show work: "same_work i t0 (wd_tree w') = same_work i t0 (wd_tree w)"
    using saved_outside(1) by (intro same_work_cong after(3)) blast
  ultimately show "safe_work i t0 (wd_tree w') = safe_work i t0 (wd_tree w)" by (simp add: safe_work_def)
qed

lemma attempt_save:
  assumes run: "attempt mc s (save_state mc s) w = (r, w')" and s: "describes i t0 s" "ss_version s = 2"
    and c: "starts_clean i t0" and l: "live mc i t0 (wd_tree w)" and rb: "reads_back mc"
  shows "case r of Inl e \<Rightarrow> recoverable mc i t0 False (wd_tree w')
    | Inr u \<Rightarrow> live mc i t0 (wd_tree w') \<and> recorded mc s (wd_tree w') \<and> kept i t0 (wd_tree w') = kept i t0 (wd_tree w)"
proof -
  from l have wf: "well_formed (wd_tree w)" "anchored (work_dir_rel i) (wd_tree w)" "unchanged_outside i t0 (wd_tree w)"
    by (simp_all add: live_def)
  have "live mc i t0 (wd_tree w1)" if "save_state mc s w = (x, w1)" for x w1
  proof -
    note frame = saved_frame [OF that wf]
    have "\<exists>s. recorded mc s (wd_tree w1) \<and> describes i t0 s"
    proof (cases x)
      case (Inl e)
      with save_state_outcome [OF that wf(1) rb] have "recorded mc s' (wd_tree w1) = recorded mc s' (wd_tree w)" for s'
        by (intro recorded_cong) simp
      with l show ?thesis by (simp add: live_def)
    next
      case (Inr u)
      with save_state_outcome [OF that wf(1) rb] s(1) show ?thesis by auto
    qed
    with frame l show ?thesis by (simp add: live_def)
  qed
  moreover from attempt_outcome [OF run s c, of] calculation
  have "case r of Inl e \<Rightarrow> recoverable mc i t0 False (wd_tree w') | Inr a \<Rightarrow> save_state mc s w = (Inr a, w')" by blast
  ultimately show ?thesis
    using saved_frame(6) [OF _ wf] save_state_outcome [OF _ wf(1) rb] by (cases r) fastforce+
qed

lemma renamed_away:
  assumes "rename_entry (work_dir_rel i) (pre_start_work_dir_rel i) t = Some t'" "well_formed t" "same_work i t0 t"
  shows "kept i t0 t'"
  using assms(3) rename_get [OF assms(1,2)] by (simp add: kept_def same_work_def in_work_def)

lemma translated_give:
  "chain (translating e m) (\<lambda>_. give a) w = (r, w') \<Longrightarrow>
    \<exists>x. m w = (x, w') \<and> (case r of Inl e \<Rightarrow> \<exists>e. x = Inl e | Inr a \<Rightarrow> \<exists>u. x = Inr u)"
  by (auto simp: chain_def translating_def handling_def give_def fail_with_def split: prod.splits sum.splits if_splits)

definition above_backups :: "string \<Rightarrow> path \<Rightarrow> bool" where
  "above_backups i p \<longleftrightarrow> p \<noteq> [] \<and> prefix p (backup_dir_rel i)"

lemma above_backups_regions:
  "above_backups i p \<Longrightarrow> in_home p" "above_backups i p \<Longrightarrow> \<not> in_work i p" "above_backups i p \<Longrightarrow> \<not> prefix (pre_start_work_dir_rel i) p"
  by (auto simp: above_backups_def home_backup) (auto simp: dirs in_work_def prefix_def)

lemma moved_away:
  assumes run: "move_work_away mc i w = (r, w')" and wf: "well_formed (wd_tree w)" "anchored (work_dir_rel i) (wd_tree w)"
    and before: "no_stash i (wd_tree w)" "same_work i t0 (wd_tree w)"
  shows "case r of Inl e \<Rightarrow> no_stash i (wd_tree w') \<and> same_work i t0 (wd_tree w') | Inr u \<Rightarrow> kept i t0 (wd_tree w')"
proof -
  let ?mk = "make_directories (mc_dir_mode mc) (butlast (pre_start_work_dir_rel i))"
  let ?mv = "changes (rename_entry (work_dir_rel i) (pre_start_work_dir_rel i))"
  have reach: "moves (=) (reach p)" for p by (intro moving)
  have clear: "clear (work_dir_rel i) (above_backups i)" by (rule clear_work) (simp add: above_backups_regions)
  have mk: "confined_to i (above_backups i) ?mk"
    by (intro confined_make_directories clear) (simp add: above_backups_def pre_start_work_dir_rel_def)
  have run': "chain (reach (butlast (work_dir_rel i))) (\<lambda>_. chain (reach (pre_start_work_dir_rel i)) (\<lambda>_.
      chain (translating WorkshopError (chain ?mk (\<lambda>_. ?mv))) (\<lambda>_. give (pre_start_work_dir_rel i)))) w = (r, w')"
    using run unfolding move_work_away_def places straight .
  then show ?thesis
  proof (cases rule: chainE)
    case (fails e)
    with looks [OF reach fails(1)] before show ?thesis by simp
  next
    case (works a w1)
    have t1: "wd_tree w1 = wd_tree w" by (rule looks [OF reach works(1)])
    from works(2) show ?thesis
    proof (cases rule: chainE)
      case (fails e)
      with looks [OF reach fails(1)] t1 before show ?thesis by simp
    next
      case (works b w2)
      have t2: "wd_tree w2 = wd_tree w" using t1 looks [OF reach works(1)] by simp
      from translated_give [OF works(2)]
      obtain x where x: "chain ?mk (\<lambda>_. ?mv) w2 = (x, w')" "case r of Inl e \<Rightarrow> \<exists>e. x = Inl e | Inr a \<Rightarrow> \<exists>u. x = Inr u"
        by blast
      obtain y w3 where y: "?mk w2 = (y, w3)" by fastforce
      note after = stays_use [OF mk y, unfolded t2, OF wf]
      have "no_stash i (wd_tree w3) = no_stash i (wd_tree w)"
        by (intro no_stash_cong after) (use above_backups_regions(3) in blast)
      moreover have "same_work i t0 (wd_tree w3) = same_work i t0 (wd_tree w)"
        by (intro same_work_cong after) (use above_backups_regions(2) in blast)
      ultimately have w3: "no_stash i (wd_tree w3)" "same_work i t0 (wd_tree w3)" using before by simp_all
      show ?thesis
      proof (cases r)
        case (Inl e)
        with x y have "wd_tree w' = wd_tree w3" by (fastforce elim!: chainE dest: changes_fails)
        with Inl w3 show ?thesis by simp
      next
        case (Inr a)
        with x y obtain u where "?mv w3 = (Inr u, w')" by (fastforce elim!: chainE)
        with renamed_away [OF _ after(1) w3(2)] Inr show ?thesis by (auto dest: changes_works)
      qed
    qed
  qed
qed

lemma move_live:
  assumes run: "move_work_away mc i w = (r, w')" and l: "live mc i t0 (wd_tree w)"
    and before: "no_stash i (wd_tree w)" "same_work i t0 (wd_tree w)"
  shows "live mc i t0 (wd_tree w')"
proof -
  from l have wf: "well_formed (wd_tree w)" "anchored (work_dir_rel i) (wd_tree w)" and out: "unchanged_outside i t0 (wd_tree w)"
    by (simp_all add: live_def)
  note after = stays_use [OF confined_move_work_away run wf]
  have "safe_work i t0 (wd_tree w')" using moved_away [OF run wf before] by (cases r) (auto simp: safe_work_def)
  moreover have "unchanged_outside i t0 (wd_tree w')"
    by (rule unchanged_outside_trans [OF out, of "in_stash i"]) (simp_all add: after stash_in_area)
  moreover have "recorded mc s (wd_tree w') = recorded mc s (wd_tree w)" for s
    by (intro recorded_cong after) (rule state_file_regions)
  ultimately show ?thesis using l after by (simp add: live_def)
qed

lemma preserve_outcome:
  assumes run: "preserve_work mc s w = (r, w')" and l: "live mc i t0 (wd_tree w)" and s: "describes i t0 s" "ss_version s = 2"
    and c: "starts_clean i t0" and rb: "reads_back mc" and before: "no_stash i (wd_tree w)" "same_work i t0 (wd_tree w)"
  shows "case r of Inl e \<Rightarrow> recoverable mc i t0 False (wd_tree w')
    | Inr s' \<Rightarrow> live mc i t0 (wd_tree w') \<and> secured i t0 (wd_tree w') \<and> describes i t0 s' \<and> ss_version s' = 2"
proof (cases "had_work i t0")
  case False
  with run s l show ?thesis by (auto simp: preserve_work_def describes_def give_def secured_def)
next
  case True
  from s have i: "ss_id s = i" by (simp add: describes_def)
  from s True have "chain (attempt mc s (move_work_away mc i)) (\<lambda>backup.
        chain (attempt mc s (work_tree_sha256 mc backup)) (\<lambda>h.
        chain (attempt mc (s\<lparr>ss_pre_sha := Some h, ss_moved := Some True\<rparr>)
          (save_state mc (s\<lparr>ss_pre_sha := Some h, ss_moved := Some True\<rparr>))) (\<lambda>_.
        give (s\<lparr>ss_pre_sha := Some h, ss_moved := Some True\<rparr>)))) w = (r, w')"
    using run by (simp add: preserve_work_def describes_def Let_def i)
  then show ?thesis
  proof (cases rule: chainE)
    case (fails e)
    with attempt_outcome [OF fails(1) s c move_live [OF _ l before]] show ?thesis by simp
  next
    case (works backup w1)
    from attempt_outcome [OF works(1) s c move_live [OF _ l before]]
    have moved: "move_work_away mc i w = (Inr backup, w1)" by simp
    have l1: "live mc i t0 (wd_tree w1)" by (rule move_live [OF moved l before])
    from l have wf: "well_formed (wd_tree w)" "anchored (work_dir_rel i) (wd_tree w)" by (simp_all add: live_def)
    from moved_away [OF moved wf before] have k1: "kept i t0 (wd_tree w1)" by simp
    have hash: "moves (=) (work_tree_sha256 mc backup)" by (intro moving)
    have hashed: "live mc i t0 (wd_tree v)" if "work_tree_sha256 mc backup w1 = (Inl e, v)" for e v
      using looks [OF hash that] l1 by simp
    from works(2) show ?thesis
    proof (cases rule: chainE)
      case (fails e)
      with attempt_outcome [OF fails(1) s c hashed] show ?thesis by simp
    next
      case (works h w2)
      from attempt_outcome [OF works(1) s c hashed] have "work_tree_sha256 mc backup w1 = (Inr h, w2)" by simp
      from looks [OF hash this] have t2: "wd_tree w2 = wd_tree w1" .
      let ?s = "s\<lparr>ss_pre_sha := Some h, ss_moved := Some True\<rparr>"
      have s': "describes i t0 ?s" "ss_version ?s = 2" using s by (simp_all add: describes_def)
      from l1 t2 have l2: "live mc i t0 (wd_tree w2)" by simp
      from works(2) show ?thesis
      proof (cases rule: chainE)
        case (fails e)
        with attempt_save [OF fails(1) s' c l2 rb] show ?thesis by simp
      next
        case (works u w3)
        with attempt_save [OF works(1) s' c l2 rb] k1 t2 s' show ?thesis by (auto simp: give_def secured_def)
      qed
    qed
  qed
qed

lemma in_work_area: "in_work i p \<Longrightarrow> in_area i p"
  by (simp add: in_area_def)

lemma stage_outcome:
  assumes run: "stage mc m activate s w = (r, w')" and c: "starts_clean i (wd_tree w)"
    and s: "describes i (wd_tree w) s" "ss_version s = 2" and rb: "reads_back mc"
  shows "case r of Inl e \<Rightarrow> recoverable mc i (wd_tree w) False (wd_tree w')
    | Inr u \<Rightarrow> live mc i (wd_tree w) (wd_tree w') \<and> secured i (wd_tree w) (wd_tree w') \<and>
        (\<exists>s'. recorded mc s' (wd_tree w') \<and> describes i (wd_tree w) s' \<and> (activate \<longrightarrow> ss_phase s' = Active))"
proof -
  let ?t0 = "wd_tree w"
  from s have i: "ss_id s = i" by (simp add: describes_def)
  from c have wf: "well_formed ?t0" "anchored (work_dir_rel i) ?t0" and none: "dict_get ?t0 state_file_rel = None"
    and stash: "no_stash i ?t0" by (simp_all add: starts_clean_def)
  have out: "unchanged_outside i ?t0 ?t0" and work: "same_work i ?t0 ?t0" by (simp_all add: unchanged_outside_def same_work_def)
  from run [unfolded stage_def Let_def] show ?thesis
  proof (cases rule: chainE)
    case (fails e)
    from saved_frame [OF fails(1) wf out] save_state_outcome [OF fails(1) wf(1) rb] none work fails(2) show ?thesis
      by (simp add: recoverable_def)
  next
    case (works a w1)
    note frame1 = saved_frame [OF works(1) wf out]
    have "recorded mc s (wd_tree w1)" using save_state_outcome [OF works(1) wf(1) rb] by simp
    moreover have "safe_work i ?t0 ?t0" using stash work by (simp add: safe_work_def)
    ultimately have l1: "live mc i ?t0 (wd_tree w1)" using frame1 s by (auto simp: live_def)
    have "no_stash i (wd_tree w1) = no_stash i ?t0"
      using stays_use(3) [OF confined_save works(1) wf] pre_start_in_backups saved_outside(2) by (intro no_stash_cong) blast
    with frame1 stash work have before: "no_stash i (wd_tree w1)" "same_work i ?t0 (wd_tree w1)" by simp_all
    from works(2) show ?thesis
    proof (cases rule: chainE)
      case (fails e)
      with preserve_outcome [OF fails(1) l1 s c rb before] show ?thesis by simp
    next
      case (works s1 w2)
      from preserve_outcome [OF works(1) l1 s c rb before]
      have l2: "live mc i ?t0 (wd_tree w2)" "secured i ?t0 (wd_tree w2)" and s1: "describes i ?t0 s1" "ss_version s1 = 2" by simp_all
      let ?apply = "apply_payloads mc (ss_id s) (zip (mf_stage m) (ss_targets s1))"
      have l3: "live mc i ?t0 (wd_tree v) \<and> secured i ?t0 (wd_tree v)" if "?apply w2 = (x, v)" for x v
        using that [unfolded i]
        by (rule live_frame [OF l2(1) confined_apply_payloads _ in_work_area _ _ l2(2)])
          (simp_all add: state_file_regions pre_start_outside)
      from works(2) show ?thesis
      proof (cases rule: chainE)
        case (fails e)
        with attempt_outcome [OF fails(1) s1 c] l3 show ?thesis by simp
      next
        case (works gs w3)
        with attempt_outcome [OF works(1) s1 c] l3 have applied: "?apply w2 = (Inr gs, w3)" by simp
        let ?s2 = "s1\<lparr>ss_targets := gs, ss_phase := (if activate then Active else ss_phase s1)\<rparr>"
        have s2: "describes i ?t0 ?s2" "ss_version ?s2 = 2" using s1 by (simp_all add: describes_def)
        from attempt_save [OF works(2) s2 c _ rb] l3 [OF applied]
        have "case r of Inl e \<Rightarrow> recoverable mc i ?t0 False (wd_tree w')
          | Inr u \<Rightarrow> live mc i ?t0 (wd_tree w') \<and> recorded mc ?s2 (wd_tree w') \<and> kept i ?t0 (wd_tree w') = kept i ?t0 (wd_tree w3)"
          by simp
        with l3 [OF applied] s2 show ?thesis by (cases r) (auto simp: secured_def)
      qed
    qed
  qed
qed

section \<open>Starting\<close>

lemma resolved_works: "resolve_under_root p w = (Inr q, w') \<Longrightarrow> q = p \<and> w' = w"
  by (auto simp: resolve_under_root_def split: if_splits)

lemma inspect_works:
  assumes "inspect_work_directory i w = (Inr existed, w')" "well_formed (wd_tree w)"
  shows "existed = had_work i (wd_tree w)" "present (wd_tree w) (work_dir_rel i) \<longrightarrow> had_work i (wd_tree w)" "no_stash i (wd_tree w)"
proof -
  have look: "reach p v = (x, v') \<Longrightarrow> wd_tree v' = wd_tree v" for p v x v'
    using looks [OF moves_reach [OF orderly_eq]] .
  have facts: "existed = had_work i (wd_tree w) \<and> (present (wd_tree w) (work_dir_rel i) \<longrightarrow> had_work i (wd_tree w)) \<and>
      \<not> present (wd_tree w) (pre_start_work_dir_rel i)"
    using assms(1) unfolding inspect_work_directory_def places straight
    by (auto simp: asks_def fail_with_def had_work_def elim!: chain_works dest!: look split: if_splits)
  then show "existed = had_work i (wd_tree w)" "present (wd_tree w) (work_dir_rel i) \<longrightarrow> had_work i (wd_tree w)" by simp_all
  have "dict_get (wd_tree w) p = None" if p: "prefix (pre_start_work_dir_rel i) p" for p
  proof (cases "p = pre_start_work_dir_rel i")
    case True
    with facts show ?thesis by (simp add: present_get)
  next
    case False
    with p have "strict_prefix (pre_start_work_dir_rel i) p" by (auto simp: strict_prefix_def)
    with well_formed_gone [OF assms(2)] facts is_directory_present show ?thesis by blast
  qed
  then show "no_stash i (wd_tree w)" by (simp add: no_stash_def)
qed

lemma require_directory_works: "require_directory p w = (Inr u, w') \<Longrightarrow> is_directory (wd_tree w) p"
  unfolding require_directory_def straight
  by (auto simp: asks_def unless_def give_def fail_with_def elim!: chain_works dest!: looks [OF moves_reach [OF orderly_eq]] split: if_splits)

lemma parse_manifest_directory: "parse_manifest d i = Inr m \<Longrightarrow> mf_directory m = butlast (work_dir_rel i)"
  by (auto simp: parse_manifest_def map_sum_Inr work_dir_rel_def butlast_append split: sum.splits if_splits prod.splits)

lemma load_manifest_directory: "load_manifest mc i w = (Inr m, w') \<Longrightarrow> mf_directory m = butlast (work_dir_rel i)"
  unfolding load_manifest_def straight
  by (auto elim!: chain_works simp: checked_works fail_with_def dest: parse_manifest_directory split: sum.splits if_splits)

lemma load_manifests_directory:
  "load_manifests mc is w = (Inr c, w') \<Longrightarrow> dict_get c i = Some m \<Longrightarrow> mf_directory m = butlast (work_dir_rel i)"
proof (induction "is" arbitrary: w c)
  case (Cons j js)
  from Cons.prems(1) obtain n w1 d where n: "load_manifest mc j w = (Inr n, w1)"
    and d: "load_manifests mc js w1 = (Inr d, w')" "c = (j, n) # d"
    by (auto simp: give_def elim!: chain_works)
  with Cons.IH [OF d(1)] Cons.prems(2) load_manifest_directory [OF n] show ?case by (auto split: if_splits)
qed (auto simp: give_def)

lemma scenario_manifest_directory: "scenario_manifest mc i w = (Inr m, w') \<Longrightarrow> mf_directory m = butlast (work_dir_rel i)"
  unfolding scenario_manifest_def load_catalogue_def straight
  by (auto elim!: chain_works simp: checked_works fail_with_def require_scenario_def dest: load_manifests_directory
      split: sum.splits option.splits)

text \<open>What a start has established when it comes to staging; until then it only looked.\<close>

lemma start_reaches_stage:
  assumes run: "cmd_start mc now git activate i w = (r, w')" and wf: "well_formed (wd_tree w)"
  shows "(wd_tree w' = wd_tree w \<and> (\<exists>e. r = Inl e)) \<or>
    (starts_clean i (wd_tree w) \<and> (\<exists>m s w1. wd_tree w1 = wd_tree w \<and> stage mc m activate s w1 = (r, w') \<and>
       describes i (wd_tree w) s \<and> ss_version s = 2 \<and> ss_phase s = Staging))"
proof -
  have look: "wd_tree v' = wd_tree v" if "m v = (x, v')" "moves (=) m" for m :: "'a program" and v x v'
    using looks that by blast
  from run [unfolded cmd_start_def] show ?thesis
  proof (cases rule: chainE)
    case (fails e)
    then show ?thesis using looks [OF moves_scenario_manifest [OF orderly_eq]] by blast
  next
    case (works m w1)
    have t1: "wd_tree w1 = wd_tree w" by (rule looks [OF moves_scenario_manifest [OF orderly_eq] works(1)])
    have m: "mf_id m = i" "mf_directory m = butlast (work_dir_rel i)"
      using scenario_manifest_id [OF works(1)] scenario_manifest_directory [OF works(1)] by simp_all
    from works(2) show ?thesis
    proof (cases rule: chainE)
      case (fails e)
      then show ?thesis using looks [OF moves_refuse_active [OF orderly_eq]] t1 by metis
    next
      case (works a w2)
      have t2: "wd_tree w2 = wd_tree w" using looks [OF moves_refuse_active [OF orderly_eq] works(1)] t1 by simp
      have none: "dict_get (wd_tree w) state_file_rel = None"
      proof -
        from works(1) obtain v where "load_state mc w1 = (Inr None, v)"
          by (auto simp: refuse_active_def unless_def fail_with_def elim!: chain_works split: if_splits)
        from load_state_none [OF this] t1 show ?thesis by simp
      qed
      from works(2) show ?thesis
      proof (cases rule: chainE)
        case (fails e)
        then show ?thesis using looks [OF moves_validate [OF orderly_eq]] t2 by metis
      next
        case (works b w3)
        have t3: "wd_tree w3 = wd_tree w" using looks [OF moves_validate [OF orderly_eq] works(1)] t2 by simp
        have "is_directory (wd_tree w) (butlast (work_dir_rel i))"
          using works(1) t2 m by (auto simp: validate_scenario_artifacts_def elim!: chain_works dest!: require_directory_works)
        then have anchor: "anchored (work_dir_rel i) (wd_tree w)" by (rule well_formed_anchored [OF wf])
        from works(2) show ?thesis
        proof (cases rule: chainE)
          case (fails e)
          then show ?thesis using looks [OF moves_check_imports [OF orderly_eq]] t3 by metis
        next
          case (works c w4)
          have t4: "wd_tree w4 = wd_tree w" using looks [OF moves_check_imports [OF orderly_eq] works(1)] t3 by simp
          from works(2) show ?thesis
          proof (cases rule: chainE)
            case (fails e)
            then show ?thesis using looks [OF moves_inspect [OF orderly_eq]] t4 by metis
          next
            case (works existed w5)
            have t5: "wd_tree w5 = wd_tree w" using looks [OF moves_inspect [OF orderly_eq] works(1)] t4 by simp
            note found = inspect_works [OF works(1), unfolded t4 m, OF wf]
            from works(2) show ?thesis
            proof (cases rule: chainE)
              case (fails e)
              then show ?thesis using looks [OF moves_definition_hashes [OF orderly_eq]] t5 by metis
            next
              case (works hashes w6)
              have t6: "wd_tree w6 = wd_tree w" using looks [OF moves_definition_hashes [OF orderly_eq] works(1)] t5 by simp
              let ?s = "first_state mc now git m existed hashes"
              have "describes i (wd_tree w) ?s" "ss_version ?s = 2" "ss_phase ?s = Staging"
                using found(1) m by (simp_all add: describes_def first_state_def)
              moreover have "starts_clean i (wd_tree w)" using wf anchor found none by (simp add: starts_clean_def)
              ultimately show ?thesis using works(2) t6 by blast
            qed
          qed
        qed
      qed
    qed
  qed
qed

lemma start_outcome:
  assumes run: "cmd_start mc now git activate i w = (r, w')" and wf: "well_formed (wd_tree w)" and rb: "reads_back mc"
  shows "(wd_tree w' = wd_tree w \<and> (\<exists>e. r = Inl e)) \<or>
    (starts_clean i (wd_tree w) \<and> (case r of Inl e \<Rightarrow> recoverable mc i (wd_tree w) False (wd_tree w')
      | Inr u \<Rightarrow> live mc i (wd_tree w) (wd_tree w') \<and> secured i (wd_tree w) (wd_tree w') \<and>
          (\<exists>s'. recorded mc s' (wd_tree w') \<and> describes i (wd_tree w) s' \<and> (activate \<longrightarrow> ss_phase s' = Active))))"
proof -
  from start_reaches_stage [OF run wf] show ?thesis
  proof
    assume "starts_clean i (wd_tree w) \<and> (\<exists>m s w1. wd_tree w1 = wd_tree w \<and> stage mc m activate s w1 = (r, w') \<and>
       describes i (wd_tree w) s \<and> ss_version s = 2 \<and> ss_phase s = Staging)"
    then obtain m s w1 where c: "starts_clean i (wd_tree w)" and t1: "wd_tree w1 = wd_tree w"
      and st: "stage mc m activate s w1 = (r, w')" and s: "describes i (wd_tree w) s" "ss_version s = 2" by blast
    from stage_outcome [OF st, unfolded t1, OF c s rb] c show ?thesis by simp
  qed simp
qed

section \<open>Resetting\<close>

lemma archive_untouched:
  assumes run: "archive_attempt mc now stamp s w = (r, w')" and s: "untouched_yet s" "describes i t0 s" "had_work i t0" "ss_version s = 2"
    and n: "no_stash i (wd_tree w)"
  shows "wd_tree w' = wd_tree w"
proof -
  from s have i: "ss_id s = i" "ss_existed s = Some True" "ss_phase s = Staging" "ss_moved s = Some False"
    by (simp_all add: describes_def untouched_yet_def)
  let ?ask = "chain (pre_start_work_path_of i) (\<lambda>b. asks (\<lambda>t. \<not> present t b))"
  have ask: "moves (=) ?ask" by (intro moving)
  from run obtain rest where "chain ?ask (\<lambda>untouched. if untouched then give None else rest) w = (r, w')"
    unfolding archive_attempt_def by (simp add: i s(4))
  then show ?thesis
  proof (cases rule: chainE)
    case (fails e)
    then show ?thesis using looks [OF ask] by blast
  next
    case (works u w1)
    have t1: "wd_tree w1 = wd_tree w" by (rule looks [OF ask works(1)])
    have u
      using works(1) no_stash_directory [OF n] unfolding places straight
      by (auto simp: asks_def elim!: chain_works dest!: looks [OF moves_reach [OF orderly_eq]])
    with works(2) t1 show ?thesis by (auto simp: give_def)
  qed
qed

lemma load_state_some:
  assumes "load_state mc w = (Inr (Some s), w')"
  shows "dict_get (wd_tree w) state_file_rel \<noteq> None"
proof -
  from assms obtain w1 w2 n where r: "reach state_file_rel w = (Inr (), w1)"
    and n: "translating ArtifactError (stat_entry state_file_rel) w1 = (Inr n, w2)" "n \<noteq> None"
    unfolding load_state_def straight by (auto elim!: chain_works simp: give_def split: option.splits)
  from looks [OF moves_reach [OF orderly_eq] r] n show ?thesis
    by (auto simp: translating_works node_at_def dirs dest!: stat_works split: if_splits)
qed

lemma refuse_other_loads: "refuse_other mc i w = (Inr s, w') \<Longrightarrow> \<exists>v. load_state mc w = (Inr (Some s), v)"
  unfolding refuse_other_def
  by (auto elim!: chain_works simp: give_def fail_with_def split: option.splits if_splits)

lemma archive_outcome:
  assumes run: "archive_attempt mc now stamp s w = (r, w')" and s: "describes i t0 s" "ss_version s = 2"
    and wf: "well_formed (wd_tree w)" "anchored (work_dir_rel i) (wd_tree w)" and ok: "undoable i t0 s (wd_tree w)"
  shows "undoable i t0 s (wd_tree w')"
proof (cases "had_work i t0 \<and> no_stash i (wd_tree w) \<and> untouched_yet s")
  case True
  with archive_untouched [OF run _ s(1) _ s(2)] ok show ?thesis by simp
next
  case False
  from s have i: "ss_id s = i" by (simp add: describes_def)
  have "dict_get (wd_tree w') p = dict_get (wd_tree w) p" if "prefix (pre_start_work_dir_rel i) p" for p
  proof (rule stays_use(3) [OF confined_archive [OF i] run wf])
    show "\<not> in_archived i p" using that pre_start_outside [OF that]
      by (auto simp: in_archived_def in_archives_def dirs prefix_def)
  qed
  then have "kept i t0 (wd_tree w') = kept i t0 (wd_tree w)" "no_stash i (wd_tree w') = no_stash i (wd_tree w)"
    by (intro kept_cong no_stash_cong; simp)+
  with False ok show ?thesis by (auto simp: undoable_def)
qed

lemma reset_tail:
  fixes m2 :: "unit program"
  assumes "chain m1 (\<lambda>a. chain (handling P m2 (\<lambda>e. fail_with (f a e))) (\<lambda>_. chain m3 (\<lambda>_. give a))) w1 = (r, w')"
    "m1 w1 = (r2, w2)" "m2 w2 = (r3, w3)"
  shows "(\<exists>e. r = Inl e \<and> (w' = w2 \<or> w' = w3)) \<or> (\<exists>a. r3 = Inr () \<and> chain m3 (\<lambda>_. give a) w3 = (r, w'))"
proof (cases r2)
  case (Inl e)
  with assms show ?thesis by (auto simp: chain_def)
next
  case (Inr a)
  show ?thesis
  proof (cases r3)
    case (Inl e)
    with Inr assms show ?thesis by (cases "P e") (auto simp: chain_def handling_def fail_with_def)
  next
    case r3: (Inr u)
    with Inr assms have "chain m3 (\<lambda>_. give a) w3 = (r, w')" by (simp add: chain_def [of m1] chain_def [of "handling P m2 h" for h] handling_def)
    with r3 show ?thesis by auto
  qed
qed

lemma reset_outcome:
  assumes run: "cmd_reset mc now stamp i w = (r, w')" and c: "starts_clean i t0" and ok: "recoverable mc i t0 active (wd_tree w)"
  shows "recoverable mc i t0 active (wd_tree w') \<and>
    (\<forall>a. r = Inr a \<longrightarrow> dict_get (wd_tree w') state_file_rel = None \<and> same_work i t0 (wd_tree w'))"
proof -
  from ok have wf: "well_formed (wd_tree w)" "anchored (work_dir_rel i) (wd_tree w)" and out: "unchanged_outside i t0 (wd_tree w)"
    by (simp_all add: recoverable_def)
  have other: "moves (=) (refuse_other mc i)" by (intro moving)
  from run [unfolded cmd_reset_def] show ?thesis
  proof (cases rule: chainE)
    case (fails e)
    with looks [OF other fails(1)] ok show ?thesis by simp
  next
    case (works s w1)
    have t1: "wd_tree w1 = wd_tree w" by (rule looks [OF other works(1)])
    from refuse_other_loads [OF works(1)] obtain v where v: "load_state mc w = (Inr (Some s), v)" by blast
    from load_state_some [OF v] ok
    obtain sd where sd: "recorded mc sd (wd_tree w)" "describes i t0 sd" "active \<longrightarrow> ss_phase sd = Active" "undoable i t0 sd (wd_tree w)"
      by (auto simp: recoverable_def)
    from load_state_recorded [OF sd(1) v]
    have f: "ss_id s = ss_id sd" "ss_phase s = ss_phase sd" "ss_existed s = ss_existed sd" "ss_moved s = ss_moved sd" "ss_version s = 2"
      by auto
    have s: "describes i t0 s" and i: "ss_id s = i" using sd(2) f by (simp_all add: describes_def)
    have same: "undoable i t0 s t = undoable i t0 sd t" for t by (simp add: undoable_def untouched_yet_def f)
    have state: "recoverable mc i t0 active t"
      if "well_formed t" "anchored (work_dir_rel i) t" "unchanged_outside i t0 t" "recorded mc sd t" "undoable i t0 s t" for t
      using that sd(2,3) same by (auto simp: recoverable_def)
    obtain r2 w2 where r2: "archive_attempt mc now stamp s w1 = (r2, w2)" by fastforce
    note a2 = stays_use [OF confined_archive [OF i] r2, unfolded t1, OF wf]
    have out2: "unchanged_outside i t0 (wd_tree w2)"
      by (rule unchanged_outside_trans [OF out, of "in_archived i"]) (simp_all add: a2 archived_in_area)
    have rec2: "recorded mc sd (wd_tree w2)" using sd(1) recorded_cong [OF a2(3)] state_file_regions(6) by blast
    have un2: "undoable i t0 s (wd_tree w2)"
      using archive_outcome [OF r2 s f(5), unfolded t1, OF wf] sd(4) same by blast
    obtain r3 w3 where r3: "restore_work_directory mc s w2 = (r3, w3)" by fastforce
    then have restored: "restore_scenario mc s w2 = (r3, w3)" by (simp add: restore_scenario_def f(5))
    note a3 = stays_use [OF confined_restore [OF i] restored a2(1,2)]
    note un3 = restore_outcome [OF r3 s c a2(1,2) un2]
    have out3: "unchanged_outside i t0 (wd_tree w3)"
      by (rule unchanged_outside_trans [OF out2, of "in_restored i"]) (simp_all add: a3 restored_in_area)
    have rec3: "recorded mc sd (wd_tree w3)" using rec2 recorded_cong [OF a3(3)] state_file_regions(4) by blast
    have st2: "recoverable mc i t0 active (wd_tree w2)" using state a2(1,2) out2 rec2 un2 by blast
    have st3: "recoverable mc i t0 active (wd_tree w3)" using state a3(1,2) out3 rec3 un3 by blast
    from reset_tail [OF works(2) r2 restored] consider e where "r = Inl e" "w' = w2 \<or> w' = w3"
      | a where "r3 = Inr ()" "chain clear_state (\<lambda>_. give a) w3 = (r, w')"
      by blast
    then show ?thesis
    proof cases
      case 1
      with st2 st3 show ?thesis by auto
    next
      case 2
      from 2(2) obtain x where x: "clear_state w3 = (x, w')" "case r of Inl e \<Rightarrow> \<exists>e. x = Inl e | Inr a \<Rightarrow> x = Inr ()"
        by (cases r) (auto elim!: chainE simp: give_def)
      show ?thesis
      proof (cases x)
        case (Inl e)
        with clear_state_outcome [OF x(1)] x(2) st3 show ?thesis by (cases r) auto
      next
        case (Inr u)
        with clear_state_outcome [OF x(1)]
        have gone: "dict_get (wd_tree w') state_file_rel = None"
          "\<And>p. p \<noteq> state_file_rel \<Longrightarrow> dict_get (wd_tree w') p = dict_get (wd_tree w3) p" by simp_all
        note a4 = stays_use(1,2) [OF confined_clear x(1) a3(1,2)]
        have "same_work i t0 (wd_tree w') = same_work i t0 (wd_tree w3)"
          by (intro same_work_cong gone(2)) (use state_file_regions(1) [of i] in auto)
        with un3 2(1) have "same_work i t0 (wd_tree w')" by simp
        moreover have "unchanged_outside i t0 (wd_tree w')"
          by (rule unchanged_outside_trans [OF out3 gone(2)]) (auto simp: state_file_regions)
        ultimately show ?thesis using a4 gone(1) by (simp add: recoverable_def)
      qed
    qed
  qed
qed

section \<open>From start to reset\<close>

text \<open>
  What may happen after a start: resets, each with its own fate, whatever their result; and, if the start succeeded and
  its state is still there, the participant leaves any well-formed tree that differs in the work directory only.
\<close>

inductive aftermath :: "machine \<Rightarrow> string \<Rightarrow> bool \<Rightarrow> tree \<Rightarrow> tree \<Rightarrow> bool" for mc i started t where
  nothing: "aftermath mc i started t t"
| resets: "aftermath mc i started t (wd_tree w) \<Longrightarrow> cmd_reset mc now stamp i w = (r, w') \<Longrightarrow>
    aftermath mc i started t (wd_tree w')"
| edits: "aftermath mc i started t u \<Longrightarrow> started \<Longrightarrow> dict_get u state_file_rel \<noteq> None \<Longrightarrow> well_formed u' \<Longrightarrow>
    (\<And>p. \<not> in_work i p \<Longrightarrow> dict_get u' p = dict_get u p) \<Longrightarrow> aftermath mc i started t u'"

lemma aftermath_recoverable:
  assumes "aftermath mc i started t u" "starts_clean i t0" "recoverable mc i t0 started t"
  shows "recoverable mc i t0 started u"
  using assms(1)
proof (induction rule: aftermath.induct)
  case nothing
  show ?case by (rule assms(3))
next
  case (resets w now stamp r w')
  with reset_outcome [OF resets(2) assms(2)] show ?case by blast
next
  case (edits u u')
  then obtain s where s: "recorded mc s u" "describes i t0 s" "ss_phase s = Active" "undoable i t0 s u"
    by (auto simp: recoverable_def)
  from edits have u: "anchored (work_dir_rel i) u" "unchanged_outside i t0 u" by (simp_all add: recoverable_def)
  have "anchored (work_dir_rel i) u'" by (rule stays_anchored [OF _ u(1), of "in_work i"]) (simp_all add: edits)
  moreover have "unchanged_outside i t0 u'"
    by (rule unchanged_outside_trans [OF u(2), of "in_work i"]) (simp_all add: edits in_work_area)
  moreover have "recorded mc s u'" using s(1) recorded_cong edits(5) state_file_regions(1) by metis
  moreover have "kept i t0 u' = kept i t0 u" "no_stash i u' = no_stash i u"
    using edits(5) pre_start_outside by (intro kept_cong no_stash_cong; blast)+
  with s have "undoable i t0 s u'" by (auto simp: undoable_def untouched_yet_def)
  ultimately show ?case using edits(4) s by (auto simp: recoverable_def)
qed

lemma start_recoverable:
  assumes run: "cmd_start mc now git True i w = (r, w')" and wf: "well_formed (wd_tree w)" and rb: "reads_back mc"
  shows "(wd_tree w' = wd_tree w \<and> (\<exists>e. r = Inl e)) \<or>
    (starts_clean i (wd_tree w) \<and> recoverable mc i (wd_tree w) (r = Inr ()) (wd_tree w'))"
proof -
  have "recoverable mc i t0 True t" if "live mc i t0 t" "secured i t0 t" "recorded mc s t" "describes i t0 s" "ss_phase s = Active" for s t0 t
    using that by (auto simp: recoverable_def live_def undoable_def secured_def)
  with start_outcome [OF run wf rb] show ?thesis by (cases r) auto
qed

lemma idle_aftermath:
  assumes "aftermath mc i False t u" "dict_get t state_file_rel = None"
  shows "u = t"
  using assms
proof (induction rule: aftermath.induct)
  case (resets w now stamp r w')
  have other: "moves (=) (refuse_other mc i)" by (intro moving)
  from resets(2) [unfolded cmd_reset_def] show ?case
  proof (cases rule: chainE)
    case (fails e)
    with looks [OF other fails(1)] resets show ?thesis by simp
  next
    case (works s w1)
    with refuse_other_loads load_state_some resets show ?thesis by blast
  qed
qed simp_all

lemma outside_home:
  assumes "unchanged_outside i t0 t" "same_work i t0 t" "\<not> in_home p"
  shows "dict_get t p = dict_get t0 p"
  using assms by (auto simp: unchanged_outside_def same_work_def in_area_def)

end
