(* ===== verification/CommandLaws.thy ===== *)
theory CommandLaws
  imports RecoveryLaws
begin

text \<open>
  Resuming as a transaction, and every command of the runner confined to the work directory of its scenario and the state
  directory, the lock included.
\<close>

section \<open>Resuming\<close>

definition resume_tail :: "machine \<Rightarrow> string \<Rightarrow> git_identity option \<Rightarrow> string \<Rightarrow> (string, string) dict \<Rightarrow> work_entry list \<Rightarrow> unit program" where
  "resume_tail mc now git i contents entries =
     chain (cmd_start mc now git False i) (\<lambda>_.
     chain (load_state mc) (\<lambda>r. case r of
       None \<Rightarrow> fail_with StateConflictError
     | Some s \<Rightarrow>
         chain (attempt mc s (rebuild_work mc i contents entries)) (\<lambda>_.
         attempt mc (s\<lparr>ss_phase := Active\<rparr>) (save_state mc (s\<lparr>ss_phase := Active\<rparr>)))))"

text \<open>Everything before the start only looks.\<close>

lemma moves_resume_sources: "orderly R \<Longrightarrow> moves R (resume_sources mc xs)"
  by (induction mc xs rule: resume_sources.induct) (auto intro!: moving)

lemma moves_saved_contents: "orderly R \<Longrightarrow> moves R (saved_contents mc dir sources xs)"
  by (induction xs) (auto simp: saved_content_def intro!: moving)

definition resume_head :: "machine \<Rightarrow> string \<Rightarrow> string \<Rightarrow> ((string, string) dict \<times> work_entry list) program" where
  "resume_head mc i attempt_id =
     chain (scenario_manifest mc i) (\<lambda>m.
     chain (refuse_active mc) (\<lambda>_.
     chain (load_attempt mc i attempt_id) (\<lambda>(dir, meta, entries).
     chain (definition_hashes mc i) (\<lambda>(ch, mh).
     if dict_get meta ''catalogue_sha256'' \<noteq> Some (VStr ch) \<or> dict_get meta ''manifest_sha256'' \<noteq> Some (VStr mh)
     then fail_with ArtifactError else
     chain (checked (as_dict_list meta ''baseline'')) (\<lambda>baseline.
     if length baseline \<noteq> length (mf_stage m) then fail_with ArtifactError else
     chain (resume_sources mc (zip baseline (mf_stage m))) (\<lambda>sources.
     chain (saved_contents mc dir (rev sources) entries) (\<lambda>contents. give (contents, entries))))))))"

lemma chain_if: "chain (if b then m else n) f = (if b then chain m f else chain n f)"
  by simp

lemma chain_prod: "chain (case p of (a, b) \<Rightarrow> m a b) f = (case p of (a, b) \<Rightarrow> chain (m a b) f)"
  by (simp add: case_prod_beta)

lemma resume_parts:
  "cmd_resume mc now git i attempt_id =
    chain (resume_head mc i attempt_id) (\<lambda>(contents, entries). resume_tail mc now git i contents entries)"
  unfolding cmd_resume_def resume_head_def resume_tail_def Let_def
  by (simp only: chain_assoc chain_if chain_prod chain_fail chain_give prod.case case_prod_eta cong: if_cong)

lemma moves_resume_head: "orderly R \<Longrightarrow> moves R (resume_head mc i a)"
  unfolding resume_head_def by (intro moving moves_resume_sources moves_saved_contents)

lemma resume_head_loads:
  "resume_head mc i a w = (Inr (contents, entries), w') \<Longrightarrow> \<exists>dir meta v v'. load_attempt mc i a v = (Inr (dir, meta, entries), v')"
  unfolding resume_head_def by (auto elim!: chain_works simp: fail_with_def give_def split: if_splits) blast+

lemma resume_head_entries:
  "resume_head mc i a w = (Inr (contents, entries), w') \<Longrightarrow> x \<in> set entries \<Longrightarrow>
    in_work i (pure_path (we_path x)) \<and> (we_file x \<longrightarrow> pure_path (we_path x) \<noteq> work_dir_rel i)"
  using resume_head_loads load_attempt_entries by blast

lemma recoverable_active:
  assumes "live mc i t0 t" "secured i t0 t" "recorded mc s t" "describes i t0 s" "ss_phase s = Active"
  shows "recoverable mc i t0 True t"
  using assms by (auto simp: recoverable_def live_def undoable_def secured_def)

lemma resume_tail_outcome:
  assumes run: "resume_tail mc now git i contents entries w = (r, w')" and wf: "well_formed (wd_tree w)" and rb: "reads_back mc"
    and entries: "\<And>x. x \<in> set entries \<Longrightarrow>
      in_work i (pure_path (we_path x)) \<and> (we_file x \<longrightarrow> pure_path (we_path x) \<noteq> work_dir_rel i)"
  shows "(wd_tree w' = wd_tree w \<and> (\<exists>e. r = Inl e)) \<or>
    (starts_clean i (wd_tree w) \<and> recoverable mc i (wd_tree w) (r = Inr ()) (wd_tree w'))"
  using run [unfolded resume_tail_def]
proof (cases rule: chainE)
  case (fails e)
  with start_outcome [OF fails(1) wf rb] show ?thesis by simp
next
  case (works u w1)
  let ?t0 = "wd_tree w"
  from start_outcome [OF works(1) wf rb] obtain sd where c: "starts_clean i ?t0" and l1: "live mc i ?t0 (wd_tree w1)" "secured i ?t0 (wd_tree w1)"
    and sd: "recorded mc sd (wd_tree w1)" "describes i ?t0 sd" by auto
  have load: "moves (=) (load_state mc)" by (intro moving)
  from works(2) show ?thesis
  proof (cases rule: chainE)
    case (fails e)
    with looks [OF load fails(1)] live_recoverable [OF l1(1)] c show ?thesis by simp
  next
    case (works x w2)
    have t2: "wd_tree w2 = wd_tree w1" by (rule looks [OF load works(1)])
    from load_state_recorded [OF sd(1) works(1)] obtain s where x: "x = Some s" and f: "ss_id s = ss_id sd" "ss_existed s = ss_existed sd" "ss_version s = 2"
      by metis
    have s: "describes i ?t0 s" using f sd(2) by (simp add: describes_def)
    have rebuilt: "live mc i ?t0 (wd_tree v) \<and> secured i ?t0 (wd_tree v)" if "rebuild_work mc i contents entries w2 = (y, v)" for y v
      by (rule live_frame [OF _ confined_rebuild [OF entries] that in_work_area])
        (use l1 t2 in \<open>simp_all add: state_file_regions pre_start_outside\<close>)
    from works(2) x have "chain (attempt mc s (rebuild_work mc i contents entries)) (\<lambda>_.
         attempt mc (s\<lparr>ss_phase := Active\<rparr>) (save_state mc (s\<lparr>ss_phase := Active\<rparr>))) w2 = (r, w')" by simp
    then show ?thesis
    proof (cases rule: chainE)
      case (fails e)
      with attempt_outcome [OF fails(1) s f(3) c] rebuilt c show ?thesis by simp
    next
      case (works u' w3)
      with attempt_outcome [OF works(1) s f(3) c] rebuilt have "rebuild_work mc i contents entries w2 = (Inr u', w3)" by simp
      from rebuilt [OF this] have l3: "live mc i ?t0 (wd_tree w3)" "secured i ?t0 (wd_tree w3)" by simp_all
      let ?s = "s\<lparr>ss_phase := Active\<rparr>"
      have s': "describes i ?t0 ?s" "ss_version ?s = 2" using s f by (simp_all add: describes_def)
      from attempt_save [OF works(2) s' c l3(1) rb] l3(2) c recoverable_active [of mc i ?t0 "wd_tree w'" ?s] s'(1)
      show ?thesis by (cases r) (auto simp: secured_def)
    qed
  qed
qed

lemma resume_recoverable:
  assumes run: "cmd_resume mc now git i a w = (r, w')" and wf: "well_formed (wd_tree w)" and rb: "reads_back mc"
  shows "(wd_tree w' = wd_tree w \<and> (\<exists>e. r = Inl e)) \<or>
    (starts_clean i (wd_tree w) \<and> recoverable mc i (wd_tree w) (r = Inr ()) (wd_tree w'))"
proof -
  have head: "moves (=) (resume_head mc i a)" by (rule moves_resume_head [OF orderly_eq])
  from run [unfolded resume_parts] show ?thesis
  proof (cases rule: chainE)
    case (fails e)
    with looks [OF head fails(1)] show ?thesis by simp
  next
    case (works x w1)
    obtain contents entries where x: "x = (contents, entries)" by fastforce
    have t1: "wd_tree w1 = wd_tree w" by (rule looks [OF head works(1)])
    from works(2) x have "resume_tail mc now git i contents entries w1 = (r, w')" by simp
    from resume_tail_outcome [OF this _ rb] wf t1 resume_head_entries works(1) x show ?thesis by metis
  qed
qed

section \<open>Start or resume, then reset\<close>

text \<open>The commands that stage a scenario.\<close>

definition stages_scenario :: "machine \<Rightarrow> string \<Rightarrow> unit program \<Rightarrow> bool" where
  "stages_scenario mc i m \<longleftrightarrow> (\<exists>now git. m = cmd_start mc now git True i) \<or> (\<exists>now git a. m = cmd_resume mc now git i a)"

lemma opening_recoverable:
  assumes "stages_scenario mc i m" "m w = (r, w')" "well_formed (wd_tree w)" "reads_back mc"
  shows "(wd_tree w' = wd_tree w \<and> (\<exists>e. r = Inl e)) \<or>
    (starts_clean i (wd_tree w) \<and> recoverable mc i (wd_tree w) (r = Inr ()) (wd_tree w'))"
  using assms start_recoverable resume_recoverable unfolding stages_scenario_def by blast

lemma opening_then_reset:
  assumes rb: "reads_back mc" and wf: "well_formed (wd_tree w)" and none: "dict_get (wd_tree w) state_file_rel = None"
    and op: "stages_scenario mc i m" "m w = (r, w1)"
    and after: "aftermath mc i (r = Inr ()) (wd_tree w1) (wd_tree w2)"
    and reset: "cmd_reset mc now' stamp i w2 = (Inr a, w3)"
  shows "dict_get (wd_tree w3) state_file_rel = None" "\<not> in_home p \<Longrightarrow> dict_get (wd_tree w3) p = dict_get (wd_tree w) p"
proof -
  from opening_recoverable [OF op wf rb]
  have "starts_clean i (wd_tree w) \<and> recoverable mc i (wd_tree w) (r = Inr ()) (wd_tree w1)"
  proof
    assume "wd_tree w1 = wd_tree w \<and> (\<exists>e. r = Inl e)"
    then have "wd_tree w2 = wd_tree w" using idle_aftermath after none by fastforce
    moreover from reset obtain s v where "load_state mc w2 = (Inr (Some s), v)"
      unfolding cmd_reset_def by (auto elim!: chain_works dest!: refuse_other_loads)
    ultimately show ?thesis using load_state_some none by metis
  qed simp
  then have c: "starts_clean i (wd_tree w)" and "recoverable mc i (wd_tree w) (r = Inr ()) (wd_tree w2)"
    using aftermath_recoverable [OF after] by blast+
  from reset_outcome [OF reset c this(2)]
  have "recoverable mc i (wd_tree w) (r = Inr ()) (wd_tree w3)" "same_work i (wd_tree w) (wd_tree w3)"
    "dict_get (wd_tree w3) state_file_rel = None" by simp_all
  then show "dict_get (wd_tree w3) state_file_rel = None" "\<not> in_home p \<Longrightarrow> dict_get (wd_tree w3) p = dict_get (wd_tree w) p"
    using outside_home by (auto simp: recoverable_def)
qed

lemma opening_leaves_nothing:
  assumes rb: "reads_back mc" and wf: "well_formed (wd_tree w)"
    and op: "stages_scenario mc i m" "m w = (r, w1)" and cleared: "dict_get (wd_tree w1) state_file_rel = None"
    and p: "\<not> in_home p"
  shows "dict_get (wd_tree w1) p = dict_get (wd_tree w) p"
  using opening_recoverable [OF op wf rb]
proof
  assume "starts_clean i (wd_tree w) \<and> recoverable mc i (wd_tree w) (r = Inr ()) (wd_tree w1)"
  with cleared have "unchanged_outside i (wd_tree w) (wd_tree w1)" "same_work i (wd_tree w) (wd_tree w1)"
    by (auto simp: recoverable_def recorded_def)
  with p show ?thesis by (rule outside_home [rotated 2])
qed simp

section \<open>Every command is confined\<close>

lemma confined_resume: "reads_back mc \<Longrightarrow> confined_to i (in_area i) (cmd_resume mc now git i a)"
  unfolding moves_def stays_def
proof (intro allI impI)
  fix w :: world
  assume rb: "reads_back mc" and w: "well_formed (wd_tree w) \<and> anchored (work_dir_rel i) (wd_tree w)"
  obtain r w' where run: "cmd_resume mc now git i a w = (r, w')" by fastforce
  from resume_recoverable [OF run _ rb] w
  show "well_formed (wd_tree (snd (cmd_resume mc now git i a w))) \<and> anchored (work_dir_rel i) (wd_tree (snd (cmd_resume mc now git i a w))) \<and>
      (\<forall>p. \<not> in_area i p \<longrightarrow> dict_get (wd_tree (snd (cmd_resume mc now git i a w))) p = dict_get (wd_tree w) p)"
    by (auto simp: run recoverable_def unchanged_outside_def)
qed

text \<open>A participant's program, as an acceptance command runs it, is confined only by itself.\<close>

definition launcher_confined :: "string \<Rightarrow> launcher \<Rightarrow> bool" where
  "launcher_confined i run \<longleftrightarrow> (\<forall>argv env n t. stays (work_dir_rel i) (in_area i) t (snd (run argv env n t)))"

lemma confined_acceptance:
  assumes "launcher_confined i run"
  shows "confined_to i (in_area i) (run_acceptance mc h run m)"
proof -
  have one: "confined_to i (in_area i) (run_acceptance_command h run c)" for c
    unfolding moves_def
  proof
    fix w :: world
    let ?e = "run (build_argv h c) (acceptance_environment h) (am_timeout c) (wd_tree w)"
    have "wd_tree (snd (run_acceptance_command h run c w)) = snd ?e"
      by (cases ?e; cases "fst ?e") (auto simp: run_acceptance_command_def)
    with assms show "stays (work_dir_rel i) (in_area i) (wd_tree w) (wd_tree (snd (run_acceptance_command h run c w)))"
      by (simp add: launcher_confined_def)
  qed
  have "confined_to i (in_area i) (run_commands h run cs)" for cs
    by (induction cs) (auto intro!: moving one)
  then show ?thesis unfolding run_acceptance_def by (cases "mf_kind m") (auto intro!: moving)
qed

lemma first_record_result: "first_record_path ps w = (Inr p, w') \<Longrightarrow> p \<in> set ps"
proof (induction ps arbitrary: w)
  case (Cons q qs)
  from Cons.prems have "p = q \<or> (\<exists>v. first_record_path qs v = (Inr p, w'))"
    by (auto simp: straight give_def elim!: chain_works split: if_splits)
  with Cons.IH show ?case by auto
qed (simp add: fail_with_def)

lemma record_directory_result: "record_directory mc s w = (Inr p, w') \<Longrightarrow> in_home p \<and> p \<noteq> []"
  unfolding record_directory_def by (auto dest!: resolved_works simp: in_home_def dirs)

lemma in_home_extend: "in_home p \<Longrightarrow> in_home (p @ q)"
  by (auto simp: in_home_def intro: prefix_prefix)

lemma home_ancestor: "in_home p \<Longrightarrow> prefix q p \<Longrightarrow> q \<noteq> [] \<Longrightarrow> in_home q"
  by (auto simp: in_home_def dirs prefix_def Cons_eq_append_conv append_eq_Cons_conv)

lemma confined_home_write:
  assumes "in_home p" "in_home (butlast p)"
  shows "confined_to i (in_area i) (atomic_write dm p d m)"
proof (rule confined_atomic_write)
  show "in_area i p" using assms(1) by (simp add: in_area_def)
  show "in_area i (butlast p @ [temporary_name n])" for n using assms(2) by (simp add: in_area_def in_home_extend)
  show "in_area i q \<or> strict_prefix q (work_dir_rel i)" if "strict_prefix q p" "q \<noteq> []" for q
    using home_ancestor [OF assms(1) _ that(2)] that(1) by (simp add: in_area_def strict_prefix_def)
qed simp

lemma confined_save_record: "confined_to i (in_area i) (save_verification_record mc started finished stamp observations passed s before)"
  unfolding save_verification_record_def Let_def
proof (intro moves_chain [OF orderly_stays moves_capture [OF orderly_stays]] moves_if moves_fail orderly_stays
    moves_chain_post [OF orderly_stays moves_record_directory [OF orderly_stays]]
    moves_chain_post [OF orderly_stays moves_first_record_path [OF orderly_stays]])
  fix base w w' p v v' d
  assume "record_directory mc s w = (Inr base, w')"
    and "first_record_path (map (\<lambda>n. base @ [stamp @ CHR ''-'' # three_digits n @ ''.json'']) [1..<1000]) v = (Inr p, v')"
  then have "in_home base" "base \<noteq> []" "\<exists>x. p = base @ [x]" by (auto dest!: record_directory_result first_record_result)
  then have "in_home p" "in_home (butlast p)" by (auto simp: in_home_extend)
  then show "confined_to i (in_area i) (chain (atomic_write (mc_dir_mode mc) p
      (mc_dump mc (VDict (verification_record mc started finished observations passed s before d))) 384) (\<lambda>_. give p))"
    by (intro moving confined_home_write)
qed

lemma confined_verify:
  "launcher_confined i run \<Longrightarrow> confined_to i (in_area i) (cmd_verify mc h run observe started finished stamp recording i)"
  unfolding cmd_verify_def Let_def by (intro moving confined_acceptance confined_save_record)

lemma confined_lock:
  assumes "confined_to i (in_area i) body"
  shows "confined_to i (in_area i) (lifecycle_lock held note body)"
proof -
  have p: "in_area i lock_path" by (simp add: in_area_def in_home_def lock_path_def)
  have open_it: "confined_to i (in_area i) (changes open_lock)"
    by (intro moves_changes orderly_stays)
      (auto simp: open_lock_def orderly_refl [OF orderly_stays] intro: stays_create_file p split: option.splits node.splits)
  have chmod: "confined_to i (in_area i) (changes (change_mode m lock_path))" for m
    by (intro moves_changes orderly_stays) (auto intro: stays_change_mode p)
  have content: "confined_to i (in_area i) (changes (write_file d lock_path))" for d
    by (intro moves_changes orderly_stays) (auto intro: stays_write_file p)
  have mk: "confined_to i (in_area i) (make_directories 448 state_dir_rel)"
    by (rule confined_make_directories) (simp, auto simp: in_area_def in_home_def state_dir_rel_def prefix_Cons)
  show ?thesis unfolding lifecycle_lock_def
    by (intro moves_chain moves_if moves_fail moves_asks moves_translating moves_observes orderly_stays open_it chmod content mk assms)
qed

fun command_scenario :: "command \<Rightarrow> string" where
  "command_scenario List_scenarios = []"
| "command_scenario Status = []"
| "command_scenario (Start i) = i"
| "command_scenario (Verify i recording) = i"
| "command_scenario (Reset i) = i"
| "command_scenario (Fallback i) = i"
| "command_scenario (Diff i selected) = i"
| "command_scenario (Attempts i) = i"
| "command_scenario (Resume i a) = i"
| "command_scenario (Resync i) = i"

lemma moves_quiet: "orderly R \<Longrightarrow> moves R m \<Longrightarrow> moves R (quiet m)"
  unfolding quiet_def by (intro moving)

lemma confined_handler:
  assumes "reads_back (iv_machine v)" "launcher_confined (command_scenario c) (iv_launcher v)"
  shows "confined_to (command_scenario c) (in_area (command_scenario c)) (handler v c)"
  using assms
  by (cases c) (auto simp: handler_def Let_def intro!: moves_quiet orderly_stays confined_start confined_resume confined_verify
      confined_reset looks_list looks_status looks_fallback looks_diff looks_attempts looks_resync)

lemma confined_main:
  assumes "reads_back (iv_machine v)" "launcher_confined (command_scenario c) (iv_launcher v)"
  shows "confined_to (command_scenario c) (in_area (command_scenario c)) (run_main v c)"
  unfolding run_main_def
  by (intro moves_chain moves_asks moves_if moves_fail orderly_stays confined_lock confined_handler assms)

text \<open>A command that finds the lock held changes nothing but the lock file, and the commands that only look nothing at all.\<close>

lemma held_lock:
  assumes "lifecycle_lock True note body w = (r, w')" "well_formed (wd_tree w)"
  shows "(\<exists>e. r = Inl e) \<and> (\<forall>p. p \<noteq> lock_path \<and> p \<noteq> state_dir_rel \<longrightarrow> dict_get (wd_tree w') p = dict_get (wd_tree w) p)"
proof -
  let ?A = "\<lambda>p. p = lock_path \<or> p = state_dir_rel"
  have open_it: "moves (stays [] ?A) (changes open_lock)"
    by (intro moves_changes orderly_stays)
      (auto simp: open_lock_def orderly_refl [OF orderly_stays] intro: stays_create_file clear_root split: option.splits node.splits)
  have chmod: "moves (stays [] ?A) (changes (change_mode m lock_path))" for m
    by (intro moves_changes orderly_stays) (auto intro: stays_change_mode clear_root)
  have mk: "moves (stays [] ?A) (make_directories 448 state_dir_rel)"
    by (rule confined_make_directories) (auto simp: dirs prefix_Cons clear_root)
  have "moves (stays [] ?A) (lifecycle_lock True note body)"
    unfolding lifecycle_lock_def if_True
    by (intro moves_chain moves_if moves_fail moves_asks moves_translating moves_observes orderly_stays open_it chmod mk)
  from stays_within [OF this assms] have "\<forall>p. p \<noteq> lock_path \<and> p \<noteq> state_dir_rel \<longrightarrow> dict_get (wd_tree w') p = dict_get (wd_tree w) p"
    by blast
  moreover have "\<exists>e. r = Inl e"
    using assms(1) unfolding lifecycle_lock_def if_True by (auto elim!: chainE simp: fail_with_def split: if_splits)
  ultimately show ?thesis by blast
qed

end
