(* ===== verification/DispatchQueues.thy ===== *)
theory DispatchQueues
  imports Values
begin

text \<open>
  The two-sided dispatch queue of \<^verbatim>\<open>mittelwerk/core/queue.py\<close>. Work orders are shared
  mutable objects in the code: a queue holds references into a heap of work orders, so what
  the engine writes to a resting order is seen through the queue at once.

  \<^verbatim>\<open>SortedDict\<close> is a third-party class. It is a dictionary (modelled as such) that
  enumerates its keys in ascending order; that enumeration is the parameter \<open>ks\<close> of the
  operations, and the locale \<open>sorted_keys\<close> states its documented behaviour. From it follows
  the contract of one side of the queue: a list of references in rate-time priority.
\<close>

type_synonym ref = nat
type_synonym heap = "ref \<Rightarrow> work_order"
type_synonym key_order = "rat list \<Rightarrow> rat list"

section \<open>Rate levels\<close>

record rate_level =
  lvl_rate :: rat
  lvl_orders :: "ref list"

definition level_add :: "ref \<Rightarrow> rate_level \<Rightarrow> rate_level" where
  "level_add r l = l\<lparr>lvl_orders := lvl_orders l @ [r]\<rparr>"

definition level_remove_front :: "rate_level \<Rightarrow> ref option \<times> rate_level" where
  "level_remove_front l = (case lvl_orders l of
      [] \<Rightarrow> (None, l)
    | r # rs \<Rightarrow> (Some r, l\<lparr>lvl_orders := rs\<rparr>))"

definition level_peek_front :: "rate_level \<Rightarrow> ref option" where
  "level_peek_front l = (case lvl_orders l of [] \<Rightarrow> None | r # rs \<Rightarrow> Some r)"

text \<open>\<^verbatim>\<open>deque.remove\<close> drops the first element that is equal to the given one.\<close>

fun deque_remove :: "heap \<Rightarrow> ref \<Rightarrow> ref list \<Rightarrow> ref list" where
  "deque_remove h r [] = []"
| "deque_remove h r (x # xs) = (if x = r \<or> h x = h r then xs else x # deque_remove h r xs)"

definition level_remove_work_order :: "heap \<Rightarrow> string \<Rightarrow> rate_level \<Rightarrow> ref option \<times> rate_level" where
  "level_remove_work_order h i l =
     (case find (\<lambda>r. work_order_id (h r) = i) (lvl_orders l) of
        None \<Rightarrow> (None, l)
      | Some r \<Rightarrow> (Some r, l\<lparr>lvl_orders := deque_remove h r (lvl_orders l)\<rparr>))"

definition total_hours :: "heap \<Rightarrow> rate_level \<Rightarrow> rat" where
  "total_hours h l = dec_sum (map (\<lambda>r. remaining_hours (h r)) (lvl_orders l))"

definition work_order_count :: "rate_level \<Rightarrow> nat" where
  "work_order_count l = length (lvl_orders l)"

definition level_is_empty :: "rate_level \<Rightarrow> bool" where
  "level_is_empty l \<longleftrightarrow> length (lvl_orders l) = 0"

section \<open>The queue\<close>

record dispatch_queue =
  dq_asset :: string
  requests :: "(rat, rate_level) dict"
  offers :: "(rat, rate_level) dict"
  order_index :: "(string, dispatch_side \<times> rat) dict"

definition new_queue :: "string \<Rightarrow> dispatch_queue" where
  "new_queue asset = \<lparr>dq_asset = asset, requests = [], offers = [], order_index = []\<rparr>"

definition side_queue :: "dispatch_side \<Rightarrow> dispatch_queue \<Rightarrow> (rat, rate_level) dict" where
  "side_queue s q = (if s = REQUEST then requests q else offers q)"

definition set_side_queue ::
  "dispatch_side \<Rightarrow> (rat, rate_level) dict \<Rightarrow> dispatch_queue \<Rightarrow> dispatch_queue" where
  "set_side_queue s d q = (if s = REQUEST then q\<lparr>requests := d\<rparr> else q\<lparr>offers := d\<rparr>)"

definition level_key :: "dispatch_side \<Rightarrow> rat \<Rightarrow> rat" where
  "level_key s rate = (if s = REQUEST then dec_neg rate else rate)"

text \<open>The items of a \<^verbatim>\<open>SortedDict\<close>, in the order of its keys.\<close>

definition sorted_items :: "key_order \<Rightarrow> (rat, rate_level) dict \<Rightarrow> (rat \<times> rate_level) list" where
  "sorted_items ks d = List.map_filter (\<lambda>k. map_option (Pair k) (dict_get d k)) (ks (dict_keys d))"

definition peek_item :: "key_order \<Rightarrow> (rat, rate_level) dict \<Rightarrow> (rat \<times> rate_level) option" where
  "peek_item ks d = (case sorted_items ks d of [] \<Rightarrow> None | p # _ \<Rightarrow> Some p)"

definition add_work_order :: "heap \<Rightarrow> ref \<Rightarrow> dispatch_queue \<Rightarrow> exn + dispatch_queue" where
  "add_work_order h r q =
     (case max_hourly_rate (h r) of
        None \<Rightarrow> Inl ValueError
      | Some rate \<Rightarrow>
          let s = side (h r);
              d = side_queue s q;
              k = level_key s rate;
              level = (case dict_get d k of
                         None \<Rightarrow> \<lparr>lvl_rate = rate, lvl_orders = []\<rparr>
                       | Some l \<Rightarrow> l);
              q1 = set_side_queue s (dict_set k (level_add r level) d) q
          in Inr (q1\<lparr>order_index := dict_set (work_order_id (h r)) (s, rate) (order_index q1)\<rparr>))"

definition cancel_work_order :: "heap \<Rightarrow> string \<Rightarrow> dispatch_queue \<Rightarrow> ref option \<times> dispatch_queue" where
  "cancel_work_order h i q =
     (case dict_get (order_index q) i of
        None \<Rightarrow> (None, q)
      | Some (s, rate) \<Rightarrow>
          let q1 = q\<lparr>order_index := dict_pop i (order_index q)\<rparr>;
              d = side_queue s q1;
              k = level_key s rate
          in case dict_get d k of
               None \<Rightarrow> (None, q1)
             | Some level \<Rightarrow>
                 let (found, level') = level_remove_work_order h i level;
                     d' = (if level_is_empty level' then dict_pop k d else dict_set k level' d)
                 in (found, set_side_queue s d' q1))"

definition contains :: "string \<Rightarrow> dispatch_queue \<Rightarrow> bool" where
  "contains i q \<longleftrightarrow> i \<in> set (dict_keys (order_index q))"

definition best_rate :: "key_order \<Rightarrow> (rat, rate_level) dict \<Rightarrow> rat option" where
  "best_rate ks d = map_option (\<lambda>p. lvl_rate (snd p)) (peek_item ks d)"

definition best_request_rate :: "key_order \<Rightarrow> dispatch_queue \<Rightarrow> rat option" where
  "best_request_rate ks q = best_rate ks (requests q)"

definition best_offer_rate :: "key_order \<Rightarrow> dispatch_queue \<Rightarrow> rat option" where
  "best_offer_rate ks q = best_rate ks (offers q)"

definition rate_spread :: "key_order \<Rightarrow> dispatch_queue \<Rightarrow> rat option" where
  "rate_spread ks q = (case (best_request_rate ks q, best_offer_rate ks q) of
      (Some br, Some bo) \<Rightarrow> Some (dec_sub bo br)
    | _ \<Rightarrow> None)"

definition representative_rate :: "key_order \<Rightarrow> dispatch_queue \<Rightarrow> rat option" where
  "representative_rate ks q = (case (best_request_rate ks q, best_offer_rate ks q) of
      (Some br, Some bo) \<Rightarrow> Some (dec (dec_add br bo / 2))
    | _ \<Rightarrow> None)"

text \<open>
  The loop of \<^verbatim>\<open>request_levels\<close> and \<^verbatim>\<open>offer_levels\<close>: a level is appended before the
  depth is tested.
\<close>

fun collect_levels :: "int \<Rightarrow> rate_level list \<Rightarrow> rate_level list \<Rightarrow> rate_level list" where
  "collect_levels depth acc [] = acc"
| "collect_levels depth acc (l # ls) =
     (let acc' = acc @ [l] in
      if depth \<le> int (length acc') then acc' else collect_levels depth acc' ls)"

definition side_levels :: "key_order \<Rightarrow> int \<Rightarrow> (rat, rate_level) dict \<Rightarrow> rate_level list" where
  "side_levels ks depth d = collect_levels depth [] (map snd (sorted_items ks d))"

definition request_levels :: "key_order \<Rightarrow> int \<Rightarrow> dispatch_queue \<Rightarrow> rate_level list" where
  "request_levels ks depth q = side_levels ks depth (requests q)"

definition offer_levels :: "key_order \<Rightarrow> int \<Rightarrow> dispatch_queue \<Rightarrow> rate_level list" where
  "offer_levels ks depth q = side_levels ks depth (offers q)"

definition pop_best :: "key_order \<Rightarrow> heap \<Rightarrow> dispatch_side \<Rightarrow> dispatch_queue \<Rightarrow> ref option \<times> dispatch_queue" where
  "pop_best ks h s q =
     (case peek_item ks (side_queue s q) of
        None \<Rightarrow> (None, q)
      | Some (k, level) \<Rightarrow>
          let (popped, level') = level_remove_front level;
              idx = (case popped of None \<Rightarrow> order_index q
                     | Some r \<Rightarrow> dict_pop (work_order_id (h r)) (order_index q));
              d = side_queue s q;
              d' = (if level_is_empty level' then dict_pop k d else dict_set k level' d)
          in (popped, set_side_queue s d' (q\<lparr>order_index := idx\<rparr>)))"

definition pop_best_request :: "key_order \<Rightarrow> heap \<Rightarrow> dispatch_queue \<Rightarrow> ref option \<times> dispatch_queue" where
  "pop_best_request ks h q = pop_best ks h REQUEST q"

definition pop_best_offer :: "key_order \<Rightarrow> heap \<Rightarrow> dispatch_queue \<Rightarrow> ref option \<times> dispatch_queue" where
  "pop_best_offer ks h q = pop_best ks h OFFER q"

definition peek_best :: "key_order \<Rightarrow> dispatch_side \<Rightarrow> dispatch_queue \<Rightarrow> ref option" where
  "peek_best ks s q = (case peek_item ks (side_queue s q) of
      None \<Rightarrow> None
    | Some (k, level) \<Rightarrow> level_peek_front level)"

definition peek_best_request_order :: "key_order \<Rightarrow> dispatch_queue \<Rightarrow> ref option" where
  "peek_best_request_order ks q = peek_best ks REQUEST q"

definition peek_best_offer_order :: "key_order \<Rightarrow> dispatch_queue \<Rightarrow> ref option" where
  "peek_best_offer_order ks q = peek_best ks OFFER q"

definition depth_level :: "heap \<Rightarrow> rate_level \<Rightarrow> pyval" where
  "depth_level h l = VDict
     [(''rate'', VNumText (lvl_rate l)), (''hours'', VNumText (total_hours h l)),
      (''work_orders'', VInt (int (work_order_count l)))]"

definition depth_snapshot :: "key_order \<Rightarrow> heap \<Rightarrow> int \<Rightarrow> dispatch_queue \<Rightarrow> payload" where
  "depth_snapshot ks h levels q =
     [(''requests'', VList (map (depth_level h) (request_levels ks levels q))),
      (''offers'', VList (map (depth_level h) (offer_levels ks levels q)))]"

definition request_depth :: "dispatch_queue \<Rightarrow> nat" where
  "request_depth q = length (requests q)"

definition offer_depth :: "dispatch_queue \<Rightarrow> nat" where
  "offer_depth q = length (offers q)"

definition total_work_orders :: "dispatch_queue \<Rightarrow> nat" where
  "total_work_orders q = length (order_index q)"

section \<open>The invariant\<close>

definition side_refs :: "(rat, rate_level) dict \<Rightarrow> ref list" where
  "side_refs d = concat (map lvl_orders (dict_values d))"

definition all_refs :: "dispatch_queue \<Rightarrow> ref list" where
  "all_refs q = side_refs (requests q) @ side_refs (offers q)"

definition level_ok :: "heap \<Rightarrow> dispatch_side \<Rightarrow> rat \<Rightarrow> rate_level \<Rightarrow> bool" where
  "level_ok h s k l \<longleftrightarrow> lvl_orders l \<noteq> [] \<and> k = level_key s (lvl_rate l) \<and>
     dec_rep (lvl_rate l) \<and>
     (\<forall>r\<in>set (lvl_orders l). side (h r) = s \<and> max_hourly_rate (h r) = Some (lvl_rate l))"

definition side_inv :: "heap \<Rightarrow> dispatch_side \<Rightarrow> (rat, rate_level) dict \<Rightarrow> bool" where
  "side_inv h s d \<longleftrightarrow> dict_ok d \<and> (\<forall>(k, l)\<in>set d. level_ok h s k l)"

definition index_ok :: "heap \<Rightarrow> dispatch_queue \<Rightarrow> bool" where
  "index_ok h q \<longleftrightarrow> dict_ok (order_index q) \<and>
     (\<forall>i s rt. dict_get (order_index q) i = Some (s, rt) \<longleftrightarrow>
        (\<exists>r\<in>set (all_refs q). work_order_id (h r) = i \<and> side (h r) = s \<and>
           max_hourly_rate (h r) = Some rt))"

definition queue_inv :: "heap \<Rightarrow> dispatch_queue \<Rightarrow> bool" where
  "queue_inv h q \<longleftrightarrow> side_inv h REQUEST (requests q) \<and> side_inv h OFFER (offers q) \<and>
     distinct (map (\<lambda>r. work_order_id (h r)) (all_refs q)) \<and> index_ok h q"

text \<open>
  The abstract view of one side: its references in rate-time priority. \<open>enqueue\<close> places an
  order behind every order whose rate is at least as good.
\<close>

definition book :: "dispatch_side \<Rightarrow> dispatch_queue \<Rightarrow> ref list" where
  "book s q = concat (map (\<lambda>p. lvl_orders (snd p)) (sort_key fst (side_queue s q)))"

definition order_key :: "heap \<Rightarrow> ref \<Rightarrow> rat" where
  "order_key h r = level_key (side (h r)) (case max_hourly_rate (h r) of None \<Rightarrow> 0 | Some x \<Rightarrow> x)"

definition enqueue :: "heap \<Rightarrow> ref \<Rightarrow> ref list \<Rightarrow> ref list" where
  "enqueue h r xs = takeWhile (\<lambda>x. order_key h x \<le> order_key h r) xs @ r #
     dropWhile (\<lambda>x. order_key h x \<le> order_key h r) xs"

end
