(* ===== verification/QueueLaws.thy ===== *)
theory QueueLaws
  imports DispatchQueues
begin

text \<open>
  The laws of the dispatch queue: under the contract of \<^verbatim>\<open>SortedDict\<close> each side refines
  a list in rate-time priority (peek is its head, pop its tail, add \<open>enqueue\<close>, cancel a
  filter), every operation keeps the invariant, and the index agrees with the levels.
\<close>

section \<open>The contract of the sorted dictionary\<close>

locale sorted_keys =
  fixes ks :: key_order
  assumes ks_sorted: "distinct xs \<Longrightarrow> sorted (ks xs)"
    and ks_set: "distinct xs \<Longrightarrow> set (ks xs) = set xs"
    and ks_distinct: "distinct xs \<Longrightarrow> distinct (ks xs)"

interpretation sort_view: sorted_keys sort
  by unfold_locales simp_all

section \<open>Sorted association lists\<close>

lemma sort_key_update_other:
  "\<forall>v. \<not> P (k, v) \<Longrightarrow> filter P (dict_set k v d) = filter P d"
  by (induction d) auto

lemma filter_update_same:
  "dict_ok d \<Longrightarrow> filter (\<lambda>p. fst p = k) (dict_set k v d) = [(k, v)]"
  by (induction d) (force simp: dict_ok_def filter_empty_conv)+

lemma filter_dict_pop: "filter P (dict_pop k d) = filter (\<lambda>p. P p \<and> fst p \<noteq> k) d"
  by (induction d) auto

lemma filter_key_dict: "dict_ok d \<Longrightarrow> dict_get d k = Some v \<Longrightarrow> filter (\<lambda>p. fst p = k) d = [(k, v)]"
  by (induction d) (auto simp: dict_ok_def filter_empty_conv image_iff split: if_splits)

lemma filter_key_absent: "dict_get d k = None \<Longrightarrow> filter (\<lambda>p. fst p = k) d = []"
  by (auto simp: map_of_eq_None_iff filter_empty_conv image_iff)

lemma sorted_split3:
  fixes L :: "('k::linorder \<times> 'v) list"
  assumes "sorted (map fst L)"
  shows "L = filter (\<lambda>p. fst p < k) L @ filter (\<lambda>p. fst p = k) L @ filter (\<lambda>p. k < fst p) L"
  using assms
proof (induction L)
  case Nil
  then show ?case by simp
next
  case (Cons p L)
  then have ih: "L = filter (\<lambda>p. fst p < k) L @ filter (\<lambda>p. fst p = k) L @ filter (\<lambda>p. k < fst p) L"
    and ge: "\<forall>q\<in>set L. fst p \<le> fst q" by auto
  consider "fst p < k" | "fst p = k" | "k < fst p" by (rule linorder_cases)
  then show ?case
  proof cases
    case 1
    then have "fst p \<noteq> k" "\<not> k < fst p" by simp_all
    with 1 ih show ?thesis by simp
  next
    case 2
    with ge have "filter (\<lambda>p. fst p < k) L = []" by (auto simp: filter_empty_conv)
    with ih 2 show ?thesis by simp
  next
    case 3
    with ge have "filter (\<lambda>p. fst p < k) L = []" "filter (\<lambda>p. fst p = k) L = []"
      by (auto simp: filter_empty_conv)
    moreover have "\<not> fst p < k" "fst p \<noteq> k" using 3 by simp_all
    ultimately show ?thesis using ih 3 by simp
  qed
qed

definition side_below :: "rat \<Rightarrow> (rat, rate_level) dict \<Rightarrow> ref list" where
  "side_below k d = concat (map (\<lambda>p. lvl_orders (snd p)) (sort_key fst (filter (\<lambda>p. fst p < k) d)))"

definition side_above :: "rat \<Rightarrow> (rat, rate_level) dict \<Rightarrow> ref list" where
  "side_above k d = concat (map (\<lambda>p. lvl_orders (snd p)) (sort_key fst (filter (\<lambda>p. k < fst p) d)))"

definition at_key :: "rat \<Rightarrow> (rat, rate_level) dict \<Rightarrow> ref list" where
  "at_key k d = (case dict_get d k of None \<Rightarrow> [] | Some l \<Rightarrow> lvl_orders l)"

definition side_book :: "(rat, rate_level) dict \<Rightarrow> ref list" where
  "side_book d = concat (map (\<lambda>p. lvl_orders (snd p)) (sort_key fst d))"

lemma book_side: "book s q = side_book (side_queue s q)"
  by (simp add: book_def side_book_def)

lemma side_book_split: "dict_ok d \<Longrightarrow> side_book d = side_below k d @ at_key k d @ side_above k d"
proof -
  assume d: "dict_ok d"
  let ?L = "sort_key fst d"
  have "?L = filter (\<lambda>p. fst p < k) ?L @ filter (\<lambda>p. fst p = k) ?L @ filter (\<lambda>p. k < fst p) ?L"
    by (rule sorted_split3) simp
  then have "?L = sort_key fst (filter (\<lambda>p. fst p < k) d) @ sort_key fst (filter (\<lambda>p. fst p = k) d)
      @ sort_key fst (filter (\<lambda>p. k < fst p) d)"
    by (simp add: filter_sort)
  then have "side_book d = side_below k d @
      concat (map (\<lambda>p. lvl_orders (snd p)) (sort_key fst (filter (\<lambda>p. fst p = k) d))) @ side_above k d"
    unfolding side_book_def side_below_def side_above_def by (metis concat_append map_append)
  moreover have "concat (map (\<lambda>p. lvl_orders (snd p)) (sort_key fst (filter (\<lambda>p. fst p = k) d))) = at_key k d"
    using d by (cases "dict_get d k") (simp_all add: filter_key_absent filter_key_dict at_key_def)
  ultimately show ?thesis by simp
qed

lemma below_set [simp]: "side_below k (dict_set k v d) = side_below k d"
  by (simp add: side_below_def sort_key_update_other)

lemma above_set [simp]: "side_above k (dict_set k v d) = side_above k d"
  by (simp add: side_above_def sort_key_update_other)

lemma below_pop [simp]: "side_below k (dict_pop k d) = side_below k d"
proof -
  have "filter (\<lambda>p. fst p < k \<and> fst p \<noteq> k) d = filter (\<lambda>p. fst p < k) d" by (rule filter_cong) auto
  then show ?thesis unfolding side_below_def filter_dict_pop by simp
qed

lemma above_pop [simp]: "side_above k (dict_pop k d) = side_above k d"
proof -
  have "filter (\<lambda>p. k < fst p \<and> fst p \<noteq> k) d = filter (\<lambda>p. k < fst p) d" by (rule filter_cong) auto
  then show ?thesis unfolding side_above_def filter_dict_pop by simp
qed

lemma side_book_set: "dict_ok d \<Longrightarrow> side_book (dict_set k l d) = side_below k d @ lvl_orders l @ side_above k d"
  using side_book_split [of "dict_set k l d" k] by (simp add: at_key_def dict_simps)

lemma side_book_pop: "dict_ok d \<Longrightarrow> side_book (dict_pop k d) = side_below k d @ side_above k d"
  using side_book_split [of "dict_pop k d" k] by (simp add: at_key_def dict_simps)

lemma mset_concat_map: "mset (concat (map f xs)) = \<Sum>\<^sub># (image_mset (\<lambda>x. mset (f x)) (mset xs))"
  by (induction xs) simp_all

lemma sorted_const: "\<forall>x\<in>set xs. f x = c \<Longrightarrow> sorted (map f xs)"
  by (induction xs) auto

lemma mset_side_book: "mset (side_book d) = mset (side_refs d)"
  by (simp add: side_book_def side_refs_def mset_concat_map comp_def)

lemma set_side_book: "set (side_book d) = set (side_refs d)"
  by (simp add: side_book_def side_refs_def)

lemma set_side_refs: "set (side_refs d) = (\<Union>(k, l)\<in>set d. set (lvl_orders l))"
  by (auto simp: side_refs_def)

section \<open>Positions in the book\<close>

lemma level_ok_key: "level_ok h s k l \<Longrightarrow> r \<in> set (lvl_orders l) \<Longrightarrow> order_key h r = k"
  by (auto simp: level_ok_def order_key_def)

lemma side_inv_get: "side_inv h s d \<Longrightarrow> dict_get d k = Some l \<Longrightarrow> level_ok h s k l"
  by (auto simp: side_inv_def dest!: dict_get_mem)

lemma side_inv_mem: "side_inv h s d \<Longrightarrow> (k, l) \<in> set d \<Longrightarrow> level_ok h s k l"
  by (auto simp: side_inv_def)

lemma side_below_key: "side_inv h s d \<Longrightarrow> r \<in> set (side_below k d) \<Longrightarrow> order_key h r < k"
  by (force simp: side_below_def side_inv_def dest: level_ok_key)

lemma side_above_key: "side_inv h s d \<Longrightarrow> r \<in> set (side_above k d) \<Longrightarrow> k < order_key h r"
  by (force simp: side_above_def side_inv_def dest: level_ok_key)

lemma at_key_key: "side_inv h s d \<Longrightarrow> r \<in> set (at_key k d) \<Longrightarrow> order_key h r = k"
  by (cases "dict_get d k") (auto simp: at_key_def dest: side_inv_get level_ok_key)

lemma takeWhile_split:
  "\<forall>x\<in>set xs. P x \<Longrightarrow> \<forall>x\<in>set ys. \<not> P x \<Longrightarrow> takeWhile P (xs @ ys) = xs"
  by (cases ys) auto

lemma dropWhile_split:
  "\<forall>x\<in>set xs. P x \<Longrightarrow> \<forall>x\<in>set ys. \<not> P x \<Longrightarrow> dropWhile P (xs @ ys) = ys"
  by (cases ys) auto

lemma enqueue_split:
  assumes "side_inv h s d" "order_key h r = k"
  shows "enqueue h r (side_book d) = side_below k d @ at_key k d @ r # side_above k d"
proof -
  let ?P = "\<lambda>x. order_key h x \<le> order_key h r"
  have d: "dict_ok d" using assms by (simp add: side_inv_def)
  have "\<forall>x\<in>set (side_below k d @ at_key k d). ?P x"
    using assms side_below_key at_key_key by fastforce
  moreover have "\<forall>x\<in>set (side_above k d). \<not> ?P x"
    using assms side_above_key by fastforce
  moreover have "side_book d = (side_below k d @ at_key k d) @ side_above k d"
    using side_book_split [OF d] by simp
  ultimately have "takeWhile ?P (side_book d) = side_below k d @ at_key k d"
    "dropWhile ?P (side_book d) = side_above k d"
    by (simp_all only: takeWhile_split dropWhile_split)
  then show ?thesis unfolding enqueue_def by simp
qed

lemma mset_enqueue: "mset (enqueue h r xs) = add_mset r (mset xs)"
  unfolding enqueue_def using takeWhile_dropWhile_id [of "\<lambda>x. order_key h x \<le> order_key h r" xs]
  by (metis mset.simps(2) mset_append union_mset_add_mset_right)

lemma set_enqueue: "set (enqueue h r xs) = insert r (set xs)"
  using mset_enqueue by (metis set_mset_add_mset_insert set_mset_mset)

text \<open>The book is ordered by rate key; within a rate the order of arrival is kept.\<close>

lemma sorted_side_book:
  assumes "side_inv h s d"
  shows "sorted (map (order_key h) (side_book d))"
proof -
  have "sorted (map (order_key h) (concat (map (\<lambda>p. lvl_orders (snd p)) L)))"
    if "sorted (map fst L)" "\<forall>p\<in>set L. \<forall>r\<in>set (lvl_orders (snd p)). order_key h r = fst p"
    for L :: "(rat \<times> rate_level) list"
    using that
  proof (induction L)
    case Nil
    then show ?case by simp
  next
    case (Cons p L)
    then have "sorted (map (order_key h) (lvl_orders (snd p)))"
      by (intro sorted_const) auto
    with Cons show ?case by (auto simp: sorted_append)
  qed
  moreover have "\<forall>p\<in>set (sort_key fst d). \<forall>r\<in>set (lvl_orders (snd p)). order_key h r = fst p"
  proof (intro ballI)
    fix p r assume pr: "p \<in> set (sort_key fst d)" "r \<in> set (lvl_orders (snd p))"
    then have "(fst p, snd p) \<in> set d" by simp
    from level_ok_key [OF side_inv_mem [OF assms this] pr(2)] show "order_key h r = fst p" .
  qed
  ultimately show ?thesis unfolding side_book_def by simp
qed

section \<open>Sides of a queue\<close>

lemma side_queue_set [simp]: "side_queue s (set_side_queue s d q) = d"
  by (simp add: side_queue_def set_side_queue_def)

lemma side_queue_set_other [simp]: "s' \<noteq> s \<Longrightarrow> side_queue s' (set_side_queue s d q) = side_queue s' q"
  by (cases s; cases s') (auto simp: side_queue_def set_side_queue_def)

lemma set_side_frame [frame_simps]:
  "order_index (set_side_queue s d q) = order_index q"
  "dq_asset (set_side_queue s d q) = dq_asset q"
  "side_queue s (q\<lparr>order_index := x\<rparr>) = side_queue s q"
  "set_side_queue s d (q\<lparr>order_index := x\<rparr>) = (set_side_queue s d q)\<lparr>order_index := x\<rparr>"
  by (simp_all add: set_side_queue_def side_queue_def)

lemma queue_inv_side: "queue_inv h q \<longleftrightarrow> (\<forall>s. side_inv h s (side_queue s q)) \<and>
    distinct (map (\<lambda>r. work_order_id (h r)) (all_refs q)) \<and> index_ok h q"
proof -
  have "(\<forall>s. side_inv h s (side_queue s q)) \<longleftrightarrow> side_inv h REQUEST (requests q) \<and> side_inv h OFFER (offers q)"
  proof
    assume r: "side_inv h REQUEST (requests q) \<and> side_inv h OFFER (offers q)"
    show "\<forall>s. side_inv h s (side_queue s q)"
    proof
      fix s from r show "side_inv h s (side_queue s q)" by (cases s) (simp_all add: side_queue_def)
    qed
  next
    assume a: "\<forall>s. side_inv h s (side_queue s q)"
    from a [THEN spec, of REQUEST] a [THEN spec, of OFFER]
    show "side_inv h REQUEST (requests q) \<and> side_inv h OFFER (offers q)" by (simp add: side_queue_def)
  qed
  then show ?thesis by (auto simp: queue_inv_def)
qed

lemma mset_all_refs:
  "mset (all_refs q) = mset (side_refs (side_queue s q)) + mset (side_refs (side_queue (opposite s) q))"
  by (cases s) (auto simp: all_refs_def side_queue_def opposite_def)

lemma mset_all_refs_book: "mset (all_refs q) = mset (book s q) + mset (book (opposite s) q)"
  by (simp add: mset_all_refs [of q s] book_side mset_side_book)

lemma set_all_refs: "set (all_refs q) = set (book s q) \<union> set (book (opposite s) q)"
  using mset_all_refs_book [of q s] by (metis set_mset_mset set_mset_union)

lemma side_refs_sub: "set (side_refs (side_queue s q)) \<subseteq> set (all_refs q)"
  using set_all_refs [of q s] by (auto simp: book_side set_side_book)

lemma side_ref_props:
  assumes "side_inv h s d" "r \<in> set (side_refs d)"
  shows "side (h r) = s" "\<exists>rt l. max_hourly_rate (h r) = Some rt \<and> dec_rep rt \<and>
    dict_get d (level_key s rt) = Some l \<and> lvl_rate l = rt \<and> r \<in> set (lvl_orders l)"
proof -
  obtain k l where kl: "(k, l) \<in> set d" "r \<in> set (lvl_orders l)" using assms(2) by (auto simp: set_side_refs)
  with assms have "level_ok h s k l" by (auto dest: side_inv_mem)
  with kl assms show "side (h r) = s" "\<exists>rt l. max_hourly_rate (h r) = Some rt \<and> dec_rep rt \<and>
    dict_get d (level_key s rt) = Some l \<and> lvl_rate l = rt \<and> r \<in> set (lvl_orders l)"
    by (auto simp: level_ok_def side_inv_def dict_get_iff)
qed

lemma book_ref_side: "queue_inv h q \<Longrightarrow> r \<in> set (book s q) \<Longrightarrow> side (h r) = s"
  using side_ref_props(1) [where d = "side_queue s q"] by (simp add: queue_inv_side book_side set_side_book)

lemma book_ref_rate: "queue_inv h q \<Longrightarrow> r \<in> set (book s q) \<Longrightarrow> \<exists>rt. max_hourly_rate (h r) = Some rt \<and> dec_rep rt"
  using side_ref_props(2) [where d = "side_queue s q" and h = h and s = s and r = r]
  by (auto simp: queue_inv_side book_side set_side_book)

lemma level_key_inj: "dec_rep a \<Longrightarrow> dec_rep b \<Longrightarrow> level_key s a = level_key s b \<longleftrightarrow> a = b"
  by (auto simp: level_key_def dec_neg_rep)

section \<open>Adding a work order\<close>

lemma side_inv_add:
  assumes d: "side_inv h s d" and r: "side (h r) = s" "max_hourly_rate (h r) = Some rt" "dec_rep rt"
    and l: "l = (case dict_get d (level_key s rt) of None \<Rightarrow> \<lparr>lvl_rate = rt, lvl_orders = []\<rparr> | Some l \<Rightarrow> l)"
  shows "side_inv h s (dict_set (level_key s rt) (level_add r l) d)"
    "side_book (dict_set (level_key s rt) (level_add r l) d) = enqueue h r (side_book d)"
proof -
  let ?k = "level_key s rt"
  have ok: "dict_ok d" using d by (simp add: side_inv_def)
  have key: "order_key h r = ?k" using r by (simp add: order_key_def)
  have "level_ok h s ?k (level_add r l)"
  proof (cases "dict_get d ?k")
    case None
    with l r show ?thesis by (simp add: level_ok_def level_add_def)
  next
    case (Some l0)
    with d have l0: "level_ok h s ?k l0" by (rule side_inv_get)
    then have "lvl_rate l0 = rt" using r level_key_inj [of "lvl_rate l0" rt s] by (simp add: level_ok_def)
    with Some l l0 r show ?thesis by (auto simp: level_ok_def level_add_def)
  qed
  with d show "side_inv h s (dict_set ?k (level_add r l) d)"
    by (auto simp: side_inv_def set_dict_set)
  have "at_key ?k d = lvl_orders l" using l by (auto simp: at_key_def split: option.splits)
  then show "side_book (dict_set ?k (level_add r l) d) = enqueue h r (side_book d)"
    using side_book_set [OF ok] enqueue_split [OF d key] by (simp add: level_add_def)
qed

lemma index_ok_new:
  assumes "index_ok h q" "i \<notin> set (dict_keys (order_index q))" "r \<in> set (all_refs q)"
  shows "(\<exists>rt. max_hourly_rate (h r) = Some rt) \<Longrightarrow> work_order_id (h r) \<noteq> i"
  using assms unfolding index_ok_def by (metis dict_get_None option.distinct(1))

lemma add_work_order_spec:
  assumes q: "queue_inv h q" and r: "max_hourly_rate (h r) = Some rt" "dec_rep rt"
    and new: "\<not> contains (work_order_id (h r)) q"
  shows "\<exists>q'. add_work_order h r q = Inr q' \<and> queue_inv h q' \<and> dq_asset q' = dq_asset q \<and>
     book (side (h r)) q' = enqueue h r (book (side (h r)) q) \<and>
     book (opposite (side (h r))) q' = book (opposite (side (h r))) q"
proof -
  let ?s = "side (h r)" and ?i = "work_order_id (h r)"
  let ?d = "side_queue ?s q"
  define l where "l = (case dict_get ?d (level_key ?s rt) of None \<Rightarrow> \<lparr>lvl_rate = rt, lvl_orders = []\<rparr> | Some l \<Rightarrow> l)"
  define d' where "d' = dict_set (level_key ?s rt) (level_add r l) ?d"
  define q' where "q' = (set_side_queue ?s d' q)\<lparr>order_index := dict_set ?i (?s, rt) (order_index q)\<rparr>"
  have add: "add_work_order h r q = Inr q'"
    using r by (simp add: add_work_order_def Let_def q'_def d'_def l_def frame_simps)
  have sq: "side_queue s q' = (if s = ?s then d' else side_queue s q)" for s
    by (auto simp: q'_def frame_simps)
  have inv0: "side_inv h ?s ?d" using q by (simp add: queue_inv_side)
  note d' = side_inv_add [OF inv0 refl r l_def, folded d'_def]
  have b: "book ?s q' = enqueue h r (book ?s q)" "book (opposite ?s) q' = book (opposite ?s) q"
    using d' by (simp_all add: book_side sq)
  have m: "mset (all_refs q') = add_mset r (mset (all_refs q))"
    using b by (simp add: mset_all_refs_book [of _ ?s] mset_enqueue)
  then have st: "set (all_refs q') = insert r (set (all_refs q))"
    by (metis set_mset_add_mset_insert set_mset_mset)
  have old: "\<forall>x\<in>set (all_refs q). work_order_id (h x) \<noteq> ?i"
  proof
    fix x assume x: "x \<in> set (all_refs q)"
    then have "\<exists>rt. max_hourly_rate (h x) = Some rt"
      using q book_ref_rate set_all_refs [of q REQUEST] by blast
    with x q new show "work_order_id (h x) \<noteq> ?i"
      by (intro index_ok_new) (auto simp: queue_inv_def contains_def)
  qed
  have dist: "distinct (map (\<lambda>r. work_order_id (h r)) (all_refs q'))"
  proof -
    have 1: "distinct (map (\<lambda>r. work_order_id (h r)) (r # all_refs q))"
      using q old by (auto simp: queue_inv_def)
    have 2: "mset (all_refs q') = mset (r # all_refs q)" using m by simp
    show ?thesis using distinct_map_mset [OF 2] 1 by blast
  qed
  have idx: "index_ok h q'"
  proof -
    have old_idx: "index_ok h q" using q by (simp add: queue_inv_def)
    have "dict_get (order_index q') i = Some (s, rt') \<longleftrightarrow> (\<exists>x\<in>insert r (set (all_refs q)).
        work_order_id (h x) = i \<and> side (h x) = s \<and> max_hourly_rate (h x) = Some rt')" for i s rt'
    proof (cases "i = ?i")
      case True
      then show ?thesis using old r(1) by (auto simp: q'_def dict_simps)
    next
      case False
      then have "dict_get (order_index q') i = dict_get (order_index q) i" by (simp add: q'_def dict_simps)
      then show ?thesis using False old_idx by (simp add: index_ok_def)
    qed
    moreover have "dict_ok (order_index q')" using old_idx by (simp add: q'_def index_ok_def)
    ultimately show ?thesis unfolding index_ok_def st by blast
  qed
  have "queue_inv h q'"
    using q d' dist idx unfolding queue_inv_side sq by simp
  moreover have "dq_asset q' = dq_asset q" by (simp add: q'_def frame_simps)
  ultimately show ?thesis using add b by blast
qed

section \<open>Removing a work order\<close>

lemma distinct_refs: "queue_inv h q \<Longrightarrow> distinct (all_refs q)"
  by (auto simp: queue_inv_def distinct_map)

lemma distinct_book: "queue_inv h q \<Longrightarrow> distinct (book s q)"
proof -
  assume "queue_inv h q"
  then have "distinct (side_refs (side_queue s q))"
    by (cases s) (auto dest!: distinct_refs simp: all_refs_def side_queue_def)
  then show ?thesis
    by (simp add: book_side mset_eq_imp_distinct_iff [OF mset_side_book])
qed

lemma ids_inj: "queue_inv h q \<Longrightarrow> r \<in> set (all_refs q) \<Longrightarrow> r' \<in> set (all_refs q) \<Longrightarrow>
    work_order_id (h r) = work_order_id (h r') \<Longrightarrow> r = r'"
  by (auto simp: queue_inv_def distinct_map inj_on_def)

lemma book_sub: "set (book s q) \<subseteq> set (all_refs q)"
  using set_all_refs [of q s] by auto

lemma contains_iff:
  assumes "queue_inv h q"
  shows "contains i q \<longleftrightarrow> (\<exists>r\<in>set (all_refs q). work_order_id (h r) = i)"
proof -
  have idx: "index_ok h q" using assms by (simp add: queue_inv_def)
  have rate: "\<exists>rt. max_hourly_rate (h r) = Some rt" if "r \<in> set (all_refs q)" for r
    using that assms book_ref_rate set_all_refs [of q REQUEST] by blast
  have "contains i q \<longleftrightarrow> (\<exists>s rt. dict_get (order_index q) i = Some (s, rt))"
    unfolding contains_def by (metis dict_get_None option.exhaust option.distinct(1) surj_pair)
  also have "\<dots> \<longleftrightarrow> (\<exists>r\<in>set (all_refs q). work_order_id (h r) = i)"
  proof -
    have e: "dict_get (order_index q) i = Some (s, rt) \<longleftrightarrow> (\<exists>r\<in>set (all_refs q). work_order_id (h r) = i \<and>
        side (h r) = s \<and> max_hourly_rate (h r) = Some rt)" for s rt
      using idx by (simp add: index_ok_def)
    show ?thesis unfolding e using rate by blast
  qed
  finally show ?thesis .
qed

lemma get_book_append:
  assumes "side_inv h s d" "dict_get d k = Some l"
  shows "side_book d = side_below k d @ lvl_orders l @ side_above k d"
  using assms side_book_split [of d k] by (simp add: side_inv_def at_key_def)

definition drop_level_if_empty :: "rat \<Rightarrow> rate_level \<Rightarrow> (rat, rate_level) dict \<Rightarrow> (rat, rate_level) dict" where
  "drop_level_if_empty k l d = (if level_is_empty l then dict_pop k d else dict_set k l d)"

lemma side_inv_shrink:
  assumes d: "side_inv h s d" "dict_get d k = Some l" and l': "l' = l\<lparr>lvl_orders := xs\<rparr>"
    and xs: "set xs \<subseteq> set (lvl_orders l)"
  shows "side_inv h s (drop_level_if_empty k l' d)"
    "side_book (drop_level_if_empty k l' d) = side_below k d @ xs @ side_above k d"
proof -
  have ok: "dict_ok d" using d by (simp add: side_inv_def)
  have l: "level_ok h s k l" using d by (rule side_inv_get)
  show "side_inv h s (drop_level_if_empty k l' d)"
  proof (cases "xs = []")
    case True
    with d l' show ?thesis
      by (auto simp: drop_level_if_empty_def level_is_empty_def side_inv_def set_dict_pop)
  next
    case False
    then have "level_ok h s k l'" using l l' xs by (auto simp: level_ok_def)
    with False d l' show ?thesis
      by (auto simp: drop_level_if_empty_def level_is_empty_def side_inv_def set_dict_set)
  qed
  show "side_book (drop_level_if_empty k l' d) = side_below k d @ xs @ side_above k d"
    using l' by (simp add: drop_level_if_empty_def level_is_empty_def side_book_pop side_book_set ok)
qed

lemma index_ok_pop:
  assumes q: "queue_inv h q" and r: "r \<in> set (all_refs q)"
    and st: "set (all_refs q') = set (all_refs q) - {r}"
    and idx: "order_index q' = dict_pop (work_order_id (h r)) (order_index q)"
  shows "index_ok h q'"
proof -
  have old_idx: "index_ok h q" using q by (simp add: queue_inv_def)
  have "dict_get (order_index q') i = Some (s, rt') \<longleftrightarrow> (\<exists>x\<in>set (all_refs q) - {r}.
      work_order_id (h x) = i \<and> side (h x) = s \<and> max_hourly_rate (h x) = Some rt')" for i s rt'
  proof (cases "i = work_order_id (h r)")
    case True
    then show ?thesis using ids_inj [OF q _ r] by (auto simp: idx dict_simps)
  next
    case False
    then have "dict_get (order_index q') i = dict_get (order_index q) i" by (simp add: idx dict_simps)
    then show ?thesis using False old_idx by (auto simp: index_ok_def)
  qed
  moreover have "dict_ok (order_index q')" using old_idx by (simp add: idx index_ok_def)
  ultimately show ?thesis unfolding index_ok_def st by blast
qed

lemma queue_remove:
  assumes q: "queue_inv h q" and l: "dict_get (side_queue s q) k = Some l"
    and split: "lvl_orders l = as @ r # bs" and l': "l' = l\<lparr>lvl_orders := as @ bs\<rparr>"
    and q': "q' = set_side_queue s (drop_level_if_empty k l' (side_queue s q))
        (q\<lparr>order_index := dict_pop (work_order_id (h r)) (order_index q)\<rparr>)"
  shows "queue_inv h q'" "book s q' = remove1 r (book s q)"
    "book (opposite s) q' = book (opposite s) q" "dq_asset q' = dq_asset q" "r \<in> set (book s q)"
proof -
  let ?d = "side_queue s q"
  have d: "side_inv h s ?d" using q by (simp add: queue_inv_side)
  note sh = side_inv_shrink [OF d l l', unfolded split, simplified]
  have sq: "side_queue s' q' = (if s' = s then drop_level_if_empty k l' ?d else side_queue s' q)" for s'
    unfolding q' by (cases s; cases s') (auto simp: side_queue_def set_side_queue_def)
  have bk: "book s q = side_below k ?d @ as @ r # bs @ side_above k ?d"
    using get_book_append [OF d l] split by (simp add: book_side)
  then show r: "r \<in> set (book s q)" by simp
  have "r \<notin> set (side_below k ?d)" "r \<notin> set as"
    using distinct_book [OF q, of s] bk by auto
  with sh bk show b: "book s q' = remove1 r (book s q)"
    by (simp add: book_side sq remove1_append subset_iff)
  show o: "book (opposite s) q' = book (opposite s) q" by (simp add: book_side sq)
  show "dq_asset q' = dq_asset q" by (simp add: q' frame_simps)
  have m: "mset (all_refs q) = mset (r # all_refs q')"
    using r by (simp add: mset_all_refs_book [of _ s] b o)
  have ids: "distinct (map (\<lambda>r. work_order_id (h r)) (r # all_refs q'))"
    using q distinct_map_mset [OF m] unfolding queue_inv_def by blast
  have dr: "distinct (r # all_refs q')"
    using mset_eq_imp_distinct_iff [OF m] distinct_refs [OF q] by blast
  have "set (all_refs q) = insert r (set (all_refs q'))"
    using m by (metis list.simps(15) set_mset_mset)
  with dr have st: "set (all_refs q') = set (all_refs q) - {r}" by auto
  have "index_ok h q'"
    using r book_sub by (intro index_ok_pop [OF q _ st]) (auto simp: q' frame_simps)
  moreover have "side_inv h s' (side_queue s' q')" for s'
    using sh q by (simp add: sq queue_inv_side subset_iff)
  ultimately show "queue_inv h q'" using ids by (simp add: queue_inv_side)
qed

section \<open>Reading and popping the best order\<close>

lemma side_book_hd:
  assumes d: "side_inv h s d" and hd: "sort_key fst d = (k, l) # L"
  shows "dict_get d k = Some l" "side_below k d = []" "lvl_orders l \<noteq> []" "level_ok h s k l"
proof -
  have mem: "(k, l) \<in> set d" using hd by (metis list.set_intros(1) set_sort)
  then show "level_ok h s k l" using d by (rule side_inv_mem [rotated])
  then show "lvl_orders l \<noteq> []" by (simp add: level_ok_def)
  show "dict_get d k = Some l" using mem d by (simp add: dict_get_iff side_inv_def)
  have "sorted (map fst ((k, l) # L))" using hd by (metis sorted_sort_key)
  then have "\<forall>p\<in>set (sort_key fst d). k \<le> fst p" unfolding hd by auto
  then have "\<forall>p\<in>set d. \<not> fst p < k" by (simp add: not_less)
  then show "side_below k d = []" by (simp add: side_below_def filter_empty_conv)
qed

lemma side_book_Nil: "side_inv h s d \<Longrightarrow> side_book d = [] \<longleftrightarrow> d = []"
proof
  assume i: "side_inv h s d" and "side_book d = []"
  then have "set (side_refs d) = {}" by (simp add: set_side_book [symmetric])
  with i show "d = []" by (cases d) (auto simp: set_side_refs side_inv_def level_ok_def)
qed (simp add: side_book_def)

lemma deque_remove_first:
  assumes "distinct (map (\<lambda>r. work_order_id (h r)) xs)" "r \<in> set xs"
  shows "deque_remove h r xs = remove1 r xs"
  using assms by (induction xs) auto

lemma find_id_split:
  assumes "find (\<lambda>r. work_order_id (h r) = i) xs = Some r" "distinct (map (\<lambda>r. work_order_id (h r)) xs)"
  obtains as bs where "xs = as @ r # bs" "deque_remove h r xs = as @ bs" "work_order_id (h r) = i"
proof -
  from assms(1) have r: "r \<in> set xs" "work_order_id (h r) = i"
    by (auto simp: find_Some_iff)
  from r(1) obtain as bs where xs: "xs = as @ r # bs" "r \<notin> set as" by (auto dest: split_list_first)
  then have "deque_remove h r xs = as @ bs"
    using deque_remove_first [OF assms(2) r(1)] by (simp add: remove1_append)
  with that xs r show thesis by blast
qed

lemma level_ids:
  assumes q: "queue_inv h q" and l: "dict_get (side_queue s q) k = Some l"
  shows "distinct (map (\<lambda>r. work_order_id (h r)) (lvl_orders l))"
proof -
  have "side_book (side_queue s q) = side_below k (side_queue s q) @ lvl_orders l @ side_above k (side_queue s q)"
    using q l by (intro get_book_append [of h s]) (simp_all add: queue_inv_side)
  moreover have "distinct (map (\<lambda>r. work_order_id (h r)) (side_book (side_queue s q)))"
  proof -
    have "mset (all_refs q) = mset (book s q @ book (opposite s) q)" by (simp add: mset_all_refs_book)
    from distinct_map_mset [OF this, of "\<lambda>r. work_order_id (h r)"] q show ?thesis
      by (simp add: queue_inv_def book_side)
  qed
  ultimately show ?thesis by simp
qed

lemma cancel_work_order_spec:
  assumes q: "queue_inv h q" and i: "contains i q"
  shows "\<exists>r q'. cancel_work_order h i q = (Some r, q') \<and> r \<in> set (all_refs q) \<and> work_order_id (h r) = i \<and>
    queue_inv h q' \<and> dq_asset q' = dq_asset q \<and> (\<forall>s. book s q' = remove1 r (book s q))"
proof -
  from i q obtain r where r: "r \<in> set (all_refs q)" "work_order_id (h r) = i" by (auto simp: contains_iff)
  define s where "s = side (h r)"
  have inv: "side_inv h s' (side_queue s' q)" for s' using q by (simp add: queue_inv_side)
  have "opposite s \<noteq> s" by (cases s) (simp_all add: opposite_def)
  then have "r \<notin> set (book (opposite s) q)" using book_ref_side [OF q, of r "opposite s"] s_def by metis
  with r(1) set_all_refs [of q s] have "r \<in> set (book s q)" by blast
  then have mem: "r \<in> set (side_refs (side_queue s q))" by (simp add: book_side set_side_book)
  from side_ref_props(2) [OF inv mem] obtain rt l where l: "max_hourly_rate (h r) = Some rt" "dec_rep rt"
    "dict_get (side_queue s q) (level_key s rt) = Some l" "r \<in> set (lvl_orders l)" by blast
  have ix: "dict_get (order_index q) i = Some (s, rt)"
    using q r l by (auto simp: queue_inv_def index_ok_def s_def)
  note ids = level_ids [OF q l(3)]
  have "find (\<lambda>r. work_order_id (h r) = i) (lvl_orders l) \<noteq> None" using l r by (auto simp: find_None_iff)
  then obtain r' where f: "find (\<lambda>r. work_order_id (h r) = i) (lvl_orders l) = Some r'" by auto
  obtain as bs where ab: "lvl_orders l = as @ r' # bs" "deque_remove h r' (lvl_orders l) = as @ bs"
    "work_order_id (h r') = i" using find_id_split [OF f ids] by blast
  define q' where "q' = set_side_queue s (drop_level_if_empty (level_key s rt) (l\<lparr>lvl_orders := as @ bs\<rparr>) (side_queue s q))
        (q\<lparr>order_index := dict_pop (work_order_id (h r')) (order_index q)\<rparr>)"
  note rem = queue_remove [OF q l(3) ab(1) refl q'_def]
  have "cancel_work_order h i q = (Some r', q')"
  proof -
    have "level_remove_work_order h i l = (Some r', l\<lparr>lvl_orders := as @ bs\<rparr>)"
      by (simp only: level_remove_work_order_def f option.case ab(2))
    with ix l(3) ab(3) show ?thesis
      by (simp only: cancel_work_order_def Let_def option.case prod.case frame_simps q'_def drop_level_if_empty_def)
  qed
  moreover have "book s' q' = remove1 r' (book s' q)" for s'
  proof (cases "s' = s")
    case False
    then have s': "s' = opposite s" by (cases s; cases s') (auto simp: opposite_def)
    have "r' \<notin> set (book s' q)" using book_ref_side [OF q] rem(5) False by blast
    then show ?thesis using rem(3) s' by (simp add: remove1_idem)
  qed (simp add: rem)
  ultimately show ?thesis using rem ab(3) book_sub by blast
qed

lemma cancel_work_order_absent: "\<not> contains i q \<Longrightarrow> cancel_work_order h i q = (None, q)"
  using dict_get_None [of "order_index q" i] by (simp add: contains_def cancel_work_order_def)

lemma total_work_orders_eq:
  assumes "queue_inv h q"
  shows "total_work_orders q = length (all_refs q)"
proof -
  have "distinct (dict_keys (order_index q))" using assms by (simp add: queue_inv_def index_ok_def dict_ok_def)
  then have "length (order_index q) = card (set (dict_keys (order_index q)))"
    by (metis distinct_card length_map)
  also have "set (dict_keys (order_index q)) = set (map (\<lambda>r. work_order_id (h r)) (all_refs q))"
  proof (rule set_eqI)
    fix i
    have "i \<in> set (map (\<lambda>r. work_order_id (h r)) (all_refs q)) \<longleftrightarrow> (\<exists>r\<in>set (all_refs q). work_order_id (h r) = i)"
      by (simp add: image_iff) metis
    then show "i \<in> set (dict_keys (order_index q)) \<longleftrightarrow> i \<in> set (map (\<lambda>r. work_order_id (h r)) (all_refs q))"
      using contains_iff [OF assms, of i] unfolding contains_def by blast
  qed
  also have "card \<dots> = length (all_refs q)"
    using assms by (metis distinct_card length_map queue_inv_def)
  finally show ?thesis by (simp add: total_work_orders_def)
qed

text \<open>The invariant reads only the identity, side and rate cap of resting orders.\<close>

definition same_terms :: "heap \<Rightarrow> heap \<Rightarrow> ref \<Rightarrow> bool" where
  "same_terms h h' r \<longleftrightarrow> work_order_id (h' r) = work_order_id (h r) \<and> side (h' r) = side (h r) \<and>
     max_hourly_rate (h' r) = max_hourly_rate (h r)"

lemma side_inv_cong:
  assumes "side_inv h s d" "\<forall>r\<in>set (side_refs d). same_terms h h' r"
  shows "side_inv h' s d"
  using assms by (fastforce simp: side_inv_def level_ok_def same_terms_def set_side_refs)

lemma queue_inv_cong:
  assumes q: "queue_inv h q" and st: "\<forall>r\<in>set (all_refs q). same_terms h h' r"
  shows "queue_inv h' q"
proof -
  have "side_inv h' s (side_queue s q)" for s
  proof (rule side_inv_cong)
    show "side_inv h s (side_queue s q)" using q by (simp add: queue_inv_side)
    show "\<forall>r\<in>set (side_refs (side_queue s q)). same_terms h h' r" using st side_refs_sub by blast
  qed
  moreover have "distinct (map (\<lambda>r. work_order_id (h' r)) (all_refs q))"
  proof -
    have "map (\<lambda>r. work_order_id (h' r)) (all_refs q) = map (\<lambda>r. work_order_id (h r)) (all_refs q)"
      using st unfolding same_terms_def by (intro map_cong) auto
    then show ?thesis using q by (simp only: queue_inv_def)
  qed
  moreover have "index_ok h' q"
  proof -
    have eq: "(\<exists>r\<in>set (all_refs q). work_order_id (h' r) = i \<and> side (h' r) = s \<and> max_hourly_rate (h' r) = Some rt) \<longleftrightarrow>
        (\<exists>r\<in>set (all_refs q). work_order_id (h r) = i \<and> side (h r) = s \<and> max_hourly_rate (h r) = Some rt)" for i s rt
      using st by (intro bex_cong) (auto simp: same_terms_def)
    have "index_ok h q" using q by (simp add: queue_inv_def)
    then show ?thesis unfolding index_ok_def eq .
  qed
  ultimately show ?thesis using q by (simp add: queue_inv_side)
qed

lemma collect_levels_take:
  "collect_levels depth acc ls = acc @ take (max 1 (nat (depth - int (length acc)))) ls"
proof (induction ls arbitrary: acc)
  case (Cons l ls)
  show ?case
  proof (cases "depth \<le> int (length acc) + 1")
    case True
    then have "max 1 (nat (depth - int (length acc))) = 1" by auto
    with True show ?thesis by (simp add: Let_def)
  next
    case False
    then have n: "max 1 (nat (depth - int (length acc))) = Suc (max 1 (nat (depth - int (length (acc @ [l])))))"
      by auto
    from False show ?thesis using Cons.IH [of "acc @ [l]"] unfolding n by (simp add: Let_def)
  qed
qed simp

section \<open>One side as a prioritised list\<close>

text \<open>
  What the engine uses of one side: it reads the head and pops it. The client lemma: popping
  as often as there are orders returns them in the order of the list.
\<close>

locale priority_side =
  fixes inv :: "'q \<Rightarrow> bool" and items :: "'q \<Rightarrow> 'r list"
    and peek :: "'q \<Rightarrow> 'r option" and pop :: "'q \<Rightarrow> 'r option \<times> 'q"
  assumes peek_head: "inv q \<Longrightarrow> peek q = (case items q of [] \<Rightarrow> None | r # _ \<Rightarrow> Some r)"
    and pop_empty: "inv q \<Longrightarrow> items q = [] \<Longrightarrow> pop q = (None, q)"
    and pop_head: "inv q \<Longrightarrow> items q = r # rs \<Longrightarrow> \<exists>q'. pop q = (Some r, q') \<and> inv q' \<and> items q' = rs"
begin

primrec drain :: "nat \<Rightarrow> 'q \<Rightarrow> 'r list" where
  "drain 0 q = []"
| "drain (Suc n) q = (case pop q of (None, _) \<Rightarrow> [] | (Some r, q') \<Rightarrow> r # drain n q')"

lemma drain_take: "inv q \<Longrightarrow> drain n q = take n (items q)"
proof (induction n arbitrary: q)
  case (Suc n)
  show ?case
  proof (cases "items q")
    case Nil
    with Suc.prems show ?thesis by (simp add: pop_empty)
  next
    case (Cons r rs)
    then obtain q' where "pop q = (Some r, q')" "inv q'" "items q' = rs" using pop_head Suc.prems by blast
    with Suc.IH Cons show ?thesis by simp
  qed
qed simp

lemma pop_is_peek: "inv q \<Longrightarrow> fst (pop q) = peek q"
proof (cases "items q")
  case (Cons r rs)
  moreover assume "inv q"
  moreover from this Cons obtain q' where "pop q = (Some r, q')" using pop_head by blast
  ultimately show ?thesis by (simp add: peek_head)
qed (simp add: pop_empty peek_head)

end

context sorted_keys
begin

lemma ks_sort: "distinct xs \<Longrightarrow> ks xs = sort xs"
  by (intro sorted_distinct_set_unique) (simp_all add: ks_sorted ks_set ks_distinct)

lemma sorted_items_sort: "dict_ok d \<Longrightarrow> sorted_items ks d = sort_key fst d"
proof -
  assume d: "dict_ok d"
  have "sort (map fst d) = map fst (sort_key fst d)"
    by (intro properties_for_sort) simp_all
  moreover have "List.map_filter (\<lambda>k. map_option (Pair k) (dict_get d k)) (map fst L) = L" if "set L \<subseteq> set d" for L
    using that d by (induction L) (auto simp: map_filter_simps dict_ok_def)
  ultimately show ?thesis using d by (simp add: sorted_items_def ks_sort dict_ok_def)
qed

lemma peek_item_sort: "side_inv h s d \<Longrightarrow> peek_item ks d = (case sort_key fst d of [] \<Rightarrow> None | p # _ \<Rightarrow> Some p)"
  by (simp add: peek_item_def sorted_items_sort side_inv_def)

lemma sort_key_Nil: "sort_key f xs = [] \<longleftrightarrow> xs = []"
  by (metis length_0_conv length_sort)

lemma peek_best_spec: "queue_inv h q \<Longrightarrow> peek_best ks s q = (case book s q of [] \<Rightarrow> None | r # _ \<Rightarrow> Some r)"
proof -
  assume q: "queue_inv h q"
  then have d: "side_inv h s (side_queue s q)" by (simp add: queue_inv_side)
  show ?thesis
  proof (cases "sort_key fst (side_queue s q)")
    case Nil
    with d show ?thesis by (simp add: peek_best_def peek_item_sort book_side side_book_def)
  next
    case (Cons p L)
    obtain k l where p: "p = (k, l)" by (cases p)
    note hd = side_book_hd [OF d Cons [unfolded p]]
    then obtain r rs where rs: "lvl_orders l = r # rs" by (cases "lvl_orders l") auto
    have "book s q = r # rs @ side_above k (side_queue s q)"
      using get_book_append [OF d hd(1)] hd(2) rs by (simp add: book_side)
    then show ?thesis using Cons p rs by (simp add: peek_best_def peek_item_sort [OF d] level_peek_front_def)
  qed
qed

lemma pop_best_empty: "queue_inv h q \<Longrightarrow> book s q = [] \<Longrightarrow> pop_best ks h s q = (None, q)"
proof -
  assume q: "queue_inv h q" "book s q = []"
  then have d: "side_inv h s (side_queue s q)" by (simp add: queue_inv_side)
  with q have "side_queue s q = []" by (simp add: book_side side_book_Nil)
  with d show ?thesis by (simp add: pop_best_def peek_item_sort)
qed

lemma pop_best_spec:
  assumes q: "queue_inv h q" and b: "book s q = r # rs"
  shows "\<exists>q'. pop_best ks h s q = (Some r, q') \<and> queue_inv h q' \<and> dq_asset q' = dq_asset q \<and>
    book s q' = rs \<and> book (opposite s) q' = book (opposite s) q"
proof -
  have d: "side_inv h s (side_queue s q)" using q by (simp add: queue_inv_side)
  then have "side_queue s q \<noteq> []" using b side_book_Nil by (force simp: book_side)
  then obtain k l L where kl: "sort_key fst (side_queue s q) = (k, l) # L"
    using sort_key_Nil by (metis list.exhaust surj_pair)
  note hd = side_book_hd [OF d kl]
  then obtain r' xs where xs: "lvl_orders l = r' # xs" by (cases "lvl_orders l") auto
  have bk: "book s q = r' # xs @ side_above k (side_queue s q)"
    using get_book_append [OF d hd(1)] hd(2) xs by (simp add: book_side)
  with b have r': "r' = r" by simp
  define q' where "q' = set_side_queue s (drop_level_if_empty k (l\<lparr>lvl_orders := [] @ xs\<rparr>) (side_queue s q))
        (q\<lparr>order_index := dict_pop (work_order_id (h r')) (order_index q)\<rparr>)"
  note rem = queue_remove [OF q hd(1), of "[]" r' xs, OF _ refl q'_def]
  have "pop_best ks h s q = (Some r', q')"
    using xs by (simp add: pop_best_def peek_item_sort [OF d] kl level_remove_front_def q'_def drop_level_if_empty_def)
  with rem xs b r' show ?thesis by simp
qed

lemma best_rate_spec:
  assumes "side_inv h s d"
  shows "best_rate ks d = (case side_book d of [] \<Rightarrow> None | r # _ \<Rightarrow> max_hourly_rate (h r))"
proof (cases "sort_key fst d")
  case Nil
  with assms show ?thesis by (simp add: best_rate_def peek_item_sort side_book_def)
next
  case (Cons p L)
  obtain k l where p: "p = (k, l)" by (cases p)
  note hd = side_book_hd [OF assms Cons [unfolded p]]
  then obtain r rs where rs: "lvl_orders l = r # rs" by (cases "lvl_orders l") auto
  have "side_book d = r # rs @ side_above k d" using get_book_append [OF assms hd(1)] hd(2) rs by simp
  with hd(4) rs Cons p show ?thesis by (simp add: best_rate_def peek_item_sort [OF assms] level_ok_def)
qed

lemma side_levels_spec: "side_inv h s d \<Longrightarrow>
    side_levels ks depth d = take (max 1 (nat depth)) (map snd (sort_key fst d))"
  by (simp add: side_levels_def sorted_items_sort side_inv_def collect_levels_take)

end

sublocale sorted_keys \<subseteq> one_side: priority_side "queue_inv h" "book s" "peek_best ks s" "pop_best ks h s" for h s
proof unfold_locales
  fix q assume q: "queue_inv h q"
  show "peek_best ks s q = (case book s q of [] \<Rightarrow> None | r # _ \<Rightarrow> Some r)" using q by (rule peek_best_spec)
  show "book s q = [] \<Longrightarrow> pop_best ks h s q = (None, q)" using q by (rule pop_best_empty)
  show "book s q = r # rs \<Longrightarrow> \<exists>q'. pop_best ks h s q = (Some r, q') \<and> queue_inv h q' \<and> book s q' = rs" for r rs
    using pop_best_spec [OF q] by blast
qed

end
