(* ===== verification/Events.thy ===== *)
theory Events
  imports Values
begin

text \<open>
  The event bus of \<^verbatim>\<open>mittelwerk/core/events.py\<close>: the event envelope, the bounded log with
  global sequence numbers, and the bus with one bounded queue per subscriber. Subscription
  objects are shared between the bus and the tasks and streams that serve them, so they live
  in a store addressed by handles. A task is one more party that takes events from a queue:
  its turns are explicit steps, and their interleaving with the bus operations is a step
  relation.
\<close>

section \<open>Events\<close>

datatype dispatch_event_type = WORK_ORDER_SUBMITTED | WORK_ORDER_ACCEPTED | WORK_ORDER_REJECTED
  | WORK_ORDER_CANCELLED | WORK_ORDER_ASSIGNED | WORK_ORDER_PARTIALLY_ASSIGNED
  | ASSIGNMENT_EXECUTED | WORKLOAD_UPDATED | TELEMETRY_READING | OPERATIONAL_RISK_BREACH
  | DISPATCH_POLICY_SIGNAL | SYSTEM_STATUS

fun event_type_value :: "dispatch_event_type \<Rightarrow> string" where
  "event_type_value WORK_ORDER_SUBMITTED = ''WORK_ORDER_SUBMITTED''"
| "event_type_value WORK_ORDER_ACCEPTED = ''WORK_ORDER_ACCEPTED''"
| "event_type_value WORK_ORDER_REJECTED = ''WORK_ORDER_REJECTED''"
| "event_type_value WORK_ORDER_CANCELLED = ''WORK_ORDER_CANCELLED''"
| "event_type_value WORK_ORDER_ASSIGNED = ''WORK_ORDER_ASSIGNED''"
| "event_type_value WORK_ORDER_PARTIALLY_ASSIGNED = ''WORK_ORDER_PARTIALLY_ASSIGNED''"
| "event_type_value ASSIGNMENT_EXECUTED = ''ASSIGNMENT_EXECUTED''"
| "event_type_value WORKLOAD_UPDATED = ''WORKLOAD_UPDATED''"
| "event_type_value TELEMETRY_READING = ''TELEMETRY_READING''"
| "event_type_value OPERATIONAL_RISK_BREACH = ''OPERATIONAL_RISK_BREACH''"
| "event_type_value DISPATCH_POLICY_SIGNAL = ''DISPATCH_POLICY_SIGNAL''"
| "event_type_value SYSTEM_STATUS = ''SYSTEM_STATUS''"

definition event_types :: "dispatch_event_type list" where
  "event_types = [WORK_ORDER_SUBMITTED, WORK_ORDER_ACCEPTED, WORK_ORDER_REJECTED,
     WORK_ORDER_CANCELLED, WORK_ORDER_ASSIGNED, WORK_ORDER_PARTIALLY_ASSIGNED,
     ASSIGNMENT_EXECUTED, WORKLOAD_UPDATED, TELEMETRY_READING, OPERATIONAL_RISK_BREACH,
     DISPATCH_POLICY_SIGNAL, SYSTEM_STATUS]"

definition event_type_of :: "string \<Rightarrow> dispatch_event_type option" where
  "event_type_of s = find (\<lambda>t. event_type_value t = s) event_types"

record domain_event =
  event_id :: string
  event_type :: dispatch_event_type
  ev_timestamp :: datetime
  source :: string
  correlation_id :: "string option"
  payload :: payload

definition mk_domain_event :: "domain_event \<Rightarrow> exn + domain_event" where
  "mk_domain_event e = (case ensure_utc (ev_timestamp e) of
      Inl x \<Rightarrow> Inl x
    | Inr t \<Rightarrow> Inr (e\<lparr>ev_timestamp := t\<rparr>))"

definition event_to_dict :: "domain_event \<Rightarrow> payload" where
  "event_to_dict e =
     [(''event_id'', VStr (event_id e)),
      (''event_type'', VStr (event_type_value (event_type e))),
      (''timestamp'', VTimeText (ev_timestamp e)),
      (''source'', VStr (source e)),
      (''correlation_id'', opt_str (correlation_id e)),
      (''payload'', VDict (payload e))]"

text \<open>
  \<open>from_dict\<close>: an unknown event type or an unparsable time stamp is a \<open>ValueError\<close>, an
  unknown field a \<open>TypeError\<close>; a missing field takes its default, the identifier and the
  time from the streams \<open>uid\<close> and \<open>now\<close>. Fields of another type than declared are
  not modelled (the dataclass stores them unchecked), they count as a \<open>TypeError\<close> here.
\<close>

definition event_fields :: "string list" where
  "event_fields = [''event_id'', ''event_type'', ''timestamp'', ''source'', ''correlation_id'', ''payload'']"

definition event_from_dict :: "(string \<Rightarrow> datetime option) \<Rightarrow> string \<Rightarrow> int \<Rightarrow> payload \<Rightarrow> exn + domain_event" where
  "event_from_dict fromiso uid now d =
     (let ty = (case dict_get d ''event_type'' of
                  None \<Rightarrow> Inr SYSTEM_STATUS
                | Some (VStr s) \<Rightarrow> (case event_type_of s of None \<Rightarrow> Inl ValueError | Some t \<Rightarrow> Inr t)
                | Some _ \<Rightarrow> Inl ValueError);
          stamp = (case dict_get d ''timestamp'' of
                  None \<Rightarrow> Inr (Aware now 0)
                | Some (VTimeText t) \<Rightarrow> Inr t
                | Some (VStr s) \<Rightarrow> (case fromiso s of None \<Rightarrow> Inl ValueError | Some t \<Rightarrow> Inr t)
                | Some _ \<Rightarrow> Inl AttributeError);
          text = (\<lambda>k dflt. case dict_get d k of None \<Rightarrow> Inr dflt | Some (VStr s) \<Rightarrow> Inr s | Some _ \<Rightarrow> Inl TypeError);
          corr = (case dict_get d ''correlation_id'' of None \<Rightarrow> Inr None | Some VNone \<Rightarrow> Inr None
                | Some (VStr s) \<Rightarrow> Inr (Some s) | Some _ \<Rightarrow> Inl TypeError);
          pl = (case dict_get d ''payload'' of None \<Rightarrow> Inr [] | Some (VDict p) \<Rightarrow> Inr p | Some _ \<Rightarrow> Inl TypeError)
      in case ty of Inl x \<Rightarrow> Inl x | Inr t \<Rightarrow>
         (case stamp of Inl x \<Rightarrow> Inl x | Inr ts \<Rightarrow>
          if \<not> set (dict_keys d) \<subseteq> set event_fields then Inl TypeError
          else (case text ''event_id'' uid of Inl x \<Rightarrow> Inl x | Inr i \<Rightarrow>
          (case text ''source'' [] of Inl x \<Rightarrow> Inl x | Inr src \<Rightarrow>
          (case corr of Inl x \<Rightarrow> Inl x | Inr c \<Rightarrow>
          (case pl of Inl x \<Rightarrow> Inl x | Inr p \<Rightarrow>
           mk_domain_event \<lparr>event_id = i, event_type = t, ev_timestamp = ts, source = src,
             correlation_id = c, payload = p\<rparr>))))))"

section \<open>The event log\<close>

record event_log =
  el_log :: "domain_event list"
  el_max :: int
  base_sequence :: int
  next_sequence :: int

definition new_event_log :: "int \<Rightarrow> exn + event_log" where
  "new_event_log max_size = (if max_size \<le> 0 then Inl ValueError
     else Inr \<lparr>el_log = [], el_max = max_size, base_sequence = 0, next_sequence = 0\<rparr>)"

definition log_append :: "domain_event \<Rightarrow> event_log \<Rightarrow> int \<times> event_log" where
  "log_append e l =
     (let sq = next_sequence l;
          l1 = l\<lparr>el_log := el_log l @ [e], next_sequence := next_sequence l + 1\<rparr>;
          n = int (length (el_log l1))
      in (sq, if el_max l1 < n
              then (let overflow = n - el_max l1 in
                    l1\<lparr>el_log := drop (nat overflow) (el_log l1),
                       base_sequence := base_sequence l1 + overflow\<rparr>)
              else l1))"

definition log_replay :: "int \<Rightarrow> dispatch_event_type set option \<Rightarrow> event_log \<Rightarrow> domain_event list" where
  "log_replay from_seq types l =
     (let start = max from_seq (base_sequence l) - base_sequence l;
          start1 = (if start < 0 then 0 else start);
          events = drop (nat start1) (el_log l)
      in case types of
           None \<Rightarrow> events
         | Some ts \<Rightarrow> if ts = {} then events else filter (\<lambda>e. event_type e \<in> ts) events)"

definition log_snapshot :: "event_log \<Rightarrow> payload list" where
  "log_snapshot l = map event_to_dict (el_log l)"

definition log_size :: "event_log \<Rightarrow> int" where
  "log_size l = int (length (el_log l))"

definition latest_sequence :: "event_log \<Rightarrow> int" where
  "latest_sequence l = next_sequence l"

section \<open>The bus\<close>

type_synonym handle = nat

record subscription =
  subscriber_id :: string
  sub_types :: "dispatch_event_type set"
  sub_queue :: "domain_event list"
  sub_callback :: "nat option"

record event_bus =
  subscriptions :: "(string, handle) dict"
  sub_store :: "handle \<Rightarrow> subscription"
  next_handle :: handle
  bus_log :: "event_log option"
  max_queue :: int
  running :: bool
  dispatch_tasks :: "(string, handle) dict"

definition no_subscription :: subscription where
  "no_subscription = \<lparr>subscriber_id = [], sub_types = {}, sub_queue = [], sub_callback = None\<rparr>"

definition new_event_bus :: "bool \<Rightarrow> int \<Rightarrow> exn + event_bus" where
  "new_event_bus persist mq =
     (if mq \<le> 0 then Inl ValueError
      else case (if persist then map_sum id Some (new_event_log 100000) else Inr None) of
             Inl x \<Rightarrow> Inl x
           | Inr l \<Rightarrow> Inr \<lparr>subscriptions = [], sub_store = (\<lambda>_. no_subscription), next_handle = 0,
                          bus_log = l, max_queue = mq, running = False, dispatch_tasks = []\<rparr>)"

definition reserve_subscriber_id :: "string \<Rightarrow> string option \<Rightarrow> event_bus \<Rightarrow> exn + string" where
  "reserve_subscriber_id uid sid b = (case sid of
      None \<Rightarrow> Inr uid
    | Some s \<Rightarrow> if s \<in> set (dict_keys (subscriptions b)) then Inl ValueError else Inr s)"

definition sub_matches :: "subscription \<Rightarrow> domain_event \<Rightarrow> bool" where
  "sub_matches s e \<longleftrightarrow> sub_types s = {} \<or> event_type e \<in> sub_types s"

text \<open>
  One turn of the loop of \<open>publish\<close>: a subscriber that does not want the event is skipped, a
  full queue drops it.
\<close>

definition offer_event :: "int \<Rightarrow> domain_event \<Rightarrow> subscription \<Rightarrow> subscription" where
  "offer_event mq e s =
     (if \<not> sub_matches s e then s
      else if int (length (sub_queue s)) < mq then s\<lparr>sub_queue := sub_queue s @ [e]\<rparr>
      else s)"

definition publish :: "domain_event \<Rightarrow> event_bus \<Rightarrow> event_bus" where
  "publish e b =
     b\<lparr>bus_log := map_option (\<lambda>l. snd (log_append e l)) (bus_log b),
       sub_store := fold (\<lambda>h st. st(h := offer_event (max_queue b) e (st h)))
                         (dict_values (subscriptions b)) (sub_store b)\<rparr>"

definition register_subscription :: "subscription \<Rightarrow> event_bus \<Rightarrow> event_bus" where
  "register_subscription s b =
     b\<lparr>subscriptions := dict_set (subscriber_id s) (next_handle b) (subscriptions b),
       sub_store := (sub_store b)(next_handle b := s), next_handle := next_handle b + 1\<rparr>"

definition subscribe ::
  "string \<Rightarrow> dispatch_event_type set \<Rightarrow> nat \<Rightarrow> string option \<Rightarrow> event_bus \<Rightarrow> exn + (string \<times> event_bus)" where
  "subscribe uid types cb sid b =
     (case reserve_subscriber_id uid sid b of
        Inl x \<Rightarrow> Inl x
      | Inr s \<Rightarrow>
          let b1 = register_subscription \<lparr>subscriber_id = s, sub_types = types, sub_queue = [],
                     sub_callback = Some cb\<rparr> b
          in Inr (s, if running b1 then b1\<lparr>dispatch_tasks := dict_set s (next_handle b) (dispatch_tasks b1)\<rparr>
                     else b1))"

definition unsubscribe :: "string \<Rightarrow> event_bus \<Rightarrow> event_bus" where
  "unsubscribe sid b = b\<lparr>subscriptions := dict_pop sid (subscriptions b),
                         dispatch_tasks := dict_pop sid (dispatch_tasks b)\<rparr>"

text \<open>
  An asynchronous generator runs up to its first \<open>await\<close> when the consumer first asks for an
  event, so the subscription exists from then on: \<open>stream_open\<close>. The consumer keeps its
  subscriber id and its queue, and closing the generator runs the \<open>finally\<close> block.
\<close>

definition stream_open ::
  "string \<Rightarrow> dispatch_event_type set \<Rightarrow> string option \<Rightarrow> event_bus \<Rightarrow> exn + ((string \<times> handle) \<times> event_bus)" where
  "stream_open uid types sid b =
     (case reserve_subscriber_id uid sid b of
        Inl x \<Rightarrow> Inl x
      | Inr s \<Rightarrow> Inr ((s, next_handle b),
          register_subscription \<lparr>subscriber_id = s, sub_types = types, sub_queue = [],
            sub_callback = None\<rparr> b))"

definition take_event :: "handle \<Rightarrow> event_bus \<Rightarrow> (domain_event \<times> event_bus) option" where
  "take_event h b = (case sub_queue (sub_store b h) of
      [] \<Rightarrow> None
    | e # es \<Rightarrow> Some (e, b\<lparr>sub_store := (sub_store b)(h := (sub_store b h)\<lparr>sub_queue := es\<rparr>)\<rparr>))"

definition stream_next :: "handle \<Rightarrow> event_bus \<Rightarrow> (domain_event \<times> event_bus) option" where
  "stream_next h b = take_event h b"

definition stream_close :: "string \<Rightarrow> event_bus \<Rightarrow> event_bus" where
  "stream_close sid b = b\<lparr>subscriptions := dict_pop sid (subscriptions b)\<rparr>"

text \<open>
  One iteration of a dispatch loop: it ends when the bus is stopped and its queue is empty,
  otherwise it takes an event, if one arrives in time, and calls the handler; what the
  handler raises is logged and the loop goes on.
\<close>

datatype loop_turn = LoopExit | LoopIdle | LoopCall nat domain_event | LoopSkip domain_event

definition dispatch_turn :: "handle \<Rightarrow> event_bus \<Rightarrow> loop_turn \<times> event_bus" where
  "dispatch_turn h b =
     (if \<not> (running b \<or> sub_queue (sub_store b h) \<noteq> []) then (LoopExit, b)
      else case take_event h b of
             None \<Rightarrow> (LoopIdle, b)
           | Some (e, b') \<Rightarrow> (case sub_callback (sub_store b h) of
                                None \<Rightarrow> (LoopSkip e, b')
                              | Some cb \<Rightarrow> (LoopCall cb e, b')))"

definition start_bus :: "event_bus \<Rightarrow> event_bus" where
  "start_bus b =
     (let b1 = b\<lparr>running := True\<rparr> in
      b1\<lparr>dispatch_tasks := foldl (\<lambda>ts (sid, h).
            if sub_callback (sub_store b1 h) \<noteq> None \<and> sid \<notin> set (dict_keys ts)
            then dict_set sid h ts else ts) (dispatch_tasks b1) (subscriptions b1)\<rparr>)"

text \<open>
  \<open>stop\<close>: the flag is cleared, every dispatch loop runs to its exit (here one task after the
  other, each draining its queue), and the tasks are forgotten.
\<close>

definition stop_begin :: "event_bus \<Rightarrow> event_bus" where
  "stop_begin b = b\<lparr>running := False\<rparr>"

definition stop_end :: "event_bus \<Rightarrow> event_bus" where
  "stop_end b = b\<lparr>dispatch_tasks := []\<rparr>"

fun drain_loop :: "domain_event list \<Rightarrow> handle \<Rightarrow> event_bus \<Rightarrow> (nat \<times> domain_event) list \<times> event_bus" where
  "drain_loop [] h b = ([], b)"
| "drain_loop (x # xs) h b = (case dispatch_turn h b of
      (LoopCall cb e, b') \<Rightarrow> (let (cs, b'') = drain_loop xs h b' in ((cb, e) # cs, b''))
    | (LoopSkip e, b') \<Rightarrow> drain_loop xs h b'
    | (_, b') \<Rightarrow> ([], b'))"

fun drain_tasks :: "handle list \<Rightarrow> event_bus \<Rightarrow> (nat \<times> domain_event) list \<times> event_bus" where
  "drain_tasks [] b = ([], b)"
| "drain_tasks (h # hs) b =
     (let (cs, b1) = drain_loop (sub_queue (sub_store b h)) h b; (cs', b2) = drain_tasks hs b1
      in (cs @ cs', b2))"

definition stop_bus :: "event_bus \<Rightarrow> (nat \<times> domain_event) list \<times> event_bus" where
  "stop_bus b =
     (let b1 = stop_begin b; (calls, b2) = drain_tasks (dict_values (dispatch_tasks b1)) b1
      in (calls, stop_end b2))"

definition bus_replay :: "int \<Rightarrow> dispatch_event_type set option \<Rightarrow> event_bus \<Rightarrow> domain_event list" where
  "bus_replay from_seq types b = (case bus_log b of None \<Rightarrow> [] | Some l \<Rightarrow> log_replay from_seq types l)"

end
