(* ===== verification/Engine.thy ===== *)
theory Engine
  imports QueueLaws Events
begin

text \<open>
  The dispatch engine of \<^verbatim>\<open>mittelwerk/core/engine.py\<close>: the workload manager, boundary
  validation, the matching loop, submission and cancellation, and the events they publish.
  A submission awaits only \<open>EventBus.publish\<close>, which never suspends, so on one event loop a
  submission or cancellation is one atomic step.

  The clock and the identifiers are streams of the configuration, read in the order the code
  asks for them; \<open>num_text\<close> is the text of a decimal inside a message. \<open>key_enum\<close> is the key
  enumeration of \<^verbatim>\<open>SortedDict\<close> and \<open>pre_check\<close> the optional checker object (its reason
  is \<open>None\<close> where it is not a string).
\<close>

section \<open>Configuration and state\<close>

record engine_config =
  clock :: "nat \<Rightarrow> int"
  uuids :: "nat \<Rightarrow> string"
  num_text :: "rat \<Rightarrow> string"
  key_enum :: key_order
  cfg_equipment :: "(string, equipment) dict"
  pre_check :: "(work_order \<Rightarrow> workload option \<Rightarrow> bool \<times> string option) option"

record engine_state =
  orders :: heap
  queues :: "(string, dispatch_queue) dict"
  workloads :: "(string \<times> string, workload) dict"
  assignment_log :: "service_assignment list"
  submitted_count :: nat
  known_ids :: "string set"
  bus :: event_bus
  ticks :: nat
  uids :: nat

record dispatch_result =
  dr_work_order :: ref
  dr_assignments :: "service_assignment list"
  rejection_reason :: "string option"

definition accepted :: "heap \<Rightarrow> dispatch_result \<Rightarrow> bool" where
  "accepted h d \<longleftrightarrow> status (h (dr_work_order d)) \<noteq> REJECTED"

definition result_assigned_hours :: "heap \<Rightarrow> dispatch_result \<Rightarrow> rat" where
  "result_assigned_hours h d = assigned_hours (h (dr_work_order d))"

definition new_engine :: "heap \<Rightarrow> event_bus \<Rightarrow> engine_state" where
  "new_engine h b = \<lparr>orders = h, queues = [], workloads = [], assignment_log = [],
     submitted_count = 0, known_ids = {}, bus = b, ticks = 0, uids = 0\<rparr>"

type_synonym 'a step = "(engine_state, 'a) action"

definition utcnow :: "engine_config \<Rightarrow> int step" where
  "utcnow c s = (Inr (clock c (ticks s)), s\<lparr>ticks := ticks s + 1\<rparr>)"

definition fresh_uuid :: "engine_config \<Rightarrow> string step" where
  "fresh_uuid c s = (Inr (uuids c (uids s)), s\<lparr>uids := uids s + 1\<rparr>)"

text \<open>An assignment to a field of a work order object, with its validation.\<close>

definition set_field :: "ref \<Rightarrow> (work_order \<Rightarrow> work_order) \<Rightarrow> unit step" where
  "set_field r f s = (case assign_field f (orders s r) of
      Inl e \<Rightarrow> (Inl e, s)
    | Inr w \<Rightarrow> (Inr (), s\<lparr>orders := (orders s)(r := w)\<rparr>))"

definition set_status :: "ref \<Rightarrow> work_order_status \<Rightarrow> unit step" where
  "set_status r st = set_field r (\<lambda>w. w\<lparr>status := st\<rparr>)"

definition touch :: "engine_config \<Rightarrow> ref \<Rightarrow> unit step" where
  "touch c r = andthen (utcnow c) (\<lambda>now. set_field r (\<lambda>w. w\<lparr>updated_at := Some now\<rparr>))"

section \<open>Queues\<close>

definition the_queue :: "string \<Rightarrow> engine_state \<Rightarrow> dispatch_queue" where
  "the_queue a s = (case dict_get (queues s) a of Some q \<Rightarrow> q | None \<Rightarrow> new_queue a)"

definition put_queue :: "string \<Rightarrow> dispatch_queue \<Rightarrow> engine_state \<Rightarrow> engine_state" where
  "put_queue a q s = s\<lparr>queues := dict_set a q (queues s)\<rparr>"

definition get_or_create_queue :: "string \<Rightarrow> unit step" where
  "get_or_create_queue a s = (case dict_get (queues s) a of
      Some q \<Rightarrow> (Inr (), s)
    | None \<Rightarrow> (Inr (), put_queue a (new_queue a) s))"

definition get_queue :: "string \<Rightarrow> engine_state \<Rightarrow> dispatch_queue option" where
  "get_queue a s = dict_get (queues s) a"

section \<open>The workload manager\<close>

definition get_workload :: "engine_config \<Rightarrow> string \<Rightarrow> string \<Rightarrow> workload step" where
  "get_workload c org asset s = (case dict_get (workloads s) (org, asset) of
      Some w \<Rightarrow> (Inr w, s)
    | None \<Rightarrow> andthen (utcnow c) (\<lambda>now s1.
        let w = new_workload org asset now in
        (Inr w, s1\<lparr>workloads := dict_set (org, asset) w (workloads s1)\<rparr>)) s)"

definition peek_workload :: "string \<Rightarrow> string \<Rightarrow> engine_state \<Rightarrow> workload option" where
  "peek_workload org asset s = dict_get (workloads s) (org, asset)"

definition manager_apply :: "engine_config \<Rightarrow> string \<Rightarrow> string \<Rightarrow> dispatch_side \<Rightarrow> rat \<Rightarrow> rat \<Rightarrow> unit step" where
  "manager_apply c org asset sd hrs rate =
     andthen (get_workload c org asset) (\<lambda>w.
     andthen (utcnow c) (\<lambda>now.
     andthen (lift_exn (apply_assignment sd hrs rate now w)) (\<lambda>(_, w').
     modify (\<lambda>s. s\<lparr>workloads := dict_set (org, asset) w' (workloads s)\<rparr>))))"

definition all_workloads :: "engine_state \<Rightarrow> workload list" where
  "all_workloads s = dict_values (workloads s)"

definition organization_workloads :: "string \<Rightarrow> engine_state \<Rightarrow> workload list" where
  "organization_workloads org s = filter (\<lambda>w. wl_organization w = org) (dict_values (workloads s))"

definition get_workloads :: "string \<Rightarrow> engine_state \<Rightarrow> (string, workload) dict" where
  "get_workloads org s = foldl (\<lambda>d ((o', asset), w). if o' = org then dict_set asset w d else d) [] (workloads s)"

text \<open>\<open>reprice_asset\<close> marks the workloads of an asset one after the other.\<close>

fun reprice_entries :: "engine_config \<Rightarrow> string \<Rightarrow> rat \<Rightarrow> nat \<Rightarrow>
    ((string \<times> string) \<times> workload) list \<Rightarrow> ((string \<times> string) \<times> workload) list \<times> nat" where
  "reprice_entries c asset mark n [] = ([], n)"
| "reprice_entries c asset mark n (((org, a), w) # d) =
     (if a = asset \<and> net_hours w \<noteq> 0
      then (let (d', n') = reprice_entries c asset mark (Suc n) d
            in (((org, a), snd (reprice mark (clock c n) w)) # d', n'))
      else (let (d', n') = reprice_entries c asset mark n d in (((org, a), w) # d', n')))"

definition reprice_asset :: "engine_config \<Rightarrow> string \<Rightarrow> rat \<Rightarrow> unit step" where
  "reprice_asset c asset mark s =
     (let (ws, n) = reprice_entries c asset mark (ticks s) (workloads s)
      in (Inr (), s\<lparr>workloads := ws, ticks := n\<rparr>))"

section \<open>Events\<close>

definition publish_event ::
  "engine_config \<Rightarrow> dispatch_event_type \<Rightarrow> string \<Rightarrow> payload \<Rightarrow> unit step" where
  "publish_event c ty corr pl =
     andthen (fresh_uuid c) (\<lambda>uid.
     andthen (utcnow c) (\<lambda>now.
     andthen (lift_exn (mk_domain_event \<lparr>event_id = uid, event_type = ty, ev_timestamp = Aware now 0,
        source = ''dispatch_engine'', correlation_id = Some corr, payload = pl\<rparr>)) (\<lambda>e.
     modify (\<lambda>s. s\<lparr>bus := publish e (bus s)\<rparr>))))"

definition work_order_payload :: "work_order \<Rightarrow> payload" where
  "work_order_payload w =
     [(''work_order_id'', VStr (work_order_id w)),
      (''organization_id'', VStr (wo_organization w)),
      (''asset_id'', VStr (wo_asset w)),
      (''side'', VStr (side_value (side w))),
      (''mode'', VStr (mode_value (mode w))),
      (''requested_hours'', VNumText (requested_hours w)),
      (''assigned_hours'', VNumText (assigned_hours w)),
      (''status'', VStr (status_value (status w)))]"

definition publish_work_order_event ::
  "engine_config \<Rightarrow> dispatch_event_type \<Rightarrow> ref \<Rightarrow> payload \<Rightarrow> unit step" where
  "publish_work_order_event c ty r extra s =
     publish_event c ty (work_order_id (orders s r))
       (dict_update (work_order_payload (orders s r)) extra) s"

definition publish_resting_assignment :: "engine_config \<Rightarrow> ref \<Rightarrow> unit step" where
  "publish_resting_assignment c r s =
     publish_work_order_event c
       (if is_fully_assigned (orders s r) then WORK_ORDER_ASSIGNED else WORK_ORDER_PARTIALLY_ASSIGNED) r [] s"

definition publish_assignment_event :: "engine_config \<Rightarrow> service_assignment \<Rightarrow> ref \<Rightarrow> unit step" where
  "publish_assignment_event c a r s =
     andthen (publish_event c ASSIGNMENT_EXECUTED (work_order_id (orders s r))
       [(''assignment_id'', VStr (assignment_id a)),
        (''asset_id'', VStr (sa_asset a)),
        (''hourly_rate'', VNumText (hourly_rate a)),
        (''hours'', VNumText (hours a)),
        (''requester_work_order_id'', VStr (requester_work_order_id a)),
        (''provider_work_order_id'', VStr (provider_work_order_id a)),
        (''initiating_side'', VStr (side_value (initiating_side a)))]) (\<lambda>_.
     publish_event c WORKLOAD_UPDATED (work_order_id (orders s r))
       [(''asset_id'', VStr (sa_asset a)),
        (''requester_organization_id'', VStr (requester_organization a)),
        (''provider_organization_id'', VStr (provider_organization a)),
        (''hourly_rate'', VNumText (hourly_rate a)),
        (''hours'', VNumText (hours a))]) s"

section \<open>Boundary validation\<close>

definition validate_boundary :: "engine_config \<Rightarrow> work_order \<Rightarrow> exn + (bool \<times> string)" where
  "validate_boundary c w =
     (if mode w \<in> {ESCALATION, ESCALATION_CAPPED}
      then Inr (False, mode_value (mode w) @
             '' work orders are not supported: no escalation-trigger engine is configured'')
      else if dispatch_window w \<in> {SHIFT, SCHEDULED_END}
      then Inr (False, window_value (dispatch_window w) @
             '' dispatch window is not supported: no shift-clock / expiry subsystem is configured'')
      else if cfg_equipment c \<noteq> []
      then (case dict_get (cfg_equipment c) (wo_asset w) of
              None \<Rightarrow> Inr (False, ''Unknown asset: '' @ wo_asset w)
            | Some e \<Rightarrow>
                (case is_valid_hours e (requested_hours w) of
                   Inl x \<Rightarrow> Inl x
                 | Inr False \<Rightarrow> Inr (False, ''Hours '' @ num_text c (requested_hours w) @
                     '' is not a multiple of hour lot size '' @ num_text c (hour_lot_size e))
                 | Inr True \<Rightarrow>
                     (case max_hourly_rate w of
                        None \<Rightarrow> Inr (True, [])
                      | Some rate \<Rightarrow>
                          (case is_valid_rate e rate of
                             Inl x \<Rightarrow> Inl x
                           | Inr False \<Rightarrow> Inr (False, ''Rate '' @ num_text c rate @
                               '' is not a multiple of rate increment '' @ num_text c (rate_increment e))
                           | Inr True \<Rightarrow> Inr (True, [])))))
      else Inr (True, []))"

definition reject :: "engine_config \<Rightarrow> ref \<Rightarrow> string option \<Rightarrow> dispatch_result step" where
  "reject c r reason =
     (if (case reason of None \<Rightarrow> True | Some t \<Rightarrow> strip t = []) then raise ValueError
      else let t = strip (the reason) in
        andthen (set_status r REJECTED) (\<lambda>_.
        andthen (touch c r) (\<lambda>_.
        andthen (publish_work_order_event c WORK_ORDER_REJECTED r [(''reason'', VStr t)]) (\<lambda>_.
        ret \<lparr>dr_work_order = r, dr_assignments = [], rejection_reason = Some t\<rparr>))))"

section \<open>Matching\<close>

definition compute_avg_rate :: "rat option \<Rightarrow> rat \<Rightarrow> rat \<Rightarrow> rat \<Rightarrow> exn + rat" where
  "compute_avg_rate prev_avg prev_hours new_rate new_hours =
     (case prev_avg of
        None \<Rightarrow> Inr new_rate
      | Some avg \<Rightarrow>
          if prev_hours = 0 then Inr new_rate
          else dec_div (dec_add (dec_mul avg prev_hours) (dec_mul new_rate new_hours))
                       (dec_add prev_hours new_hours))"

text \<open>The three assignments to the fields of one order of a pair.\<close>

definition book_hours :: "ref \<Rightarrow> rat \<Rightarrow> rat \<Rightarrow> int \<Rightarrow> unit step" where
  "book_hours r hrs rate now s =
     andthen (lift_exn (compute_avg_rate (average_rate (orders s r)) (assigned_hours (orders s r)) rate hrs)) (\<lambda>avg.
     andthen (set_field r (\<lambda>w. w\<lparr>average_rate := Some avg\<rparr>)) (\<lambda>_.
     andthen (set_field r (\<lambda>w. w\<lparr>assigned_hours := dec_add (assigned_hours w) hrs\<rparr>)) (\<lambda>_.
     set_field r (\<lambda>w. w\<lparr>updated_at := Some now\<rparr>)))) s"

definition update_resting_status :: "ref \<Rightarrow> unit step" where
  "update_resting_status r s =
     set_status r (if is_fully_assigned (orders s r) then ASSIGNED else PARTIALLY_ASSIGNED) s"

definition record_assignment ::
  "engine_config \<Rightarrow> ref \<Rightarrow> ref \<Rightarrow> rat \<Rightarrow> rat \<Rightarrow> int \<Rightarrow> string \<Rightarrow> service_assignment step" where
  "record_assignment c inc rest hrs rate now uid s =
     (let incoming = orders s inc; resting = orders s rest;
          requester = (if side incoming = REQUEST then incoming else resting);
          provider = (if side incoming = REQUEST then resting else incoming)
      in andthen (lift_exn (mk_service_assignment
            \<lparr>assignment_id = uid, sa_asset = wo_asset incoming,
             requester_work_order_id = work_order_id requester,
             provider_work_order_id = work_order_id provider,
             hourly_rate = rate, hours = hrs,
             requester_organization = wo_organization requester,
             provider_organization = wo_organization provider,
             initiating_side = side incoming, sa_timestamp = now\<rparr>)) (\<lambda>a.
         andthen (manager_apply c (wo_organization requester) (wo_asset incoming) REQUEST hrs rate) (\<lambda>_.
         andthen (manager_apply c (wo_organization provider) (wo_asset incoming) OFFER hrs rate) (\<lambda>_.
         ret a))) s)"

definition execute_assignment :: "engine_config \<Rightarrow> ref \<Rightarrow> ref \<Rightarrow> rat \<Rightarrow> rat \<Rightarrow> service_assignment step" where
  "execute_assignment c inc rest hrs rate =
     andthen (utcnow c) (\<lambda>now.
     andthen (book_hours inc hrs rate now) (\<lambda>_.
     andthen (book_hours rest hrs rate now) (\<lambda>_.
     andthen (update_resting_status rest) (\<lambda>_.
     andthen (fresh_uuid c) (\<lambda>uid.
     record_assignment c inc rest hrs rate now uid)))))"

text \<open>
  One turn of the matching loop for the queue \<open>a\<close>: \<open>None\<close> where the loop breaks.
\<close>

definition match_turn :: "engine_config \<Rightarrow> string \<Rightarrow> ref \<Rightarrow> (service_assignment \<times> ref) option step" where
  "match_turn c a inc s =
     (let incoming = orders s inc;
          best = (if side incoming = REQUEST then peek_best_offer_order (key_enum c) (the_queue a s)
                  else peek_best_request_order (key_enum c) (the_queue a s))
      in case best of
           None \<Rightarrow> (Inr None, s)
         | Some rest \<Rightarrow>
             (case max_hourly_rate (orders s rest) of
                None \<Rightarrow> (Inl RuntimeError, s)
              | Some resting_rate \<Rightarrow>
                  if mode incoming = RATE_CAPPED \<and> max_hourly_rate incoming = None then (Inl RuntimeError, s)
                  else if mode incoming = RATE_CAPPED \<and> side incoming = REQUEST \<and>
                          the (max_hourly_rate incoming) < resting_rate then (Inr None, s)
                  else if mode incoming = RATE_CAPPED \<and> side incoming = OFFER \<and>
                          resting_rate < the (max_hourly_rate incoming) then (Inr None, s)
                  else
                    (let assign_hours = min (remaining_hours incoming) (remaining_hours (orders s rest)) in
                     andthen (execute_assignment c inc rest assign_hours resting_rate) (\<lambda>asg.
                     andthen (\<lambda>s1. if is_fully_assigned (orders s1 rest)
                        then (let q = the_queue a s1;
                                  q' = (if side incoming = REQUEST
                                        then snd (pop_best_offer (key_enum c) (orders s1) q)
                                        else snd (pop_best_request (key_enum c) (orders s1) q))
                              in (Inr (), put_queue a q' s1))
                        else (Inr (), s1)) (\<lambda>_.
                     ret (Some (asg, rest)))) s)))"

partial_function (option) match_loop ::
  "engine_config \<Rightarrow> string \<Rightarrow> ref \<Rightarrow> (service_assignment \<times> ref) list \<Rightarrow> engine_state \<Rightarrow>
   ((exn + (service_assignment \<times> ref) list) \<times> engine_state) option" where
  [code]: "match_loop c a inc acc s =
     (if 0 < remaining_hours (orders s inc)
      then (case match_turn c a inc s of
              (Inl e, s') \<Rightarrow> Some (Inl e, s')
            | (Inr None, s') \<Rightarrow> Some (Inr acc, s')
            | (Inr (Some p), s') \<Rightarrow> match_loop c a inc (acc @ [p]) s')
      else Some (Inr acc, s))"

text \<open>The loops of \<open>_can_assign_fully\<close>: \<open>blocked\<close> is their test for a rate out of reach.\<close>

fun capacity_loop :: "(rate_level \<Rightarrow> bool) \<Rightarrow> heap \<Rightarrow> rat \<Rightarrow> rat \<Rightarrow> rate_level list \<Rightarrow> bool" where
  "capacity_loop blocked h needed available [] = (needed \<le> available)"
| "capacity_loop blocked h needed available (l # ls) =
     (if blocked l then needed \<le> available
      else let available' = dec_add available (total_hours h l) in
           if needed \<le> available' then True else capacity_loop blocked h needed available' ls)"

definition can_assign_fully :: "engine_config \<Rightarrow> heap \<Rightarrow> work_order \<Rightarrow> dispatch_queue \<Rightarrow> bool" where
  "can_assign_fully c h w q =
     (let capped = (mode w = RATE_CAPPED) in
      if side w = REQUEST
      then capacity_loop (\<lambda>l. capped \<and> (case max_hourly_rate w of None \<Rightarrow> False | Some m \<Rightarrow> m < lvl_rate l))
             h (remaining_hours w) 0 (offer_levels (key_enum c) 1000000 q)
      else capacity_loop (\<lambda>l. capped \<and> (case max_hourly_rate w of None \<Rightarrow> False | Some m \<Rightarrow> lvl_rate l < m))
             h (remaining_hours w) 0 (request_levels (key_enum c) 1000000 q))"

section \<open>Submission\<close>

definition pre_dispatch :: "engine_config \<Rightarrow> ref \<Rightarrow> dispatch_result option step" where
  "pre_dispatch c r s = (case pre_check c of
      None \<Rightarrow> (Inr None, s)
    | Some check \<Rightarrow>
        (case check (orders s r) (peek_workload (wo_organization (orders s r)) (wo_asset (orders s r)) s) of
           (True, _) \<Rightarrow> (Inr None, s)
         | (False, None) \<Rightarrow> (Inl TypeError, s)
         | (False, Some t) \<Rightarrow>
             andthen (reject c r (Some (if strip t = [] then ''Pre-dispatch check failed'' else strip t)))
               (\<lambda>d. ret (Some d)) s))"

text \<open>
  The part of \<open>submit_work_order\<close> before the match: \<open>Some\<close> result where it returns early.
\<close>

definition not_new_reason :: "work_order_status \<Rightarrow> string" where
  "not_new_reason st = ''cannot submit work order in status '' @ status_value st @
     ''; only NEW work orders may be submitted''"

definition stand_down :: "engine_config \<Rightarrow> ref \<Rightarrow> string \<Rightarrow> unit step" where
  "stand_down c r reason =
     andthen (set_status r CANCELLED) (\<lambda>_.
     andthen (touch c r) (\<lambda>_.
     publish_work_order_event c WORK_ORDER_CANCELLED r [(''reason'', VStr reason)]))"

definition admit :: "engine_config \<Rightarrow> ref \<Rightarrow> dispatch_result option step" where
  "admit c r =
     andthen (set_status r ACCEPTED) (\<lambda>_.
     andthen (touch c r) (\<lambda>_.
     andthen (publish_work_order_event c WORK_ORDER_ACCEPTED r []) (\<lambda>_ s.
       if dispatch_window (orders s r) = COMPLETE \<and>
          \<not> can_assign_fully c (orders s) (orders s r) (the_queue (wo_asset (orders s r)) s)
       then andthen (stand_down c r ''COMPLETE work order could not be fully assigned'') (\<lambda>_.
            ret (Some \<lparr>dr_work_order = r, dr_assignments = [], rejection_reason = None\<rparr>)) s
       else (Inr None, s))))"

definition open_submission :: "engine_config \<Rightarrow> ref \<Rightarrow> dispatch_result option step" where
  "open_submission c r s =
     (if work_order_id (orders s r) \<in> known_ids s
      then (Inl (DuplicateWorkOrderError (work_order_id (orders s r))), s)
      else
        andthen (modify (\<lambda>s. s\<lparr>known_ids := insert (work_order_id (orders s r)) (known_ids s),
                             submitted_count := submitted_count s + 1\<rparr>)) (\<lambda>_.
        andthen (publish_work_order_event c WORK_ORDER_SUBMITTED r []) (\<lambda>_ s.
          (if status (orders s r) \<noteq> NEW
           then andthen (reject c r (Some (not_new_reason (status (orders s r))))) (\<lambda>d. ret (Some d)) s
           else case validate_boundary c (orders s r) of
               Inl e \<Rightarrow> (Inl e, s)
             | Inr (False, reason) \<Rightarrow> andthen (reject c r (Some reason)) (\<lambda>d. ret (Some d)) s
             | Inr (True, _) \<Rightarrow>
                 andthen (get_or_create_queue (wo_asset (orders s r))) (\<lambda>_.
                 andthen (pre_dispatch c r) (\<lambda>early.
                   case early of Some d \<Rightarrow> ret (Some d) | None \<Rightarrow> admit c r)) s))) s)"

text \<open>The part after the match.\<close>

fun publish_fills :: "engine_config \<Rightarrow> ref \<Rightarrow> (service_assignment \<times> ref) list \<Rightarrow> unit step" where
  "publish_fills c r [] = ret ()"
| "publish_fills c r ((a, rest) # ms) =
     andthen (modify (\<lambda>s. s\<lparr>assignment_log := assignment_log s @ [a]\<rparr>)) (\<lambda>_.
     andthen (publish_assignment_event c a r) (\<lambda>_.
     andthen (publish_resting_assignment c rest) (\<lambda>_. publish_fills c r ms)))"

definition finalise :: "engine_config \<Rightarrow> ref \<Rightarrow> string \<Rightarrow> service_assignment list \<Rightarrow> unit step" where
  "finalise c r a assignments s =
     (if is_fully_assigned (orders s r)
      then andthen (set_status r ASSIGNED) (\<lambda>_.
           andthen (touch c r) (\<lambda>_.
           publish_work_order_event c WORK_ORDER_ASSIGNED r [])) s
      else
        andthen (if assignments \<noteq> []
                 then andthen (set_status r PARTIALLY_ASSIGNED) (\<lambda>_.
                      andthen (touch c r) (\<lambda>_.
                      publish_work_order_event c WORK_ORDER_PARTIALLY_ASSIGNED r []))
                 else ret ()) (\<lambda>_ s.
          (if mode (orders s r) = RATE_CAPPED \<and> dispatch_window (orders s r) = OPEN
           then (case add_work_order (orders s) r (the_queue a s) of
                   Inl e \<Rightarrow> (Inl e, s)
                 | Inr q \<Rightarrow> (Inr (), put_queue a q s))
           else stand_down c r
                  (if dispatch_window (orders s r) = IMMEDIATE
                   then ''IMMEDIATE residual stood down''
                   else ''ANY_RATE work order residual stood down (no capacity)'') s)) s)"

definition close_submission ::
  "engine_config \<Rightarrow> ref \<Rightarrow> string \<Rightarrow> (service_assignment \<times> ref) list \<Rightarrow> dispatch_result step" where
  "close_submission c r a ms =
     andthen (publish_fills c r ms) (\<lambda>_.
     andthen (\<lambda>s. if ms \<noteq> [] then reprice_asset c (wo_asset (orders s r)) (hourly_rate (fst (last ms))) s
                  else (Inr (), s)) (\<lambda>_.
     andthen (finalise c r a (map fst ms)) (\<lambda>_.
     ret \<lparr>dr_work_order = r, dr_assignments = map fst ms, rejection_reason = None\<rparr>)))"

definition submit_work_order ::
  "engine_config \<Rightarrow> ref \<Rightarrow> engine_state \<Rightarrow> ((exn + dispatch_result) \<times> engine_state) option" where
  "submit_work_order c r s =
     (case open_submission c r s of
        (Inl e, s1) \<Rightarrow> Some (Inl e, s1)
      | (Inr (Some d), s1) \<Rightarrow> Some (Inr d, s1)
      | (Inr None, s1) \<Rightarrow>
          (let a = wo_asset (orders s1 r) in
           case match_loop c a r [] s1 of
             None \<Rightarrow> None
           | Some (Inl e, s2) \<Rightarrow> Some (Inl e, s2)
           | Some (Inr ms, s2) \<Rightarrow> Some (close_submission c r a ms s2)))"

section \<open>Cancellation\<close>

fun cancel_in :: "engine_config \<Rightarrow> string \<Rightarrow> string list \<Rightarrow> ref option step" where
  "cancel_in c i [] s = (Inr None, s)"
| "cancel_in c i (a # as) s =
     (case DispatchQueues.cancel_work_order (orders s) i (the_queue a s) of
        (None, q') \<Rightarrow> cancel_in c i as (put_queue a q' s)
      | (Some r, q') \<Rightarrow>
          andthen (stand_down c r ''Client requested'') (\<lambda>_. ret (Some r)) (put_queue a q' s))"

definition cancel_work_order :: "engine_config \<Rightarrow> string \<Rightarrow> string option \<Rightarrow> ref option step" where
  "cancel_work_order c i asset s =
     (let qs = (case asset of
                  Some a \<Rightarrow> (case dict_get (queues s) a of Some q \<Rightarrow> [a] | None \<Rightarrow> [])
                | None \<Rightarrow> dict_keys (queues s))
      in cancel_in c i qs s)"

end
