(* ===== verification/Numbers.thy ===== *)
theory Numbers
  imports Values
begin

text \<open>
  Arithmetic on dynamically typed numbers: Python's \<^verbatim>\<open>int\<close> and \<^verbatim>\<open>float\<close> side by side. An
  operation on two integers is exact, with a float the integer is converted first, and
  comparisons between the two are exact.
\<close>

fun as_float :: "pyval \<Rightarrow> exn + pyfloat" where
  "as_float (VInt n) = int_to_float n"
| "as_float (VFloat x) = Inr x"
| "as_float (VBool b) = Inr (Fin (if b then 1 else 0))"
| "as_float _ = Inl TypeError"

fun float_op :: "(pyfloat \<Rightarrow> pyfloat \<Rightarrow> exn + pyfloat) \<Rightarrow> pyval \<Rightarrow> pyval \<Rightarrow> exn + pyval" where
  "float_op f a b = (case as_float a of Inl e \<Rightarrow> Inl e | Inr x \<Rightarrow>
     (case as_float b of Inl e \<Rightarrow> Inl e | Inr y \<Rightarrow> map_sum id VFloat (f x y)))"

fun num_add :: "pyval \<Rightarrow> pyval \<Rightarrow> exn + pyval" where
  "num_add (VInt a) (VInt b) = Inr (VInt (a + b))"
| "num_add a b = float_op (\<lambda>x y. Inr (f_add x y)) a b"

fun num_sub :: "pyval \<Rightarrow> pyval \<Rightarrow> exn + pyval" where
  "num_sub (VInt a) (VInt b) = Inr (VInt (a - b))"
| "num_sub a b = float_op (\<lambda>x y. Inr (f_sub x y)) a b"

fun num_mul :: "pyval \<Rightarrow> pyval \<Rightarrow> exn + pyval" where
  "num_mul (VInt a) (VInt b) = Inr (VInt (a * b))"
| "num_mul a b = float_op (\<lambda>x y. Inr (f_mul x y)) a b"

text \<open>The value of a number, with the infinities and NaN as they are.\<close>

fun num_value :: "pyval \<Rightarrow> pyfloat" where
  "num_value (VInt n) = Fin (of_int n)"
| "num_value (VFloat x) = x"
| "num_value (VBool b) = Fin (if b then 1 else 0)"
| "num_value _ = NaN"

definition num_lt :: "pyval \<Rightarrow> pyval \<Rightarrow> bool" where
  "num_lt a b = f_lt (num_value a) (num_value b)"

definition num_le :: "pyval \<Rightarrow> pyval \<Rightarrow> bool" where
  "num_le a b = f_le (num_value a) (num_value b)"

definition num_min :: "pyval \<Rightarrow> pyval \<Rightarrow> pyval" where
  "num_min a b = (if num_lt b a then b else a)"

definition num_max :: "pyval \<Rightarrow> pyval \<Rightarrow> pyval" where
  "num_max a b = (if num_lt a b then b else a)"

text \<open>\<open>isinstance(v, (int, float))\<close> but not a \<open>bool\<close>.\<close>

fun is_number :: "pyval \<Rightarrow> bool" where
  "is_number (VInt n) = True"
| "is_number (VFloat x) = True"
| "is_number _ = False"

text \<open>\<^verbatim>\<open>math.isfinite\<close> converts an integer to a float first.\<close>

definition math_isfinite :: "pyval \<Rightarrow> exn + bool" where
  "math_isfinite v = map_sum id is_finite (as_float v)"

text \<open>
  The recurring test of the validators: a number that is not a \<open>bool\<close>, is finite, and
  satisfies a condition on its value.
\<close>

definition finite_number_such :: "(rat \<Rightarrow> bool) \<Rightarrow> pyval \<Rightarrow> exn + bool" where
  "finite_number_such P v =
     (if \<not> is_number v then Inr False
      else case math_isfinite v of
          Inl e \<Rightarrow> Inl e
        | Inr False \<Rightarrow> Inr False
        | Inr True \<Rightarrow> Inr (case num_value v of Fin x \<Rightarrow> P x | _ \<Rightarrow> False))"

lemma finite_number_suchD:
  assumes "finite_number_such P v = Inr True"
  shows "is_number v" "\<exists>x. num_value v = Fin x \<and> P x"
  using assms
  by (auto simp: finite_number_such_def math_isfinite_def split: if_splits sum.splits bool.splits pyfloat.splits)

end
