(* ===== verification/Capacity.thy ===== *)
theory Capacity
  imports Numbers
begin

text \<open>
  Capacity planning, \<^verbatim>\<open>mittelwerk/analytics/capacity.py\<close>: completion time, cost and
  finite-difference sensitivities of a crew working a backlog, with metrics that a descriptor
  caches under the hash of the plan parameters. Python's hash of a float is modelled; the mixing
  of the four hashes into the hash of the tuple is the parameter \<open>mix\<close>. Numeric text is not
  parsed here: arguments are numbers, as declared.
\<close>

section \<open>Parameters\<close>

definition finite_float :: "pyval \<Rightarrow> exn + pyfloat" where
  "finite_float v = (case v of
      VBool b \<Rightarrow> Inl ValueError
    | VInt n \<Rightarrow> int_to_float n
    | VFloat x \<Rightarrow> if is_finite x then Inr x else Inl ValueError
    | VNum x \<Rightarrow> if is_finite (to_float x) then Inr (to_float x) else Inl ValueError
    | _ \<Rightarrow> Inl ValueError)"

record plan =
  backlog_hours :: pyfloat
  crew_size :: pyfloat
  plan_rate :: pyfloat
  crew_capacity :: pyfloat

definition plan_parameters :: "pyval \<Rightarrow> pyval \<Rightarrow> pyval \<Rightarrow> pyval \<Rightarrow> exn + plan" where
  "plan_parameters b c r h =
     (case finite_float b of Inl e \<Rightarrow> Inl e | Inr backlog \<Rightarrow>
      (case finite_float c of Inl e \<Rightarrow> Inl e | Inr crew \<Rightarrow>
      (case finite_float r of Inl e \<Rightarrow> Inl e | Inr rate \<Rightarrow>
      (case finite_float h of Inl e \<Rightarrow> Inl e | Inr capacity \<Rightarrow>
       if f_lt backlog (Fin 0) then Inl ValueError
       else if f_le crew (Fin 0) then Inl ValueError
       else if f_le rate (Fin 0) then Inl ValueError
       else if f_le capacity (Fin 0) then Inl ValueError
       else Inr \<lparr>backlog_hours = backlog, crew_size = crew, plan_rate = rate, crew_capacity = capacity\<rparr>))))"

section \<open>Hashes\<close>

text \<open>
  The hash of a finite float \<open>n / 2^k\<close> is \<open>n * 2^-k\<close> modulo the prime \<open>2^61 - 1\<close>, where
  \<open>2^61\<close> is 1; the sign is kept and \<open>-1\<close> is replaced by \<open>-2\<close>.
\<close>

definition hash_modulus :: int where
  "hash_modulus = 2 ^ 61 - 1"

fun hash_float :: "pyfloat \<Rightarrow> int" where
  "hash_float (Fin x) =
     (let (n, d) = quotient_of x; k = ndigits 2 (nat d) - 1;
          h = (\<bar>n\<bar> * 2 ^ ((61 - k mod 61) mod 61)) mod hash_modulus;
          s = (if n < 0 then - h else h)
      in if s = -1 then -2 else s)"
| "hash_float PosInf = 314159"
| "hash_float NegInf = -314159"
| "hash_float NaN = 0"

definition param_hash :: "(int list \<Rightarrow> int) \<Rightarrow> plan \<Rightarrow> int" where
  "param_hash mix p = mix (map hash_float [backlog_hours p, crew_size p, plan_rate p, crew_capacity p])"

section \<open>Metrics of a plan\<close>

definition plan_days :: "pyfloat \<Rightarrow> pyfloat \<Rightarrow> pyfloat \<Rightarrow> exn + pyfloat" where
  "plan_days backlog crew capacity = f_div backlog (f_mul crew capacity)"

definition compute_completion_days :: "plan \<Rightarrow> exn + pyfloat" where
  "compute_completion_days p = plan_days (backlog_hours p) (crew_size p) (crew_capacity p)"

definition compute_cost_estimate :: "plan \<Rightarrow> exn + pyfloat" where
  "compute_cost_estimate p = Inr (f_mul (backlog_hours p) (plan_rate p))"

definition bump_of :: "pyfloat \<Rightarrow> pyfloat" where
  "bump_of x = f_max (f_mul x (Fin (fl (1 / 10 ^ 4)))) (Fin (fl (1 / 10 ^ 6)))"

text \<open>The central difference of two values that may fail.\<close>

definition central_difference :: "exn + pyfloat \<Rightarrow> exn + pyfloat \<Rightarrow> pyfloat \<Rightarrow> exn + pyfloat" where
  "central_difference up down bump =
     (case up of Inl e \<Rightarrow> Inl e | Inr u \<Rightarrow>
      (case down of Inl e \<Rightarrow> Inl e | Inr d \<Rightarrow> f_div (f_sub u d) (f_mul (Fin 2) bump)))"

definition compute_crew_sensitivity :: "plan \<Rightarrow> exn + pyfloat" where
  "compute_crew_sensitivity p =
     (let bump = bump_of (crew_size p);
          up = plan_days (backlog_hours p) (f_add (crew_size p) bump) (crew_capacity p);
          down = plan_days (backlog_hours p) (f_max (f_sub (crew_size p) bump) (Fin (fl (1 / 10 ^ 9)))) (crew_capacity p)
      in central_difference up down bump)"

definition compute_rate_sensitivity :: "plan \<Rightarrow> exn + pyfloat" where
  "compute_rate_sensitivity p =
     (let bump = bump_of (plan_rate p);
          up = Inr (f_mul (backlog_hours p) (f_add (plan_rate p) bump));
          down = Inr (f_mul (backlog_hours p) (f_sub (plan_rate p) bump))
      in central_difference up down bump)"

definition compute_backlog_sensitivity :: "plan \<Rightarrow> exn + pyfloat" where
  "compute_backlog_sensitivity p =
     (let bump = bump_of (backlog_hours p);
          up = plan_days (f_add (backlog_hours p) bump) (crew_size p) (crew_capacity p);
          down = plan_days (f_max (f_sub (backlog_hours p) bump) (Fin 0)) (crew_size p) (crew_capacity p)
      in central_difference up down bump)"

section \<open>The model and its cached metrics\<close>

datatype plan_metric = CompletionDays | CostEstimate | CrewSensitivity | RateSensitivity | BacklogSensitivity

fun compute_metric :: "plan_metric \<Rightarrow> plan \<Rightarrow> exn + pyfloat" where
  "compute_metric CompletionDays p = compute_completion_days p"
| "compute_metric CostEstimate p = compute_cost_estimate p"
| "compute_metric CrewSensitivity p = compute_crew_sensitivity p"
| "compute_metric RateSensitivity p = compute_rate_sensitivity p"
| "compute_metric BacklogSensitivity p = compute_backlog_sensitivity p"

text \<open>The attributes hold the parameters, which callers may assign unchecked, and the cache.\<close>

record capacity_model =
  cm_backlog :: pyval
  cm_crew :: pyval
  cm_rate :: pyval
  cm_capacity :: pyval
  cm_cache :: "plan_metric \<Rightarrow> (int \<times> pyfloat) option"

definition new_capacity_model :: "pyval \<Rightarrow> pyval \<Rightarrow> pyval \<Rightarrow> pyval \<Rightarrow> exn + capacity_model" where
  "new_capacity_model b c r h = (case plan_parameters b c r h of
      Inl e \<Rightarrow> Inl e
    | Inr p \<Rightarrow> Inr \<lparr>cm_backlog = VFloat (backlog_hours p), cm_crew = VFloat (crew_size p), cm_rate = VFloat (plan_rate p),
                  cm_capacity = VFloat (crew_capacity p), cm_cache = (\<lambda>_. None)\<rparr>)"

definition current_parameters :: "capacity_model \<Rightarrow> exn + plan" where
  "current_parameters m = plan_parameters (cm_backlog m) (cm_crew m) (cm_rate m) (cm_capacity m)"

definition read_metric ::
  "(int list \<Rightarrow> int) \<Rightarrow> plan_metric \<Rightarrow> (capacity_model, pyfloat) action" where
  "read_metric mix k m = (case current_parameters m of
      Inl e \<Rightarrow> (Inl e, m)
    | Inr p \<Rightarrow>
        (let current_hash = param_hash mix p in
         case cm_cache m k of
           Some (h, v) \<Rightarrow> if h = current_hash then (Inr v, m) else
             (case compute_metric k p of Inl e \<Rightarrow> (Inl e, m)
              | Inr v \<Rightarrow> (Inr v, m\<lparr>cm_cache := (cm_cache m)(k := Some (current_hash, v))\<rparr>))
         | None \<Rightarrow>
             (case compute_metric k p of Inl e \<Rightarrow> (Inl e, m)
              | Inr v \<Rightarrow> (Inr v, m\<lparr>cm_cache := (cm_cache m)(k := Some (current_hash, v))\<rparr>))))"

text \<open>Assigning to a metric is refused.\<close>

definition assign_metric :: "plan_metric \<Rightarrow> pyval \<Rightarrow> (capacity_model, unit) action" where
  "assign_metric k v = raise AttributeError"

definition utilization_rate :: "pyval \<Rightarrow> capacity_model \<Rightarrow> exn + pyfloat" where
  "utilization_rate rated m =
     (case finite_float rated of Inl e \<Rightarrow> Inl e | Inr r \<Rightarrow>
      if f_le r (Fin 0) then Inl ValueError
      else (case current_parameters m of Inl e \<Rightarrow> Inl e | Inr p \<Rightarrow>
        (case f_div (f_mul (crew_size p) (crew_capacity p)) r of Inl e \<Rightarrow> Inl e | Inr u \<Rightarrow>
         Inr (f_min (Fin 1) (f_max (Fin 0) u)))))"

definition metric_names :: "(string \<times> plan_metric) list" where
  "metric_names = [(''completion_days'', CompletionDays), (''cost_estimate'', CostEstimate),
     (''crew_sensitivity'', CrewSensitivity), (''rate_sensitivity'', RateSensitivity),
     (''backlog_sensitivity'', BacklogSensitivity)]"

fun read_metrics :: "(int list \<Rightarrow> int) \<Rightarrow> (string \<times> plan_metric) list \<Rightarrow> (capacity_model, (string \<times> pyfloat) list) action" where
  "read_metrics mix [] m = (Inr [], m)"
| "read_metrics mix ((n, k) # ks) m =
     andthen (read_metric mix k) (\<lambda>v. andthen (read_metrics mix ks) (\<lambda>vs. ret ((n, v) # vs))) m"

definition metrics_dict :: "(int list \<Rightarrow> int) \<Rightarrow> (capacity_model, (string, pyfloat) dict) action" where
  "metrics_dict mix = read_metrics mix metric_names"

section \<open>Aggregation\<close>

definition zero_metrics :: "(string, pyfloat) dict" where
  "zero_metrics = map (\<lambda>(n, k). (n, Fin 0)) metric_names"

definition add_weighted :: "pyfloat \<Rightarrow> (string, pyfloat) dict \<Rightarrow> (string, pyfloat) dict \<Rightarrow> (string, pyfloat) dict" where
  "add_weighted weight values aggregate =
     foldl (\<lambda>a (n, v). dict_set n (f_add (case dict_get a n of None \<Rightarrow> Fin 0 | Some x \<Rightarrow> x) (f_mul v weight)) a) aggregate values"

fun aggregate_loop :: "(int list \<Rightarrow> int) \<Rightarrow> (capacity_model \<times> pyval) list \<Rightarrow> (string, pyfloat) dict \<Rightarrow> exn + (string, pyfloat) dict" where
  "aggregate_loop mix [] aggregate = Inr aggregate"
| "aggregate_loop mix ((m, w) # rest) aggregate =
     (case finite_float w of Inl e \<Rightarrow> Inl e | Inr weight \<Rightarrow>
      (case metrics_dict mix m of
         (Inl e, _) \<Rightarrow> Inl e
       | (Inr values, _) \<Rightarrow> aggregate_loop mix rest (add_weighted weight values aggregate)))"

definition aggregate_capacity :: "(int list \<Rightarrow> int) \<Rightarrow> capacity_model list \<Rightarrow> pyval list \<Rightarrow> exn + (string, pyfloat) dict" where
  "aggregate_capacity mix models weights =
     (if length models \<noteq> length weights then Inl ValueError
      else aggregate_loop mix (zip models weights) zero_metrics)"

section \<open>Laws\<close>

text \<open>
  A cached value was computed from parameters that were current at an earlier read. Unless one
  of those collides with the current ones, a read returns what a fresh computation returns.
\<close>

definition cache_ok :: "(int list \<Rightarrow> int) \<Rightarrow> plan set \<Rightarrow> capacity_model \<Rightarrow> bool" where
  "cache_ok mix seen m \<longleftrightarrow> (\<forall>k h v. cm_cache m k = Some (h, v) \<longrightarrow>
     (\<exists>p\<in>seen. param_hash mix p = h \<and> compute_metric k p = Inr v))"

text \<open>The states of a model: made by its constructor, its attributes assigned, its metrics read.\<close>

inductive plan_run :: "(int list \<Rightarrow> int) \<Rightarrow> plan set \<Rightarrow> capacity_model \<Rightarrow> bool" for mix where
  Made: "new_capacity_model b c r h = Inr m \<Longrightarrow> plan_run mix {} m"
| Assigned: "plan_run mix seen m \<Longrightarrow>
    plan_run mix seen (m\<lparr>cm_backlog := b, cm_crew := c, cm_rate := r, cm_capacity := h\<rparr>)"
| Metric_read: "plan_run mix seen m \<Longrightarrow> current_parameters m = Inr p \<Longrightarrow> read_metric mix k m = (res, m') \<Longrightarrow>
    plan_run mix (insert p seen) m'"

lemma cache_ok_read:
  assumes "cache_ok mix seen m" "current_parameters m = Inr p" "read_metric mix k m = (res, m')"
  shows "cache_ok mix (insert p seen) m'"
proof (cases "m' = m")
  case False
  then obtain v where "compute_metric k p = Inr v" "m' = m\<lparr>cm_cache := (cm_cache m)(k := Some (param_hash mix p, v))\<rparr>"
    using assms(2,3) by (auto simp: read_metric_def Let_def dest: sym split: sum.splits option.splits if_splits)
  then show ?thesis using assms(1) by (auto simp: cache_ok_def)
qed (use assms(1) in \<open>auto simp: cache_ok_def\<close>)

lemma plan_run_cache_ok: "plan_run mix seen m \<Longrightarrow> cache_ok mix seen m"
proof (induction rule: plan_run.induct)
  case Metric_read
  then show ?case by (blast intro: cache_ok_read)
qed (auto simp: new_capacity_model_def cache_ok_def split: sum.splits)

lemma read_metric_fresh:
  assumes "cache_ok mix seen m" "current_parameters m = Inr p"
    "\<forall>q\<in>seen. param_hash mix q = param_hash mix p \<longrightarrow> q = p"
  shows "fst (read_metric mix k m) = compute_metric k p"
proof (cases "cm_cache m k")
  case None
  then show ?thesis using assms(2) by (auto simp: read_metric_def Let_def split: sum.splits)
next
  case (Some hv)
  obtain h v where hv: "hv = (h, v)" by fastforce
  obtain q where q: "q \<in> seen" "param_hash mix q = h" "compute_metric k q = Inr v"
    using assms(1) Some hv unfolding cache_ok_def by blast
  show ?thesis
  proof (cases "h = param_hash mix p")
    case True
    then have "q = p" using assms(3) q(1,2) by simp
    with q True Some hv assms(2) show ?thesis by (simp add: read_metric_def)
  next
    case False
    with Some hv assms(2) show ?thesis by (auto simp: read_metric_def Let_def split: sum.splits)
  qed
qed

lemma utilization_bounds:
  assumes "utilization_rate rated m = Inr u"
  shows "\<exists>x. u = Fin x \<and> 0 \<le> x \<and> x \<le> 1"
proof -
  obtain z where "u = f_min (Fin 1) (f_max (Fin 0) z)"
    using assms by (auto simp: utilization_rate_def split: sum.splits if_splits)
  then show ?thesis by (cases z) (auto simp: f_min_def f_max_def)
qed

end
