(* ===== verification/BacklogRisk.thy ===== *)
theory BacklogRisk
  imports Capacity
begin

text \<open>
  Backlog at risk, \<^verbatim>\<open>mittelwerk/analytics/backlog_risk.py\<close>. The functions of \<^verbatim>\<open>numpy\<close>,
  \<^verbatim>\<open>scipy\<close> and the square root are the fields of a parameter \<open>numerics\<close>; the properties
  state what they need of them.
\<close>

record numerics =
  np_mean :: "pyfloat list \<Rightarrow> pyfloat"
  np_std :: "pyfloat list \<Rightarrow> pyfloat"
  np_log :: "pyfloat \<Rightarrow> pyfloat"
  quantile_higher :: "pyfloat list \<Rightarrow> pyfloat \<Rightarrow> pyfloat"
  norm_ppf :: "pyfloat \<Rightarrow> pyfloat"
  f_sqrt :: "pyfloat \<Rightarrow> pyfloat"
  np_cumsum :: "pyfloat list \<Rightarrow> pyfloat list"
  np_minimum_accumulate :: "pyfloat list \<Rightarrow> pyfloat list"
  np_max :: "pyfloat list \<Rightarrow> pyfloat"
  np_min :: "pyfloat list \<Rightarrow> pyfloat"
  min_eigenvalue :: "pyfloat list list \<Rightarrow> pyfloat"
  quadratic_form :: "pyfloat list \<Rightarrow> pyfloat list list \<Rightarrow> pyfloat"

section \<open>Validation\<close>

definition validate_confidence :: "pyval \<Rightarrow> exn + pyfloat" where
  "validate_confidence v = (case finite_float v of Inl e \<Rightarrow> Inl e
    | Inr x \<Rightarrow> if f_lt (Fin 0) x \<and> f_lt x (Fin 1) then Inr x else Inl ValueError)"

definition validate_horizon :: "pyval \<Rightarrow> exn + int" where
  "validate_horizon v = (case v of VInt n \<Rightarrow> if n \<le> 0 then Inl ValueError else Inr n | _ \<Rightarrow> Inl ValueError)"

definition validate_backlog_hours :: "pyval \<Rightarrow> exn + pyfloat" where
  "validate_backlog_hours v = (case finite_float v of Inl e \<Rightarrow> Inl e
    | Inr x \<Rightarrow> if f_lt x (Fin 0) then Inl ValueError else Inr x)"

text \<open>A series of floats; deltas below zero count as zero.\<close>

definition overruns :: "pyfloat list \<Rightarrow> exn + pyfloat list" where
  "overruns series =
     (if series = [] then Inl ValueError
      else if \<not> list_all is_finite series then Inl ValueError
      else Inr (map (\<lambda>x. if f_lt x (Fin 0) then Fin 0 else x) series))"

section \<open>Measures\<close>

definition parametric_backlog_risk ::
  "numerics \<Rightarrow> pyval \<Rightarrow> pyval \<Rightarrow> pyval \<Rightarrow> pyval \<Rightarrow> exn + pyfloat" where
  "parametric_backlog_risk np open_hours volatility confidence horizon =
     (case validate_backlog_hours open_hours of Inl e \<Rightarrow> Inl e | Inr backlog \<Rightarrow>
      (case finite_float volatility of Inl e \<Rightarrow> Inl e | Inr vol \<Rightarrow>
      if f_lt vol (Fin 0) then Inl ValueError
      else (case validate_confidence confidence of Inl e \<Rightarrow> Inl e | Inr conf \<Rightarrow>
      (case validate_horizon horizon of Inl e \<Rightarrow> Inl e | Inr days \<Rightarrow>
      (case int_to_float days of Inl e \<Rightarrow> Inl e | Inr d \<Rightarrow>
       Inr (f_max (f_mul (f_mul (f_mul (norm_ppf np conf) vol) backlog) (f_sqrt np d)) (Fin 0)))))))"

definition close_to :: "pyfloat \<Rightarrow> pyfloat \<Rightarrow> pyfloat \<Rightarrow> bool" where
  "close_to tolerance x y = f_le (f_abs (f_sub x y)) tolerance"

definition symmetric_within :: "pyfloat \<Rightarrow> pyfloat list list \<Rightarrow> bool" where
  "symmetric_within tolerance m \<longleftrightarrow>
     (\<forall>i\<in>set [0..<length m]. \<forall>j\<in>set [0..<length m]. close_to tolerance (m ! i ! j) (m ! j ! i))"

definition parametric_backlog_risk_network ::
  "numerics \<Rightarrow> pyval \<Rightarrow> pyfloat list \<Rightarrow> pyfloat list list \<Rightarrow> pyval \<Rightarrow> pyval \<Rightarrow> pyval \<Rightarrow> exn + pyfloat" where
  "parametric_backlog_risk_network np open_hours vector covariance confidence horizon psd_tolerance =
     (case validate_backlog_hours open_hours of Inl e \<Rightarrow> Inl e | Inr backlog \<Rightarrow>
      (case validate_confidence confidence of Inl e \<Rightarrow> Inl e | Inr conf \<Rightarrow>
      (case validate_horizon horizon of Inl e \<Rightarrow> Inl e | Inr days \<Rightarrow>
      (case finite_float psd_tolerance of Inl e \<Rightarrow> Inl e | Inr tolerance \<Rightarrow>
       if f_lt tolerance (Fin 0) then Inl ValueError
       else if vector = [] then Inl ValueError
       else if length covariance \<noteq> length vector \<or> \<not> list_all (\<lambda>row. length row = length vector) covariance then Inl ValueError
       else if \<not> list_all is_finite vector \<or> \<not> list_all (list_all is_finite) covariance then Inl ValueError
       else if \<not> symmetric_within tolerance covariance then Inl ValueError
       else if f_lt (min_eigenvalue np covariance) (f_neg tolerance) then Inl ValueError
       else parametric_backlog_risk np (VFloat backlog)
              (VFloat (f_sqrt np (f_max (quadratic_form np vector covariance) (Fin 0)))) (VFloat conf) (VInt days)))))"

definition historical_backlog_risk :: "numerics \<Rightarrow> pyfloat list \<Rightarrow> pyval \<Rightarrow> exn + pyfloat" where
  "historical_backlog_risk np series confidence =
     (case overruns series of Inl e \<Rightarrow> Inl e | Inr xs \<Rightarrow>
      (case validate_confidence confidence of Inl e \<Rightarrow> Inl e | Inr conf \<Rightarrow> Inr (quantile_higher np xs conf)))"

definition conditional_backlog_risk :: "numerics \<Rightarrow> pyfloat list \<Rightarrow> pyval \<Rightarrow> exn + pyfloat" where
  "conditional_backlog_risk np series confidence =
     (case overruns series of Inl e \<Rightarrow> Inl e | Inr xs \<Rightarrow>
      (case validate_confidence confidence of Inl e \<Rightarrow> Inl e | Inr conf \<Rightarrow>
       (let threshold = quantile_higher np xs conf in
        Inr (np_mean np (filter (\<lambda>x. f_le threshold x) xs)))))"

section \<open>Stress tests\<close>

record stress_result =
  sr_name :: string
  stressed_hours :: pyfloat
  sr_change :: pyfloat
  sr_overrun :: pyfloat

fun stress_loop :: "pyfloat \<Rightarrow> (string \<times> pyval) list \<Rightarrow> exn + stress_result list" where
  "stress_loop backlog [] = Inr []"
| "stress_loop backlog ((n, shock) # rest) =
     (if strip n = [] then Inl ValueError
      else (case finite_float shock of Inl e \<Rightarrow> Inl e | Inr s \<Rightarrow>
        if f_lt s (Fin (-1)) then Inl ValueError
        else (let stressed = f_mul backlog (f_add (Fin 1) s); change = f_sub stressed backlog in
          map_sum id ((#) \<lparr>sr_name = n, stressed_hours = stressed, sr_change = change, sr_overrun = f_max change (Fin 0)\<rparr>)
            (stress_loop backlog rest))))"

definition capacity_stress_test :: "pyval \<Rightarrow> (string \<times> pyval) list \<Rightarrow> exn + stress_result list" where
  "capacity_stress_test open_hours scenarios =
     (case validate_backlog_hours open_hours of Inl e \<Rightarrow> Inl e | Inr backlog \<Rightarrow> stress_loop backlog scenarios)"

section \<open>The engine\<close>

record risk_engine =
  re_confidence :: pyfloat
  re_horizon :: int

definition new_risk_engine :: "pyval \<Rightarrow> pyval \<Rightarrow> exn + risk_engine" where
  "new_risk_engine c h = (case validate_confidence c of Inl e \<Rightarrow> Inl e | Inr conf \<Rightarrow>
     (case validate_horizon h of Inl e \<Rightarrow> Inl e | Inr days \<Rightarrow> Inr \<lparr>re_confidence = conf, re_horizon = days\<rparr>))"

definition risk_measure :: "string \<Rightarrow> exn + pyfloat \<Rightarrow> exn + (string, pyfloat) dict" where
  "risk_measure n r = map_sum id (\<lambda>x. [(n, x)]) r"

definition join_results :: "exn + 'a list \<Rightarrow> exn + 'a list \<Rightarrow> exn + 'a list" where
  "join_results a b = (case a of Inl e \<Rightarrow> Inl e | Inr x \<Rightarrow> map_sum id ((@) x) b)"

definition risk_compute ::
  "numerics \<Rightarrow> risk_engine \<Rightarrow> pyval \<Rightarrow> pyval \<Rightarrow> pyfloat list option \<Rightarrow> pyval \<Rightarrow> pyval \<Rightarrow> exn + (string, pyfloat) dict" where
  "risk_compute np e open_hours volatility history confidence horizon =
     (case finite_float open_hours of Inl x \<Rightarrow> Inl x | Inr backlog \<Rightarrow>
      (case (case confidence of VNone \<Rightarrow> Inr (re_confidence e) | c \<Rightarrow> validate_confidence c) of Inl x \<Rightarrow> Inl x | Inr conf \<Rightarrow>
      (case (case horizon of VNone \<Rightarrow> Inr (re_horizon e) | h \<Rightarrow> validate_horizon h) of Inl x \<Rightarrow> Inl x | Inr days \<Rightarrow>
       join_results
         (case volatility of VNone \<Rightarrow> Inr []
          | v \<Rightarrow> risk_measure ''parametric_backlog_risk'' (parametric_backlog_risk np (VFloat backlog) v (VFloat conf) (VInt days)))
         (case history of None \<Rightarrow> Inr []
          | Some xs \<Rightarrow> join_results
              (risk_measure ''historical_backlog_risk'' (historical_backlog_risk np xs (VFloat conf)))
              (risk_measure ''conditional_backlog_risk'' (conditional_backlog_risk np xs (VFloat conf)))))))"

section \<open>Laws\<close>

text \<open>What the historical measure uses of the library: with the method \<^verbatim>\<open>higher\<close>, a quantile is one of the values.\<close>

definition quantile_law :: "numerics \<Rightarrow> bool" where
  "quantile_law np \<longleftrightarrow> (\<forall>xs c. xs \<noteq> [] \<longrightarrow> list_all is_finite xs \<longrightarrow> quantile_higher np xs c \<in> set xs)"

lemma f_max_zero: "f_le (Fin 0) (f_max x (Fin 0)) \<or> x = NaN"
  by (cases x) (auto simp: f_max_def f_le_def)

lemma overruns_ok:
  assumes "overruns series = Inr xs"
  shows "xs \<noteq> []" "list_all is_finite xs" "\<forall>x\<in>set xs. \<exists>y. x = Fin y \<and> 0 \<le> y"
proof -
  have s: "series \<noteq> []" "list_all is_finite series" "xs = map (\<lambda>x. if f_lt x (Fin 0) then Fin 0 else x) series"
    using assms by (auto simp: overruns_def split: if_splits)
  show "xs \<noteq> []" using s by simp
  show "\<forall>x\<in>set xs. \<exists>y. x = Fin y \<and> 0 \<le> y"
  proof
    fix x assume "x \<in> set xs"
    then obtain z where "z \<in> set series" "x = (if f_lt z (Fin 0) then Fin 0 else z)" using s(3) by auto
    with s(2) show "\<exists>y. x = Fin y \<and> 0 \<le> y" by (cases z) (auto simp: list_all_iff)
  qed
  then show "list_all is_finite xs" by (auto simp: list_all_iff)
qed

text \<open>The historical measure is a recorded overrun, or zero; it fails exactly on an unusable series or confidence.\<close>

lemma historical_observed:
  assumes np: "quantile_law np"
  shows "case historical_backlog_risk np series c of
      Inr t \<Rightarrow> (\<exists>x. t = Fin x \<and> 0 \<le> x \<and> (x = 0 \<or> Fin x \<in> set series))
    | Inl e \<Rightarrow> series = [] \<or> \<not> list_all is_finite series \<or> validate_confidence c = Inl e"
proof (cases "historical_backlog_risk np series c")
  case (Inl e)
  then show ?thesis by (auto simp: historical_backlog_risk_def overruns_def split: sum.splits if_splits)
next
  case (Inr t)
  then obtain xs conf where xs: "overruns series = Inr xs" "t = quantile_higher np xs conf"
    by (auto simp: historical_backlog_risk_def split: sum.splits)
  note o = overruns_ok [OF xs(1)]
  have t: "t \<in> set xs" using np o xs(2) unfolding quantile_law_def by blast
  then obtain x where x: "t = Fin x" "0 \<le> x" using o(3) by blast
  moreover have "t = Fin 0 \<or> t \<in> set series"
    using t xs(1) by (auto simp: overruns_def split: if_splits)
  ultimately show ?thesis using Inr by auto
qed

lemma stress_loop_spec:
  assumes "stress_loop backlog ss = Inr rs"
  shows "map sr_name rs = map fst ss \<and> (\<forall>r\<in>set rs. sr_overrun r = f_max (sr_change r) (Fin 0) \<and> sr_change r = f_sub (stressed_hours r) backlog)"
  using assms
proof (induction ss arbitrary: rs)
  case (Cons p ss)
  obtain n shock where p: "p = (n, shock)" by (cases p)
  show ?case
  proof (cases "stress_loop backlog ss")
    case (Inl e)
    with Cons.prems p show ?thesis by (auto simp: Let_def split: if_splits sum.splits)
  next
    case (Inr rs')
    with Cons.prems p obtain r where "rs = r # rs'" "sr_name r = n" "sr_overrun r = f_max (sr_change r) (Fin 0)"
      "sr_change r = f_sub (stressed_hours r) backlog"
      by (auto simp: Let_def split: if_splits sum.splits)
    with Cons.IH [OF Inr] p show ?thesis by simp
  qed
qed simp

end
