(* ===== verification/Operations.thy ===== *)
theory Operations
  imports BacklogRisk
begin

text \<open>
  Organization-level analytics, \<^verbatim>\<open>mittelwerk/analytics/operations.py\<close>. The state holds the
  aggregated workloads, the budget, the recorded backlog deltas and the registered capacity
  models; the optional workload provider reads a world of type \<open>'w\<close> (the dispatch engine, in
  the API) and is consulted before every result. Copying a workload copies its values. The
  metric caches of the registered clones are not tracked: they are private copies whose
  parameters never change.
\<close>

section \<open>The text of a float as a decimal\<close>

text \<open>
  \<^verbatim>\<open>Decimal(str(x))\<close>: the shortest decimal that reads back as \<open>x\<close>, the nearest one where
  several are equally short.
\<close>

definition short_candidates :: "rat \<Rightarrow> nat \<Rightarrow> rat list" where
  "short_candidates x n =
     (let q = quantum 10 n (-400) x in
      filter (\<lambda>y. fl y = x) (sort_key (\<lambda>y. \<bar>y - x\<bar>) [of_int \<lfloor>x / q\<rfloor> * q, of_int \<lceil>x / q\<rceil> * q]))"

definition float_text :: "rat \<Rightarrow> rat" where
  "float_text x = (case concat (map (short_candidates x) [1..<18]) of [] \<Rightarrow> x | y # _ \<Rightarrow> y)"

definition decimal_of_float :: "pyfloat \<Rightarrow> exn + rat" where
  "decimal_of_float f = (case f of Fin x \<Rightarrow> Inr (float_text x) | _ \<Rightarrow> Inl ValidationError)"

section \<open>State\<close>

record 'w analytics =
  an_workloads :: "(string, workload) dict"
  an_budget :: rat
  an_organization :: string
  an_provider :: "('w \<Rightarrow> workload list option) option"
  an_engine :: risk_engine
  an_history :: "(string, pyfloat list) dict"
  an_models :: "(string, capacity_model \<times> pyfloat) dict"

type_synonym ('w, 'a) an_op = "('w analytics, 'a) action"

definition organization_key :: string where
  "organization_key = ''__organization__''"

text \<open>Adding a workload to the one already held for its asset.\<close>

definition combine_workloads :: "workload \<Rightarrow> workload \<Rightarrow> exn + workload" where
  "combine_workloads e c =
     (let combined = dec_add (net_hours e) (net_hours c);
          same_side = (net_hours e = 0 \<or> net_hours c = 0 \<or> (0 < net_hours e) = (0 < net_hours c));
          result = (\<lambda>avg lst upd. \<lparr>wl_organization = wl_organization e, wl_asset = wl_asset e, net_hours = combined,
             average_service_rate = avg, realized_cost = dec_add (realized_cost e) (realized_cost c),
             unrealized_cost = dec_add (unrealized_cost e) (unrealized_cost c), last_rate = lst, last_updated = upd\<rparr>)
      in if combined = 0 then Inr (result 0 None (max (last_updated e) (last_updated c)))
         else if same_side then
           (let latest = (if last_updated c \<le> last_updated e then e else c) in
            case dec_div (dec_add (dec_mul (dec_abs (net_hours e)) (average_service_rate e))
                                  (dec_mul (dec_abs (net_hours c)) (average_service_rate c)))
                         (dec_add (dec_abs (net_hours e)) (dec_abs (net_hours c))) of
              Inl x \<Rightarrow> Inl x
            | Inr avg \<Rightarrow> Inr (result avg (last_rate latest) (last_updated latest)))
         else
           (let surviving = (if dec_abs (net_hours c) < dec_abs (net_hours e) then e else c) in
            Inr (result (average_service_rate surviving) (last_rate surviving) (last_updated surviving))))"

definition aggregate_workload :: "workload \<Rightarrow> ('w, unit) an_op" where
  "aggregate_workload c a = (case dict_get (an_workloads a) (wl_asset c) of
      None \<Rightarrow> (Inr (), a\<lparr>an_workloads := dict_set (wl_asset c) c (an_workloads a)\<rparr>)
    | Some e \<Rightarrow> (case combine_workloads e c of
          Inl x \<Rightarrow> (Inl x, a)
        | Inr w \<Rightarrow> (Inr (), a\<lparr>an_workloads := dict_set (wl_asset c) w (an_workloads a)\<rparr>)))"

fun aggregate_all :: "workload list \<Rightarrow> ('w, unit) an_op" where
  "aggregate_all [] = ret ()"
| "aggregate_all (c # cs) = andthen (aggregate_workload c) (\<lambda>_. aggregate_all cs)"

definition replace_workloads :: "workload list \<Rightarrow> ('w, unit) an_op" where
  "replace_workloads ws = andthen (modify (\<lambda>a. a\<lparr>an_workloads := []\<rparr>)) (\<lambda>_. aggregate_all ws)"

definition default_risk_engine :: risk_engine where
  "default_risk_engine = \<lparr>re_confidence = to_float (95 / 100), re_horizon = 1\<rparr>"

definition blank_analytics :: "rat \<Rightarrow> string \<Rightarrow> ('w \<Rightarrow> workload list option) option \<Rightarrow> 'w analytics" where
  "blank_analytics budget organization provider =
     \<lparr>an_workloads = [], an_budget = budget, an_organization = organization, an_provider = provider,
      an_engine = default_risk_engine, an_history = [], an_models = []\<rparr>"

definition new_analytics ::
  "workload list option \<Rightarrow> rat \<Rightarrow> string \<Rightarrow> ('w \<Rightarrow> workload list option) option \<Rightarrow> exn + 'w analytics" where
  "new_analytics ws budget organization provider =
     (if organization = [] then Inl ValueError
      else (let a = blank_analytics budget organization provider in
        case ws of None \<Rightarrow> Inr a
        | Some l \<Rightarrow> (case replace_workloads l a of (Inl e, _) \<Rightarrow> Inl e | (Inr _, a') \<Rightarrow> Inr a')))"

section \<open>Workloads\<close>

definition sync_from_provider :: "'w \<Rightarrow> ('w, unit) an_op" where
  "sync_from_provider w a = (case an_provider a of
      None \<Rightarrow> (Inr (), a)
    | Some f \<Rightarrow> (case f w of None \<Rightarrow> (Inl ValueError, a) | Some ws \<Rightarrow> replace_workloads ws a))"

definition current_workloads :: "'w \<Rightarrow> ('w, workload list) an_op" where
  "current_workloads w = andthen (sync_from_provider w) (\<lambda>_ a. (Inr (dict_values (an_workloads a)), a))"

definition add_workload :: "'w \<Rightarrow> workload \<Rightarrow> ('w, unit) an_op" where
  "add_workload w c = andthen (sync_from_provider w) (\<lambda>_. aggregate_workload c)"

definition find_workload :: "'w \<Rightarrow> string \<Rightarrow> ('w, workload option) an_op" where
  "find_workload w asset = andthen (sync_from_provider w) (\<lambda>_ a. (Inr (dict_get (an_workloads a) asset), a))"

definition analytics_assets :: "'w \<Rightarrow> ('w, string list) an_op" where
  "analytics_assets w = andthen (sync_from_provider w) (\<lambda>_ a. (Inr (dict_keys (an_workloads a)), a))"

section \<open>Capacity models and backlog history\<close>

definition clone_model :: "capacity_model \<Rightarrow> exn + capacity_model" where
  "clone_model m = new_capacity_model (cm_backlog m) (cm_crew m) (cm_rate m) (cm_capacity m)"

definition register_capacity :: "string \<Rightarrow> capacity_model \<Rightarrow> pyval \<Rightarrow> ('w, unit) an_op" where
  "register_capacity asset m weight a =
     (if asset = [] then (Inl ValueError, a)
      else (case clone_model m of Inl e \<Rightarrow> (Inl e, a) | Inr m' \<Rightarrow>
        (case finite_float weight of Inl e \<Rightarrow> (Inl e, a) | Inr x \<Rightarrow>
         (Inr (), a\<lparr>an_models := dict_set asset (m', x) (an_models a)\<rparr>))))"

text \<open>The list for the asset is created before the delta is validated.\<close>

definition history_of :: "string \<Rightarrow> 'w analytics \<Rightarrow> pyfloat list" where
  "history_of asset a = (case dict_get (an_history a) asset of None \<Rightarrow> [] | Some h \<Rightarrow> h)"

definition record_daily_backlog :: "string \<Rightarrow> pyval \<Rightarrow> ('w, unit) an_op" where
  "record_daily_backlog asset delta a =
     (if asset = [] then (Inl ValueError, a)
      else (let h = history_of asset a; a1 = a\<lparr>an_history := dict_set asset h (an_history a)\<rparr> in
        case finite_float delta of
          Inl e \<Rightarrow> (Inl e, a1)
        | Inr x \<Rightarrow> (Inr (), a1\<lparr>an_history := dict_set asset (h @ [x]) (an_history a1)\<rparr>)))"

definition record_organization_backlog :: "pyval \<Rightarrow> ('w, unit) an_op" where
  "record_organization_backlog delta = record_daily_backlog organization_key delta"

section \<open>Totals\<close>

definition exposure_sum :: "workload list \<Rightarrow> rat" where
  "exposure_sum ws = dec_sum (map (exposure_value None) ws)"

definition total_exposure :: "'w \<Rightarrow> ('w, rat) an_op" where
  "total_exposure w = andthen (current_workloads w) (\<lambda>ws a. (Inr (dec_add (exposure_sum ws) (an_budget a)), a))"

definition total_cost :: "'w \<Rightarrow> ('w, rat) an_op" where
  "total_cost w = andthen (current_workloads w) (\<lambda>ws. ret (dec_sum (map wl_total_cost ws)))"

definition gross_committed_hours :: "'w \<Rightarrow> ('w, rat) an_op" where
  "gross_committed_hours w = andthen (current_workloads w)
     (\<lambda>ws. ret (dec_sum (map (\<lambda>x. dec_abs (exposure_value None x)) ws)))"

section \<open>Risk and performance figures\<close>

definition compute_backlog_risk :: "numerics \<Rightarrow> 'w \<Rightarrow> pyval \<Rightarrow> pyval \<Rightarrow> ('w, (string, pyfloat) dict) an_op" where
  "compute_backlog_risk np w volatility confidence =
     andthen (gross_committed_hours w) (\<lambda>g a.
       (risk_compute np (an_engine a) (VFloat (to_float g)) volatility (dict_get (an_history a) organization_key)
          confidence VNone, a))"

definition compute_utilization :: "(int list \<Rightarrow> int) \<Rightarrow> 'w analytics \<Rightarrow> exn + (string, pyfloat) dict" where
  "compute_utilization mix a =
     (if an_models a = [] then Inr zero_metrics
      else aggregate_capacity mix (map fst (dict_values (an_models a))) (map (VFloat \<circ> snd) (dict_values (an_models a))))"

definition working_days_per_year :: pyfloat where
  "working_days_per_year = Fin 260"

definition service_level_ratio :: "numerics \<Rightarrow> pyval \<Rightarrow> 'w analytics \<Rightarrow> exn + pyfloat option" where
  "service_level_ratio np target a = (case dict_get (an_history a) organization_key of
      None \<Rightarrow> Inr None
    | Some h \<Rightarrow>
        if length h < 2 then Inr None
        else (case finite_float target of Inl e \<Rightarrow> Inl e | Inr r \<Rightarrow>
          (case f_div r working_days_per_year of Inl e \<Rightarrow> Inl e | Inr daily \<Rightarrow>
           let excess = map (\<lambda>x. f_sub x daily) h; sd = np_std np excess in
           if f_eq sd (Fin 0) then Inr None
           else (case f_div (np_mean np excess) sd of Inl e \<Rightarrow> Inl e | Inr q \<Rightarrow>
             Inr (Some (f_mul q (f_sqrt np working_days_per_year)))))))"

definition max_backlog_overrun :: "numerics \<Rightarrow> 'w analytics \<Rightarrow> pyfloat option" where
  "max_backlog_overrun np a =
     (let h = history_of organization_key a in
      if h = [] then None
      else (let cumulative = Fin 0 # np_cumsum np h in
        Some (np_max np (map2 f_sub cumulative (np_minimum_accumulate np cumulative)))))"

record operational_risk_metrics =
  risk_95 :: rat
  risk_99 :: rat
  om_utilization :: rat
  sla_compliance :: rat
  average_lead_time :: rat
  om_service_level :: "rat option"
  om_max_overrun :: "rat option"
  computed_at :: int

definition decimal_or_none :: "pyfloat option \<Rightarrow> exn + rat option" where
  "decimal_or_none f = (case f of None \<Rightarrow> Inr None | Some x \<Rightarrow> map_sum id Some (decimal_of_float x))"

definition parametric_entry :: "(string, pyfloat) dict \<Rightarrow> pyfloat" where
  "parametric_entry d = (case dict_get d ''parametric_backlog_risk'' of None \<Rightarrow> Fin 0 | Some x \<Rightarrow> x)"

definition metric_entry :: "(string, pyfloat) dict \<Rightarrow> string \<Rightarrow> pyfloat" where
  "metric_entry d n = (case dict_get d n of None \<Rightarrow> NaN | Some x \<Rightarrow> x)"

text \<open>The construction of the metrics from the floats; a figure that is not finite is refused.\<close>

definition build_metrics ::
  "int \<Rightarrow> pyfloat \<Rightarrow> pyfloat \<Rightarrow> pyfloat \<Rightarrow> pyfloat option \<Rightarrow> pyfloat option \<Rightarrow> exn + operational_risk_metrics" where
  "build_metrics now r95 r99 days ratio overrun =
     (case (if f_lt (Fin 0) days
            then (case f_div (Fin 1) days of Inl e \<Rightarrow> Inl e
                  | Inr u \<Rightarrow> decimal_of_float (f_min (Fin 1) (f_max (Fin 0) u)))
            else Inr 0) of Inl e \<Rightarrow> Inl e | Inr util \<Rightarrow>
      (case decimal_of_float r95 of Inl e \<Rightarrow> Inl e | Inr b95 \<Rightarrow>
      (case decimal_of_float r99 of Inl e \<Rightarrow> Inl e | Inr b99 \<Rightarrow>
      (case decimal_of_float (f_mul days (Fin 24)) of Inl e \<Rightarrow> Inl e | Inr lead \<Rightarrow>
      (case decimal_or_none ratio of Inl e \<Rightarrow> Inl e | Inr sl \<Rightarrow>
      (case decimal_or_none overrun of Inl e \<Rightarrow> Inl e | Inr mo \<Rightarrow>
       Inr \<lparr>risk_95 = b95, risk_99 = b99, om_utilization = util, sla_compliance = (if f_le days (Fin 1) then 1 else 0),
            average_lead_time = lead, om_service_level = sl, om_max_overrun = mo, computed_at = now\<rparr>))))))"

definition operational_metrics ::
  "numerics \<Rightarrow> (int list \<Rightarrow> int) \<Rightarrow> int \<Rightarrow> 'w \<Rightarrow> pyval \<Rightarrow> pyval \<Rightarrow> pyval \<Rightarrow> ('w, operational_risk_metrics) an_op" where
  "operational_metrics np mix now w volatility c95 c99 =
     andthen (compute_backlog_risk np w volatility c95) (\<lambda>r95.
     andthen (compute_backlog_risk np w volatility c99) (\<lambda>r99 a.
       (case compute_utilization mix a of Inl e \<Rightarrow> Inl e | Inr u \<Rightarrow>
        (case service_level_ratio np (VFloat (Fin 0)) a of Inl e \<Rightarrow> Inl e | Inr ratio \<Rightarrow>
         build_metrics now (parametric_entry r95) (parametric_entry r99) (metric_entry u ''completion_days'')
           ratio (max_backlog_overrun np a)), a)))"

definition analytics_snapshot :: "int \<Rightarrow> 'w \<Rightarrow> ('w, organization_snapshot) an_op" where
  "analytics_snapshot now w = andthen (current_workloads w)
     (\<lambda>ws a. (Inr (mk_snapshot (an_organization a) ws (an_budget a) now), a))"

section \<open>Algebra\<close>

text \<open>Cloning the models and scaling their weights, in order.\<close>

fun copy_models :: "pyfloat \<Rightarrow> (string, capacity_model \<times> pyfloat) dict \<Rightarrow> exn + (string, capacity_model \<times> pyfloat) dict" where
  "copy_models factor [] = Inr []"
| "copy_models factor ((asset, m, x) # rest) =
     (case clone_model m of Inl e \<Rightarrow> Inl e | Inr m' \<Rightarrow>
      map_sum id ((#) (asset, m', f_mul x factor)) (copy_models factor rest))"

definition copy_state_to :: "'w analytics \<Rightarrow> 'w analytics \<Rightarrow> pyfloat \<Rightarrow> exn + 'w analytics" where
  "copy_state_to a target factor =
     map_sum id (\<lambda>ms. target\<lparr>an_history := map (\<lambda>(k, h). (k, map (\<lambda>x. f_mul x factor) h)) (an_history a), an_models := ms\<rparr>)
       (copy_models factor (an_models a))"

fun merge_history :: "(string, pyfloat list) dict \<Rightarrow> (string, pyfloat list) dict \<Rightarrow> exn + (string, pyfloat list) dict" where
  "merge_history merged [] = Inr merged"
| "merge_history merged ((asset, h) # rest) =
     (case dict_get merged asset of
        None \<Rightarrow> merge_history (dict_set asset h merged) rest
      | Some m \<Rightarrow> if length m \<noteq> length h then Inl ValueError
          else merge_history (dict_set asset (map2 f_add m h) merged) rest)"

definition model_hash :: "(int list \<Rightarrow> int) \<Rightarrow> capacity_model \<Rightarrow> exn + int" where
  "model_hash mix m = map_sum id (param_hash mix) (current_parameters m)"

fun merge_models :: "(int list \<Rightarrow> int) \<Rightarrow> (string, capacity_model \<times> pyfloat) dict \<Rightarrow> (string, capacity_model \<times> pyfloat) dict \<Rightarrow>
    exn + (string, capacity_model \<times> pyfloat) dict" where
  "merge_models mix merged [] = Inr merged"
| "merge_models mix merged ((asset, m, x) # rest) =
     (case dict_get merged asset of
        None \<Rightarrow> (case clone_model m of Inl e \<Rightarrow> Inl e | Inr m' \<Rightarrow> merge_models mix (dict_set asset (m', x) merged) rest)
      | Some (m0, x0) \<Rightarrow>
          (case model_hash mix m0 of Inl e \<Rightarrow> Inl e | Inr h0 \<Rightarrow>
           (case model_hash mix m of Inl e \<Rightarrow> Inl e | Inr h \<Rightarrow>
            if h0 \<noteq> h then Inl ValueError
            else merge_models mix (dict_set asset (m0, f_add x0 x) merged) rest)))"

text \<open>The sum, from the workloads the operands report: books, budget, histories, models.\<close>

definition combine_books :: "'w analytics \<Rightarrow> 'w analytics \<Rightarrow> workload list \<Rightarrow> workload list \<Rightarrow> exn + 'w analytics" where
  "combine_books a b left right =
     (case new_analytics None (dec_add (an_budget a) (an_budget b)) (an_organization a) None of Inl e \<Rightarrow> Inl e | Inr fresh \<Rightarrow>
      (case replace_workloads (left @ right) fresh of
         (Inl e, _) \<Rightarrow> Inl e
       | (Inr _, merged) \<Rightarrow>
           (let source_value = dec_add (exposure_sum left) (exposure_sum right) in
            Inr (merged\<lparr>an_budget := dec_add (an_budget merged)
              (dec_sub source_value (exposure_sum (dict_values (an_workloads merged))))\<rparr>))))"

definition add_analytics :: "(int list \<Rightarrow> int) \<Rightarrow> 'w \<Rightarrow> 'w analytics \<Rightarrow> 'w analytics \<Rightarrow> exn + 'w analytics" where
  "add_analytics mix w a b = (case current_workloads w a of (Inl e, _) \<Rightarrow> Inl e | (Inr left, a1) \<Rightarrow>
      (case current_workloads w b of (Inl e, _) \<Rightarrow> Inl e | (Inr right, b1) \<Rightarrow>
      (case combine_books a1 b1 left right of Inl e \<Rightarrow> Inl e | Inr merged \<Rightarrow>
      (case copy_state_to a1 merged (Fin 1) of Inl e \<Rightarrow> Inl e | Inr m1 \<Rightarrow>
      (case merge_history (an_history m1) (an_history b1) of Inl e \<Rightarrow> Inl e | Inr hs \<Rightarrow>
      (case merge_models mix (an_models m1) (an_models b1) of Inl e \<Rightarrow> Inl e | Inr ms \<Rightarrow>
       Inr (m1\<lparr>an_history := hs, an_models := ms\<rparr>)))))))"

definition scale_workload :: "rat \<Rightarrow> workload \<Rightarrow> workload" where
  "scale_workload k w = w\<lparr>net_hours := dec_mul (net_hours w) k, realized_cost := dec_mul (realized_cost w) k,
     unrealized_cost := dec_mul (unrealized_cost w) k\<rparr>"

definition mul_analytics :: "'w \<Rightarrow> 'w analytics \<Rightarrow> pyval \<Rightarrow> exn + 'w analytics" where
  "mul_analytics w a factor = (case finite_float factor of Inl e \<Rightarrow> Inl e | Inr multiplier \<Rightarrow>
      (case decimal_of_float multiplier of Inl e \<Rightarrow> Inl e | Inr k \<Rightarrow>
      (case new_analytics None (dec_mul (an_budget a) k) (an_organization a) None of Inl e \<Rightarrow> Inl e | Inr scaled \<Rightarrow>
      (case current_workloads w a of (Inl e, _) \<Rightarrow> Inl e | (Inr ws, a1) \<Rightarrow>
      (case replace_workloads (map (scale_workload k) ws) scaled of (Inl e, _) \<Rightarrow> Inl e | (Inr _, s1) \<Rightarrow>
       copy_state_to a1 s1 multiplier)))))"

definition sub_analytics :: "(int list \<Rightarrow> int) \<Rightarrow> 'w \<Rightarrow> 'w analytics \<Rightarrow> 'w analytics \<Rightarrow> exn + 'w analytics" where
  "sub_analytics mix w a b = (case mul_analytics w b (VFloat (Fin (-1))) of Inl e \<Rightarrow> Inl e
    | Inr negated \<Rightarrow> add_analytics mix w a negated)"

end
