(* ===== verification/Store.thy ===== *)
theory Store
  imports Values Texts
begin

text \<open>
  The time-series store, \<^verbatim>\<open>mittelwerk/telemetry/store.py\<close>. A table is the list of its rows in
  the order of their automatic identifiers, the equipment table is keyed by its primary key;
  \<open>select\<close>, \<open>where\<close>, \<open>order_by\<close> and \<open>limit\<close> are the list operations that SQL gives them.
  Whether the database completes a transaction is an argument (\<open>ok\<close>); the operator
  \<^verbatim>\<open>LIKE ... ESCAPE\<close> is a parameter with its documented laws \<open>like_laws\<close>. Columns hold the text
  of a decimal (here its value) and the UTC instant of a time stamp.
\<close>

section \<open>Column values\<close>

definition store_decimal :: "pyval \<Rightarrow> exn + rat" where
  "store_decimal v = (case v of
      VNum x \<Rightarrow> Inr x
    | VInt n \<Rightarrow> Inr (of_int n)
    | VNumText x \<Rightarrow> Inr x
    | VStr s \<Rightarrow> (case read_decimal s of None \<Rightarrow> Inl ValueError | Some x \<Rightarrow> Inr x)
    | _ \<Rightarrow> Inl TypeError)"

text \<open>
  A time stamp is stored in UTC without its offset (\<^verbatim>\<open>SQLite\<close> strips it) and tagged as UTC when
  it is read.
\<close>

definition bind_timestamp :: "datetime \<Rightarrow> exn + datetime" where
  "bind_timestamp dt = map_sum id (\<lambda>d. Naive (instant d)) (ensure_utc dt)"

fun result_timestamp :: "datetime \<Rightarrow> datetime" where
  "result_timestamp (Naive t) = Aware t 0"
| "result_timestamp (Aware t z) = Aware t 0"

definition max_query_limit :: int where
  "max_query_limit = 10000"

definition max_search_limit :: int where
  "max_search_limit = 200"

definition max_search_query_length :: nat where
  "max_search_query_length = 64"

definition validate_asset_id :: "string \<Rightarrow> exn + string" where
  "validate_asset_id s = (let n = upper (strip s) in if n = [] then Inl ValueError else Inr n)"

definition validate_limit :: "pyval \<Rightarrow> int \<Rightarrow> exn + nat" where
  "validate_limit v bound = (case v of
      VInt n \<Rightarrow> if n \<le> 0 then Inl ValueError else Inr (nat (min n bound))
    | _ \<Rightarrow> Inl TypeError)"

definition validate_sample_count :: "pyval \<Rightarrow> exn + int" where
  "validate_sample_count v = (case v of VInt n \<Rightarrow> if n < 0 then Inl ValueError else Inr n | _ \<Rightarrow> Inl TypeError)"

section \<open>Rows\<close>

record reading_row =
  rd_asset :: string
  rd_min :: rat
  rd_max :: rat
  rd_last :: rat
  rd_count :: int
  rd_timestamp :: datetime

record interval_row =
  iv_asset :: string
  iv_interval :: string
  iv_open :: rat
  iv_high :: rat
  iv_low :: rat
  iv_close :: rat
  iv_count :: int
  iv_timestamp :: datetime

record assignment_row =
  as_id :: string
  as_asset :: string
  as_requester_order :: string
  as_provider_order :: string
  as_rate :: rat
  as_hours :: rat
  as_requester :: string
  as_provider :: string
  as_timestamp :: datetime

record equipment_row =
  er_asset :: string
  er_name :: string
  er_type :: string
  er_currency :: string
  er_site :: string
  er_rate :: rat
  er_increment :: rat
  er_lot :: rat

definition equipment_dict :: "equipment_row \<Rightarrow> payload" where
  "equipment_dict r =
     [(''asset_id'', VStr (er_asset r)), (''name'', VStr (er_name r)), (''equipment_type'', VStr (er_type r)),
      (''currency'', VStr (er_currency r)), (''site_code'', VStr (er_site r)),
      (''hourly_service_rate'', VNumText (er_rate r)), (''rate_increment'', VNumText (er_increment r)),
      (''hour_lot_size'', VNumText (er_lot r))]"

fun category_value :: "equipment_category \<Rightarrow> string" where
  "category_value CNC_MACHINE = ''CNC_MACHINE''"
| "category_value HYDRAULIC_PRESS = ''HYDRAULIC_PRESS''"
| "category_value CONVEYOR_SYSTEM = ''CONVEYOR_SYSTEM''"
| "category_value ROBOTIC_ARM = ''ROBOTIC_ARM''"
| "category_value COMPRESSOR = ''COMPRESSOR''"
| "category_value GENERATOR = ''GENERATOR''"
| "category_value HVAC_UNIT = ''HVAC_UNIT''"
| "category_value FORKLIFT = ''FORKLIFT''"

section \<open>The store and its sessions\<close>

record telemetry_store =
  st_readings :: "reading_row list"
  st_intervals :: "interval_row list"
  st_assignments :: "assignment_row list"
  st_equipment :: "(string, equipment_row) dict"
  is_closed :: bool

definition new_store :: "string \<Rightarrow> exn + telemetry_store" where
  "new_store db_url = (if strip db_url = [] then Inl ValueError
     else Inr \<lparr>st_readings = [], st_intervals = [], st_assignments = [], st_equipment = [], is_closed = False\<rparr>)"

type_synonym 'a store_op = "(telemetry_store, 'a) action"

text \<open>One transaction: it is rolled back when its body raises or the database refuses it.\<close>

definition in_session :: "bool \<Rightarrow> (telemetry_store \<Rightarrow> exn + ('a \<times> telemetry_store)) \<Rightarrow> 'a store_op" where
  "in_session ok body s =
     (if is_closed s then (Inl RuntimeError, s)
      else (case body s of
          Inl e \<Rightarrow> (Inl e, s)
        | Inr (a, s') \<Rightarrow> if ok then (Inr a, s') else (Inl DatabaseError, s)))"

definition close_store :: "telemetry_store \<Rightarrow> telemetry_store" where
  "close_store s = s\<lparr>is_closed := True\<rparr>"

text \<open>A list comprehension whose element may raise.\<close>

fun map_exn :: "('a \<Rightarrow> exn + 'b) \<Rightarrow> 'a list \<Rightarrow> exn + 'b list" where
  "map_exn f [] = Inr []"
| "map_exn f (x # xs) = (case f x of Inl e \<Rightarrow> Inl e | Inr y \<Rightarrow> map_sum id ((#) y) (map_exn f xs))"

text \<open>\<^verbatim>\<open>ORDER BY timestamp DESC, id DESC\<close>.\<close>

definition newest_first :: "('r \<Rightarrow> datetime) \<Rightarrow> 'r list \<Rightarrow> 'r list" where
  "newest_first stamp rows = sort_key (\<lambda>r. - instant (stamp r)) (rev rows)"

section \<open>Readings\<close>

record reading_input =
  in_asset :: string
  in_min :: pyval
  in_max :: pyval
  in_last :: pyval
  in_count :: pyval
  in_timestamp :: datetime

definition reading_record :: "reading_input \<Rightarrow> exn + reading_row" where
  "reading_record r =
     (case validate_asset_id (in_asset r) of Inl e \<Rightarrow> Inl e | Inr a \<Rightarrow>
      (case store_decimal (in_min r) of Inl e \<Rightarrow> Inl e | Inr mn \<Rightarrow>
      (case store_decimal (in_max r) of Inl e \<Rightarrow> Inl e | Inr mx \<Rightarrow>
      (case store_decimal (in_last r) of Inl e \<Rightarrow> Inl e | Inr lst \<Rightarrow>
      (case validate_sample_count (in_count r) of Inl e \<Rightarrow> Inl e | Inr n \<Rightarrow>
      (case bind_timestamp (in_timestamp r) of Inl e \<Rightarrow> Inl e | Inr t \<Rightarrow>
       Inr \<lparr>rd_asset = a, rd_min = mn, rd_max = mx, rd_last = lst, rd_count = n, rd_timestamp = t\<rparr>))))))"

definition insert_reading :: "bool \<Rightarrow> reading_input \<Rightarrow> unit store_op" where
  "insert_reading ok r s = (case reading_record r of Inl e \<Rightarrow> (Inl e, s)
    | Inr row \<Rightarrow> in_session ok (\<lambda>s. Inr ((), s\<lparr>st_readings := st_readings s @ [row]\<rparr>)) s)"

definition insert_readings :: "bool \<Rightarrow> reading_input list \<Rightarrow> nat store_op" where
  "insert_readings ok rs s = (case map_exn reading_record rs of Inl e \<Rightarrow> (Inl e, s)
    | Inr rows \<Rightarrow> if rows = [] then (Inr 0, s)
        else in_session ok (\<lambda>s. Inr (length rows, s\<lparr>st_readings := st_readings s @ rows\<rparr>)) s)"

definition read_reading :: "reading_row \<Rightarrow> reading_row" where
  "read_reading r = r\<lparr>rd_timestamp := result_timestamp (rd_timestamp r)\<rparr>"

definition bound_instant :: "datetime option \<Rightarrow> exn + int option" where
  "bound_instant b = (case b of None \<Rightarrow> Inr None | Some d \<Rightarrow> map_sum id (\<lambda>d. Some (instant d)) (ensure_utc d))"

definition in_range :: "int option \<Rightarrow> int option \<Rightarrow> int \<Rightarrow> bool" where
  "in_range lo hi t \<longleftrightarrow> (case lo of None \<Rightarrow> True | Some a \<Rightarrow> a \<le> t) \<and> (case hi of None \<Rightarrow> True | Some b \<Rightarrow> t \<le> b)"

definition get_readings :: "bool \<Rightarrow> string \<Rightarrow> datetime option \<Rightarrow> datetime option \<Rightarrow> pyval \<Rightarrow> reading_row list store_op" where
  "get_readings ok asset from_time until_time limit s =
     (case validate_asset_id asset of Inl e \<Rightarrow> (Inl e, s) | Inr a \<Rightarrow>
      (case bound_instant from_time of Inl e \<Rightarrow> (Inl e, s) | Inr lo \<Rightarrow>
      (case bound_instant until_time of Inl e \<Rightarrow> (Inl e, s) | Inr hi \<Rightarrow>
      (case validate_limit limit max_query_limit of Inl e \<Rightarrow> (Inl e, s) | Inr n \<Rightarrow>
       in_session ok (\<lambda>s. Inr (map read_reading (take n (newest_first rd_timestamp
         (filter (\<lambda>r. rd_asset r = a \<and> in_range lo hi (instant (rd_timestamp r))) (st_readings s)))), s)) s))))"

definition latest_reading :: "bool \<Rightarrow> string \<Rightarrow> reading_row option store_op" where
  "latest_reading ok asset = andthen (get_readings ok asset None None (VInt 1))
     (\<lambda>rows. ret (case rows of [] \<Rightarrow> None | r # _ \<Rightarrow> Some r))"

section \<open>Intervals\<close>

record interval_input =
  ii_asset :: string
  ii_interval :: string
  ii_open :: pyval
  ii_high :: pyval
  ii_low :: pyval
  ii_close :: pyval
  ii_count :: pyval
  ii_timestamp :: datetime

definition interval_record :: "interval_input \<Rightarrow> exn + interval_row" where
  "interval_record r =
     (if strip (ii_interval r) = [] then Inl ValueError else
      (case validate_asset_id (ii_asset r) of Inl e \<Rightarrow> Inl e | Inr a \<Rightarrow>
      (case store_decimal (ii_open r) of Inl e \<Rightarrow> Inl e | Inr op \<Rightarrow>
      (case store_decimal (ii_high r) of Inl e \<Rightarrow> Inl e | Inr hi \<Rightarrow>
      (case store_decimal (ii_low r) of Inl e \<Rightarrow> Inl e | Inr lo \<Rightarrow>
      (case store_decimal (ii_close r) of Inl e \<Rightarrow> Inl e | Inr cl \<Rightarrow>
      (case validate_sample_count (ii_count r) of Inl e \<Rightarrow> Inl e | Inr n \<Rightarrow>
      (case bind_timestamp (ii_timestamp r) of Inl e \<Rightarrow> Inl e | Inr t \<Rightarrow>
       Inr \<lparr>iv_asset = a, iv_interval = strip (ii_interval r), iv_open = op, iv_high = hi, iv_low = lo,
            iv_close = cl, iv_count = n, iv_timestamp = t\<rparr>))))))))"

definition insert_interval :: "bool \<Rightarrow> interval_input \<Rightarrow> unit store_op" where
  "insert_interval ok r s = (case interval_record r of Inl e \<Rightarrow> (Inl e, s)
    | Inr row \<Rightarrow> in_session ok (\<lambda>s. Inr ((), s\<lparr>st_intervals := st_intervals s @ [row]\<rparr>)) s)"

definition insert_intervals :: "bool \<Rightarrow> interval_input list \<Rightarrow> nat store_op" where
  "insert_intervals ok rs s = (case map_exn interval_record rs of Inl e \<Rightarrow> (Inl e, s)
    | Inr rows \<Rightarrow> if rows = [] then (Inr 0, s)
        else in_session ok (\<lambda>s. Inr (length rows, s\<lparr>st_intervals := st_intervals s @ rows\<rparr>)) s)"

definition get_intervals :: "bool \<Rightarrow> string \<Rightarrow> string \<Rightarrow> pyval \<Rightarrow> interval_row list store_op" where
  "get_intervals ok asset interval limit s =
     (case validate_asset_id asset of Inl e \<Rightarrow> (Inl e, s) | Inr a \<Rightarrow>
      (case validate_limit limit max_query_limit of Inl e \<Rightarrow> (Inl e, s) | Inr n \<Rightarrow>
       in_session ok (\<lambda>s. Inr (map (\<lambda>r. r\<lparr>iv_timestamp := result_timestamp (iv_timestamp r)\<rparr>)
         (take n (newest_first iv_timestamp
           (filter (\<lambda>r. iv_asset r = a \<and> iv_interval r = interval) (st_intervals s)))), s)) s))"

section \<open>Assignments\<close>

record assignment_input =
  ai_id :: string
  ai_asset :: string
  ai_requester_order :: string
  ai_provider_order :: string
  ai_rate :: pyval
  ai_hours :: pyval
  ai_requester :: string
  ai_provider :: string
  ai_timestamp :: datetime

definition assignment_record :: "assignment_input \<Rightarrow> exn + assignment_row" where
  "assignment_record a =
     (if strip (ai_id a) = [] then Inl ValueError
      else if \<exists>t\<in>{ai_requester_order a, ai_provider_order a, ai_requester a, ai_provider a}. strip t = [] then Inl ValueError
      else (case validate_asset_id (ai_asset a) of Inl e \<Rightarrow> Inl e | Inr asset \<Rightarrow>
      (case store_decimal (ai_rate a) of Inl e \<Rightarrow> Inl e | Inr r \<Rightarrow>
      (case store_decimal (ai_hours a) of Inl e \<Rightarrow> Inl e | Inr h \<Rightarrow>
      (case bind_timestamp (ai_timestamp a) of Inl e \<Rightarrow> Inl e | Inr t \<Rightarrow>
       Inr \<lparr>as_id = ai_id a, as_asset = asset, as_requester_order = ai_requester_order a,
            as_provider_order = ai_provider_order a, as_rate = r, as_hours = h, as_requester = ai_requester a,
            as_provider = ai_provider a, as_timestamp = t\<rparr>)))))"

text \<open>The column \<^verbatim>\<open>assignment_id\<close> is unique.\<close>

definition add_assignments :: "assignment_row list \<Rightarrow> telemetry_store \<Rightarrow> exn + (nat \<times> telemetry_store)" where
  "add_assignments rows s =
     (if distinct (map as_id (st_assignments s @ rows))
      then Inr (length rows, s\<lparr>st_assignments := st_assignments s @ rows\<rparr>) else Inl DatabaseError)"

definition insert_assignments :: "bool \<Rightarrow> assignment_input list \<Rightarrow> nat store_op" where
  "insert_assignments ok xs s = (case map_exn assignment_record xs of Inl e \<Rightarrow> (Inl e, s)
    | Inr rows \<Rightarrow> if rows = [] then (Inr 0, s) else in_session ok (add_assignments rows) s)"

definition insert_assignment :: "bool \<Rightarrow> assignment_input \<Rightarrow> unit store_op" where
  "insert_assignment ok x s = (case assignment_record x of Inl e \<Rightarrow> (Inl e, s)
    | Inr row \<Rightarrow> andthen (in_session ok (add_assignments [row])) (\<lambda>_. ret ()) s)"

definition get_assignments :: "bool \<Rightarrow> string option \<Rightarrow> pyval \<Rightarrow> assignment_row list store_op" where
  "get_assignments ok asset limit s =
     (case (case asset of None \<Rightarrow> Inr None | Some a \<Rightarrow> map_sum id Some (validate_asset_id a)) of Inl e \<Rightarrow> (Inl e, s) | Inr wanted \<Rightarrow>
      (case validate_limit limit max_query_limit of Inl e \<Rightarrow> (Inl e, s) | Inr n \<Rightarrow>
       in_session ok (\<lambda>s. Inr (map (\<lambda>r. r\<lparr>as_timestamp := result_timestamp (as_timestamp r)\<rparr>)
         (take n (newest_first as_timestamp
           (filter (\<lambda>r. wanted = None \<or> wanted = Some (as_asset r)) (st_assignments s)))), s)) s))"

section \<open>Equipment\<close>

definition equipment_payload :: "equipment \<Rightarrow> exn + equipment_row" where
  "equipment_payload e = (case validate_asset_id (eq_asset_id e) of Inl x \<Rightarrow> Inl x | Inr a \<Rightarrow>
     Inr \<lparr>er_asset = a, er_name = eq_name e, er_type = category_value (equipment_type e), er_currency = currency e,
          er_site = site_code e, er_rate = hourly_service_rate e, er_increment = rate_increment e, er_lot = hour_lot_size e\<rparr>)"

definition upsert_equipments :: "bool \<Rightarrow> equipment list \<Rightarrow> nat store_op" where
  "upsert_equipments ok es s = (case map_exn equipment_payload es of Inl e \<Rightarrow> (Inl e, s)
    | Inr rows \<Rightarrow> if rows = [] then (Inr 0, s)
        else in_session ok (\<lambda>s. Inr (length rows,
               s\<lparr>st_equipment := foldl (\<lambda>t r. dict_set (er_asset r) r t) (st_equipment s) rows\<rparr>)) s)"

definition upsert_equipment :: "bool \<Rightarrow> equipment \<Rightarrow> unit store_op" where
  "upsert_equipment ok e = andthen (upsert_equipments ok [e]) (\<lambda>_. ret ())"

definition get_equipment :: "bool \<Rightarrow> string \<Rightarrow> equipment_row option store_op" where
  "get_equipment ok asset s = (case validate_asset_id asset of Inl e \<Rightarrow> (Inl e, s)
    | Inr a \<Rightarrow> in_session ok (\<lambda>s. Inr (dict_get (st_equipment s) a, s)) s)"

text \<open>\<^verbatim>\<open>str.replace\<close> of one character.\<close>

definition replace_char :: "char \<Rightarrow> string \<Rightarrow> string \<Rightarrow> string" where
  "replace_char c r s = concat (map (\<lambda>x. if x = c then r else [x]) s)"

definition backslash :: char where
  "backslash = CHR 0x5C"

definition escape_like :: "string \<Rightarrow> string" where
  "escape_like s = replace_char CHR ''_'' [backslash, CHR ''_'']
     (replace_char CHR ''%'' [backslash, CHR ''%''] (replace_char backslash [backslash, backslash] s))"

text \<open>\<^verbatim>\<open>column.ilike(pattern)\<close> is \<^verbatim>\<open>lower(column) LIKE lower(pattern)\<close>.\<close>

definition ilike :: "(string \<Rightarrow> string \<Rightarrow> bool) \<Rightarrow> string \<Rightarrow> string \<Rightarrow> bool" where
  "ilike lk pattern column = lk (lower pattern) (lower column)"

definition search_equipment :: "(string \<Rightarrow> string \<Rightarrow> bool) \<Rightarrow> bool \<Rightarrow> pyval \<Rightarrow> pyval \<Rightarrow> equipment_row list store_op" where
  "search_equipment lk ok query limit s = (case query of
      VStr q \<Rightarrow>
        (let term = strip q; pattern = ''%'' @ escape_like term @ ''%'' in
         if term = [] then (Inl ValueError, s)
         else if max_search_query_length < length term then (Inl ValueError, s)
         else (case validate_limit limit max_search_limit of Inl e \<Rightarrow> (Inl e, s) | Inr n \<Rightarrow>
           in_session ok (\<lambda>s. Inr (take n (sort_key er_asset
             (filter (\<lambda>r. ilike lk pattern (er_asset r) \<or> ilike lk pattern (er_name r)) (dict_values (st_equipment s)))), s)) s))
    | _ \<Rightarrow> (Inl TypeError, s))"

definition list_equipment :: "bool \<Rightarrow> pyval \<Rightarrow> equipment_row list store_op" where
  "list_equipment ok limit s = (case validate_limit limit max_search_limit of Inl e \<Rightarrow> (Inl e, s)
    | Inr n \<Rightarrow> in_session ok (\<lambda>s. Inr (take n (sort_key er_asset (dict_values (st_equipment s))), s)) s)"

definition clear_equipment :: "bool \<Rightarrow> nat store_op" where
  "clear_equipment ok = in_session ok (\<lambda>s. Inr (length (st_equipment s), s\<lparr>st_equipment := []\<rparr>))"

section \<open>Counts\<close>

definition count_rows :: "bool \<Rightarrow> (telemetry_store \<Rightarrow> string list) \<Rightarrow> string option \<Rightarrow> nat store_op" where
  "count_rows ok column asset s =
     (case (case asset of None \<Rightarrow> Inr None | Some a \<Rightarrow> map_sum id Some (validate_asset_id a)) of Inl e \<Rightarrow> (Inl e, s) | Inr wanted \<Rightarrow>
       in_session ok (\<lambda>s. Inr (length (filter (\<lambda>a. wanted = None \<or> wanted = Some a) (column s)), s)) s)"

definition count_readings :: "bool \<Rightarrow> string option \<Rightarrow> nat store_op" where
  "count_readings ok = count_rows ok (\<lambda>s. map rd_asset (st_readings s))"

definition count_assignments :: "bool \<Rightarrow> string option \<Rightarrow> nat store_op" where
  "count_assignments ok = count_rows ok (\<lambda>s. map as_asset (st_assignments s))"

definition count_equipment :: "bool \<Rightarrow> nat store_op" where
  "count_equipment ok = count_rows ok (\<lambda>s. dict_keys (st_equipment s)) None"

end
