(* ===== verification/Service.thy ===== *)
theory Service
  imports Engine Operations Store "HOL-Library.Sublist"
begin

text \<open>
  The dispatch service of \<^verbatim>\<open>mittelwerk/api/service.py\<close>: the books of the organizations, the
  submission that registers an order, records the costs and persists the assignments, the
  cancellation, and the payloads of the dashboard. The store is the telemetry store model;
  \<open>ok\<close> is the outcome of its transaction. The thread that writes to the store touches no
  service state, so a submission is one step of the model.
\<close>

section \<open>State\<close>

definition cost_history_limit :: nat where
  "cost_history_limit = 500"

definition dashboard_queue_depth :: int where
  "dashboard_queue_depth = 10"

record book =
  bk_orders :: "(string, ref) dict"
  bk_costs :: "(int \<times> rat) list"
  bk_analytics :: "engine_state analytics option"

record service_config =
  sc_engine :: engine_config
  display_currency :: string
  hours_volatility :: "pyfloat option"

record service =
  sv_engine :: engine_state
  sv_store :: "telemetry_store option"
  sv_books :: "(string, book) dict"

definition is_alpha :: "char \<Rightarrow> bool" where
  "is_alpha c \<longleftrightarrow> is_upper c \<or> is_lower c"

definition new_service :: "engine_config \<Rightarrow> pyval \<Rightarrow> pyval \<Rightarrow> exn + service_config" where
  "new_service ec cur vol =
     (case cur of
        VStr s \<Rightarrow>
          if length (strip s) \<noteq> 3 \<or> \<not> list_all is_alpha (strip s) then Inl ValueError
          else (case vol of
              VNone \<Rightarrow> Inr \<lparr>sc_engine = ec, display_currency = upper (strip s), hours_volatility = None\<rparr>
            | v \<Rightarrow>
                if \<not> is_number v then Inl TypeError
                else if num_le v (VInt 0) then Inl ValueError
                else (case as_float v of Inl e \<Rightarrow> Inl e
                    | Inr x \<Rightarrow> Inr \<lparr>sc_engine = ec, display_currency = upper (strip s), hours_volatility = Some x\<rparr>))
      | _ \<Rightarrow> Inl ValueError)"

definition empty_book :: book where
  "empty_book = \<lparr>bk_orders = [], bk_costs = [], bk_analytics = None\<rparr>"

definition open_service :: "engine_state \<Rightarrow> telemetry_store option \<Rightarrow> service" where
  "open_service s st = \<lparr>sv_engine = s, sv_store = st, sv_books = []\<rparr>"

text \<open>\<open>_book\<close> creates the book of an organization on its first use.\<close>

definition the_book :: "string \<Rightarrow> service \<Rightarrow> book" where
  "the_book org sv = (case dict_get (sv_books sv) org of None \<Rightarrow> empty_book | Some b \<Rightarrow> b)"

definition put_book :: "string \<Rightarrow> book \<Rightarrow> service \<Rightarrow> service" where
  "put_book org b sv = sv\<lparr>sv_books := dict_set org b (sv_books sv)\<rparr>"

definition book_of :: "string \<Rightarrow> (service, book) action" where
  "book_of org sv = (Inr (the_book org sv), put_book org (the_book org sv) sv)"

text \<open>The analytics view of an organization reads its workloads from the engine.\<close>

definition workload_provider :: "string \<Rightarrow> engine_state \<Rightarrow> workload list option" where
  "workload_provider org s = Some (organization_workloads org s)"

definition analytics_for :: "string \<Rightarrow> (service, engine_state analytics) action" where
  "analytics_for org sv = (let b = the_book org sv in
     case bk_analytics b of
       Some a \<Rightarrow> (Inr a, put_book org b sv)
     | None \<Rightarrow> (case new_analytics None 0 org (Some (workload_provider org)) of
           Inl e \<Rightarrow> (Inl e, put_book org b sv)
         | Inr a \<Rightarrow> (Inr a, put_book org (b\<lparr>bk_analytics := Some a\<rparr>) sv)))"

text \<open>An operation of the view, which keeps the state it leaves.\<close>

definition with_analytics :: "string \<Rightarrow> (engine_state, 'a) an_op \<Rightarrow> (service, 'a) action" where
  "with_analytics org m = andthen (analytics_for org) (\<lambda>a sv.
     (case m a of (r, a') \<Rightarrow> (r, put_book org ((the_book org sv)\<lparr>bk_analytics := Some a'\<rparr>) sv)))"

section \<open>Reading\<close>

definition work_orders_for :: "string \<Rightarrow> (service, ref list) action" where
  "work_orders_for org = andthen (book_of org) (\<lambda>b sv.
     (let h = orders (sv_engine sv) in
      (Inr (sort_key (\<lambda>r. created_at (h r)) (sort_key (\<lambda>r. work_order_id (h r)) (dict_values (bk_orders b)))), sv)))"

definition get_work_order :: "string \<Rightarrow> string \<Rightarrow> (service, ref option) action" where
  "get_work_order org i = andthen (book_of org) (\<lambda>b. ret (dict_get (bk_orders b) i))"

definition active_work_order_count :: "string \<Rightarrow> (service, nat) action" where
  "active_work_order_count org = andthen (book_of org) (\<lambda>b sv.
     (Inr (length (filter (\<lambda>r. is_active (orders (sv_engine sv) r)) (dict_values (bk_orders b)))), sv))"

definition workloads_for :: "string \<Rightarrow> service \<Rightarrow> workload list" where
  "workloads_for org sv = organization_workloads org (sv_engine sv)"

definition currency_for_asset :: "service_config \<Rightarrow> string \<Rightarrow> exn + string" where
  "currency_for_asset c asset = (case dict_get (cfg_equipment (sc_engine c)) asset of
      None \<Rightarrow> Inl RuntimeError | Some e \<Rightarrow> Inr (currency e))"

section \<open>Submission\<close>

definition append_cost :: "int \<Rightarrow> string \<Rightarrow> service \<Rightarrow> service" where
  "append_cost stamp org sv =
     (let total = dec_sum (map wl_total_cost (organization_workloads org (sv_engine sv)));
          b = the_book org sv; costs = bk_costs b @ [(stamp, total)]
      in put_book org (b\<lparr>bk_costs := drop (length costs - cost_history_limit) costs\<rparr>) sv)"

definition touched_organizations :: "service_assignment list \<Rightarrow> string list" where
  "touched_organizations as = sort (remdups (map requester_organization as @ map provider_organization as))"

definition record_cost :: "service_assignment list \<Rightarrow> service \<Rightarrow> service" where
  "record_cost as sv = (if as = [] then sv
     else foldl (\<lambda>v org. append_cost (sa_timestamp (last as)) org v) sv (touched_organizations as))"

definition assignment_payload :: "service_assignment \<Rightarrow> assignment_input" where
  "assignment_payload a =
     \<lparr>ai_id = assignment_id a, ai_asset = sa_asset a, ai_requester_order = requester_work_order_id a,
      ai_provider_order = provider_work_order_id a, ai_rate = VNum (hourly_rate a), ai_hours = VNum (hours a),
      ai_requester = requester_organization a, ai_provider = provider_organization a,
      ai_timestamp = Aware (sa_timestamp a) 0\<rparr>"

definition persistence_error :: "work_order \<Rightarrow> service_assignment list \<Rightarrow> exn" where
  "persistence_error w as = AssignmentPersistenceError (work_order_id w) (status_value (status w))
     (assigned_hours w) (map assignment_id as)"

definition persist_assignments :: "bool \<Rightarrow> ref \<Rightarrow> service_assignment list \<Rightarrow> (service, unit) action" where
  "persist_assignments ok r as sv =
     (if as = [] then (Inr (), sv)
      else (case sv_store sv of
          None \<Rightarrow> (Inr (), sv)
        | Some st \<Rightarrow>
            if is_closed st then (Inl (persistence_error (orders (sv_engine sv) r) as), sv)
            else (case insert_assignments ok (map assignment_payload as) st of
                (Inl _, st') \<Rightarrow> (Inl (persistence_error (orders (sv_engine sv) r) as), sv\<lparr>sv_store := Some st'\<rparr>)
              | (Inr _, st') \<Rightarrow> (Inr (), sv\<lparr>sv_store := Some st'\<rparr>))))"

definition register_order :: "string \<Rightarrow> ref \<Rightarrow> service \<Rightarrow> service" where
  "register_order org r sv = (let b = the_book org sv in
     put_book org (b\<lparr>bk_orders := dict_set (work_order_id (orders (sv_engine sv) r)) r (bk_orders b)\<rparr>) sv)"

text \<open>
  \<open>submit_work_order\<close>; \<open>None\<close> where the engine's submission would not return, which
  \<open>submit_returns\<close> excludes.
\<close>

definition service_submit ::
  "service_config \<Rightarrow> bool \<Rightarrow> string \<Rightarrow> ref \<Rightarrow> service \<Rightarrow> ((exn + dispatch_result) \<times> service) option" where
  "service_submit c ok org r sv =
     (if wo_organization (orders (sv_engine sv) r) \<noteq> org then Some (Inl ValueError, sv)
      else (case submit_work_order (sc_engine c) r (sv_engine sv) of
          None \<Rightarrow> None
        | Some (Inl e, s') \<Rightarrow> Some (Inl e, sv\<lparr>sv_engine := s'\<rparr>)
        | Some (Inr d, s') \<Rightarrow>
            (let sv1 = record_cost (dr_assignments d) (register_order org r (sv\<lparr>sv_engine := s'\<rparr>)) in
             Some (andthen (persist_assignments ok r (dr_assignments d)) (\<lambda>_. ret d) sv1))))"

definition service_cancel :: "service_config \<Rightarrow> string \<Rightarrow> string \<Rightarrow> (service, ref option) action" where
  "service_cancel c org i = andthen (get_work_order org i) (\<lambda>owned sv.
     (case owned of
        None \<Rightarrow> (Inl KeyError, sv)
      | Some r \<Rightarrow>
          (case Engine.cancel_work_order (sc_engine c) i (Some (wo_asset (orders (sv_engine sv) r))) (sv_engine sv) of
             (res, s') \<Rightarrow> (res, sv\<lparr>sv_engine := s'\<rparr>))))"

section \<open>Payloads\<close>

definition cost_history :: "string \<Rightarrow> (service, payload list) action" where
  "cost_history org = andthen (book_of org) (\<lambda>b.
     ret (map (\<lambda>(t, v). [(''timestamp'', VTimeText (Aware t 0)), (''value'', VNumText v)]) (bk_costs b)))"

fun opt_float :: "pyfloat option \<Rightarrow> pyval" where
  "opt_float None = VNone"
| "opt_float (Some x) = VFloat x"

definition risk_payload ::
  "numerics \<Rightarrow> (int list \<Rightarrow> int) \<Rightarrow> service_config \<Rightarrow> int \<Rightarrow> string \<Rightarrow> (service, payload) action" where
  "risk_payload np mix c now org sv =
     with_analytics org (
       andthen (operational_metrics np mix now (sv_engine sv) (opt_float (hours_volatility c))
                  (VFloat (to_float (95 / 100))) (VFloat (to_float (99 / 100)))) (\<lambda>m a.
       (case service_level_ratio np (VFloat (Fin 0)) a of Inl e \<Rightarrow> (Inl e, a) | Inr ratio \<Rightarrow>
        andthen (gross_committed_hours (sv_engine sv)) (\<lambda>g. ret
          [(''backlog_risk_95'', if hours_volatility c \<noteq> None then VNumText (risk_95 m) else VNone),
           (''backlog_risk_99'', if hours_volatility c \<noteq> None then VNumText (risk_99 m) else VNone),
           (''utilization_rate'', VNumText (om_utilization m)),
           (''sla_compliance_rate'', VNumText (sla_compliance m)),
           (''average_lead_time_hours'', VNumText (average_lead_time m)),
           (''service_level_ratio'', opt_float ratio),
           (''max_backlog_overrun'', opt_float (max_backlog_overrun np a)),
           (''gross_committed_hours'', VNumText g),
           (''computed_at'', VTimeText (Aware (computed_at m) 0))]) a))) sv"

definition workload_entry :: "service_config \<Rightarrow> workload \<Rightarrow> exn + pyval" where
  "workload_entry c w = (case currency_for_asset c (wl_asset w) of Inl e \<Rightarrow> Inl e | Inr cur \<Rightarrow>
     Inr (VDict [(''asset_id'', VStr (wl_asset w)), (''currency'', VStr cur),
       (''net_hours'', VNumText (net_hours w)), (''average_service_rate'', VNumText (average_service_rate w)),
       (''last_rate'', opt_num_text (last_rate w)), (''exposure_value'', VNumText (exposure_value None w)),
       (''realized_cost'', VNumText (realized_cost w)), (''unrealized_cost'', VNumText (unrealized_cost w)),
       (''total_cost'', VNumText (wl_total_cost w))]))"

definition workload_payload :: "service_config \<Rightarrow> string \<Rightarrow> service \<Rightarrow> exn + pyval list" where
  "workload_payload c org sv = map_exn (workload_entry c) (sort_key wl_asset (workloads_for org sv))"

definition dispatch_queue_payload :: "service_config \<Rightarrow> int \<Rightarrow> service \<Rightarrow> payload" where
  "dispatch_queue_payload c depth sv =
     map (\<lambda>(a, q). (a, VDict (depth_snapshot (key_enum (sc_engine c)) (orders (sv_engine sv)) depth q)))
       (sort_key fst (queues (sv_engine sv)))"

definition dashboard_payload ::
  "numerics \<Rightarrow> (int list \<Rightarrow> int) \<Rightarrow> service_config \<Rightarrow> int \<Rightarrow> string \<Rightarrow> (service, payload) action" where
  "dashboard_payload np mix c now org =
     andthen (analytics_for org) (\<lambda>_.
     andthen (\<lambda>sv. (workload_payload c org sv, sv)) (\<lambda>wls.
     andthen (risk_payload np mix c now org) (\<lambda>risk sv.
     andthen (with_analytics org (analytics_snapshot now (sv_engine sv))) (\<lambda>snap.
     andthen (with_analytics org (total_exposure (sv_engine sv))) (\<lambda>exposure.
     andthen (active_work_order_count org) (\<lambda>active.
     andthen (cost_history org) (\<lambda>costs sv'. (Inr
       [(''as_of'', VTimeText (Aware now 0)),
        (''currency'', VStr (display_currency c)),
        (''kpis'', VDict
           [(''exposure_value'', VNumText exposure),
            (''realized_cost'', VNumText (total_realized_cost snap)),
            (''unrealized_cost'', VNumText (total_unrealized_cost snap)),
            (''backlog_risk_95'', case dict_get risk ''backlog_risk_95'' of None \<Rightarrow> VNone | Some v \<Rightarrow> v),
            (''active_work_orders'', VInt (int active))]),
        (''workloads'', VList wls),
        (''cost_history'', VList (map VDict costs)),
        (''risk'', VDict risk),
        (''dispatch_queues'', VDict (dispatch_queue_payload c dashboard_queue_depth sv'))], sv'))))) sv)))"

section \<open>Search without a store\<close>

definition contains_text :: "string \<Rightarrow> string \<Rightarrow> bool" where
  "contains_text term s \<longleftrightarrow> sublist term s"

definition equipment_entry :: "equipment \<Rightarrow> payload" where
  "equipment_entry e =
     [(''asset_id'', VStr (eq_asset_id e)), (''name'', VStr (eq_name e)),
      (''equipment_type'', VStr (category_value (equipment_type e))), (''currency'', VStr (currency e)),
      (''site_code'', VStr (site_code e)), (''hourly_service_rate'', VNumText (hourly_service_rate e)),
      (''rate_increment'', VNumText (rate_increment e)), (''hour_lot_size'', VNumText (hour_lot_size e))]"

definition search_equipment_in_memory :: "(string, equipment) dict \<Rightarrow> string \<Rightarrow> nat \<Rightarrow> payload list" where
  "search_equipment_in_memory equipment query limit =
     (let term = lower (strip query);
          matches = filter (\<lambda>e. contains_text term (lower (eq_asset_id e)) \<or> contains_text term (lower (eq_name e)))
                      (dict_values equipment)
      in map equipment_entry (take limit (sort_key eq_asset_id matches)))"

end
