(* ===== verification/Keys.thy ===== *)
theory Keys
  imports Values "HOL-Library.List_Lexorder" "HOL-Library.Char_ord"
begin

text \<open>
  The API keys of \<^verbatim>\<open>mittelwerk/auth/keys.py\<close>. The keyed digest \<^verbatim>\<open>HMAC-SHA256\<close> is the
  parameter \<open>mac\<close> (secret, text); the random tokens, the key identifiers and the readings
  of the clock are arguments of the operations that draw them.
\<close>

definition valid_permissions :: "string list" where
  "valid_permissions = [''read'', ''dispatch'', ''admin'']"

definition key_prefix :: string where
  "key_prefix = ''mwk_''"

definition validate_organization_id :: "pyval \<Rightarrow> exn + string" where
  "validate_organization_id v = (case v of
      VStr s \<Rightarrow> if strip s = [] then Inl ValueError else Inr (strip s)
    | _ \<Rightarrow> Inl TypeError)"

fun collect_permissions :: "pyval list \<Rightarrow> string set \<Rightarrow> exn + string set" where
  "collect_permissions [] collected = Inr collected"
| "collect_permissions (VStr s # vs) collected =
     (let normalised = lower (strip s) in
      if normalised \<notin> set valid_permissions then Inl ValueError
      else collect_permissions vs (insert normalised collected))"
| "collect_permissions (_ # vs) collected = Inl TypeError"

definition validate_permissions :: "pyval \<Rightarrow> exn + string set" where
  "validate_permissions v = (case v of
      VNone \<Rightarrow> Inr {''read''}
    | VList vs \<Rightarrow> (case collect_permissions vs {} of
          Inl e \<Rightarrow> Inl e
        | Inr c \<Rightarrow> if c = {} then Inl ValueError else Inr c)
    | _ \<Rightarrow> Inl TypeError)"

definition validate_ttl :: "pyval \<Rightarrow> exn + int option" where
  "validate_ttl v = (case v of
      VNone \<Rightarrow> Inr None
    | VInt n \<Rightarrow> if n \<le> 0 then Inl ValueError else Inr (Some n)
    | _ \<Rightarrow> Inl TypeError)"

text \<open>The environment variable counts as unset when it is empty; \<open>fresh\<close> is the random secret.\<close>

definition coerce_manager_secret :: "string option \<Rightarrow> string option \<Rightarrow> string \<Rightarrow> exn + string" where
  "coerce_manager_secret secret_key env fresh =
     (let s = (case secret_key of
                 None \<Rightarrow> (case env of None \<Rightarrow> None | Some e \<Rightarrow> if e = [] then None else Some e)
               | Some k \<Rightarrow> Some k)
      in case s of None \<Rightarrow> Inr fresh | Some k \<Rightarrow> if k = [] then Inl ValueError else Inr k)"

section \<open>Key metadata\<close>

record api_key =
  key_id :: string
  ak_organization :: string
  ak_permissions :: "string set"
  ak_created_at :: int
  expires_at :: "int option"
  revoked_at :: "int option"

definition is_expired :: "int \<Rightarrow> api_key \<Rightarrow> bool" where
  "is_expired now k = (case expires_at k of None \<Rightarrow> False | Some t \<Rightarrow> t \<le> now)"

definition is_revoked :: "api_key \<Rightarrow> bool" where
  "is_revoked k \<longleftrightarrow> revoked_at k \<noteq> None"

definition key_is_active :: "int \<Rightarrow> api_key \<Rightarrow> bool" where
  "key_is_active now k \<longleftrightarrow> \<not> is_revoked k \<and> \<not> is_expired now k"

definition key_has_permission :: "string \<Rightarrow> api_key \<Rightarrow> bool" where
  "key_has_permission p k \<longleftrightarrow> p \<in> ak_permissions k"

section \<open>The manager\<close>

record key_manager =
  km_secret :: string
  default_ttl :: "int option"
  km_records :: "(string, api_key) dict"
  km_digests :: "(string, string) dict"
  by_digest :: "(string, string) dict"

definition new_key_manager :: "string option \<Rightarrow> string option \<Rightarrow> string \<Rightarrow> pyval \<Rightarrow> exn + key_manager" where
  "new_key_manager secret_key env fresh ttl =
     (case coerce_manager_secret secret_key env fresh of
        Inl e \<Rightarrow> Inl e
      | Inr s \<Rightarrow> (case validate_ttl ttl of
          Inl e \<Rightarrow> Inl e
        | Inr t \<Rightarrow> Inr \<lparr>km_secret = s, default_ttl = t, km_records = [], km_digests = [], by_digest = []\<rparr>))"

text \<open>The clock returns a \<open>datetime\<close>, which must be aware.\<close>

definition manager_now :: "datetime \<Rightarrow> exn + int" where
  "manager_now now = map_sum id instant (ensure_utc now)"

text \<open>The last instant a \<open>datetime\<close> can denote, and the addition of a duration in seconds.\<close>

definition max_instant :: int where
  "max_instant = 253402300799999999"

definition plus_seconds :: "int \<Rightarrow> int \<Rightarrow> exn + int" where
  "plus_seconds now ttl =
     (let t = now + ttl * 1000000 in if max_instant < t \<or> 999999999 * 86400 < ttl then Inl OverflowError else Inr t)"

definition key_digest :: "(string \<Rightarrow> string \<Rightarrow> string) \<Rightarrow> string \<Rightarrow> key_manager \<Rightarrow> string" where
  "key_digest mac raw_key m = mac (km_secret m) raw_key"

definition store_key ::
  "(string \<Rightarrow> string \<Rightarrow> string) \<Rightarrow> datetime \<Rightarrow> string \<Rightarrow> string \<Rightarrow> pyval \<Rightarrow> pyval \<Rightarrow> pyval \<Rightarrow>
   (key_manager, api_key) action" where
  "store_key mac now hex raw_key organization permissions ttl m =
     (case validate_organization_id organization of Inl e \<Rightarrow> (Inl e, m) | Inr org \<Rightarrow>
      (case validate_permissions permissions of Inl e \<Rightarrow> (Inl e, m) | Inr perms \<Rightarrow>
      (case (case ttl of VNone \<Rightarrow> Inr (default_ttl m) | t \<Rightarrow> validate_ttl t) of Inl e \<Rightarrow> (Inl e, m) | Inr ttl1 \<Rightarrow>
       let d = key_digest mac raw_key m in
       if d \<in> set (dict_keys (by_digest m)) then (Inl ValueError, m)
       else (case manager_now now of Inl e \<Rightarrow> (Inl e, m) | Inr t \<Rightarrow>
       (case (case ttl1 of None \<Rightarrow> Inr None | Some s \<Rightarrow> map_sum id Some (plus_seconds t s)) of
          Inl e \<Rightarrow> (Inl e, m)
        | Inr expiry \<Rightarrow>
            let record = \<lparr>key_id = hex, ak_organization = org, ak_permissions = perms, ak_created_at = t,
                          expires_at = expiry, revoked_at = None\<rparr>
            in (Inr record, m\<lparr>km_records := dict_set hex record (km_records m),
                              km_digests := dict_set hex d (km_digests m),
                              by_digest := dict_set d hex (by_digest m)\<rparr>))))))"

definition generate_key ::
  "(string \<Rightarrow> string \<Rightarrow> string) \<Rightarrow> datetime \<Rightarrow> string \<Rightarrow> string \<Rightarrow> pyval \<Rightarrow> pyval \<Rightarrow> pyval \<Rightarrow>
   (key_manager, string) action" where
  "generate_key mac now hex token organization permissions ttl =
     (let raw_key = key_prefix @ token in
      andthen (store_key mac now hex raw_key organization permissions ttl) (\<lambda>_. ret raw_key))"

definition register_key ::
  "(string \<Rightarrow> string \<Rightarrow> string) \<Rightarrow> datetime \<Rightarrow> string \<Rightarrow> pyval \<Rightarrow> pyval \<Rightarrow> pyval \<Rightarrow> pyval \<Rightarrow>
   (key_manager, api_key) action" where
  "register_key mac now hex raw organization permissions ttl m = (case raw of
      VStr raw_key \<Rightarrow>
        if length (strip raw_key) < 16 then (Inl ValueError, m)
        else store_key mac now hex raw_key organization permissions ttl m
    | _ \<Rightarrow> (Inl TypeError, m))"

definition validate_key ::
  "(string \<Rightarrow> string \<Rightarrow> string) \<Rightarrow> datetime \<Rightarrow> pyval \<Rightarrow> key_manager \<Rightarrow> exn + api_key option" where
  "validate_key mac now raw m = (case raw of
      VStr raw_key \<Rightarrow>
        if raw_key = [] then Inr None
        else (let d = key_digest mac raw_key m in
          case dict_get (by_digest m) d of
            None \<Rightarrow> Inr None
          | Some i \<Rightarrow>
              (case dict_get (km_digests m) i of
                 None \<Rightarrow> Inl KeyError
               | Some stored \<Rightarrow>
                   if stored \<noteq> d then Inr None
                   else (case dict_get (km_records m) i of
                       None \<Rightarrow> Inl KeyError
                     | Some record \<Rightarrow>
                         (case manager_now now of
                            Inl e \<Rightarrow> Inl e
                          | Inr t \<Rightarrow> Inr (if key_is_active t record then Some record else None)))))
    | _ \<Rightarrow> Inr None)"

definition has_permission ::
  "(string \<Rightarrow> string \<Rightarrow> string) \<Rightarrow> datetime \<Rightarrow> pyval \<Rightarrow> string \<Rightarrow> key_manager \<Rightarrow> exn + bool" where
  "has_permission mac now raw permission m =
     map_sum id (\<lambda>r. case r of None \<Rightarrow> False | Some record \<Rightarrow> key_has_permission permission record)
       (validate_key mac now raw m)"

definition revoke_key :: "datetime \<Rightarrow> string \<Rightarrow> (key_manager, bool) action" where
  "revoke_key now i m = (case dict_get (km_records m) i of
      None \<Rightarrow> (Inr False, m)
    | Some record \<Rightarrow>
        if is_revoked record then (Inr False, m)
        else (case manager_now now of
            Inl e \<Rightarrow> (Inl e, m)
          | Inr t \<Rightarrow> (Inr True, m\<lparr>km_records := dict_set i (record\<lparr>revoked_at := Some t\<rparr>) (km_records m)\<rparr>)))"

text \<open>The permissions of the old key are passed on as a collection of strings.\<close>

definition permission_list :: "string set \<Rightarrow> pyval" where
  "permission_list ps = VList (map VStr (filter (\<lambda>p. p \<in> ps) valid_permissions))"

definition rotate_key ::
  "(string \<Rightarrow> string \<Rightarrow> string) \<Rightarrow> datetime \<Rightarrow> datetime \<Rightarrow> string \<Rightarrow> string \<Rightarrow> string \<Rightarrow> pyval \<Rightarrow>
   (key_manager, string option) action" where
  "rotate_key mac now now' hex token old_key_id ttl m = (case dict_get (km_records m) old_key_id of
      None \<Rightarrow> (Inr None, m)
    | Some record \<Rightarrow>
        andthen (revoke_key now old_key_id) (\<lambda>_.
        andthen (generate_key mac now' hex token (VStr (ak_organization record))
                   (permission_list (ak_permissions record)) ttl) (\<lambda>raw. ret (Some raw))) m)"

definition get_key :: "string \<Rightarrow> key_manager \<Rightarrow> api_key option" where
  "get_key i m = dict_get (km_records m) i"

definition list_keys :: "pyval \<Rightarrow> key_manager \<Rightarrow> exn + api_key list" where
  "list_keys organization m =
     (let records = dict_values (km_records m); in_order = (\<lambda>rs. sort_key ak_created_at (sort_key key_id rs)) in
      case organization of
        VNone \<Rightarrow> Inr (in_order records)
      | v \<Rightarrow> (case validate_organization_id v of
            Inl e \<Rightarrow> Inl e
          | Inr wanted \<Rightarrow> Inr (in_order (filter (\<lambda>r. ak_organization r = wanted) records))))"

definition key_count :: "key_manager \<Rightarrow> nat" where
  "key_count m = length (km_records m)"

end
