(* ===== verification/Metrics.thy ===== *)
theory Metrics
  imports Numbers "HOL-Library.List_Lexorder" "HOL-Library.Char_ord"
begin

text \<open>
  The in-process metrics of \<^verbatim>\<open>mittelwerk/utils/metrics.py\<close>: counters, gauges, histograms
  and the registry. Metric objects are shared between the registry and its callers, so they
  live in a store and the registry maps names to references. Locks only make each operation
  atomic, as it is here.
\<close>

section \<open>Validation\<close>

definition finite_number :: "pyval \<Rightarrow> exn + pyfloat" where
  "finite_number v =
     (if \<not> is_number v then Inl TypeError
      else case as_float v of
          Inl e \<Rightarrow> Inl e
        | Inr x \<Rightarrow> if is_finite x then Inr x else Inl ValueError)"

definition validate_name :: "string \<Rightarrow> exn + string" where
  "validate_name n = (if strip n = [] then Inl ValueError else Inr n)"

record metric_sample =
  ms_name :: string
  ms_value :: pyval
  ms_labels :: "(string, string) dict"
  ms_timestamp :: pyval

definition mk_metric_sample :: "metric_sample \<Rightarrow> exn + metric_sample" where
  "mk_metric_sample m =
     (case validate_name (ms_name m) of Inl e \<Rightarrow> Inl e | Inr _ \<Rightarrow>
      (case finite_number (ms_value m) of Inl e \<Rightarrow> Inl e | Inr _ \<Rightarrow>
      (case finite_number (ms_timestamp m) of Inl e \<Rightarrow> Inl e | Inr _ \<Rightarrow> Inr m)))"

section \<open>Counters\<close>

record counter =
  c_name :: string
  c_description :: string
  c_value :: pyfloat

definition new_counter :: "string \<Rightarrow> string \<Rightarrow> exn + counter" where
  "new_counter n d = map_sum id (\<lambda>n. \<lparr>c_name = n, c_description = d, c_value = Fin 0\<rparr>) (validate_name n)"

definition counter_inc :: "pyval \<Rightarrow> counter \<Rightarrow> exn + counter" where
  "counter_inc amount c =
     (case finite_number amount of
        Inl e \<Rightarrow> Inl e
      | Inr increment \<Rightarrow>
          if f_lt increment (Fin 0) then Inl ValueError
          else (let new_value = f_add (c_value c) increment in
                if is_finite new_value then Inr (c\<lparr>c_value := new_value\<rparr>) else Inl ValueError))"

definition counter_reset :: "counter \<Rightarrow> counter" where
  "counter_reset c = c\<lparr>c_value := Fin 0\<rparr>"

section \<open>Gauges\<close>

record gauge =
  g_name :: string
  g_description :: string
  g_value :: pyfloat

definition new_gauge :: "string \<Rightarrow> string \<Rightarrow> exn + gauge" where
  "new_gauge n d = map_sum id (\<lambda>n. \<lparr>g_name = n, g_description = d, g_value = Fin 0\<rparr>) (validate_name n)"

definition gauge_set :: "pyval \<Rightarrow> gauge \<Rightarrow> exn + gauge" where
  "gauge_set v g = (case finite_number v of Inl e \<Rightarrow> Inl e | Inr x \<Rightarrow> Inr (g\<lparr>g_value := x\<rparr>))"

definition gauge_inc :: "pyval \<Rightarrow> gauge \<Rightarrow> exn + gauge" where
  "gauge_inc amount g =
     (case finite_number amount of
        Inl e \<Rightarrow> Inl e
      | Inr increment \<Rightarrow>
          (let new_value = f_add (g_value g) increment in
           if is_finite new_value then Inr (g\<lparr>g_value := new_value\<rparr>) else Inl ValueError))"

definition gauge_dec :: "pyval \<Rightarrow> gauge \<Rightarrow> exn + gauge" where
  "gauge_dec amount g =
     (case finite_number amount of
        Inl e \<Rightarrow> Inl e
      | Inr decrement \<Rightarrow> gauge_inc (VFloat (f_neg decrement)) g)"

definition gauge_reset :: "gauge \<Rightarrow> gauge" where
  "gauge_reset g = g\<lparr>g_value := Fin 0\<rparr>"

section \<open>Histograms\<close>

record histogram =
  h_name :: string
  h_description :: string
  h_buckets :: "rat list"
  h_counts :: "(rat, int) dict"
  h_sum :: pyfloat
  h_count :: int

text \<open>The bucket bounds are finite floats, kept by their value.\<close>

definition default_buckets :: "rat list" where
  "default_buckets = map fl [5 / 1000, 1 / 100, 25 / 1000, 5 / 100, 1 / 10, 25 / 100, 1 / 2, 1, 5 / 2, 5, 10]"

fun bucket_values :: "pyval list \<Rightarrow> exn + rat list" where
  "bucket_values [] = Inr []"
| "bucket_values (v # vs) = (case finite_number v of
      Inr (Fin x) \<Rightarrow> map_sum id ((#) x) (bucket_values vs)
    | Inr _ \<Rightarrow> Inl ValueError
    | Inl e \<Rightarrow> Inl e)"

definition zero_counts :: "rat list \<Rightarrow> (rat, int) dict" where
  "zero_counts bs = map (\<lambda>b. (b, 0)) bs"

definition new_histogram :: "string \<Rightarrow> string \<Rightarrow> pyval list option \<Rightarrow> exn + histogram" where
  "new_histogram n d buckets =
     (case validate_name n of
        Inl e \<Rightarrow> Inl e
      | Inr n \<Rightarrow>
          (let raw = (case buckets of None \<Rightarrow> map (\<lambda>x. VFloat (Fin x)) default_buckets | Some bs \<Rightarrow> bs) in
           if raw = [] then Inl ValueError
           else (case bucket_values raw of
               Inl e \<Rightarrow> Inl e
             | Inr bs \<Rightarrow>
                 let validated = sort bs in
                 if card (set validated) \<noteq> length validated then Inl ValueError
                 else Inr \<lparr>h_name = n, h_description = d, h_buckets = validated, h_counts = zero_counts validated,
                           h_sum = Fin 0, h_count = 0\<rparr>)))"

text \<open>One observation is counted in every bucket whose bound it does not exceed.\<close>

definition count_in :: "pyfloat \<Rightarrow> (rat, int) dict \<Rightarrow> rat \<Rightarrow> (rat, int) dict" where
  "count_in x counts b =
     (if f_le x (Fin b) then dict_set b ((case dict_get counts b of None \<Rightarrow> 0 | Some n \<Rightarrow> n) + 1) counts else counts)"

definition observe :: "pyval \<Rightarrow> histogram \<Rightarrow> exn + histogram" where
  "observe v h =
     (case finite_number v of
        Inl e \<Rightarrow> Inl e
      | Inr x \<Rightarrow>
          (let new_sum = f_add (h_sum h) x in
           if \<not> is_finite new_sum then Inl ValueError
           else Inr (h\<lparr>h_sum := new_sum, h_count := h_count h + 1,
                       h_counts := foldl (count_in x) (h_counts h) (h_buckets h)\<rparr>)))"

definition histogram_mean :: "histogram \<Rightarrow> pyfloat" where
  "histogram_mean h = (if h_count h = 0 then Fin 0
     else case int_to_float (h_count h) of Inl e \<Rightarrow> NaN
        | Inr n \<Rightarrow> (case f_div (h_sum h) n of Inl e \<Rightarrow> NaN | Inr m \<Rightarrow> m))"

text \<open>\<^verbatim>\<open>str(bucket)\<close>, the text of a float, is the parameter \<open>text\<close>.\<close>

definition histogram_snapshot :: "(rat \<Rightarrow> string) \<Rightarrow> histogram \<Rightarrow> payload" where
  "histogram_snapshot text h =
     (let bucket_counts = foldl (\<lambda>d b. dict_set (text b) (VInt (case dict_get (h_counts h) b of None \<Rightarrow> 0 | Some n \<Rightarrow> n)) d)
            [] (h_buckets h)
      in [(''buckets'', VDict (dict_set ''+Inf'' (VInt (h_count h)) bucket_counts)),
          (''count'', VInt (h_count h)),
          (''mean'', VFloat (histogram_mean h)),
          (''sum'', VFloat (h_sum h))])"

definition histogram_reset :: "histogram \<Rightarrow> histogram" where
  "histogram_reset h = h\<lparr>h_counts := zero_counts (h_buckets h), h_sum := Fin 0, h_count := 0\<rparr>"

section \<open>The registry\<close>

datatype metric = MCounter counter | MGauge gauge | MHistogram histogram

type_synonym metric_ref = nat

record metrics_registry =
  r_counters :: "(string, metric_ref) dict"
  r_gauges :: "(string, metric_ref) dict"
  r_histograms :: "(string, metric_ref) dict"
  r_store :: "metric_ref \<Rightarrow> metric option"
  r_next :: metric_ref

definition new_registry :: metrics_registry where
  "new_registry = \<lparr>r_counters = [], r_gauges = [], r_histograms = [], r_store = (\<lambda>_. None), r_next = 0\<rparr>"

datatype metric_kind = CounterKind | GaugeKind | HistogramKind

fun kind_names :: "metric_kind \<Rightarrow> metrics_registry \<Rightarrow> (string, metric_ref) dict" where
  "kind_names CounterKind r = r_counters r"
| "kind_names GaugeKind r = r_gauges r"
| "kind_names HistogramKind r = r_histograms r"

definition ensure_kind :: "string \<Rightarrow> metric_kind \<Rightarrow> metrics_registry \<Rightarrow> exn + unit" where
  "ensure_kind n expected r =
     (if \<exists>kind\<in>set [CounterKind, GaugeKind, HistogramKind]. kind \<noteq> expected \<and> n \<in> set (dict_keys (kind_names kind r))
      then Inl ValueError else Inr ())"

fun set_kind_names :: "metric_kind \<Rightarrow> (string, metric_ref) dict \<Rightarrow> metrics_registry \<Rightarrow> metrics_registry" where
  "set_kind_names CounterKind d r = r\<lparr>r_counters := d\<rparr>"
| "set_kind_names GaugeKind d r = r\<lparr>r_gauges := d\<rparr>"
| "set_kind_names HistogramKind d r = r\<lparr>r_histograms := d\<rparr>"

text \<open>The common part of \<open>counter\<close>, \<open>gauge\<close> and \<open>histogram\<close>: look the name up, create if absent.\<close>

definition get_or_create ::
  "metric_kind \<Rightarrow> string \<Rightarrow> exn + metric \<Rightarrow> (metric \<Rightarrow> exn + unit) \<Rightarrow> metrics_registry \<Rightarrow>
   (exn + metric_ref) \<times> metrics_registry" where
  "get_or_create kind n fresh check r =
     (case validate_name n of
        Inl e \<Rightarrow> (Inl e, r)
      | Inr n \<Rightarrow>
          (case ensure_kind n kind r of
             Inl e \<Rightarrow> (Inl e, r)
           | Inr () \<Rightarrow>
               (case dict_get (kind_names kind r) n of
                  None \<Rightarrow> (case fresh of
                      Inl e \<Rightarrow> (Inl e, r)
                    | Inr m \<Rightarrow> (Inr (r_next r),
                        (set_kind_names kind (dict_set n (r_next r) (kind_names kind r)) r)
                          \<lparr>r_store := (r_store r)(r_next r := Some m), r_next := r_next r + 1\<rparr>))
                | Some i \<Rightarrow> (case r_store r i of
                      None \<Rightarrow> (Inr i, r)
                    | Some m \<Rightarrow> (case check m of Inl e \<Rightarrow> (Inl e, r) | Inr () \<Rightarrow> (Inr i, r))))))"

definition registry_counter :: "string \<Rightarrow> string \<Rightarrow> metrics_registry \<Rightarrow> (exn + metric_ref) \<times> metrics_registry" where
  "registry_counter n d = get_or_create CounterKind n (map_sum id MCounter (new_counter n d)) (\<lambda>_. Inr ())"

definition registry_gauge :: "string \<Rightarrow> string \<Rightarrow> metrics_registry \<Rightarrow> (exn + metric_ref) \<times> metrics_registry" where
  "registry_gauge n d = get_or_create GaugeKind n (map_sum id MGauge (new_gauge n d)) (\<lambda>_. Inr ())"

text \<open>
  A histogram that exists already must have the requested buckets, which are compared
  unvalidated; they are numbers, as declared.
\<close>

fun fin_value :: "pyfloat \<Rightarrow> rat" where
  "fin_value (Fin x) = x"
| "fin_value _ = 0"

definition same_buckets :: "pyval list \<Rightarrow> histogram \<Rightarrow> exn + unit" where
  "same_buckets bs h =
     (if list_all (\<lambda>b. is_finite (num_value b)) bs \<and> sort (map (\<lambda>b. fin_value (num_value b)) bs) = h_buckets h
      then Inr () else Inl ValueError)"

definition registry_histogram ::
  "string \<Rightarrow> string \<Rightarrow> pyval list option \<Rightarrow> metrics_registry \<Rightarrow> (exn + metric_ref) \<times> metrics_registry" where
  "registry_histogram n d buckets = get_or_create HistogramKind n (map_sum id MHistogram (new_histogram n d buckets))
     (\<lambda>m. case (buckets, m) of (Some bs, MHistogram h) \<Rightarrow> same_buckets bs h | _ \<Rightarrow> Inr ())"

definition sorted_names :: "(string, 'v) dict \<Rightarrow> (string \<times> 'v) list" where
  "sorted_names d = sort_key fst d"

fun metric_value :: "(rat \<Rightarrow> string) \<Rightarrow> metric option \<Rightarrow> pyval" where
  "metric_value text (Some (MCounter c)) = VFloat (c_value c)"
| "metric_value text (Some (MGauge g)) = VFloat (g_value g)"
| "metric_value text (Some (MHistogram h)) = VDict (histogram_snapshot text h)"
| "metric_value text None = VNone"

definition registry_snapshot :: "(rat \<Rightarrow> string) \<Rightarrow> metrics_registry \<Rightarrow> payload" where
  "registry_snapshot text r =
     (let values = (\<lambda>d. VDict (map (\<lambda>(n, i). (n, metric_value text (r_store r i))) (sorted_names d)))
      in [(''counters'', values (r_counters r)), (''gauges'', values (r_gauges r)),
          (''histograms'', values (r_histograms r))])"

fun metric_reset :: "metric \<Rightarrow> metric" where
  "metric_reset (MCounter c) = MCounter (counter_reset c)"
| "metric_reset (MGauge g) = MGauge (gauge_reset g)"
| "metric_reset (MHistogram h) = MHistogram (histogram_reset h)"

definition registry_reset :: "metrics_registry \<Rightarrow> metrics_registry" where
  "registry_reset r =
     r\<lparr>r_store := fold (\<lambda>i st. st(i := map_option metric_reset (st i)))
         (dict_values (r_counters r) @ dict_values (r_gauges r) @ dict_values (r_histograms r)) (r_store r)\<rparr>"

definition registry_clear :: "metrics_registry \<Rightarrow> metrics_registry" where
  "registry_clear r = r\<lparr>r_counters := [], r_gauges := [], r_histograms := []\<rparr>"

text \<open>The metrics that the module registers when it is imported.\<close>

definition platform_registry :: metrics_registry where
  "platform_registry =
     (let add = (\<lambda>f r. snd (f r)) in
      add (registry_gauge ''mittelwerk_organization_exposure_value'' ''Current organization exposure value'')
     (add (registry_gauge ''mittelwerk_active_work_orders'' ''Currently active work orders'')
     (add (registry_histogram ''mittelwerk_dispatch_latency_seconds'' ''Work order dispatch latency''
            (Some (map (\<lambda>x. VFloat (Fin (fl x))) [1 / 10000, 5 / 10000, 1 / 1000, 5 / 1000, 1 / 100, 5 / 100, 1 / 10])))
     (add (registry_counter ''mittelwerk_assignments_executed'' ''Total service assignments executed'')
     (add (registry_counter ''mittelwerk_work_orders_cancelled'' ''Total work orders cancelled'')
     (add (registry_counter ''mittelwerk_work_orders_assigned'' ''Total work orders fully assigned'')
     (add (registry_counter ''mittelwerk_work_orders_submitted'' ''Total work orders submitted'') new_registry)))))))"

end
