(* ===== verification/Api.thy ===== *)
theory Api
  imports Service Keys Metrics
begin

text \<open>
  The HTTP surface: \<^verbatim>\<open>mittelwerk/api/middleware.py\<close> (authentication, CORS configuration),
  \<^verbatim>\<open>dependencies.py\<close> (principal and permissions), \<^verbatim>\<open>schemas.py\<close> (request validation) and
  \<^verbatim>\<open>routes.py\<close> (the endpoints with their status codes). A request carries its method and
  path, the API key header and the call its route decodes to; the framework's routing, its
  JSON reading and CORS headers are not modelled. Bodies have the declared JSON shape.
\<close>

section \<open>Responses\<close>

record response =
  rs_status :: int
  rs_body :: pyval

definition json_error :: "int \<Rightarrow> string \<Rightarrow> response" where
  "json_error code detail = \<lparr>rs_status = code, rs_body = VDict [(''detail'', VStr detail)]\<rparr>"

definition error_detail :: "int \<Rightarrow> payload \<Rightarrow> response" where
  "error_detail code d = \<lparr>rs_status = code, rs_body = VDict [(''detail'', VDict d)]\<rparr>"

section \<open>CORS configuration\<close>

fun cors_list :: "pyval list \<Rightarrow> exn + string list" where
  "cors_list [] = Inr []"
| "cors_list (v # vs) = (case v of
      VStr s \<Rightarrow> if strip s = [] then Inl ValueError else map_sum id ((#) (strip s)) (cors_list vs)
    | _ \<Rightarrow> Inl ValueError)"

definition validate_cors_origins :: "pyval \<Rightarrow> exn + string list" where
  "validate_cors_origins v = (case v of VNone \<Rightarrow> Inr [] | VList vs \<Rightarrow> cors_list vs | _ \<Rightarrow> Inl ValueError)"

definition validate_cors_credentials :: "pyval \<Rightarrow> exn + bool" where
  "validate_cors_credentials v = (case v of VBool b \<Rightarrow> Inr b | _ \<Rightarrow> Inl ValueError)"

text \<open>The layers from the innermost outwards; the outermost one carries its CORS settings.\<close>

datatype layer = AuthLayer | LoggingLayer | CorsLayer "string list" bool

definition configure_middleware :: "pyval \<Rightarrow> pyval \<Rightarrow> exn + layer list" where
  "configure_middleware cors_origins allow =
     (case validate_cors_origins cors_origins of Inl e \<Rightarrow> Inl e | Inr origins \<Rightarrow>
      (case validate_cors_credentials allow of Inl e \<Rightarrow> Inl e | Inr credentials \<Rightarrow>
       Inr ([AuthLayer, LoggingLayer] @
         (if origins = [] then []
          else [CorsLayer origins (if ''*'' \<in> set origins \<and> credentials then False else credentials)]))))"

section \<open>Principals\<close>

record principal =
  pr_organization :: string
  pr_permissions :: "string set"
  pr_key_id :: string

definition principal_has :: "principal \<Rightarrow> string \<Rightarrow> bool" where
  "principal_has p permission \<longleftrightarrow> permission \<in> pr_permissions p"

definition permission_read :: string where
  "permission_read = ''read''"

definition permission_dispatch :: string where
  "permission_dispatch = ''dispatch''"

definition default_public_paths :: "string list" where
  "default_public_paths = [''/'', ''/api/v1/health'', ''/docs'', ''/docs/oauth2-redirect'', ''/redoc'', ''/openapi.json'']"

text \<open>
  \<open>dispatch\<close> of the authentication layer: the response that ends the request, or the
  principal it is passed on with.
\<close>

definition authenticate ::
  "(string \<Rightarrow> string \<Rightarrow> string) \<Rightarrow> datetime \<Rightarrow> string list \<Rightarrow> string \<Rightarrow> string \<Rightarrow> string option \<Rightarrow> key_manager \<Rightarrow>
   exn + (response + principal option)" where
  "authenticate mac now public verb path header m =
     (if verb = ''OPTIONS'' \<or> path \<in> set public then Inr (Inr None)
      else (case header of
          None \<Rightarrow> Inr (Inl (json_error 401 ''Missing X-API-Key header''))
        | Some raw \<Rightarrow>
            if raw = [] then Inr (Inl (json_error 401 ''Missing X-API-Key header''))
            else (case validate_key mac now (VStr raw) m of
                Inl e \<Rightarrow> Inl e
              | Inr None \<Rightarrow> Inr (Inl (json_error 403 ''Invalid, expired, or revoked API key''))
              | Inr (Some k) \<Rightarrow> Inr (Inr (Some \<lparr>pr_organization = ak_organization k,
                    pr_permissions = ak_permissions k, pr_key_id = key_id k\<rparr>)))))"

definition get_principal :: "principal option \<Rightarrow> response + principal" where
  "get_principal p = (case p of None \<Rightarrow> Inl (json_error 401 ''Missing X-API-Key header'') | Some x \<Rightarrow> Inr x)"

definition require_permission :: "string \<Rightarrow> principal option \<Rightarrow> response + principal" where
  "require_permission permission p = (case get_principal p of
      Inl r \<Rightarrow> Inl r
    | Inr x \<Rightarrow> if principal_has x permission then Inr x
        else Inl (json_error 403 (''API key lacks the '' @ [CHR 0x27] @ permission @ [CHR 0x27] @ '' permission'')))"

section \<open>Request bodies\<close>

record order_body =
  ob_asset :: string
  ob_side :: dispatch_side
  ob_hours :: pyval
  ob_mode :: work_order_mode
  ob_rate :: pyval
  ob_escalation :: pyval
  ob_priority :: int
  ob_window :: dispatch_window
  ob_id :: "string option"

text \<open>Numeric input becomes a decimal through its text.\<close>

definition coerce_decimal :: "pyval \<Rightarrow> exn + rat option" where
  "coerce_decimal v = (case v of
      VNone \<Rightarrow> Inr None
    | VNum x \<Rightarrow> Inr (Some x)
    | VInt n \<Rightarrow> Inr (Some (of_int n))
    | VFloat f \<Rightarrow> map_sum id Some (decimal_of_float f)
    | VNumText x \<Rightarrow> Inr (Some x)
    | VStr s \<Rightarrow> (case read_decimal s of None \<Rightarrow> Inl ValidationError | Some x \<Rightarrow> Inr (Some x))
    | _ \<Rightarrow> Inl ValidationError)"

text \<open>The pattern \<^verbatim>\<open>^[A-Za-z0-9](?:[A-Za-z0-9._:-]*[A-Za-z0-9])?$\<close>.\<close>

definition alnum :: "char \<Rightarrow> bool" where
  "alnum c \<longleftrightarrow> is_upper c \<or> is_lower c \<or> is_digit c"

definition order_id_char :: "char \<Rightarrow> bool" where
  "order_id_char c \<longleftrightarrow> alnum c \<or> c \<in> set ''._:-''"

definition order_id_re :: "string \<Rightarrow> bool" where
  "order_id_re s \<longleftrightarrow> s \<noteq> [] \<and> alnum (hd s) \<and> alnum (last s) \<and> list_all order_id_char s"

definition order_id_max_length :: nat where
  "order_id_max_length = 64"

definition order_id_ok :: "string \<Rightarrow> bool" where
  "order_id_ok s \<longleftrightarrow> 1 \<le> length s \<and> length s \<le> order_id_max_length \<and> order_id_re s"

record work_order_request =
  wr_asset :: string
  wr_side :: dispatch_side
  wr_hours :: rat
  wr_mode :: work_order_mode
  wr_rate :: "rat option"
  wr_escalation :: "rat option"
  wr_priority :: int
  wr_window :: dispatch_window
  wr_id :: "string option"

definition positive_or_none :: "rat option \<Rightarrow> bool" where
  "positive_or_none r \<longleftrightarrow> (case r of None \<Rightarrow> True | Some x \<Rightarrow> 0 < x)"

definition parse_request :: "order_body \<Rightarrow> exn + work_order_request" where
  "parse_request b =
     (let asset = strip (ob_asset b); oid = map_option strip (ob_id b) in
      case coerce_decimal (ob_hours b) of Inl e \<Rightarrow> Inl ValidationError | Inr hrs \<Rightarrow>
      (case coerce_decimal (ob_rate b) of Inl e \<Rightarrow> Inl ValidationError | Inr rt \<Rightarrow>
      (case coerce_decimal (ob_escalation b) of Inl e \<Rightarrow> Inl ValidationError | Inr esc \<Rightarrow>
       if length asset < 1 \<or> 32 < length asset then Inl ValidationError
       else if \<not> (case hrs of None \<Rightarrow> False | Some h \<Rightarrow> 0 < h) then Inl ValidationError
       else if \<not> positive_or_none rt \<or> \<not> positive_or_none esc then Inl ValidationError
       else if ob_priority b < 1 \<or> 5 < ob_priority b then Inl ValidationError
       else if \<not> (case oid of None \<Rightarrow> True | Some i \<Rightarrow> order_id_ok i) then Inl ValidationError
       else Inr \<lparr>wr_asset = asset, wr_side = ob_side b, wr_hours = the hrs, wr_mode = ob_mode b, wr_rate = rt,
                 wr_escalation = esc, wr_priority = ob_priority b, wr_window = ob_window b, wr_id = oid\<rparr>)))"

text \<open>The identifier of an order without one is a fresh UUID.\<close>

definition to_work_order :: "int \<Rightarrow> string \<Rightarrow> string \<Rightarrow> work_order_request \<Rightarrow> exn + work_order" where
  "to_work_order now uid org q = mk_work_order
     \<lparr>work_order_id = (case wr_id q of None \<Rightarrow> uid | Some i \<Rightarrow> i), wo_organization = org, wo_asset = wr_asset q,
      side = wr_side q, mode = wr_mode q, requested_hours = wr_hours q, max_hourly_rate = wr_rate q,
      escalation_rate = wr_escalation q, priority = wr_priority q, dispatch_window = wr_window q, status = NEW,
      assigned_hours = 0, average_rate = None, created_at = now, updated_at = None, signature = None\<rparr>"

section \<open>JSON forms\<close>

fun opt_time :: "int option \<Rightarrow> pyval" where
  "opt_time None = VNone"
| "opt_time (Some t) = VTimeText (Aware t 0)"

definition work_order_json :: "work_order \<Rightarrow> pyval" where
  "work_order_json w = VDict
     [(''work_order_id'', VStr (work_order_id w)), (''organization_id'', VStr (wo_organization w)),
      (''asset_id'', VStr (wo_asset w)), (''side'', VStr (side_value (side w))), (''mode'', VStr (mode_value (mode w))),
      (''requested_hours'', VNumText (requested_hours w)), (''max_hourly_rate'', opt_num_text (max_hourly_rate w)),
      (''escalation_rate'', opt_num_text (escalation_rate w)), (''priority'', VInt (priority w)),
      (''dispatch_window'', VStr (window_value (dispatch_window w))), (''status'', VStr (status_value (status w))),
      (''assigned_hours'', VNumText (assigned_hours w)), (''average_rate'', opt_num_text (average_rate w)),
      (''created_at'', VTimeText (Aware (created_at w) 0)), (''updated_at'', opt_time (updated_at w)),
      (''signature'', opt_str (signature w))]"

definition assignment_json :: "service_assignment \<Rightarrow> pyval" where
  "assignment_json a = VDict
     [(''assignment_id'', VStr (assignment_id a)), (''asset_id'', VStr (sa_asset a)),
      (''requester_work_order_id'', VStr (requester_work_order_id a)),
      (''provider_work_order_id'', VStr (provider_work_order_id a)),
      (''hourly_rate'', VNumText (hourly_rate a)), (''hours'', VNumText (hours a)),
      (''requester_organization_id'', VStr (requester_organization a)),
      (''provider_organization_id'', VStr (provider_organization a)),
      (''initiating_side'', VStr (side_value (initiating_side a))), (''timestamp'', VTimeText (Aware (sa_timestamp a) 0))]"

definition workload_fields :: "workload \<Rightarrow> payload" where
  "workload_fields w =
     [(''organization_id'', VStr (wl_organization w)), (''asset_id'', VStr (wl_asset w)),
      (''net_hours'', VNumText (net_hours w)), (''average_service_rate'', VNumText (average_service_rate w)),
      (''realized_cost'', VNumText (realized_cost w)), (''unrealized_cost'', VNumText (unrealized_cost w)),
      (''last_rate'', opt_num_text (last_rate w)), (''last_updated'', VTimeText (Aware (last_updated w) 0))]"

definition snapshot_json :: "organization_snapshot \<Rightarrow> pyval" where
  "snapshot_json s = VDict
     [(''organization_id'', VStr (os_organization s)), (''workloads'', VList (map (VDict \<circ> workload_fields) (os_workloads s))),
      (''total_exposure_value'', VNumText (total_exposure_value s)), (''total_realized_cost'', VNumText (total_realized_cost s)),
      (''total_unrealized_cost'', VNumText (total_unrealized_cost s)), (''budget_balance'', VNumText (budget_balance s)),
      (''timestamp'', VTimeText (Aware (os_timestamp s) 0))]"

section \<open>The application\<close>

datatype feed_task = NoTask | TaskPending | TaskDone

record app_config =
  ac_service :: service_config
  ac_mac :: "string \<Rightarrow> string \<Rightarrow> string"
  ac_public :: "string list"
  ac_like :: "string \<Rightarrow> string \<Rightarrow> bool"
  ac_numerics :: numerics
  ac_mix :: "int list \<Rightarrow> int"
  ac_bucket_text :: "rat \<Rightarrow> string"
  ac_version :: string
  ac_policies :: "string list"
  ac_feed :: bool

text \<open>Whether the services are initialised, the heap address of the next order, the feed task.\<close>

record app =
  ap_ready :: bool
  ap_service :: service
  ap_keys :: key_manager
  ap_metrics :: metrics_registry
  ap_next :: ref
  ap_feed_task :: feed_task

type_synonym endpoint = "(app, response) action"

text \<open>A handler of the service: an \<open>HTTPException\<close> is its response, other exceptions propagate.\<close>

definition on_service :: "(service, 'a) action \<Rightarrow> (app, 'a) action" where
  "on_service m a = (case m (ap_service a) of (r, sv) \<Rightarrow> (r, a\<lparr>ap_service := sv\<rparr>))"

definition feed_state :: "app_config \<Rightarrow> app \<Rightarrow> string" where
  "feed_state c a = (if \<not> ac_feed c then ''off''
     else if ap_feed_task a = TaskPending then ''running'' else ''stopped'')"

definition health_check :: "app_config \<Rightarrow> int \<Rightarrow> endpoint" where
  "health_check c now a = (Inr \<lparr>rs_status = 200, rs_body = VDict
     [(''status'', VStr (if feed_state c a \<noteq> ''stopped'' then ''healthy'' else ''degraded'')),
      (''version'', VStr (ac_version c)), (''timestamp'', VTimeText (Aware now 0)),
      (''mode'', VStr ''simulation''), (''feed'', VStr (feed_state c a))]\<rparr>, a)"

text \<open>The response to a submission, by its outcome.\<close>

definition submission_response :: "heap \<Rightarrow> dispatch_result \<Rightarrow> response" where
  "submission_response h d =
     (let w = h (dr_work_order d) in
      if \<not> accepted h d then error_detail 400
        [(''error'', VStr ''work_order_rejected''), (''work_order_id'', VStr (work_order_id w)),
         (''status'', VStr (status_value (status w))), (''reason'', opt_str (rejection_reason d))]
      else \<lparr>rs_status = 201, rs_body = VDict
        [(''accepted'', VBool True), (''work_order_id'', VStr (work_order_id w)), (''status'', VStr (status_value (status w))),
         (''assigned_hours'', VNumText (assigned_hours w)), (''work_order'', work_order_json w),
         (''assignments'', VList (map assignment_json (dr_assignments d)))]\<rparr>)"

definition submission_error :: "exn \<Rightarrow> exn + response" where
  "submission_error e = (case e of
      DuplicateWorkOrderError i \<Rightarrow> Inr (error_detail 409
        [(''error'', VStr ''duplicate_work_order_id''), (''work_order_id'', VStr i)])
    | AssignmentPersistenceError i st hrs ids \<Rightarrow> Inr (error_detail 500
        [(''error'', VStr ''assignment_persistence_failed''), (''work_order_id'', VStr i), (''status'', VStr st),
         (''assigned_hours'', VNumText hrs), (''assignment_ids'', VList (map VStr ids)),
         (''message'', VStr (''The work order executed and the in-memory engine state is authoritative, but the '' @
            ''resulting assignments could not be persisted. Reconcile from the engine assignment log; do not '' @
            ''resubmit this work order.''))])
    | _ \<Rightarrow> Inl e)"

definition submit_endpoint :: "app_config \<Rightarrow> bool \<Rightarrow> int \<Rightarrow> string \<Rightarrow> principal \<Rightarrow> work_order_request \<Rightarrow> endpoint" where
  "submit_endpoint c ok now uid p q a =
     (case to_work_order now uid (pr_organization p) q of
        Inl _ \<Rightarrow> (Inr (error_detail 400 [(''error'', VStr ''invalid_work_order'')]), a)
      | Inr w \<Rightarrow>
          (let r = ap_next a; sv = ap_service a;
               sv0 = sv\<lparr>sv_engine := (sv_engine sv)\<lparr>orders := (orders (sv_engine sv))(r := w)\<rparr>\<rparr>
           in case service_submit (ac_service c) ok (pr_organization p) r sv0 of
                None \<Rightarrow> (Inl RuntimeError, a)
              | Some (Inl e, sv1) \<Rightarrow> (submission_error e, a\<lparr>ap_service := sv1, ap_next := Suc r\<rparr>)
              | Some (Inr d, sv1) \<Rightarrow> (Inr (submission_response (orders (sv_engine sv1)) d),
                                     a\<lparr>ap_service := sv1, ap_next := Suc r\<rparr>)))"

definition list_endpoint :: "principal \<Rightarrow> endpoint" where
  "list_endpoint p = andthen (on_service (work_orders_for (pr_organization p))) (\<lambda>rs a.
     (Inr \<lparr>rs_status = 200, rs_body = VDict
        [(''work_orders'', VList (map (\<lambda>r. work_order_json (orders (sv_engine (ap_service a)) r)) rs)),
         (''count'', VInt (int (length rs)))]\<rparr>, a))"

definition get_endpoint :: "principal \<Rightarrow> string \<Rightarrow> endpoint" where
  "get_endpoint p i = andthen (on_service (get_work_order (pr_organization p) i)) (\<lambda>found a.
     (Inr (case found of None \<Rightarrow> json_error 404 ''Work order not found''
        | Some r \<Rightarrow> \<lparr>rs_status = 200, rs_body = work_order_json (orders (sv_engine (ap_service a)) r)\<rparr>), a))"

definition cancel_endpoint :: "app_config \<Rightarrow> principal \<Rightarrow> string \<Rightarrow> endpoint" where
  "cancel_endpoint c p i a =
     (case on_service (service_cancel (ac_service c) (pr_organization p) i) a of
        (Inl e, a1) \<Rightarrow> (if e = KeyError then Inr (json_error 404 ''Work order not found'') else Inl e, a1)
      | (Inr None, a1) \<Rightarrow>
          andthen (on_service (get_work_order (pr_organization p) i)) (\<lambda>known a2.
            (Inr (error_detail 409
              [(''error'', VStr ''work_order_not_resting''), (''work_order_id'', VStr i),
               (''status'', VStr (case known of None \<Rightarrow> ''UNKNOWN''
                  | Some r \<Rightarrow> status_value (status (orders (sv_engine (ap_service a2)) r))))]), a2)) a1
      | (Inr (Some r), a1) \<Rightarrow>
          (let w = orders (sv_engine (ap_service a1)) r in
           (Inr \<lparr>rs_status = 200, rs_body = VDict
              [(''work_order_id'', VStr (work_order_id w)), (''status'', VStr (status_value (status w))),
               (''work_order'', work_order_json w)]\<rparr>, a1)))"

definition workloads_endpoint :: "app_config \<Rightarrow> principal \<Rightarrow> endpoint" where
  "workloads_endpoint c p a =
     (let ws = sort_key wl_asset (workloads_for (pr_organization p) (ap_service a)) in
      (case map_exn (\<lambda>w. map_sum id (\<lambda>cur. VDict (workload_fields w @ [(''currency'', VStr cur)]))
                 (currency_for_asset (ac_service c) (wl_asset w))) ws of
         Inl e \<Rightarrow> Inl e
       | Inr vs \<Rightarrow> Inr \<lparr>rs_status = 200, rs_body = VDict
           [(''organization_id'', VStr (pr_organization p)), (''workloads'', VList vs), (''count'', VInt (int (length vs)))]\<rparr>, a))"

definition snapshot_endpoint :: "int \<Rightarrow> principal \<Rightarrow> endpoint" where
  "snapshot_endpoint now p a = andthen (on_service (\<lambda>sv.
       with_analytics (pr_organization p) (analytics_snapshot now (sv_engine sv)) sv))
     (\<lambda>s. ret \<lparr>rs_status = 200, rs_body = snapshot_json s\<rparr>) a"

definition risk_endpoint :: "app_config \<Rightarrow> int \<Rightarrow> principal \<Rightarrow> endpoint" where
  "risk_endpoint c now p = andthen (on_service (risk_payload (ac_numerics c) (ac_mix c) (ac_service c) now (pr_organization p)))
     (\<lambda>d. ret \<lparr>rs_status = 200, rs_body = VDict d\<rparr>)"

definition max_search_results :: int where
  "max_search_results = 100"

definition max_search_query :: nat where
  "max_search_query = 64"

definition search_query_ok :: "string \<Rightarrow> bool" where
  "search_query_ok q \<longleftrightarrow> 1 \<le> length q \<and> length q \<le> max_search_query \<and> strip q \<noteq> []"

definition search_limit_ok :: "int \<Rightarrow> bool" where
  "search_limit_ok n \<longleftrightarrow> 1 \<le> n \<and> n \<le> max_search_results"

definition search_response :: "string \<Rightarrow> payload list \<Rightarrow> response" where
  "search_response q rows = \<lparr>rs_status = 200, rs_body = VDict
     [(''query'', VStr q), (''results'', VList (map VDict rows)), (''count'', VInt (int (length rows)))]\<rparr>"

definition search_endpoint :: "app_config \<Rightarrow> bool \<Rightarrow> string \<Rightarrow> int \<Rightarrow> endpoint" where
  "search_endpoint c ok q0 limit a =
     (let q = strip q0; sv = ap_service a in
      case sv_store sv of
        Some st \<Rightarrow>
          if is_closed st
          then (Inr (search_response q (search_equipment_in_memory (cfg_equipment (sc_engine (ac_service c))) q (nat limit))), a)
          else (case search_equipment (ac_like c) ok (VStr q) (VInt limit) st of
              (Inl e, st') \<Rightarrow> (Inl e, a\<lparr>ap_service := sv\<lparr>sv_store := Some st'\<rparr>\<rparr>)
            | (Inr rows, st') \<Rightarrow> (Inr (search_response q (map equipment_dict rows)), a\<lparr>ap_service := sv\<lparr>sv_store := Some st'\<rparr>\<rparr>))
      | None \<Rightarrow> (Inr (search_response q (search_equipment_in_memory (cfg_equipment (sc_engine (ac_service c))) q (nat limit))), a))"

definition policies_endpoint :: "app_config \<Rightarrow> endpoint" where
  "policies_endpoint c = ret \<lparr>rs_status = 200, rs_body = VDict [(''policies'', VList (map VStr (sort (ac_policies c))))]\<rparr>"

definition metrics_endpoint :: "app_config \<Rightarrow> endpoint" where
  "metrics_endpoint c a = (Inr \<lparr>rs_status = 200, rs_body = VDict (registry_snapshot (ac_bucket_text c) (ap_metrics a))\<rparr>, a)"

definition dashboard_endpoint :: "app_config \<Rightarrow> int \<Rightarrow> principal \<Rightarrow> endpoint" where
  "dashboard_endpoint c now p =
     andthen (on_service (dashboard_payload (ac_numerics c) (ac_mix c) (ac_service c) now (pr_organization p)))
     (\<lambda>d. ret \<lparr>rs_status = 200, rs_body = VDict d\<rparr>)"

section \<open>Requests\<close>

datatype call = HealthCall | SubmitCall order_body | ListCall | GetCall string | CancelCall string | WorkloadsCall
  | SnapshotCall | RiskCall | SearchCall string int | PoliciesCall | MetricsCall | DashboardCall

fun call_verb :: "call \<Rightarrow> string" where
  "call_verb (SubmitCall _) = ''POST''"
| "call_verb (CancelCall _) = ''DELETE''"
| "call_verb _ = ''GET''"

fun call_path :: "call \<Rightarrow> string" where
  "call_path HealthCall = ''/api/v1/health''"
| "call_path (SubmitCall _) = ''/api/v1/work-orders''"
| "call_path ListCall = ''/api/v1/work-orders''"
| "call_path (GetCall i) = ''/api/v1/work-orders/'' @ i"
| "call_path (CancelCall i) = ''/api/v1/work-orders/'' @ i"
| "call_path WorkloadsCall = ''/api/v1/workloads''"
| "call_path SnapshotCall = ''/api/v1/organization/snapshot''"
| "call_path RiskCall = ''/api/v1/organization/risk''"
| "call_path (SearchCall _ _) = ''/api/v1/equipment/search''"
| "call_path PoliciesCall = ''/api/v1/dispatch-policies''"
| "call_path MetricsCall = ''/api/v1/metrics''"
| "call_path DashboardCall = ''/api/v1/dashboard''"

fun call_permission :: "call \<Rightarrow> string option" where
  "call_permission HealthCall = None"
| "call_permission (SubmitCall _) = Some permission_dispatch"
| "call_permission (CancelCall _) = Some permission_dispatch"
| "call_permission _ = Some permission_read"

definition services_missing :: response where
  "services_missing = json_error 503 ''Application services are not initialised''"

definition unprocessable :: response where
  "unprocessable = json_error 422 ''validation error''"

text \<open>What an external request brings: clock, fresh identifier, outcome of the database.\<close>

record env =
  en_now :: int
  en_clock :: datetime
  en_uuid :: string
  en_ok :: bool

fun endpoint_of :: "app_config \<Rightarrow> env \<Rightarrow> call \<Rightarrow> principal \<Rightarrow> endpoint" where
  "endpoint_of c n HealthCall p = health_check c (en_now n)"
| "endpoint_of c n (SubmitCall b) p = (case parse_request b of
      Inl _ \<Rightarrow> ret unprocessable | Inr q \<Rightarrow> submit_endpoint c (en_ok n) (en_now n) (en_uuid n) p q)"
| "endpoint_of c n ListCall p = list_endpoint p"
| "endpoint_of c n (GetCall i) p = (if order_id_ok i then get_endpoint p i else ret unprocessable)"
| "endpoint_of c n (CancelCall i) p = (if order_id_ok i then cancel_endpoint c p i else ret unprocessable)"
| "endpoint_of c n WorkloadsCall p = workloads_endpoint c p"
| "endpoint_of c n SnapshotCall p = snapshot_endpoint (en_now n) p"
| "endpoint_of c n RiskCall p = risk_endpoint c (en_now n) p"
| "endpoint_of c n (SearchCall q l) p =
     (if search_query_ok q \<and> search_limit_ok l then search_endpoint c (en_ok n) q l else ret unprocessable)"
| "endpoint_of c n PoliciesCall p = policies_endpoint c"
| "endpoint_of c n MetricsCall p = metrics_endpoint c"
| "endpoint_of c n DashboardCall p = dashboard_endpoint c (en_now n) p"

text \<open>
  A request: authentication, then the dependencies of the route (permission, services), then
  its parameters and its handler.
\<close>

definition handle :: "app_config \<Rightarrow> env \<Rightarrow> string option \<Rightarrow> call \<Rightarrow> endpoint" where
  "handle c n header k a =
     (case authenticate (ac_mac c) (en_clock n) (ac_public c) (call_verb k) (call_path k) header (ap_keys a) of
        Inl e \<Rightarrow> (Inl e, a)
      | Inr (Inl r) \<Rightarrow> (Inr r, a)
      | Inr (Inr p) \<Rightarrow>
          (case call_permission k of
             None \<Rightarrow> if ap_ready a then health_check c (en_now n) a else (Inr services_missing, a)
           | Some permission \<Rightarrow>
               (case require_permission permission p of
                  Inl r \<Rightarrow> (Inr r, a)
                | Inr x \<Rightarrow>
                    if \<not> ap_ready a \<and> k \<noteq> PoliciesCall \<and> k \<noteq> MetricsCall then (Inr services_missing, a)
                    else endpoint_of c n k x a)))"

end
