(* ===== verification/EngineSteps.thy ===== *)
theory EngineSteps
  imports Engine
begin

text \<open>
  The steps of the engine in closed form: on valid work orders no field assignment, division
  or construction raises, and each step changes only the part of the state it is meant to.
\<close>

section \<open>Events and fields\<close>

definition event_of :: "engine_config \<Rightarrow> engine_state \<Rightarrow> dispatch_event_type \<Rightarrow> string \<Rightarrow> payload \<Rightarrow> domain_event" where
  "event_of c s ty corr pl = \<lparr>event_id = uuids c (uids s), event_type = ty,
     ev_timestamp = Aware (clock c (ticks s)) 0, source = ''dispatch_engine'',
     correlation_id = Some corr, payload = pl\<rparr>"

definition emit :: "engine_config \<Rightarrow> dispatch_event_type \<Rightarrow> string \<Rightarrow> payload \<Rightarrow> engine_state \<Rightarrow> engine_state" where
  "emit c ty corr pl s = s\<lparr>bus := publish (event_of c s ty corr pl) (bus s),
     ticks := ticks s + 1, uids := uids s + 1\<rparr>"

lemma event_of_type [simp]: "event_type (event_of c s ty corr pl) = ty"
  "correlation_id (event_of c s ty corr pl) = Some corr" "payload (event_of c s ty corr pl) = pl"
  by (simp_all add: event_of_def)

lemma publish_event_emit [action_simps]: "publish_event c ty corr pl s = (Inr (), emit c ty corr pl s)"
  by (simp add: publish_event_def andthen_def fresh_uuid_def utcnow_def lift_exn_def mk_domain_event_def
      ensure_utc_def modify_def emit_def event_of_def)

lemma emit_frame [simp]:
  "orders (emit c ty corr pl s) = orders s" "queues (emit c ty corr pl s) = queues s"
  "workloads (emit c ty corr pl s) = workloads s" "assignment_log (emit c ty corr pl s) = assignment_log s"
  "known_ids (emit c ty corr pl s) = known_ids s" "submitted_count (emit c ty corr pl s) = submitted_count s"
  "bus (emit c ty corr pl s) = publish (event_of c s ty corr pl) (bus s)"
  by (simp_all add: emit_def)

lemma publish_work_order_event_emit [action_simps]:
  "publish_work_order_event c ty r extra s = (Inr (), emit c ty (work_order_id (orders s r))
     (dict_update (work_order_payload (orders s r)) extra) s)"
  by (simp add: publish_work_order_event_def publish_event_emit)

lemma andthen_publish [action_simps]:
  "andthen (publish_work_order_event c ty r extra) f s = f () (emit c ty (work_order_id (orders s r))
     (dict_update (work_order_payload (orders s r)) extra) s)"
  "andthen (publish_event c ty corr pl) f s = f () (emit c ty corr pl s)"
  by (simp_all add: andthen_def publish_work_order_event_emit publish_event_emit)

lemma set_field_valid [action_simps]:
  "work_order_valid (f (orders s r)) \<Longrightarrow> set_field r f s = (Inr (), s\<lparr>orders := (orders s)(r := f (orders s r))\<rparr>)"
  by (simp add: set_field_def assign_field_def)

lemma valid_status [simp]: "work_order_valid (w\<lparr>status := st\<rparr>) = work_order_valid w"
  by (simp add: work_order_valid_def work_order_fields_ok_def validate_work_order_def)

lemma valid_updated [simp]: "work_order_valid (w\<lparr>updated_at := t\<rparr>) = work_order_valid w"
  by (simp add: work_order_valid_def work_order_fields_ok_def validate_work_order_def)

lemma valid_average [simp]: "work_order_valid (w\<lparr>average_rate := t\<rparr>) = work_order_valid w"
  by (simp add: work_order_valid_def work_order_fields_ok_def validate_work_order_def)

lemma set_status_valid [action_simps]:
  "work_order_valid (orders s r) \<Longrightarrow>
   set_status r st s = (Inr (), s\<lparr>orders := (orders s)(r := (orders s r)\<lparr>status := st\<rparr>)\<rparr>)"
  by (simp add: set_status_def set_field_valid)

lemma touch_valid [action_simps]:
  "work_order_valid (orders s r) \<Longrightarrow>
   touch c r s = (Inr (), s\<lparr>orders := (orders s)(r := (orders s r)\<lparr>updated_at := Some (clock c (ticks s))\<rparr>),
                        ticks := ticks s + 1\<rparr>)"
  by (simp add: touch_def andthen_def utcnow_def set_field_valid)

text \<open>A status change that is time-stamped and published.\<close>

definition mark :: "engine_config \<Rightarrow> ref \<Rightarrow> work_order_status \<Rightarrow> engine_state \<Rightarrow> engine_state" where
  "mark c r st s = s\<lparr>orders := (orders s)(r := (orders s r)\<lparr>status := st, updated_at := Some (clock c (ticks s))\<rparr>),
     ticks := ticks s + 1\<rparr>"

lemma mark_frame [simp]:
  "queues (mark c r st s) = queues s" "workloads (mark c r st s) = workloads s"
  "assignment_log (mark c r st s) = assignment_log s" "known_ids (mark c r st s) = known_ids s"
  "submitted_count (mark c r st s) = submitted_count s" "bus (mark c r st s) = bus s"
  "orders (mark c r st s) = (orders s)(r := (orders s r)\<lparr>status := st, updated_at := Some (clock c (ticks s))\<rparr>)"
  by (simp_all add: mark_def)

lemma mark_step [action_simps]:
  "work_order_valid (orders s r) \<Longrightarrow>
   andthen (set_status r st) (\<lambda>_. andthen (touch c r) f) s = f () (mark c r st s)"
  by (simp add: andthen_def set_status_valid touch_valid mark_def)

lemma stand_down_eq [action_simps]:
  "work_order_valid (orders s r) \<Longrightarrow> stand_down c r reason s =
   (let s1 = mark c r CANCELLED s in (Inr (), emit c WORK_ORDER_CANCELLED (work_order_id (orders s r))
      (dict_update (work_order_payload (orders s1 r)) [(''reason'', VStr reason)]) s1))"
  by (simp add: stand_down_def mark_step publish_work_order_event_emit Let_def)

lemma reject_eq [action_simps]:
  assumes "work_order_valid (orders s r)" "strip t \<noteq> []"
  shows "reject c r (Some t) s =
   (let s1 = mark c r REJECTED s in (Inr \<lparr>dr_work_order = r, dr_assignments = [], rejection_reason = Some (strip t)\<rparr>,
      emit c WORK_ORDER_REJECTED (work_order_id (orders s r))
        (dict_update (work_order_payload (orders s1 r)) [(''reason'', VStr (strip t))]) s1))"
  using assms by (simp add: reject_def mark_step Let_def andthen_publish ret_def)

section \<open>Hours of one order\<close>

definition filled :: "rat \<Rightarrow> rat \<Rightarrow> int \<Rightarrow> work_order \<Rightarrow> work_order" where
  "filled avg hrs now w = w\<lparr>average_rate := Some avg, assigned_hours := assigned_hours w + hrs, updated_at := Some now\<rparr>"

lemma filled_frame [simp]:
  "work_order_id (filled avg hrs now w) = work_order_id w" "side (filled avg hrs now w) = side w"
  "mode (filled avg hrs now w) = mode w" "max_hourly_rate (filled avg hrs now w) = max_hourly_rate w"
  "wo_asset (filled avg hrs now w) = wo_asset w" "wo_organization (filled avg hrs now w) = wo_organization w"
  "requested_hours (filled avg hrs now w) = requested_hours w" "dispatch_window (filled avg hrs now w) = dispatch_window w"
  "assigned_hours (filled avg hrs now w) = assigned_hours w + hrs" "status (filled avg hrs now w) = status w"
  by (simp_all add: filled_def)

lemma assigned_plus_grid:
  assumes w: "work_order_ok w" and h: "grid hrs" "0 < hrs" "hrs \<le> remaining_hours w"
  shows "dec_add (assigned_hours w) hrs = assigned_hours w + hrs" "grid (assigned_hours w + hrs)"
    "assigned_hours w + hrs \<le> requested_hours w"
proof -
  note W = work_order_ok_hours [OF w]
  show le: "assigned_hours w + hrs \<le> requested_hours w" using h w by (simp add: remaining_hours_exact)
  then have "\<bar>assigned_hours w + hrs\<bar> < 10 ^ 20" using W h by (auto simp: grid_def)
  then show "dec_add (assigned_hours w) hrs = assigned_hours w + hrs" "grid (assigned_hours w + hrs)"
    using W h by (simp_all add: dec_add_grid grid_add)
qed

lemma work_order_ok_filled:
  assumes "work_order_ok w" "grid hrs" "0 < hrs" "hrs \<le> remaining_hours w"
  shows "work_order_ok (filled avg hrs now w)"
    "remaining_hours (filled avg hrs now w) = remaining_hours w - hrs"
proof -
  note A = assigned_plus_grid [OF assms] and W = work_order_ok_hours [OF assms(1)]
  show ok: "work_order_ok (filled avg hrs now w)"
    using A W assms by (auto simp: filled_def intro!: work_order_ok_assigned)
  show "remaining_hours (filled avg hrs now w) = remaining_hours w - hrs"
    using ok assms(1) by (simp add: remaining_hours_exact)
qed

lemma book_hours_eq:
  assumes w: "work_order_ok (orders s r)" and h: "grid hrs" "0 < hrs" "hrs \<le> remaining_hours (orders s r)"
  shows "\<exists>avg. book_hours r hrs rate now s =
     (Inr (), s\<lparr>orders := (orders s)(r := filled avg hrs now (orders s r))\<rparr>)"
proof -
  let ?w = "orders s r"
  note A = assigned_plus_grid [OF w h] and W = work_order_ok_hours [OF w]
  have "assigned_hours ?w + hrs \<noteq> 0" using W h by linarith
  then obtain avg where avg: "compute_avg_rate (average_rate ?w) (assigned_hours ?w) rate hrs = Inr avg"
    by (cases "average_rate ?w"; cases "assigned_hours ?w = 0") (simp_all add: compute_avg_rate_def dec_div_def A)
  have v: "work_order_valid (?w\<lparr>average_rate := Some avg\<rparr>)" using w by (simp add: work_order_ok_valid)
  have v2: "work_order_valid (?w\<lparr>average_rate := Some avg, assigned_hours := assigned_hours ?w + hrs\<rparr>)"
  proof -
    have "work_order_ok ((?w\<lparr>average_rate := Some avg\<rparr>)\<lparr>assigned_hours := assigned_hours ?w + hrs\<rparr>)"
      using A W h w by (intro work_order_ok_assigned) auto
    then show ?thesis by (simp add: work_order_ok_valid)
  qed
  have "book_hours r hrs rate now s =
     (Inr (), s\<lparr>orders := (orders s)(r := filled avg hrs now (orders s r))\<rparr>)"
    using avg v v2 A by (simp add: book_hours_def andthen_def lift_exn_def set_field_valid filled_def)
  then show ?thesis by blast
qed

section \<open>Workloads\<close>

definition workloads_ok :: "rat \<Rightarrow> (string \<times> string, workload) dict \<Rightarrow> bool" where
  "workloads_ok V ws \<longleftrightarrow> dict_ok ws \<and> (\<forall>(k, w)\<in>set ws. wl_organization w = fst k \<and> wl_asset w = snd k \<and>
     grid (net_hours w) \<and> \<bar>net_hours w\<bar> \<le> V \<and> workload_inv w)"

definition net_position :: "string \<Rightarrow> (string \<times> string, workload) dict \<Rightarrow> rat" where
  "net_position a ws = sum_list (map (\<lambda>(k, w). if snd k = a then net_hours w else 0) ws)"

lemma net_position_Nil [simp]: "net_position a [] = 0"
  by (simp add: net_position_def)

lemma net_position_Cons: "net_position a ((k, w) # ws) = (if snd k = a then net_hours w else 0) + net_position a ws"
  by (simp add: net_position_def)

lemma net_position_set:
  "dict_ok ws \<Longrightarrow> net_position a (dict_set k w ws) = net_position a ws + (if snd k = a then net_hours w -
     (case dict_get ws k of None \<Rightarrow> 0 | Some v \<Rightarrow> net_hours v) else 0)"
proof (induction ws)
  case (Cons p ws)
  obtain k' v where p: "p = (k', v)" by (cases p)
  show ?case
  proof (cases "k' = k")
    case True
    then show ?thesis by (simp add: p net_position_Cons)
  next
    case False
    with Cons show ?thesis by (simp add: p net_position_Cons dict_ok_def)
  qed
qed (simp add: net_position_Cons)

lemma grid_zero [simp]: "grid 0"
  by (auto simp: grid_def)

lemma workloads_ok_mono: "workloads_ok V ws \<Longrightarrow> V \<le> V' \<Longrightarrow> workloads_ok V' ws"
  by (fastforce simp: workloads_ok_def)

lemma workloads_ok_get: "workloads_ok V ws \<Longrightarrow> dict_get ws k = Some w \<Longrightarrow> wl_organization w = fst k \<and> wl_asset w = snd k \<and>
     grid (net_hours w) \<and> \<bar>net_hours w\<bar> \<le> V \<and> workload_inv w"
  by (auto simp: workloads_ok_def dest!: dict_get_mem)

lemma workloads_ok_set:
  "workloads_ok V ws \<Longrightarrow> wl_organization w = fst k \<Longrightarrow> wl_asset w = snd k \<Longrightarrow> grid (net_hours w) \<Longrightarrow>
   \<bar>net_hours w\<bar> \<le> V \<Longrightarrow> workload_inv w \<Longrightarrow> workloads_ok V (dict_set k w ws)"
  by (auto simp: workloads_ok_def set_dict_set)

lemma dict_set_same: "dict_get d k = Some v \<Longrightarrow> dict_set k v d = d"
  by (induction d) (auto split: if_splits)

lemma dict_set_twice: "dict_set k v (dict_set k w d) = dict_set k v d"
  by (induction d) auto

lemma manager_apply_eq:
  assumes ws: "workloads_ok V (workloads s)" and h: "0 < hrs" "grid hrs" and V: "0 \<le> V" "V + hrs < 10 ^ 20"
  shows "\<exists>w n. manager_apply c org asset sd hrs rate s =
      (Inr (), s\<lparr>workloads := dict_set (org, asset) w (workloads s), ticks := n\<rparr>) \<and>
      workloads_ok (V + hrs) (dict_set (org, asset) w (workloads s)) \<and>
      (\<forall>a. net_position a (dict_set (org, asset) w (workloads s)) =
         net_position a (workloads s) + (if a = asset then side_sign sd * hrs else 0))"
proof -
  define w0 where "w0 = (case dict_get (workloads s) (org, asset) of Some w \<Rightarrow> w
     | None \<Rightarrow> new_workload org asset (clock c (ticks s)))"
  define n where "n = (case dict_get (workloads s) (org, asset) of Some w \<Rightarrow> ticks s | None \<Rightarrow> ticks s + 1)"
  have w0: "wl_organization w0 = org" "wl_asset w0 = asset" "grid (net_hours w0)" "\<bar>net_hours w0\<bar> \<le> V" "workload_inv w0"
    using ws V by (auto simp: w0_def new_workload_def workload_inv_def dest: workloads_ok_get split: option.splits)
  have get: "get_workload c org asset s =
     (Inr w0, s\<lparr>workloads := dict_set (org, asset) w0 (workloads s), ticks := n\<rparr>)"
  proof (cases "dict_get (workloads s) (org, asset)")
    case None
    then show ?thesis by (simp add: get_workload_def w0_def n_def andthen_def utcnow_def Let_def)
  next
    case (Some w)
    moreover from Some have "dict_set (org, asset) w (workloads s) = workloads s"
      by (rule dict_set_same)
    ultimately show ?thesis by (simp add: get_workload_def w0_def n_def)
  qed
  have sg: "side_sign sd = 1 \<or> side_sign sd = - 1" by (simp add: side_sign_def)
  have "\<bar>net_hours w0 + side_sign sd * hrs\<bar> \<le> V + hrs" using sg w0(4) h by auto
  then have b: "\<bar>net_hours w0 + side_sign sd * hrs\<bar> < 10 ^ 20" using V by linarith
  obtain z w where ap: "apply_assignment sd hrs rate (clock c n) w0 = Inr (z, w)"
    "net_hours w = net_hours w0 + side_sign sd * hrs" "grid (net_hours w)"
    using apply_assignment_grid [OF h w0(3) b] by blast
  have key: "wl_organization w = org" "wl_asset w = asset" using apply_assignment_keys [OF ap(1)] w0 by simp_all
  have inv: "workload_inv w" using apply_assignment_inv [OF ap(1) h(2) w0(3) b] .
  have "manager_apply c org asset sd hrs rate s =
      (Inr (), s\<lparr>workloads := dict_set (org, asset) w (workloads s), ticks := n + 1\<rparr>)"
    using ap(1) by (simp add: manager_apply_def andthen_def get utcnow_def lift_exn_def modify_def dict_set_twice)
  moreover have "workloads_ok (V + hrs) (dict_set (org, asset) w (workloads s))"
    using workloads_ok_mono [OF ws, of "V + hrs"] h key ap inv \<open>\<bar>_\<bar> \<le> V + hrs\<close>
    by (intro workloads_ok_set) simp_all
  moreover have "net_position a (dict_set (org, asset) w (workloads s)) =
         net_position a (workloads s) + (if a = asset then side_sign sd * hrs else 0)" for a
    using ws ap by (auto simp: net_position_set workloads_ok_def w0_def new_workload_def split: option.splits)
  ultimately show ?thesis by blast
qed

end
