(* ===== verification/MatchLaws.thy ===== *)
theory MatchLaws
  imports EngineSteps
begin

text \<open>
  The matching loop. It refines a greedy allocation over the book of the opposite side: the
  incoming hours are poured over the resting orders in rate-time priority, each at its own
  rate, until the hours run out or a rate is out of reach. The loop returns on every state
  that satisfies the invariant, and keeps it.
\<close>

section \<open>One assignment\<close>

definition mk_fill :: "string \<Rightarrow> work_order \<Rightarrow> work_order \<Rightarrow> rat \<Rightarrow> rat \<Rightarrow> int \<Rightarrow> service_assignment" where
  "mk_fill uid incoming resting hrs rate now =
     (let requester = (if side incoming = REQUEST then incoming else resting);
          provider = (if side incoming = REQUEST then resting else incoming)
      in \<lparr>assignment_id = uid, sa_asset = wo_asset incoming,
          requester_work_order_id = work_order_id requester,
          provider_work_order_id = work_order_id provider,
          hourly_rate = rate, hours = hrs,
          requester_organization = wo_organization requester,
          provider_organization = wo_organization provider,
          initiating_side = side incoming, sa_timestamp = now\<rparr>)"

lemma mk_fill_fields [simp]:
  "hours (mk_fill uid i r hrs rate now) = hrs" "hourly_rate (mk_fill uid i r hrs rate now) = rate"
  "sa_asset (mk_fill uid i r hrs rate now) = wo_asset i" "initiating_side (mk_fill uid i r hrs rate now) = side i"
  by (simp_all add: mk_fill_def Let_def)

definition settled :: "rat \<Rightarrow> rat \<Rightarrow> int \<Rightarrow> work_order \<Rightarrow> work_order" where
  "settled avg hrs now w = (let w' = filled avg hrs now w in
     w'\<lparr>status := (if is_fully_assigned w' then ASSIGNED else PARTIALLY_ASSIGNED)\<rparr>)"

lemma settled_frame [simp]:
  "work_order_id (settled avg hrs now w) = work_order_id w" "side (settled avg hrs now w) = side w"
  "mode (settled avg hrs now w) = mode w" "max_hourly_rate (settled avg hrs now w) = max_hourly_rate w"
  "wo_asset (settled avg hrs now w) = wo_asset w" "wo_organization (settled avg hrs now w) = wo_organization w"
  "requested_hours (settled avg hrs now w) = requested_hours w" "dispatch_window (settled avg hrs now w) = dispatch_window w"
  "assigned_hours (settled avg hrs now w) = assigned_hours w + hrs"
  "remaining_hours (settled avg hrs now w) = remaining_hours (filled avg hrs now w)"
  "is_fully_assigned (settled avg hrs now w) = is_fully_assigned (filled avg hrs now w)"
  "work_order_ok (settled avg hrs now w) = work_order_ok (filled avg hrs now w)"
  by (simp_all add: settled_def Let_def remaining_hours_def is_fully_assigned_def)

lemma execute_assignment_eq:
  assumes ne: "inc \<noteq> rest" and ok: "work_order_ok (orders s inc)" "work_order_ok (orders s rest)"
    and h: "grid hrs" "0 < hrs" "hrs \<le> remaining_hours (orders s inc)" "hrs \<le> remaining_hours (orders s rest)"
    and rate: "0 < rate" and ws: "workloads_ok V (workloads s)" and V: "0 \<le> V" "V + 2 * hrs < 10 ^ 20"
  shows "\<exists>a1 a2 now uid ws' n u. execute_assignment c inc rest hrs rate s =
      (Inr (mk_fill uid (orders s inc) (orders s rest) hrs rate now),
       s\<lparr>orders := (orders s)(inc := filled a1 hrs now (orders s inc), rest := settled a2 hrs now (orders s rest)),
         workloads := ws', ticks := n, uids := u\<rparr>) \<and>
      workloads_ok (V + 2 * hrs) ws' \<and> (\<forall>a. net_position a ws' = net_position a (workloads s))"
proof -
  let ?now = "clock c (ticks s)" and ?i = "orders s inc" and ?r = "orders s rest"
  define s1 where "s1 = s\<lparr>ticks := ticks s + 1\<rparr>"
  have s1: "utcnow c s = (Inr ?now, s1)" "orders s1 = orders s" "workloads s1 = workloads s"
    by (simp_all add: utcnow_def s1_def)
  obtain a1 where b1: "book_hours inc hrs rate ?now s1 = (Inr (), s1\<lparr>orders := (orders s)(inc := filled a1 hrs ?now ?i)\<rparr>)"
    using book_hours_eq [of s1 inc hrs rate ?now] ok h s1 by auto
  define s2 where "s2 = s1\<lparr>orders := (orders s)(inc := filled a1 hrs ?now ?i)\<rparr>"
  have "orders s2 rest = ?r" using ne by (simp add: s2_def)
  then obtain a2 where b2: "book_hours rest hrs rate ?now s2 =
      (Inr (), s2\<lparr>orders := (orders s2)(rest := filled a2 hrs ?now ?r)\<rparr>)"
    using book_hours_eq [of s2 rest hrs rate ?now] ok h by auto
  define s3 where "s3 = s2\<lparr>orders := (orders s2)(rest := filled a2 hrs ?now ?r)\<rparr>"
  have o3: "orders s3 rest = filled a2 hrs ?now ?r" "orders s3 inc = filled a1 hrs ?now ?i"
    using ne by (simp_all add: s3_def s2_def)
  define s4 where "s4 = s3\<lparr>orders := (orders s3)(rest := settled a2 hrs ?now ?r)\<rparr>"
  have "work_order_valid (orders s3 rest)"
    using work_order_ok_filled [OF ok(2) h(1,2,4)] by (simp add: o3 work_order_ok_valid)
  then have b4: "update_resting_status rest s3 = (Inr (), s4)"
    by (simp add: update_resting_status_def set_status_valid s4_def settled_def o3 Let_def)
  define uid where "uid = uuids c (uids s4)"
  define s5 where "s5 = s4\<lparr>uids := uids s4 + 1\<rparr>"
  have b5: "fresh_uuid c s4 = (Inr uid, s5)" by (simp add: fresh_uuid_def uid_def s5_def)
  have o5: "orders s5 inc = filled a1 hrs ?now ?i" "orders s5 rest = settled a2 hrs ?now ?r"
    "workloads s5 = workloads s" using ne o3 by (simp_all add: s5_def s4_def s3_def s2_def s1_def)
  let ?a = "mk_fill uid ?i ?r hrs rate ?now"
  let ?ro = "requester_organization ?a" and ?po = "provider_organization ?a"
  have "V + hrs < 10 ^ 20" using V h by linarith
  then obtain w1 n1 where m1: "manager_apply c ?ro (wo_asset ?i) REQUEST hrs rate s5 =
      (Inr (), s5\<lparr>workloads := dict_set (?ro, wo_asset ?i) w1 (workloads s), ticks := n1\<rparr>)"
    "workloads_ok (V + hrs) (dict_set (?ro, wo_asset ?i) w1 (workloads s))"
    "\<forall>a. net_position a (dict_set (?ro, wo_asset ?i) w1 (workloads s)) =
       net_position a (workloads s) + (if a = wo_asset ?i then side_sign REQUEST * hrs else 0)"
    using manager_apply_eq [of V s5 hrs c ?ro "wo_asset ?i" REQUEST rate] ws h V o5 by auto
  define s6 where "s6 = s5\<lparr>workloads := dict_set (?ro, wo_asset ?i) w1 (workloads s), ticks := n1\<rparr>"
  have V2: "0 \<le> V + hrs" "V + hrs + hrs < 10 ^ 20" using V h by linarith+
  have ws6: "workloads_ok (V + hrs) (workloads s6)" using m1(2) by (simp add: s6_def)
  obtain w2 n2 where m2: "manager_apply c ?po (wo_asset ?i) OFFER hrs rate s6 =
      (Inr (), s6\<lparr>workloads := dict_set (?po, wo_asset ?i) w2 (workloads s6), ticks := n2\<rparr>)"
    "workloads_ok (V + hrs + hrs) (dict_set (?po, wo_asset ?i) w2 (workloads s6))"
    "\<forall>a. net_position a (dict_set (?po, wo_asset ?i) w2 (workloads s6)) =
       net_position a (workloads s6) + (if a = wo_asset ?i then side_sign OFFER * hrs else 0)"
    using manager_apply_eq [OF ws6 h(2,1) V2, of c ?po "wo_asset ?i" OFFER rate] by blast
  let ?ws = "dict_set (?po, wo_asset ?i) w2 (workloads s6)"
  have mk: "mk_service_assignment ?a = Inr ?a" using rate h by (simp add: mk_service_assignment_def)
  have rec: "record_assignment c inc rest hrs rate ?now uid s5 = (Inr ?a, s6\<lparr>workloads := ?ws, ticks := n2\<rparr>)"
  proof -
    have "record_assignment c inc rest hrs rate ?now uid s5 = andthen (lift_exn (mk_service_assignment ?a)) (\<lambda>a.
           andthen (manager_apply c ?ro (wo_asset ?i) REQUEST hrs rate) (\<lambda>_.
           andthen (manager_apply c ?po (wo_asset ?i) OFFER hrs rate) (\<lambda>_. ret a))) s5"
      by (simp add: record_assignment_def Let_def o5 mk_fill_def)
    also have "\<dots> = (Inr ?a, s6\<lparr>workloads := ?ws, ticks := n2\<rparr>)"
      by (simp add: mk andthen_def lift_exn_def m1(1) s6_def [symmetric] m2(1) ret_def)
    finally show ?thesis .
  qed
  have "s6\<lparr>workloads := ?ws, ticks := n2\<rparr> = s\<lparr>orders := (orders s)(inc := filled a1 hrs ?now ?i, rest := settled a2 hrs ?now ?r),
         workloads := ?ws, ticks := n2, uids := uids s + 1\<rparr>" (is "_ = ?s'")
    by (simp add: s6_def s5_def s4_def s3_def s2_def s1_def)
  then have exe: "execute_assignment c inc rest hrs rate s = (Inr ?a, ?s')"
    unfolding execute_assignment_def andthen_def
    by (simp add: s1(1) b1 s2_def [symmetric] b2 s3_def [symmetric] b4 b5 rec)
  have net: "net_position a ?ws = net_position a (workloads s)" for a
  proof -
    have w6: "workloads s6 = dict_set (?ro, wo_asset ?i) w1 (workloads s)" by (simp add: s6_def)
    have "net_position a ?ws = net_position a (workloads s6) + (if a = wo_asset ?i then side_sign OFFER * hrs else 0)"
      using m2(3) by (rule spec)
    moreover have "net_position a (workloads s6) = net_position a (workloads s) + (if a = wo_asset ?i then side_sign REQUEST * hrs else 0)"
      unfolding w6 using m1(3) by (rule spec)
    ultimately show ?thesis by (simp add: side_sign_def)
  qed
  have "workloads_ok (V + 2 * hrs) ?ws" using m2(2) by (simp only: add.assoc mult_2)
  with exe net show ?thesis by blast
qed

section \<open>The invariant of the market\<close>

definition rate_of :: "heap \<Rightarrow> ref \<Rightarrow> rat" where
  "rate_of h r = the (max_hourly_rate (h r))"

definition resting_ok :: "heap \<Rightarrow> string set \<Rightarrow> string \<Rightarrow> ref \<Rightarrow> bool" where
  "resting_ok h known a r \<longleftrightarrow> work_order_ok (h r) \<and> mode (h r) = RATE_CAPPED \<and> dispatch_window (h r) = OPEN \<and>
     status (h r) \<in> {ACCEPTED, PARTIALLY_ASSIGNED} \<and> 0 < remaining_hours (h r) \<and> wo_asset (h r) = a \<and>
     work_order_id (h r) \<in> known"

text \<open>No resting request reaches a resting offer.\<close>

definition uncrossed :: "heap \<Rightarrow> dispatch_queue \<Rightarrow> bool" where
  "uncrossed h q \<longleftrightarrow> (\<forall>r\<in>set (book REQUEST q). \<forall>x\<in>set (book OFFER q). rate_of h r < rate_of h x)"

definition queue_ok :: "heap \<Rightarrow> string set \<Rightarrow> string \<Rightarrow> dispatch_queue \<Rightarrow> bool" where
  "queue_ok h known a q \<longleftrightarrow> dq_asset q = a \<and> queue_inv h q \<and> (\<forall>r\<in>set (all_refs q). resting_ok h known a r) \<and>
     uncrossed h q"

definition market_ok :: "heap \<Rightarrow> string set \<Rightarrow> (string, dispatch_queue) dict \<Rightarrow> bool" where
  "market_ok h known qs \<longleftrightarrow> dict_ok qs \<and> (\<forall>a q. dict_get qs a = Some q \<longrightarrow> queue_ok h known a q)"

definition apart :: "ref \<Rightarrow> (string, dispatch_queue) dict \<Rightarrow> bool" where
  "apart i qs \<longleftrightarrow> (\<forall>a q. dict_get qs a = Some q \<longrightarrow> i \<notin> set (all_refs q))"

definition loop_inv :: "rat \<Rightarrow> ref \<Rightarrow> string \<Rightarrow> engine_state \<Rightarrow> bool" where
  "loop_inv V i a s \<longleftrightarrow> market_ok (orders s) (known_ids s) (queues s) \<and> dict_get (queues s) a \<noteq> None \<and>
     apart i (queues s) \<and> work_order_ok (orders s i) \<and> workloads_ok V (workloads s) \<and> 0 \<le> V"

definition reach :: "work_order \<Rightarrow> rat \<Rightarrow> bool" where
  "reach w p \<longleftrightarrow> (mode w = RATE_CAPPED \<longrightarrow>
     (if side w = REQUEST then p \<le> the (max_hourly_rate w) else the (max_hourly_rate w) \<le> p))"

lemma uncrossed_cong:
  "\<forall>r\<in>set (all_refs q). max_hourly_rate (h' r) = max_hourly_rate (h r) \<Longrightarrow> uncrossed h' q = uncrossed h q"
  using book_sub unfolding uncrossed_def rate_of_def by (metis (no_types, lifting) subsetD)

lemma queue_ok_heap:
  assumes q: "queue_ok h known a q" and same: "\<forall>r\<in>set (all_refs q). h' r = h r" and k: "known \<subseteq> known'"
  shows "queue_ok h' known' a q"
proof -
  have "queue_inv h' q" using q same by - (rule queue_inv_cong [of h], auto simp: queue_ok_def same_terms_def)
  moreover have "uncrossed h' q = uncrossed h q" using same by (intro uncrossed_cong) auto
  moreover have "\<forall>r\<in>set (all_refs q). resting_ok h' known' a r"
    using q same k by (auto simp: queue_ok_def resting_ok_def)
  ultimately show ?thesis using q by (simp add: queue_ok_def)
qed

lemma queue_ok_new [simp]: "queue_ok h known a (new_queue a)"
  by (auto simp: queue_ok_def new_queue_def queue_inv_def side_inv_def index_ok_def all_refs_def side_refs_def
      uncrossed_def book_side side_book_def side_queue_def)

lemma all_refs_new [simp]: "all_refs (new_queue a) = []"
  by (simp add: all_refs_def side_refs_def new_queue_def)

lemma market_ok_get: "market_ok h known qs \<Longrightarrow> dict_get qs a = Some q \<Longrightarrow> queue_ok h known a q"
  by (simp add: market_ok_def)

text \<open>
  Changing one queue and orders that rest in no other queue keeps the market.
\<close>

lemma market_ok_update:
  assumes m: "market_ok h known qs" and q: "queue_ok h' known' a q'" and k: "known \<subseteq> known'"
    and same: "\<And>b q r. b \<noteq> a \<Longrightarrow> dict_get qs b = Some q \<Longrightarrow> r \<in> set (all_refs q) \<Longrightarrow> h' r = h r"
  shows "market_ok h' known' (dict_set a q' qs)"
  unfolding market_ok_def
proof (intro conjI allI impI)
  show "dict_ok (dict_set a q' qs)" using m by (simp add: market_ok_def)
  fix b q assume g: "dict_get (dict_set a q' qs) b = Some q"
  show "queue_ok h' known' b q"
  proof (cases "b = a")
    case True
    with g q show ?thesis by (simp add: dict_simps)
  next
    case False
    with g have "dict_get qs b = Some q" by (simp add: dict_simps)
    then show ?thesis using False m k same by - (rule queue_ok_heap [of h known], auto simp: market_ok_def)
  qed
qed

lemma resting_asset: "market_ok h known qs \<Longrightarrow> dict_get qs a = Some q \<Longrightarrow> r \<in> set (all_refs q) \<Longrightarrow> wo_asset (h r) = a"
  by (auto dest!: market_ok_get simp: queue_ok_def resting_ok_def)

lemma in_book: "r \<in> set (book s q) \<Longrightarrow> r \<in> set (all_refs q)"
  using book_sub by blast

text \<open>An order of the book after hours were taken from it.\<close>

lemma queue_ok_settled:
  assumes q: "queue_ok h known a q" and r: "r \<in> set (all_refs q)" and h: "grid hrs" "0 < hrs" "hrs < remaining_hours (h r)"
    and i: "i \<notin> set (all_refs q)"
  shows "queue_ok (h(i := w, r := settled av hrs now (h r))) known a q"
proof -
  let ?h = "h(i := w, r := settled av hrs now (h r))"
  have ok: "resting_ok h known a r" using q r by (simp add: queue_ok_def)
  have same: "\<forall>x\<in>set (all_refs q). same_terms h ?h x" using i by (auto simp: same_terms_def)
  have "queue_inv ?h q" using q same by - (rule queue_inv_cong [of h], simp_all add: queue_ok_def)
  moreover have "uncrossed ?h q"
    using q same uncrossed_cong [of q ?h h] by (auto simp: queue_ok_def same_terms_def)
  moreover have "resting_ok ?h known a x" if x: "x \<in> set (all_refs q)" for x
  proof (cases "x = r")
    case True
    have "work_order_ok (filled av hrs now (h r))" "remaining_hours (filled av hrs now (h r)) = remaining_hours (h r) - hrs"
      using work_order_ok_filled [of "h r" hrs av now] ok h by (simp_all add: resting_ok_def)
    moreover from this h have "\<not> is_fully_assigned (filled av hrs now (h r))" by (simp add: fully_assigned_iff)
    moreover from this have "status (settled av hrs now (h r)) = PARTIALLY_ASSIGNED"
      by (simp add: settled_def Let_def)
    ultimately show ?thesis using True ok h by (simp add: resting_ok_def)
  next
    case False
    with x i q show ?thesis by (auto simp: queue_ok_def resting_ok_def)
  qed
  ultimately show ?thesis using q by (simp add: queue_ok_def)
qed

lemma same_terms_settled: "i \<notin> set (all_refs q) \<Longrightarrow> \<forall>x\<in>set (all_refs q). same_terms h (h(i := w, r := settled av hrs now (h r))) x"
  by (auto simp: same_terms_def)

lemma queue_ok_sub:
  assumes q: "queue_ok h known a q" and inv: "queue_inv h' q'" "dq_asset q' = a"
    and sub: "\<And>s. set (book s q') \<subseteq> set (book s q)"
    and same: "\<forall>x\<in>set (all_refs q'). h' x = h x"
  shows "queue_ok h' known a q'"
proof -
  have all: "set (all_refs q') \<subseteq> set (all_refs q)"
    using sub [of REQUEST] sub [of OFFER] set_all_refs [of q REQUEST] set_all_refs [of q' REQUEST] by (auto simp: opposite_def)
  have "uncrossed h q'" using q sub unfolding queue_ok_def uncrossed_def by blast
  moreover have "uncrossed h' q' = uncrossed h q'" using same by (intro uncrossed_cong) auto
  moreover have "\<forall>r\<in>set (all_refs q'). resting_ok h' known a r"
    using q all same by (auto simp: queue_ok_def resting_ok_def)
  ultimately show ?thesis using inv by (simp add: queue_ok_def)
qed

section \<open>One turn of the loop\<close>

definition opp_book :: "string \<Rightarrow> ref \<Rightarrow> engine_state \<Rightarrow> ref list" where
  "opp_book a i s = book (opposite (side (orders s i))) (the_queue a s)"

lemma the_queue_get: "dict_get (queues s) a = Some q \<Longrightarrow> the_queue a s = q"
  by (simp add: the_queue_def)

lemma the_queue_put [simp]: "the_queue a (put_queue a q s) = q"
  by (simp add: the_queue_def put_queue_def dict_simps)

lemma put_queue_frame [simp]:
  "orders (put_queue a q s) = orders s" "workloads (put_queue a q s) = workloads s"
  "assignment_log (put_queue a q s) = assignment_log s" "known_ids (put_queue a q s) = known_ids s"
  "submitted_count (put_queue a q s) = submitted_count s" "bus (put_queue a q s) = bus s"
  "ticks (put_queue a q s) = ticks s" "uids (put_queue a q s) = uids s"
  "queues (put_queue a q s) = dict_set a q (queues s)"
  by (simp_all add: put_queue_def)

lemma peek_opposite:
  "(if sd = REQUEST then peek_best_offer_order ks q else peek_best_request_order ks q) = peek_best ks (opposite sd) q"
  by (simp add: peek_best_offer_order_def peek_best_request_order_def opposite_def)

lemma pop_opposite:
  "(if sd = REQUEST then snd (pop_best_offer ks h q) else snd (pop_best_request ks h q)) = snd (pop_best ks h (opposite sd) q)"
  by (simp add: pop_best_offer_def pop_best_request_def opposite_def)

text \<open>What the head of the book is to the loop.\<close>

lemma book_head:
  assumes l: "loop_inv V i a s" and b: "opp_book a i s = r # rs"
  shows "resting_ok (orders s) (known_ids s) a r" "r \<noteq> i" "r \<in> set (all_refs (the_queue a s))"
    "max_hourly_rate (orders s r) = Some (rate_of (orders s) r)" "0 < rate_of (orders s) r"
    "queue_ok (orders s) (known_ids s) a (the_queue a s)" "i \<notin> set (all_refs (the_queue a s))"
proof -
  obtain q where q: "dict_get (queues s) a = Some q" "the_queue a s = q"
    using l by (auto simp: loop_inv_def the_queue_get)
  show ok: "queue_ok (orders s) (known_ids s) a (the_queue a s)"
    using l q by (auto simp: loop_inv_def dest: market_ok_get)
  show r: "r \<in> set (all_refs (the_queue a s))" using b in_book by (metis list.set_intros(1) opp_book_def)
  show i: "i \<notin> set (all_refs (the_queue a s))" using l q by (auto simp: loop_inv_def apart_def)
  with r show "r \<noteq> i" by blast
  show rok: "resting_ok (orders s) (known_ids s) a r" using ok r by (simp add: queue_ok_def)
  then have "work_order_ok (orders s r)" "mode (orders s r) = RATE_CAPPED" by (simp_all add: resting_ok_def)
  then show "max_hourly_rate (orders s r) = Some (rate_of (orders s) r)" "0 < rate_of (orders s) r"
    by (auto simp: work_order_ok_def work_order_valid_def validate_work_order_def positive_rate_def rate_of_def
        split: option.splits)
qed

lemma incoming_rate: "work_order_ok w \<Longrightarrow> mode w = RATE_CAPPED \<Longrightarrow> max_hourly_rate w \<noteq> None"
  by (auto simp: work_order_ok_def work_order_valid_def validate_work_order_def positive_rate_def split: option.splits)

lemma match_turn_stop:
  assumes ks: "sorted_keys (key_enum c)" and l: "loop_inv V i a s"
    and stop: "opp_book a i s = [] \<or> (\<exists>r rs. opp_book a i s = r # rs \<and> \<not> reach (orders s i) (rate_of (orders s) r))"
  shows "match_turn c a i s = (Inr None, s)"
proof -
  let ?q = "the_queue a s"
  have "queue_ok (orders s) (known_ids s) a ?q"
    using l by (auto simp: loop_inv_def the_queue_get dest: market_ok_get)
  then have "queue_inv (orders s) ?q" by (simp add: queue_ok_def)
  from sorted_keys.peek_best_spec [OF ks this] have peek: "peek_best (key_enum c) (opposite (side (orders s i))) ?q =
      (case opp_book a i s of [] \<Rightarrow> None | r # _ \<Rightarrow> Some r)"
    by (simp add: opp_book_def)
  from stop show ?thesis
  proof
    assume "opp_book a i s = []"
    then show ?thesis by (simp add: match_turn_def Let_def peek_opposite peek)
  next
    assume "\<exists>r rs. opp_book a i s = r # rs \<and> \<not> reach (orders s i) (rate_of (orders s) r)"
    then obtain r rs where b: "opp_book a i s = r # rs" and nr: "\<not> reach (orders s i) (rate_of (orders s) r)" by blast
    have m: "mode (orders s i) = RATE_CAPPED" using nr by (auto simp: reach_def)
    then have "max_hourly_rate (orders s i) \<noteq> None" using l by (intro incoming_rate) (simp_all add: loop_inv_def)
    with nr m show ?thesis using book_head(4) [OF l b] unfolding match_turn_def Let_def peek_opposite peek b
      by (cases "side (orders s i)") (auto simp: reach_def not_le)
  qed
qed

text \<open>
  What a turn that trades leaves alone, and what it does to the two orders.
\<close>

definition turn_frame :: "ref \<Rightarrow> string \<Rightarrow> rat \<Rightarrow> engine_state \<Rightarrow> engine_state \<Rightarrow> bool" where
  "turn_frame i a hrs s s' \<longleftrightarrow>
     known_ids s' = known_ids s \<and> assignment_log s' = assignment_log s \<and> bus s' = bus s \<and>
     submitted_count s' = submitted_count s \<and>
     (\<forall>b. b \<noteq> a \<longrightarrow> dict_get (queues s') b = dict_get (queues s) b) \<and>
     (\<forall>b. net_position b (workloads s') = net_position b (workloads s)) \<and>
     (\<exists>av now. orders s' i = (if hrs = 0 then orders s i else
         (orders s i)\<lparr>average_rate := av, assigned_hours := assigned_hours (orders s i) + hrs, updated_at := now\<rparr>)) \<and>
     (\<forall>x. x \<noteq> i \<and> x \<notin> set (opp_book a i s) \<longrightarrow> orders s' x = orders s x) \<and>
     (\<forall>x. same_terms (orders s) (orders s') x \<and> wo_asset (orders s' x) = wo_asset (orders s x)) \<and>
     book (side (orders s i)) (the_queue a s') = book (side (orders s i)) (the_queue a s)"

lemma turn_frame_refl: "turn_frame i a 0 s s"
  by (simp add: turn_frame_def same_terms_def)

lemma turn_frame_fields:
  assumes "turn_frame i a hrs s s'"
  shows "side (orders s' i) = side (orders s i)" "mode (orders s' i) = mode (orders s i)"
    "max_hourly_rate (orders s' i) = max_hourly_rate (orders s i)" "wo_asset (orders s' i) = wo_asset (orders s i)"
    "reach (orders s' i) = reach (orders s i)" "dispatch_window (orders s' i) = dispatch_window (orders s i)"
    "assigned_hours (orders s' i) = assigned_hours (orders s i) + hrs" "status (orders s' i) = status (orders s i)"
    "requested_hours (orders s' i) = requested_hours (orders s i)" "work_order_id (orders s' i) = work_order_id (orders s i)"
    "wo_organization (orders s' i) = wo_organization (orders s i)"
proof -
  obtain av now where e: "orders s' i = (if hrs = 0 then orders s i else
         (orders s i)\<lparr>average_rate := av, assigned_hours := assigned_hours (orders s i) + hrs, updated_at := now\<rparr>)"
    using assms unfolding turn_frame_def by blast
  show "side (orders s' i) = side (orders s i)" "mode (orders s' i) = mode (orders s i)"
    "max_hourly_rate (orders s' i) = max_hourly_rate (orders s i)" "wo_asset (orders s' i) = wo_asset (orders s i)"
    "reach (orders s' i) = reach (orders s i)" "dispatch_window (orders s' i) = dispatch_window (orders s i)"
    "assigned_hours (orders s' i) = assigned_hours (orders s i) + hrs" "status (orders s' i) = status (orders s i)"
    "requested_hours (orders s' i) = requested_hours (orders s i)" "work_order_id (orders s' i) = work_order_id (orders s i)"
    "wo_organization (orders s' i) = wo_organization (orders s i)"
    by (simp_all add: e reach_def [abs_def])
qed

lemma turn_frame_trans:
  assumes 1: "turn_frame i a h1 s s'" and 2: "turn_frame i a h2 s' s''"
    and sub: "set (opp_book a i s') \<subseteq> set (opp_book a i s)" and h: "0 \<le> h1" "0 \<le> h2"
  shows "turn_frame i a (h1 + h2) s s''"
proof -
  have "\<exists>av now. orders s'' i = (if h1 + h2 = 0 then orders s i else
         (orders s i)\<lparr>average_rate := av, assigned_hours := assigned_hours (orders s i) + (h1 + h2), updated_at := now\<rparr>)"
  proof -
    obtain av1 n1 av2 n2 where e: "orders s' i = (if h1 = 0 then orders s i else
         (orders s i)\<lparr>average_rate := av1, assigned_hours := assigned_hours (orders s i) + h1, updated_at := n1\<rparr>)"
      "orders s'' i = (if h2 = 0 then orders s' i else
         (orders s' i)\<lparr>average_rate := av2, assigned_hours := assigned_hours (orders s' i) + h2, updated_at := n2\<rparr>)"
      using 1 2 unfolding turn_frame_def by blast
    consider "h1 = 0" | "h2 = 0" "h1 \<noteq> 0" | "h1 \<noteq> 0" "h2 \<noteq> 0" "h1 + h2 \<noteq> 0" using h by linarith
    then show ?thesis
    proof cases
      case 1 with e show ?thesis by (intro exI [of _ av2] exI [of _ n2]) simp
    next
      case 2 with e show ?thesis by (intro exI [of _ av1] exI [of _ n1]) simp
    next
      case 3 with e show ?thesis by (intro exI [of _ av2] exI [of _ n2]) (simp add: add.assoc)
    qed
  qed
  moreover have "orders s'' x = orders s x" if "x \<noteq> i" "x \<notin> set (opp_book a i s)" for x
    using 1 2 sub that unfolding turn_frame_def by (metis subsetD)
  moreover have "same_terms (orders s) (orders s'') x \<and> wo_asset (orders s'' x) = wo_asset (orders s x)" for x
    using 1 2 unfolding turn_frame_def same_terms_def by metis
  moreover have "book (side (orders s i)) (the_queue a s'') = book (side (orders s i)) (the_queue a s)"
    using 1 2 turn_frame_fields(1) [OF 1] unfolding turn_frame_def by metis
  ultimately show ?thesis using 1 2 unfolding turn_frame_def by simp
qed

text \<open>An assignment names the incoming order and the resting one, by side.\<close>

definition names :: "heap \<Rightarrow> ref \<Rightarrow> service_assignment \<times> ref \<Rightarrow> bool" where
  "names h i m \<longleftrightarrow> sa_asset (fst m) = wo_asset (h i) \<and> initiating_side (fst m) = side (h i) \<and>
     requester_work_order_id (fst m) = work_order_id (h (if side (h i) = REQUEST then i else snd m)) \<and>
     provider_work_order_id (fst m) = work_order_id (h (if side (h i) = REQUEST then snd m else i))"

lemma names_fill: "names h i (mk_fill uid (h i) (h r) hrs rate now, r)"
  by (simp add: names_def mk_fill_def Let_def)

lemma names_cong: "turn_frame i a hrs s s' \<Longrightarrow> names (orders s') i m = names (orders s) i m"
  unfolding names_def turn_frame_def same_terms_def by metis

lemma match_turn_trade:
  assumes ks: "sorted_keys (key_enum c)" and l: "loop_inv V i a s" and b: "opp_book a i s = r # rs"
    and rch: "reach (orders s i) (rate_of (orders s) r)" and rem: "0 < remaining_hours (orders s i)"
    and hrs: "hrs = min (remaining_hours (orders s i)) (remaining_hours (orders s r))"
    and V: "V + 2 * hrs < 10 ^ 20"
  shows "\<exists>asg s'. match_turn c a i s = (Inr (Some (asg, r)), s') \<and>
     hours asg = hrs \<and> hourly_rate asg = rate_of (orders s) r \<and> loop_inv (V + 2 * hrs) i a s' \<and>
     opp_book a i s' = (if hrs = remaining_hours (orders s r) then rs else r # rs) \<and>
     remaining_hours (orders s' i) = remaining_hours (orders s i) - hrs \<and>
     remaining_hours (orders s' r) = remaining_hours (orders s r) - hrs \<and>
     (\<forall>x\<in>set rs. orders s' x = orders s x) \<and> 0 < hrs \<and> turn_frame i a hrs s s' \<and> names (orders s) i (asg, r)"
proof -
  let ?h = "orders s" and ?q = "the_queue a s" and ?sd = "side (orders s i)" and ?p = "rate_of (orders s) r"
  note H = book_head [OF l b]
  have L: "work_order_ok (?h i)" "workloads_ok V (workloads s)" "0 \<le> V" "market_ok ?h (known_ids s) (queues s)"
    "dict_get (queues s) a = Some ?q" "apart i (queues s)"
    using l by (auto simp: loop_inv_def the_queue_get)
  have R: "work_order_ok (?h r)" "0 < remaining_hours (?h r)" "wo_asset (?h r) = a" using H(1) by (simp_all add: resting_ok_def)
  have h: "grid hrs" "0 < hrs" "hrs \<le> remaining_hours (?h i)" "hrs \<le> remaining_hours (?h r)"
    using rem R L remaining_hours_grid [of "?h i"] remaining_hours_grid [of "?h r"] by (auto simp: hrs min_def)
  obtain a1 a2 now uid ws' n u where ex: "execute_assignment c i r hrs ?p s =
      (Inr (mk_fill uid (?h i) (?h r) hrs ?p now),
       s\<lparr>orders := ?h(i := filled a1 hrs now (?h i), r := settled a2 hrs now (?h r)),
         workloads := ws', ticks := n, uids := u\<rparr>)" (is "_ = (Inr ?asg, ?s1)")
    and ws': "workloads_ok (V + 2 * hrs) ws'" "\<forall>a. net_position a ws' = net_position a (workloads s)"
    using execute_assignment_eq [OF H(2) [symmetric] L(1) R(1) h H(5) L(2,3) V] by blast
  define h1 where "h1 = ?h(i := filled a1 hrs now (?h i), r := settled a2 hrs now (?h r))"
  define s1 where "s1 = ?s1"
  have o1: "orders s1 = h1" "the_queue a s1 = ?q" "queues s1 = queues s" "workloads s1 = ws'"
    "known_ids s1 = known_ids s" "assignment_log s1 = assignment_log s" "bus s1 = bus s"
    "submitted_count s1 = submitted_count s"
    by (simp_all add: s1_def h1_def the_queue_def)
  have hr: "h1 r = settled a2 hrs now (?h r)" and hi: "h1 i = filled a1 hrs now (?h i)" using H(2) by (auto simp: h1_def)
  have remr: "remaining_hours (h1 r) = remaining_hours (?h r) - hrs" "work_order_ok (h1 r)"
    using work_order_ok_filled [OF R(1) h(1,2,4)] by (simp_all add: hr)
  have remi: "remaining_hours (h1 i) = remaining_hours (?h i) - hrs" "work_order_ok (h1 i)"
    using work_order_ok_filled [OF L(1) h(1,2,3)] by (simp_all add: hi)
  have full: "is_fully_assigned (h1 r) \<longleftrightarrow> hrs = remaining_hours (?h r)" using remr by (auto simp: fully_assigned_iff)
  have terms: "same_terms ?h h1 x \<and> wo_asset (h1 x) = wo_asset (?h x)" for x
    by (simp add: h1_def same_terms_def)
  have peek: "peek_best (key_enum c) (opposite ?sd) ?q = Some r"
    using sorted_keys.peek_best_spec [OF ks, of ?h ?q "opposite ?sd"] H(6) b by (simp add: queue_ok_def opp_book_def)
  have reachable: "\<not> (mode (?h i) = RATE_CAPPED \<and> max_hourly_rate (?h i) = None)"
    "\<not> (mode (?h i) = RATE_CAPPED \<and> ?sd = REQUEST \<and> the (max_hourly_rate (?h i)) < ?p)"
    "\<not> (mode (?h i) = RATE_CAPPED \<and> ?sd = OFFER \<and> ?p < the (max_hourly_rate (?h i)))"
    using incoming_rate [OF L(1)] rch by (auto simp: reach_def)
  define q' where "q' = (if hrs = remaining_hours (?h r) then snd (pop_best (key_enum c) h1 (opposite ?sd) ?q) else ?q)"
  define s' where "s' = (if hrs = remaining_hours (?h r) then put_queue a q' s1 else s1)"
  have turn: "match_turn c a i s = (Inr (Some (?asg, r)), s')"
  proof -
    have "andthen (execute_assignment c i r hrs ?p) f s = f ?asg s1" for f :: "service_assignment \<Rightarrow> (service_assignment \<times> ref) option step"
      using ex by (simp add: andthen_def s1_def)
    then show ?thesis
      using H(4) peek reachable unfolding match_turn_def Let_def peek_opposite
      by (simp only: option.case if_False pop_opposite hrs [symmetric])
        (simp add: andthen_def ret_def o1 full s'_def q'_def)
  qed
  have side_i: "side (h1 i) = ?sd" by (simp add: hi)
  have qinv1: "queue_inv h1 ?q" using H(6) terms by - (rule queue_inv_cong [of ?h], simp_all add: queue_ok_def)
  have bk: "book (opposite ?sd) ?q = r # rs" using b by (simp add: opp_book_def)
  have q': "queue_ok h1 (known_ids s) a q' \<and> book ?sd q' = book ?sd ?q \<and> set (all_refs q') \<subseteq> set (all_refs ?q) \<and>
      book (opposite ?sd) q' = (if hrs = remaining_hours (?h r) then rs else r # rs)"
  proof (cases "hrs = remaining_hours (?h r)")
    case True
    obtain q2 where q2: "pop_best (key_enum c) h1 (opposite ?sd) ?q = (Some r, q2)" "queue_inv h1 q2" "dq_asset q2 = dq_asset ?q"
      "book (opposite ?sd) q2 = rs" "book ?sd q2 = book ?sd ?q"
      using sorted_keys.pop_best_spec [OF ks qinv1 bk] by auto
    then have q'q2: "q' = q2" using True by (simp add: q'_def)
    have sub: "set (book sd q2) \<subseteq> set (book sd ?q)" for sd
      using q2 bk by (cases "sd = ?sd"; cases sd; cases ?sd) (auto simp: opposite_def)
    have refs: "set (all_refs q2) = set rs \<union> set (book ?sd ?q)"
      using set_all_refs [of q2 "opposite ?sd"] q2 by simp
    have "distinct (book (opposite ?sd) ?q)" using distinct_book [OF qinv1] .
    then have "r \<notin> set rs" using bk by simp
    moreover have "r \<notin> set (book ?sd ?q)"
      using book_ref_side [OF qinv1, of r ?sd] book_ref_side [OF qinv1, of r "opposite ?sd"] bk by (metis list.set_intros(1) opposite_neq)
    moreover have "i \<notin> set (all_refs q2)" using H(7) refs set_all_refs [of ?q ?sd] bk by auto
    ultimately have "\<forall>x\<in>set (all_refs q2). h1 x = ?h x" using refs by (auto simp: h1_def)
    then have "queue_ok h1 (known_ids s) a q2"
      using H(6) q2 sub by (intro queue_ok_sub [OF H(6)]) (simp_all add: queue_ok_def)
    moreover have "set (all_refs q2) \<subseteq> set (all_refs ?q)"
      using refs set_all_refs [of ?q ?sd] bk by auto
    ultimately show ?thesis using q2 True q'q2 by simp
  next
    case False
    then have "hrs < remaining_hours (?h r)" using h by simp
    then have "queue_ok h1 (known_ids s) a ?q" unfolding h1_def by (rule queue_ok_settled [OF H(6,3) h(1,2) _ H(7)])
    then show ?thesis using False bk by (simp add: q'_def)
  qed
  have tq: "the_queue a s' = q'" "orders s' = h1" "workloads s' = ws'" "known_ids s' = known_ids s"
    by (simp_all add: s'_def o1 q'_def)
  have qs: "queues s' = dict_set a q' (queues s)" 
    using L(5) by (simp add: s'_def o1 q'_def dict_set_same)
  have others: "h1 x = ?h x" if "b \<noteq> a" "dict_get (queues s) b = Some qq" "x \<in> set (all_refs qq)" for b qq x
  proof -
    have "wo_asset (?h x) = b" using resting_asset [OF L(4) that(2,3)] .
    then have "x \<noteq> r" using R(3) that(1) by auto
    moreover have "x \<noteq> i" using L(6) that by (auto simp: apart_def)
    ultimately show ?thesis by (simp add: h1_def)
  qed
  have inv: "loop_inv (V + 2 * hrs) i a s'"
  proof -
    have "market_ok h1 (known_ids s) (dict_set a q' (queues s))"
      using q' others by (intro market_ok_update [OF L(4)]) auto
    moreover have "apart i (dict_set a q' (queues s))"
      using L(6) q' H(7) by (auto simp: apart_def dict_simps)
    ultimately show ?thesis using ws' L(3) h(2) remi by (simp add: loop_inv_def tq qs dict_simps)
  qed
  have frame: "turn_frame i a hrs s s'"
    unfolding turn_frame_def
  proof (intro conjI allI impI)
    show "known_ids s' = known_ids s" "assignment_log s' = assignment_log s" "bus s' = bus s"
      "submitted_count s' = submitted_count s" by (simp_all add: s'_def o1)
    show "dict_get (queues s') b = dict_get (queues s) b" if "b \<noteq> a" for b using that by (simp add: qs dict_simps)
    show "net_position b (workloads s') = net_position b (workloads s)" for b using ws' by (simp add: tq)
    show "\<exists>av now. orders s' i = (if hrs = 0 then orders s i else (orders s i)\<lparr>average_rate := av,
        assigned_hours := assigned_hours (orders s i) + hrs, updated_at := now\<rparr>)"
      using h(2) by (auto simp: tq hi filled_def)
    show "orders s' x = orders s x" if "x \<noteq> i \<and> x \<notin> set (opp_book a i s)" for x
      using that b by (auto simp: tq h1_def)
    show "same_terms (orders s) (orders s') x" "wo_asset (orders s' x) = wo_asset (orders s x)" for x using terms by (simp_all add: tq)
    show "book ?sd (the_queue a s') = book ?sd (the_queue a s)" using q' by (simp add: tq)
  qed
  have rest: "\<forall>x\<in>set rs. orders s' x = orders s x"
  proof
    fix x assume x: "x \<in> set rs"
    have "distinct (r # rs)" using distinct_book [OF qinv1, of "opposite ?sd"] bk by simp
    with x have "x \<noteq> r" by auto
    moreover have "x \<noteq> i" using x H(7) in_book [of x "opposite ?sd" ?q] bk by auto
    ultimately show "orders s' x = orders s x" by (simp add: tq h1_def)
  qed
  have ob: "opp_book a i s' = (if hrs = remaining_hours (?h r) then rs else r # rs)"
    using q' by (simp add: opp_book_def tq side_i)
  show ?thesis
    using turn inv ob frame rest h(2) remi(1) remr(1) names_fill
    by (intro exI [of _ ?asg] exI [of _ s']) (simp add: tq)
qed

section \<open>The greedy allocation\<close>

text \<open>
  \<open>pour ok n xs\<close> takes \<open>n\<close> hours from a list of (order, remaining hours, rate) in turn, as long
  as the rates are within reach; \<open>left_over\<close> is what remains of the list.
\<close>

fun pour :: "(rat \<Rightarrow> bool) \<Rightarrow> rat \<Rightarrow> (ref \<times> rat \<times> rat) list \<Rightarrow> (ref \<times> rat \<times> rat) list" where
  "pour ok n [] = []"
| "pour ok n ((r, h, p) # xs) =
     (if n \<le> 0 \<or> \<not> ok p then [] else (r, min n h, p) # pour ok (n - min n h) xs)"

fun left_over :: "(rat \<Rightarrow> bool) \<Rightarrow> rat \<Rightarrow> (ref \<times> rat \<times> rat) list \<Rightarrow> ref list" where
  "left_over ok n [] = []"
| "left_over ok n ((r, h, p) # xs) =
     (if n \<le> 0 \<or> \<not> ok p \<or> n < h then r # map fst xs else left_over ok (n - h) xs)"

definition poured :: "(ref \<times> rat \<times> rat) list \<Rightarrow> rat" where
  "poured xs = sum_list (map (\<lambda>(r, h, p). h) xs)"

definition offers_of :: "heap \<Rightarrow> ref list \<Rightarrow> (ref \<times> rat \<times> rat) list" where
  "offers_of h rs = map (\<lambda>r. (r, remaining_hours (h r), rate_of h r)) rs"

definition fill_of :: "service_assignment \<times> ref \<Rightarrow> ref \<times> rat \<times> rat" where
  "fill_of m = (snd m, hours (fst m), hourly_rate (fst m))"

lemma poured_simps [simp]: "poured [] = 0" "poured ((r, h, p) # xs) = h + poured xs"
  by (simp_all add: poured_def)

lemma pour_zero: "n \<le> 0 \<Longrightarrow> pour ok n xs = []"
  by (cases xs) auto

lemma left_over_zero: "n \<le> 0 \<Longrightarrow> left_over ok n xs = map fst xs"
  by (cases xs) auto

lemma pour_bounds: "\<forall>(r, h, p)\<in>set xs. 0 < h \<Longrightarrow> 0 \<le> poured (pour ok n xs) \<and> (0 \<le> n \<longrightarrow> poured (pour ok n xs) \<le> n)"
proof (induction xs arbitrary: n)
  case (Cons x xs)
  obtain r h p where x: "x = (r, h, p)" by (cases x)
  show ?case
  proof (cases "n \<le> 0 \<or> \<not> ok p")
    case False
    then have "0 \<le> min n h" "0 \<le> n - min n h" using Cons.prems x by (auto simp: min_def)
    with Cons.IH [of "n - min n h"] Cons.prems x False show ?thesis by auto
  qed (auto simp: x)
qed simp

text \<open>Every fill is positive, at the rate of its order and within reach.\<close>

lemma pour_mem: "\<forall>(r, h, p)\<in>set xs. 0 < h \<Longrightarrow> (r, g, p) \<in> set (pour ok n xs) \<Longrightarrow>
    ok p \<and> 0 < g \<and> (\<exists>h. (r, h, p) \<in> set xs \<and> g \<le> h)"
proof (induction xs arbitrary: n)
  case (Cons x xs)
  obtain r' h' p' where x: "x = (r', h', p')" by (cases x)
  with Cons.prems have "(r, g, p) = (r', min n h', p') \<and> \<not> n \<le> 0 \<and> ok p' \<or> (r, g, p) \<in> set (pour ok (n - min n h') xs)"
    by (auto split: if_splits)
  with Cons x show ?case by (auto simp: min_def)
qed simp

text \<open>The touched orders are a prefix of the book, and all but the last are used up.\<close>

lemma pour_prefix: "map fst (pour ok n xs) = map fst (take (length (pour ok n xs)) xs)"
  by (induction ok n xs rule: pour.induct) auto

lemma pour_fst: "fst ` set (pour ok n xs) \<subseteq> fst ` set xs"
  by (induction ok n xs rule: pour.induct) auto

lemma pour_total:
  assumes "\<forall>(r, h, p)\<in>set xs. 0 < h \<and> ok p" "0 \<le> n"
  shows "poured (pour ok n xs) = min n (poured xs)"
  using assms
proof (induction xs arbitrary: n)
  case (Cons x xs)
  obtain r h p where x: "x = (r, h, p)" by (cases x)
  have nn: "0 \<le> poured xs" using Cons.prems(1) unfolding poured_def by (intro sum_list_nonneg) fastforce
  show ?case
  proof (cases "n = 0")
    case True
    then show ?thesis using Cons.prems x nn by simp
  next
    case False
    with Cons.prems x have "0 \<le> n - min n h" "0 < h" "ok p" by auto
    with Cons.IH [of "n - min n h"] Cons.prems x False nn show ?thesis by (auto simp: min_def)
  qed
qed (simp add: min_def)

section \<open>The loop\<close>

lemma opp_resting:
  assumes "loop_inv V i a s" "r \<in> set (opp_book a i s)"
  shows "resting_ok (orders s) (known_ids s) a r"
proof -
  have "queue_ok (orders s) (known_ids s) a (the_queue a s)"
    using assms(1) by (auto simp: loop_inv_def the_queue_get dest: market_ok_get)
  with assms(2) in_book show ?thesis unfolding opp_book_def queue_ok_def by blast
qed

lemma match_loop_spec:
  assumes ks: "sorted_keys (key_enum c)"
  shows "loop_inv V i a s \<Longrightarrow> opp_book a i s = rs \<Longrightarrow> V + 2 * remaining_hours (orders s i) < 10 ^ 20 \<Longrightarrow>
    \<exists>ms s'. match_loop c a i acc s = Some (Inr (acc @ ms), s') \<and>
      map fill_of ms = pour (reach (orders s i)) (remaining_hours (orders s i)) (offers_of (orders s) rs) \<and>
      loop_inv (V + 2 * poured (map fill_of ms)) i a s' \<and> turn_frame i a (poured (map fill_of ms)) s s' \<and>
      opp_book a i s' = left_over (reach (orders s i)) (remaining_hours (orders s i)) (offers_of (orders s) rs) \<and>
      remaining_hours (orders s' i) = remaining_hours (orders s i) - poured (map fill_of ms) \<and>
      (\<forall>(r, h, p)\<in>set (map fill_of ms). remaining_hours (orders s' r) = remaining_hours (orders s r) - h) \<and>
      (remaining_hours (orders s' i) = 0 \<or> opp_book a i s' = [] \<or>
       \<not> reach (orders s' i) (rate_of (orders s') (hd (opp_book a i s')))) \<and>
      (\<forall>m\<in>set ms. names (orders s) i m)"
proof (induction rs arbitrary: V acc s)
  case Nil
  have "match_loop c a i acc s = Some (Inr acc, s)"
    using match_turn_stop [OF ks Nil(1)] Nil(2) by (subst match_loop.simps) simp
  with Nil show ?case
    by (intro exI [of _ "[]"] exI [of _ s]) (simp add: offers_of_def turn_frame_refl)
next
  case (Cons r rs)
  let ?i = "orders s i" and ?n = "remaining_hours (orders s i)"
  have ok: "work_order_ok ?i" using Cons.prems(1) by (simp add: loop_inv_def)
  have R: "0 < remaining_hours (orders s r)" using book_head(1) [OF Cons.prems(1,2)] by (simp add: resting_ok_def)
  show ?case
  proof (cases "0 < ?n \<and> reach ?i (rate_of (orders s) r)")
    case False
    have "match_loop c a i acc s = Some (Inr acc, s)"
    proof (cases "0 < ?n")
      case True
      then have "match_turn c a i s = (Inr None, s)" using False Cons.prems match_turn_stop [OF ks] by blast
      then show ?thesis by (subst match_loop.simps) (simp add: True)
    qed (subst match_loop.simps, simp)
    moreover have "\<not> 0 < ?n \<longrightarrow> ?n = 0" using remaining_hours_nonneg [OF ok] by simp
    ultimately show ?thesis using False Cons.prems
      by (intro exI [of _ "[]"] exI [of _ s]) (auto simp: offers_of_def comp_def turn_frame_refl)
  next
    case True
    define hrs where "hrs = min ?n (remaining_hours (orders s r))"
    have hb: "hrs \<le> ?n" "0 < hrs" using True R by (simp_all add: hrs_def)
    have V: "V + 2 * hrs < 10 ^ 20" using Cons.prems(3) hb by linarith
    obtain asg s1 where t: "match_turn c a i s = (Inr (Some (asg, r)), s1)" "hours asg = hrs"
      "hourly_rate asg = rate_of (orders s) r" "loop_inv (V + 2 * hrs) i a s1"
      "opp_book a i s1 = (if hrs = remaining_hours (orders s r) then rs else r # rs)"
      "remaining_hours (orders s1 i) = ?n - hrs"
      "remaining_hours (orders s1 r) = remaining_hours (orders s r) - hrs"
      "\<forall>x\<in>set rs. orders s1 x = orders s x" "turn_frame i a hrs s s1" "names (orders s) i (asg, r)"
      using match_turn_trade [OF ks Cons.prems(1,2) conjunct2 [OF True] conjunct1 [OF True] hrs_def V] by blast
    have step: "match_loop c a i acc s = match_loop c a i (acc @ [(asg, r)]) s1"
      using True t(1) by (subst match_loop.simps) simp
    note F = turn_frame_fields [OF t(9)]
    have view: "offers_of (orders s1) rs = offers_of (orders s) rs"
      using t(8) by (simp add: offers_of_def rate_of_def)
    show ?thesis
    proof (cases "hrs = remaining_hours (orders s r)")
      case full: True
      have V1: "V + 2 * hrs + 2 * remaining_hours (orders s1 i) < 10 ^ 20" using Cons.prems(3) t(6) by simp
      have ob1: "opp_book a i s1 = rs" using t(5) full by simp
      obtain ms s' where m: "match_loop c a i (acc @ [(asg, r)]) s1 = Some (Inr ((acc @ [(asg, r)]) @ ms), s')"
        "map fill_of ms = pour (reach ?i) (?n - hrs) (offers_of (orders s) rs)"
        "loop_inv (V + 2 * hrs + 2 * poured (map fill_of ms)) i a s'"
        "turn_frame i a (poured (map fill_of ms)) s1 s'"
        "opp_book a i s' = left_over (reach ?i) (?n - hrs) (offers_of (orders s) rs)"
        "remaining_hours (orders s' i) = ?n - hrs - poured (map fill_of ms)"
        "\<forall>(r, h, p)\<in>set (map fill_of ms). remaining_hours (orders s' r) = remaining_hours (orders s1 r) - h"
        "remaining_hours (orders s' i) = 0 \<or> opp_book a i s' = [] \<or>
         \<not> reach (orders s' i) (rate_of (orders s') (hd (opp_book a i s')))"
        "\<forall>m\<in>set ms. names (orders s1) i m"
        using Cons.IH [OF t(4) ob1 V1, of "acc @ [(asg, r)]"] unfolding F t(6) view by blast
      have pos: "\<forall>(r, h, p)\<in>set (offers_of (orders s) rs). 0 < h"
        using opp_resting [OF Cons.prems(1)] Cons.prems(2) by (auto simp: offers_of_def resting_ok_def)
      have nn: "0 \<le> poured (map fill_of ms)" using pour_bounds [OF pos] unfolding m(2) by blast
      have fr: "turn_frame i a (hrs + poured (map fill_of ms)) s s'"
        using hb nn Cons.prems(2) ob1 by (intro turn_frame_trans [OF t(9) m(4)]) auto
      have dist: "r \<notin> set rs"
      proof -
        have "queue_inv (orders s) (the_queue a s)" using book_head(6) [OF Cons.prems(1,2)] by (simp add: queue_ok_def)
        from distinct_book [OF this, of "opposite (side ?i)"] show ?thesis
          using Cons.prems(2) by (simp add: opp_book_def)
      qed
      have rr: "remaining_hours (orders s' r) = remaining_hours (orders s1 r)"
      proof -
        have "r \<noteq> i" using book_head(2) [OF Cons.prems(1,2)] .
        with dist m(4) ob1 show ?thesis unfolding turn_frame_def by simp
      qed
      have touched: "\<forall>(r, h, p)\<in>set (map fill_of ((asg, r) # ms)). remaining_hours (orders s' r) = remaining_hours (orders s r) - h"
      proof -
        have "\<forall>x\<in>set (map fill_of ms). fst x \<in> set rs"
        proof
          fix x assume "x \<in> set (map fill_of ms)"
          then have "x \<in> set (pour (reach ?i) (?n - hrs) (offers_of (orders s) rs))" unfolding m(2) .
          then have "fst x \<in> fst ` set (offers_of (orders s) rs)" using pour_fst by blast
          then show "fst x \<in> set rs" by (simp add: offers_of_def image_image)
        qed
        with m(7) t(8) have "\<forall>(r, h, p)\<in>set (map fill_of ms). remaining_hours (orders s' r) = remaining_hours (orders s r) - h"
          by fastforce
        then show ?thesis using rr t(2,7) by (simp add: fill_of_def)
      qed
      have pr: "map fill_of ((asg, r) # ms) = pour (reach ?i) ?n (offers_of (orders s) (r # rs))"
        using True m(2) t(2,3) by (simp add: offers_of_def fill_of_def hrs_def not_le)
      have lo: "opp_book a i s' = left_over (reach ?i) ?n (offers_of (orders s) (r # rs))"
        using True m(5) full hb(1) by (simp add: offers_of_def)
      have T: "poured (map fill_of ((asg, r) # ms)) = hrs + poured (map fill_of ms)" using t(2) by (simp add: fill_of_def)
      have inv': "loop_inv (V + 2 * poured (map fill_of ((asg, r) # ms))) i a s'"
        using m(3) unfolding T by (simp add: distrib_left add.assoc)
      have rem': "remaining_hours (orders s' i) = ?n - poured (map fill_of ((asg, r) # ms))" using m(6) unfolding T by simp
      have nm: "\<forall>m\<in>set ((asg, r) # ms). names (orders s) i m" using m(9) t(10) names_cong [OF t(9)] by simp
      have run: "match_loop c a i acc s = Some (Inr (acc @ (asg, r) # ms), s')" using step m(1) by simp
      show ?thesis
        by (rule exI [of _ "(asg, r) # ms"], rule exI [of _ s'])
          (intro conjI; (fact run | fact pr | fact inv' | fact lo | fact rem' | fact touched | fact m(8) | fact nm | (unfold T, fact fr)))
    next
      case False
      then have n0: "hrs = ?n" by (simp add: hrs_def min_def split: if_splits)
      then have r0: "remaining_hours (orders s1 i) = 0" using t(6) by simp
      have "match_loop c a i (acc @ [(asg, r)]) s1 = Some (Inr (acc @ [(asg, r)]), s1)"
        by (subst match_loop.simps) (simp add: r0)
      moreover have "?n < remaining_hours (orders s r)" using False n0 by (simp add: hrs_def min_def split: if_splits)
      ultimately show ?thesis using step t True n0 False r0
        by (intro exI [of _ "[(asg, r)]"] exI [of _ s1])
          (simp add: fill_of_def offers_of_def pour_zero not_le comp_def)
    qed
  qed
qed

end
