(* ===== verification/EngineLaws.thy ===== *)
theory EngineLaws
  imports MatchLaws
begin

text \<open>
  The laws of the engine: the capacity check of \<open>COMPLETE\<close> orders is exact, a submission
  refines the greedy allocation, every operation keeps the invariant of the engine, and each
  outcome publishes its events in a fixed order.
\<close>

section \<open>The capacity check\<close>

lemma tracks_add_tracks:
  assumes "tracks s x" "tracks t y" "0 \<le> x" "0 \<le> y"
  shows "tracks (dec_add s t) (x + y)"
proof (cases "t = y \<and> grid y")
  case True
  then show ?thesis using assms by (auto intro: tracks_add)
next
  case False
  then have t: "10 ^ 20 \<le> t" "10 ^ 20 \<le> y" using assms by (auto simp: tracks_def)
  have "0 \<le> s" using assms by (auto simp: tracks_def)
  then have "10 ^ 20 \<le> s + t" "10 ^ 20 \<le> x + y" using t assms by linarith+
  with dec_big [of "s + t"] show ?thesis by (simp add: tracks_def dec_add_def)
qed

lemma capacity_loop_spec:
  assumes "tracks s x" "0 \<le> x" "grid needed"
    and "\<forall>l\<in>set ls. \<exists>y\<ge>0. tracks (total_hours h l) y \<and> y = f l"
  shows "capacity_loop blocked h needed s ls \<longleftrightarrow> needed \<le> x + sum_list (map f (takeWhile (\<lambda>l. \<not> blocked l) ls))"
  using assms
proof (induction ls arbitrary: s x)
  case Nil
  then show ?case by (simp add: tracks_compare)
next
  case (Cons l ls)
  show ?case
  proof (cases "blocked l")
    case True
    with Cons show ?thesis by (simp add: tracks_compare)
  next
    case False
    have f: "tracks (total_hours h l) (f l)" "0 \<le> f l" using Cons.prems(4) by auto
    have t: "tracks (dec_add s (total_hours h l)) (x + f l)" using Cons.prems f by (intro tracks_add_tracks)
    have rest: "0 \<le> sum_list (map f (takeWhile (\<lambda>l. \<not> blocked l) ls))"
      using Cons.prems(4) by (intro sum_list_nonneg) (auto dest: set_takeWhileD)
    have c: "needed \<le> dec_add s (total_hours h l) \<longleftrightarrow> needed \<le> x + f l" using t Cons.prems(3) by (rule tracks_compare)
    show ?thesis
    proof (cases "needed \<le> x + f l")
      case True
      then have "needed \<le> x + (f l + sum_list (map f (takeWhile (\<lambda>l. \<not> blocked l) ls)))" using rest by linarith
      with True c False show ?thesis by (simp add: Let_def)
    next
      case nle: False
      have "capacity_loop blocked h needed (dec_add s (total_hours h l)) ls \<longleftrightarrow>
          needed \<le> (x + f l) + sum_list (map f (takeWhile (\<lambda>l. \<not> blocked l) ls))"
        using Cons.prems f by (intro Cons.IH [OF t]) auto
      with False nle c show ?thesis by (simp add: Let_def add.assoc)
    qed
  qed
qed

text \<open>The hours within reach at the front of the book.\<close>

definition reachable_hours :: "(rat \<Rightarrow> bool) \<Rightarrow> heap \<Rightarrow> ref list \<Rightarrow> rat" where
  "reachable_hours ok h rs = sum_list (map (\<lambda>r. remaining_hours (h r)) (takeWhile (\<lambda>r. ok (rate_of h r)) rs))"

lemma pour_amount:
  assumes "\<forall>r\<in>set rs. 0 < remaining_hours (h r)" "0 \<le> n"
  shows "poured (pour ok n (offers_of h rs)) = min n (reachable_hours ok h rs)"
  using assms
proof (induction rs arbitrary: n)
  case Nil
  then show ?case by (simp add: offers_of_def reachable_hours_def)
next
  case (Cons r rs)
  have nn: "0 \<le> reachable_hours ok h rs" unfolding reachable_hours_def using Cons.prems(1)
    by (intro sum_list_nonneg) (auto dest!: set_takeWhileD)
  show ?case
  proof (cases "n = 0 \<or> \<not> ok (rate_of h r)")
    case True
    then show ?thesis using Cons.prems nn by (auto simp: offers_of_def reachable_hours_def)
  next
    case False
    let ?g = "min n (remaining_hours (h r))"
    have "0 < remaining_hours (h r)" "0 < n" using Cons.prems False by auto
    moreover have "poured (pour ok (n - ?g) (offers_of h rs)) = min (n - ?g) (reachable_hours ok h rs)"
      using Cons.prems by (intro Cons.IH) auto
    ultimately show ?thesis using False nn by (auto simp: offers_of_def reachable_hours_def min_def)
  qed
qed

lemma reachable_levels:
  assumes d: "side_inv h sd d"
  shows "reachable_hours ok h (side_book d) =
    sum_list (map (\<lambda>l. sum_list (map (\<lambda>r. remaining_hours (h r)) (lvl_orders l)))
      (takeWhile (\<lambda>l. ok (lvl_rate l)) (map snd (sort_key fst d))))"
proof -
  have "reachable_hours ok h (concat (map (\<lambda>p. lvl_orders (snd p)) L)) =
    sum_list (map (\<lambda>l. sum_list (map (\<lambda>r. remaining_hours (h r)) (lvl_orders l)))
      (takeWhile (\<lambda>l. ok (lvl_rate l)) (map snd L)))"
    if "set L \<subseteq> set d" for L
    using that
  proof (induction L)
    case Nil
    then show ?case by (simp add: reachable_hours_def)
  next
    case (Cons p L)
    then have "level_ok h sd (fst p) (snd p)" using side_inv_mem [OF d, of "fst p" "snd p"] by simp
    then have rates: "\<forall>r\<in>set (lvl_orders (snd p)). rate_of h r = lvl_rate (snd p)" "lvl_orders (snd p) \<noteq> []"
      by (auto simp: level_ok_def rate_of_def)
    show ?case
    proof (cases "ok (lvl_rate (snd p))")
      case True
      then have "takeWhile (\<lambda>r. ok (rate_of h r)) (lvl_orders (snd p) @ concat (map (\<lambda>p. lvl_orders (snd p)) L)) =
        lvl_orders (snd p) @ takeWhile (\<lambda>r. ok (rate_of h r)) (concat (map (\<lambda>p. lvl_orders (snd p)) L))"
        using rates by (intro takeWhile_append2) auto
      with True Cons show ?thesis by (simp add: reachable_hours_def)
    next
      case False
      then have "\<not> ok (rate_of h (hd (lvl_orders (snd p))))" using rates by simp
      with False rates show ?thesis by (cases "lvl_orders (snd p)") (simp_all add: reachable_hours_def)
    qed
  qed
  then show ?thesis unfolding side_book_def by simp
qed

lemma level_total_tracks:
  assumes "\<forall>r\<in>set (lvl_orders l). work_order_ok (h r)"
  shows "tracks (total_hours h l) (sum_list (map (\<lambda>r. remaining_hours (h r)) (lvl_orders l)))"
    "0 \<le> sum_list (map (\<lambda>r. remaining_hours (h r)) (lvl_orders l))"
proof -
  show "tracks (total_hours h l) (sum_list (map (\<lambda>r. remaining_hours (h r)) (lvl_orders l)))"
    unfolding total_hours_def using assms remaining_hours_grid remaining_hours_nonneg
    by (intro dec_sum_tracks) auto
  show "0 \<le> sum_list (map (\<lambda>r. remaining_hours (h r)) (lvl_orders l))"
    using assms remaining_hours_nonneg by (intro sum_list_nonneg) auto
qed

lemma sum_takeWhile_take:
  assumes "\<forall>x\<in>set xs. (0::rat) \<le> f x"
  shows "sum_list (map f (takeWhile P (take n xs))) \<le> sum_list (map f (takeWhile P xs))"
  using assms
proof (induction xs arbitrary: n)
  case (Cons x xs)
  have "0 \<le> sum_list (map f (takeWhile P xs))"
    using Cons.prems by (intro sum_list_nonneg) (auto dest!: set_takeWhileD)
  then show ?case using Cons by (cases n) auto
qed simp

text \<open>
  A positive answer is always right; with at most a million levels so is a negative one.
\<close>

lemma can_assign_fully_spec:
  assumes ks: "sorted_keys (key_enum c)" and q: "queue_ok h known a q" and w: "work_order_ok w"
  shows "can_assign_fully c h w q \<Longrightarrow> remaining_hours w \<le> reachable_hours (reach w) h (book (opposite (side w)) q)"
    and "length (side_queue (opposite (side w)) q) \<le> 1000000 \<Longrightarrow>
       can_assign_fully c h w q \<longleftrightarrow> remaining_hours w \<le> reachable_hours (reach w) h (book (opposite (side w)) q)"
proof -
  let ?d = "side_queue (opposite (side w)) q"
  let ?ls = "map snd (sort_key fst ?d)"
  let ?f = "\<lambda>l. sum_list (map (\<lambda>r. remaining_hours (h r)) (lvl_orders l))"
  have d: "side_inv h (opposite (side w)) ?d" using q by (simp add: queue_ok_def queue_inv_side)
  have lv: "side_levels (key_enum c) 1000000 ?d = take 1000000 ?ls"
    using sorted_keys.side_levels_spec [OF ks d, of 1000000] by simp
  have mem: "l \<in> set ?ls \<Longrightarrow> r \<in> set (lvl_orders l) \<Longrightarrow> r \<in> set (all_refs q)" for l r
    using side_refs_sub [of "opposite (side w)" q] by (force simp: set_side_refs)
  have tr: "\<forall>l\<in>set ?ls. \<exists>y\<ge>0. tracks (total_hours h l) y \<and> y = ?f l"
  proof
    fix l assume l: "l \<in> set ?ls"
    have "\<forall>r\<in>set (lvl_orders l). work_order_ok (h r)" using mem [OF l] q by (auto simp: queue_ok_def resting_ok_def)
    from level_total_tracks [OF this] show "\<exists>y\<ge>0. tracks (total_hours h l) y \<and> y = ?f l" by blast
  qed
  have cap: "can_assign_fully c h w q \<longleftrightarrow> capacity_loop (\<lambda>l. \<not> reach w (lvl_rate l)) h (remaining_hours w) 0 (take 1000000 ?ls)"
  proof -
    have b: "(\<lambda>l. mode w = RATE_CAPPED \<and> (case max_hourly_rate w of None \<Rightarrow> False | Some m \<Rightarrow> m < lvl_rate l)) =
        (\<lambda>l. \<not> reach w (lvl_rate l))" if "side w = REQUEST"
      using that incoming_rate [OF w] by (auto simp: fun_eq_iff reach_def split: option.splits)
    have b': "(\<lambda>l. mode w = RATE_CAPPED \<and> (case max_hourly_rate w of None \<Rightarrow> False | Some m \<Rightarrow> lvl_rate l < m)) =
        (\<lambda>l. \<not> reach w (lvl_rate l))" if "side w \<noteq> REQUEST"
      using that incoming_rate [OF w] by (auto simp: fun_eq_iff reach_def split: option.splits)
    show ?thesis
    proof (cases "side w = REQUEST")
      case True
      then show ?thesis using lv unfolding can_assign_fully_def Let_def b [OF True]
        by (simp add: offer_levels_def side_queue_def opposite_def)
    next
      case False
      then show ?thesis using lv unfolding can_assign_fully_def Let_def b' [OF False]
        by (simp add: request_levels_def side_queue_def opposite_def)
    qed
  qed
  have sub: "\<forall>l\<in>set (take 1000000 ?ls). \<exists>y\<ge>0. tracks (total_hours h l) y \<and> y = ?f l"
    using tr by (meson in_set_takeD)
  have main: "can_assign_fully c h w q \<longleftrightarrow>
      remaining_hours w \<le> sum_list (map ?f (takeWhile (\<lambda>l. reach w (lvl_rate l)) (take 1000000 ?ls)))"
    using capacity_loop_spec [OF tracks_0 order_refl remaining_hours_grid [OF w] sub] by (simp add: cap)
  have re: "reachable_hours (reach w) h (book (opposite (side w)) q) =
      sum_list (map ?f (takeWhile (\<lambda>l. reach w (lvl_rate l)) ?ls))"
    using reachable_levels [OF d] by (simp add: book_side)
  have "\<forall>l\<in>set ?ls. 0 \<le> ?f l" using tr by auto
  from sum_takeWhile_take [OF this] show "can_assign_fully c h w q \<Longrightarrow>
      remaining_hours w \<le> reachable_hours (reach w) h (book (opposite (side w)) q)"
    unfolding main re by (meson order_trans)
  show "length ?d \<le> 1000000 \<Longrightarrow> can_assign_fully c h w q \<longleftrightarrow>
      remaining_hours w \<le> reachable_hours (reach w) h (book (opposite (side w)) q)"
    unfolding main re by simp
qed

section \<open>The invariant of the engine\<close>

definition volume :: "engine_state \<Rightarrow> rat" where
  "volume s = sum_list (map hours (assignment_log s))"

definition engine_inv :: "engine_state \<Rightarrow> bool" where
  "engine_inv s \<longleftrightarrow> market_ok (orders s) (known_ids s) (queues s) \<and> workloads_ok (2 * volume s) (workloads s) \<and>
     0 \<le> volume s \<and> (\<forall>a. net_position a (workloads s) = 0)"

lemma engine_inv_new: "engine_inv (new_engine h b)"
  by (simp add: engine_inv_def new_engine_def market_ok_def workloads_ok_def volume_def)

text \<open>The events that lead from one state to another, by their types.\<close>

definition logs :: "dispatch_event_type list \<Rightarrow> engine_state \<Rightarrow> engine_state \<Rightarrow> bool" where
  "logs ts s s' \<longleftrightarrow> (\<exists>es. bus s' = fold publish es (bus s) \<and> map event_type es = ts)"

lemma logs_same: "bus s' = bus s \<Longrightarrow> logs [] s s'"
  by (simp add: logs_def)

lemma logs_trans: "logs ts s s' \<Longrightarrow> logs us s' s'' \<Longrightarrow> logs (ts @ us) s s''"
  unfolding logs_def by (metis fold_append comp_apply map_append)

lemma logs_emit: "bus s = bus s0 \<Longrightarrow> logs [ty] s0 (emit c ty corr pl s)"
  unfolding logs_def by (intro exI [of _ "[event_of c s ty corr pl]"]) simp

text \<open>
  A step is light for \<open>r\<close> if it touches no order but \<open>r\<close>, no workload and no assignment, and
  changes the queues at most by an empty one.
\<close>

definition light :: "ref \<Rightarrow> engine_state \<Rightarrow> engine_state \<Rightarrow> bool" where
  "light r s s' \<longleftrightarrow> workloads s' = workloads s \<and> assignment_log s' = assignment_log s \<and>
     known_ids s \<subseteq> known_ids s' \<and> (\<forall>x. x \<noteq> r \<longrightarrow> orders s' x = orders s x) \<and>
     (dict_ok (queues s) \<longrightarrow> dict_ok (queues s')) \<and>
     (\<forall>a. dict_get (queues s') a = dict_get (queues s) a \<or>
          dict_get (queues s) a = None \<and> dict_get (queues s') a = Some (new_queue a))"

lemma light_refl [simp]: "light r s s"
  by (simp add: light_def)

lemma light_trans:
  assumes "light r s s'" "light r s' s''"
  shows "light r s s''"
proof -
  have "dict_get (queues s'') a = dict_get (queues s) a \<or>
      dict_get (queues s) a = None \<and> dict_get (queues s'') a = Some (new_queue a)" for a
    using assms unfolding light_def by (metis option.distinct(1))
  then show ?thesis using assms unfolding light_def by auto
qed

lemma light_emit: "light r s (emit c ty corr pl s)"
  by (simp add: light_def)

lemma light_mark: "light r s (mark c r st s)"
  by (simp add: light_def)

lemma light_create: "get_or_create_queue a s = (x, s') \<Longrightarrow> light r s s'"
  by (auto simp: get_or_create_queue_def light_def dict_simps split: option.splits if_splits)

lemma apart_light: "light r s s' \<Longrightarrow> apart i (queues s) \<Longrightarrow> apart i (queues s')"
  unfolding apart_def light_def by (metis all_refs_new empty_iff empty_set option.distinct(1) option.inject)

lemma engine_inv_light:
  assumes i: "engine_inv s" and l: "light r s s'" and ap: "apart r (queues s)"
  shows "engine_inv s'"
proof -
  have "queue_ok (orders s') (known_ids s') a q" if g: "dict_get (queues s') a = Some q" for a q
  proof (cases "dict_get (queues s) a")
    case None
    then have "q = new_queue a" using g l unfolding light_def by (metis option.distinct(1) option.inject)
    then show ?thesis by simp
  next
    case (Some q0)
    then have q0: "q0 = q" using g l unfolding light_def by (metis option.distinct(1) option.inject)
    have "queue_ok (orders s) (known_ids s) a q" using i Some q0 by (auto simp: engine_inv_def dest: market_ok_get)
    moreover have "r \<notin> set (all_refs q)" using ap Some q0 by (simp add: apart_def)
    then have "\<forall>x\<in>set (all_refs q). orders s' x = orders s x"
      using l unfolding light_def by metis
    ultimately show ?thesis using l by (rule_tac queue_ok_heap) (auto simp: light_def)
  qed
  moreover have "volume s' = volume s" "workloads s' = workloads s" "dict_ok (queues s')"
    using l i by (simp_all add: volume_def light_def engine_inv_def market_ok_def)
  ultimately show ?thesis using i by (simp add: engine_inv_def market_ok_def)
qed

lemma unknown_apart:
  assumes "engine_inv s" "work_order_id (orders s r) \<notin> known_ids s"
  shows "apart r (queues s)"
  using assms by (auto simp: engine_inv_def apart_def dest!: market_ok_get simp: queue_ok_def resting_ok_def)

section \<open>Opening a submission\<close>

lemma strip_nonblank: "x \<in> set s \<Longrightarrow> \<not> py_space x \<Longrightarrow> strip s \<noteq> []"
proof
  assume x: "x \<in> set s" "\<not> py_space x" and n: "strip s = []"
  then have "dropWhile py_space (rev (dropWhile py_space s)) = []" by (simp add: strip_def)
  then have "\<forall>y\<in>set (dropWhile py_space s). py_space y" by (simp add: dropWhile_eq_Nil_conv)
  moreover have "s = takeWhile py_space s @ dropWhile py_space s" by simp
  then have "x \<in> set (takeWhile py_space s) \<or> x \<in> set (dropWhile py_space s)" using x(1) by (metis Un_iff set_append)
  ultimately show False using x(2) by (auto dest: set_takeWhileD)
qed

lemma not_space_U: "\<not> py_space CHR ''U''" "\<not> py_space CHR ''o''" "\<not> py_space CHR ''m''"
  by (simp_all add: py_space_def)

lemma boundary_reason:
  assumes "validate_boundary c w = Inr (False, t)"
  shows "strip t \<noteq> []"
proof (rule strip_nonblank)
  show "CHR ''o'' \<in> set t"
    using assms by (auto simp: validate_boundary_def split: if_splits option.splits sum.splits bool.splits)
qed (rule not_space_U)

lemma not_new_nonblank: "strip (not_new_reason st) \<noteq> []"
  by (rule strip_nonblank [of "CHR ''o''"]) (simp_all add: not_new_reason_def not_space_U)

lemma reject_spec:
  assumes "work_order_ok (orders s r)" "strip t \<noteq> []"
  shows "\<exists>s'. reject c r (Some t) s = (Inr \<lparr>dr_work_order = r, dr_assignments = [], rejection_reason = Some (strip t)\<rparr>, s') \<and>
     light r s s' \<and> logs [WORK_ORDER_REJECTED] s s' \<and> (\<exists>now. orders s' r = (orders s r)\<lparr>status := REJECTED, updated_at := now\<rparr>) \<and>
     queues s' = queues s \<and> known_ids s' = known_ids s"
  using assms light_trans [OF light_mark light_emit]
  by (simp add: reject_eq work_order_ok_valid Let_def logs_emit) blast

lemma stand_down_spec:
  assumes "work_order_ok (orders s r)"
  shows "\<exists>s'. stand_down c r t s = (Inr (), s') \<and>
     light r s s' \<and> logs [WORK_ORDER_CANCELLED] s s' \<and> (\<exists>now. orders s' r = (orders s r)\<lparr>status := CANCELLED, updated_at := now\<rparr>) \<and>
     queues s' = queues s \<and> known_ids s' = known_ids s"
  using assms light_trans [OF light_mark light_emit]
  by (simp add: stand_down_eq work_order_ok_valid Let_def logs_emit) blast

text \<open>The decision on a new identifier, apart from the mechanics of carrying it out.\<close>

datatype decision = Fails exn | Rejects string | Admits

definition decide :: "engine_config \<Rightarrow> engine_state \<Rightarrow> ref \<Rightarrow> decision" where
  "decide c s r =
     (let w = orders s r in
      if status w \<noteq> NEW then Rejects (strip (not_new_reason (status w)))
      else case validate_boundary c w of
          Inl e \<Rightarrow> Fails e
        | Inr (False, t) \<Rightarrow> Rejects (strip t)
        | Inr (True, _) \<Rightarrow>
            (case pre_check c of
               None \<Rightarrow> Admits
             | Some check \<Rightarrow>
                 (case check w (peek_workload (wo_organization w) (wo_asset w) s) of
                    (True, _) \<Rightarrow> Admits
                  | (False, None) \<Rightarrow> Fails TypeError
                  | (False, Some t) \<Rightarrow> Rejects (if strip t = [] then ''Pre-dispatch check failed'' else strip t))))"

definition opened :: "engine_config \<Rightarrow> ref \<Rightarrow> engine_state \<Rightarrow> engine_state" where
  "opened c r s = (let s1 = s\<lparr>known_ids := insert (work_order_id (orders s r)) (known_ids s),
       submitted_count := submitted_count s + 1\<rparr> in
     emit c WORK_ORDER_SUBMITTED (work_order_id (orders s r)) (dict_update (work_order_payload (orders s r)) []) s1)"

lemma opened_frame [simp]:
  "orders (opened c r s) = orders s" "queues (opened c r s) = queues s" "workloads (opened c r s) = workloads s"
  "assignment_log (opened c r s) = assignment_log s"
  "known_ids (opened c r s) = insert (work_order_id (orders s r)) (known_ids s)"
  by (simp_all add: opened_def Let_def)

lemma light_opened: "light r s (opened c r s)"
  by (auto simp: light_def)

lemma logs_opened: "logs [WORK_ORDER_SUBMITTED] s (opened c r s)"
  unfolding opened_def Let_def by (rule logs_emit) simp

definition created :: "string \<Rightarrow> engine_state \<Rightarrow> engine_state" where
  "created a s = snd (get_or_create_queue a s)"

lemma get_or_create_eq: "get_or_create_queue a s = (Inr (), created a s)"
  by (simp add: created_def get_or_create_queue_def split: option.splits)

lemma created_frame [simp]:
  "orders (created a s) = orders s" "workloads (created a s) = workloads s" "known_ids (created a s) = known_ids s"
  "assignment_log (created a s) = assignment_log s" "bus (created a s) = bus s"
  "dict_get (queues (created a s)) a \<noteq> None" "the_queue a (created a s) = the_queue a s"
  by (auto simp: created_def get_or_create_queue_def the_queue_def dict_simps split: option.splits)

lemma light_created: "light r s (created a s)"
  using light_create [OF get_or_create_eq] .

lemma open_new:
  assumes new: "work_order_id (orders s r) \<notin> known_ids s"
  shows "open_submission c r s = (let s1 = opened c r s in
     if status (orders s r) \<noteq> NEW
     then andthen (reject c r (Some (not_new_reason (status (orders s r))))) (\<lambda>d. ret (Some d)) s1
     else case validate_boundary c (orders s r) of
         Inl e \<Rightarrow> (Inl e, s1)
       | Inr (False, reason) \<Rightarrow> andthen (reject c r (Some reason)) (\<lambda>d. ret (Some d)) s1
       | Inr (True, _) \<Rightarrow> andthen (pre_dispatch c r) (\<lambda>early. case early of Some d \<Rightarrow> ret (Some d) | None \<Rightarrow> admit c r)
           (created (wo_asset (orders s r)) s1))"
proof -
  have m: "andthen (modify g) f s = f () (g s)" for g :: "engine_state \<Rightarrow> engine_state" and f :: "unit \<Rightarrow> dispatch_result option step"
    by (simp add: andthen_def modify_def)
  have g: "andthen (get_or_create_queue a) f s = f () (created a s)" for a s and f :: "unit \<Rightarrow> dispatch_result option step"
    by (simp add: andthen_def get_or_create_eq)
  show ?thesis using new
    unfolding open_submission_def m andthen_publish g
    by (cases "validate_boundary c (orders s r)") (auto simp: opened_def Let_def split: prod.splits bool.splits)
qed

lemma reject_then:
  assumes "work_order_ok (orders s r)" "strip t \<noteq> []"
  shows "\<exists>s'. andthen (reject c r (Some t)) (\<lambda>d. ret (Some d)) s =
     (Inr (Some \<lparr>dr_work_order = r, dr_assignments = [], rejection_reason = Some (strip t)\<rparr>), s') \<and>
     light r s s' \<and> logs [WORK_ORDER_REJECTED] s s' \<and> (\<exists>now. orders s' r = (orders s r)\<lparr>status := REJECTED, updated_at := now\<rparr>) \<and>
     queues s' = queues s \<and> known_ids s' = known_ids s"
  using reject_spec [OF assms, of c] by (auto simp: andthen_def ret_def)

lemma open_rejects:
  assumes new: "work_order_id (orders s r) \<notin> known_ids s" and ok: "work_order_ok (orders s r)"
    and d: "decide c s r = Rejects t"
  shows "\<exists>s'. open_submission c r s = (Inr (Some \<lparr>dr_work_order = r, dr_assignments = [], rejection_reason = Some t\<rparr>), s') \<and>
    light r s s' \<and> logs [WORK_ORDER_SUBMITTED, WORK_ORDER_REJECTED] s s' \<and> t \<noteq> [] \<and>
    (\<exists>now. orders s' r = (orders s r)\<lparr>status := REJECTED, updated_at := now\<rparr>) \<and>
    known_ids s' = insert (work_order_id (orders s r)) (known_ids s)"
proof -
  let ?s1 = "opened c r s" and ?w = "orders s r"
  have finish: ?thesis
    if e: "open_submission c r s = andthen (reject c r (Some u)) (\<lambda>d. ret (Some d)) s2" and t: "t = strip u" and u: "strip u \<noteq> []"
      and s2: "light r s s2" "logs [WORK_ORDER_SUBMITTED] s s2" "orders s2 = orders s"
        "known_ids s2 = insert (work_order_id (orders s r)) (known_ids s)" for u s2
  proof -
    have "work_order_ok (orders s2 r)" using ok s2 by simp
    from reject_then [OF this u, of c] obtain s' where s': "andthen (reject c r (Some u)) (\<lambda>d. ret (Some d)) s2 =
       (Inr (Some \<lparr>dr_work_order = r, dr_assignments = [], rejection_reason = Some (strip u)\<rparr>), s')"
       "light r s2 s'" "logs [WORK_ORDER_REJECTED] s2 s'" "\<exists>now. orders s' r = (orders s2 r)\<lparr>status := REJECTED, updated_at := now\<rparr>"
       "known_ids s' = known_ids s2" by blast
    have "logs [WORK_ORDER_SUBMITTED, WORK_ORDER_REJECTED] s s'" using logs_trans [OF s2(2) s'(3)] by simp
    with s' s2 e t u light_trans [OF s2(1) s'(2)] show ?thesis by auto
  qed
  consider (status) "status ?w \<noteq> NEW" | (boundary) u where "status ?w = NEW" "validate_boundary c ?w = Inr (False, u)"
    | (check) ck u x where "status ?w = NEW" "validate_boundary c ?w = Inr (True, x)" "pre_check c = Some ck"
        "ck ?w (peek_workload (wo_organization ?w) (wo_asset ?w) s) = (False, Some u)"
    using d by (auto simp: decide_def Let_def split: if_splits sum.splits prod.splits bool.splits option.splits)
  then show ?thesis
  proof cases
    case status
    with d show ?thesis
      by (intro finish [of "not_new_reason (status ?w)" ?s1])
        (auto simp: open_new [OF new] decide_def not_new_nonblank light_opened logs_opened Let_def)
  next
    case boundary
    with d show ?thesis
      by (intro finish [of u ?s1])
        (auto simp: open_new [OF new] decide_def boundary_reason light_opened logs_opened Let_def)
  next
    case check
    let ?s2 = "created (wo_asset ?w) ?s1"
    let ?u = "if strip u = [] then ''Pre-dispatch check failed'' else strip u"
    have f: "strip ''Pre-dispatch check failed'' = ''Pre-dispatch check failed''" by code_simp
    have "pre_dispatch c r ?s2 = andthen (reject c r (Some ?u)) (\<lambda>d. ret (Some d)) ?s2"
      using check by (simp add: pre_dispatch_def peek_workload_def)
    moreover have "andthen (andthen m (\<lambda>d. ret (Some d))) (\<lambda>early. case early of Some d \<Rightarrow> ret (Some d) | None \<Rightarrow> admit c r) s
        = andthen m (\<lambda>d. ret (Some d)) s" for m :: "dispatch_result step" and s
      by (simp add: andthen_def ret_def split: prod.splits sum.splits)
    ultimately have "open_submission c r s = andthen (reject c r (Some ?u)) (\<lambda>d. ret (Some d)) ?s2"
      using check by (simp add: open_new [OF new] Let_def andthen_def)
    moreover have "t = ?u" using check d by (simp add: decide_def Let_def)
    ultimately show ?thesis
    proof (rule_tac finish [of ?u ?s2])
      show "t = strip ?u" using \<open>t = ?u\<close> f by simp
      show "strip ?u \<noteq> []" using f by simp
      show "light r s ?s2" using light_trans [OF light_opened light_created] .
      show "logs [WORK_ORDER_SUBMITTED] s ?s2" using logs_trans [OF logs_opened logs_same [of "?s2" ?s1]] by simp
    qed simp_all
  qed
qed

lemma open_fails:
  assumes new: "work_order_id (orders s r) \<notin> known_ids s" and d: "decide c s r = Fails e"
  shows "\<exists>s'. open_submission c r s = (Inl e, s') \<and> light r s s' \<and> logs [WORK_ORDER_SUBMITTED] s s' \<and>
    orders s' = orders s \<and> known_ids s' = insert (work_order_id (orders s r)) (known_ids s)"
proof -
  let ?s1 = "opened c r s" and ?w = "orders s r"
  consider (boundary) "status ?w = NEW" "validate_boundary c ?w = Inl e"
    | (check) ck x where "status ?w = NEW" "validate_boundary c ?w = Inr (True, x)" "pre_check c = Some ck"
        "ck ?w (peek_workload (wo_organization ?w) (wo_asset ?w) s) = (False, None)" "e = TypeError"
    using d by (auto simp: decide_def Let_def split: if_splits sum.splits prod.splits bool.splits option.splits)
  then show ?thesis
  proof cases
    case boundary
    then show ?thesis by (auto simp: open_new [OF new] Let_def light_opened logs_opened)
  next
    case check
    let ?s2 = "created (wo_asset ?w) ?s1"
    have "pre_dispatch c r ?s2 = (Inl TypeError, ?s2)"
      using check by (simp add: pre_dispatch_def peek_workload_def)
    then have "open_submission c r s = (Inl e, ?s2)"
      using check by (simp add: open_new [OF new] Let_def andthen_def)
    moreover have "light r s ?s2" using light_trans [OF light_opened light_created] .
    moreover have "logs [WORK_ORDER_SUBMITTED] s ?s2" using logs_trans [OF logs_opened logs_same [of "?s2" ?s1]] by simp
    ultimately show ?thesis by auto
  qed
qed

definition admitted :: "engine_config \<Rightarrow> ref \<Rightarrow> engine_state \<Rightarrow> engine_state" where
  "admitted c r s = (let s1 = mark c r ACCEPTED (created (wo_asset (orders s r)) (opened c r s)) in
     emit c WORK_ORDER_ACCEPTED (work_order_id (orders s r)) (dict_update (work_order_payload (orders s1 r)) []) s1)"

lemma admitted_frame [simp]:
  "workloads (admitted c r s) = workloads s" "assignment_log (admitted c r s) = assignment_log s"
  "known_ids (admitted c r s) = insert (work_order_id (orders s r)) (known_ids s)"
  "x \<noteq> r \<Longrightarrow> orders (admitted c r s) x = orders s x"
  by (simp_all add: admitted_def Let_def)

lemma admitted_order: "\<exists>now. orders (admitted c r s) r = (orders s r)\<lparr>status := ACCEPTED, updated_at := now\<rparr>"
  by (simp add: admitted_def Let_def) blast

lemma admitted_queue: "dict_get (queues (admitted c r s)) (wo_asset (orders s r)) \<noteq> None"
  "the_queue a (admitted c r s) = the_queue a s"
proof -
  show "dict_get (queues (admitted c r s)) (wo_asset (orders s r)) \<noteq> None"
    by (simp only: admitted_def Let_def emit_frame mark_frame created_frame not_False_eq_True)
  show "the_queue a (admitted c r s) = the_queue a s"
    by (auto simp: admitted_def Let_def the_queue_def created_def get_or_create_queue_def dict_simps split: option.splits)
qed

lemma light_admitted: "light r s (admitted c r s)"
  unfolding admitted_def Let_def
  by (rule light_trans [OF light_trans [OF light_trans [OF light_opened light_created] light_mark] light_emit])

lemma logs_admitted: "logs [WORK_ORDER_SUBMITTED, WORK_ORDER_ACCEPTED] s (admitted c r s)"
proof -
  let ?s1 = "mark c r ACCEPTED (created (wo_asset (orders s r)) (opened c r s))"
  have "logs [WORK_ORDER_SUBMITTED] s ?s1" using logs_trans [OF logs_opened logs_same [of ?s1]] by simp
  from logs_trans [OF this logs_emit [OF refl]] show ?thesis by (simp add: admitted_def Let_def)
qed

definition stood_down :: "engine_config \<Rightarrow> ref \<Rightarrow> engine_state \<Rightarrow> bool" where
  "stood_down c r s \<longleftrightarrow> (let w = orders (admitted c r s) r in dispatch_window w = COMPLETE \<and>
     \<not> can_assign_fully c (orders (admitted c r s)) w (the_queue (wo_asset w) s))"

lemma open_admits:
  assumes new: "work_order_id (orders s r) \<notin> known_ids s" and ok: "work_order_ok (orders s r)"
    and d: "decide c s r = Admits"
  shows "open_submission c r s = (if stood_down c r s
     then andthen (stand_down c r ''COMPLETE work order could not be fully assigned'') (\<lambda>_.
            ret (Some \<lparr>dr_work_order = r, dr_assignments = [], rejection_reason = None\<rparr>)) (admitted c r s)
     else (Inr None, admitted c r s))"
proof -
  let ?w = "orders s r" and ?s2 = "created (wo_asset (orders s r)) (opened c r s)"
  from d obtain x where b: "status ?w = NEW" "validate_boundary c ?w = Inr (True, x)"
    by (auto simp: decide_def Let_def split: if_splits sum.splits prod.splits bool.splits)
  have pre: "pre_dispatch c r ?s2 = (Inr None, ?s2)"
  proof (cases "pre_check c")
    case (Some ck)
    obtain v u where v: "ck ?w (peek_workload (wo_organization ?w) (wo_asset ?w) s) = (v, u)" by fastforce
    with d b Some have v by (cases v; cases u) (auto simp: decide_def)
    with v Some show ?thesis by (simp add: pre_dispatch_def peek_workload_def)
  qed (simp add: pre_dispatch_def)
  have "open_submission c r s = admit c r ?s2"
    using b by (simp add: open_new [OF new] Let_def andthen_def pre)
  also have "\<dots> = (\<lambda>s. if dispatch_window (orders s r) = COMPLETE \<and>
          \<not> can_assign_fully c (orders s) (orders s r) (the_queue (wo_asset (orders s r)) s)
       then andthen (stand_down c r ''COMPLETE work order could not be fully assigned'') (\<lambda>_.
            ret (Some \<lparr>dr_work_order = r, dr_assignments = [], rejection_reason = None\<rparr>)) s
       else (Inr None, s)) (admitted c r s)"
    using ok by (simp add: admit_def mark_step work_order_ok_valid andthen_publish admitted_def Let_def)
  finally show ?thesis by (simp add: stood_down_def Let_def admitted_queue)
qed

section \<open>Closing a submission\<close>

definition fill_events :: "heap \<Rightarrow> (service_assignment \<times> ref) list \<Rightarrow> dispatch_event_type list" where
  "fill_events h ms = concat (map (\<lambda>(a, x). [ASSIGNMENT_EXECUTED, WORKLOAD_UPDATED,
     if is_fully_assigned (h x) then WORK_ORDER_ASSIGNED else WORK_ORDER_PARTIALLY_ASSIGNED]) ms)"

lemma publish_fills_spec:
  "\<exists>s'. publish_fills c r ms s = (Inr (), s') \<and> orders s' = orders s \<and> queues s' = queues s \<and>
     workloads s' = workloads s \<and> known_ids s' = known_ids s \<and> submitted_count s' = submitted_count s \<and>
     assignment_log s' = assignment_log s @ map fst ms \<and> logs (fill_events (orders s) ms) s s'"
proof (induction ms arbitrary: s)
  case Nil
  show ?case by (simp add: ret_def fill_events_def logs_same)
next
  case (Cons m ms)
  obtain a x where m: "m = (a, x)" by (cases m)
  define s1 where "s1 = s\<lparr>assignment_log := assignment_log s @ [a]\<rparr>"
  obtain s2 where s2: "publish_assignment_event c a r s1 = (Inr (), s2)" "orders s2 = orders s" "queues s2 = queues s"
    "workloads s2 = workloads s" "known_ids s2 = known_ids s" "assignment_log s2 = assignment_log s @ [a]"
    "submitted_count s2 = submitted_count s" "logs [ASSIGNMENT_EXECUTED, WORKLOAD_UPDATED] s s2"
  proof -
    define t where "t = snd (publish_assignment_event c a r s1)"
    have "publish_assignment_event c a r s1 = (Inr (), t)" "orders t = orders s" "queues t = queues s"
      "workloads t = workloads s" "known_ids t = known_ids s" "assignment_log t = assignment_log s @ [a]"
      "submitted_count t = submitted_count s"
      by (simp_all add: t_def publish_assignment_event_def andthen_publish publish_event_emit s1_def)
    moreover have "logs [ASSIGNMENT_EXECUTED, WORKLOAD_UPDATED] s t"
    proof -
      have two: "logs [ty, ty'] s (emit c ty' corr' pl' (emit c ty corr pl s1))" for ty ty' corr corr' pl pl'
        using logs_trans [OF logs_emit [of s1 s ty c corr pl] logs_emit [OF refl]] by (simp add: s1_def)
      show ?thesis unfolding t_def publish_assignment_event_def andthen_publish publish_event_emit snd_conv
        by (rule two)
    qed
    ultimately show thesis using that by simp
  qed
  define ty where "ty = (if is_fully_assigned (orders s x) then WORK_ORDER_ASSIGNED else WORK_ORDER_PARTIALLY_ASSIGNED)"
  obtain s3 where s3: "publish_resting_assignment c x s2 = (Inr (), s3)" "orders s3 = orders s" "queues s3 = queues s"
    "workloads s3 = workloads s" "known_ids s3 = known_ids s" "assignment_log s3 = assignment_log s @ [a]"
    "submitted_count s3 = submitted_count s" "logs [ty] s2 s3"
    using that [of "snd (publish_resting_assignment c x s2)"] s2
    by (simp add: publish_resting_assignment_def publish_work_order_event_emit logs_emit ty_def)
  obtain s4 where s4: "publish_fills c r ms s3 = (Inr (), s4)" "orders s4 = orders s3" "queues s4 = queues s3"
    "workloads s4 = workloads s3" "known_ids s4 = known_ids s3" "submitted_count s4 = submitted_count s3"
    "assignment_log s4 = assignment_log s3 @ map fst ms" "logs (fill_events (orders s3) ms) s3 s4"
    using Cons.IH by blast
  have "publish_fills c r (m # ms) s = (Inr (), s4)"
    using s2(1) s3(1) s4(1) by (simp add: m andthen_def modify_def s1_def)
  moreover have "logs (fill_events (orders s) (m # ms)) s s4"
    using logs_trans [OF logs_trans [OF s2(8) s3(8)] s4(8)] s3(2) by (simp add: m fill_events_def ty_def)
  ultimately show ?case using s4 s3 m by simp
qed

lemma reprice_entries_spec:
  assumes "reprice_entries c a m n ws = (ws', n')"
  shows "map fst ws' = map fst ws \<and> (\<forall>b. net_position b ws' = net_position b ws) \<and>
    (\<forall>(k, w')\<in>set ws'. \<exists>w. (k, w) \<in> set ws \<and> wl_organization w' = wl_organization w \<and> wl_asset w' = wl_asset w \<and>
       net_hours w' = net_hours w \<and> (workload_inv w \<longrightarrow> workload_inv w'))"
  using assms
proof (induction c a m n ws arbitrary: ws' n' rule: reprice_entries.induct)
  case (1 c asset mark n)
  then show ?case by simp
next
  case (2 c asset mark n org a w d)
  show ?case
  proof (cases "a = asset \<and> net_hours w \<noteq> 0")
    case True
    obtain d' k where d': "reprice_entries c asset mark (Suc n) d = (d', k)" by fastforce
    with 2(1) [OF True d'] 2(3) True show ?thesis
      by (fastforce simp: net_position_Cons frame_simps intro: reprice_inv)
  next
    case False
    obtain d' k where d': "reprice_entries c asset mark n d = (d', k)" by fastforce
    with 2(2) [OF False d'] 2(3) False show ?thesis
      by (fastforce simp: net_position_Cons)
  qed
qed

lemma reprice_asset_spec:
  assumes ws: "workloads_ok V (workloads s)"
  shows "\<exists>ws' n. reprice_asset c a m s = (Inr (), s\<lparr>workloads := ws', ticks := n\<rparr>) \<and> workloads_ok V ws' \<and>
     (\<forall>b. net_position b ws' = net_position b (workloads s))"
proof -
  obtain ws' n where r: "reprice_entries c a m (ticks s) (workloads s) = (ws', n)" by fastforce
  note R = reprice_entries_spec [OF r]
  have "workloads_ok V ws'"
    unfolding workloads_ok_def
  proof (intro conjI ballI)
    show "dict_ok ws'" using R ws by (simp add: workloads_ok_def dict_ok_def)
    fix kw assume kw: "kw \<in> set ws'"
    obtain k w' where e: "kw = (k, w')" by (cases kw)
    with R kw obtain w where "(k, w) \<in> set (workloads s)" "wl_organization w' = wl_organization w" "wl_asset w' = wl_asset w"
       "net_hours w' = net_hours w" "workload_inv w \<longrightarrow> workload_inv w'" by blast
    with ws e show "case kw of (k, w) \<Rightarrow> wl_organization w = fst k \<and> wl_asset w = snd k \<and>
     grid (net_hours w) \<and> \<bar>net_hours w\<bar> \<le> V \<and> workload_inv w" by (auto simp: workloads_ok_def)
  qed
  with r R show ?thesis by (auto simp: reprice_asset_def)
qed

definition rests :: "work_order \<Rightarrow> bool" where
  "rests w \<longleftrightarrow> mode w = RATE_CAPPED \<and> dispatch_window w = OPEN"

lemma finalise_full:
  assumes ok: "work_order_ok (orders s r)" and full: "is_fully_assigned (orders s r)"
  shows "\<exists>s' now. finalise c r a as s = (Inr (), s') \<and> light r s s' \<and> queues s' = queues s \<and>
     known_ids s' = known_ids s \<and> logs [WORK_ORDER_ASSIGNED] s s' \<and>
     orders s' r = (orders s r)\<lparr>status := ASSIGNED, updated_at := now\<rparr>"
proof -
  let ?s' = "emit c WORK_ORDER_ASSIGNED (work_order_id (orders s r))
    (dict_update (work_order_payload (orders (mark c r ASSIGNED s) r)) []) (mark c r ASSIGNED s)"
  have "finalise c r a as s = (Inr (), ?s')"
    using ok full by (simp add: finalise_def mark_step work_order_ok_valid publish_work_order_event_emit)
  moreover have "light r s ?s'" by (rule light_trans [OF light_mark light_emit])
  moreover have "logs [WORK_ORDER_ASSIGNED] s ?s'" by (rule logs_emit) simp
  ultimately show ?thesis by (intro exI [of _ ?s'] exI [of _ "Some (clock c (ticks s))"]) simp
qed

definition surfaced :: "engine_config \<Rightarrow> ref \<Rightarrow> service_assignment list \<Rightarrow> engine_state \<Rightarrow> engine_state" where
  "surfaced c r as s = (if as = [] then s else
     emit c WORK_ORDER_PARTIALLY_ASSIGNED (work_order_id (orders s r))
       (dict_update (work_order_payload (orders (mark c r PARTIALLY_ASSIGNED s) r)) []) (mark c r PARTIALLY_ASSIGNED s))"

lemma surfaced_props:
  "light r s (surfaced c r as s)" "queues (surfaced c r as s) = queues s" "known_ids (surfaced c r as s) = known_ids s"
  "logs (if as = [] then [] else [WORK_ORDER_PARTIALLY_ASSIGNED]) s (surfaced c r as s)"
  "\<exists>now. orders (surfaced c r as s) r = (orders s r)\<lparr>status := (if as = [] then status (orders s r) else PARTIALLY_ASSIGNED),
      updated_at := now\<rparr>"
proof -
  show "light r s (surfaced c r as s)" using light_trans [OF light_mark light_emit] by (simp add: surfaced_def)
  show "queues (surfaced c r as s) = queues s" "known_ids (surfaced c r as s) = known_ids s" by (simp_all add: surfaced_def)
  show "logs (if as = [] then [] else [WORK_ORDER_PARTIALLY_ASSIGNED]) s (surfaced c r as s)"
    by (simp add: surfaced_def logs_same logs_emit)
  show "\<exists>now. orders (surfaced c r as s) r = (orders s r)\<lparr>status := (if as = [] then status (orders s r) else PARTIALLY_ASSIGNED),
      updated_at := now\<rparr>"
  proof (cases "as = []")
    case True
    then show ?thesis by (intro exI [of _ "updated_at (orders s r)"]) (simp add: surfaced_def)
  qed (auto simp: surfaced_def)
qed

lemma finalise_residual:
  assumes ok: "work_order_ok (orders s r)" and part: "\<not> is_fully_assigned (orders s r)"
  shows "finalise c r a as s = (let s1 = surfaced c r as s in
     if rests (orders s r)
     then (case add_work_order (orders s1) r (the_queue a s1) of Inl e \<Rightarrow> (Inl e, s1) | Inr q \<Rightarrow> (Inr (), put_queue a q s1))
     else stand_down c r (if dispatch_window (orders s r) = IMMEDIATE
                   then ''IMMEDIATE residual stood down''
                   else ''ANY_RATE work order residual stood down (no capacity)'') s1)"
proof -
  obtain now where o: "orders (surfaced c r as s) r = (orders s r)\<lparr>status := (if as = [] then status (orders s r) else PARTIALLY_ASSIGNED),
      updated_at := now\<rparr>" using surfaced_props(5) by blast
  have pre: "(if as \<noteq> [] then andthen (set_status r PARTIALLY_ASSIGNED) (\<lambda>_. andthen (touch c r) (\<lambda>_.
        publish_work_order_event c WORK_ORDER_PARTIALLY_ASSIGNED r [])) else ret ()) s = (Inr (), surfaced c r as s)"
    using ok by (simp add: mark_step work_order_ok_valid publish_work_order_event_emit surfaced_def ret_def)
  show ?thesis
    using part unfolding finalise_def andthen_def pre
    by (simp add: Let_def rests_def o)
qed

lemma left_over_sub: "set (left_over ok n xs) \<subseteq> fst ` set xs"
  by (induction ok n xs rule: left_over.induct) auto

lemma order_key_rates:
  assumes q: "queue_inv h q" and x: "x \<in> set (book sd q)"
  shows "order_key h x = (if sd = REQUEST then - rate_of h x else rate_of h x)"
proof -
  obtain rt where rt: "max_hourly_rate (h x) = Some rt" "dec_rep rt" using book_ref_rate [OF q x] by blast
  have "side (h x) = sd" using book_ref_side [OF q x] .
  with rt show ?thesis by (simp add: order_key_def level_key_def rate_of_def dec_neg_rep)
qed

text \<open>If the head of the opposite book is out of reach, so is the rest of it.\<close>

lemma unreachable_book:
  assumes q: "queue_inv h q" and w: "mode w = RATE_CAPPED"
    and hd: "book (opposite (side w)) q = [] \<or> \<not> reach w (rate_of h (hd (book (opposite (side w)) q)))"
  shows "\<forall>x\<in>set (book (opposite (side w)) q). \<not> reach w (rate_of h x)"
proof (cases "book (opposite (side w)) q")
  case (Cons y ys)
  have "sorted (map (order_key h) (y # ys))"
    using sorted_side_book [of h "opposite (side w)" "side_queue (opposite (side w)) q"] q Cons
    by (simp add: queue_inv_side book_side)
  then have "\<forall>x\<in>set (y # ys). order_key h y \<le> order_key h x" by auto
  moreover have "\<forall>x\<in>set (y # ys). order_key h x = (if opposite (side w) = REQUEST then - rate_of h x else rate_of h x)"
    using order_key_rates [OF q, of _ "opposite (side w)"] Cons by auto
  ultimately have "\<forall>x\<in>set (y # ys). (if opposite (side w) = REQUEST then rate_of h x \<le> rate_of h y else rate_of h y \<le> rate_of h x)"
    by auto
  then show ?thesis using hd w Cons by (cases "side w") (auto simp: reach_def opposite_def)
qed simp

lemma queue_ok_add:
  assumes q: "queue_ok h known a q" and w: "resting_ok h known a r" and new: "\<not> contains (work_order_id (h r)) q"
    and out: "\<forall>x\<in>set (book (opposite (side (h r))) q). \<not> reach (h r) (rate_of h x)"
  shows "\<exists>q'. add_work_order h r q = Inr q' \<and> queue_ok h known a q' \<and>
     book (side (h r)) q' = enqueue h r (book (side (h r)) q) \<and>
     book (opposite (side (h r))) q' = book (opposite (side (h r))) q"
proof -
  have ok: "work_order_ok (h r)" "mode (h r) = RATE_CAPPED" using w by (simp_all add: resting_ok_def)
  then obtain rt where rt: "max_hourly_rate (h r) = Some rt" "dec_rep rt"
    using incoming_rate by (auto simp: work_order_ok_def)
  from q have qi: "queue_inv h q" by (simp add: queue_ok_def)
  obtain q' where q': "add_work_order h r q = Inr q'" "queue_inv h q'" "dq_asset q' = dq_asset q"
     "book (side (h r)) q' = enqueue h r (book (side (h r)) q)"
     "book (opposite (side (h r))) q' = book (opposite (side (h r))) q"
    using add_work_order_spec [OF qi rt new] by blast
  have refs: "set (all_refs q') = insert r (set (all_refs q))"
    using set_all_refs [of q' "side (h r)"] set_all_refs [of q "side (h r)"] q' by (simp add: set_enqueue)
  have "uncrossed h q'"
  proof (cases "side (h r)")
    case REQUEST
    then have "\<forall>x\<in>set (book OFFER q). rate_of h r < rate_of h x"
      using out ok by (auto simp: reach_def opposite_def rate_of_def)
    moreover have "book OFFER q' = book OFFER q" "set (book REQUEST q') = insert r (set (book REQUEST q))"
      using q' REQUEST by (simp_all add: opposite_def set_enqueue)
    ultimately show ?thesis using q by (auto simp: uncrossed_def queue_ok_def)
  next
    case OFFER
    then have "\<forall>x\<in>set (book REQUEST q). rate_of h x < rate_of h r"
      using out ok by (auto simp: reach_def opposite_def rate_of_def)
    moreover have "book REQUEST q' = book REQUEST q" "set (book OFFER q') = insert r (set (book OFFER q))"
      using q' OFFER by (simp_all add: opposite_def set_enqueue)
    ultimately show ?thesis using q by (auto simp: uncrossed_def queue_ok_def)
  qed
  then have "queue_ok h known a q'" using q q' w refs by (simp add: queue_ok_def)
  with q' show ?thesis by blast
qed

end
