(* ===== verification/SubmitLaws.thy ===== *)
theory SubmitLaws
  imports EngineLaws
begin

text \<open>
  Whole submissions and cancellations: what each outcome returns, changes and publishes, and
  that all of them keep the invariant; so it holds in every reachable state.
\<close>

section \<open>A matched submission\<close>

text \<open>The greedy allocation of an order over the opposite book of its asset.\<close>

definition allocation :: "engine_state \<Rightarrow> ref \<Rightarrow> (ref \<times> rat \<times> rat) list" where
  "allocation s r = (let w = orders s r in
     pour (reach w) (remaining_hours w)
       (offers_of (orders s) (book (opposite (side w)) (the_queue (wo_asset w) s))))"

definition residual_book :: "engine_state \<Rightarrow> ref \<Rightarrow> ref list" where
  "residual_book s r = (let w = orders s r in
     left_over (reach w) (remaining_hours w)
       (offers_of (orders s) (book (opposite (side w)) (the_queue (wo_asset w) s))))"

lemma get_queue_light:
  "light r s s' \<Longrightarrow> the_queue a s' = the_queue a s"
  unfolding light_def the_queue_def by (metis option.simps(4,5))

lemma fill_events_cong:
  "\<forall>m\<in>set ms. is_fully_assigned (h' (snd m)) = is_fully_assigned (h (snd m)) \<Longrightarrow> fill_events h' ms = fill_events h ms"
  unfolding fill_events_def by (intro arg_cong [where f = concat] map_cong) auto

lemma loop_inv_admitted:
  assumes i: "engine_inv s" and ok: "work_order_ok (orders s r)" and new: "work_order_id (orders s r) \<notin> known_ids s"
  shows "loop_inv (2 * volume s) r (wo_asset (orders s r)) (admitted c r s)"
proof -
  have ap: "apart r (queues s)" using unknown_apart [OF i new] .
  obtain now where o: "orders (admitted c r s) r = (orders s r)\<lparr>status := ACCEPTED, updated_at := now\<rparr>"
    using admitted_order by blast
  have "engine_inv (admitted c r s)" using engine_inv_light [OF i light_admitted ap] .
  moreover have "volume (admitted c r s) = volume s" by (simp add: volume_def)
  ultimately show ?thesis using ok admitted_queue(1) apart_light [OF light_admitted ap] i
    by (simp add: loop_inv_def engine_inv_def o)
qed

lemma match_admitted:
  assumes ks: "sorted_keys (key_enum c)" and i: "engine_inv s" and ok: "work_order_ok (orders s r)"
    and new: "work_order_id (orders s r) \<notin> known_ids s"
    and bound: "2 * volume s + 2 * remaining_hours (orders s r) < 10 ^ 20"
  shows "\<exists>ms s2. match_loop c (wo_asset (orders s r)) r [] (admitted c r s) = Some (Inr ms, s2) \<and>
      map fill_of ms = allocation s r \<and> (\<forall>m\<in>set ms. names (orders s) r m) \<and>
      loop_inv (2 * volume s + 2 * poured (allocation s r)) r (wo_asset (orders s r)) s2 \<and>
      turn_frame r (wo_asset (orders s r)) (poured (allocation s r)) (admitted c r s) s2 \<and>
      opp_book (wo_asset (orders s r)) r s2 = residual_book s r \<and>
      remaining_hours (orders s2 r) = remaining_hours (orders s r) - poured (allocation s r) \<and>
      (\<forall>(x, h, p)\<in>set (allocation s r). remaining_hours (orders s2 x) = remaining_hours (orders s x) - h) \<and>
      (remaining_hours (orders s2 r) = 0 \<or> opp_book (wo_asset (orders s r)) r s2 = [] \<or>
       \<not> reach (orders s2 r) (rate_of (orders s2) (hd (opp_book (wo_asset (orders s r)) r s2))))"
proof -
  let ?a = "wo_asset (orders s r)" and ?s1 = "admitted c r s"
  obtain now where o: "orders ?s1 r = (orders s r)\<lparr>status := ACCEPTED, updated_at := now\<rparr>"
    using admitted_order by blast
  have rem: "remaining_hours (orders ?s1 r) = remaining_hours (orders s r)" by (simp add: o remaining_hours_def)
  have rch: "reach (orders ?s1 r) = reach (orders s r)" by (simp add: o reach_def [abs_def])
  let ?bk = "book (opposite (side (orders s r))) (the_queue ?a s)"
  have ob: "opp_book ?a r ?s1 = ?bk"
    by (simp add: opp_book_def o admitted_queue)
  have ap: "apart r (queues s)" using unknown_apart [OF i new] .
  have rnot: "r \<notin> set ?bk"
  proof (cases "dict_get (queues s) ?a")
    case None
    then show ?thesis by (auto simp: the_queue_def dest: in_book)
  next
    case (Some q)
    then show ?thesis using ap by (auto simp: the_queue_get apart_def dest: in_book)
  qed
  have ne: "orders ?s1 x = orders s x" if "x \<in> set ?bk" for x
  proof -
    have "x \<noteq> r" using that rnot by blast
    then show ?thesis by simp
  qed
  have view: "offers_of (orders ?s1) ?bk = offers_of (orders s) ?bk"
    using ne by (simp add: offers_of_def rate_of_def)
  have al: "pour (reach (orders ?s1 r)) (remaining_hours (orders ?s1 r)) (offers_of (orders ?s1) ?bk) = allocation s r"
    "left_over (reach (orders ?s1 r)) (remaining_hours (orders ?s1 r)) (offers_of (orders ?s1) ?bk) = residual_book s r"
    by (simp_all add: allocation_def residual_book_def Let_def rem rch view)
  have nm: "names (orders ?s1) r m = names (orders s) r m" for m
  proof -
    have "same_terms (orders s) (orders ?s1) x \<and> wo_asset (orders ?s1 x) = wo_asset (orders s x)" for x
      by (cases "x = r") (simp_all add: o same_terms_def)
    then show ?thesis unfolding names_def same_terms_def by metis
  qed
  have sub: "fst ` set (allocation s r) \<subseteq> set ?bk"
    using pour_fst [of "reach (orders s r)" "remaining_hours (orders s r)" "offers_of (orders s) ?bk"]
    by (auto simp: allocation_def Let_def offers_of_def)
  have touched: "\<forall>(x, h, p)\<in>set (allocation s r). orders ?s1 x = orders s x"
    using sub ne by force
  have b: "2 * volume s + 2 * remaining_hours (orders ?s1 r) < 10 ^ 20" using bound rem by simp
  note L = match_loop_spec [OF ks loop_inv_admitted [OF i ok new] ob b, of "[]", unfolded rem nm append_Nil, unfolded al [unfolded rem]]
  then obtain ms s2 where M: "match_loop c ?a r [] ?s1 = Some (Inr ms, s2)"
      "map fill_of ms = allocation s r"
      "loop_inv (2 * volume s + 2 * poured (map fill_of ms)) r ?a s2"
      "turn_frame r ?a (poured (map fill_of ms)) ?s1 s2"
      "opp_book ?a r s2 = residual_book s r"
      "remaining_hours (orders s2 r) = remaining_hours (orders s r) - poured (map fill_of ms)"
      "\<forall>(x, h, p)\<in>set (map fill_of ms). remaining_hours (orders s2 x) = remaining_hours (orders ?s1 x) - h"
      "remaining_hours (orders s2 r) = 0 \<or> opp_book ?a r s2 = [] \<or>
       \<not> reach (orders s2 r) (rate_of (orders s2) (hd (opp_book ?a r s2)))"
      "\<forall>m\<in>set ms. names (orders s) r m" by blast
  have "\<forall>(x, h, p)\<in>set (allocation s r). remaining_hours (orders s2 x) = remaining_hours (orders s x) - h"
    using M(2,7) touched by fastforce
  with M(1,2,9) M(3-8) [unfolded M(2)] show ?thesis by blast
qed

text \<open>After the match the log is extended, the asset is marked, and the books balance again.\<close>

lemma hours_of_fills: "sum_list (map hours (map fst ms)) = poured (map fill_of ms)"
  by (induction ms) (auto simp: fill_of_def poured_def)

lemma after_match:
  assumes l: "loop_inv (2 * volume s + 2 * poured (map fill_of ms)) r a s2"
    and log: "assignment_log s2 = assignment_log s" and nn: "0 \<le> volume s" "0 \<le> poured (map fill_of ms)"
    and net: "\<forall>b. net_position b (workloads s2) = 0"
  shows "\<exists>s4. andthen (publish_fills c r ms) (\<lambda>_. andthen
       (\<lambda>s. if ms \<noteq> [] then reprice_asset c (wo_asset (orders s r)) (hourly_rate (fst (last ms))) s else (Inr (), s)) f) s2
       = f () s4 \<and> engine_inv s4 \<and> orders s4 = orders s2 \<and> queues s4 = queues s2 \<and> known_ids s4 = known_ids s2 \<and>
       assignment_log s4 = assignment_log s @ map fst ms \<and> logs (fill_events (orders s2) ms) s2 s4"
proof -
  obtain s3 where s3: "publish_fills c r ms s2 = (Inr (), s3)" "orders s3 = orders s2" "queues s3 = queues s2"
     "workloads s3 = workloads s2" "known_ids s3 = known_ids s2" "assignment_log s3 = assignment_log s2 @ map fst ms"
     "logs (fill_events (orders s2) ms) s2 s3" using publish_fills_spec [of c r ms s2] by blast
  have vol: "volume s3 = volume s + poured (map fill_of ms)"
    by (simp add: volume_def s3(6) log hours_of_fills [symmetric])
  have ws: "workloads_ok (2 * volume s3) (workloads s3)" using l by (simp add: vol s3(4) loop_inv_def distrib_left)
  have i3: "engine_inv s3" using l ws net nn by (simp add: engine_inv_def vol s3 loop_inv_def)
  show ?thesis
  proof (cases "ms = []")
    case True
    with s3 i3 log show ?thesis by (intro exI [of _ s3]) (simp add: andthen_def)
  next
    case False
    obtain ws' n where r: "reprice_asset c (wo_asset (orders s3 r)) (hourly_rate (fst (last ms))) s3 =
        (Inr (), s3\<lparr>workloads := ws', ticks := n\<rparr>)" "workloads_ok (2 * volume s3) ws'"
        "\<forall>b. net_position b ws' = net_position b (workloads s3)"
      using reprice_asset_spec [OF ws] by blast
    define s4 where "s4 = s3\<lparr>workloads := ws', ticks := n\<rparr>"
    have "engine_inv s4" using i3 r(2,3) by (simp add: engine_inv_def s4_def volume_def)
    moreover have "logs (fill_events (orders s2) ms) s2 s4"
      using logs_trans [OF s3(7) logs_same [of s4 s3]] by (simp add: s4_def)
    ultimately show ?thesis using False s3 r(1) log
      by (intro exI [of _ s4]) (simp add: andthen_def s4_def)
  qed
qed

definition closing_events :: "work_order \<Rightarrow> rat \<Rightarrow> bool \<Rightarrow> dispatch_event_type list" where
  "closing_events w got filled_some =
     (if got = remaining_hours w then [WORK_ORDER_ASSIGNED]
      else (if filled_some then [WORK_ORDER_PARTIALLY_ASSIGNED] else []) @ (if rests w then [] else [WORK_ORDER_CANCELLED]))"

definition final_status :: "work_order \<Rightarrow> rat \<Rightarrow> bool \<Rightarrow> work_order_status" where
  "final_status w got filled_some =
     (if got = remaining_hours w then ASSIGNED
      else if rests w then (if filled_some then PARTIALLY_ASSIGNED else ACCEPTED) else CANCELLED)"

lemma finalise_spec:
  assumes i: "engine_inv s" and ok: "work_order_ok (orders s r)" and ap: "apart r (queues s)"
    and get: "dict_get (queues s) (wo_asset (orders s r)) \<noteq> None" and known: "work_order_id (orders s r) \<in> known_ids s"
    and st: "status (orders s r) = ACCEPTED"
    and out: "remaining_hours (orders s r) = 0 \<or> opp_book (wo_asset (orders s r)) r s = [] \<or>
       \<not> reach (orders s r) (rate_of (orders s) (hd (opp_book (wo_asset (orders s r)) r s)))"
    and new: "\<not> contains (work_order_id (orders s r)) (the_queue (wo_asset (orders s r)) s)"
  shows "\<exists>s' now. finalise c r (wo_asset (orders s r)) as s = (Inr (), s') \<and> engine_inv s' \<and>
     assignment_log s' = assignment_log s \<and> known_ids s' = known_ids s \<and> (\<forall>x. x \<noteq> r \<longrightarrow> orders s' x = orders s x) \<and>
     orders s' r = (orders s r)\<lparr>status := (if remaining_hours (orders s r) = 0 then ASSIGNED
        else if rests (orders s r) then (if as = [] then ACCEPTED else PARTIALLY_ASSIGNED) else CANCELLED), updated_at := now\<rparr> \<and>
     book (opposite (side (orders s r))) (the_queue (wo_asset (orders s r)) s') = opp_book (wo_asset (orders s r)) r s \<and>
     book (side (orders s r)) (the_queue (wo_asset (orders s r)) s') =
       (if rests (orders s r) \<and> remaining_hours (orders s r) \<noteq> 0
        then enqueue (orders s') r (book (side (orders s r)) (the_queue (wo_asset (orders s r)) s))
        else book (side (orders s r)) (the_queue (wo_asset (orders s r)) s)) \<and>
     logs (if remaining_hours (orders s r) = 0 then [WORK_ORDER_ASSIGNED]
           else (if as = [] then [] else [WORK_ORDER_PARTIALLY_ASSIGNED]) @
                (if rests (orders s r) then [] else [WORK_ORDER_CANCELLED])) s s'"
proof -
  let ?w = "orders s r" and ?a = "wo_asset (orders s r)"
  have full: "is_fully_assigned ?w \<longleftrightarrow> remaining_hours ?w = 0" using ok by (rule fully_assigned_iff)
  show ?thesis
  proof (cases "remaining_hours ?w = 0")
    case True
    obtain s' now where s': "finalise c r ?a as s = (Inr (), s')" "light r s s'" "queues s' = queues s"
       "known_ids s' = known_ids s" "logs [WORK_ORDER_ASSIGNED] s s'" "orders s' r = ?w\<lparr>status := ASSIGNED, updated_at := now\<rparr>"
      using finalise_full [of s r c ?a as] ok full True by blast
    have "engine_inv s'" using engine_inv_light [OF i s'(2) ap] .
    then show ?thesis using s' True get_queue_light [OF s'(2)]
      by (intro exI [of _ s'] exI [of _ now]) (simp add: light_def opp_book_def)
  next
    case False
    let ?s1 = "surfaced c r as s"
    note S = surfaced_props [where r = r and s = s and c = c and as = as]
    obtain now where o: "orders ?s1 r = ?w\<lparr>status := (if as = [] then status ?w else PARTIALLY_ASSIGNED), updated_at := now\<rparr>"
      using S(5) by blast
    have fin: "finalise c r ?a as s = (if rests ?w
     then (case add_work_order (orders ?s1) r (the_queue ?a ?s1) of Inl e \<Rightarrow> (Inl e, ?s1) | Inr q \<Rightarrow> (Inr (), put_queue ?a q ?s1))
     else stand_down c r (if dispatch_window ?w = IMMEDIATE
                   then ''IMMEDIATE residual stood down''
                   else ''ANY_RATE work order residual stood down (no capacity)'') ?s1)"
      using finalise_residual [of s r c ?a as] ok full False by (simp add: Let_def)
    have i1: "engine_inv ?s1" using engine_inv_light [OF i S(1) ap] .
    have tq: "the_queue ?a ?s1 = the_queue ?a s" by (rule get_queue_light [OF S(1)])
    have ok1: "work_order_ok (orders ?s1 r)" using ok by (simp add: o)
    show ?thesis
    proof (cases "rests ?w")
      case rs: True
      let ?q = "the_queue ?a s"
      have q: "queue_ok (orders ?s1) (known_ids ?s1) ?a ?q"
        using i1 get S(2) by (auto simp: engine_inv_def the_queue_get dest: market_ok_get)
      have "0 < remaining_hours (orders ?s1 r)"
        using False remaining_hours_nonneg [OF ok] by (simp add: o remaining_hours_def)
      then have ro: "resting_ok (orders ?s1) (known_ids ?s1) ?a r"
        using rs ok st known S(3) ok1 by (simp add: resting_ok_def o rests_def)
      have rates: "rate_of (orders ?s1) x = rate_of (orders s) x" for x
        using S(1) o by (cases "x = r") (auto simp: light_def rate_of_def)
      have rch: "reach (orders ?s1 r) = reach ?w" by (simp add: o reach_def [abs_def])
      have qi: "queue_inv (orders ?s1) ?q" using q by (simp add: queue_ok_def)
      have "\<forall>x\<in>set (book (opposite (side (orders ?s1 r))) ?q). \<not> reach (orders ?s1 r) (rate_of (orders ?s1) x)"
        using out False rs by (intro unreachable_book [OF qi]) (auto simp: o rests_def opp_book_def rch [unfolded o] rates)
      moreover have "\<not> contains (work_order_id (orders ?s1 r)) ?q" using new by (simp add: o)
      ultimately obtain q' where q': "add_work_order (orders ?s1) r ?q = Inr q'" "queue_ok (orders ?s1) (known_ids ?s1) ?a q'"
        "book (side (orders ?s1 r)) q' = enqueue (orders ?s1) r (book (side (orders ?s1 r)) ?q)"
        "book (opposite (side (orders ?s1 r))) q' = book (opposite (side (orders ?s1 r))) ?q"
        using queue_ok_add [OF q ro] by blast
      let ?s' = "put_queue ?a q' ?s1"
      have "market_ok (orders ?s1) (known_ids ?s1) (dict_set ?a q' (queues ?s1))"
        using i1 q'(2) by (intro market_ok_update) (auto simp: engine_inv_def)
      then have "engine_inv ?s'" using i1 by (simp add: engine_inv_def volume_def)
      moreover have "logs (if as = [] then [] else [WORK_ORDER_PARTIALLY_ASSIGNED]) s ?s'"
        using logs_trans [OF S(4) logs_same [of ?s' ?s1]] by simp
      moreover have "finalise c r ?a as s = (Inr (), ?s')" using fin rs tq q'(1) by simp
      ultimately show ?thesis using rs False S(1,3) q' st o
        by (intro exI [of _ ?s'] exI [of _ now]) (auto simp: light_def opp_book_def)
    next
      case rs: False
      obtain s' where s': "stand_down c r (if dispatch_window ?w = IMMEDIATE
                   then ''IMMEDIATE residual stood down''
                   else ''ANY_RATE work order residual stood down (no capacity)'') ?s1 = (Inr (), s')"
        "light r ?s1 s'" "logs [WORK_ORDER_CANCELLED] ?s1 s'"
        "\<exists>now. orders s' r = (orders ?s1 r)\<lparr>status := CANCELLED, updated_at := now\<rparr>" "queues s' = queues ?s1" "known_ids s' = known_ids ?s1"
        using stand_down_spec [OF ok1, of c] by blast
      then obtain now' where o': "orders s' r = ?w\<lparr>status := CANCELLED, updated_at := now'\<rparr>" by (auto simp: o)
      have lt: "light r s s'" using light_trans [OF S(1) s'(2)] .
      have "engine_inv s'" using engine_inv_light [OF i lt ap] .
      moreover have "logs ((if as = [] then [] else [WORK_ORDER_PARTIALLY_ASSIGNED]) @ [WORK_ORDER_CANCELLED]) s s'"
        using logs_trans [OF S(4) s'(3)] .
      ultimately show ?thesis using fin rs False s' o' lt get_queue_light [OF lt] S(3)
        by (intro exI [of _ s'] exI [of _ now']) (auto simp: light_def opp_book_def)
    qed
  qed
qed

lemma fresh_in_queue:
  assumes i: "engine_inv s" and new: "work_order_id (orders s r) \<notin> known_ids s" and x: "x \<in> set (all_refs (the_queue a s))"
  shows "work_order_id (orders s x) \<noteq> work_order_id (orders s r)" "x \<noteq> r"
proof -
  obtain q where "dict_get (queues s) a = Some q" "the_queue a s = q"
    using x by (cases "dict_get (queues s) a") (auto simp: the_queue_def)
  then have "queue_ok (orders s) (known_ids s) a (the_queue a s)" using i by (auto simp: engine_inv_def dest: market_ok_get)
  with x new show "work_order_id (orders s x) \<noteq> work_order_id (orders s r)" by (auto simp: queue_ok_def resting_ok_def)
  then show "x \<noteq> r" by auto
qed

text \<open>What a matched submission leaves, relative to the state before it.\<close>

definition matched_outcome ::
  "engine_config \<Rightarrow> engine_state \<Rightarrow> ref \<Rightarrow> (service_assignment \<times> ref) list \<Rightarrow> engine_state \<Rightarrow> bool" where
  "matched_outcome c s r ms s' \<longleftrightarrow>
     (let w = orders s r; a = wo_asset w; F = allocation s r; got = poured F in
      map fill_of ms = F \<and> (\<forall>m\<in>set ms. names (orders s) r m) \<and>
      assignment_log s' = assignment_log s @ map fst ms \<and>
      known_ids s' = insert (work_order_id w) (known_ids s) \<and>
      (\<exists>av now. orders s' r = w\<lparr>status := final_status w got (F \<noteq> []), assigned_hours := assigned_hours w + got,
         average_rate := av, updated_at := now\<rparr>) \<and>
      (\<forall>(x, h, p)\<in>set F. remaining_hours (orders s' x) = remaining_hours (orders s x) - h) \<and>
      (\<forall>x. x \<noteq> r \<and> x \<notin> set (book (opposite (side w)) (the_queue a s)) \<longrightarrow> orders s' x = orders s x) \<and>
      book (opposite (side w)) (the_queue a s') = residual_book s r \<and>
      book (side w) (the_queue a s') =
        (if rests w \<and> got \<noteq> remaining_hours w then enqueue (orders s') r (book (side w) (the_queue a s))
         else book (side w) (the_queue a s)) \<and>
      logs ([WORK_ORDER_SUBMITTED, WORK_ORDER_ACCEPTED] @ fill_events (orders s') ms @ closing_events w got (F \<noteq> [])) s s')"

lemma submit_matched_state:
  assumes ks: "sorted_keys (key_enum c)" and i: "engine_inv s" and ok: "work_order_ok (orders s r)"
    and new: "work_order_id (orders s r) \<notin> known_ids s"
    and bound: "2 * volume s + 2 * remaining_hours (orders s r) < 10 ^ 20"
    and d: "decide c s r = Admits" and nsd: "\<not> stood_down c r s"
  shows "\<exists>ms s'. submit_work_order c r s =
      Some (Inr \<lparr>dr_work_order = r, dr_assignments = map fst ms, rejection_reason = None\<rparr>, s') \<and>
      engine_inv s' \<and> matched_outcome c s r ms s'"
proof -
  let ?w = "orders s r" and ?a = "wo_asset (orders s r)" and ?s1 = "admitted c r s" and ?got = "poured (allocation s r)"
  let ?bk = "book (opposite (side (orders s r))) (the_queue (wo_asset (orders s r)) s)"
  obtain ms s2 where M: "match_loop c ?a r [] ?s1 = Some (Inr ms, s2)" "map fill_of ms = allocation s r"
      "\<forall>m\<in>set ms. names (orders s) r m" "loop_inv (2 * volume s + 2 * ?got) r ?a s2"
      "turn_frame r ?a ?got ?s1 s2" "opp_book ?a r s2 = residual_book s r"
      "remaining_hours (orders s2 r) = remaining_hours ?w - ?got"
      "\<forall>(x, h, p)\<in>set (allocation s r). remaining_hours (orders s2 x) = remaining_hours (orders s x) - h"
      "remaining_hours (orders s2 r) = 0 \<or> opp_book ?a r s2 = [] \<or>
       \<not> reach (orders s2 r) (rate_of (orders s2) (hd (opp_book ?a r s2)))"
    using match_admitted [OF ks i ok new bound] by blast
  obtain now where o1: "orders ?s1 r = ?w\<lparr>status := ACCEPTED, updated_at := now\<rparr>" using admitted_order by blast
  note F = turn_frame_fields [OF M(5), unfolded o1, simplified]
  obtain av nw where o2: "orders s2 r = ?w\<lparr>status := ACCEPTED, average_rate := av, assigned_hours := assigned_hours ?w + ?got, updated_at := nw\<rparr>"
  proof -
    obtain av nw where e: "orders s2 r = (if ?got = 0 then orders ?s1 r else
         (orders ?s1 r)\<lparr>average_rate := av, assigned_hours := assigned_hours (orders ?s1 r) + ?got, updated_at := nw\<rparr>)"
      using M(5) unfolding turn_frame_def by blast
    show thesis
    proof (cases "?got = 0")
      case True
      then show thesis using e o1 by (intro that [where av = "average_rate ?w" and nw = now]) simp
    next
      case False
      then show thesis using e o1 by (intro that [where av = av and nw = nw]) simp
    qed
  qed
  have frame: "assignment_log s2 = assignment_log s" "known_ids s2 = insert (work_order_id ?w) (known_ids s)"
     "\<forall>b. net_position b (workloads s2) = 0" "bus s2 = bus ?s1"
    using M(5) i unfolding turn_frame_def engine_inv_def by simp_all
  have pos: "\<forall>x\<in>set ?bk. 0 < remaining_hours (orders s x)"
    using opp_resting [OF loop_inv_admitted [OF i ok new, of c]] fresh_in_queue(2) [OF i new in_book]
    by (auto simp: opp_book_def o1 admitted_queue resting_ok_def)
  have got: "0 \<le> ?got"
  proof -
    have "\<forall>(x, h, p)\<in>set (offers_of (orders s) ?bk). 0 < h" using pos by (auto simp: offers_of_def)
    from pour_bounds [OF this] show ?thesis by (simp add: allocation_def Let_def)
  qed
  have nn: "0 \<le> volume s" "0 \<le> poured (map fill_of ms)" using i got M(2) by (simp_all add: engine_inv_def)
  have l2: "loop_inv (2 * volume s + 2 * poured (map fill_of ms)) r ?a s2" using M(2,4) by simp
  obtain s4 where s4: "close_submission c r ?a ms s2 = andthen (finalise c r ?a (map fst ms))
       (\<lambda>_. ret \<lparr>dr_work_order = r, dr_assignments = map fst ms, rejection_reason = None\<rparr>) s4" "engine_inv s4"
     "orders s4 = orders s2" "queues s4 = queues s2" "known_ids s4 = known_ids s2"
     "assignment_log s4 = assignment_log s @ map fst ms" "logs (fill_events (orders s2) ms) s2 s4"
    using after_match [OF l2 frame(1) nn frame(3), of c
      "\<lambda>_. andthen (finalise c r ?a (map fst ms)) (\<lambda>_. ret \<lparr>dr_work_order = r, dr_assignments = map fst ms, rejection_reason = None\<rparr>)"]
    unfolding close_submission_def by blast
  have tq4: "the_queue b s4 = the_queue b s2" for b by (simp add: the_queue_def s4)
  have own: "book (side ?w) (the_queue ?a s2) = book (side ?w) (the_queue ?a s)"
    using M(5) unfolding turn_frame_def by (simp add: o1 admitted_queue)
  have refs2: "set (all_refs (the_queue ?a s2)) \<subseteq> set (all_refs (the_queue ?a s))"
  proof -
    have "set (residual_book s r) \<subseteq> set ?bk"
      using left_over_sub [of "reach ?w" "remaining_hours ?w" "offers_of (orders s) ?bk"]
      by (auto simp: residual_book_def Let_def offers_of_def)
    then show ?thesis using own M(6) set_all_refs [of "the_queue ?a s2" "side ?w"] set_all_refs [of "the_queue ?a s" "side ?w"]
      by (auto simp: opp_book_def o2)
  qed
  have terms: "same_terms (orders s) (orders s2) x" for x
    using M(5) o1 unfolding turn_frame_def same_terms_def by (cases "x = r") auto
  have ok2: "work_order_ok (orders s2 r)" using M(4) by (simp add: loop_inv_def)
  have q2: "queue_inv (orders s2) (the_queue ?a s2)"
    using M(4) by (auto simp: loop_inv_def the_queue_get queue_ok_def dest: market_ok_get)
  have newq: "\<not> contains (work_order_id (orders s4 r)) (the_queue (wo_asset (orders s4 r)) s4)"
    using contains_iff [OF q2, of "work_order_id ?w"] refs2 fresh_in_queue(1) [OF i new] terms
    by (auto simp: s4 o2 tq4 same_terms_def)
  have F4: "wo_asset (orders s4 r) = ?a" "status (orders s4 r) = ACCEPTED" "side (orders s4 r) = side ?w"
    "work_order_id (orders s4 r) = work_order_id ?w" "rests (orders s4 r) = rests ?w"
    "remaining_hours (orders s4 r) = remaining_hours ?w - ?got" "opp_book ?a r s4 = residual_book s r"
    using M(6,7) by (simp_all add: s4 o2 rests_def opp_book_def tq4)
  have "\<exists>s' now. finalise c r (wo_asset (orders s4 r)) (map fst ms) s4 = (Inr (), s') \<and> engine_inv s' \<and>
     assignment_log s' = assignment_log s4 \<and> known_ids s' = known_ids s4 \<and> (\<forall>x. x \<noteq> r \<longrightarrow> orders s' x = orders s4 x) \<and>
     orders s' r = (orders s4 r)\<lparr>status := (if remaining_hours (orders s4 r) = 0 then ASSIGNED
        else if rests (orders s4 r) then (if map fst ms = [] then ACCEPTED else PARTIALLY_ASSIGNED) else CANCELLED), updated_at := now\<rparr> \<and>
     book (opposite (side (orders s4 r))) (the_queue (wo_asset (orders s4 r)) s') = opp_book (wo_asset (orders s4 r)) r s4 \<and>
     book (side (orders s4 r)) (the_queue (wo_asset (orders s4 r)) s') =
       (if rests (orders s4 r) \<and> remaining_hours (orders s4 r) \<noteq> 0
        then enqueue (orders s') r (book (side (orders s4 r)) (the_queue (wo_asset (orders s4 r)) s4))
        else book (side (orders s4 r)) (the_queue (wo_asset (orders s4 r)) s4)) \<and>
     logs (if remaining_hours (orders s4 r) = 0 then [WORK_ORDER_ASSIGNED]
           else (if map fst ms = [] then [] else [WORK_ORDER_PARTIALLY_ASSIGNED]) @
                (if rests (orders s4 r) then [] else [WORK_ORDER_CANCELLED])) s4 s'"
  proof (rule finalise_spec [OF s4(2) _ _ _ _ F4(2) _ newq])
    show "work_order_ok (orders s4 r)" "apart r (queues s4)" "dict_get (queues s4) (wo_asset (orders s4 r)) \<noteq> None"
      using M(4) by (auto simp: loop_inv_def s4 F4(1)[unfolded s4] o2)
    show "work_order_id (orders s4 r) \<in> known_ids s4" by (simp add: s4 o2 frame)
    show "remaining_hours (orders s4 r) = 0 \<or> opp_book (wo_asset (orders s4 r)) r s4 = [] \<or>
       \<not> reach (orders s4 r) (rate_of (orders s4) (hd (opp_book (wo_asset (orders s4 r)) r s4)))"
      using M(9) unfolding F4(1) by (simp add: s4 opp_book_def tq4)
  qed
  then obtain s' nw' where S: "finalise c r ?a (map fst ms) s4 = (Inr (), s')" "engine_inv s'"
     "assignment_log s' = assignment_log s4" "known_ids s' = known_ids s4" "\<forall>x. x \<noteq> r \<longrightarrow> orders s' x = orders s4 x"
     "orders s' r = (orders s4 r)\<lparr>status := (if remaining_hours ?w - ?got = 0 then ASSIGNED
        else if rests ?w then (if map fst ms = [] then ACCEPTED else PARTIALLY_ASSIGNED) else CANCELLED), updated_at := nw'\<rparr>"
     "book (opposite (side ?w)) (the_queue ?a s') = residual_book s r"
     "book (side ?w) (the_queue ?a s') = (if rests ?w \<and> remaining_hours ?w - ?got \<noteq> 0
        then enqueue (orders s') r (book (side ?w) (the_queue ?a s4)) else book (side ?w) (the_queue ?a s4))"
     "logs (if remaining_hours ?w - ?got = 0 then [WORK_ORDER_ASSIGNED]
           else (if map fst ms = [] then [] else [WORK_ORDER_PARTIALLY_ASSIGNED]) @
                (if rests ?w then [] else [WORK_ORDER_CANCELLED])) s4 s'"
    unfolding F4 by blast
  have run: "submit_work_order c r s = Some (Inr \<lparr>dr_work_order = r, dr_assignments = map fst ms, rejection_reason = None\<rparr>, s')"
    using open_admits [OF new ok d] nsd M(1) s4(1) S(1)
    by (simp add: submit_work_order_def Let_def o1 andthen_def ret_def)
  have ne: "map fst ms = [] \<longleftrightarrow> allocation s r = []" using M(2) by auto
  have eq0: "remaining_hours ?w - ?got = 0 \<longleftrightarrow> ?got = remaining_hours ?w" by auto
  have alloc_r: "\<forall>(x, h, p)\<in>set (allocation s r). x \<noteq> r"
    using pour_fst [of "reach ?w" "remaining_hours ?w" "offers_of (orders s) ?bk"] fresh_in_queue(2) [OF i new in_book]
    by (force simp: allocation_def Let_def offers_of_def)
  have out: "matched_outcome c s r ms s'"
    unfolding matched_outcome_def Let_def
  proof (intro conjI)
    show "map fill_of ms = allocation s r" "\<forall>m\<in>set ms. names (orders s) r m" by fact+
    show "assignment_log s' = assignment_log s @ map fst ms" using S(3) s4(6) by simp
    show "known_ids s' = insert (work_order_id ?w) (known_ids s)" using S(4) s4(5) frame(2) by simp
    show "\<exists>av now. orders s' r = ?w\<lparr>status := final_status ?w ?got (allocation s r \<noteq> []),
        assigned_hours := assigned_hours ?w + ?got, average_rate := av, updated_at := now\<rparr>"
      using S(6) unfolding s4(3) o2 final_status_def ne eq0
      by (intro exI [of _ av] exI [of _ nw']) (simp split: if_splits)
    show "\<forall>(x, h, p)\<in>set (allocation s r). remaining_hours (orders s' x) = remaining_hours (orders s x) - h"
      using M(8) alloc_r S(5) s4(3) by fastforce
    show "\<forall>x. x \<noteq> r \<and> x \<notin> set ?bk \<longrightarrow> orders s' x = orders s x"
      using M(5) S(5) s4(3) unfolding turn_frame_def by (simp add: opp_book_def o1 admitted_queue)
    show "book (opposite (side ?w)) (the_queue ?a s') = residual_book s r" by fact
    show "book (side ?w) (the_queue ?a s') = (if rests ?w \<and> ?got \<noteq> remaining_hours ?w
        then enqueue (orders s') r (book (side ?w) (the_queue ?a s)) else book (side ?w) (the_queue ?a s))"
      using S(8) unfolding tq4 own by auto
    have "snd m \<noteq> r" if "m \<in> set ms" for m
    proof -
      have "fill_of m \<in> set (allocation s r)" using that M(2) by (metis image_eqI image_set)
      then show ?thesis using alloc_r by (auto simp: fill_of_def)
    qed
    then have fe: "fill_events (orders s') ms = fill_events (orders s2) ms"
      using S(5) s4(3) by (intro fill_events_cong) auto
    have a1: "logs [WORK_ORDER_SUBMITTED, WORK_ORDER_ACCEPTED] s s2"
      using logs_trans [OF logs_admitted logs_same [OF frame(4)]] by simp
    have c1: "logs (closing_events ?w ?got (allocation s r \<noteq> [])) s4 s'"
      using S(9) unfolding closing_events_def ne eq0 by (cases "allocation s r = []") (auto split: if_splits)
    show "logs ([WORK_ORDER_SUBMITTED, WORK_ORDER_ACCEPTED] @ fill_events (orders s') ms @
        closing_events ?w ?got (allocation s r \<noteq> [])) s s'"
      unfolding fe using logs_trans [OF logs_trans [OF a1 s4(7)] c1] by simp
  qed
  with run S(2) show ?thesis by blast
qed

section \<open>The other outcomes of a submission\<close>

lemma submit_known: "work_order_id (orders s r) \<in> known_ids s \<Longrightarrow>
    submit_work_order c r s = Some (Inl (DuplicateWorkOrderError (work_order_id (orders s r))), s)"
  by (simp add: submit_work_order_def open_submission_def)

lemma submit_rejects_state:
  assumes i: "engine_inv s" and new: "work_order_id (orders s r) \<notin> known_ids s" and ok: "work_order_ok (orders s r)"
    and d: "decide c s r = Rejects t"
  shows "\<exists>s'. submit_work_order c r s =
      Some (Inr \<lparr>dr_work_order = r, dr_assignments = [], rejection_reason = Some t\<rparr>, s') \<and> t \<noteq> [] \<and>
    engine_inv s' \<and> light r s s' \<and> (\<forall>a. the_queue a s' = the_queue a s) \<and>
    (\<exists>now. orders s' r = (orders s r)\<lparr>status := REJECTED, updated_at := now\<rparr>) \<and>
    known_ids s' = insert (work_order_id (orders s r)) (known_ids s) \<and>
    logs [WORK_ORDER_SUBMITTED, WORK_ORDER_REJECTED] s s'"
proof -
  obtain s' where s': "open_submission c r s = (Inr (Some \<lparr>dr_work_order = r, dr_assignments = [], rejection_reason = Some t\<rparr>), s')"
    "light r s s'" "logs [WORK_ORDER_SUBMITTED, WORK_ORDER_REJECTED] s s'" "t \<noteq> []"
    "\<exists>now. orders s' r = (orders s r)\<lparr>status := REJECTED, updated_at := now\<rparr>"
    "known_ids s' = insert (work_order_id (orders s r)) (known_ids s)"
    using open_rejects [OF new ok d] by blast
  have "submit_work_order c r s = Some (Inr \<lparr>dr_work_order = r, dr_assignments = [], rejection_reason = Some t\<rparr>, s')"
    using s'(1) by (simp add: submit_work_order_def)
  with s' engine_inv_light [OF i s'(2) unknown_apart [OF i new]] get_queue_light [OF s'(2)] show ?thesis by blast
qed

lemma submit_fails_state:
  assumes i: "engine_inv s" and new: "work_order_id (orders s r) \<notin> known_ids s" and d: "decide c s r = Fails e"
  shows "\<exists>s'. submit_work_order c r s = Some (Inl e, s') \<and> engine_inv s' \<and> light r s s' \<and> orders s' = orders s \<and>
    known_ids s' = insert (work_order_id (orders s r)) (known_ids s) \<and> logs [WORK_ORDER_SUBMITTED] s s'"
proof -
  obtain s' where s': "open_submission c r s = (Inl e, s')" "light r s s'" "logs [WORK_ORDER_SUBMITTED] s s'"
    "orders s' = orders s" "known_ids s' = insert (work_order_id (orders s r)) (known_ids s)"
    using open_fails [OF new d] by blast
  have "submit_work_order c r s = Some (Inl e, s')" using s'(1) by (simp add: submit_work_order_def)
  with s' engine_inv_light [OF i s'(2) unknown_apart [OF i new]] show ?thesis by blast
qed

lemma submit_stood_down_state:
  assumes i: "engine_inv s" and new: "work_order_id (orders s r) \<notin> known_ids s" and ok: "work_order_ok (orders s r)"
    and d: "decide c s r = Admits" and sd: "stood_down c r s"
  shows "\<exists>s'. submit_work_order c r s =
      Some (Inr \<lparr>dr_work_order = r, dr_assignments = [], rejection_reason = None\<rparr>, s') \<and>
    engine_inv s' \<and> light r s s' \<and> (\<forall>a. the_queue a s' = the_queue a s) \<and>
    (\<exists>now. orders s' r = (orders s r)\<lparr>status := CANCELLED, updated_at := now\<rparr>) \<and>
    known_ids s' = insert (work_order_id (orders s r)) (known_ids s) \<and>
    logs [WORK_ORDER_SUBMITTED, WORK_ORDER_ACCEPTED, WORK_ORDER_CANCELLED] s s'"
proof -
  obtain now where o: "orders (admitted c r s) r = (orders s r)\<lparr>status := ACCEPTED, updated_at := now\<rparr>"
    using admitted_order by blast
  have "work_order_ok (orders (admitted c r s) r)" using ok by (simp add: o)
  from stand_down_spec [OF this, of c "''COMPLETE work order could not be fully assigned''"]
  obtain s' where s': "stand_down c r ''COMPLETE work order could not be fully assigned'' (admitted c r s) = (Inr (), s')"
    "light r (admitted c r s) s'" "logs [WORK_ORDER_CANCELLED] (admitted c r s) s'"
    "\<exists>now. orders s' r = (orders (admitted c r s) r)\<lparr>status := CANCELLED, updated_at := now\<rparr>"
    "known_ids s' = known_ids (admitted c r s)" by blast
  have "open_submission c r s = (Inr (Some \<lparr>dr_work_order = r, dr_assignments = [], rejection_reason = None\<rparr>), s')"
    using open_admits [OF new ok d] sd s'(1) by (simp add: andthen_def ret_def)
  then have "submit_work_order c r s = Some (Inr \<lparr>dr_work_order = r, dr_assignments = [], rejection_reason = None\<rparr>, s')"
    by (simp add: submit_work_order_def)
  moreover have lt: "light r s s'" using light_trans [OF light_admitted s'(2)] .
  moreover have "logs [WORK_ORDER_SUBMITTED, WORK_ORDER_ACCEPTED, WORK_ORDER_CANCELLED] s s'"
    using logs_trans [OF logs_admitted s'(3)] by simp
  moreover have "\<exists>now. orders s' r = (orders s r)\<lparr>status := CANCELLED, updated_at := now\<rparr>" using s'(4) by (auto simp: o)
  ultimately show ?thesis using engine_inv_light [OF i lt unknown_apart [OF i new]] s'(5) get_queue_light [OF lt] by simp
qed

text \<open>Every submission of a well-formed order returns, and keeps the invariant.\<close>

lemma submit_total:
  assumes ks: "sorted_keys (key_enum c)" and i: "engine_inv s" and ok: "work_order_ok (orders s r)"
    and bound: "2 * volume s + 2 * remaining_hours (orders s r) < 10 ^ 20"
  shows "\<exists>res s'. submit_work_order c r s = Some (res, s') \<and> engine_inv s' \<and>
     (\<forall>e. res = Inl e \<longrightarrow> e = DuplicateWorkOrderError (work_order_id (orders s r)) \<and> s' = s \<or> decide c s r = Fails e)"
proof (cases "work_order_id (orders s r) \<in> known_ids s")
  case True
  from submit_known [OF this] i show ?thesis by simp
next
  case new: False
  show ?thesis
  proof (cases "decide c s r")
    case (Fails e)
    from submit_fails_state [OF i new Fails] Fails show ?thesis by auto
  next
    case (Rejects t)
    from submit_rejects_state [OF i new ok Rejects] show ?thesis by fastforce
  next
    case Admits
    show ?thesis
    proof (cases "stood_down c r s")
      case True
      from submit_stood_down_state [OF i new ok Admits True] show ?thesis by fastforce
    next
      case False
      from submit_matched_state [OF ks i ok new bound Admits False] show ?thesis by fastforce
    qed
  qed
qed

text \<open>\<open>COMPLETE\<close> is all or nothing.\<close>

lemma stood_down_iff:
  "stood_down c r s \<longleftrightarrow> dispatch_window (orders s r) = COMPLETE \<and>
     \<not> can_assign_fully c (orders (admitted c r s)) (orders (admitted c r s) r) (the_queue (wo_asset (orders s r)) s)"
proof -
  obtain now where o: "orders (admitted c r s) r = (orders s r)\<lparr>status := ACCEPTED, updated_at := now\<rparr>"
    using admitted_order by blast
  show ?thesis by (simp add: stood_down_def Let_def o)
qed

lemma complete_allocation:
  assumes ks: "sorted_keys (key_enum c)" and i: "engine_inv s" and ok: "work_order_ok (orders s r)"
    and new: "work_order_id (orders s r) \<notin> known_ids s"
  shows "dispatch_window (orders s r) = COMPLETE \<Longrightarrow> \<not> stood_down c r s \<Longrightarrow>
      poured (allocation s r) = remaining_hours (orders s r)"
    and "length (side_queue (opposite (side (orders s r))) (the_queue (wo_asset (orders s r)) s)) \<le> 1000000 \<Longrightarrow>
      stood_down c r s \<Longrightarrow> poured (allocation s r) < remaining_hours (orders s r)"
proof -
  let ?s1 = "admitted c r s" and ?w = "orders s r" and ?q = "the_queue (wo_asset (orders s r)) s"
  let ?bk = "book (opposite (side ?w)) ?q"
  obtain now where o: "orders ?s1 r = ?w\<lparr>status := ACCEPTED, updated_at := now\<rparr>" using admitted_order by blast
  have l: "loop_inv (2 * volume s) r (wo_asset ?w) ?s1" using loop_inv_admitted [OF i ok new] .
  then have q: "queue_ok (orders ?s1) (known_ids ?s1) (wo_asset ?w) ?q"
    using the_queue_get admitted_queue(2) [where a = "wo_asset ?w" and c = c and r = r and s = s]
    by (fastforce simp: loop_inv_def dest: market_ok_get)
  have ok1: "work_order_ok (orders ?s1 r)" using ok by (simp add: o)
  have same: "remaining_hours (orders ?s1 r) = remaining_hours ?w" "reach (orders ?s1 r) = reach ?w" "side (orders ?s1 r) = side ?w"
    by (simp_all add: o remaining_hours_def reach_def [abs_def])
  have ne: "orders ?s1 x = orders s x" if "x \<in> set ?bk" for x
    using fresh_in_queue(2) [OF i new in_book [OF that]] by simp
  have tw: "takeWhile (\<lambda>x. ok (rate_of (orders ?s1) x)) ?bk = takeWhile (\<lambda>x. ok (rate_of (orders s) x)) ?bk" for ok
    using ne by (intro takeWhile_cong) (simp_all add: rate_of_def)
  have rh: "reachable_hours (reach ?w) (orders ?s1) ?bk = reachable_hours (reach ?w) (orders s) ?bk"
    unfolding reachable_hours_def tw
    by (intro arg_cong [where f = sum_list] map_cong refl) (auto dest!: set_takeWhileD simp: ne)
  have pos: "\<forall>x\<in>set ?bk. 0 < remaining_hours (orders s x)"
    using opp_resting [OF l] fresh_in_queue(2) [OF i new in_book]
    by (auto simp: opp_book_def o admitted_queue resting_ok_def)
  have al: "poured (allocation s r) = min (remaining_hours ?w) (reachable_hours (reach ?w) (orders s) ?bk)"
    unfolding allocation_def Let_def using pos remaining_hours_nonneg [OF ok] by (rule pour_amount)
  note C = can_assign_fully_spec [OF ks q ok1, unfolded same rh]
  show "dispatch_window ?w = COMPLETE \<Longrightarrow> \<not> stood_down c r s \<Longrightarrow> poured (allocation s r) = remaining_hours ?w"
    using C(1) unfolding al stood_down_iff by auto
  show "length (side_queue (opposite (side ?w)) ?q) \<le> 1000000 \<Longrightarrow> stood_down c r s \<Longrightarrow>
      poured (allocation s r) < remaining_hours ?w"
    using C(2) unfolding al stood_down_iff by auto
qed

section \<open>Cancellation\<close>

lemma cancel_found:
  assumes i: "engine_inv s" and g: "dict_get (queues s) a = Some q" and ct: "contains j q"
  shows "\<exists>r s'. cancel_in c j (a # as) s = (Inr (Some r), s') \<and> engine_inv s' \<and> r \<in> set (all_refs q) \<and>
     work_order_id (orders s r) = j \<and> (\<exists>now. orders s' r = (orders s r)\<lparr>status := CANCELLED, updated_at := now\<rparr>) \<and>
     (\<forall>x. x \<noteq> r \<longrightarrow> orders s' x = orders s x) \<and> workloads s' = workloads s \<and> assignment_log s' = assignment_log s \<and>
     known_ids s' = known_ids s \<and> (\<forall>sd. book sd (the_queue a s') = remove1 r (book sd q)) \<and>
     (\<forall>b. b \<noteq> a \<longrightarrow> the_queue b s' = the_queue b s) \<and> logs [WORK_ORDER_CANCELLED] s s'"
proof -
  have q: "queue_ok (orders s) (known_ids s) a q" using i g by (auto simp: engine_inv_def dest: market_ok_get)
  then have qi: "queue_inv (orders s) q" by (simp add: queue_ok_def)
  obtain r q' where r: "DispatchQueues.cancel_work_order (orders s) j q = (Some r, q')" "r \<in> set (all_refs q)"
     "work_order_id (orders s r) = j" "queue_inv (orders s) q'" "dq_asset q' = dq_asset q"
     "\<forall>sd. book sd q' = remove1 r (book sd q)"
    using cancel_work_order_spec [OF qi ct] by blast
  define s1 where "s1 = put_queue a q' s"
  have rok: "resting_ok (orders s) (known_ids s) a r" using q r(2) by (simp add: queue_ok_def)
  have q': "queue_ok (orders s) (known_ids s) a q'"
    using q r set_remove1_subset by (intro queue_ok_sub [OF q]) (simp_all add: queue_ok_def)
  have "market_ok (orders s) (known_ids s) (dict_set a q' (queues s))"
    using i q' by (intro market_ok_update) (auto simp: engine_inv_def)
  then have i1: "engine_inv s1" using i by (simp add: engine_inv_def s1_def volume_def)
  have gone: "r \<notin> set (all_refs q')"
  proof -
    have "distinct (book sd q)" for sd using distinct_book [OF qi] .
    then have "r \<notin> set (book sd q')" for sd using r(6) by simp
    then show ?thesis using set_all_refs [of q' REQUEST] by simp
  qed
  have ap: "apart r (queues s1)"
    unfolding apart_def
  proof (intro allI impI)
    fix b qq assume b: "dict_get (queues s1) b = Some qq"
    show "r \<notin> set (all_refs qq)"
    proof (cases "b = a")
      case True
      with b gone show ?thesis by (simp add: s1_def dict_simps)
    next
      case False
      with b have "dict_get (queues s) b = Some qq" by (simp add: s1_def dict_simps)
      then have "r \<in> set (all_refs qq) \<Longrightarrow> wo_asset (orders s r) = b"
        using i by (auto simp: engine_inv_def intro: resting_asset)
      with rok False show ?thesis by (auto simp: resting_ok_def)
    qed
  qed
  have "work_order_ok (orders s1 r)" using rok by (simp add: s1_def resting_ok_def)
  from stand_down_spec [OF this, of c "''Client requested''"] obtain s' where s':
    "stand_down c r ''Client requested'' s1 = (Inr (), s')" "light r s1 s'" "logs [WORK_ORDER_CANCELLED] s1 s'"
    "\<exists>now. orders s' r = (orders s1 r)\<lparr>status := CANCELLED, updated_at := now\<rparr>" "known_ids s' = known_ids s1" by blast
  have run: "cancel_in c j (a # as) s = (Inr (Some r), s')"
    using r(1) s'(1) by (simp add: the_queue_get [OF g] s1_def andthen_def ret_def)
  have tq: "the_queue b s' = the_queue b s1" for b by (rule get_queue_light [OF s'(2)])
  have i': "engine_inv s'" using engine_inv_light [OF i1 s'(2) ap] .
  have ob: "the_queue b s1 = the_queue b s" if "b \<noteq> a" for b using that by (simp add: s1_def the_queue_def dict_simps)
  have lg: "logs [WORK_ORDER_CANCELLED] s s'" using logs_trans [OF logs_same [of s1 s] s'(3)] by (simp add: s1_def)
  have s1: "orders s1 = orders s" "workloads s1 = workloads s" "assignment_log s1 = assignment_log s"
    "known_ids s1 = known_ids s" "the_queue a s1 = q'" by (simp_all add: s1_def)
  show ?thesis
    using run i' r s' ob lg s1 tq unfolding light_def by (intro exI [of _ r] exI [of _ s']) simp
qed

lemma cancel_absent:
  "\<forall>a\<in>set as. dict_get (queues s) a \<noteq> None \<and> \<not> contains j (the_queue a s) \<Longrightarrow> cancel_in c j as s = (Inr None, s)"
proof (induction as)
  case (Cons a as)
  then obtain q where q: "dict_get (queues s) a = Some q" "the_queue a s = q" by (auto simp: the_queue_get)
  have "put_queue a q s = s" using q(1) by (simp add: put_queue_def dict_set_same)
  with Cons q show ?case by (simp add: cancel_work_order_absent)
qed simp

text \<open>What a cancellation that finds its order leaves.\<close>

definition cancelled_outcome :: "engine_state \<Rightarrow> string \<Rightarrow> ref \<Rightarrow> engine_state \<Rightarrow> bool" where
  "cancelled_outcome s j r s' \<longleftrightarrow>
     work_order_id (orders s r) = j \<and>
     (\<exists>now. orders s' r = (orders s r)\<lparr>status := CANCELLED, updated_at := now\<rparr>) \<and>
     (\<forall>x. x \<noteq> r \<longrightarrow> orders s' x = orders s x) \<and> workloads s' = workloads s \<and>
     assignment_log s' = assignment_log s \<and> known_ids s' = known_ids s \<and>
     (\<exists>a. r \<in> set (all_refs (the_queue a s)) \<and> (\<forall>sd. book sd (the_queue a s') = remove1 r (book sd (the_queue a s))) \<and>
          (\<forall>b. b \<noteq> a \<longrightarrow> the_queue b s' = the_queue b s)) \<and>
     logs [WORK_ORDER_CANCELLED] s s'"

lemma cancel_in_spec:
  assumes i: "engine_inv s"
  shows "\<forall>a\<in>set as. dict_get (queues s) a \<noteq> None \<Longrightarrow> \<exists>res s'. cancel_in c j as s = (Inr res, s') \<and> engine_inv s' \<and>
     (case res of None \<Rightarrow> s' = s \<and> (\<forall>a\<in>set as. \<not> contains j (the_queue a s)) | Some r \<Rightarrow> cancelled_outcome s j r s')"
proof (induction as)
  case (Cons a as)
  then obtain q where q: "dict_get (queues s) a = Some q" "the_queue a s = q" by (auto simp: the_queue_get)
  show ?case
  proof (cases "contains j q")
    case True
    obtain r s' where r: "cancel_in c j (a # as) s = (Inr (Some r), s')" "engine_inv s'" "r \<in> set (all_refs q)"
      "work_order_id (orders s r) = j" "\<exists>now. orders s' r = (orders s r)\<lparr>status := CANCELLED, updated_at := now\<rparr>"
      "\<forall>x. x \<noteq> r \<longrightarrow> orders s' x = orders s x" "workloads s' = workloads s" "assignment_log s' = assignment_log s"
      "known_ids s' = known_ids s" "\<forall>sd. book sd (the_queue a s') = remove1 r (book sd q)"
      "\<forall>b. b \<noteq> a \<longrightarrow> the_queue b s' = the_queue b s" "logs [WORK_ORDER_CANCELLED] s s'"
      using cancel_found [OF i q(1) True] by blast
    then have "cancelled_outcome s j r s'" unfolding cancelled_outcome_def using q(2) by blast
    with r(1,2) show ?thesis by auto
  next
    case False
    have "put_queue a q s = s" using q(1) by (simp add: put_queue_def dict_set_same)
    with False q have "cancel_in c j (a # as) s = cancel_in c j as s" by (simp add: cancel_work_order_absent)
    moreover obtain res s' where "cancel_in c j as s = (Inr res, s')" "engine_inv s'"
      "case res of None \<Rightarrow> s' = s \<and> (\<forall>a\<in>set as. \<not> contains j (the_queue a s)) | Some r \<Rightarrow> cancelled_outcome s j r s'"
      using Cons by auto
    ultimately show ?thesis using False q(2) by (cases res) auto
  qed
qed (simp add: i)

definition searched :: "engine_state \<Rightarrow> string option \<Rightarrow> string list" where
  "searched s asset = (case asset of
      Some a \<Rightarrow> (case dict_get (queues s) a of Some q \<Rightarrow> [a] | None \<Rightarrow> [])
    | None \<Rightarrow> dict_keys (queues s))"

lemma cancel_spec:
  assumes i: "engine_inv s"
  shows "\<exists>res s'. Engine.cancel_work_order c j asset s = (Inr res, s') \<and> engine_inv s' \<and>
     (case res of None \<Rightarrow> s' = s \<and> (\<forall>a\<in>set (searched s asset). \<not> contains j (the_queue a s))
                | Some r \<Rightarrow> cancelled_outcome s j r s')"
proof -
  have "dict_get (queues s) a \<noteq> None" if "a \<in> set (searched s asset)" for a
    using that dict_get_None [of "queues s" a] by (auto simp: searched_def split: option.splits)
  then have "\<forall>a\<in>set (searched s asset). dict_get (queues s) a \<noteq> None" by blast
  moreover have "Engine.cancel_work_order c j asset s = cancel_in c j (searched s asset) s"
    by (simp add: Engine.cancel_work_order_def searched_def)
  ultimately show ?thesis using cancel_in_spec [OF i] by simp
qed

section \<open>Reachable states\<close>

text \<open>
  The engine starts empty. Clients make order objects that do not rest, submit them while
  the traded volume stays within the exact range of the arithmetic, and cancel.
\<close>

inductive reachable :: "engine_config \<Rightarrow> engine_state \<Rightarrow> bool" for c where
  Start: "reachable c (new_engine h b)"
| Create: "reachable c s \<Longrightarrow> apart r (queues s) \<Longrightarrow> reachable c (s\<lparr>orders := (orders s)(r := w)\<rparr>)"
| Submit: "reachable c s \<Longrightarrow> work_order_ok (orders s r) \<Longrightarrow>
    2 * volume s + 2 * remaining_hours (orders s r) < 10 ^ 20 \<Longrightarrow>
    submit_work_order c r s = Some (res, s') \<Longrightarrow> reachable c s'"
| Cancel: "reachable c s \<Longrightarrow> Engine.cancel_work_order c j asset s = (res, s') \<Longrightarrow> reachable c s'"

lemma reachable_inv:
  assumes ks: "sorted_keys (key_enum c)"
  shows "reachable c s \<Longrightarrow> engine_inv s"
proof (induction rule: reachable.induct)
  case (Start h b)
  show ?case by (rule engine_inv_new)
next
  case (Create s r w)
  show ?case by (rule engine_inv_light [OF Create.IH _ Create.hyps(2)]) (simp add: light_def)
next
  case (Submit s r res s')
  from submit_total [OF ks Submit(5,2,3)] Submit(4) show ?case by auto
next
  case (Cancel s j asset res s')
  from cancel_spec [OF Cancel(3), of c j asset] Cancel(2) show ?case by auto
qed

section \<open>Consequences\<close>

lemma engine_inv_queue: "engine_inv s \<Longrightarrow> queue_ok (orders s) (known_ids s) a (the_queue a s)"
  unfolding engine_inv_def the_queue_def by (auto split: option.split dest: market_ok_get)

lemma resting_offers:
  assumes "engine_inv s"
  shows "\<forall>(x, h, p)\<in>set (offers_of (orders s) (book sd (the_queue a s))). 0 < h"
  using engine_inv_queue [OF assms, of a]
  by (auto simp: offers_of_def queue_ok_def resting_ok_def dest: in_book)

lemma allocation_mem:
  assumes "engine_inv s" "work_order_ok (orders s r)" "(x, h, p) \<in> set (allocation s r)"
  shows "reach (orders s r) p \<and> p = rate_of (orders s) x \<and> 0 < h \<and> h \<le> remaining_hours (orders s x)"
proof -
  have "(x, h, p) \<in> set (pour (reach (orders s r)) (remaining_hours (orders s r))
      (offers_of (orders s) (book (opposite (side (orders s r))) (the_queue (wo_asset (orders s r)) s))))"
    using assms(3) by (simp add: allocation_def Let_def)
  from pour_mem [OF resting_offers [OF assms(1)] this] show ?thesis by (auto simp: offers_of_def)
qed

lemma allocation_prefix:
  "\<exists>n. map fst (allocation s r) = take n (book (opposite (side (orders s r))) (the_queue (wo_asset (orders s r)) s))"
  unfolding allocation_def Let_def
  by (subst pour_prefix) (auto simp: offers_of_def take_map o_def)

lemma allocation_bound:
  assumes "engine_inv s" "work_order_ok (orders s r)"
  shows "poured (allocation s r) \<le> remaining_hours (orders s r)"
  using pour_bounds [OF resting_offers [OF assms(1)]] remaining_hours_nonneg [OF assms(2)]
  by (simp add: allocation_def Let_def)

end
