(* ===== verification/EngineFrames.thy ===== *)
theory EngineFrames
  imports SubmitLaws
begin

text \<open>
  What the engine leaves alone, without any assumption on the state: no operation changes the
  identity of an order (its identifier, organization and asset), only the submitted order
  enters a queue, and only orders that rest or are submitted change at all.
\<close>

section \<open>Orders in the queues\<close>

lemma set_dict_set_sub: "set (dict_set k v d) \<subseteq> insert (k, v) (set d)"
  by (induction d) auto

lemma set_dict_pop_sub: "set (dict_pop k d) \<subseteq> set d"
  by (auto simp: set_dict_pop)

lemma side_refs_set: "set (side_refs (dict_set k l d)) \<subseteq> set (lvl_orders l) \<union> set (side_refs d)"
  using set_dict_set_sub [of k l d] by (fastforce simp: side_refs_def)

lemma side_refs_pop: "set (side_refs (dict_pop k d)) \<subseteq> set (side_refs d)"
  using set_dict_pop_sub [of k d] by (fastforce simp: side_refs_def)

lemma side_refs_get: "dict_get d k = Some l \<Longrightarrow> set (lvl_orders l) \<subseteq> set (side_refs d)"
proof
  fix x assume g: "dict_get d k = Some l" and x: "x \<in> set (lvl_orders l)"
  from g have "(k, l) \<in> set d" by (rule map_of_SomeD)
  with x show "x \<in> set (side_refs d)" unfolding side_refs_def by force
qed

lemma refs_set_side: "set (all_refs (set_side_queue s d q)) \<subseteq> set (side_refs d) \<union> set (all_refs q)"
  by (auto simp: all_refs_def set_side_queue_def)

lemma refs_index [simp]: "all_refs (q\<lparr>order_index := x\<rparr>) = all_refs q"
  by (simp add: all_refs_def)

lemma side_queue_index [simp]: "side_queue s (q\<lparr>order_index := x\<rparr>) = side_queue s q"
  by (simp add: side_queue_def)

lemma peek_item_get:
  assumes "peek_item ks d = Some (k, l)"
  shows "dict_get d k = Some l"
proof -
  have "(k, l) \<in> set (sorted_items ks d)"
    using assms by (cases "sorted_items ks d") (auto simp: peek_item_def)
  then show ?thesis by (auto simp: sorted_items_def List.map_filter_def)
qed

lemma refs_of_new [simp]: "all_refs (new_queue a) = []"
  by (simp add: all_refs_def new_queue_def side_refs_def)

lemma pop_refs: "set (all_refs (snd (pop_best ks h s q))) \<subseteq> set (all_refs q)"
proof (cases "peek_item ks (side_queue s q)")
  case (Some p)
  obtain k l where p: "p = (k, l)" by (cases p)
  have l: "set (lvl_orders l) \<subseteq> set (side_refs (side_queue s q))"
    using Some p peek_item_get side_refs_get by blast
  have f: "set (lvl_orders (snd (level_remove_front l))) \<subseteq> set (lvl_orders l)"
    by (auto simp: level_remove_front_def split: list.splits)
  define d' where "d' = (if level_is_empty (snd (level_remove_front l)) then dict_pop k (side_queue s q)
    else dict_set k (snd (level_remove_front l)) (side_queue s q))"
  have "set (side_refs d') \<subseteq> set (side_refs (side_queue s q))"
    using l f side_refs_set [of k "snd (level_remove_front l)" "side_queue s q"] side_refs_pop [of k "side_queue s q"]
    by (auto simp: d'_def)
  then have sub: "set (side_refs d') \<subseteq> set (all_refs q)" using side_refs_sub [of s q] by blast
  define x where "x = (case fst (level_remove_front l) of None \<Rightarrow> order_index q
    | Some r \<Rightarrow> dict_pop (work_order_id (h r)) (order_index q))"
  have "snd (pop_best ks h s q) = set_side_queue s d' (q\<lparr>order_index := x\<rparr>)"
    using Some p by (simp add: pop_best_def Let_def d'_def x_def case_prod_beta)
  with sub refs_set_side [of s d' "q\<lparr>order_index := x\<rparr>"] show ?thesis by auto
qed (simp add: pop_best_def)

lemma peek_refs: "peek_best ks s q = Some r \<Longrightarrow> r \<in> set (all_refs q)"
proof -
  assume a: "peek_best ks s q = Some r"
  then obtain k l where kl: "peek_item ks (side_queue s q) = Some (k, l)" "level_peek_front l = Some r"
    by (auto simp: peek_best_def split: option.splits)
  from kl(2) have "r \<in> set (lvl_orders l)" by (auto simp: level_peek_front_def split: list.splits)
  with kl(1) show ?thesis using peek_item_get side_refs_get side_refs_sub [of s q] by blast
qed

lemma add_refs: "add_work_order h r q = Inr q' \<Longrightarrow> set (all_refs q') \<subseteq> insert r (set (all_refs q))"
proof -
  assume a: "add_work_order h r q = Inr q'"
  then obtain rate where m: "max_hourly_rate (h r) = Some rate" by (auto simp: add_work_order_def split: option.splits)
  define s where "s = side (h r)"
  define k where "k = level_key s rate"
  define lv where "lv = (case dict_get (side_queue s q) k of None \<Rightarrow> \<lparr>lvl_rate = rate, lvl_orders = []\<rparr> | Some l \<Rightarrow> l)"
  have "set (lvl_orders lv) \<subseteq> set (side_refs (side_queue s q))"
    using side_refs_get by (auto simp: lv_def split: option.splits)
  then have "set (side_refs (dict_set k (level_add r lv) (side_queue s q))) \<subseteq> insert r (set (side_refs (side_queue s q)))"
    using side_refs_set [of k "level_add r lv" "side_queue s q"] by (auto simp: level_add_def)
  moreover obtain x where "q' = (set_side_queue s (dict_set k (level_add r lv) (side_queue s q)) q)\<lparr>order_index := x\<rparr>"
    using a m by (auto simp: add_work_order_def Let_def s_def k_def lv_def)
  ultimately show ?thesis
    using refs_set_side [of s "dict_set k (level_add r lv) (side_queue s q)" q] side_refs_sub [of s q] by auto
qed

lemma deque_remove_sub: "set (deque_remove h r xs) \<subseteq> set xs"
  by (induction xs) auto

lemma cancel_refs:
  assumes "DispatchQueues.cancel_work_order h i q = (res, q')"
  shows "set (all_refs q') \<subseteq> set (all_refs q)" "\<And>r. res = Some r \<Longrightarrow> r \<in> set (all_refs q) \<and> work_order_id (h r) = i"
proof -
  have "set (all_refs q') \<subseteq> set (all_refs q) \<and> (\<forall>r. res = Some r \<longrightarrow> r \<in> set (all_refs q) \<and> work_order_id (h r) = i)"
  proof (cases "dict_get (order_index q) i")
    case None
    with assms show ?thesis by (auto simp: DispatchQueues.cancel_work_order_def)
  next
    case (Some p)
    obtain s rate where p: "p = (s, rate)" by (cases p)
    define d where "d = side_queue s q"
    show ?thesis
    proof (cases "dict_get d (level_key s rate)")
      case None
      with assms Some p show ?thesis by (auto simp: DispatchQueues.cancel_work_order_def Let_def d_def)
    next
      case lv: (Some l)
      obtain f l' where r: "level_remove_work_order h i l = (f, l')" by fastforce
      have l: "set (lvl_orders l) \<subseteq> set (side_refs d)" using side_refs_get [OF lv] .
      have l': "set (lvl_orders l') \<subseteq> set (lvl_orders l)"
        using r deque_remove_sub by (fastforce simp: level_remove_work_order_def split: option.splits)
      have f: "f = Some x \<Longrightarrow> x \<in> set (lvl_orders l) \<and> work_order_id (h x) = i" for x
        using r by (auto simp: level_remove_work_order_def find_Some_iff split: option.splits)
      define d' where "d' = (if level_is_empty l' then dict_pop (level_key s rate) d else dict_set (level_key s rate) l' d)"
      have d': "set (side_refs d') \<subseteq> set (side_refs d)"
        using l l' side_refs_set [of "level_key s rate" l' d] side_refs_pop [of "level_key s rate" d] by (auto simp: d'_def)
      have e: "res = f" "\<exists>x. q' = set_side_queue s d' (q\<lparr>order_index := x\<rparr>)"
        using assms Some p lv r by (auto simp: DispatchQueues.cancel_work_order_def Let_def d_def d'_def)
      have sub: "set (side_refs d) \<subseteq> set (all_refs q)" using side_refs_sub [of s q] by (simp add: d_def)
      obtain x where "q' = set_side_queue s d' (q\<lparr>order_index := x\<rparr>)" using e by blast
      then have "set (all_refs q') \<subseteq> set (all_refs q)"
        using refs_set_side [of s d' "q\<lparr>order_index := x\<rparr>"] d' sub by auto
      with e f l sub show ?thesis by blast
    qed
  qed
  then show "set (all_refs q') \<subseteq> set (all_refs q)" "\<And>r. res = Some r \<Longrightarrow> r \<in> set (all_refs q) \<and> work_order_id (h r) = i"
    by blast+
qed

section \<open>Tame steps\<close>

definition identity :: "work_order \<Rightarrow> string \<times> string \<times> string" where
  "identity w = (work_order_id w, wo_organization w, wo_asset w)"

definition refs_in :: "engine_state \<Rightarrow> ref set" where
  "refs_in s = (\<Union>q\<in>snd ` set (queues s). set (all_refs q))"

definition tame :: "ref set \<Rightarrow> engine_state \<Rightarrow> engine_state \<Rightarrow> bool" where
  "tame R s s' \<longleftrightarrow> (\<forall>x. identity (orders s' x) = identity (orders s x)) \<and> refs_in s' \<subseteq> R \<and>
     (\<forall>x. x \<notin> R \<longrightarrow> orders s' x = orders s x) \<and> known_ids s \<subseteq> known_ids s'"

definition tame_at :: "ref set \<Rightarrow> 'a step \<Rightarrow> engine_state \<Rightarrow> bool" where
  "tame_at R m s \<longleftrightarrow> (refs_in s \<subseteq> R \<longrightarrow> tame R s (snd (m s)))"

lemma tame_refl: "refs_in s \<subseteq> R \<Longrightarrow> tame R s s"
  by (simp add: tame_def)

lemma tame_trans: "tame R s s' \<Longrightarrow> tame R s' s'' \<Longrightarrow> tame R s s''"
  unfolding tame_def by (metis subset_trans)

lemma tame_quiet:
  "orders s' = orders s \<Longrightarrow> queues s' = queues s \<Longrightarrow> known_ids s \<subseteq> known_ids s' \<Longrightarrow> refs_in s \<subseteq> R \<Longrightarrow> tame R s s'"
  by (simp add: tame_def refs_in_def)

lemma tame_at_quiet:
  "orders (snd (m s)) = orders s \<Longrightarrow> queues (snd (m s)) = queues s \<Longrightarrow> known_ids s \<subseteq> known_ids (snd (m s)) \<Longrightarrow> tame_at R m s"
  by (simp add: tame_at_def tame_quiet)

lemma tame_andthen:
  assumes "tame_at R m s" "\<And>a s'. m s = (Inr a, s') \<Longrightarrow> tame_at R (f a) s'"
  shows "tame_at R (andthen m f) s"
proof -
  obtain res s' where m: "m s = (res, s')" by fastforce
  show ?thesis
  proof (cases res)
    case (Inl e)
    with m assms(1) show ?thesis by (simp add: tame_at_def andthen_def)
  next
    case (Inr a)
    have 1: "refs_in s \<subseteq> R \<Longrightarrow> tame R s s'" using assms(1) m by (simp add: tame_at_def)
    have 2: "refs_in s' \<subseteq> R \<Longrightarrow> tame R s' (snd (f a s'))" using assms(2) m Inr by (simp add: tame_at_def)
    have "tame R s (snd (f a s'))" if "refs_in s \<subseteq> R"
    proof -
      have "tame R s s'" using 1 that .
      moreover from this have "refs_in s' \<subseteq> R" unfolding tame_def by blast
      then have "tame R s' (snd (f a s'))" by (rule 2)
      ultimately show ?thesis by (rule tame_trans)
    qed
    then show ?thesis using m Inr by (simp add: tame_at_def andthen_def)
  qed
qed

lemma tame_at_eq: "m s = m' s \<Longrightarrow> tame_at R m' s \<Longrightarrow> tame_at R m s"
  by (simp add: tame_at_def)

named_theorems tame_rules \<open>operations that are tame\<close>

lemma tame_basic [tame_rules]:
  "tame_at R (ret a) s" "tame_at R (raise e) s" "tame_at R (lift_exn x) s" "tame_at R (utcnow c) s" "tame_at R (fresh_uuid c) s"
  by (rule tame_at_quiet; simp add: ret_def raise_def lift_exn_def utcnow_def fresh_uuid_def)+

lemma tame_set_field:
  "x \<in> R \<Longrightarrow> (\<And>w. identity (f w) = identity w) \<Longrightarrow> tame_at R (set_field x f) s"
  by (auto simp: tame_at_def tame_def set_field_def assign_field_def refs_in_def split: sum.splits if_splits)

lemma tame_set_status: "x \<in> R \<Longrightarrow> tame_at R (set_status x st) s"
  unfolding set_status_def by (rule tame_set_field) (simp_all add: identity_def)

lemma tame_touch: "x \<in> R \<Longrightarrow> tame_at R (touch c x) s"
  unfolding touch_def by (rule tame_andthen [OF tame_basic(4)], rule tame_set_field) (simp_all add: identity_def)

lemma tame_publish [tame_rules]: "tame_at R (publish_event c ty corr pl) s" "tame_at R (publish_work_order_event c ty r extra) s"
  "tame_at R (publish_resting_assignment c r) s" "tame_at R (publish_assignment_event c a r) s"
proof -
  show "tame_at R (publish_event c ty corr pl) s" for ty corr pl s
    by (rule tame_at_quiet; simp add: publish_event_emit)
  show "tame_at R (publish_work_order_event c ty r extra) s" for ty extra s
    by (rule tame_at_quiet; simp add: publish_work_order_event_emit)
  then show "tame_at R (publish_resting_assignment c r) s"
    by (simp add: publish_resting_assignment_def tame_at_def)
  show "tame_at R (publish_assignment_event c a r) s"
    by (rule tame_at_quiet; simp add: publish_assignment_event_def action_simps)
qed

lemma tame_put_queue:
  "set (all_refs q) \<subseteq> R \<Longrightarrow> refs_in s \<subseteq> R \<Longrightarrow> tame R s (put_queue a q s)"
proof -
  assume a: "set (all_refs q) \<subseteq> R" "refs_in s \<subseteq> R"
  have "refs_in (put_queue a q s) \<subseteq> insert_refs" if "insert_refs = set (all_refs q) \<union> refs_in s" for insert_refs
    unfolding that using set_dict_set_sub [of a q "queues s"] by (auto simp: put_queue_def refs_in_def dest!: subsetD)
  then have "refs_in (put_queue a q s) \<subseteq> R" using a by blast
  then show "tame R s (put_queue a q s)" by (simp add: tame_def put_queue_def)
qed

lemma the_queue_refs: "set (all_refs (the_queue a s)) \<subseteq> refs_in s"
  by (force simp: the_queue_def refs_in_def split: option.splits dest: map_of_SomeD)

lemma tame_get_or_create [tame_rules]: "tame_at R (get_or_create_queue a) s"
  by (simp add: tame_at_def get_or_create_queue_def tame_put_queue tame_refl split: option.splits)

lemma manager_quiet:
  assumes "manager_apply c org asset sd hrs rate s = (x, s')"
  shows "orders s' = orders s \<and> queues s' = queues s \<and> known_ids s' = known_ids s"
  using assms
  by (auto simp: manager_apply_def get_workload_def andthen_def utcnow_def lift_exn_def modify_def Let_def
      split: option.splits sum.splits prod.splits)

lemma tame_reprice [tame_rules]: "tame_at R (reprice_asset c a m) s"
  by (rule tame_at_quiet; simp add: reprice_asset_def split: prod.splits)

section \<open>The operations of the engine\<close>

lemma tame_marks:
  assumes "r \<in> R"
  shows "tame_at R (reject c r reason) s" "tame_at R (stand_down c r t) s"
proof -
  show "tame_at R (stand_down c r t) s"
    unfolding stand_down_def by (intro tame_andthen tame_set_status tame_touch tame_publish assms)
  show "tame_at R (reject c r reason) s"
    unfolding reject_def Let_def by (auto intro!: tame_andthen tame_set_status tame_touch tame_publish tame_basic assms)
qed

lemma tame_book_hours:
  assumes "x \<in> R"
  shows "tame_at R (book_hours x hrs rate now) s"
proof -
  define m where "m = (\<lambda>e. andthen (lift_exn e) (\<lambda>avg.
     andthen (set_field x (\<lambda>w. w\<lparr>average_rate := Some avg\<rparr>)) (\<lambda>_.
     andthen (set_field x (\<lambda>w. w\<lparr>assigned_hours := dec_add (assigned_hours w) hrs\<rparr>)) (\<lambda>_.
     set_field x (\<lambda>w. w\<lparr>updated_at := Some now\<rparr>)))))"
  have "tame_at R (m e) s" for e
    unfolding m_def by (intro tame_andthen tame_set_field tame_basic assms; simp add: identity_def)
  moreover have "book_hours x hrs rate now s =
      m (compute_avg_rate (average_rate (orders s x)) (assigned_hours (orders s x)) rate hrs) s"
    by (simp add: book_hours_def m_def)
  ultimately show ?thesis by (simp add: tame_at_def)
qed

lemma tame_update_resting: "x \<in> R \<Longrightarrow> tame_at R (update_resting_status x) s"
  using tame_set_status by (simp add: update_resting_status_def tame_at_def)

lemma tame_record: "tame_at R (record_assignment c inc rest hrs rate now uid) s"
proof (rule tame_at_quiet)
  obtain x s' where e: "record_assignment c inc rest hrs rate now uid s = (x, s')" by fastforce
  have "orders s' = orders s \<and> queues s' = queues s \<and> known_ids s' = known_ids s"
    using e unfolding record_assignment_def Let_def
    by (auto elim!: andthen_cases simp: lift_exn_def ret_def dest!: manager_quiet)
  with e show "orders (snd (record_assignment c inc rest hrs rate now uid s)) = orders s"
    "queues (snd (record_assignment c inc rest hrs rate now uid s)) = queues s"
    "known_ids s \<subseteq> known_ids (snd (record_assignment c inc rest hrs rate now uid s))" by simp_all
qed

lemma tame_execute:
  assumes "inc \<in> R" "rest \<in> R"
  shows "tame_at R (execute_assignment c inc rest hrs rate) s"
  unfolding execute_assignment_def
  by (intro tame_andthen tame_basic tame_book_hours tame_update_resting tame_record assms)

lemma tame_match_turn:
  assumes "inc \<in> R"
  shows "tame_at R (match_turn c a inc) s"
proof -
  let ?best = "if side (orders s inc) = REQUEST then peek_best_offer_order (key_enum c) (the_queue a s)
    else peek_best_request_order (key_enum c) (the_queue a s)"
  show ?thesis
  proof (cases ?best)
    case None
    then show ?thesis by (simp add: match_turn_def tame_at_def tame_refl Let_def)
  next
    case (Some rest)
    have mem: "rest \<in> refs_in s"
      using Some peek_refs the_queue_refs [of a s]
      by (auto simp: peek_best_offer_order_def peek_best_request_order_def split: if_splits)
    have pop: "tame_at R (\<lambda>s1. if is_fully_assigned (orders s1 rest)
        then (let q = the_queue a s1; q' = (if side (orders s inc) = REQUEST
                then snd (pop_best_offer (key_enum c) (orders s1) q) else snd (pop_best_request (key_enum c) (orders s1) q))
              in (Inr (), put_queue a q' s1)) else (Inr (), s1)) s1" for s1
    proof -
      have "tame R s1 (put_queue a q' s1)"
        if "q' = snd (pop_best ks h sd (the_queue a s1))" "refs_in s1 \<subseteq> R" for q' ks h sd
        using that pop_refs [of ks h sd "the_queue a s1"] the_queue_refs [of a s1] by (intro tame_put_queue) auto
      then show ?thesis by (simp add: tame_at_def tame_refl Let_def pop_best_offer_def pop_best_request_def)
    qed
    have step: "tame_at R (andthen (execute_assignment c inc rest hrs rate) (\<lambda>asg. andthen (\<lambda>s1. if is_fully_assigned (orders s1 rest)
        then (let q = the_queue a s1; q' = (if side (orders s inc) = REQUEST
                then snd (pop_best_offer (key_enum c) (orders s1) q) else snd (pop_best_request (key_enum c) (orders s1) q))
              in (Inr (), put_queue a q' s1)) else (Inr (), s1)) (\<lambda>_. ret (Some (asg, rest))))) s"
      if "rest \<in> R" for hrs rate
      by (intro tame_andthen tame_execute assms that pop tame_basic)
    show ?thesis
    proof (cases "rest \<in> R")
      case True
      with step [OF True] Some show ?thesis
        by (simp add: match_turn_def tame_at_def Let_def tame_refl split: option.split)
    next
      case False
      with mem have "\<not> refs_in s \<subseteq> R" by blast
      then show ?thesis by (simp add: tame_at_def)
    qed
  qed
qed

lemma tame_match_loop:
  assumes "match_loop c a inc acc s = Some (res, s')" "inc \<in> R" "refs_in s \<subseteq> R"
  shows "tame R s s'"
proof -
  have "inc \<in> R \<longrightarrow> refs_in s \<subseteq> R \<longrightarrow> tame R s (snd p)" if "match_loop c a inc acc s = Some p" for p
  proof (rule match_loop.raw_induct [OF _ that, where P = "\<lambda>c a inc acc s p. inc \<in> R \<longrightarrow> refs_in s \<subseteq> R \<longrightarrow> tame R s (snd p)"])
    fix loop :: "engine_config \<Rightarrow> string \<Rightarrow> ref \<Rightarrow> (service_assignment \<times> ref) list \<Rightarrow> engine_state \<Rightarrow>
      ((exn + (service_assignment \<times> ref) list) \<times> engine_state) option"
    fix c a inc acc s p
    assume ih: "\<And>c a inc acc s p. loop c a inc acc s = Some p \<Longrightarrow> inc \<in> R \<longrightarrow> refs_in s \<subseteq> R \<longrightarrow> tame R s (snd p)"
    assume now: "(if 0 < remaining_hours (orders s inc)
       then case match_turn c a inc s of (Inl e, s') \<Rightarrow> Some (Inl e, s') | (Inr None, s') \<Rightarrow> Some (Inr acc, s')
         | (Inr (Some p), s') \<Rightarrow> loop c a inc (acc @ [p]) s'
       else Some (Inr acc, s)) = Some p"
    obtain tres s1 where t: "match_turn c a inc s = (tres, s1)" by fastforce
    have t1: "tame R s s1" if "inc \<in> R" "refs_in s \<subseteq> R"
      using tame_match_turn [of inc R c a s] that t by (simp add: tame_at_def)
      have body: "(if 0 < remaining_hours (orders s inc) then
        (case (tres, s1) of (Inl e, s') \<Rightarrow> Some (Inl e, s') | (Inr None, s') \<Rightarrow> Some (Inr acc, s')
         | (Inr (Some m), s') \<Rightarrow> loop c a inc (acc @ [m]) s') else Some (Inr acc, s)) = Some p"
      using now unfolding t .
    show "inc \<in> R \<longrightarrow> refs_in s \<subseteq> R \<longrightarrow> tame R s (snd p)"
    proof (intro impI)
      assume h: "inc \<in> R" "refs_in s \<subseteq> R"
      note s1 = t1 [OF h]
      show "tame R s (snd p)"
      proof (cases "0 < remaining_hours (orders s inc)")
        case False
        with body h show ?thesis by (auto simp: tame_refl)
      next
        case True
        show ?thesis
        proof (cases tres)
          case (Inl e)
          with body True s1 show ?thesis by auto
        next
          case (Inr om)
          show ?thesis
          proof (cases om)
            case None
            with body True s1 Inr show ?thesis by auto
          next
            case (Some m)
            with body True Inr have "loop c a inc (acc @ [m]) s1 = Some p" by simp
            moreover have "refs_in s1 \<subseteq> R" using s1 by (simp add: tame_def)
            ultimately have "tame R s1 (snd p)" using ih h(1) by blast
            with s1 show ?thesis by (rule tame_trans)
          qed
        qed
      qed
    qed
  qed
  with assms show ?thesis by fastforce
qed

lemma tame_pre_dispatch:
  assumes "r \<in> R"
  shows "tame_at R (pre_dispatch c r) s"
proof -
  have "\<exists>m. pre_dispatch c r s = m s \<and> tame_at R m s"
  proof -
    have "tame_at R (\<lambda>s. (x, s)) s" for x :: "exn + dispatch_result option" by (simp add: tame_at_def tame_refl)
    moreover have "tame_at R (andthen (reject c r reason) (\<lambda>d. ret (Some d))) s" for reason
      by (intro tame_andthen tame_marks tame_basic assms)
    ultimately show ?thesis
      unfolding pre_dispatch_def by (auto split: option.split prod.split bool.split)
  qed
  then show ?thesis using tame_at_eq by blast
qed

lemma tame_admit:
  assumes "r \<in> R"
  shows "tame_at R (admit c r) s"
proof -
  have "tame_at R (\<lambda>s. if P s then andthen (stand_down c r t) (\<lambda>_. ret d) s else (Inr None, s)) s" for P t d s
  proof -
    have "tame_at R (andthen (stand_down c r t) (\<lambda>_. ret d)) s" by (intro tame_andthen tame_marks tame_basic assms)
    then show ?thesis by (simp add: tame_at_def tame_refl)
  qed
  then show ?thesis unfolding admit_def
    by (intro tame_andthen tame_set_status tame_touch tame_publish assms)
qed

text \<open>A submission under a new identifier first records it.\<close>

definition entered :: "ref \<Rightarrow> engine_state \<Rightarrow> engine_state" where
  "entered r s = s\<lparr>known_ids := insert (work_order_id (orders s r)) (known_ids s), submitted_count := submitted_count s + 1\<rparr>"

definition open_rest :: "engine_config \<Rightarrow> ref \<Rightarrow> dispatch_result option step" where
  "open_rest c r = andthen (publish_work_order_event c WORK_ORDER_SUBMITTED r []) (\<lambda>_ s.
     (if status (orders s r) \<noteq> NEW
      then andthen (reject c r (Some (not_new_reason (status (orders s r))))) (\<lambda>d. ret (Some d)) s
      else case validate_boundary c (orders s r) of
          Inl e \<Rightarrow> (Inl e, s)
        | Inr (False, reason) \<Rightarrow> andthen (reject c r (Some reason)) (\<lambda>d. ret (Some d)) s
        | Inr (True, _) \<Rightarrow>
            andthen (get_or_create_queue (wo_asset (orders s r))) (\<lambda>_.
            andthen (pre_dispatch c r) (\<lambda>early.
              case early of Some d \<Rightarrow> ret (Some d) | None \<Rightarrow> admit c r)) s))"

lemma open_eq:
  "open_submission c r s = (if work_order_id (orders s r) \<in> known_ids s
     then (Inl (DuplicateWorkOrderError (work_order_id (orders s r))), s) else open_rest c r (entered r s))"
  by (simp add: open_submission_def open_rest_def entered_def action_simps andthen_Inr modify_def)

lemma tame_open_rest:
  assumes "r \<in> R"
  shows "tame_at R (open_rest c r) s"
proof -
  have rej: "tame_at R (andthen (reject c r reason) (\<lambda>d. ret (Some d))) s" for reason s
    by (intro tame_andthen tame_marks tame_basic assms)
  have adm: "tame_at R (andthen (get_or_create_queue a) (\<lambda>_. andthen (pre_dispatch c r) (\<lambda>early.
       case early of Some d \<Rightarrow> ret (Some d) | None \<Rightarrow> admit c r))) s" for a s
  proof (intro tame_andthen tame_get_or_create tame_pre_dispatch assms)
    fix early s' show "tame_at R (case early of Some d \<Rightarrow> ret (Some d) | None \<Rightarrow> admit c r) s'"
      by (cases early) (simp_all add: tame_basic tame_admit assms)
  qed
  show ?thesis
    unfolding open_rest_def
    by (rule tame_andthen [OF tame_publish(2)])
      (use rej adm in \<open>auto simp: tame_at_def tame_refl split: sum.split prod.split bool.split\<close>)
qed

lemma entered_tame: "refs_in s \<subseteq> R \<Longrightarrow> tame R s (entered r s)"
  by (rule tame_quiet) (auto simp: entered_def)

lemma tame_open:
  assumes "r \<in> R"
  shows "tame_at R (open_submission c r) s"
proof -
  have "tame R s (snd (open_rest c r (entered r s)))" if "refs_in s \<subseteq> R"
  proof -
    have e: "tame R s (entered r s)" using that by (rule entered_tame)
    then have "refs_in (entered r s) \<subseteq> R" by (simp add: tame_def)
    then have "tame R (entered r s) (snd (open_rest c r (entered r s)))"
      using tame_open_rest [OF assms, of c "entered r s"] by (simp add: tame_at_def)
    with e show ?thesis by (rule tame_trans)
  qed
  then show ?thesis by (simp add: tame_at_def open_eq tame_refl)
qed

lemma open_known:
  "work_order_id (orders s r) \<in> known_ids (snd (open_submission c r s))"
proof -
  have "tame UNIV (entered r s) (snd (open_rest c r (entered r s)))"
    using tame_open_rest [of r UNIV c "entered r s"] by (simp add: tame_at_def)
  then have "known_ids (entered r s) \<subseteq> known_ids (snd (open_rest c r (entered r s)))" by (simp add: tame_def)
  then show ?thesis by (auto simp: open_eq entered_def)
qed

lemma tame_publish_fills: "tame_at R (publish_fills c r ms) s"
proof (rule tame_at_quiet)
  obtain s' where "publish_fills c r ms s = (Inr (), s')" "orders s' = orders s" "queues s' = queues s" "known_ids s' = known_ids s"
    using publish_fills_spec by metis
  then show "orders (snd (publish_fills c r ms s)) = orders s" "queues (snd (publish_fills c r ms s)) = queues s"
    "known_ids s \<subseteq> known_ids (snd (publish_fills c r ms s))" by simp_all
qed

lemma tame_finalise:
  assumes "r \<in> R"
  shows "tame_at R (finalise c r a as) s"
proof -
  have rest: "tame_at R (\<lambda>s. (if mode (orders s r) = RATE_CAPPED \<and> dispatch_window (orders s r) = OPEN
           then (case add_work_order (orders s) r (the_queue a s) of
                   Inl e \<Rightarrow> (Inl e, s)
                 | Inr q \<Rightarrow> (Inr (), put_queue a q s))
           else stand_down c r
                  (if dispatch_window (orders s r) = IMMEDIATE
                   then ''IMMEDIATE residual stood down''
                   else ''ANY_RATE work order residual stood down (no capacity)'') s)) s" for s
  proof -
    have "tame R s (put_queue a q s)" if "add_work_order (orders s) r (the_queue a s) = Inr q" "refs_in s \<subseteq> R" for q
      using add_refs [OF that(1)] the_queue_refs [of a s] that(2) assms by (intro tame_put_queue) auto
    then show ?thesis using tame_marks(2) [OF assms]
      by (auto simp: tame_at_def tame_refl split: sum.split)
  qed
  have surface: "tame_at R (if as \<noteq> [] then andthen (set_status r PARTIALLY_ASSIGNED) (\<lambda>_.
                      andthen (touch c r) (\<lambda>_. publish_work_order_event c WORK_ORDER_PARTIALLY_ASSIGNED r [])) else ret ()) s"
    by (auto intro!: tame_andthen tame_set_status tame_touch tame_publish tame_basic assms)
  have full: "tame_at R (andthen (set_status r ASSIGNED) (\<lambda>_. andthen (touch c r) (\<lambda>_.
           publish_work_order_event c WORK_ORDER_ASSIGNED r []))) s"
    by (intro tame_andthen tame_set_status tame_touch tame_publish assms)
  show ?thesis
  proof (cases "is_fully_assigned (orders s r)")
    case True
    show ?thesis by (rule tame_at_eq [OF _ full]) (simp add: finalise_def True)
  next
    case False
    show ?thesis by (rule tame_at_eq [OF _ tame_andthen [OF surface rest]]) (simp add: finalise_def False)
  qed
qed

lemma tame_close:
  assumes "r \<in> R"
  shows "tame_at R (close_submission c r a ms) s"
proof -
  have re: "tame_at R (\<lambda>s. if ms \<noteq> [] then reprice_asset c (wo_asset (orders s r)) (hourly_rate (fst (last ms))) s
                  else (Inr (), s)) s" for s
    using tame_reprice by (simp add: tame_at_def tame_refl)
  show ?thesis unfolding close_submission_def
    by (rule tame_andthen [OF tame_publish_fills], rule tame_andthen [OF re], rule tame_andthen [OF tame_finalise [OF assms]])
      (rule tame_basic)
qed

text \<open>A whole submission, and a cancellation.\<close>

lemma submit_tame:
  assumes "submit_work_order c r s = Some (res, s')" "insert r (refs_in s) \<subseteq> R"
  shows "tame R s s'"
proof -
  have R: "r \<in> R" "refs_in s \<subseteq> R" using assms(2) by auto
  obtain o1 s1 where o: "open_submission c r s = (o1, s1)" by fastforce
  have s1: "tame R s s1" using tame_open [OF R(1), of c s] R(2) o by (simp add: tame_at_def)
  show ?thesis
  proof (cases "o1 = Inr None")
    case False
    with assms(1) o have "s' = s1" by (cases o1) (auto simp: submit_work_order_def split: option.splits)
    with s1 show ?thesis by simp
  next
    case True
    with assms(1) o obtain m s2 where m: "match_loop c (wo_asset (orders s1 r)) r [] s1 = Some (m, s2)"
      "s' = (case m of Inl e \<Rightarrow> s2 | Inr ms \<Rightarrow> snd (close_submission c r (wo_asset (orders s1 r)) ms s2))"
      by (auto simp: submit_work_order_def Let_def split: option.splits prod.splits sum.splits)
    have "refs_in s1 \<subseteq> R" using s1 by (simp add: tame_def)
    with m(1) R(1) have s2: "tame R s1 s2" by (rule tame_match_loop)
    then have "refs_in s2 \<subseteq> R" by (simp add: tame_def)
    then have "tame R s2 s'" using m(2) tame_close [OF R(1), of c _ _ s2]
      by (cases m) (auto simp: tame_at_def tame_refl)
    with s1 s2 tame_trans show ?thesis by blast
  qed
qed

lemma submit_known_after:
  assumes "submit_work_order c r s = Some (res, s')"
  shows "work_order_id (orders s r) \<in> known_ids s'"
proof -
  obtain o1 s1 where o: "open_submission c r s = (o1, s1)" by fastforce
  have k: "work_order_id (orders s r) \<in> known_ids s1" using open_known [of s r c] o by simp
  show ?thesis
  proof (cases "o1 = Inr None")
    case False
    with assms(1) o have "s' = s1" by (cases o1) (auto simp: submit_work_order_def split: option.splits)
    with k show ?thesis by simp
  next
    case True
    with assms(1) o obtain m s2 where m: "match_loop c (wo_asset (orders s1 r)) r [] s1 = Some (m, s2)"
      "s' = (case m of Inl e \<Rightarrow> s2 | Inr ms \<Rightarrow> snd (close_submission c r (wo_asset (orders s1 r)) ms s2))"
      by (auto simp: submit_work_order_def Let_def split: option.splits prod.splits sum.splits)
    have 1: "tame UNIV s1 s2" using tame_match_loop [OF m(1)] by simp
    have "tame UNIV s2 s'" using m(2) tame_close [of r UNIV c _ _ s2] by (cases m) (auto simp: tame_at_def tame_refl)
    with 1 k show ?thesis by (auto simp: tame_def)
  qed
qed

lemma cancel_in_tame: "cancel_in c i as s = (res, s') \<Longrightarrow> refs_in s \<subseteq> R \<Longrightarrow> tame R s s'"
proof (induction c i as s arbitrary: res s' rule: cancel_in.induct)
  case (1 c i s)
  then show ?case by (auto simp: tame_refl)
next
  case (2 c i a as s)
  obtain f q' where q: "DispatchQueues.cancel_work_order (orders s) i (the_queue a s) = (f, q')" by fastforce
  have sub: "set (all_refs q') \<subseteq> R" using cancel_refs(1) [OF q] the_queue_refs [of a s] 2(3) by blast
  have p: "tame R s (put_queue a q' s)" using tame_put_queue [OF sub 2(3)] .
  then have rp: "refs_in (put_queue a q' s) \<subseteq> R" by (simp add: tame_def)
  show ?case
  proof (cases f)
    case None
    with 2(2) q have "cancel_in c i as (put_queue a q' s) = (res, s')" by simp
    from 2(1) [OF q [symmetric] None this rp] p tame_trans show ?thesis by blast
  next
    case (Some r)
    then have "r \<in> R" using cancel_refs(2) [OF q] the_queue_refs [of a s] 2(3) by blast
    then have "tame_at R (andthen (stand_down c r ''Client requested'') (\<lambda>_. ret (Some r))) (put_queue a q' s)"
      by (intro tame_andthen tame_marks tame_basic)
    then have "tame R (put_queue a q' s) s'" using 2(2) q Some rp by (simp add: tame_at_def)
    with p tame_trans show ?thesis by blast
  qed
qed

lemma cancel_tame:
  "Engine.cancel_work_order c i asset s = (res, s') \<Longrightarrow> refs_in s \<subseteq> R \<Longrightarrow> tame R s s'"
  unfolding Engine.cancel_work_order_def Let_def by (rule cancel_in_tame)

text \<open>A cancellation changes at most a resting order that has the identifier.\<close>

lemma set_field_other: "set_field r f s = (x, s') \<Longrightarrow> y \<noteq> r \<Longrightarrow> orders s' y = orders s y"
  by (auto simp: set_field_def split: sum.splits)

lemma stand_down_other: "stand_down c r t s = (x, s') \<Longrightarrow> y \<noteq> r \<Longrightarrow> orders s' y = orders s y"
  by (auto simp: stand_down_def set_status_def touch_def utcnow_def publish_work_order_event_emit
      elim!: andthen_cases dest!: set_field_other [where y = y])

lemma cancel_in_other:
  "cancel_in c i as s = (res, s') \<Longrightarrow> refs_in s \<subseteq> R \<Longrightarrow> work_order_id (orders s x) \<noteq> i \<or> x \<notin> R \<Longrightarrow> orders s' x = orders s x"
proof (induction c i as s arbitrary: res s' rule: cancel_in.induct)
  case (2 c i a as s)
  obtain f q' where q: "DispatchQueues.cancel_work_order (orders s) i (the_queue a s) = (f, q')" by fastforce
  have sub: "set (all_refs q') \<subseteq> R" using cancel_refs(1) [OF q] the_queue_refs [of a s] 2(3) by blast
  have p: "tame R s (put_queue a q' s)" using tame_put_queue [OF sub 2(3)] .
  then have rp: "refs_in (put_queue a q' s) \<subseteq> R" by (simp add: tame_def)
  have o: "orders (put_queue a q' s) = orders s" by (simp add: put_queue_def)
  show ?case
  proof (cases f)
    case None
    with 2(2) q have "cancel_in c i as (put_queue a q' s) = (res, s')" by simp
    from 2(1) [OF q [symmetric] None this rp] 2(4) o show ?thesis by simp
  next
    case (Some r)
    then have r: "r \<in> R" "work_order_id (orders s r) = i" using cancel_refs(2) [OF q] the_queue_refs [of a s] 2(3) by blast+
    with 2(4) have "x \<noteq> r" by auto
    moreover obtain y where "stand_down c r ''Client requested'' (put_queue a q' s) = (y, s')"
      using 2(2) q Some by (auto simp: ret_def elim!: andthen_cases)
    ultimately show ?thesis using stand_down_other o by metis
  qed
qed auto

lemma cancel_other:
  "Engine.cancel_work_order c i asset s = (res, s') \<Longrightarrow> refs_in s \<subseteq> R \<Longrightarrow> work_order_id (orders s x) \<noteq> i \<or> x \<notin> R \<Longrightarrow>
   orders s' x = orders s x"
  unfolding Engine.cancel_work_order_def Let_def by (rule cancel_in_other)

end
