(* ===== verification/StoreLaws.thy ===== *)
theory StoreLaws
  imports Service
begin

text \<open>
  Laws of the store: a refused transaction leaves no trace, identifiers of assignments stay
  unique, readings come back newest first as they went in, and the search of the database
  finds what the search in memory finds.
\<close>

section \<open>Transactions\<close>

lemma in_session_error: "in_session ok body s = (Inl e, s') \<Longrightarrow> s' = s"
  by (auto simp: in_session_def split: if_splits sum.splits prod.splits)

lemma insert_assignments_error: "insert_assignments ok xs s = (Inl e, s') \<Longrightarrow> s' = s"
  by (auto simp: insert_assignments_def split: if_splits sum.splits dest: in_session_error)

lemma insert_readings_error: "insert_readings ok xs s = (Inl e, s') \<Longrightarrow> s' = s"
  by (auto simp: insert_readings_def split: if_splits sum.splits dest: in_session_error)

lemma upsert_equipments_error: "upsert_equipments ok xs s = (Inl e, s') \<Longrightarrow> s' = s"
  by (auto simp: upsert_equipments_def split: if_splits sum.splits dest: in_session_error)

lemma map_exn_ok: "map_exn f xs = Inr ys \<Longrightarrow> length ys = length xs \<and> list_all2 (\<lambda>x y. f x = Inr y) xs ys"
proof (induction xs arbitrary: ys)
  case (Cons x xs)
  then obtain y ys' where "f x = Inr y" "map_exn f xs = Inr ys'" "ys = y # ys'"
    by (cases "f x"; cases "map_exn f xs") auto
  with Cons.IH show ?case by auto
qed simp

lemma map_exn_all: "(\<And>x. x \<in> set xs \<Longrightarrow> f x = Inr (g x)) \<Longrightarrow> map_exn f xs = Inr (map g xs)"
  by (induction xs) auto

text \<open>A batch of assignments is stored as a whole, under identifiers not used before, or not at all.\<close>

lemma insert_assignments_spec:
  assumes "insert_assignments ok xs s = (res, s')"
  shows "case res of
      Inl e \<Rightarrow> s' = s
    | Inr n \<Rightarrow> \<exists>rows. list_all2 (\<lambda>x r. assignment_record x = Inr r) xs rows \<and> n = length xs \<and>
        st_assignments s' = st_assignments s @ rows \<and>
        (distinct (map as_id (st_assignments s)) \<longrightarrow> distinct (map as_id (st_assignments s')))"
proof (cases res)
  case (Inl e)
  with assms insert_assignments_error show ?thesis by simp
next
  case (Inr n)
  with assms obtain rows where r: "map_exn assignment_record xs = Inr rows"
    by (auto simp: insert_assignments_def split: sum.splits)
  have l: "length rows = length xs" "list_all2 (\<lambda>x r. assignment_record x = Inr r) xs rows" using map_exn_ok [OF r] by auto
  show ?thesis
  proof (cases "rows = []")
    case True
    with assms r Inr l show ?thesis by (auto simp: insert_assignments_def)
  next
    case False
    with assms r Inr have "in_session ok (add_assignments rows) s = (Inr n, s')" by (simp add: insert_assignments_def)
    then have "distinct (map as_id (st_assignments s @ rows))" "n = length rows"
      "s' = s\<lparr>st_assignments := st_assignments s @ rows\<rparr>"
      by (auto simp: in_session_def add_assignments_def split: if_splits)
    with l Inr show ?thesis by auto
  qed
qed

section \<open>Readings\<close>

lemma newest_first_snoc:
  assumes "\<forall>y\<in>set xs. instant (stamp y) \<le> instant (stamp x)"
  shows "newest_first stamp (xs @ [x]) = x # newest_first stamp xs"
proof -
  have "newest_first stamp (xs @ [x]) = insort_key (\<lambda>r. - instant (stamp r)) x (sort_key (\<lambda>r. - instant (stamp r)) (rev xs))"
    by (simp add: newest_first_def)
  also have "\<dots> = x # sort_key (\<lambda>r. - instant (stamp r)) (rev xs)"
    by (rule insort_is_Cons) (use assms in simp)
  finally show ?thesis by (simp add: newest_first_def)
qed

lemma newest_first_props:
  "mset (newest_first stamp xs) = mset xs" "sorted (map (\<lambda>r. - instant (stamp r)) (newest_first stamp xs))"
  by (simp_all add: newest_first_def)

lemma reading_recordD:
  assumes "reading_record r = Inr row"
  shows "store_decimal (in_min r) = Inr (rd_min row)" "store_decimal (in_max r) = Inr (rd_max row)"
    "store_decimal (in_last r) = Inr (rd_last row)" "in_count r = VInt (rd_count row)"
    "rd_asset row = canonical (in_asset r)" "rd_asset row \<noteq> []"
    "\<exists>t z. in_timestamp r = Aware t z \<and> rd_timestamp row = Naive t"
  using assms
  by (auto simp: reading_record_def validate_asset_id_def validate_sample_count_def bind_timestamp_def ensure_utc_def
      canonical_def Let_def split: sum.splits if_splits pyval.splits datetime.splits)

text \<open>The reading inserted last, unless an older one is newer, is the latest: exact, and in UTC.\<close>

lemma latest_after_insert:
  assumes ins: "insert_reading True r s = (Inr (), s')" and rec: "reading_record r = Inr row"
    and newest: "\<forall>x\<in>set (st_readings s). rd_asset x = rd_asset row \<longrightarrow> instant (rd_timestamp x) \<le> instant (rd_timestamp row)"
    and asset: "canonical a = rd_asset row"
  shows "latest_reading True a s' = (Inr (Some (read_reading row)), s')"
proof -
  have s': "s' = s\<lparr>st_readings := st_readings s @ [row]\<rparr>" "\<not> is_closed s"
    using ins rec by (auto simp: insert_reading_def in_session_def split: if_splits)
  have v: "validate_asset_id a = Inr (rd_asset row)"
    using asset reading_recordD(6) [OF rec] by (simp add: validate_asset_id_def canonical_def Let_def)
  let ?P = "\<lambda>x. rd_asset x = rd_asset row"
  have "newest_first rd_timestamp (filter ?P (st_readings s) @ [row]) = row # newest_first rd_timestamp (filter ?P (st_readings s))"
    by (rule newest_first_snoc) (use newest in auto)
  then have "get_readings True a None None (VInt 1) s' = (Inr [read_reading row], s')"
    using v s' by (simp add: get_readings_def bound_instant_def in_range_def validate_limit_def max_query_limit_def in_session_def)
  then show ?thesis by (simp add: latest_reading_def andthen_def ret_def)
qed

text \<open>A query returns the newest rows of the asset, newest first, and all of them if they fit.\<close>

lemma get_readings_spec:
  assumes "get_readings True a None None (VInt n) s = (Inr rows, s')"
  shows "s' = s \<and> length rows \<le> nat (min n max_query_limit) \<and>
    sorted (map (\<lambda>r. - instant (rd_timestamp r)) rows) \<and>
    (\<forall>r\<in>set rows. rd_asset r = canonical a \<and> rd_timestamp r = Aware (instant (rd_timestamp r)) 0) \<and>
    (length (filter (\<lambda>r. rd_asset r = canonical a) (st_readings s)) \<le> nat (min n max_query_limit) \<longrightarrow>
       mset rows = mset (map read_reading (filter (\<lambda>r. rd_asset r = canonical a) (st_readings s))))"
proof -
  let ?rows = "filter (\<lambda>r. rd_asset r = canonical a) (st_readings s)"
  let ?n = "nat (min n max_query_limit)"
  have rows: "rows = map read_reading (take ?n (newest_first rd_timestamp ?rows))" "s' = s"
    using assms
    by (auto simp: get_readings_def bound_instant_def in_range_def validate_limit_def validate_asset_id_def canonical_def Let_def
        in_session_def split: if_splits sum.splits)
  have i: "instant (rd_timestamp (read_reading r)) = instant (rd_timestamp r)" for r
    by (cases "rd_timestamp r") (simp_all add: read_reading_def)
  have st: "rd_timestamp (read_reading r) = Aware (instant (rd_timestamp (read_reading r))) 0" for r
    by (cases "rd_timestamp r") (simp_all add: read_reading_def)
  have "sorted (map (\<lambda>r. - instant (rd_timestamp r)) (take ?n (newest_first rd_timestamp ?rows)))"
    using newest_first_props(2) [of rd_timestamp ?rows] by (simp add: take_map [symmetric] sorted_wrt_take)
  then have srt: "sorted (map (\<lambda>r. - instant (rd_timestamp r)) rows)" using rows i by (simp add: comp_def)
  have mem: "x \<in> set (take ?n (newest_first rd_timestamp ?rows)) \<Longrightarrow> rd_asset x = canonical a" for x
    by (drule in_set_takeD) (simp add: newest_first_def)
  have all: "length ?rows \<le> ?n \<Longrightarrow> take ?n (newest_first rd_timestamp ?rows) = newest_first rd_timestamp ?rows"
    by (rule take_all) (simp add: newest_first_def)
  have "length rows \<le> ?n" using rows by simp
  moreover have "\<forall>r\<in>set rows. rd_asset r = canonical a \<and> rd_timestamp r = Aware (instant (rd_timestamp r)) 0"
  proof
    fix r assume "r \<in> set rows"
    then obtain x where x: "x \<in> set (take ?n (newest_first rd_timestamp ?rows))" "r = read_reading x" using rows by auto
    then have "rd_asset r = canonical a" using mem [OF x(1)] by (simp add: read_reading_def)
    with st [of x] x(2) show "rd_asset r = canonical a \<and> rd_timestamp r = Aware (instant (rd_timestamp r)) 0" by simp
  qed
  moreover have "mset rows = mset (map read_reading ?rows)" if "length ?rows \<le> ?n"
    using rows(1) all [OF that] newest_first_props(1) [of rd_timestamp ?rows] by simp
  ultimately show ?thesis using rows(2) srt by blast
qed

section \<open>Search\<close>

definition special :: "char \<Rightarrow> bool" where
  "special c \<longleftrightarrow> c = backslash \<or> c = CHR ''%'' \<or> c = CHR ''_''"

text \<open>The documented meaning of \<^verbatim>\<open>text LIKE pattern ESCAPE '\'\<close>, on ASCII without regard to case.\<close>

definition like_laws :: "(string \<Rightarrow> string \<Rightarrow> bool) \<Rightarrow> bool" where
  "like_laws lk \<longleftrightarrow> (\<forall>s. lk [] s \<longleftrightarrow> s = []) \<and>
     (\<forall>p s. lk (CHR ''%'' # p) s \<longleftrightarrow> (\<exists>u v. s = u @ v \<and> lk p v)) \<and>
     (\<forall>c p s. special c \<longrightarrow> (lk (backslash # c # p) s \<longleftrightarrow> (\<exists>t. s = c # t \<and> lk p t))) \<and>
     (\<forall>c p s. \<not> special c \<longrightarrow> (lk (c # p) s \<longleftrightarrow> (\<exists>d t. s = d # t \<and> lower_char d = lower_char c \<and> lk p t)))"

fun like_match :: "string \<Rightarrow> string \<Rightarrow> bool" where
  "like_match [] s = (s = [])"
| "like_match (c # p) s =
     (if c = CHR ''%'' then list_ex (\<lambda>n. like_match p (drop n s)) [0..<Suc (length s)]
      else if c = CHR ''_'' then s \<noteq> [] \<and> like_match p (tl s)
      else if c = backslash then (case p of [] \<Rightarrow> False | d # p' \<Rightarrow> s \<noteq> [] \<and> hd s = d \<and> like_match p' (tl s))
      else s \<noteq> [] \<and> lower_char (hd s) = lower_char c \<and> like_match p (tl s))"

lemma like_match_laws: "like_laws like_match"
proof -
  have "like_match (CHR ''%'' # p) s \<longleftrightarrow> (\<exists>u v. s = u @ v \<and> like_match p v)" for p s
  proof
    assume "like_match (CHR ''%'' # p) s"
    then obtain n where "like_match p (drop n s)" by (auto simp: list_ex_iff simp del: upt_Suc)
    then show "\<exists>u v. s = u @ v \<and> like_match p v" by (metis append_take_drop_id)
  next
    assume "\<exists>u v. s = u @ v \<and> like_match p v"
    then obtain u v where "s = u @ v" "like_match p v" by blast
    then have "length u \<in> set [0..<Suc (length s)]" "like_match p (drop (length u) s)" by auto
    then show "like_match (CHR ''%'' # p) s" by (auto simp: list_ex_iff)
  qed
  moreover have "like_match (backslash # c # p) s \<longleftrightarrow> (\<exists>t. s = c # t \<and> like_match p t)" for c p s
    by (cases s) (auto simp: backslash_def)
  moreover have "\<not> special c \<Longrightarrow> like_match (c # p) s \<longleftrightarrow> (\<exists>d t. s = d # t \<and> lower_char d = lower_char c \<and> like_match p t)" for c p s
    by (cases s) (auto simp: special_def)
  ultimately show ?thesis by (simp add: like_laws_def)
qed

lemma lower_char_idem [simp]: "lower_char (lower_char c) = lower_char c"
proof -
  have "\<not> is_upper (lower_char c)"
  proof (cases "is_upper c")
    case True
    then have "(of_char (lower_char c) :: nat) = of_char c + 32" by (auto simp: lower_char_def is_upper_def)
    with True show ?thesis by (simp add: is_upper_def)
  next
    case False
    then show ?thesis by (simp add: lower_char_def)
  qed
  then show ?thesis by (simp add: lower_char_def [of "lower_char c"])
qed

lemma special_codes: "special c \<longleftrightarrow> (of_char c :: nat) \<in> {37, 92, 95}"
proof -
  have "c = d \<longleftrightarrow> (of_char c :: nat) = of_char d" for d by simp
  then show ?thesis unfolding special_def backslash_def
    by (simp only: of_char_eq_iff [where 'a = nat, symmetric]) auto
qed

lemma lower_char_special: "special c \<Longrightarrow> lower_char c = c" "special (lower_char c) = special c"
proof -
  show "special c \<Longrightarrow> lower_char c = c" by (auto simp: special_codes lower_char_def is_upper_def)
  show "special (lower_char c) = special c"
  proof (cases "is_upper c")
    case True
    then have "(of_char (lower_char c) :: nat) = of_char c + 32" by (auto simp: lower_char_def is_upper_def)
    with True show ?thesis by (auto simp: special_codes is_upper_def)
  next
    case False
    then show ?thesis by (simp add: lower_char_def)
  qed
qed

text \<open>Escaping puts a backslash before every special character.\<close>

definition esc :: "char \<Rightarrow> string" where
  "esc c = (if special c then [backslash, c] else [c])"

lemma replace_char_append: "replace_char c r (s @ t) = replace_char c r s @ replace_char c r t"
  by (simp add: replace_char_def)

lemma escape_like_Cons: "escape_like (c # s) = esc c @ escape_like s"
proof -
  have "escape_like (c # s) = escape_like [c] @ escape_like s"
    unfolding escape_like_def using replace_char_append [of _ _ "[c]" s] by (simp add: replace_char_append)
  also have "escape_like [c] = esc c"
    by (auto simp: escape_like_def replace_char_def esc_def special_def backslash_def)
  finally show ?thesis .
qed

lemma escape_like_Nil [simp]: "escape_like [] = []"
  by (simp add: escape_like_def replace_char_def)

lemma like_escaped:
  assumes lk: "like_laws lk"
  shows "lk (lower (escape_like t) @ p) (lower s) \<longleftrightarrow> (\<exists>v. lower s = lower t @ v \<and> lk p v)"
proof (induction t arbitrary: s)
  case Nil
  then show ?case by (simp add: lower_def)
next
  case (Cons c t)
  show ?case
  proof (cases "special c")
    case True
    then have "lower (escape_like (c # t)) @ p = backslash # c # (lower (escape_like t) @ p)"
      using lower_char_special(1) [OF True] lower_char_special(1) [of backslash]
      by (simp add: escape_like_Cons esc_def lower_def special_def)
    then have "lk (lower (escape_like (c # t)) @ p) (lower s) \<longleftrightarrow>
        (\<exists>u. lower s = c # u \<and> lk (lower (escape_like t) @ p) u)"
      using lk True unfolding like_laws_def by simp
    also have "\<dots> \<longleftrightarrow> (\<exists>s'. lower s = c # lower s' \<and> lk (lower (escape_like t) @ p) (lower s'))"
      by (cases s) (auto simp: lower_def)
    also have "\<dots> \<longleftrightarrow> (\<exists>v. lower s = lower (c # t) @ v \<and> lk p v)"
      using Cons.IH lower_char_special(1) [OF True] by (cases s) (auto simp: lower_def)
    finally show ?thesis .
  next
    case False
    then have "lower (escape_like (c # t)) @ p = lower_char c # (lower (escape_like t) @ p)"
      by (simp add: escape_like_Cons esc_def lower_def)
    then have "lk (lower (escape_like (c # t)) @ p) (lower s) \<longleftrightarrow>
        (\<exists>d u. lower s = d # u \<and> lower_char d = lower_char c \<and> lk (lower (escape_like t) @ p) u)"
      using lk False lower_char_special(2) unfolding like_laws_def by simp
    also have "\<dots> \<longleftrightarrow> (\<exists>s'. lower s = lower_char c # lower s' \<and> lk (lower (escape_like t) @ p) (lower s'))"
      by (cases s) (auto simp: lower_def)
    also have "\<dots> \<longleftrightarrow> (\<exists>v. lower s = lower (c # t) @ v \<and> lk p v)"
      using Cons.IH by (cases s) (auto simp: lower_def)
    finally show ?thesis .
  qed
qed

lemma lower_tail:
  assumes "lower s = u @ v"
  shows "\<exists>s'. v = lower s'"
proof -
  have "v = drop (length u) (lower s)" using assms by simp
  also have "\<dots> = lower (drop (length u) s)" by (simp add: lower_def drop_map)
  finally show ?thesis by blast
qed

lemma ilike_contains:
  assumes "like_laws lk"
  shows "ilike lk (''%'' @ escape_like needle @ ''%'') s \<longleftrightarrow> contains_text (lower needle) (lower s)"
proof -
  have low: "lower (''%'' @ escape_like needle @ ''%'') = CHR ''%'' # (lower (escape_like needle) @ ''%'')"
    using lower_char_special(1) [of "CHR ''%''"] by (simp add: lower_def special_def)
  have any: "lk (CHR ''%'' # p) v \<longleftrightarrow> (\<exists>u w. v = u @ w \<and> lk p w)" and nil: "lk [] w \<longleftrightarrow> w = []" for p v w
    using assms unfolding like_laws_def by simp_all
  have pct: "lk ''%'' v" for v unfolding any nil by simp
  have "ilike lk (''%'' @ escape_like needle @ ''%'') s \<longleftrightarrow> (\<exists>u v. lower s = u @ v \<and> lk (lower (escape_like needle) @ ''%'') v)"
    unfolding ilike_def low any ..
  also have "\<dots> \<longleftrightarrow> (\<exists>u w. lower s = u @ lower needle @ w)"
  proof
    assume "\<exists>u v. lower s = u @ v \<and> lk (lower (escape_like needle) @ ''%'') v"
    then obtain u v where v: "lower s = u @ v" "lk (lower (escape_like needle) @ ''%'') v" by blast
    then obtain s' where "v = lower s'" using lower_tail by blast
    with v like_escaped [OF assms, of needle "''%''" s'] show "\<exists>u w. lower s = u @ lower needle @ w" by auto
  next
    assume "\<exists>u w. lower s = u @ lower needle @ w"
    then obtain u w where w: "lower s = u @ lower needle @ w" by blast
    then obtain s' where "lower needle @ w = lower s'" using lower_tail by blast
    with w like_escaped [OF assms, of needle "''%''" s'] pct
    show "\<exists>u v. lower s = u @ v \<and> lk (lower (escape_like needle) @ ''%'') v" by metis
  qed
  finally show ?thesis by (simp add: contains_text_def sublist_def)
qed

text \<open>The rows of the equipment, and the search over both.\<close>

definition row_of :: "equipment \<Rightarrow> equipment_row" where
  "row_of e = \<lparr>er_asset = eq_asset_id e, er_name = eq_name e, er_type = category_value (equipment_type e), er_currency = currency e,
     er_site = site_code e, er_rate = hourly_service_rate e, er_increment = rate_increment e, er_lot = hour_lot_size e\<rparr>"

definition equipment_table_ok :: "(string, equipment) dict \<Rightarrow> bool" where
  "equipment_table_ok d \<longleftrightarrow> dict_ok d \<and>
     (\<forall>(a, e)\<in>set d. a = eq_asset_id e \<and> canonical (eq_asset_id e) = eq_asset_id e \<and> eq_asset_id e \<noteq> [])"

lemma foldl_new_rows:
  "distinct (map er_asset rows) \<Longrightarrow> set (map er_asset rows) \<inter> set (dict_keys t) = {} \<Longrightarrow>
   foldl (\<lambda>t r. dict_set (er_asset r) r t) t rows = t @ map (\<lambda>r. (er_asset r, r)) rows"
proof (induction rows arbitrary: t)
  case (Cons r rows)
  then have "dict_set (er_asset r) r t = t @ [(er_asset r, r)]" by (intro dict_set_new) auto
  with Cons show ?case by auto
qed simp

lemma upsert_rows:
  assumes ok: "equipment_table_ok d" and s: "st_equipment s = []" "\<not> is_closed s"
  shows "\<exists>s'. upsert_equipments True (dict_values d) s = (Inr (length d), s') \<and> \<not> is_closed s' \<and>
    dict_values (st_equipment s') = map row_of (dict_values d)"
proof -
  have p: "equipment_payload e = Inr (row_of e)" if "e \<in> set (dict_values d)" for e
  proof -
    have "canonical (eq_asset_id e) = eq_asset_id e" "eq_asset_id e \<noteq> []" using ok that by (auto simp: equipment_table_ok_def)
    then show ?thesis by (simp add: equipment_payload_def validate_asset_id_def canonical_def Let_def row_of_def)
  qed
  then have m: "map_exn equipment_payload (dict_values d) = Inr (map row_of (dict_values d))" by (rule map_exn_all)
  have keys: "map er_asset (map row_of (dict_values d)) = dict_keys d"
    using ok by (auto simp: equipment_table_ok_def row_of_def)
  have "distinct (map er_asset (map row_of (dict_values d)))" using ok keys by (simp only: equipment_table_ok_def dict_ok_def)
  then have f: "foldl (\<lambda>t r. dict_set (er_asset r) r t) [] (map row_of (dict_values d)) =
      map (\<lambda>r. (er_asset r, r)) (map row_of (dict_values d))"
    using foldl_new_rows [of "map row_of (dict_values d)" "[]"] by simp
  show ?thesis
  proof (cases "d = []")
    case True
    with s m show ?thesis by (simp add: upsert_equipments_def)
  next
    case False
    with s m f show ?thesis by (simp add: upsert_equipments_def in_session_def del: map_map) (simp add: comp_def)
  qed
qed

lemma sort_key_mapped: "sort_key f (map g xs) = map g (sort_key (f \<circ> g) xs)"
proof -
  have "insort_key f (g x) (map g xs) = map g (insort_key (f \<circ> g) x xs)" for x xs by (induction xs) auto
  then show ?thesis by (induction xs) (auto simp: comp_def)
qed

text \<open>Both searches find the same equipment, in the same order, and print it in the same way.\<close>

lemma searches_agree:
  assumes lk: "like_laws lk" and rows: "dict_values (st_equipment s) = map row_of (dict_values d)" "\<not> is_closed s"
    and q: "strip q \<noteq> []" "length (strip q) \<le> max_search_query_length" and l: "1 \<le> limit" "limit \<le> max_search_limit"
  shows "\<exists>found. search_equipment lk True (VStr q) (VInt limit) s = (Inr found, s) \<and>
    map equipment_dict found = search_equipment_in_memory d q (nat limit)"
proof -
  let ?P = "\<lambda>e. contains_text (lower (strip q)) (lower (eq_asset_id e)) \<or> contains_text (lower (strip q)) (lower (eq_name e))"
  let ?Q = "\<lambda>r. ilike lk (''%'' @ escape_like (strip q) @ ''%'') (er_asset r) \<or> ilike lk (''%'' @ escape_like (strip q) @ ''%'') (er_name r)"
  have pq: "?Q (row_of e) = ?P e" for e by (simp only: ilike_contains [OF lk] row_of_def equipment_row.simps)
  have "filter ?Q (map row_of (dict_values d)) = map row_of (filter ?P (dict_values d))"
    by (simp only: filter_map comp_def pq)
  moreover have "er_asset \<circ> row_of = eq_asset_id" by (auto simp: row_of_def)
  ultimately have "sort_key er_asset (filter ?Q (dict_values (st_equipment s))) = map row_of (sort_key eq_asset_id (filter ?P (dict_values d)))"
    using rows(1) by (simp add: sort_key_mapped)
  moreover have "validate_limit (VInt limit) max_search_limit = Inr (nat limit)" using l by (simp add: validate_limit_def)
  ultimately have "search_equipment lk True (VStr q) (VInt limit) s =
      (Inr (take (nat limit) (map row_of (sort_key eq_asset_id (filter ?P (dict_values d))))), s)"
    using q rows(2) by (simp add: search_equipment_def Let_def in_session_def)
  moreover have "equipment_dict (row_of e) = equipment_entry e" for e
    by (simp add: equipment_dict_def equipment_entry_def row_of_def)
  ultimately show ?thesis
    by (simp add: search_equipment_in_memory_def Let_def take_map comp_def)
qed

end
