(* ===== verification/ServiceLaws.thy ===== *)
theory ServiceLaws
  imports Service EngineFrames StoreLaws
begin

text \<open>
  Laws of the service: which operations only read, the invariant that ties the books of the
  organizations to the engine and its preservation, the bound of the cost history, and that a
  failed persistence undoes nothing.
\<close>

section \<open>Reading operations\<close>

definition reading :: "service \<Rightarrow> service \<Rightarrow> bool" where
  "reading sv sv' \<longleftrightarrow> sv_engine sv' = sv_engine sv \<and> (\<forall>g. bk_orders (the_book g sv') = bk_orders (the_book g sv))"

definition reads :: "(service, 'a) action \<Rightarrow> bool" where
  "reads m \<longleftrightarrow> (\<forall>sv. reading sv (snd (m sv)))"

lemma reading_refl [simp]: "reading sv sv"
  by (simp add: reading_def)

lemma reading_trans: "reading a b \<Longrightarrow> reading b c \<Longrightarrow> reading a c"
  by (simp add: reading_def)

lemma the_book_put [simp]: "the_book g (put_book org b sv) = (if g = org then b else the_book g sv)"
  by (simp add: the_book_def put_book_def dict_simps)

lemma put_book_engine [simp]: "sv_engine (put_book org b sv) = sv_engine sv" "sv_store (put_book org b sv) = sv_store sv"
  by (simp_all add: put_book_def)

lemma reading_put: "bk_orders b = bk_orders (the_book org sv) \<Longrightarrow> reading sv (put_book org b sv)"
  by (simp add: reading_def)

lemma reads_andthen:
  assumes "reads m" "\<And>a. reads (f a)"
  shows "reads (andthen m f)"
  unfolding reads_def
proof
  fix sv
  obtain res sv' where m: "m sv = (res, sv')" by fastforce
  then have 1: "reading sv sv'" using assms(1) unfolding reads_def by (metis snd_conv)
  show "reading sv (snd (andthen m f sv))"
  proof (cases res)
    case (Inr a)
    have "reading sv' (snd (f a sv'))" using assms(2) unfolding reads_def by blast
    with 1 m Inr show ?thesis using reading_trans by (simp add: andthen_def)
  qed (use 1 m in \<open>simp add: andthen_def\<close>)
qed

lemma reads_engine: "(\<And>s. reads (m s)) \<Longrightarrow> reads (\<lambda>sv. m (sv_engine sv) sv)"
  by (simp add: reads_def)

lemma reads_basic [simp]: "reads (ret a)" "reads (\<lambda>sv. (x sv, sv))" "reads (book_of org)"
  by (simp_all add: reads_def ret_def book_of_def reading_put)

lemma reads_analytics_for [simp]: "reads (analytics_for org)"
  unfolding reads_def analytics_for_def Let_def by (auto simp: reading_put split: option.split sum.split)

lemma reads_with_analytics [simp]: "reads (with_analytics org m)"
  unfolding with_analytics_def
  by (rule reads_andthen [OF reads_analytics_for]) (auto simp: reads_def reading_put split: prod.split)

lemma reads_queries [simp]:
  "reads (get_work_order org i)" "reads (work_orders_for org)" "reads (active_work_order_count org)" "reads (cost_history org)"
  by (simp_all add: get_work_order_def work_orders_for_def active_work_order_count_def cost_history_def reads_andthen Let_def)

lemma reads_risk [simp]: "reads (risk_payload np mix c now org)"
  using reads_with_analytics unfolding reads_def risk_payload_def by blast

lemma reads_dashboard [simp]: "reads (dashboard_payload np mix c now org)"
proof -
  have "reads (\<lambda>sv. m (sv_engine sv) sv)"
    if "m = (\<lambda>s. andthen (with_analytics org (analytics_snapshot now s)) (\<lambda>snap.
       andthen (with_analytics org (total_exposure s)) (\<lambda>exposure.
       andthen (active_work_order_count org) (\<lambda>active. andthen (cost_history org) (g snap exposure active)))))"
      "\<And>a b d e. reads (g a b d e)" for m g
    by (rule reads_engine) (unfold that(1), intro reads_andthen reads_with_analytics reads_queries that(2))
  note rest = this [OF refl]
  show ?thesis
    unfolding dashboard_payload_def
    by (rule reads_andthen [OF reads_analytics_for], rule reads_andthen [OF reads_basic(2)],
      rule reads_andthen [OF reads_risk], rule rest) (simp add: reads_def)
qed

section \<open>Submission and cancellation\<close>

lemma reading_append_cost: "reading sv (append_cost stamp org sv)"
  by (simp add: append_cost_def Let_def reading_put)

lemma reading_record_cost: "reading sv (record_cost as sv)"
proof -
  have "reading sv (foldl (\<lambda>v org. append_cost t org v) sv os)" for t os
  proof (induction os arbitrary: sv)
    case (Cons g os)
    have "reading sv (append_cost t g sv)" by (rule reading_append_cost)
    moreover have "reading (append_cost t g sv) (foldl (\<lambda>v org. append_cost t org v) (append_cost t g sv) os)"
      by (rule Cons.IH)
    ultimately show ?case using reading_trans by simp
  qed simp
  then show ?thesis by (simp add: record_cost_def)
qed

lemma reading_store: "reading sv (sv\<lparr>sv_store := x\<rparr>)"
  by (simp add: reading_def the_book_def)

lemma reads_persist: "reads (persist_assignments ok r as)"
  by (auto simp: reads_def persist_assignments_def reading_store split: option.split prod.split sum.split)

lemma register_order_props [simp]:
  "sv_engine (register_order org r sv) = sv_engine sv"
  "bk_orders (the_book g (register_order org r sv)) = (if g = org
     then dict_set (work_order_id (orders (sv_engine sv) r)) r (bk_orders (the_book org sv)) else bk_orders (the_book g sv))"
  by (simp_all add: register_order_def Let_def)

lemma the_book_engine [simp]: "the_book g (sv\<lparr>sv_engine := s\<rparr>) = the_book g sv"
  by (simp add: the_book_def)

text \<open>What a submission leaves: the engine's state, and the order in the book of its organization.\<close>

lemma service_submit_cases:
  assumes "service_submit c ok org r sv = Some (res, sv')"
  obtains (Foreign) "wo_organization (orders (sv_engine sv) r) \<noteq> org" "res = Inl ValueError" "sv' = sv"
    | (Raised) e s' where "submit_work_order (sc_engine c) r (sv_engine sv) = Some (Inl e, s')" "res = Inl e" "sv' = sv\<lparr>sv_engine := s'\<rparr>"
        "wo_organization (orders (sv_engine sv) r) = org"
    | (Done) d s' where "submit_work_order (sc_engine c) r (sv_engine sv) = Some (Inr d, s')"
        "reading (register_order org r (sv\<lparr>sv_engine := s'\<rparr>)) sv'" "wo_organization (orders (sv_engine sv) r) = org"
        "res = map_sum id (\<lambda>_. d) (fst (persist_assignments ok r (dr_assignments d)
            (record_cost (dr_assignments d) (register_order org r (sv\<lparr>sv_engine := s'\<rparr>)))))"
proof (cases "wo_organization (orders (sv_engine sv) r) = org")
  case False
  with assms have "res = Inl ValueError" "sv' = sv" by (auto simp: service_submit_def)
  with False show ?thesis by (rule Foreign)
next
  case True
  then obtain eres s' where e: "submit_work_order (sc_engine c) r (sv_engine sv) = Some (eres, s')"
    using assms by (auto simp: service_submit_def split: option.splits)
  show ?thesis
  proof (cases eres)
    case (Inl x)
    with assms True e have "res = Inl x" "sv' = sv\<lparr>sv_engine := s'\<rparr>" by (auto simp: service_submit_def)
    with Raised [OF e [unfolded Inl]] True show ?thesis by blast
  next
    case (Inr d)
    define sv1 where "sv1 = record_cost (dr_assignments d) (register_order org r (sv\<lparr>sv_engine := s'\<rparr>))"
    obtain p sv2 where p: "persist_assignments ok r (dr_assignments d) sv1 = (p, sv2)" by fastforce
    have "res = map_sum id (\<lambda>_. d) p \<and> sv' = sv2"
      using assms True e Inr p by (cases p) (auto simp: service_submit_def Let_def sv1_def andthen_def ret_def)
    moreover have "reading sv1 sv2" using reads_persist p unfolding reads_def by (metis snd_conv)
    moreover have "reading (register_order org r (sv\<lparr>sv_engine := s'\<rparr>)) sv1" unfolding sv1_def by (rule reading_record_cost)
    ultimately show ?thesis using Done [OF e [unfolded Inr]] True p reading_trans by (simp add: sv1_def)
  qed
qed

section \<open>The books and the engine\<close>

text \<open>
  Every order in a book belongs to the book's organization, bears the identifier it is filed
  under, and that identifier is known to the engine; identifiers are unique over all books;
  resting orders have known identifiers and are the orders filed under them.
\<close>

definition filed :: "service \<Rightarrow> string \<Rightarrow> string \<Rightarrow> ref \<Rightarrow> bool" where
  "filed sv org i r \<longleftrightarrow> dict_get (bk_orders (the_book org sv)) i = Some r"

definition books_ok :: "service \<Rightarrow> bool" where
  "books_ok sv \<longleftrightarrow>
     (\<forall>org i r. filed sv org i r \<longrightarrow> wo_organization (orders (sv_engine sv) r) = org \<and>
        work_order_id (orders (sv_engine sv) r) = i \<and> i \<in> known_ids (sv_engine sv)) \<and>
     (\<forall>org org' i r r'. filed sv org i r \<longrightarrow> filed sv org' i r' \<longrightarrow> r = r') \<and>
     (\<forall>r\<in>refs_in (sv_engine sv). work_order_id (orders (sv_engine sv) r) \<in> known_ids (sv_engine sv) \<and>
        (\<forall>org r'. filed sv org (work_order_id (orders (sv_engine sv) r)) r' \<longrightarrow> r = r'))"

lemma books_okD:
  assumes "books_ok sv"
  shows "filed sv org i r \<Longrightarrow> wo_organization (orders (sv_engine sv) r) = org"
    "filed sv org i r \<Longrightarrow> work_order_id (orders (sv_engine sv) r) = i"
    "filed sv org i r \<Longrightarrow> i \<in> known_ids (sv_engine sv)"
    "filed sv org i r \<Longrightarrow> filed sv org' i r' \<Longrightarrow> r = r'"
    "r \<in> refs_in (sv_engine sv) \<Longrightarrow> work_order_id (orders (sv_engine sv) r) \<in> known_ids (sv_engine sv)"
    "r \<in> refs_in (sv_engine sv) \<Longrightarrow> filed sv org (work_order_id (orders (sv_engine sv) r)) r' \<Longrightarrow> r = r'"
  using assms unfolding books_ok_def by blast+

lemma filed_reading: "reading sv sv' \<Longrightarrow> filed sv' org i r = filed sv org i r"
  by (simp add: reading_def filed_def)

lemma books_ok_reading: "reading sv sv' \<Longrightarrow> books_ok sv \<Longrightarrow> books_ok sv'"
  by (simp add: books_ok_def filed_reading) (simp add: reading_def)

lemma identityD:
  "identity w = identity v \<Longrightarrow> work_order_id w = work_order_id v \<and> wo_organization w = wo_organization v \<and> wo_asset w = wo_asset v"
  by (simp add: identity_def)

lemma tame_names:
  assumes "tame R s s'"
  shows "work_order_id (orders s' x) = work_order_id (orders s x)" "wo_organization (orders s' x) = wo_organization (orders s x)"
    "wo_asset (orders s' x) = wo_asset (orders s x)" "refs_in s' \<subseteq> R" "known_ids s \<subseteq> known_ids s'" "x \<notin> R \<Longrightarrow> orders s' x = orders s x"
  using assms identityD unfolding tame_def by blast+

lemma books_ok_engine:
  assumes b: "books_ok sv" and t: "tame R (sv_engine sv) s'"
    and new: "\<And>r. r \<in> refs_in s' \<Longrightarrow> r \<notin> refs_in (sv_engine sv) \<Longrightarrow>
       work_order_id (orders (sv_engine sv) r) \<in> known_ids s' \<and> work_order_id (orders (sv_engine sv) r) \<notin> known_ids (sv_engine sv)"
  shows "books_ok (sv\<lparr>sv_engine := s'\<rparr>)"
proof -
  note n = tame_names [OF t] and B = books_okD [OF b]
  have f: "filed (sv\<lparr>sv_engine := s'\<rparr>) = filed sv" by (intro ext) (simp add: filed_def)
  have "work_order_id (orders s' r) \<in> known_ids s' \<and> (\<forall>org r'. filed sv org (work_order_id (orders s' r)) r' \<longrightarrow> r = r')"
    if "r \<in> refs_in s'" for r
  proof (cases "r \<in> refs_in (sv_engine sv)")
    case True
    then show ?thesis using n(1,5) B(5,6) by auto
  next
    case False
    with new [OF that] n(1) B(3) show ?thesis by auto
  qed
  then show ?thesis unfolding books_ok_def f using n(1,2,5) B by auto
qed

lemma books_ok_submit:
  assumes b: "books_ok sv" and s: "service_submit c ok org r sv = Some (res, sv')"
  shows "books_ok sv'"
  using s
proof (cases rule: service_submit_cases)
  case Foreign
  with b show ?thesis by simp
next
  case (Raised e s')
  let ?i = "work_order_id (orders (sv_engine sv) r)"
  have t: "tame (insert r (refs_in (sv_engine sv))) (sv_engine sv) s'" using submit_tame [OF Raised(1) subset_refl] .
  show ?thesis
  proof (cases "?i \<in> known_ids (sv_engine sv)")
    case True
    then have "s' = sv_engine sv" using Raised(1) by (simp add: submit_known)
    with Raised b show ?thesis by simp
  next
    case False
    have "books_ok (sv\<lparr>sv_engine := s'\<rparr>)"
      by (rule books_ok_engine [OF b t]) (use tame_names(4) [OF t] submit_known_after [OF Raised(1)] False in auto)
    with Raised show ?thesis by simp
  qed
next
  case (Done d s')
  let ?i = "work_order_id (orders (sv_engine sv) r)"
  have t: "tame (insert r (refs_in (sv_engine sv))) (sv_engine sv) s'" using submit_tame [OF Done(1) subset_refl] .
  note n = tame_names [OF t]
  have new: "?i \<notin> known_ids (sv_engine sv)"
    using Done(1) submit_known by fastforce
  have k: "?i \<in> known_ids s'" by (rule submit_known_after [OF Done(1)])
  have b1: "books_ok (sv\<lparr>sv_engine := s'\<rparr>)"
    by (rule books_ok_engine [OF b t]) (use n(4) k new in auto)
  note B = books_okD [OF b1]
  have nf: "\<not> filed sv g ?i x" for g x using books_okD(3) [OF b] new by blast
  let ?v = "register_order org r (sv\<lparr>sv_engine := s'\<rparr>)"
  have f: "filed ?v g i x \<longleftrightarrow> (if g = org \<and> i = ?i then x = r else filed sv g i x)" for g i x
    by (auto simp: filed_def dict_simps n(1))
  have e: "sv_engine ?v = s'" by simp
  have f0: "filed (sv\<lparr>sv_engine := s'\<rparr>) = filed sv" by (intro ext) (simp add: filed_def)
  note B = B [unfolded f0, simplified]
  have "books_ok ?v"
    unfolding books_ok_def e
  proof (intro conjI allI impI ballI)
    fix g i x assume h: "filed ?v g i x"
    show "wo_organization (orders s' x) = g" "work_order_id (orders s' x) = i" "i \<in> known_ids s'"
      using h B(1-3) n(1,2) Done(3) k by (auto simp: f split: if_splits)
  next
    fix g g' i x x' assume "filed ?v g i x" "filed ?v g' i x'"
    then show "x = x'" using B(4) nf by (auto simp: f split: if_splits)
  next
    fix x assume x: "x \<in> refs_in s'"
    then show "work_order_id (orders s' x) \<in> known_ids s'" by (rule B(5))
    fix g x' assume h: "filed ?v g (work_order_id (orders s' x)) x'"
    show "x = x'"
    proof (cases "work_order_id (orders s' x) = ?i")
      case True
      then have "x' = r" using h nf by (auto simp: f split: if_splits)
      moreover have "x = r"
      proof (rule ccontr)
        assume "x \<noteq> r"
        then have "x \<in> refs_in (sv_engine sv)" using x n(4) by blast
        then have "work_order_id (orders (sv_engine sv) x) \<in> known_ids (sv_engine sv)" by (rule books_okD(5) [OF b])
        with True n(1) new show False by simp
      qed
      ultimately show ?thesis by simp
    next
      case False
      then have "filed sv g (work_order_id (orders s' x)) x'" using h by (simp add: f)
      with x show ?thesis by (rule B(6))
    qed
  qed
  with Done(2) show ?thesis by (rule books_ok_reading)
qed

lemma books_ok_cancel:
  assumes b: "books_ok sv" and s: "service_cancel c org i sv = (res, sv')"
  shows "books_ok sv'"
proof -
  obtain owned sv1 where g: "get_work_order org i sv = (Inr owned, sv1)"
    by (simp add: get_work_order_def andthen_def book_of_def ret_def)
  have r: "reading sv sv1" using reads_queries(1) [of org i] g unfolding reads_def by (metis snd_conv)
  have b1: "books_ok sv1" using books_ok_reading [OF r b] .
  show ?thesis
  proof (cases owned)
    case None
    with s g b1 show ?thesis by (auto simp: service_cancel_def andthen_def)
  next
    case (Some x)
    obtain q s' where q: "Engine.cancel_work_order (sc_engine c) i (Some (wo_asset (orders (sv_engine sv1) x))) (sv_engine sv1) = (q, s')"
      by fastforce
    have t: "tame (refs_in (sv_engine sv1)) (sv_engine sv1) s'" using cancel_tame [OF q subset_refl] .
    have "sv' = sv1\<lparr>sv_engine := s'\<rparr>" using s g Some q by (simp add: service_cancel_def andthen_def)
    moreover have "books_ok (sv1\<lparr>sv_engine := s'\<rparr>)"
      by (rule books_ok_engine [OF b1 t]) (use tame_names(4) [OF t] in auto)
    ultimately show ?thesis by simp
  qed
qed

text \<open>A cancellation changes at most the order that its organization filed under the identifier.\<close>

lemma cancel_own_only:
  assumes b: "books_ok sv" and s: "service_cancel c org i sv = (res, sv')"
    and x: "orders (sv_engine sv') x \<noteq> orders (sv_engine sv) x"
  shows "filed sv org i x \<and> wo_organization (orders (sv_engine sv) x) = org"
proof -
  obtain sv1 where g: "get_work_order org i sv = (Inr (dict_get (bk_orders (the_book org sv)) i), sv1)"
    by (simp add: get_work_order_def andthen_def book_of_def ret_def)
  have r: "reading sv sv1" using reads_queries(1) [of org i] g unfolding reads_def by (metis snd_conv)
  then have e: "sv_engine sv1 = sv_engine sv" by (simp add: reading_def)
  obtain y where y: "dict_get (bk_orders (the_book org sv)) i = Some y"
    using s g x e by (cases "dict_get (bk_orders (the_book org sv)) i") (auto simp: service_cancel_def andthen_def)
  obtain q s' where q: "Engine.cancel_work_order (sc_engine c) i (Some (wo_asset (orders (sv_engine sv) y))) (sv_engine sv) = (q, s')"
    by fastforce
  have "sv_engine sv' = s'" using s g y q e by (auto simp: service_cancel_def andthen_def)
  then have "x \<in> refs_in (sv_engine sv)" "work_order_id (orders (sv_engine sv) x) = i"
    using cancel_other [OF q subset_refl] x by blast+
  moreover have f: "filed sv org i y" using y by (simp add: filed_def)
  ultimately have "x = y" using books_okD(6) [OF b] by blast
  with f books_okD(1) [OF b f] show ?thesis by simp
qed

section \<open>Costs and persistence\<close>

definition tidy_books :: "service \<Rightarrow> bool" where
  "tidy_books sv \<longleftrightarrow> (\<forall>org. length (bk_costs (the_book org sv)) \<le> cost_history_limit \<and> dict_ok (bk_orders (the_book org sv)))"

lemma tidy_books_append: "tidy_books sv \<Longrightarrow> tidy_books (append_cost t org sv)"
  by (simp add: tidy_books_def append_cost_def Let_def)

lemma tidy_books_record: "tidy_books sv \<Longrightarrow> tidy_books (record_cost as sv)"
proof -
  have "tidy_books sv \<Longrightarrow> tidy_books (foldl (\<lambda>v org. append_cost t org v) sv os)" for t os
    by (induction os arbitrary: sv) (simp_all add: tidy_books_append)
  then show "tidy_books sv \<Longrightarrow> tidy_books (record_cost as sv)" by (simp add: record_cost_def)
qed

lemma persist_books: "persist_assignments ok r as sv = (p, sv') \<Longrightarrow> sv_books sv' = sv_books sv \<and> sv_engine sv' = sv_engine sv"
  by (auto simp: persist_assignments_def split: if_splits option.splits prod.splits sum.splits)

text \<open>
  Whether the database accepts the assignments makes no difference to the engine and the
  books; when it does not, the error names the order and every assignment it made.
\<close>

lemma service_submit_parts:
  assumes e: "submit_work_order (sc_engine c) r (sv_engine sv) = Some (Inr d, s')" and o: "wo_organization (orders (sv_engine sv) r) = org"
  shows "\<exists>res sv'. service_submit c ok org r sv = Some (res, sv') \<and> sv_engine sv' = s' \<and>
    sv_books sv' = sv_books (record_cost (dr_assignments d) (register_order org r (sv\<lparr>sv_engine := s'\<rparr>))) \<and>
    (res = Inr d \<or> dr_assignments d \<noteq> [] \<and> res = Inl (persistence_error (orders s' r) (dr_assignments d)))"
proof -
  define sv1 where "sv1 = record_cost (dr_assignments d) (register_order org r (sv\<lparr>sv_engine := s'\<rparr>))"
  have s1: "sv_engine sv1 = s'" using reading_record_cost [of "register_order org r (sv\<lparr>sv_engine := s'\<rparr>)"]
    by (simp add: sv1_def reading_def)
  obtain p sv2 where p: "persist_assignments ok r (dr_assignments d) sv1 = (p, sv2)" by fastforce
  have "p = Inr () \<or> dr_assignments d \<noteq> [] \<and> p = Inl (persistence_error (orders s' r) (dr_assignments d))"
    using p s1 by (auto simp: persist_assignments_def split: if_splits option.splits prod.splits sum.splits)
  then show ?thesis
    using e o p persist_books [OF p] s1 by (auto simp: service_submit_def sv1_def Let_def andthen_def ret_def)
qed

end
