(* ===== verification/ApiLaws.thy ===== *)
theory ApiLaws
  imports Api ServiceLaws
begin

text \<open>
  Laws of the HTTP surface: who may do what, that organizations see and cancel only their own
  orders, the invariant of the application over all requests, and the status codes of a
  submission.
\<close>

section \<open>Permissions\<close>

lemma call_verb_not_options [simp]: "call_verb k \<noteq> ''OPTIONS''"
  by (cases k) simp_all

lemma private_paths: "k \<noteq> HealthCall \<Longrightarrow> call_path k \<notin> set default_public_paths"
  by (cases k) (simp_all add: default_public_paths_def)

definition key_of :: "app_config \<Rightarrow> env \<Rightarrow> string option \<Rightarrow> app \<Rightarrow> api_key option" where
  "key_of c n header a = (case header of None \<Rightarrow> None
    | Some raw \<Rightarrow> (case validate_key (ac_mac c) (en_clock n) (VStr raw) (ap_keys a) of Inr (Some k) \<Rightarrow> Some k | _ \<Rightarrow> None))"

definition principal_of :: "api_key \<Rightarrow> principal" where
  "principal_of k = \<lparr>pr_organization = ak_organization k, pr_permissions = ak_permissions k, pr_key_id = key_id k\<rparr>"

lemma principal_of_fields [simp]:
  "pr_organization (principal_of k) = ak_organization k" "pr_permissions (principal_of k) = ak_permissions k"
  by (simp_all add: principal_of_def)

lemma authenticate_key:
  assumes "authenticate (ac_mac c) (en_clock n) (ac_public c) (call_verb k) p header (ap_keys a) = Inr (Inr (Some x))"
  shows "\<exists>key. key_of c n header a = Some key \<and> x = principal_of key"
  using assms
  by (auto simp: authenticate_def key_of_def principal_of_def split: if_splits option.splits sum.splits)

text \<open>What a request does: it is refused with the state unchanged, or its endpoint runs.\<close>

lemma handle_cases:
  assumes "handle c n header k a = (res, a')"
  obtains (Refused) "a' = a" "\<And>r. res = Inr r \<Longrightarrow> rs_status r \<in> {401, 403, 503}"
    | (Health) "k = HealthCall" "a' = a"
    | (Served) key where "key_of c n header a = Some key" "call_permission k = Some permission_read \<or> call_permission k = Some permission_dispatch"
        "the (call_permission k) \<in> ak_permissions key" "endpoint_of c n k (principal_of key) a = (res, a')"
proof -
  have h: "call_permission k = None \<longleftrightarrow> k = HealthCall" by (cases k) simp_all
  have two: "call_permission k = Some p \<Longrightarrow> p = permission_read \<or> p = permission_dispatch" for p
    by (cases k) auto
  show ?thesis
  proof (cases "authenticate (ac_mac c) (en_clock n) (ac_public c) (call_verb k) (call_path k) header (ap_keys a)")
    case (Inl e)
    with assms have "a' = a" "res = Inl e" by (simp_all add: handle_def)
    then show ?thesis by (intro Refused) auto
  next
    case (Inr rp)
    show ?thesis
    proof (cases rp)
      case r: (Inl r)
      have "rs_status r \<in> {401, 403}"
        using Inr r by (auto simp: authenticate_def json_error_def split: if_splits option.splits sum.splits)
      moreover have "a' = a" "res = Inr r" using assms Inr r by (simp_all add: handle_def)
      ultimately show ?thesis by (intro Refused) auto
    next
      case p: (Inr p)
      show ?thesis
      proof (cases "call_permission k")
        case None
        with h have "k = HealthCall" by simp
        moreover have "a' = a" using assms Inr p None by (auto simp: handle_def health_check_def split: if_splits)
        ultimately show ?thesis by (rule Health)
      next
        case perm: (Some permission)
        show ?thesis
        proof (cases "require_permission permission p")
          case r: (Inl r)
          have "rs_status r \<in> {401, 403}"
            using r by (auto simp: require_permission_def get_principal_def json_error_def split: option.splits if_splits sum.splits)
          moreover have "a' = a" "res = Inr r" using assms Inr p perm r by (simp_all add: handle_def)
          ultimately show ?thesis by (intro Refused) auto
        next
          case x: (Inr x)
          then have px: "p = Some x" "permission \<in> pr_permissions x"
            by (auto simp: require_permission_def get_principal_def principal_has_def split: option.splits if_splits sum.splits)
          from authenticate_key [OF Inr [unfolded p px(1)]] obtain key where
            key: "key_of c n header a = Some key" "x = principal_of key" by blast
          show ?thesis
          proof (cases "\<not> ap_ready a \<and> k \<noteq> PoliciesCall \<and> k \<noteq> MetricsCall")
            case True
            with assms Inr p perm x have "a' = a" "res = Inr services_missing" by (simp_all add: handle_def)
            then show ?thesis by (intro Refused) (auto simp: services_missing_def json_error_def)
          next
            case False
            with assms Inr p perm x have "endpoint_of c n k x a = (res, a')" by (auto simp: handle_def)
            with Served [of key] key px perm two [OF perm] show ?thesis by simp
          qed
        qed
      qed
    qed
  qed
qed

section \<open>The invariant of the application\<close>

definition app_ok :: "app \<Rightarrow> bool" where
  "app_ok a \<longleftrightarrow> books_ok (ap_service a) \<and> refs_in (sv_engine (ap_service a)) \<subseteq> {..<ap_next a} \<and>
     (\<forall>org i r. filed (ap_service a) org i r \<longrightarrow> r < ap_next a) \<and> tidy_books (ap_service a)"

text \<open>What every endpoint but submission and cancellation does to the service: it reads.\<close>

definition app_reads :: "app \<Rightarrow> app \<Rightarrow> bool" where
  "app_reads a a' \<longleftrightarrow> reading (ap_service a) (ap_service a') \<and> ap_next a' = ap_next a \<and> ap_keys a' = ap_keys a \<and>
     (tidy_books (ap_service a) \<longrightarrow> tidy_books (ap_service a'))"

lemma app_reads_refl [simp]: "app_reads a a"
  by (simp add: app_reads_def)

lemma app_reads_trans: "app_reads a b \<Longrightarrow> app_reads b c \<Longrightarrow> app_reads a c"
  using reading_trans unfolding app_reads_def by metis

text \<open>No reading operation records costs.\<close>

definition keeps_costs :: "(service, 'a) action \<Rightarrow> bool" where
  "keeps_costs m \<longleftrightarrow> (\<forall>sv g. bk_costs (the_book g (snd (m sv))) = bk_costs (the_book g sv))"

lemma keeps_costs_andthen:
  assumes "keeps_costs m" "\<And>a. keeps_costs (f a)"
  shows "keeps_costs (andthen m f)"
  unfolding keeps_costs_def
proof (intro allI)
  fix sv g
  obtain res sv' where m: "m sv = (res, sv')" by fastforce
  have 1: "bk_costs (the_book g sv') = bk_costs (the_book g sv)" using assms(1) m unfolding keeps_costs_def by (metis snd_conv)
  show "bk_costs (the_book g (snd (andthen m f sv))) = bk_costs (the_book g sv)"
    using assms(2) 1 m unfolding keeps_costs_def by (cases res) (simp_all add: andthen_def)
qed

lemma keeps_costs_basic [simp]: "keeps_costs (ret a)" "keeps_costs (\<lambda>sv. (x sv, sv))" "keeps_costs (book_of org)"
  by (simp_all add: keeps_costs_def ret_def book_of_def)

lemma keeps_costs_analytics [simp]: "keeps_costs (analytics_for org)" "keeps_costs (with_analytics org m)"
proof -
  show a: "keeps_costs (analytics_for org)"
    unfolding keeps_costs_def analytics_for_def Let_def by (auto split: option.split sum.split)
  show "keeps_costs (with_analytics org m)"
    unfolding with_analytics_def by (rule keeps_costs_andthen [OF a]) (auto simp: keeps_costs_def split: prod.split)
qed

lemma keeps_costs_queries [simp]:
  "keeps_costs (get_work_order org i)" "keeps_costs (work_orders_for org)" "keeps_costs (active_work_order_count org)"
  "keeps_costs (cost_history org)"
  by (simp_all add: get_work_order_def work_orders_for_def active_work_order_count_def cost_history_def keeps_costs_andthen Let_def)

lemma keeps_costs_engine: "(\<And>s. keeps_costs (m s)) \<Longrightarrow> keeps_costs (\<lambda>sv. m (sv_engine sv) sv)"
  by (simp add: keeps_costs_def)

lemma keeps_costs_risk [simp]: "keeps_costs (risk_payload np mix c now org)"
  using keeps_costs_analytics(2) unfolding keeps_costs_def risk_payload_def by blast

lemma keeps_costs_dashboard [simp]: "keeps_costs (dashboard_payload np mix c now org)"
proof -
  have "keeps_costs (\<lambda>sv. m (sv_engine sv) sv)"
    if "m = (\<lambda>s. andthen (with_analytics org (analytics_snapshot now s)) (\<lambda>snap.
       andthen (with_analytics org (total_exposure s)) (\<lambda>exposure.
       andthen (active_work_order_count org) (\<lambda>active. andthen (cost_history org) (g snap exposure active)))))"
      "\<And>a b d e. keeps_costs (g a b d e)" for m g
    by (rule keeps_costs_engine) (unfold that(1), intro keeps_costs_andthen keeps_costs_analytics keeps_costs_queries that(2))
  note rest = this [OF refl]
  show ?thesis
    unfolding dashboard_payload_def
    by (rule keeps_costs_andthen [OF keeps_costs_analytics(1)], rule keeps_costs_andthen [OF keeps_costs_basic(2)],
      rule keeps_costs_andthen [OF keeps_costs_risk], rule rest) (simp add: keeps_costs_def)
qed

lemma on_service_reads:
  assumes "reads m" "keeps_costs m" "on_service m a = (res, a')"
  shows "app_reads a a'"
proof -
  obtain r sv where m: "m (ap_service a) = (r, sv)" by fastforce
  have a': "a' = a\<lparr>ap_service := sv\<rparr>" using assms(3) m by (simp add: on_service_def)
  have "reading (ap_service a) sv" using assms(1) m unfolding reads_def by (metis snd_conv)
  moreover have "bk_costs (the_book g sv) = bk_costs (the_book g (ap_service a))" for g
    using assms(2) m unfolding keeps_costs_def by (metis snd_conv)
  ultimately show ?thesis by (simp add: app_reads_def a' tidy_books_def reading_def)
qed

lemma on_service_then:
  assumes "reads m" "keeps_costs m" "andthen (on_service m) f a = (res, a')" "\<And>x b. snd (f x b) = b"
  shows "app_reads a a'"
proof -
  obtain r b where b: "on_service m a = (r, b)" by fastforce
  have "app_reads a b" using on_service_reads [OF assms(1,2) b] .
  moreover have "a' = b" using assms(3,4) b by (cases r) (auto simp: andthen_def dest: arg_cong [where f = snd])
  ultimately show ?thesis by simp
qed

lemma app_ok_reads:
  assumes r: "app_reads a a'" and a: "app_ok a"
  shows "app_ok a'"
proof -
  have rd: "reading (ap_service a) (ap_service a')" and n: "ap_next a' = ap_next a" using r by (simp_all add: app_reads_def)
  have "sv_engine (ap_service a') = sv_engine (ap_service a)" using rd by (simp add: reading_def)
  moreover have "tidy_books (ap_service a')" using r a by (simp add: app_reads_def app_ok_def)
  moreover have "books_ok (ap_service a')" using books_ok_reading [OF rd] a by (simp add: app_ok_def)
  ultimately show ?thesis using a filed_reading [OF rd] n by (simp add: app_ok_def)
qed

lemma app_reads_store: "app_reads a (a\<lparr>ap_service := (ap_service a)\<lparr>sv_store := x\<rparr>\<rparr>)"
  by (simp add: app_reads_def reading_store tidy_books_def) (simp add: the_book_def)

lemma endpoint_reads:
  assumes e: "endpoint_of c n k p a = (res, a')" and k: "\<And>b. k \<noteq> SubmitCall b" "\<And>i. k \<noteq> CancelCall i"
  shows "app_reads a a'"
proof (cases k)
  case (GetCall i)
  show ?thesis
  proof (cases "order_id_ok i")
    case True
    with e GetCall have "get_endpoint p i a = (res, a')" by simp
    then show ?thesis unfolding get_endpoint_def by (rule on_service_then [rotated 2]) simp_all
  qed (use e GetCall in \<open>simp add: ret_def\<close>)
next
  case ListCall
  with e have "list_endpoint p a = (res, a')" by simp
  then show ?thesis unfolding list_endpoint_def by (rule on_service_then [rotated 2]) simp_all
next
  case SnapshotCall
  have "reads (\<lambda>sv. with_analytics g (m (sv_engine sv)) sv)" "keeps_costs (\<lambda>sv. with_analytics g (m (sv_engine sv)) sv)"
    for g and m :: "engine_state \<Rightarrow> (engine_state, 'b) an_op"
    by (rule reads_engine, simp, rule keeps_costs_engine, simp)
  moreover from SnapshotCall e have "snapshot_endpoint (en_now n) p a = (res, a')" by simp
  ultimately show ?thesis unfolding snapshot_endpoint_def by (elim on_service_then [rotated 2]) (simp_all add: ret_def)
next
  case RiskCall
  with e have "risk_endpoint c (en_now n) p a = (res, a')" by simp
  then show ?thesis unfolding risk_endpoint_def by (rule on_service_then [rotated 2]) (simp_all add: ret_def)
next
  case DashboardCall
  with e have "dashboard_endpoint c (en_now n) p a = (res, a')" by simp
  then show ?thesis unfolding dashboard_endpoint_def by (rule on_service_then [rotated 2]) (simp_all add: ret_def)
next
  case (SearchCall q l)
  show ?thesis
  proof (cases "search_query_ok q \<and> search_limit_ok l")
    case True
    with e SearchCall have "search_endpoint c (en_ok n) q l a = (res, a')" by simp
    then show ?thesis
      by (auto simp: search_endpoint_def Let_def app_reads_store split: option.splits if_splits prod.splits sum.splits)
  qed (use e SearchCall in \<open>auto simp: ret_def\<close>)
qed (use e k in \<open>auto simp: ret_def health_check_def workloads_endpoint_def policies_endpoint_def metrics_endpoint_def Let_def\<close>)

text \<open>Creating an order object, submitting it, cancelling one.\<close>

definition allocated :: "app \<Rightarrow> work_order \<Rightarrow> service" where
  "allocated a w = (let sv = ap_service a in
     sv\<lparr>sv_engine := (sv_engine sv)\<lparr>orders := (orders (sv_engine sv))(ap_next a := w)\<rparr>\<rparr>)"

lemma allocated_frame [simp]:
  "orders (sv_engine (allocated a w)) = (orders (sv_engine (ap_service a)))(ap_next a := w)"
  "known_ids (sv_engine (allocated a w)) = known_ids (sv_engine (ap_service a))"
  "queues (sv_engine (allocated a w)) = queues (sv_engine (ap_service a))"
  "sv_books (allocated a w) = sv_books (ap_service a)" "sv_store (allocated a w) = sv_store (ap_service a)"
  "the_book g (allocated a w) = the_book g (ap_service a)"
  by (simp_all add: allocated_def Let_def the_book_def)

lemma books_ok_allocated:
  assumes "app_ok a"
  shows "books_ok (allocated a w)"
proof -
  have b: "books_ok (ap_service a)" and q: "refs_in (sv_engine (ap_service a)) \<subseteq> {..<ap_next a}"
    and f: "\<And>org i r. filed (ap_service a) org i r \<Longrightarrow> r < ap_next a" using assms unfolding app_ok_def by auto
  have fl: "filed (allocated a w) = filed (ap_service a)" by (intro ext) (simp add: filed_def)
  have rf: "refs_in (sv_engine (allocated a w)) = refs_in (sv_engine (ap_service a))" by (simp add: refs_in_def)
  have same: "r < ap_next a \<Longrightarrow> orders (sv_engine (allocated a w)) r = orders (sv_engine (ap_service a)) r" for r by simp
  show ?thesis
    unfolding books_ok_def fl rf
  proof (intro conjI allI impI ballI)
    fix org i r assume h: "filed (ap_service a) org i r"
    from f [OF h] same books_okD(1-3) [OF b h]
    show "wo_organization (orders (sv_engine (allocated a w)) r) = org" "work_order_id (orders (sv_engine (allocated a w)) r) = i"
      "i \<in> known_ids (sv_engine (allocated a w))" by simp_all
  next
    fix org org' i r r' assume "filed (ap_service a) org i r" "filed (ap_service a) org' i r'"
    then show "r = r'" by (rule books_okD(4) [OF b])
  next
    fix r assume r: "r \<in> refs_in (sv_engine (ap_service a))"
    then have l: "orders (sv_engine (allocated a w)) r = orders (sv_engine (ap_service a)) r" using q same by blast
    show "work_order_id (orders (sv_engine (allocated a w)) r) \<in> known_ids (sv_engine (allocated a w))"
      using books_okD(5) [OF b r] by (simp only: l allocated_frame(2))
    fix org r' assume "filed (ap_service a) org (work_order_id (orders (sv_engine (allocated a w)) r)) r'"
    then show "r = r'" using books_okD(6) [OF b r] by (simp only: l)
  qed
qed

lemma service_submit_frames:
  assumes "service_submit c ok org r sv = Some (res, sv')"
  shows "refs_in (sv_engine sv') \<subseteq> insert r (refs_in (sv_engine sv))"
    "filed sv' g i x \<Longrightarrow> filed sv g i x \<or> x = r"
    "tidy_books sv \<Longrightarrow> tidy_books sv'"
proof -
  have "refs_in (sv_engine sv') \<subseteq> insert r (refs_in (sv_engine sv)) \<and> (filed sv' g i x \<longrightarrow> filed sv g i x \<or> x = r)"
    using assms
  proof (cases rule: service_submit_cases)
    case (Raised e s')
    then show ?thesis using tame_names(4) [OF submit_tame [OF Raised(1) subset_refl]] by (simp add: filed_def)
  next
    case (Done d s')
    have "sv_engine sv' = s'" using Done(2) by (simp add: reading_def)
    then show ?thesis
      using tame_names(4) [OF submit_tame [OF Done(1) subset_refl]] filed_reading [OF Done(2)]
      by (auto simp: filed_def dict_simps split: if_splits)
  qed auto
  then show "refs_in (sv_engine sv') \<subseteq> insert r (refs_in (sv_engine sv))" "filed sv' g i x \<Longrightarrow> filed sv g i x \<or> x = r" by auto
  assume cb: "tidy_books sv"
  from assms show "tidy_books sv'"
  proof (cases rule: service_submit_cases)
    case (Done d s')
    have "tidy_books (register_order org r (sv\<lparr>sv_engine := s'\<rparr>))"
      using cb by (auto simp: tidy_books_def register_order_def Let_def)
    then have "tidy_books (record_cost (dr_assignments d) (register_order org r (sv\<lparr>sv_engine := s'\<rparr>)))"
      by (rule tidy_books_record)
    moreover obtain res2 sv2 where "service_submit c ok org r sv = Some (res2, sv2)"
      "sv_books sv2 = sv_books (record_cost (dr_assignments d) (register_order org r (sv\<lparr>sv_engine := s'\<rparr>)))"
      using service_submit_parts [OF Done(1,3)] by blast
    ultimately show ?thesis using assms by (simp add: tidy_books_def the_book_def)
  qed (use cb in \<open>auto simp: tidy_books_def\<close>)
qed

lemma submit_endpoint_ok:
  assumes a: "app_ok a" and e: "submit_endpoint c ok now uid p q a = (res, a')"
  shows "app_ok a'"
proof (cases "to_work_order now uid (pr_organization p) q")
  case (Inl x)
  with e a show ?thesis by (auto simp: submit_endpoint_def)
next
  case (Inr w)
  show ?thesis
  proof (cases "service_submit (ac_service c) ok (pr_organization p) (ap_next a) (allocated a w)")
    case None
    with e a Inr show ?thesis by (auto simp: submit_endpoint_def allocated_def Let_def)
  next
    case (Some rs)
    obtain r sv1 where r: "rs = (r, sv1)" by (cases rs)
    have a': "a' = a\<lparr>ap_service := sv1, ap_next := Suc (ap_next a)\<rparr>"
      using e Inr Some r by (cases r) (auto simp: submit_endpoint_def allocated_def Let_def)
    note fr = service_submit_frames [OF Some [unfolded r]]
    have rf: "refs_in (sv_engine (allocated a w)) = refs_in (sv_engine (ap_service a))" by (simp add: refs_in_def)
    have "books_ok sv1" using books_ok_submit [OF books_ok_allocated [OF a] Some [unfolded r]] .
    moreover have "refs_in (sv_engine sv1) \<subseteq> {..<Suc (ap_next a)}" using fr(1) a rf unfolding app_ok_def by fastforce
    moreover have "filed sv1 org i x \<Longrightarrow> x < Suc (ap_next a)" for org i x
      using fr(2) [of org i x] a unfolding app_ok_def filed_def by fastforce
    moreover have "tidy_books sv1" using fr(3) a by (simp add: app_ok_def tidy_books_def)
    ultimately show ?thesis by (simp add: app_ok_def a')
  qed
qed

lemma cancel_endpoint_service:
  assumes e: "cancel_endpoint c p i a = (res, a')"
  shows "\<exists>r sv b. service_cancel (ac_service c) (pr_organization p) i (ap_service a) = (r, sv) \<and>
     b = a\<lparr>ap_service := sv\<rparr> \<and> app_reads b a'"
proof -
  obtain r sv where s: "service_cancel (ac_service c) (pr_organization p) i (ap_service a) = (r, sv)" by fastforce
  define b where "b = a\<lparr>ap_service := sv\<rparr>"
  have o: "on_service (service_cancel (ac_service c) (pr_organization p) i) a = (r, b)" using s by (simp add: on_service_def b_def)
  have "app_reads b a'"
  proof (cases "r = Inr None")
    case True
    with e o have "andthen (on_service (get_work_order (pr_organization p) i)) (\<lambda>known a2.
            (Inr (error_detail 409
              [(''error'', VStr ''work_order_not_resting''), (''work_order_id'', VStr i),
               (''status'', VStr (case known of None \<Rightarrow> ''UNKNOWN''
                  | Some r \<Rightarrow> status_value (status (orders (sv_engine (ap_service a2)) r))))]), a2)) b = (res, a')"
      by (simp add: cancel_endpoint_def)
    then show ?thesis by (rule on_service_then [rotated 2]) simp_all
  next
    case False
    then have "a' = b" using e o by (auto simp: cancel_endpoint_def Let_def split: sum.splits option.splits)
    then show ?thesis by simp
  qed
  with s b_def show ?thesis by blast
qed

lemma service_cancel_frames:
  assumes "service_cancel c org i sv = (res, sv')"
  shows "refs_in (sv_engine sv') \<subseteq> refs_in (sv_engine sv)" "filed sv' g j x = filed sv g j x"
    "tidy_books sv \<Longrightarrow> tidy_books sv'"
proof -
  let ?o = "dict_get (bk_orders (the_book org sv)) i"
  obtain sv1 where g: "get_work_order org i sv = (Inr ?o, sv1)" "sv1 = put_book org (the_book org sv) sv"
    by (simp add: get_work_order_def andthen_def book_of_def ret_def)
  have s1: "sv_engine sv1 = sv_engine sv" "\<And>g. the_book g sv1 = the_book g sv" using g(2) by simp_all
  have "refs_in (sv_engine sv') \<subseteq> refs_in (sv_engine sv) \<and> (\<forall>g. the_book g sv' = the_book g sv)"
  proof (cases ?o)
    case None
    with assms g s1 show ?thesis by (auto simp: service_cancel_def andthen_def)
  next
    case (Some y)
    obtain q s' where q: "Engine.cancel_work_order (sc_engine c) i (Some (wo_asset (orders (sv_engine sv) y))) (sv_engine sv) = (q, s')"
      by fastforce
    have "sv' = sv1\<lparr>sv_engine := s'\<rparr>" using assms g(1) Some q s1 by (auto simp: service_cancel_def andthen_def)
    then show ?thesis using tame_names(4) [OF cancel_tame [OF q subset_refl]] s1 by simp
  qed
  then show "refs_in (sv_engine sv') \<subseteq> refs_in (sv_engine sv)" "filed sv' g j x = filed sv g j x"
    "tidy_books sv \<Longrightarrow> tidy_books sv'" by (simp_all add: filed_def tidy_books_def)
qed

lemma cancel_endpoint_ok:
  assumes a: "app_ok a" and e: "cancel_endpoint c p i a = (res, a')"
  shows "app_ok a'"
proof -
  obtain r sv b where s: "service_cancel (ac_service c) (pr_organization p) i (ap_service a) = (r, sv)"
    "b = a\<lparr>ap_service := sv\<rparr>" "app_reads b a'" using cancel_endpoint_service [OF e] by blast
  note fr = service_cancel_frames [OF s(1)]
  have "books_ok sv" by (rule books_ok_cancel [OF _ s(1)]) (use a in \<open>simp add: app_ok_def\<close>)
  then have "app_ok b" using a fr s(2) by (auto simp: app_ok_def)
  with s(3) show ?thesis by (rule app_ok_reads)
qed

lemma handle_ok:
  assumes a: "app_ok a" and h: "handle c n header k a = (res, a')"
  shows "app_ok a'"
  using h
proof (cases rule: handle_cases)
  case (Served key)
  show ?thesis
  proof (cases k)
    case (SubmitCall b)
    with Served(4) a submit_endpoint_ok show ?thesis by (auto simp: ret_def split: sum.splits)
  next
    case (CancelCall i)
    with Served(4) a cancel_endpoint_ok show ?thesis by (auto simp: ret_def split: if_splits)
  qed (use app_ok_reads [OF endpoint_reads [OF Served(4)] a] in auto)
qed (use a in simp_all)

text \<open>
  The requests an application can see, from its start; between them the keys, the metrics and what the other
  tasks of the process share with the engine (the bus, the store, the marks of the workloads) may change.
\<close>

inductive served :: "app_config \<Rightarrow> app \<Rightarrow> bool" for c where
  Opened: "served c \<lparr>ap_ready = True, ap_service = open_service (new_engine h b) store, ap_keys = keys,
     ap_metrics = metrics, ap_next = 0, ap_feed_task = task\<rparr>"
| Request: "served c a \<Longrightarrow> handle c n header k a = (res, a') \<Longrightarrow> served c a'"
| Keys: "served c a \<Longrightarrow> served c (a\<lparr>ap_keys := keys, ap_metrics := metrics, ap_feed_task := task, ap_ready := ready\<rparr>)"
| Shared: "served c a \<Longrightarrow> served c (a\<lparr>ap_service := (ap_service a)\<lparr>sv_store := store,
     sv_engine := (sv_engine (ap_service a))\<lparr>bus := b, workloads := ws, ticks := n\<rparr>\<rparr>\<rparr>)"

lemma open_service_ok: "app_ok \<lparr>ap_ready = r, ap_service = open_service (new_engine h b) store, ap_keys = keys,
     ap_metrics = metrics, ap_next = 0, ap_feed_task = task\<rparr>"
  by (simp add: app_ok_def books_ok_def open_service_def filed_def the_book_def empty_book_def refs_in_def new_engine_def tidy_books_def)

lemma served_ok: "served c a \<Longrightarrow> app_ok a"
proof (induction rule: served.induct)
  case (Request a n header k res a')
  then show ?case using handle_ok by blast
next
  case (Opened h b store keys metrics task)
  show ?case by (rule open_service_ok)
next
  case (Shared a n ws b store)
  let ?s = "(sv_engine (ap_service a))\<lparr>bus := b, workloads := ws, ticks := n\<rparr>"
  let ?v = "(ap_service a)\<lparr>sv_store := store, sv_engine := ?s\<rparr>"
  have r: "refs_in ?s = refs_in (sv_engine (ap_service a))" by (simp add: refs_in_def)
  have f: "filed ?v = filed (ap_service a)" by (intro ext) (simp add: filed_def the_book_def)
  from Shared show ?case by (simp add: the_book_def app_ok_def books_ok_def tidy_books_def r f)
qed (simp add: app_ok_def)

section \<open>Who may do what\<close>

lemma no_key_no_access:
  assumes "k \<noteq> HealthCall" "ac_public c = default_public_paths" "key_of c n header a = None"
    "\<And>raw e. header = Some raw \<Longrightarrow> validate_key (ac_mac c) (en_clock n) (VStr raw) (ap_keys a) \<noteq> Inl e"
  shows "\<exists>r. handle c n header k a = (Inr r, a) \<and> rs_status r = (if header = None \<or> header = Some [] then 401 else 403)"
  using assms private_paths [OF assms(1)]
  by (auto simp: handle_def authenticate_def key_of_def json_error_def split: option.splits sum.splits)

lemma engine_changes_need_dispatch:
  assumes h: "handle c n header k a = (res, a')" and ch: "sv_engine (ap_service a') \<noteq> sv_engine (ap_service a)"
  shows "\<exists>key. key_of c n header a = Some key \<and> ''dispatch'' \<in> ak_permissions key \<and>
    ((\<exists>b. k = SubmitCall b) \<or> (\<exists>i. k = CancelCall i))"
  using h
proof (cases rule: handle_cases)
  case (Served key)
  show ?thesis
  proof (cases "(\<exists>b. k = SubmitCall b) \<or> (\<exists>i. k = CancelCall i)")
    case True
    then have "call_permission k = Some permission_dispatch" by auto
    with Served True show ?thesis by (auto simp: permission_dispatch_def)
  next
    case False
    with endpoint_reads [OF Served(4)] ch show ?thesis by (auto simp: app_reads_def reading_def)
  qed
qed (use ch in simp_all)

lemma cancel_touches_own:
  assumes a: "app_ok a" and h: "handle c n header (CancelCall i) a = (res, a')"
    and x: "orders (sv_engine (ap_service a')) x \<noteq> orders (sv_engine (ap_service a)) x"
  shows "\<exists>key. key_of c n header a = Some key \<and> work_order_id (orders (sv_engine (ap_service a)) x) = i \<and>
    wo_organization (orders (sv_engine (ap_service a)) x) = ak_organization key"
  using h
proof (cases rule: handle_cases)
  case (Served key)
  then have "order_id_ok i" using x by (auto simp: ret_def split: if_splits)
  with Served(4) have "cancel_endpoint c (principal_of key) i a = (res, a')" by simp
  from cancel_endpoint_service [OF this] obtain r sv b where
    s: "service_cancel (ac_service c) (ak_organization key) i (ap_service a) = (r, sv)" "b = a\<lparr>ap_service := sv\<rparr>" "app_reads b a'"
    by auto
  then have "orders (sv_engine sv) x \<noteq> orders (sv_engine (ap_service a)) x" using x by (simp add: app_reads_def reading_def)
  moreover have b: "books_ok (ap_service a)" using a by (simp add: app_ok_def)
  ultimately have "filed (ap_service a) (ak_organization key) i x" "wo_organization (orders (sv_engine (ap_service a)) x) = ak_organization key"
    using cancel_own_only [OF _ s(1)] by blast+
  with Served(1) books_okD(2) [OF b] show ?thesis by blast
qed (use x in simp_all)

text \<open>Reading one order, or the list of them, shows orders of the caller's organization only.\<close>

lemma get_shows_own:
  assumes a: "app_ok a" and h: "handle c n header (GetCall i) a = (Inr r, a')" and s: "rs_status r = 200"
  shows "\<exists>key x. key_of c n header a = Some key \<and> rs_body r = work_order_json (orders (sv_engine (ap_service a)) x) \<and>
    work_order_id (orders (sv_engine (ap_service a)) x) = i \<and>
    wo_organization (orders (sv_engine (ap_service a)) x) = ak_organization key"
  using h
proof (cases rule: handle_cases)
  case Refused
  with s show ?thesis by fastforce
next
  case (Served key)
  let ?o = "dict_get (bk_orders (the_book (ak_organization key) (ap_service a))) i"
  obtain sv1 where g: "get_work_order (ak_organization key) i (ap_service a) = (Inr ?o, sv1)" "sv_engine sv1 = sv_engine (ap_service a)"
    by (simp add: get_work_order_def andthen_def book_of_def ret_def)
  have "order_id_ok i" using Served(4) s by (auto simp: ret_def unprocessable_def json_error_def split: if_splits)
  with Served(4) have e: "get_endpoint (principal_of key) i a = (Inr r, a')" by simp
  then obtain x where x: "?o = Some x" "r = \<lparr>rs_status = 200, rs_body = work_order_json (orders (sv_engine (ap_service a)) x)\<rparr>"
    using g s by (cases ?o) (auto simp: get_endpoint_def andthen_def on_service_def json_error_def)
  have b: "books_ok (ap_service a)" using a by (simp add: app_ok_def)
  have "filed (ap_service a) (ak_organization key) i x" using x(1) by (simp add: filed_def)
  with books_okD(1,2) [OF b] x(2) Served(1) show ?thesis by auto
qed simp

lemma list_shows_own:
  assumes a: "app_ok a" and h: "handle c n header ListCall a = (Inr r, a')" and s: "rs_status r = 200"
  shows "\<exists>key xs. key_of c n header a = Some key \<and>
    rs_body r = VDict [(''work_orders'', VList (map (\<lambda>x. work_order_json (orders (sv_engine (ap_service a)) x)) xs)),
      (''count'', VInt (int (length xs)))] \<and>
    sorted (map (\<lambda>x. created_at (orders (sv_engine (ap_service a)) x)) xs) \<and>
    (\<forall>x\<in>set xs. wo_organization (orders (sv_engine (ap_service a)) x) = ak_organization key)"
  using h
proof (cases rule: handle_cases)
  case Refused
  with s show ?thesis by fastforce
next
  case (Served key)
  let ?h = "orders (sv_engine (ap_service a))"
  let ?b = "bk_orders (the_book (ak_organization key) (ap_service a))"
  define xs where "xs = sort_key (\<lambda>r. created_at (?h r)) (sort_key (\<lambda>r. work_order_id (?h r)) (dict_values ?b))"
  have e: "list_endpoint (principal_of key) a = (Inr r, a')" using Served(4) by simp
  have body: "rs_body r = VDict [(''work_orders'', VList (map (\<lambda>x. work_order_json (?h x)) xs)), (''count'', VInt (int (length xs)))]"
    using e by (auto simp: list_endpoint_def andthen_def on_service_def work_orders_for_def book_of_def Let_def xs_def)
  have b: "books_ok (ap_service a)" using a by (simp add: app_ok_def)
  have "wo_organization (?h x) = ak_organization key" if "x \<in> set xs" for x
  proof -
    have "x \<in> set (dict_values ?b)" using that by (simp add: xs_def)
    then obtain i where "(i, x) \<in> set ?b" by auto
    moreover have "dict_ok ?b" using a by (simp add: app_ok_def tidy_books_def)
    ultimately have "filed (ap_service a) (ak_organization key) i x" by (simp add: filed_def dict_ok_def)
    then show ?thesis by (rule books_okD(1) [OF b])
  qed
  moreover have "sorted (map (\<lambda>x. created_at (?h x)) xs)" by (simp add: xs_def)
  ultimately show ?thesis using Served(1) body by blast
qed simp

section \<open>The outcome of a submission\<close>

lemma handle_served:
  assumes key: "key_of c n header a = Some key" and perm: "call_permission k = Some p" "p \<in> ak_permissions key"
    and pub: "ac_public c = default_public_paths" and ready: "ap_ready a"
  shows "handle c n header k a = endpoint_of c n k (principal_of key) a"
proof -
  have "k \<noteq> HealthCall" using perm by auto
  from private_paths [OF this] pub have path: "call_path k \<notin> set (ac_public c)" by simp
  obtain raw where raw: "header = Some raw" "validate_key (ac_mac c) (en_clock n) (VStr raw) (ap_keys a) = Inr (Some key)"
    using key by (auto simp: key_of_def split: option.splits sum.splits)
  then have "raw \<noteq> []" by (auto simp: validate_key_def)
  with path raw have "authenticate (ac_mac c) (en_clock n) (ac_public c) (call_verb k) (call_path k) header (ap_keys a) =
      Inr (Inr (Some (principal_of key)))"
    by (simp add: authenticate_def principal_of_def)
  moreover have "require_permission p (Some (principal_of key)) = Inr (principal_of key)"
    using perm by (simp add: require_permission_def get_principal_def principal_has_def)
  ultimately show ?thesis using perm ready by (simp add: handle_def)
qed

lemma engine_inv_allocated:
  assumes a: "app_ok a" and i: "engine_inv (sv_engine (ap_service a))"
  shows "engine_inv (sv_engine (allocated a w))"
proof (rule engine_inv_light [OF i])
  show "light (ap_next a) (sv_engine (ap_service a)) (sv_engine (allocated a w))"
    by (simp add: light_def allocated_def Let_def)
  show "apart (ap_next a) (queues (sv_engine (ap_service a)))"
  proof -
    have "ap_next a \<notin> refs_in (sv_engine (ap_service a))" using a by (auto simp: app_ok_def)
    moreover have "set (all_refs q) \<subseteq> refs_in (sv_engine (ap_service a))" if "dict_get (queues (sv_engine (ap_service a))) x = Some q" for x q
      using dict_get_mem [OF that] by (force simp: refs_in_def)
    ultimately show ?thesis unfolding apart_def by blast
  qed
qed

definition submission_decision :: "app_config \<Rightarrow> app \<Rightarrow> work_order \<Rightarrow> decision" where
  "submission_decision c a w = decide (sc_engine (ac_service c)) (sv_engine (allocated a w)) (ap_next a)"

lemma final_not_rejected: "final_status w g f \<noteq> REJECTED"
  by (simp add: final_status_def)

lemma engine_outcome:
  assumes ks: "sorted_keys (key_enum c)" and i: "engine_inv s" and ok: "work_order_ok (orders s r)"
    and new: "work_order_id (orders s r) \<notin> known_ids s" and bound: "2 * volume s + 2 * remaining_hours (orders s r) < 10 ^ 20"
    and nf: "\<And>e. decide c s r \<noteq> Fails e"
  shows "\<exists>d s'. submit_work_order c r s = Some (Inr d, s') \<and> engine_inv s' \<and> dr_work_order d = r \<and>
    (decide c s r = Admits \<and> accepted (orders s') d \<or>
     (\<exists>t. decide c s r = Rejects t \<and> rejection_reason d = Some t) \<and> \<not> accepted (orders s') d \<and> dr_assignments d = [])"
proof (cases "decide c s r")
  case (Rejects t)
  from submit_rejects_state [OF i new ok this] Rejects show ?thesis by (auto simp: accepted_def)
next
  case Admits
  show ?thesis
  proof (cases "stood_down c r s")
    case True
    from submit_stood_down_state [OF i new ok Admits True] Admits show ?thesis by (auto simp: accepted_def)
  next
    case False
    from submit_matched_state [OF ks i ok new bound Admits False] obtain ms s' where
      "submit_work_order c r s = Some (Inr \<lparr>dr_work_order = r, dr_assignments = map fst ms, rejection_reason = None\<rparr>, s')"
      "engine_inv s'" "matched_outcome c s r ms s'" by blast
    moreover from this(3) have "status (orders s' r) \<noteq> REJECTED"
      using final_not_rejected by (auto simp: matched_outcome_def Let_def)
    ultimately show ?thesis using Admits by (auto simp: accepted_def)
  qed
qed (use nf in auto)

lemma submit_outcome:
  assumes ks: "sorted_keys (key_enum (sc_engine (ac_service c)))" and a: "app_ok a" "ap_ready a" "ac_public c = default_public_paths"
    and inv: "engine_inv (sv_engine (ap_service a))"
    and key: "key_of c n header a = Some key" "''dispatch'' \<in> ak_permissions key"
    and q: "parse_request b = Inr q" and w: "to_work_order (en_now n) (en_uuid n) (ak_organization key) q = Inr w"
    and ok: "work_order_ok w" and bound: "2 * volume (sv_engine (ap_service a)) + 2 * remaining_hours w < 10 ^ 20"
    and nf: "\<And>e. submission_decision c a w \<noteq> Fails e"
  shows "\<exists>r a'. handle c n header (SubmitCall b) a = (Inr r, a') \<and> engine_inv (sv_engine (ap_service a')) \<and>
    (rs_status r = 409 \<and> work_order_id w \<in> known_ids (sv_engine (ap_service a)) \<and> ap_service a' = allocated a w \<or>
     work_order_id w \<notin> known_ids (sv_engine (ap_service a)) \<and>
     (rs_status r = 400 \<and> (\<exists>t. submission_decision c a w = Rejects t) \<or>
      rs_status r \<in> {201, 500} \<and> submission_decision c a w = Admits) \<and>
     filed (ap_service a') (ak_organization key) (work_order_id w) (ap_next a))"
proof -
  let ?sc = "ac_service c" and ?r = "ap_next a"
  define s where "s = sv_engine (allocated a w)"
  have sw: "orders s ?r = w" "known_ids s = known_ids (sv_engine (ap_service a))" "volume s = volume (sv_engine (ap_service a))"
    by (simp_all add: s_def volume_def allocated_def Let_def)
  have org: "wo_organization w = ak_organization key"
    using w by (auto simp: to_work_order_def mk_work_order_def Let_def split: if_splits)
  have i: "engine_inv s" unfolding s_def by (rule engine_inv_allocated [OF a(1) inv])
  have hd: "handle c n header (SubmitCall b) a = submit_endpoint c (en_ok n) (en_now n) (en_uuid n) (principal_of key) q a"
    using handle_served [OF key(1), of "SubmitCall b" "permission_dispatch"] a(2,3) key(2) q by (simp add: permission_dispatch_def)
  have e: "submit_endpoint c (en_ok n) (en_now n) (en_uuid n) (principal_of key) q a =
     (case service_submit ?sc (en_ok n) (ak_organization key) ?r (allocated a w) of
        None \<Rightarrow> (Inl RuntimeError, a)
      | Some (Inl e, sv1) \<Rightarrow> (submission_error e, a\<lparr>ap_service := sv1, ap_next := Suc ?r\<rparr>)
      | Some (Inr d, sv1) \<Rightarrow> (Inr (submission_response (orders (sv_engine sv1)) d), a\<lparr>ap_service := sv1, ap_next := Suc ?r\<rparr>))"
    using w by (simp add: submit_endpoint_def allocated_def Let_def)
  show ?thesis
  proof (cases "work_order_id w \<in> known_ids s")
    case True
    have "submit_work_order (sc_engine ?sc) ?r s = Some (Inl (DuplicateWorkOrderError (work_order_id w)), s)"
      using submit_known [of s ?r] True sw by simp
    then have "service_submit ?sc (en_ok n) (ak_organization key) ?r (allocated a w) =
        Some (Inl (DuplicateWorkOrderError (work_order_id w)), allocated a w)"
      using org by (simp add: service_submit_def s_def)
    with hd e i True sw show ?thesis by (simp add: submission_error_def error_detail_def s_def)
  next
    case False
    have new: "work_order_id (orders s ?r) \<notin> known_ids s" using False sw by simp
    have b2: "2 * volume s + 2 * remaining_hours (orders s ?r) < 10 ^ 20" using bound sw by simp
    have nf2: "\<And>e. decide (sc_engine ?sc) s ?r \<noteq> Fails e" using nf by (simp add: submission_decision_def s_def)
    from engine_outcome [OF ks i _ new b2 nf2] ok sw obtain d s' where
      d: "submit_work_order (sc_engine ?sc) ?r s = Some (Inr d, s')" "engine_inv s'" "dr_work_order d = ?r"
        "decide (sc_engine ?sc) s ?r = Admits \<and> accepted (orders s') d \<or>
         (\<exists>t. decide (sc_engine ?sc) s ?r = Rejects t) \<and> \<not> accepted (orders s') d \<and> dr_assignments d = []" by auto
    have o: "wo_organization (orders (sv_engine (allocated a w)) ?r) = ak_organization key" using org by simp
    from service_submit_parts [OF d(1) [unfolded s_def] o, of "en_ok n"] obtain res sv' where
      sub: "service_submit ?sc (en_ok n) (ak_organization key) ?r (allocated a w) = Some (res, sv')" "sv_engine sv' = s'"
        "res = Inr d \<or> dr_assignments d \<noteq> [] \<and> res = Inl (persistence_error (orders s' ?r) (dr_assignments d))" by blast
    have fl: "filed sv' (ak_organization key) (work_order_id w) ?r"
      using sub(1)
    proof (cases rule: service_submit_cases)
      case (Done d2 s2)
      have "tame UNIV (sv_engine (allocated a w)) s2" using submit_tame [OF Done(1)] by simp
      then have "work_order_id (orders s2 ?r) = work_order_id w" using tame_names(1) by fastforce
      then show ?thesis using filed_reading [OF Done(2)] by (simp add: filed_def dict_simps)
    qed (use o d(1) sub in \<open>auto simp: s_def persistence_error_def\<close>)
    show ?thesis
    proof (cases "res = Inr d")
      case True
      have st: "rs_status (submission_response (orders s') d) = (if accepted (orders s') d then 201 else 400)"
        by (simp add: submission_response_def Let_def error_detail_def)
      with hd e sub True d(2,4) False sw fl show ?thesis by (auto simp: submission_decision_def s_def)
    next
      case F: False
      with sub(3) have r: "res = Inl (persistence_error (orders s' ?r) (dr_assignments d))" "dr_assignments d \<noteq> []" by auto
      then have "submission_error (persistence_error (orders s' ?r) (dr_assignments d)) = Inr x \<Longrightarrow> rs_status x = 500" for x
        by (auto simp: submission_error_def persistence_error_def error_detail_def)
      moreover obtain x where x: "submission_error (persistence_error (orders s' ?r) (dr_assignments d)) = Inr x"
        by (auto simp: submission_error_def persistence_error_def)
      ultimately show ?thesis using hd e sub r d(2,4) False sw fl by (auto simp: submission_decision_def s_def)
    qed
  qed
qed

section \<open>CORS\<close>

lemma cors_outermost_safe:
  assumes "configure_middleware o1 allow = Inr layers"
  shows "hd layers = AuthLayer \<and> (\<forall>origins cr. CorsLayer origins cr \<in> set layers \<longrightarrow>
    last layers = CorsLayer origins cr \<and> origins \<noteq> [] \<and> (''*'' \<in> set origins \<longrightarrow> \<not> cr))"
  using assms by (auto simp: configure_middleware_def split: sum.splits if_splits)

end
