(* ===== verification/EventLaws.thy ===== *)
theory EventLaws
  imports Events "HOL-Library.Sublist"
begin

text \<open>
  The laws of the event log and the bus. The log keeps the last \<open>max_size\<close> events under their
  global numbers. Whatever the interleaving of publishers, subscribers, streams and dispatch
  loops, each subscriber receives a subsequence of the events it asked for, in publication
  order, and all of them unless its queue was full.
\<close>

section \<open>Envelopes\<close>

lemma event_type_of_value [simp]: "event_type_of (event_type_value t) = Some t"
  by (cases t) (simp_all add: event_type_of_def event_types_def)

lemma mk_domain_event_utc:
  "mk_domain_event e = Inr e' \<Longrightarrow> \<exists>t. ev_timestamp e' = Aware t 0 \<and> instant (ev_timestamp e) = t"
  by (cases "ev_timestamp e") (auto simp: mk_domain_event_def ensure_utc_def)

lemma event_dict_get:
  "dict_get (event_to_dict e) ''event_id'' = Some (VStr (event_id e))"
  "dict_get (event_to_dict e) ''event_type'' = Some (VStr (event_type_value (event_type e)))"
  "dict_get (event_to_dict e) ''timestamp'' = Some (VTimeText (ev_timestamp e))"
  "dict_get (event_to_dict e) ''source'' = Some (VStr (source e))"
  "dict_get (event_to_dict e) ''correlation_id'' = Some (opt_str (correlation_id e))"
  "dict_get (event_to_dict e) ''payload'' = Some (VDict (payload e))"
  by (simp_all add: event_to_dict_def)

lemma event_keys: "fst ` set (event_to_dict e) \<subseteq> set event_fields"
  by (simp add: event_to_dict_def event_fields_def)

lemma event_dict_roundtrip:
  assumes "mk_domain_event e0 = Inr e"
  shows "event_from_dict fromiso uid now (event_to_dict e) = Inr e"
proof -
  obtain t where "ev_timestamp e = Aware t 0" using mk_domain_event_utc [OF assms] by blast
  then have "mk_domain_event \<lparr>event_id = event_id e, event_type = event_type e, ev_timestamp = ev_timestamp e,
      source = source e, correlation_id = correlation_id e, payload = payload e\<rparr> = Inr e"
    by (simp add: mk_domain_event_def ensure_utc_def)
  then show ?thesis
    by (cases "correlation_id e") (simp_all add: event_from_dict_def event_dict_get event_keys)
qed

section \<open>The log\<close>

definition log_inv :: "domain_event list \<Rightarrow> event_log \<Rightarrow> bool" where
  "log_inv es l \<longleftrightarrow> 0 < el_max l \<and> next_sequence l = int (length es) \<and>
     base_sequence l = max 0 (int (length es) - el_max l) \<and> el_log l = drop (nat (base_sequence l)) es"

lemma log_inv_new: "new_event_log m = Inr l \<Longrightarrow> log_inv [] l"
  by (auto simp: new_event_log_def log_inv_def split: if_splits)

lemma log_append_frame [frame_simps]: "el_max (snd (log_append e l)) = el_max l"
  by (simp add: log_append_def Let_def)

lemma log_inv_append:
  assumes "log_inv es l"
  shows "log_inv (es @ [e]) (snd (log_append e l))"
proof (cases "int (length es) < el_max l")
  case True
  with assms show ?thesis by (auto simp: log_inv_def log_append_def Let_def)
next
  case False
  then have b: "base_sequence l = int (length es) - el_max l" "nat (base_sequence l) \<le> length es"
    and n: "int (length (el_log l)) = el_max l" using assms by (auto simp: log_inv_def)
  have "nat (base_sequence l + 1) = Suc (nat (base_sequence l))" using assms by (simp add: log_inv_def)
  then have "drop (nat (base_sequence l + 1)) (es @ [e]) = drop 1 (drop (nat (base_sequence l)) (es @ [e]))"
    by (simp only: drop_drop) simp
  with False b n assms show ?thesis by (simp add: log_inv_def log_append_def Let_def)
qed

lemma log_inv_foldl: "log_inv es l \<Longrightarrow> log_inv (es @ fs) (foldl (\<lambda>l e. snd (log_append e l)) l fs)"
proof (induction fs arbitrary: es l)
  case (Cons e fs)
  from Cons.IH [OF log_inv_append [OF Cons.prems, of e]] show ?case by simp
qed simp

lemma log_max_foldl: "el_max (foldl (\<lambda>l e. snd (log_append e l)) l fs) = el_max l"
  by (induction fs arbitrary: l) (simp_all add: frame_simps)

definition wanted :: "dispatch_event_type set option \<Rightarrow> domain_event \<Rightarrow> bool" where
  "wanted types e \<longleftrightarrow> (case types of None \<Rightarrow> True | Some ts \<Rightarrow> ts = {} \<or> event_type e \<in> ts)"

lemma log_replay_inv:
  assumes "log_inv es l"
  shows "log_replay n types l = filter (wanted types) (drop (nat (max n (base_sequence l))) es)"
proof -
  have b: "0 \<le> base_sequence l" "el_log l = drop (nat (base_sequence l)) es"
    using assms by (auto simp: log_inv_def)
  then have "nat (max n (base_sequence l) - base_sequence l) + nat (base_sequence l) = nat (max n (base_sequence l))"
    by linarith
  then have "drop (nat (max n (base_sequence l) - base_sequence l)) (el_log l) = drop (nat (max n (base_sequence l))) es"
    using b by (simp add: add.commute)
  moreover have "filter (wanted None) xs = xs" "ts = {} \<Longrightarrow> filter (wanted (Some ts)) xs = xs"
    "ts \<noteq> {} \<Longrightarrow> wanted (Some ts) = (\<lambda>e. event_type e \<in> ts)" for ts xs
    by (auto simp: wanted_def)
  ultimately show ?thesis by (cases types) (auto simp: log_replay_def Let_def max_def)
qed

section \<open>Runs of the bus\<close>

text \<open>
  A system is a bus with what happened so far: everything published, and for each subscription
  the length of that history when it joined, the events handed to its consumer, and whether
  its queue has dropped an event.
\<close>

record bus_system =
  sys_bus :: event_bus
  published :: "domain_event list"
  joined :: "handle \<Rightarrow> nat"
  delivered :: "handle \<Rightarrow> domain_event list"
  dropped :: "handle \<Rightarrow> bool"

definition full_for :: "domain_event \<Rightarrow> event_bus \<Rightarrow> handle \<Rightarrow> bool" where
  "full_for e b h \<longleftrightarrow> h \<in> set (dict_values (subscriptions b)) \<and> sub_matches (sub_store b h) e \<and>
     \<not> int (length (sub_queue (sub_store b h))) < max_queue b"

inductive bus_step :: "bus_system \<Rightarrow> bus_system \<Rightarrow> bool" where
  Publish: "bus_step s (s\<lparr>sys_bus := publish e (sys_bus s), published := published s @ [e],
      dropped := (\<lambda>h. dropped s h \<or> full_for e (sys_bus s) h)\<rparr>)"
| Subscribe: "subscribe uid types cb sid (sys_bus s) = Inr (i, b') \<Longrightarrow>
      bus_step s (s\<lparr>sys_bus := b', joined := (joined s)(next_handle (sys_bus s) := length (published s))\<rparr>)"
| Open: "stream_open uid types sid (sys_bus s) = Inr ((i, h), b') \<Longrightarrow>
      bus_step s (s\<lparr>sys_bus := b', joined := (joined s)(h := length (published s))\<rparr>)"
| Next: "stream_next h (sys_bus s) = Some (e, b') \<Longrightarrow>
      bus_step s (s\<lparr>sys_bus := b', delivered := (delivered s)(h := delivered s h @ [e])\<rparr>)"
| Call: "dispatch_turn h (sys_bus s) = (LoopCall cb e, b') \<Longrightarrow>
      bus_step s (s\<lparr>sys_bus := b', delivered := (delivered s)(h := delivered s h @ [e])\<rparr>)"
| Skip: "dispatch_turn h (sys_bus s) = (LoopSkip e, b') \<Longrightarrow>
      bus_step s (s\<lparr>sys_bus := b', delivered := (delivered s)(h := delivered s h @ [e])\<rparr>)"
| Close: "bus_step s (s\<lparr>sys_bus := stream_close sid (sys_bus s)\<rparr>)"
| Unsubscribe: "bus_step s (s\<lparr>sys_bus := unsubscribe sid (sys_bus s)\<rparr>)"
| Start: "bus_step s (s\<lparr>sys_bus := start_bus (sys_bus s)\<rparr>)"
| Stop_begin: "bus_step s (s\<lparr>sys_bus := stop_begin (sys_bus s)\<rparr>)"
| Stop_end: "bus_step s (s\<lparr>sys_bus := stop_end (sys_bus s)\<rparr>)"

inductive_cases bus_stepE: "bus_step s s'"

definition initial_system :: "event_bus \<Rightarrow> bus_system" where
  "initial_system b = \<lparr>sys_bus = b, published = [], joined = (\<lambda>_. 0), delivered = (\<lambda>_. []), dropped = (\<lambda>_. False)\<rparr>"

text \<open>What a subscription has received or will receive from its queue, and what it asked for.\<close>

definition received :: "bus_system \<Rightarrow> handle \<Rightarrow> domain_event list" where
  "received s h = delivered s h @ sub_queue (sub_store (sys_bus s) h)"

definition asked :: "bus_system \<Rightarrow> handle \<Rightarrow> domain_event list" where
  "asked s h = filter (sub_matches (sub_store (sys_bus s) h)) (drop (joined s h) (published s))"

definition live :: "event_bus \<Rightarrow> handle set" where
  "live b = set (dict_values (subscriptions b))"

definition handle_ok :: "bus_system \<Rightarrow> handle \<Rightarrow> bool" where
  "handle_ok s h \<longleftrightarrow>
     (h \<in> live (sys_bus s) \<longrightarrow> h < next_handle (sys_bus s)) \<and>
     (next_handle (sys_bus s) \<le> h \<longrightarrow> received s h = []) \<and>
     int (length (sub_queue (sub_store (sys_bus s) h))) \<le> max_queue (sys_bus s) \<and>
     (h < next_handle (sys_bus s) \<longrightarrow> joined s h \<le> length (published s) \<and>
        subseq (received s h) (asked s h) \<and>
        (h \<in> live (sys_bus s) \<longrightarrow> \<not> dropped s h \<longrightarrow> received s h = asked s h))"

definition system_inv :: "bus_system \<Rightarrow> bool" where
  "system_inv s \<longleftrightarrow> 0 < max_queue (sys_bus s) \<and>
     distinct (dict_values (subscriptions (sys_bus s))) \<and> (\<forall>h. handle_ok s h)"

lemma system_invI: "0 < max_queue (sys_bus s) \<Longrightarrow> distinct (dict_values (subscriptions (sys_bus s))) \<Longrightarrow>
    (\<And>h. handle_ok s h) \<Longrightarrow> system_inv s"
  by (simp add: system_inv_def)

lemma system_invD:
  assumes "system_inv s"
  shows "0 < max_queue (sys_bus s)" "distinct (dict_values (subscriptions (sys_bus s)))" "handle_ok s h"
  using assms by (simp_all add: system_inv_def)

text \<open>
  What one step does to one subscription: it may take an event from the queue, it may be
  offered one, or it is left alone.
\<close>

lemma fold_offer:
  "distinct hs \<Longrightarrow> fold (\<lambda>h st. st(h := offer_event mq e (st h))) hs st =
     (\<lambda>h. if h \<in> set hs then offer_event mq e (st h) else st h)"
  by (induction hs arbitrary: st) (auto simp: fun_eq_iff)

lemma offer_event_frame [simp]: "sub_matches (offer_event mq e s) = sub_matches s"
  by (simp add: offer_event_def fun_eq_iff sub_matches_def)

lemma publish_frame [frame_simps]:
  "subscriptions (publish e b) = subscriptions b" "next_handle (publish e b) = next_handle b"
  "max_queue (publish e b) = max_queue b" "running (publish e b) = running b"
  "dispatch_tasks (publish e b) = dispatch_tasks b"
  by (simp_all add: publish_def)

lemma publish_store:
  "distinct (dict_values (subscriptions b)) \<Longrightarrow> sub_store (publish e b) h =
     (if h \<in> live b then offer_event (max_queue b) e (sub_store b h) else sub_store b h)"
  by (simp add: publish_def fold_offer live_def)

lemma distinct_delete_values: "distinct (map snd d) \<Longrightarrow> distinct (map snd (dict_pop k d))"
  unfolding AList.delete_eq by (induction d) auto

lemma live_pop: "set (map snd (dict_pop k d)) \<subseteq> set (map snd d)"
  by (auto simp: AList.delete_eq)

lemma set_update_values: "set (map snd (dict_set k v d)) \<subseteq> insert v (set (map snd d))"
  by (induction d) auto

lemma distinct_update_values: "distinct (map snd d) \<Longrightarrow> v \<notin> set (map snd d) \<Longrightarrow> distinct (map snd (dict_set k v d))"
proof (induction d)
  case (Cons p d)
  then show ?case using set_update_values [of k v d] by (cases p) auto
qed simp

lemma log_replay_history:
  assumes "new_event_log m = Inr l"
  shows "log_replay n types (foldl (\<lambda>l e. snd (log_append e l)) l es) =
     filter (wanted types) (drop (nat (max n (int (length es) - m))) es)"
proof -
  let ?l = "foldl (\<lambda>l e. snd (log_append e l)) l es"
  have inv: "log_inv es ?l" using log_inv_foldl [OF log_inv_new [OF assms]] by simp
  have "el_max ?l = m" using assms by (auto simp: log_max_foldl new_event_log_def split: if_splits)
  then have "nat (max n (base_sequence ?l)) = nat (max n (int (length es) - m))"
    using inv by (auto simp: log_inv_def)
  then show ?thesis using log_replay_inv [OF inv] by simp
qed

lemma subseq_snoc:
  "subseq xs ys \<Longrightarrow> (b \<longrightarrow> c) \<Longrightarrow> subseq (xs @ (if b then [e] else [])) (ys @ (if c then [e] else []))"
  by (intro list_emb_append_mono) auto

lemma asked_publish:
  assumes "joined s h \<le> length (published s)" "joined s' h = joined s h" "published s' = published s @ [e]"
    "sub_matches (sub_store (sys_bus s') h) = sub_matches (sub_store (sys_bus s) h)"
  shows "asked s' h = asked s h @ (if sub_matches (sub_store (sys_bus s) h) e then [e] else [])"
  using assms by (simp add: asked_def)

lemma inv_publish:
  assumes i: "system_inv s" and s': "s' = s\<lparr>sys_bus := publish e (sys_bus s), published := published s @ [e],
      dropped := (\<lambda>h. dropped s h \<or> full_for e (sys_bus s) h)\<rparr>"
  shows "system_inv s'"
proof (rule system_invI)
  let ?b = "sys_bus s"
  note dist = system_invD(2) [OF i]
  note st = publish_store [OF dist, of e]
  show "0 < max_queue (sys_bus s')" "distinct (dict_values (subscriptions (sys_bus s')))"
    using system_invD(1) [OF i] dist by (simp_all add: s' frame_simps)
  fix h
  have ok: "handle_ok s h" by (rule system_invD [OF i])
  have live: "live (sys_bus s') = live ?b" by (simp add: s' live_def frame_simps)
  have rec: "received s' h = received s h @
      (if h \<in> live ?b \<and> sub_matches (sub_store ?b h) e \<and> \<not> full_for e ?b h then [e] else [])"
    by (auto simp: received_def s' st offer_event_def full_for_def live_def)
  have len: "int (length (sub_queue (sub_store (sys_bus s') h))) \<le> max_queue ?b"
    using ok by (auto simp: handle_ok_def s' st offer_event_def)
  have "joined s' h \<le> length (published s') \<and> subseq (received s' h) (asked s' h) \<and>
      (h \<in> live ?b \<longrightarrow> \<not> dropped s' h \<longrightarrow> received s' h = asked s' h)" if h: "h < next_handle ?b"
  proof -
    have j: "joined s h \<le> length (published s)" "subseq (received s h) (asked s h)"
      "h \<in> live ?b \<longrightarrow> \<not> dropped s h \<longrightarrow> received s h = asked s h" using ok h by (simp_all add: handle_ok_def)
    have a: "asked s' h = asked s h @ (if sub_matches (sub_store ?b h) e then [e] else [])"
      by (rule asked_publish [OF j(1)]) (simp_all add: s' st)
    have "subseq (received s' h) (asked s' h)" unfolding rec a using j(2) by (rule subseq_snoc) simp
    moreover have "h \<in> live ?b \<longrightarrow> \<not> dropped s' h \<longrightarrow> received s' h = asked s' h"
      unfolding rec a using j(3) by (auto simp: s')
    ultimately show ?thesis using j(1) by (simp add: s')
  qed
  moreover have "received s' h = []" if h: "next_handle ?b \<le> h"
    using ok h by (auto simp: rec handle_ok_def)
  moreover have "h \<in> live ?b \<longrightarrow> h < next_handle ?b" using ok by (simp add: handle_ok_def)
  moreover have "next_handle (sys_bus s') = next_handle ?b" "max_queue (sys_bus s') = max_queue ?b"
    by (simp_all add: s' frame_simps)
  ultimately show "handle_ok s' h" using len unfolding handle_ok_def live by simp
qed

lemma inv_take:
  assumes i: "system_inv s" and t: "take_event k (sys_bus s) = Some (e, b')"
    and s': "s' = s\<lparr>sys_bus := b', delivered := (delivered s)(k := delivered s k @ [e])\<rparr>"
  shows "system_inv s'"
proof -
  from t obtain es where q: "sub_queue (sub_store (sys_bus s) k) = e # es"
    and b': "b' = (sys_bus s)\<lparr>sub_store := (sub_store (sys_bus s))(k := (sub_store (sys_bus s) k)\<lparr>sub_queue := es\<rparr>)\<rparr>"
    by (auto simp: take_event_def split: list.splits)
  have frame: "max_queue b' = max_queue (sys_bus s)" "subscriptions b' = subscriptions (sys_bus s)"
    "next_handle b' = next_handle (sys_bus s)" "live b' = live (sys_bus s)" "sys_bus s' = b'"
    "joined s' = joined s" "published s' = published s" "dropped s' = dropped s"
    by (simp_all add: b' live_def s')
  show ?thesis
  proof (rule system_invI)
    show "0 < max_queue (sys_bus s')" "distinct (dict_values (subscriptions (sys_bus s')))"
      using system_invD(1,2) [OF i] by (simp_all add: frame)
    fix h
    have ok: "handle_ok s h" by (rule system_invD [OF i])
    have r: "received s' h = received s h" by (simp add: received_def s' b' q)
    have a: "asked s' h = asked s h" by (simp add: asked_def s' b' sub_matches_def [abs_def])
    have "length (sub_queue (sub_store b' h)) \<le> length (sub_queue (sub_store (sys_bus s) h))"
      by (simp add: b' q)
    with ok show "handle_ok s' h" unfolding handle_ok_def r a frame by auto
  qed
qed

lemma inv_register:
  assumes i: "system_inv s" and new: "sub_queue sb = []"
    and b': "b' = (register_subscription sb (sys_bus s))\<lparr>dispatch_tasks := ts\<rparr>"
    and s': "s' = s\<lparr>sys_bus := b', joined := (joined s)(next_handle (sys_bus s) := length (published s))\<rparr>"
  shows "system_inv s'"
proof -
  let ?n = "next_handle (sys_bus s)"
  have frame: "max_queue b' = max_queue (sys_bus s)" "next_handle b' = Suc ?n" "sys_bus s' = b'"
    "subscriptions b' = dict_set (subscriber_id sb) ?n (subscriptions (sys_bus s))"
    "sub_store b' = (sub_store (sys_bus s))(?n := sb)"
    by (simp_all add: b' s' register_subscription_def)
  have nl: "?n \<notin> live (sys_bus s)" using system_invD(3) [OF i, of ?n] by (auto simp: handle_ok_def)
  have lv: "live b' \<subseteq> insert ?n (live (sys_bus s))"
    unfolding live_def frame by (rule set_update_values)
  show ?thesis
  proof (rule system_invI)
    show "0 < max_queue (sys_bus s')" using system_invD(1) [OF i] by (simp add: frame)
    show "distinct (dict_values (subscriptions (sys_bus s')))"
      unfolding frame using system_invD(2) [OF i] nl by (intro distinct_update_values) (simp_all add: live_def)
    fix h
    have ok: "handle_ok s h" by (rule system_invD [OF i])
    show "handle_ok s' h"
    proof (cases "h = ?n")
      case True
      then have d: "delivered s h = []" using ok by (simp add: handle_ok_def received_def)
      have "received s' h = []" "asked s' h = []" "joined s' h = length (published s)" "published s' = published s"
        using True new d by (simp_all add: received_def asked_def s' b' register_subscription_def)
      then show ?thesis unfolding handle_ok_def frame using True new system_invD(1) [OF i] by simp
    next
      case False
      have r: "received s' h = received s h" "asked s' h = asked s h" "joined s' h = joined s h"
          "published s' = published s" "dropped s' h = dropped s h"
        using False by (simp_all add: received_def asked_def s' b' register_subscription_def)
      have "h \<in> live b' \<Longrightarrow> h \<in> live (sys_bus s)" using False lv by auto
      then show ?thesis using ok False unfolding handle_ok_def r frame by auto
    qed
  qed
qed

lemma inv_shrink:
  assumes i: "system_inv s" and b': "sub_store b' = sub_store (sys_bus s)" "next_handle b' = next_handle (sys_bus s)"
    "max_queue b' = max_queue (sys_bus s)" and d: "distinct (dict_values (subscriptions b'))"
    and sub: "live b' \<subseteq> live (sys_bus s)" and s': "s' = s\<lparr>sys_bus := b'\<rparr>"
  shows "system_inv s'"
proof -
  have frame: "sys_bus s' = b'" "joined s' = joined s" "published s' = published s" "dropped s' = dropped s"
    by (simp_all add: s')
  show ?thesis
  proof (rule system_invI)
    show "0 < max_queue (sys_bus s')" "distinct (dict_values (subscriptions (sys_bus s')))"
      using system_invD(1) [OF i] d by (simp_all add: frame b')
    fix h
    have ok: "handle_ok s h" by (rule system_invD [OF i])
    have r: "received s' h = received s h" "asked s' h = asked s h" by (simp_all add: received_def asked_def s' b')
    have "h \<in> live b' \<Longrightarrow> h \<in> live (sys_bus s)" using sub by auto
    with ok show "handle_ok s' h" unfolding handle_ok_def r frame b' by auto
  qed
qed

lemma system_inv_step: "bus_step s s' \<Longrightarrow> system_inv s \<Longrightarrow> system_inv s'"
proof (induction rule: bus_step.induct)
  case (Publish s e)
  then show ?case by (rule inv_publish) simp
next
  case (Subscribe uid types cb sid s i b')
  then have "b' = (register_subscription \<lparr>subscriber_id = i, sub_types = types, sub_queue = [],
      sub_callback = Some cb\<rparr> (sys_bus s))\<lparr>dispatch_tasks := dispatch_tasks b'\<rparr>"
    by (auto simp: subscribe_def Let_def split: sum.splits if_splits)
  then show ?case by (rule inv_register [OF Subscribe.prems, rotated]) simp_all
next
  case (Open uid types sid s i h b')
  then have "b' = (register_subscription \<lparr>subscriber_id = i, sub_types = types, sub_queue = [],
      sub_callback = None\<rparr> (sys_bus s))\<lparr>dispatch_tasks := dispatch_tasks b'\<rparr>" and h: "h = next_handle (sys_bus s)"
    by (auto simp: stream_open_def split: sum.splits)
  then show ?case by (intro inv_register [OF Open.prems, rotated]) (assumption | simp)+
next
  case (Next h s e b')
  then show ?case by (intro inv_take [OF Next.prems]) (auto simp: stream_next_def)
next
  case (Call h s cb e b')
  then have "take_event h (sys_bus s) = Some (e, b')"
    by (auto simp: dispatch_turn_def split: if_splits option.splits prod.splits)
  then show ?case by (rule inv_take [OF Call.prems]) simp
next
  case (Skip h s e b')
  then have "take_event h (sys_bus s) = Some (e, b')"
    by (auto simp: dispatch_turn_def split: if_splits option.splits prod.splits)
  then show ?case by (rule inv_take [OF Skip.prems]) simp
next
  case (Close s sid)
  then show ?case using live_pop
    by (intro inv_shrink [OF Close]) (simp_all add: stream_close_def live_def system_invD distinct_delete_values)
next
  case (Unsubscribe s sid)
  then show ?case using live_pop
    by (intro inv_shrink [OF Unsubscribe]) (simp_all add: unsubscribe_def live_def system_invD distinct_delete_values)
next
  case (Start s)
  then show ?case by (intro inv_shrink [OF Start]) (simp_all add: start_bus_def live_def system_invD Let_def)
next
  case (Stop_begin s)
  then show ?case by (intro inv_shrink [OF Stop_begin]) (simp_all add: stop_begin_def live_def system_invD)
next
  case (Stop_end s)
  then show ?case by (intro inv_shrink [OF Stop_end]) (simp_all add: stop_end_def live_def system_invD)
qed

lemma system_inv_initial: "new_event_bus persist mq = Inr b \<Longrightarrow> system_inv (initial_system b)"
  by (auto simp: new_event_bus_def initial_system_def handle_ok_def live_def received_def asked_def
      no_subscription_def split: if_splits sum.splits intro!: system_invI)

lemma system_inv_run: "bus_step\<^sup>*\<^sup>* s s' \<Longrightarrow> system_inv s \<Longrightarrow> system_inv s'"
  by (induction rule: rtranclp_induct) (auto intro: system_inv_step)

section \<open>Stopping the bus\<close>

lemma drain_loop_spec:
  assumes "xs = sub_queue (sub_store b h)" "\<not> running b" "sub_callback (sub_store b h) = Some cb"
  shows "drain_loop xs h b =
    (map (Pair cb) xs, b\<lparr>sub_store := (sub_store b)(h := (sub_store b h)\<lparr>sub_queue := []\<rparr>)\<rparr>)"
  using assms
proof (induction xs arbitrary: b)
  case (Cons x xs)
  let ?b = "b\<lparr>sub_store := (sub_store b)(h := (sub_store b h)\<lparr>sub_queue := xs\<rparr>)\<rparr>"
  have "dispatch_turn h b = (LoopCall cb x, ?b)"
    using Cons.prems by (simp add: dispatch_turn_def take_event_def flip: Cons.prems(1))
  moreover have "drain_loop xs h ?b = (map (Pair cb) xs, ?b\<lparr>sub_store := (sub_store ?b)(h := (sub_store ?b h)\<lparr>sub_queue := []\<rparr>)\<rparr>)"
    using Cons.prems by (intro Cons.IH) auto
  ultimately show ?case by (simp add: fun_upd_def cong: if_cong)
next
  case Nil
  then have "(sub_store b h)\<lparr>sub_queue := []\<rparr> = sub_store b h" by (cases "sub_store b h") simp
  then show ?case by simp
qed

lemma drain_tasks_spec:
  assumes "drain_tasks hs b = (calls, b')" "distinct hs" "\<not> running b"
    "\<forall>h\<in>set hs. sub_callback (sub_store b h) = Some (cb h)"
  shows "calls = concat (map (\<lambda>h. map (Pair (cb h)) (sub_queue (sub_store b h))) hs) \<and>
    b' = b\<lparr>sub_store := (\<lambda>h. if h \<in> set hs then (sub_store b h)\<lparr>sub_queue := []\<rparr> else sub_store b h)\<rparr>"
  using assms
proof (induction hs arbitrary: b calls)
  case (Cons h hs)
  let ?b = "b\<lparr>sub_store := (sub_store b)(h := (sub_store b h)\<lparr>sub_queue := []\<rparr>)\<rparr>"
  have l: "drain_loop (sub_queue (sub_store b h)) h b = (map (Pair (cb h)) (sub_queue (sub_store b h)), ?b)"
    using Cons.prems by (intro drain_loop_spec) auto
  obtain cs where t: "drain_tasks hs ?b = (cs, b')" and c: "calls = map (Pair (cb h)) (sub_queue (sub_store b h)) @ cs"
    using Cons.prems(1) by (auto simp: l split: prod.splits)
  have same: "map (\<lambda>k. map (Pair (cb k)) (sub_queue (sub_store ?b k))) hs =
      map (\<lambda>k. map (Pair (cb k)) (sub_queue (sub_store b k))) hs"
    using Cons.prems(2) by (intro map_cong) auto
  have ih: "cs = concat (map (\<lambda>k. map (Pair (cb k)) (sub_queue (sub_store ?b k))) hs) \<and>
      b' = ?b\<lparr>sub_store := (\<lambda>k. if k \<in> set hs then (sub_store ?b k)\<lparr>sub_queue := []\<rparr> else sub_store ?b k)\<rparr>"
    using Cons.prems by (intro Cons.IH [OF t]) auto
  have "b' = b\<lparr>sub_store := (\<lambda>k. if k \<in> set (h # hs) then (sub_store b k)\<lparr>sub_queue := []\<rparr> else sub_store b k)\<rparr>"
    using conjunct2 [OF ih] by (auto simp: fun_eq_iff)
  moreover have "calls = concat (map (\<lambda>k. map (Pair (cb k)) (sub_queue (sub_store b k))) (h # hs))"
    using conjunct1 [OF ih] c unfolding same by simp
  ultimately show ?case by simp
qed simp

lemma stop_bus_spec:
  assumes "stop_bus b = (calls, b')" "distinct (dict_values (dispatch_tasks b))"
    "\<forall>h\<in>set (dict_values (dispatch_tasks b)). sub_callback (sub_store b h) = Some (cb h)"
  shows "calls = concat (map (\<lambda>h. map (Pair (cb h)) (sub_queue (sub_store b h))) (dict_values (dispatch_tasks b))) \<and>
    (\<forall>h\<in>set (dict_values (dispatch_tasks b)). sub_queue (sub_store b' h) = []) \<and>
    dispatch_tasks b' = [] \<and> \<not> running b'"
proof -
  obtain b2 where d: "drain_tasks (dict_values (dispatch_tasks b)) (stop_begin b) = (calls, b2)" and e: "b' = stop_end b2"
    using assms(1) by (auto simp: stop_bus_def stop_begin_def Let_def split: prod.splits)
  from drain_tasks_spec [OF d assms(2), of cb] assms(3) e show ?thesis
    by (simp add: stop_begin_def stop_end_def)
qed

lemma in_values_set: "v \<in> snd ` set (dict_set k v d)"
  by (metis dict_get_mem dict_get_set image_eqI snd_conv)

end
