(* ===== verification/Scenario.thy ===== *)
theory Scenario
  imports SubmitLaws EventLaws
begin

text \<open>
  A small concrete engine for the witnesses: one asset with a resting offer of ten hours at a
  rate of fifty, and orders of a second organization that meet it.
\<close>

definition cfg0 :: engine_config where
  "cfg0 = \<lparr>clock = int, uuids = (\<lambda>n. replicate n CHR ''u''), num_text = (\<lambda>_. ''0''), key_enum = sort,
     cfg_equipment = [], pre_check = None\<rparr>"

definition plain_order ::
  "string \<Rightarrow> string \<Rightarrow> dispatch_side \<Rightarrow> dispatch_window \<Rightarrow> rat \<Rightarrow> rat \<Rightarrow> work_order_status \<Rightarrow> work_order" where
  "plain_order i org sd win h r st = \<lparr>work_order_id = i, wo_organization = org, wo_asset = ''CNC-01'', side = sd,
     mode = RATE_CAPPED, requested_hours = h, max_hourly_rate = Some r, escalation_rate = None, priority = 3,
     dispatch_window = win, status = st, assigned_hours = 0, average_rate = None, created_at = 0,
     updated_at = None, signature = None\<rparr>"

definition heap0 :: heap where
  "heap0 r = (if r = 0 then plain_order ''a'' ''o1'' OFFER OPEN 10 50 ACCEPTED
     else if r = 1 then plain_order ''b'' ''o2'' REQUEST OPEN 4 60 NEW
     else if r = 2 then plain_order ''c'' ''o2'' REQUEST COMPLETE 12 60 NEW
     else if r = 3 then plain_order ''d'' ''o2'' REQUEST SHIFT 4 60 NEW
     else if r = 4 then plain_order ''e'' ''o2'' REQUEST OPEN 4 60 ACCEPTED
     else plain_order ''f'' ''o2'' REQUEST COMPLETE 4 60 NEW)"

definition queue0 :: dispatch_queue where
  "queue0 = \<lparr>dq_asset = ''CNC-01'', requests = [], offers = [(50, \<lparr>lvl_rate = 50, lvl_orders = [0]\<rparr>)],
     order_index = [(''a'', (OFFER, 50))]\<rparr>"

definition bus0 :: event_bus where
  "bus0 = \<lparr>subscriptions = [], sub_store = (\<lambda>_. no_subscription), next_handle = 0,
     bus_log = Some \<lparr>el_log = [], el_max = 100000, base_sequence = 0, next_sequence = 0\<rparr>,
     max_queue = 10000, running = False, dispatch_tasks = []\<rparr>"

definition state0 :: engine_state where
  "state0 = \<lparr>orders = heap0, queues = [(''CNC-01'', queue0)], workloads = [], assignment_log = [],
     submitted_count = 1, known_ids = {''a''}, bus = bus0, ticks = 0, uids = 0\<rparr>"

lemma bus0_new: "new_event_bus True 10000 = Inr bus0"
  by (simp add: new_event_bus_def new_event_log_def bus0_def)

lemma sort_keys: "sorted_keys sort"
  by (rule sort_view.sorted_keys_axioms)

lemma cfg0_keys [simp]: "sorted_keys (key_enum cfg0)"
  by (simp add: cfg0_def sort_keys)

lemma grid_int [simp]: "\<bar>x\<bar> < 10 ^ 20 \<Longrightarrow> grid (of_int x)"
proof -
  assume "\<bar>x\<bar> < 10 ^ 20"
  then have "of_int \<bar>x\<bar> < (of_int (10 ^ 20) :: rat)" by (simp only: of_int_less_iff)
  then have "\<bar>of_int x\<bar> < (10 ^ 20 :: rat)" by simp
  moreover have e: "(of_int x * 10 ^ 8 :: rat) = of_int (x * 10 ^ 8)" by simp
  ultimately show ?thesis unfolding grid_def e floor_of_int by blast
qed

lemma grid_numeral: "(numeral n :: rat) < 10 ^ 20 \<Longrightarrow> grid (numeral n)"
  using grid_int [of "numeral n"] by simp

lemma grid_one: "grid 1"
  using grid_int [of 1] by simp

lemma plain_order_ok:
  assumes "grid h" "0 < h" "grid r" "0 < r" "0 < length org"
  shows "work_order_ok (plain_order i org sd win h r st)"
proof -
  show ?thesis using assms
    by (simp add: Suc_le_eq work_order_ok_def work_order_valid_def work_order_fields_ok_def validate_work_order_def
      positive_rate_def plain_order_def grid_dec_rep)
qed

lemma heap0_ok [simp]: "work_order_ok (heap0 r)"
  by (simp add: heap0_def plain_order_ok grid_numeral)

lemma heap0_remaining: "remaining_hours (heap0 r) = requested_hours (heap0 r)"
proof -
  have "assigned_hours (heap0 r) = 0" by (simp add: heap0_def plain_order_def)
  then show ?thesis by (simp add: remaining_hours_exact)
qed

lemma queue0_refs: "all_refs queue0 = [0]" "book OFFER queue0 = [0]" "book REQUEST queue0 = []"
  by (simp_all add: all_refs_def side_refs_def queue0_def book_def side_queue_def)

lemma queue0_ok: "queue_ok heap0 {''a''} ''CNC-01'' queue0"
proof -
  have r: "dec_rep 50" using grid_dec_rep [OF grid_numeral, of "num.Bit0 (num.Bit1 (num.Bit0 (num.Bit0 (num.Bit1 num.One))))"] by simp
  have "queue_inv heap0 queue0"
    by (auto simp: queue_inv_def side_inv_def level_ok_def index_ok_def queue0_refs heap0_def plain_order_def r level_key_def)
      (auto simp: queue0_def level_key_def dict_ok_def r split: if_splits)
  moreover have "resting_ok heap0 {''a''} ''CNC-01'' 0"
    using heap0_remaining [of 0] by (simp add: resting_ok_def) (simp add: heap0_def plain_order_def)
  ultimately show ?thesis by (simp add: queue_ok_def queue0_refs uncrossed_def) (simp add: queue0_def)
qed

lemma state0_inv: "engine_inv state0"
  using queue0_ok by (simp add: engine_inv_def state0_def market_ok_def dict_ok_def workloads_ok_def volume_def)

lemma state0_simps:
  "orders state0 = heap0" "known_ids state0 = {''a''}" "volume state0 = 0"
  "work_order_id (heap0 (Suc 0)) = ''b''" "requested_hours (heap0 (Suc 0)) = 4" "dispatch_window (heap0 (Suc 0)) = OPEN"
  by (simp_all add: state0_def volume_def heap0_def plain_order_def)

lemma state0_admits: "decide cfg0 state0 (Suc 0) = Admits" "\<not> stood_down cfg0 (Suc 0) state0"
  by (simp_all add: stood_down_iff state0_simps)
    (simp add: decide_def state0_def validate_boundary_def cfg0_def Let_def heap0_def plain_order_def)

lemma state0_more:
  "work_order_id (heap0 2) = ''c''" "requested_hours (heap0 2) = 12" "dispatch_window (heap0 2) = COMPLETE"
  "decide cfg0 state0 2 = Admits"
  by (simp_all add: heap0_def plain_order_def)
    (simp add: decide_def state0_def validate_boundary_def cfg0_def Let_def heap0_def plain_order_def)

lemma state0_queue: "the_queue ''CNC-01'' state0 = queue0" "wo_asset (heap0 r) = ''CNC-01''"
  by (simp_all add: the_queue_def state0_def heap0_def plain_order_def)

text \<open>A reachable state with a resting request.\<close>

lemma start_admits: "decide cfg0 (new_engine heap0 bus0) (Suc 0) = Admits" "\<not> stood_down cfg0 (Suc 0) (new_engine heap0 bus0)"
  by (simp_all add: stood_down_iff new_engine_def heap0_def plain_order_def)
    (simp add: decide_def new_engine_def validate_boundary_def cfg0_def Let_def heap0_def plain_order_def)

lemma reachable_resting: "\<exists>s. reachable cfg0 s \<and> Suc 0 \<in> set (book REQUEST (the_queue ''CNC-01'' s))"
proof -
  let ?s = "new_engine heap0 bus0"
  have f: "orders ?s = heap0" "known_ids ?s = {}" "volume ?s = 0" "queues ?s = []"
    by (simp_all add: new_engine_def volume_def)
  have q: "the_queue a ?s = new_queue a" for a by (simp add: the_queue_def f)
  have b: "2 * volume ?s + 2 * remaining_hours (orders ?s (Suc 0)) < 10 ^ 20"
    by (simp add: f heap0_remaining state0_simps)
  obtain ms s' where r: "submit_work_order cfg0 (Suc 0) ?s =
      Some (Inr \<lparr>dr_work_order = Suc 0, dr_assignments = map fst ms, rejection_reason = None\<rparr>, s')"
    and o: "matched_outcome cfg0 ?s (Suc 0) ms s'"
    using submit_matched_state [OF cfg0_keys engine_inv_new _ _ b start_admits] by (auto simp: f)
  have e: "book OFFER (the_queue a ?s) = []" for a by (simp add: q new_queue_def book_def side_queue_def)
  have w: "side (heap0 (Suc 0)) = REQUEST" "rests (heap0 (Suc 0))" by (simp_all add: heap0_def plain_order_def rests_def)
  have al: "allocation ?s (Suc 0) = []" by (simp add: allocation_def f w opposite_def e offers_of_def Let_def)
  have "book REQUEST (the_queue ''CNC-01'' s') = enqueue (orders s') (Suc 0) (book REQUEST (the_queue ''CNC-01'' ?s))"
    using o by (simp add: matched_outcome_def Let_def al f w state0_queue heap0_remaining state0_simps)
  then have "Suc 0 \<in> set (book REQUEST (the_queue ''CNC-01'' s'))" by (simp add: set_enqueue)
  moreover have "reachable cfg0 s'" using reachable.Submit [OF reachable.Start _ b r] by (simp add: f)
  ultimately show ?thesis by blast
qed

lemma heap0_terms:
  "side (heap0 0) = OFFER" "side (heap0 (Suc 0)) = REQUEST" "mode (heap0 r) = RATE_CAPPED"
  "max_hourly_rate (heap0 0) = Some 50" "max_hourly_rate (heap0 (Suc 0)) = Some 60"
  "requested_hours (heap0 0) = 10"
  by (simp_all add: heap0_def plain_order_def)

lemma allocation0: "(0, 4, 50) \<in> set (allocation state0 (Suc 0))"
  by (simp add: allocation_def state0_simps state0_queue Let_def heap0_terms opposite_def queue0_refs offers_of_def
    heap0_remaining reach_def rate_of_def)

lemma state0_rejects: "decide cfg0 state0 4 = Rejects (strip (not_new_reason ACCEPTED))" "work_order_id (heap0 4) = ''e''"
  by (simp_all add: decide_def state0_def Let_def heap0_def plain_order_def)

lemma state0_contains: "contains ''a'' queue0" "searched state0 None = [''CNC-01'']"
  by (simp_all add: contains_def queue0_def searched_def state0_def)

lemma heap0_id_a: "work_order_id (heap0 r) = ''a'' \<longleftrightarrow> r = 0"
  by (simp add: heap0_def plain_order_def)

lemma dict_keys_queue0: "dict_keys (order_index queue0) = [''a'']"
  by (simp add: queue0_def)

section \<open>Single objects\<close>

definition trader :: "rat \<Rightarrow> rat \<Rightarrow> workload" where
  "trader n a = (new_workload ''o1'' ''CNC-01'' 0)\<lparr>net_hours := n, average_service_rate := a\<rparr>"

lemma trader_sells: "\<exists>z w'. apply_assignment OFFER 5 40 7 (trader 10 30) = Inr (z, w')"
  using apply_assignment_grid [of 5 "trader 10 30" OFFER 40 7]
  by (fastforce simp: trader_def side_sign_def grid_numeral)

lemma trader_exact: "exact_assignment OFFER 5 40 (trader 10 30)"
  by (simp add: exact_assignment_def Let_def trader_def new_workload_def side_sign_def dec_rep_def)

definition press :: "string \<Rightarrow> equipment" where
  "press i = \<lparr>eq_asset_id = i, eq_name = ''Press'', equipment_type = HYDRAULIC_PRESS, service_interval_days = 30,
     hourly_service_rate = 90, rate_increment = 1, hour_lot_size = 1, currency = ''eur'', site_code = ''S1''\<rparr>"

lemma press_made: "\<exists>e. mk_equipment (press '' cnc-01 '') = Inr e"
  by (simp add: mk_equipment_def press_def Let_def) code_simp

definition event0 :: domain_event where
  "event0 = \<lparr>event_id = ''e'', event_type = SYSTEM_STATUS, ev_timestamp = Aware 5 0, source = ''s'',
     correlation_id = None, payload = [(''k'', VInt 1)]\<rparr>"

definition bus1 :: event_bus where
  "bus1 = bus0\<lparr>subscriptions := [(''x'', 0)], sub_store := (\<lambda>_. \<lparr>subscriber_id = ''x'', sub_types = {},
     sub_queue = [event0], sub_callback = Some 7\<rparr>), next_handle := 1, running := True, dispatch_tasks := [(''x'', 0)]\<rparr>"

lemma system_with_event:
  "\<exists>s. bus_step\<^sup>*\<^sup>* (initial_system bus0) s \<and> 0 < next_handle (sys_bus s) \<and> 0 \<in> live (sys_bus s) \<and>
     \<not> dropped s 0 \<and> length (asked s 0) = 1"
proof -
  let ?s0 = "initial_system bus0"
  obtain i b' where sb: "subscribe ''u'' {} 1 (Some ''x'') (sys_bus ?s0) = Inr (i, b')"
    and b': "subscriptions b' = [(''x'', 0)]" "sub_store b' 0 = \<lparr>subscriber_id = ''x'', sub_types = {}, sub_queue = [],
       sub_callback = Some 1\<rparr>" "next_handle b' = 1" "max_queue b' = 10000"
    by (simp add: initial_system_def subscribe_def reserve_subscriber_id_def bus0_def register_subscription_def Let_def)
  let ?s1 = "?s0\<lparr>sys_bus := b', joined := (joined ?s0)(next_handle (sys_bus ?s0) := length (published ?s0))\<rparr>"
  let ?s2 = "?s1\<lparr>sys_bus := publish event0 (sys_bus ?s1), published := published ?s1 @ [event0],
      dropped := (\<lambda>h. dropped ?s1 h \<or> full_for event0 (sys_bus ?s1) h)\<rparr>"
  have "bus_step ?s0 ?s1" using sb by (rule bus_step.Subscribe)
  moreover have "bus_step ?s1 ?s2" by (rule bus_step.Publish)
  ultimately have "bus_step\<^sup>*\<^sup>* ?s0 ?s2" by (meson rtranclp.rtrancl_into_rtrancl rtranclp.rtrancl_refl)
  moreover have "0 < next_handle (sys_bus ?s2) \<and> 0 \<in> live (sys_bus ?s2) \<and> \<not> dropped ?s2 0 \<and> length (asked ?s2 0) = 1"
    by (simp add: frame_simps b' live_def full_for_def asked_def initial_system_def sub_matches_def publish_def
      offer_event_def bus0_def)
  ultimately show ?thesis by blast
qed

lemma reopened:
  "\<exists>i h b1 j b2. stream_open ''u'' {} (Some ''x'') bus0 = Inr ((i, h), b1) \<and>
    subscribe ''v'' {} 1 (Some ''x'') (unsubscribe ''x'' b1) = Inr (j, b2)"
  by (simp add: stream_open_def subscribe_def reserve_subscriber_id_def bus0_def register_subscription_def Let_def
    unsubscribe_def)

end
