(* ===== verification/OperationsLaws.thy ===== *)
theory OperationsLaws
  imports Operations
begin

text \<open>
  Laws of the organization analytics: aggregating workloads neither loses nor invents cost, so
  the sum of two books has the sum of their costs and, by the correction of the budget, of
  their exposures; and a delta that is refused leaves a trace that disables the risk figures.
\<close>

section \<open>Sums\<close>

lemma dec_sum_exact_from:
  "grid a \<Longrightarrow> \<forall>x\<in>set xs. grid x \<Longrightarrow> \<bar>a\<bar> + sum_list (map abs xs) < 10 ^ 20 \<Longrightarrow>
   foldl dec_add a xs = a + sum_list xs \<and> grid (a + sum_list xs)"
proof (induction xs arbitrary: a)
  case (Cons x xs)
  have nonneg: "0 \<le> sum_list (map abs xs)" by (rule sum_list_nonneg) auto
  have b: "\<bar>a + x\<bar> \<le> \<bar>a\<bar> + \<bar>x\<bar>" by (rule abs_triangle_ineq)
  have l: "\<bar>a\<bar> + \<bar>x\<bar> + sum_list (map abs xs) < 10 ^ 20" using Cons.prems by simp
  then have s: "\<bar>a + x\<bar> < 10 ^ 20" using b nonneg by linarith
  have "grid (a + x)" "dec_add a x = a + x"
    using Cons.prems s by (auto intro: grid_add dec_add_grid)
  moreover have "\<bar>a + x\<bar> + sum_list (map abs xs) < 10 ^ 20" using l b by linarith
  ultimately show ?case using Cons.IH [of "a + x"] Cons.prems by (simp add: add.assoc)
qed simp

lemma dec_sum_exact:
  "\<forall>x\<in>set xs. grid x \<Longrightarrow> sum_list (map abs xs) < 10 ^ 20 \<Longrightarrow> dec_sum xs = sum_list xs \<and> grid (sum_list xs)"
  using dec_sum_exact_from [of 0 xs] by (simp add: dec_sum_def)

text \<open>Replacing a value of a dictionary, in a sum over its values.\<close>

lemma sum_dict_set:
  fixes f :: "'v \<Rightarrow> rat"
  assumes "dict_ok d"
  shows "sum_list (map f (dict_values (dict_set k v d))) =
    sum_list (map f (dict_values d)) + f v - (case dict_get d k of None \<Rightarrow> 0 | Some e \<Rightarrow> f e)"
  using assms
proof (induction d)
  case (Cons p d)
  obtain k' e where p: "p = (k', e)" by (cases p)
  show ?case
  proof (cases "k' = k")
    case True
    then show ?thesis by (simp add: p)
  next
    case False
    with Cons show ?thesis by (simp add: p dict_ok_def)
  qed
qed simp

lemma values_dict_set: "set (dict_values (dict_set k v d)) \<subseteq> insert v (set (dict_values d))"
  by (induction d) auto

section \<open>Aggregation\<close>

definition cost :: "workload \<Rightarrow> rat" where
  "cost w = realized_cost w + unrealized_cost w"

definition turnover :: "workload \<Rightarrow> rat" where
  "turnover w = \<bar>realized_cost w\<bar> + \<bar>unrealized_cost w\<bar>"

definition priced :: "workload \<Rightarrow> bool" where
  "priced w \<longleftrightarrow> grid (realized_cost w) \<and> grid (unrealized_cost w) \<and> grid (net_hours w)"

abbreviation costs :: "workload list \<Rightarrow> rat" where
  "costs ws \<equiv> sum_list (map cost ws)"

abbreviation turnovers :: "workload list \<Rightarrow> rat" where
  "turnovers ws \<equiv> sum_list (map turnover ws)"

abbreviation gross_hours :: "workload list \<Rightarrow> rat" where
  "gross_hours ws \<equiv> sum_list (map (\<lambda>w. \<bar>net_hours w\<bar>) ws)"

lemma combine_spec:
  assumes p: "priced e" "priced c" and t: "turnover e + turnover c < 10 ^ 20"
    and h: "\<bar>net_hours e\<bar> + \<bar>net_hours c\<bar> < 10 ^ 20"
  shows "\<exists>w. combine_workloads e c = Inr w \<and> wl_asset w = wl_asset e \<and> priced w \<and> cost w = cost e + cost c \<and>
    turnover w \<le> turnover e + turnover c \<and> \<bar>net_hours w\<bar> \<le> \<bar>net_hours e\<bar> + \<bar>net_hours c\<bar>"
proof -
  have g: "grid (realized_cost e)" "grid (unrealized_cost e)" "grid (net_hours e)"
    "grid (realized_cost c)" "grid (unrealized_cost c)" "grid (net_hours c)"
    using p by (auto simp: priced_def)
  have b: "\<bar>realized_cost e + realized_cost c\<bar> < 10 ^ 20" "\<bar>unrealized_cost e + unrealized_cost c\<bar> < 10 ^ 20"
    using t unfolding turnover_def by linarith+
  have n: "\<bar>net_hours e + net_hours c\<bar> < 10 ^ 20" using h by linarith
  note sums = dec_add_grid [OF g(1,4) b(1)] dec_add_grid [OF g(2,5) b(2)] dec_add_grid [OF g(3,6) n]
  have absolute: "dec_abs (net_hours e) = \<bar>net_hours e\<bar>" "dec_abs (net_hours c) = \<bar>net_hours c\<bar>"
    using g by (auto simp: dec_abs_def abs_if grid_rep grid_minus)
  have gabs: "grid \<bar>net_hours e\<bar>" "grid \<bar>net_hours c\<bar>" using g by (auto simp: abs_if grid_minus)
  have total: "dec_add (dec_abs (net_hours e)) (dec_abs (net_hours c)) = \<bar>net_hours e\<bar> + \<bar>net_hours c\<bar>"
    unfolding absolute using gabs h by (intro dec_add_grid) auto
  have nonzero: "\<bar>net_hours e\<bar> + \<bar>net_hours c\<bar> \<noteq> 0" if "net_hours e + net_hours c \<noteq> 0" using that by auto
  have gs: "grid (realized_cost e + realized_cost c)" "grid (unrealized_cost e + unrealized_cost c)" "grid (net_hours e + net_hours c)"
    using g b n by (auto intro: grid_add)
  have "\<exists>w. combine_workloads e c = Inr w \<and> wl_asset w = wl_asset e \<and> net_hours w = net_hours e + net_hours c \<and>
      realized_cost w = realized_cost e + realized_cost c \<and> unrealized_cost w = unrealized_cost e + unrealized_cost c"
    using nonzero unfolding combine_workloads_def Let_def sums total dec_div_def by auto
  then show ?thesis using gs by (fastforce simp: priced_def cost_def turnover_def)
qed

definition books_priced :: "(string, workload) dict \<Rightarrow> bool" where
  "books_priced d \<longleftrightarrow> dict_ok d \<and> (\<forall>w\<in>set (dict_values d). priced w)"

lemma turnover_nonneg: "0 \<le> turnover w"
  by (simp add: turnover_def)

lemma member_le:
  fixes f :: "workload \<Rightarrow> rat"
  assumes "\<And>w. 0 \<le> f w" "w \<in> set ws"
  shows "f w \<le> sum_list (map f ws)"
  using assms(2)
proof (induction ws)
  case (Cons x ws)
  have "0 \<le> f x" "0 \<le> sum_list (map f ws)" by (auto intro!: sum_list_nonneg assms(1))
  with Cons show ?case by fastforce
qed simp

lemma aggregate_workload_spec:
  assumes a: "books_priced (an_workloads a)" "priced c"
    and t: "turnovers (dict_values (an_workloads a)) + turnover c < 10 ^ 20"
    and h: "gross_hours (dict_values (an_workloads a)) + \<bar>net_hours c\<bar> < 10 ^ 20"
  shows "\<exists>d. aggregate_workload c a = (Inr (), a\<lparr>an_workloads := d\<rparr>) \<and> books_priced d \<and>
    costs (dict_values d) = costs (dict_values (an_workloads a)) + cost c \<and>
    turnovers (dict_values d) \<le> turnovers (dict_values (an_workloads a)) + turnover c \<and>
    gross_hours (dict_values d) \<le> gross_hours (dict_values (an_workloads a)) + \<bar>net_hours c\<bar>"
proof (cases "dict_get (an_workloads a) (wl_asset c)")
  case None
  have d: "dict_ok (an_workloads a)" using a by (simp add: books_priced_def)
  have "books_priced (dict_set (wl_asset c) c (an_workloads a))"
    using a values_dict_set [of "wl_asset c" c "an_workloads a"] unfolding books_priced_def by fastforce
  with None show ?thesis
    by (intro exI [of _ "dict_set (wl_asset c) c (an_workloads a)"])
      (simp add: aggregate_workload_def sum_dict_set [OF d] del: map_map)
next
  case (Some e)
  have d: "dict_ok (an_workloads a)" using a by (simp add: books_priced_def)
  have e: "e \<in> set (dict_values (an_workloads a))" using Some by (force dest: dict_get_mem)
  have "priced e" using a(1) e by (auto simp: books_priced_def)
  moreover have "turnover e + turnover c < 10 ^ 20"
    using member_le [of turnover, OF turnover_nonneg e] t by linarith
  moreover have "\<bar>net_hours e\<bar> + \<bar>net_hours c\<bar> < 10 ^ 20"
    using member_le [of "\<lambda>w. \<bar>net_hours w\<bar>", OF _ e] h by fastforce
  ultimately obtain w where w: "combine_workloads e c = Inr w" "priced w" "cost w = cost e + cost c"
    "turnover w \<le> turnover e + turnover c" "\<bar>net_hours w\<bar> \<le> \<bar>net_hours e\<bar> + \<bar>net_hours c\<bar>"
    using combine_spec [of e c] a(2) by blast
  have "books_priced (dict_set (wl_asset c) w (an_workloads a))"
    using a w(2) values_dict_set [of "wl_asset c" w "an_workloads a"] unfolding books_priced_def by fastforce
  with Some w show ?thesis
    by (intro exI [of _ "dict_set (wl_asset c) w (an_workloads a)"])
      (simp add: aggregate_workload_def sum_dict_set [OF d] del: map_map)
qed

lemma aggregate_all_spec:
  assumes "books_priced (an_workloads a)" "\<forall>c\<in>set cs. priced c"
    "turnovers (dict_values (an_workloads a)) + turnovers cs < 10 ^ 20"
    "gross_hours (dict_values (an_workloads a)) + gross_hours cs < 10 ^ 20"
  shows "\<exists>d. aggregate_all cs a = (Inr (), a\<lparr>an_workloads := d\<rparr>) \<and> books_priced d \<and>
    costs (dict_values d) = costs (dict_values (an_workloads a)) + costs cs \<and>
    turnovers (dict_values d) \<le> turnovers (dict_values (an_workloads a)) + turnovers cs"
  using assms
proof (induction cs arbitrary: a)
  case Nil
  then show ?case by (intro exI [of _ "an_workloads a"]) (simp add: action_simps)
next
  case (Cons c cs)
  have nn: "0 \<le> turnovers cs" "0 \<le> gross_hours cs"
    by (auto intro!: sum_list_nonneg simp: turnover_nonneg)
  obtain d where d: "aggregate_workload c a = (Inr (), a\<lparr>an_workloads := d\<rparr>)" "books_priced d"
    "costs (dict_values d) = costs (dict_values (an_workloads a)) + cost c"
    "turnovers (dict_values d) \<le> turnovers (dict_values (an_workloads a)) + turnover c"
    "gross_hours (dict_values d) \<le> gross_hours (dict_values (an_workloads a)) + \<bar>net_hours c\<bar>"
    using aggregate_workload_spec [of a c] Cons.prems nn by fastforce
  have "turnovers (dict_values d) + turnovers cs < 10 ^ 20" "gross_hours (dict_values d) + gross_hours cs < 10 ^ 20"
    using Cons.prems(3,4) d(4,5) by simp_all
  then obtain d' where "aggregate_all cs (a\<lparr>an_workloads := d\<rparr>) = (Inr (), a\<lparr>an_workloads := d'\<rparr>)" "books_priced d'"
    "costs (dict_values d') = costs (dict_values d) + costs cs" "turnovers (dict_values d') \<le> turnovers (dict_values d) + turnovers cs"
    using Cons.IH [of "a\<lparr>an_workloads := d\<rparr>"] Cons.prems(2) d(2) by auto
  with d show ?case by (auto simp: andthen_Inr)
qed

lemma replace_workloads_spec:
  assumes "\<forall>c\<in>set cs. priced c" "turnovers cs < 10 ^ 20" "gross_hours cs < 10 ^ 20"
  shows "\<exists>d. replace_workloads cs a = (Inr (), a\<lparr>an_workloads := d\<rparr>) \<and> books_priced d \<and>
    costs (dict_values d) = costs cs \<and> turnovers (dict_values d) \<le> turnovers cs"
  using aggregate_all_spec [of "a\<lparr>an_workloads := []\<rparr>" cs] assms
  by (simp add: replace_workloads_def action_simps books_priced_def)

lemma total_cost_exact:
  assumes "\<forall>w\<in>set ws. priced w" "turnovers ws < 10 ^ 20"
  shows "dec_sum (map wl_total_cost ws) = costs ws"
proof -
  have each: "wl_total_cost w = cost w \<and> grid (cost w) \<and> \<bar>cost w\<bar> \<le> turnover w" if w: "w \<in> set ws" for w
  proof -
    have "turnover w < 10 ^ 20" using member_le [of turnover, OF turnover_nonneg w] assms(2) by linarith
    then have "\<bar>realized_cost w + unrealized_cost w\<bar> < 10 ^ 20" unfolding turnover_def by linarith
    then show ?thesis using assms(1) w
      by (auto simp: wl_total_cost_def cost_def priced_def turnover_def dec_add_grid grid_add abs_triangle_ineq)
  qed
  then have e: "map wl_total_cost ws = map cost ws" by simp
  have "sum_list (map abs (map cost ws)) \<le> turnovers ws"
    using each by (auto intro!: sum_list_mono simp: o_def)
  then show ?thesis unfolding e using dec_sum_exact [of "map cost ws"] each assms(2) by auto
qed

section \<open>Sums of books\<close>

lemma copy_state_keeps:
  assumes "copy_state_to a t f = Inr m"
  shows "an_workloads m = an_workloads t \<and> an_budget m = an_budget t \<and> an_provider m = an_provider t"
proof -
  obtain ms where "m = t\<lparr>an_history := map (\<lambda>(k, h). (k, map (\<lambda>x. f_mul x f) h)) (an_history a), an_models := ms\<rparr>"
    using assms by (cases "copy_models f (an_models a)") (auto simp: copy_state_to_def)
  then show ?thesis by simp
qed

text \<open>What a successful sum holds: the aggregated workloads and the corrected budget.\<close>

lemma add_analytics_books:
  fixes a :: "'w analytics"
  assumes s: "add_analytics mix w a b = Inr m" and l: "current_workloads w a = (Inr left, a1)" and r: "current_workloads w b = (Inr right, b1)"
    and p: "\<forall>x\<in>set (left @ right). priced x" "turnovers (left @ right) < 10 ^ 20" "gross_hours (left @ right) < 10 ^ 20"
  shows "\<exists>d. current_workloads w' m = (Inr (dict_values d), m) \<and> books_priced d \<and>
    costs (dict_values d) = costs (left @ right) \<and> turnovers (dict_values d) \<le> turnovers (left @ right) \<and>
    an_budget m = dec_add (dec_add (an_budget a1) (an_budget b1))
      (dec_sub (dec_add (exposure_sum left) (exposure_sum right)) (exposure_sum (dict_values d)))"
proof -
  obtain merged m1 where c: "combine_books a1 b1 left right = Inr merged" and k: "copy_state_to a1 merged (Fin 1) = Inr m1"
    and m: "an_workloads m = an_workloads m1" "an_budget m = an_budget m1" "an_provider m = an_provider m1"
    using s l r by (auto simp: add_analytics_def split: sum.splits)
  obtain fresh where f: "new_analytics None (dec_add (an_budget a1) (an_budget b1)) (an_organization a1) None = (Inr fresh :: exn + 'w analytics)"
    using c by (cases "new_analytics None (dec_add (an_budget a1) (an_budget b1)) (an_organization a1) None :: exn + 'w analytics")
      (simp_all add: combine_books_def)
  have fresh: "an_budget fresh = dec_add (an_budget a1) (an_budget b1)" "an_provider fresh = None"
    using f by (auto simp: new_analytics_def blank_analytics_def Let_def split: if_splits)
  obtain d where d: "replace_workloads (left @ right) fresh = (Inr (), fresh\<lparr>an_workloads := d\<rparr>)" "books_priced d"
    "costs (dict_values d) = costs (left @ right)" "turnovers (dict_values d) \<le> turnovers (left @ right)"
    using replace_workloads_spec [OF p, of fresh] by blast
  have "merged = fresh\<lparr>an_workloads := d, an_budget := dec_add (an_budget fresh)
      (dec_sub (dec_add (exposure_sum left) (exposure_sum right)) (exposure_sum (dict_values d)))\<rparr>"
    using c f d(1) by (auto simp: combine_books_def Let_def)
  with copy_state_keeps [OF k] m fresh
  have "an_workloads m = d" "an_provider m = None" "an_budget m = dec_add (dec_add (an_budget a1) (an_budget b1))
      (dec_sub (dec_add (exposure_sum left) (exposure_sum right)) (exposure_sum (dict_values d)))" by auto
  with d show ?thesis
    by (intro exI [of _ d]) (simp add: current_workloads_def sync_from_provider_def andthen_def)
qed

lemma total_cost_value: "current_workloads w a = (Inr ws, a1) \<Longrightarrow> fst (total_cost w a) = Inr (dec_sum (map wl_total_cost ws))"
  by (simp add: total_cost_def action_simps)

lemma total_exposure_value: "current_workloads w a = (Inr ws, a1) \<Longrightarrow>
  fst (total_exposure w a) = Inr (dec_add (exposure_sum ws) (an_budget a1))"
  by (simp add: total_exposure_def action_simps)

lemma total_cost_add:
  assumes "add_analytics mix w a b = Inr m" "current_workloads w a = (Inr left, a1)" "current_workloads w b = (Inr right, b1)"
    "\<forall>x\<in>set (left @ right). priced x" "turnovers (left @ right) < 10 ^ 20" "gross_hours (left @ right) < 10 ^ 20"
  shows "\<exists>x y. fst (total_cost w a) = Inr x \<and> fst (total_cost w b) = Inr y \<and> fst (total_cost w' m) = Inr (x + y)"
proof -
  obtain d where d: "current_workloads w' m = (Inr (dict_values d), m)" "books_priced d"
    "costs (dict_values d) = costs (left @ right)" "turnovers (dict_values d) \<le> turnovers (left @ right)"
    using add_analytics_books [OF assms, of w'] by blast
  have nn: "0 \<le> turnovers left" "0 \<le> turnovers right" by (auto intro!: sum_list_nonneg simp: turnover_nonneg)
  have "dec_sum (map wl_total_cost left) = costs left" "dec_sum (map wl_total_cost right) = costs right"
    "dec_sum (map wl_total_cost (dict_values d)) = costs (left @ right)"
    using assms(4,5) nn d total_cost_exact [of left] total_cost_exact [of right] total_cost_exact [of "dict_values d"]
    by (auto simp: books_priced_def)
  with total_cost_value [OF assms(2)] total_cost_value [OF assms(3)] total_cost_value [OF d(1)] show ?thesis by simp
qed

text \<open>The exposures involved are exact: the correction of the budget restores their sum.\<close>

lemma total_exposure_add:
  assumes "add_analytics mix w a b = Inr m" "current_workloads w a = (Inr left, a1)" "current_workloads w b = (Inr right, b1)"
    "\<forall>x\<in>set (left @ right). priced x" "turnovers (left @ right) < 10 ^ 20" "gross_hours (left @ right) < 10 ^ 20"
    and small: "\<forall>x\<in>{exposure_sum left, exposure_sum right, an_budget a1, an_budget b1}. grid x \<and> \<bar>x\<bar> < 10 ^ 19"
    and merged: "\<And>ws. fst (current_workloads w' m) = Inr ws \<Longrightarrow> grid (exposure_sum ws) \<and> \<bar>exposure_sum ws\<bar> < 10 ^ 19"
  shows "\<exists>x y. fst (total_exposure w a) = Inr x \<and> fst (total_exposure w b) = Inr y \<and> fst (total_exposure w' m) = Inr (x + y)"
proof -
  obtain d :: "(string, workload) dict" where d: "current_workloads w' m = (Inr (dict_values d), m)"
    "an_budget m = dec_add (dec_add (an_budget a1) (an_budget b1))
      (dec_sub (dec_add (exposure_sum left) (exposure_sum right)) (exposure_sum (dict_values d)))"
    using add_analytics_books [OF assms(1-6), of w'] by blast
  define x y p q z where v: "x = exposure_sum left" "y = exposure_sum right" "p = an_budget a1" "q = an_budget b1" "z = exposure_sum (dict_values d)"
  have g: "grid x" "grid y" "grid p" "grid q" "grid z" "\<bar>x\<bar> < 10 ^ 19" "\<bar>y\<bar> < 10 ^ 19" "\<bar>p\<bar> < 10 ^ 19" "\<bar>q\<bar> < 10 ^ 19" "\<bar>z\<bar> < 10 ^ 19"
    using small merged [of "dict_values d"] d(1) unfolding v by auto
  have b: "\<bar>x + y\<bar> < 10 ^ 20" "\<bar>p + q\<bar> < 10 ^ 20" "\<bar>x + y - z\<bar> < 10 ^ 20" "\<bar>p + q + (x + y - z)\<bar> < 10 ^ 20" "\<bar>x + p\<bar> < 10 ^ 20"
    "\<bar>y + q\<bar> < 10 ^ 20" "\<bar>z + (p + q + (x + y - z))\<bar> < 10 ^ 20" using g(6-10) by auto
  have gs: "grid (x + y)" "grid (p + q)" using g b by (auto intro: grid_add)
  have gd: "grid (x + y - z)" using gs(1) g(5) b(3) by (rule grid_diff)
  have gt: "grid (p + q + (x + y - z))" using gs(2) gd b(4) by (rule grid_add)
  have "dec_add x y = x + y" "dec_add p q = p + q" using g b by (auto intro: dec_add_grid)
  moreover have "dec_sub (x + y) z = x + y - z" using grid_rep [OF gd] by (simp add: dec_sub_def)
  ultimately have "an_budget m = p + q + (x + y - z)" using d(2) dec_add_grid [OF gs(2) gd b(4)] by (simp add: v [symmetric])
  then have "dec_add z (an_budget m) = (x + p) + (y + q)" using dec_add_grid [OF g(5) gt b(7)] by simp
  moreover have "dec_add x p = x + p" "dec_add y q = y + q" by (auto intro: dec_add_grid g b)
  ultimately show ?thesis
    using total_exposure_value [OF assms(2)] total_exposure_value [OF assms(3)] total_exposure_value [OF d(1)]
    by (simp add: v)
qed

section \<open>A refused delta\<close>

text \<open>
  The list of an asset is created before its first delta is checked. After a refused delta of
  the organization its history is an empty list, which every risk computation then refuses.
\<close>

definition history_free :: "('w, 'a) an_op \<Rightarrow> bool" where
  "history_free m \<longleftrightarrow> (\<forall>a h. m (a\<lparr>an_history := h\<rparr>) = map_prod id (\<lambda>a. a\<lparr>an_history := h\<rparr>) (m a))"

lemma history_freeD: "history_free m \<Longrightarrow> m (a\<lparr>an_history := h\<rparr>) = map_prod id (\<lambda>a. a\<lparr>an_history := h\<rparr>) (m a)"
  by (simp add: history_free_def)

lemma history_free_andthen: "history_free m \<Longrightarrow> (\<And>x. history_free (f x)) \<Longrightarrow> history_free (andthen m f)"
  by (auto simp: history_free_def andthen_def split: prod.split sum.split)

lemma history_free_basic [simp]: "history_free (ret x)" "history_free (aggregate_workload c)"
  by (auto simp: history_free_def ret_def aggregate_workload_def split: option.split sum.split)

lemma history_free_aggregate [simp]: "history_free (aggregate_all cs)"
  by (induction cs) (auto intro: history_free_andthen)

lemma history_free_gross [simp]: "history_free (gross_committed_hours w)"
proof -
  have "history_free (modify (\<lambda>a. a\<lparr>an_workloads := []\<rparr>))" by (simp add: history_free_def modify_def)
  then have "history_free (replace_workloads ws)" for ws
    unfolding replace_workloads_def by (intro history_free_andthen) auto
  then have "history_free (sync_from_provider w)"
    by (auto simp: history_free_def sync_from_provider_def split: option.split)
  moreover have "history_free (\<lambda>a. (Inr (dict_values (an_workloads a)), a))" by (simp add: history_free_def)
  ultimately show ?thesis
    unfolding gross_committed_hours_def current_workloads_def by (intro history_free_andthen) auto
qed

lemma refused_delta:
  assumes h: "dict_get (an_history a) organization_key = None" and bad: "finite_float delta = Inl e"
    and g: "gross_committed_hours w a = (Inr g, a1)" "is_finite (to_float g)"
    and conf: "validate_confidence confidence = Inr c" "confidence \<noteq> VNone"
  shows "\<exists>a'. record_organization_backlog delta a = (Inl e, a') \<and>
    fst (compute_backlog_risk np w VNone confidence a') = Inl ValueError"
proof -
  let ?h = "dict_set organization_key [] (an_history a)"
  have r: "record_organization_backlog delta a = (Inl e, a\<lparr>an_history := ?h\<rparr>)"
    using h bad by (simp add: record_organization_backlog_def record_daily_backlog_def history_of_def organization_key_def)
  have "gross_committed_hours w (a\<lparr>an_history := ?h\<rparr>) = (Inr g, a1\<lparr>an_history := ?h\<rparr>)"
    by (simp add: history_freeD [OF history_free_gross] g(1))
  then have "fst (compute_backlog_risk np w VNone confidence (a\<lparr>an_history := ?h\<rparr>)) =
      risk_compute np (an_engine a1) (VFloat (to_float g)) VNone (Some []) confidence VNone"
    by (simp add: compute_backlog_risk_def andthen_Inr dict_simps)
  also have "\<dots> = Inl ValueError"
  proof -
    have "(case confidence of VNone \<Rightarrow> Inr (re_confidence (an_engine a1)) | k \<Rightarrow> validate_confidence k) = Inr c"
      using conf by (cases confidence) auto
    then show ?thesis
      using g(2) by (simp add: risk_compute_def finite_float_def historical_backlog_risk_def overruns_def
          join_results_def risk_measure_def)
  qed
  finally show ?thesis using r by blast
qed

end
