(* ===== verification/ApiScenario.thy ===== *)
theory ApiScenario
  imports ApiLaws Scenario OperationsLaws
begin

text \<open>
  A small application for the witnesses: one active key of the organization \<open>o2\<close> with both
  permissions, an empty engine without a store, and a request for four hours.
\<close>

definition key0 :: api_key where
  "key0 = \<lparr>key_id = ''k'', ak_organization = ''o2'', ak_permissions = {''read'', ''dispatch''}, ak_created_at = 0,
     expires_at = None, revoked_at = None\<rparr>"

definition keys0 :: key_manager where
  "keys0 = \<lparr>km_secret = ''s'', default_ttl = None, km_records = [(''k'', key0)], km_digests = [(''k'', ''raw'')],
     by_digest = [(''raw'', ''k'')]\<rparr>"

definition numerics0 :: numerics where
  "numerics0 = \<lparr>np_mean = hd, np_std = hd, np_log = id, quantile_higher = (\<lambda>xs c. hd xs), norm_ppf = id, f_sqrt = id,
     np_cumsum = id, np_minimum_accumulate = id, np_max = hd, np_min = hd, min_eigenvalue = (\<lambda>_. Fin 0),
     quadratic_form = (\<lambda>_ _. Fin 0)\<rparr>"

definition conf0 :: app_config where
  "conf0 = \<lparr>ac_service = \<lparr>sc_engine = cfg0, display_currency = ''EUR'', hours_volatility = None\<rparr>, ac_mac = (\<lambda>s t. t),
     ac_public = default_public_paths, ac_like = like_match, ac_numerics = numerics0, ac_mix = sum_list,
     ac_bucket_text = (\<lambda>_. []), ac_version = ''2'', ac_policies = [], ac_feed = False\<rparr>"

definition app0 :: app where
  "app0 = \<lparr>ap_ready = True, ap_service = open_service (new_engine heap0 bus0) None, ap_keys = keys0,
     ap_metrics = new_registry, ap_next = 0, ap_feed_task = NoTask\<rparr>"

definition env0 :: env where
  "env0 = \<lparr>en_now = 7, en_clock = Aware 7 0, en_uuid = ''u'', en_ok = True\<rparr>"

definition body0 :: order_body where
  "body0 = \<lparr>ob_asset = ''CNC-01'', ob_side = REQUEST, ob_hours = VInt 4, ob_mode = RATE_CAPPED, ob_rate = VInt 60,
     ob_escalation = VNone, ob_priority = 3, ob_window = OPEN, ob_id = Some ''b''\<rparr>"

definition order0 :: work_order where
  "order0 = (plain_order ''b'' ''o2'' REQUEST OPEN 4 60 NEW)\<lparr>created_at := 7\<rparr>"

lemma served0: "served conf0 app0"
  unfolding app0_def by (rule served.Opened)

lemma key0_found: "key_of conf0 env0 (Some ''raw'') app0 = Some key0"
  by (simp add: key_of_def conf0_def env0_def app0_def validate_key_def keys0_def key_digest_def manager_now_def
      ensure_utc_def key_is_active_def is_revoked_def is_expired_def key0_def)

lemma conf0_parts [simp]: "ac_public conf0 = default_public_paths" "sc_engine (ac_service conf0) = cfg0"
  by (simp_all add: conf0_def)

lemma app0_parts [simp]: "ap_ready app0" "sv_engine (ap_service app0) = new_engine heap0 bus0" "ap_next app0 = 0"
  by (simp_all add: app0_def open_service_def)

lemma key0_permissions [simp]: "ak_permissions key0 = {''read'', ''dispatch''}" "ak_organization key0 = ''o2''"
  by (simp_all add: key0_def)

definition request0 :: work_order_request where
  "request0 = \<lparr>wr_asset = ''CNC-01'', wr_side = REQUEST, wr_hours = 4, wr_mode = RATE_CAPPED, wr_rate = Some 60,
     wr_escalation = None, wr_priority = 3, wr_window = OPEN, wr_id = Some ''b''\<rparr>"

lemma body0_parsed: "parse_request body0 = Inr request0"
  by (simp add: parse_request_def body0_def request0_def coerce_decimal_def positive_or_none_def) code_simp

lemma canonical_cnc: "upper (strip ''CNC-01'') = ''CNC-01''"
  by code_simp

lemma order0_ok: "work_order_ok order0"
  by (simp add: work_order_ok_def work_order_valid_def work_order_fields_ok_def validate_work_order_def positive_rate_def
      order0_def plain_order_def grid_dec_rep grid_numeral)

lemma order0_made: "to_work_order 7 ''u'' ''o2'' request0 = Inr order0"
  using order0_ok
  by (simp add: to_work_order_def request0_def order0_def plain_order_def mk_work_order_def canonical_cnc work_order_ok_def)

lemma order0_admitted: "submission_decision conf0 app0 order0 = Admits"
  by (simp add: submission_decision_def decide_def allocated_def new_engine_def validate_boundary_def cfg0_def
      order0_def plain_order_def Let_def)

lemma order0_bound: "2 * volume (sv_engine (ap_service app0)) + 2 * remaining_hours order0 < 10 ^ 20"
proof -
  have "remaining_hours order0 = 4" by (simp add: remaining_hours_def order0_def plain_order_def dec_sub_def)
  then show ?thesis by (simp add: new_engine_def volume_def)
qed

text \<open>The order is filed; its organization can read it.\<close>

lemma app1_exists:
  "\<exists>r a. handle conf0 env0 (Some ''raw'') (SubmitCall body0) app0 = (Inr r, a) \<and> served conf0 a \<and>
     filed (ap_service a) ''o2'' ''b'' 0"
proof -
  have e: "to_work_order (en_now env0) (en_uuid env0) (ak_organization key0) request0 = Inr order0"
    using order0_made by (simp add: env0_def)
  have i: "work_order_id order0 = ''b''" "work_order_id order0 \<notin> known_ids (sv_engine (ap_service app0))"
    by (simp_all add: order0_def plain_order_def new_engine_def)
  have "sorted_keys (key_enum (sc_engine (ac_service conf0)))" "engine_inv (sv_engine (ap_service app0))"
    by (simp_all add: engine_inv_new)
  note submit_outcome [OF this(1) served_ok [OF served0] _ _ this(2) key0_found _ body0_parsed e order0_ok order0_bound]
  then obtain r a where r: "handle conf0 env0 (Some ''raw'') (SubmitCall body0) app0 = (Inr r, a)"
    "filed (ap_service a) ''o2'' ''b'' 0"
    using i order0_admitted by auto
  with served.Request [OF served0 r(1)] show ?thesis by blast
qed

lemma order_read:
  "\<exists>a r a'. served conf0 a \<and> handle conf0 env0 (Some ''raw'') (GetCall ''b'') a = (Inr r, a') \<and> rs_status r = 200 \<and>
     key_of conf0 env0 (Some ''raw'') a = Some key0"
proof -
  obtain a0 where a0: "served conf0 a0" "filed (ap_service a0) ''o2'' ''b'' 0" using app1_exists by blast
  let ?a = "a0\<lparr>ap_keys := keys0, ap_metrics := new_registry, ap_feed_task := NoTask, ap_ready := True\<rparr>"
  have s: "served conf0 ?a" using a0(1) by (rule served.Keys)
  have k: "key_of conf0 env0 (Some ''raw'') ?a = Some key0"
    using key0_found by (simp add: key_of_def app0_def)
  have ok: "order_id_ok ''b''" by code_simp
  have "dict_get (bk_orders (the_book ''o2'' (ap_service a0))) ''b'' = Some 0" using a0(2) by (simp add: filed_def)
  then have "\<exists>r a'. get_endpoint (principal_of key0) ''b'' ?a = (Inr r, a') \<and> rs_status r = 200"
    by (simp add: get_endpoint_def andthen_def on_service_def get_work_order_def book_of_def ret_def key0_permissions)
  moreover have "handle conf0 env0 (Some ''raw'') (GetCall ''b'') ?a = endpoint_of conf0 env0 (GetCall ''b'') (principal_of key0) ?a"
    by (rule handle_served [OF k, where p = "''read''"]) (simp_all add: permission_read_def)
  ultimately have "\<exists>r a'. handle conf0 env0 (Some ''raw'') (GetCall ''b'') ?a = (Inr r, a') \<and> rs_status r = 200"
    using ok by simp
  with s k show ?thesis by blast
qed

section \<open>Stores and analytics\<close>

definition store0 :: telemetry_store where
  "store0 = \<lparr>st_readings = [], st_intervals = [], st_assignments = [], st_equipment = [], is_closed = False\<rparr>"

definition reading0 :: reading_input where
  "reading0 = \<lparr>in_asset = '' cnc-01 '', in_min = VInt 1, in_max = VInt 3, in_last = VNum 2, in_count = VInt 5,
     in_timestamp = Aware 9 2\<rparr>"

definition row0 :: reading_row where
  "row0 = \<lparr>rd_asset = ''CNC-01'', rd_min = 1, rd_max = 3, rd_last = 2, rd_count = 5, rd_timestamp = Naive 9\<rparr>"

lemma canonical_cnc_text: "upper (strip '' cnc-01 '') = ''CNC-01''"
  by code_simp

lemma reading0_row: "reading_record reading0 = Inr row0"
  by (simp add: reading_record_def reading0_def row0_def validate_asset_id_def canonical_cnc_text store_decimal_def
      validate_sample_count_def bind_timestamp_def ensure_utc_def)

definition analytics0 :: "unit analytics" where
  "analytics0 = (blank_analytics 5 ''o1'' None)\<lparr>an_workloads := [(''CNC-01'',
     (new_workload ''o1'' ''CNC-01'' 0)\<lparr>net_hours := 4, average_service_rate := 30, realized_cost := 2\<rparr>)]\<rparr>"

definition analytics1 :: "unit analytics" where
  "analytics1 = (blank_analytics 7 ''o2'' None)\<lparr>an_workloads := [(''CNC-01'',
     (new_workload ''o2'' ''CNC-01'' 0)\<lparr>net_hours := -1, average_service_rate := 50, realized_cost := 3\<rparr>)]\<rparr>"

lemma analytics_current:
  "current_workloads () analytics0 = (Inr (dict_values (an_workloads analytics0)), analytics0)"
  "current_workloads () analytics1 = (Inr (dict_values (an_workloads analytics1)), analytics1)"
  by (simp_all add: current_workloads_def sync_from_provider_def andthen_def analytics0_def analytics1_def blank_analytics_def)

lemma analytics_sum:
  "\<exists>m w m'. add_analytics sum_list () analytics0 analytics1 = Inr m \<and> current_workloads () m = (Inr [w], m') \<and>
     exposure_sum [w] = 90"
  by (simp add: add_analytics_def analytics_current combine_books_def analytics0_def analytics1_def blank_analytics_def
      new_analytics_def replace_workloads_def modify_def andthen_def aggregate_workload_def combine_workloads_def Let_def
      copy_state_to_def current_workloads_def sync_from_provider_def dec_op_defs exposure_sum_def new_workload_def ret_def
      exposure_value_def dec_sum_def)

lemma analytics_priced:
  "\<forall>x\<in>set (dict_values (an_workloads analytics0) @ dict_values (an_workloads analytics1)). priced x"
  "turnovers (dict_values (an_workloads analytics0) @ dict_values (an_workloads analytics1)) = 5"
  "gross_hours (dict_values (an_workloads analytics0) @ dict_values (an_workloads analytics1)) = 5"
  "exposure_sum (dict_values (an_workloads analytics0)) = 120" "exposure_sum (dict_values (an_workloads analytics1)) = -50"
  "an_budget analytics0 = 5" "an_budget analytics1 = 7"
  by (simp_all add: analytics0_def analytics1_def blank_analytics_def new_workload_def priced_def turnover_def grid_numeral
      grid_one grid_minus exposure_sum_def exposure_value_def dec_op_defs dec_sum_def)

lemma order_changes_engine:
  "\<exists>r a. handle conf0 env0 (Some ''raw'') (SubmitCall body0) app0 = (Inr r, a) \<and>
     sv_engine (ap_service a) \<noteq> sv_engine (ap_service app0)"
proof -
  obtain r a where a: "handle conf0 env0 (Some ''raw'') (SubmitCall body0) app0 = (Inr r, a)" "served conf0 a"
    "filed (ap_service a) ''o2'' ''b'' 0" using app1_exists by blast
  have "books_ok (ap_service a)" using served_ok [OF a(2)] by (simp add: app_ok_def)
  then have "''b'' \<in> known_ids (sv_engine (ap_service a))" using a(3) by (rule books_okD(3))
  moreover have "''b'' \<notin> known_ids (sv_engine (ap_service app0))" by (simp add: new_engine_def)
  ultimately show ?thesis using a(1) by metis
qed

definition press0 :: equipment where
  "press0 = press ''CNC-01''"

definition catalogue0 :: "(string, equipment) dict" where
  "catalogue0 = [(''CNC-01'', press0)]"

definition store1 :: telemetry_store where
  "store1 = store0\<lparr>st_equipment := [(''CNC-01'', row_of press0)]\<rparr>"

lemma store1_rows: "dict_values (st_equipment store1) = map row_of (dict_values catalogue0)" "\<not> is_closed store1"
  by (simp_all add: store1_def catalogue0_def store0_def)

lemma analytics0_gross: "\<exists>g a. gross_committed_hours () analytics0 = (Inr g, a) \<and> g = 120"
  by (simp add: gross_committed_hours_def analytics_current andthen_def ret_def)
    (simp add: analytics0_def blank_analytics_def new_workload_def exposure_value_def dec_op_defs dec_sum_def)

lemma half_confidence: "\<exists>c. validate_confidence (VFloat (Fin (1 / 2))) = Inr c"
  by (simp add: validate_confidence_def finite_float_def)

lemma strip_c: "strip ''c'' = ''c''"
  by code_simp

end
