(* ===== verification/Decorators.thy ===== *)
theory Decorators
  imports Numbers
begin

text \<open>
  The decorators of \<^verbatim>\<open>mittelwerk/utils/decorators.py\<close>: timing, retries with exponential
  backoff, and the token bucket \<open>RateLimiter\<close>. A decorated function is an action on the
  state of the world; the time source and the pauses are explicit.
\<close>

section \<open>Timing\<close>

text \<open>
  The wrapper returns what the function returns, also when it raises, and logs the time
  between two readings of the clock.
\<close>

definition timed :: "('w \<Rightarrow> pyfloat) \<Rightarrow> ('w, 'a) action \<Rightarrow> ('w \<times> pyfloat list, 'a) action" where
  "timed perf_counter func s =
     (let (w, log) = s; start = perf_counter w; (r, w') = func w
      in (r, (w', log @ [f_sub (perf_counter w') start])))"

section \<open>Retries\<close>

text \<open>
  The exceptions a retry catches: \<open>None\<close> stands for an argument that is not a non-empty
  tuple of exception classes.
\<close>

type_synonym catches = "(exn \<Rightarrow> bool) option"

definition validate_retry_options :: "pyval \<Rightarrow> pyval \<Rightarrow> pyval \<Rightarrow> catches \<Rightarrow> exn + unit" where
  "validate_retry_options max_attempts delay backoff exceptions =
     (case max_attempts of
        VInt n \<Rightarrow>
          if n < 1 then Inl ValueError
          else (case finite_number_such (\<lambda>x. 0 \<le> x) delay of
              Inl e \<Rightarrow> Inl e
            | Inr False \<Rightarrow> Inl ValueError
            | Inr True \<Rightarrow>
                (case finite_number_such (\<lambda>x. 0 < x) backoff of
                   Inl e \<Rightarrow> Inl e
                 | Inr False \<Rightarrow> Inl ValueError
                 | Inr True \<Rightarrow> (case exceptions of None \<Rightarrow> Inl TypeError | Some c \<Rightarrow> Inr ())))
      | _ \<Rightarrow> Inl ValueError)"

text \<open>
  \<^verbatim>\<open>time.sleep\<close> and \<^verbatim>\<open>asyncio.sleep\<close> count in nanoseconds of 64 bits; longer pauses are an
  \<open>OverflowError\<close>. The pauses taken are logged.
\<close>

definition sleepable :: "pyval \<Rightarrow> bool" where
  "sleepable d \<longleftrightarrow> (case num_value d of Fin x \<Rightarrow> x * 10 ^ 9 < 2 ^ 63 | _ \<Rightarrow> False)"

definition py_sleep :: "pyval \<Rightarrow> ('w \<times> pyval list, unit) action" where
  "py_sleep d s = (if sleepable d then (Inr (), (fst s, snd s @ [d])) else (Inl OverflowError, s))"

definition truthy :: "pyval \<Rightarrow> bool" where
  "truthy d \<longleftrightarrow> num_value d \<noteq> Fin 0"

text \<open>The loop over the attempts, by the number of attempts left.\<close>

fun retry_loop ::
  "(exn \<Rightarrow> bool) \<Rightarrow> pyval \<Rightarrow> ('w, 'a) action \<Rightarrow> nat \<Rightarrow> pyval \<Rightarrow> ('w \<times> pyval list, 'a) action" where
  "retry_loop catches backoff func 0 current_delay s = (Inl RuntimeError, s)"
| "retry_loop catches backoff func (Suc n) current_delay s =
     (case func (fst s) of
        (Inr a, w) \<Rightarrow> (Inr a, (w, snd s))
      | (Inl e, w) \<Rightarrow>
          if \<not> catches e then (Inl e, (w, snd s))
          else if n = 0 then (Inl e, (w, snd s))
          else andthen (if truthy current_delay then py_sleep current_delay else ret ()) (\<lambda>_.
               andthen (lift_exn (num_mul current_delay backoff)) (\<lambda>next_delay.
               retry_loop catches backoff func n next_delay)) (w, snd s))"

text \<open>
  The two decorators: the options are checked when the decorator is made, the kind of
  function when it is applied.
\<close>

definition decorate_retry ::
  "bool \<Rightarrow> pyval \<Rightarrow> pyval \<Rightarrow> pyval \<Rightarrow> catches \<Rightarrow> bool \<Rightarrow> ('w, 'a) action \<Rightarrow> exn + ('w \<times> pyval list, 'a) action" where
  "decorate_retry wants_coroutine max_attempts delay backoff exceptions is_coroutine func =
     (case validate_retry_options max_attempts delay backoff exceptions of
        Inl e \<Rightarrow> Inl e
      | Inr () \<Rightarrow>
          if is_coroutine \<noteq> wants_coroutine then Inl TypeError
          else Inr (retry_loop (the exceptions) backoff func (case max_attempts of VInt n \<Rightarrow> nat n | _ \<Rightarrow> 0) delay))"

definition retry ::
  "pyval \<Rightarrow> pyval \<Rightarrow> pyval \<Rightarrow> catches \<Rightarrow> bool \<Rightarrow> ('w, 'a) action \<Rightarrow> exn + ('w \<times> pyval list, 'a) action" where
  "retry = decorate_retry False"

definition async_retry ::
  "pyval \<Rightarrow> pyval \<Rightarrow> pyval \<Rightarrow> catches \<Rightarrow> bool \<Rightarrow> ('w, 'a) action \<Rightarrow> exn + ('w \<times> pyval list, 'a) action" where
  "async_retry = decorate_retry True"

section \<open>The token bucket\<close>

record rate_limiter =
  rl_rate :: pyfloat
  rl_burst :: int
  rl_tokens :: pyval
  last_refill :: pyfloat

definition new_rate_limiter :: "pyval \<Rightarrow> pyval \<Rightarrow> pyfloat \<Rightarrow> exn + rate_limiter" where
  "new_rate_limiter rate burst now =
     (case finite_number_such (\<lambda>x. 0 < x) rate of
        Inl e \<Rightarrow> Inl e
      | Inr False \<Rightarrow> Inl ValueError
      | Inr True \<Rightarrow>
          (case burst of
             VInt b \<Rightarrow>
               if b \<le> 0 then Inl ValueError
               else (case as_float rate of Inl e \<Rightarrow> Inl e | Inr r \<Rightarrow>
                    (case int_to_float b of Inl e \<Rightarrow> Inl e | Inr t \<Rightarrow>
                     Inr \<lparr>rl_rate = r, rl_burst = b, rl_tokens = VFloat t, last_refill = now\<rparr>))
           | _ \<Rightarrow> Inl ValueError))"

definition validate_tokens :: "pyval \<Rightarrow> rate_limiter \<Rightarrow> exn + pyfloat" where
  "validate_tokens tokens l =
     (case finite_number_such (\<lambda>x. 0 < x) tokens of
        Inl e \<Rightarrow> Inl e
      | Inr False \<Rightarrow> Inl ValueError
      | Inr True \<Rightarrow> if num_lt (VInt (rl_burst l)) tokens then Inl ValueError else as_float tokens)"

text \<open>
  The tokens are a float, or the integer \<open>burst\<close> itself after the bucket has filled up. An
  addition cannot raise, because the conversion of \<open>burst\<close> succeeded in the constructor.
\<close>

definition refill :: "pyfloat \<Rightarrow> rate_limiter \<Rightarrow> exn + rate_limiter" where
  "refill now l =
     (let elapsed = f_max (Fin 0) (f_sub now (last_refill l)) in
      case num_add (rl_tokens l) (VFloat (f_mul elapsed (rl_rate l))) of
        Inl e \<Rightarrow> Inl e
      | Inr filled \<Rightarrow> Inr (l\<lparr>rl_tokens := num_min (VInt (rl_burst l)) filled, last_refill := now\<rparr>))"

definition acquire :: "pyval \<Rightarrow> pyfloat \<Rightarrow> rate_limiter \<Rightarrow> (exn + bool) \<times> rate_limiter" where
  "acquire tokens now l =
     (case validate_tokens tokens l of
        Inl e \<Rightarrow> (Inl e, l)
      | Inr requested \<Rightarrow>
          (case refill now l of
             Inl e \<Rightarrow> (Inl e, l)
           | Inr l1 \<Rightarrow>
               if num_lt (rl_tokens l1) (VFloat requested) then (Inr False, l1)
               else (case num_sub (rl_tokens l1) (VFloat requested) of
                       Inl e \<Rightarrow> (Inl e, l1)
                     | Inr t \<Rightarrow> (Inr True, l1\<lparr>rl_tokens := t\<rparr>))))"

text \<open>
  \<open>wait\<close>: the clock is read once per turn; \<open>clock k\<close> is the reading of turn \<open>k\<close>. The loop
  returns the seconds waited and the number of readings, or is \<open>None\<close> if it never ends.
\<close>

partial_function (option) wait_loop ::
  "(nat \<Rightarrow> pyfloat) \<Rightarrow> pyfloat \<Rightarrow> nat \<Rightarrow> pyfloat \<Rightarrow> rate_limiter \<Rightarrow> ((exn + pyfloat) \<times> nat \<times> rate_limiter) option" where
  [code]: "wait_loop clock requested k waited l =
     (case refill (clock k) l of
        Inl e \<Rightarrow> Some (Inl e, Suc k, l)
      | Inr l1 \<Rightarrow>
          if num_le (VFloat requested) (rl_tokens l1)
          then (case num_sub (rl_tokens l1) (VFloat requested) of
                  Inl e \<Rightarrow> Some (Inl e, Suc k, l1)
                | Inr t \<Rightarrow> Some (Inr waited, Suc k, l1\<lparr>rl_tokens := t\<rparr>))
          else (case num_sub (VFloat requested) (rl_tokens l1) of
                  Inl e \<Rightarrow> Some (Inl e, Suc k, l1)
                | Inr missing \<Rightarrow>
                    (case f_div (num_value missing) (rl_rate l1) of
                       Inl e \<Rightarrow> Some (Inl e, Suc k, l1)
                     | Inr sleep_for \<Rightarrow>
                         if \<not> sleepable (VFloat sleep_for) then Some (Inl OverflowError, Suc k, l1)
                         else wait_loop clock requested (Suc k) (f_add waited sleep_for) l1)))"

definition wait_tokens ::
  "(nat \<Rightarrow> pyfloat) \<Rightarrow> pyval \<Rightarrow> nat \<Rightarrow> rate_limiter \<Rightarrow> ((exn + pyfloat) \<times> nat \<times> rate_limiter) option" where
  "wait_tokens clock tokens k l =
     (case validate_tokens tokens l of
        Inl e \<Rightarrow> Some (Inl e, k, l)
      | Inr requested \<Rightarrow> wait_loop clock requested k (Fin 0) l)"

end
