(* ===== verification/DecoratorLaws.thy ===== *)
theory DecoratorLaws
  imports Decorators
begin

text \<open>
  The laws of the decorators. A retry returns what the first attempt returns that succeeds or
  raises something it does not catch. The token bucket grants at most its burst plus what
  has accrued since it was filled, on a clock that ticks in multiples of \<open>1 / 2^20\<close> seconds,
  where no operation rounds; a wait returns at the first reading at which enough has accrued.
\<close>

section \<open>Retries\<close>

lemma timed_transparent: "fst (timed clock f (w, ds)) = fst (f w)" "fst (snd (timed clock f (w, ds))) = snd (f w)"
  by (simp_all add: timed_def Let_def split: prod.splits)

text \<open>The pauses of a retry: the delay before attempt \<open>k + 2\<close>.\<close>

primrec backoff_delay :: "pyval \<Rightarrow> pyval \<Rightarrow> nat \<Rightarrow> exn + pyval" where
  "backoff_delay b d 0 = Inr d"
| "backoff_delay b d (Suc k) = (case num_mul d b of Inl e \<Rightarrow> Inl e | Inr d' \<Rightarrow> backoff_delay b d' k)"

definition pauses_ok :: "pyval \<Rightarrow> pyval \<Rightarrow> nat \<Rightarrow> bool" where
  "pauses_ok b d n \<longleftrightarrow> (\<forall>k<n. \<exists>x. backoff_delay b d k = Inr x \<and> (truthy x \<longrightarrow> sleepable x) \<and> isl (num_mul x b) = False)"

lemma pauses_ok_Suc: "pauses_ok b d (Suc n) \<Longrightarrow> \<exists>d'. num_mul d b = Inr d' \<and> (truthy d \<longrightarrow> sleepable d) \<and> pauses_ok b d' n"
proof -
  assume p: "pauses_ok b d (Suc n)"
  then have "isl (num_mul d b) = False" "truthy d \<longrightarrow> sleepable d"
    unfolding pauses_ok_def by (metis backoff_delay.simps(1) sum.inject(2) zero_less_Suc)+
  then obtain d' where d: "num_mul d b = Inr d'" by (cases "num_mul d b") auto
  have "pauses_ok b d' n" unfolding pauses_ok_def
  proof (intro allI impI)
    fix k assume "k < n"
    then have "\<exists>x. backoff_delay b d (Suc k) = Inr x \<and> (truthy x \<longrightarrow> sleepable x) \<and> isl (num_mul x b) = False"
      using p unfolding pauses_ok_def by (meson Suc_less_eq)
    then show "\<exists>x. backoff_delay b d' k = Inr x \<and> (truthy x \<longrightarrow> sleepable x) \<and> isl (num_mul x b) = False"
      by (simp add: d)
  qed
  with d \<open>truthy d \<longrightarrow> sleepable d\<close> show ?thesis by blast
qed

text \<open>The outcome of the attempts made one after the other, without any pause.\<close>

primrec attempts :: "('w, 'a) action \<Rightarrow> nat \<Rightarrow> 'w \<Rightarrow> 'w" where
  "attempts f 0 w = w"
| "attempts f (Suc k) w = attempts f k (snd (f w))"

definition attempt :: "('w, 'a) action \<Rightarrow> nat \<Rightarrow> 'w \<Rightarrow> (exn + 'a) \<times> 'w" where
  "attempt f k w = f (attempts f k w)"

definition failed :: "(exn \<Rightarrow> bool) \<Rightarrow> exn + 'a \<Rightarrow> bool" where
  "failed c r \<longleftrightarrow> (\<exists>e. r = Inl e \<and> c e)"

lemma attempt_Suc: "attempt f (Suc k) w = attempt f k (snd (f w))"
  by (simp add: attempt_def)

lemma retry_loop_spec:
  assumes "pauses_ok b d n" "\<forall>j<k. failed c (fst (attempt f j w))" "k \<le> n"
    "k = n \<or> \<not> failed c (fst (attempt f k w))"
  shows "\<exists>ds. retry_loop c b f (Suc n) d (w, ds0) = (fst (attempt f k w), (snd (attempt f k w), ds0 @ ds)) \<and> length ds \<le> k"
  using assms
proof (induction n arbitrary: d w k ds0)
  case 0
  then have "k = 0" by simp
  then show ?case by (cases "f w"; cases "fst (f w)") (auto simp: attempt_def)
next
  case (Suc n)
  obtain d' where d: "num_mul d b = Inr d'" "truthy d \<longrightarrow> sleepable d" "pauses_ok b d' n"
    using pauses_ok_Suc [OF Suc.prems(1)] by blast
  obtain r w' where f: "f w = (r, w')" by fastforce
  show ?case
  proof (cases k)
    case 0
    with Suc.prems(4) have "\<not> failed c r" by (simp add: attempt_def f)
    then show ?thesis using 0 by (cases r) (auto simp: attempt_def f failed_def)
  next
    case (Suc j)
    have "failed c r" using Suc.prems(2) Suc by (auto simp: attempt_def f dest: spec [of _ 0])
    then obtain e where e: "r = Inl e" "c e" by (auto simp: failed_def)
    have a: "\<And>i. attempt f (Suc i) w = attempt f i w'" by (simp add: attempt_Suc f)
    have 1: "\<forall>i<j. failed c (fst (attempt f i w'))"
      using Suc.prems(2) Suc a by (metis Suc_less_eq)
    have 2: "j \<le> n" "j = n \<or> \<not> failed c (fst (attempt f j w'))" using Suc.prems(3,4) Suc a by auto
    let ?ds = "if truthy d then ds0 @ [d] else ds0"
    obtain ds where ds: "retry_loop c b f (Suc n) d' (w', ?ds) =
        (fst (attempt f j w'), (snd (attempt f j w'), ?ds @ ds))" "length ds \<le> j"
      using Suc.IH [OF d(3) 1 2] by blast
    have "retry_loop c b f (Suc (Suc n)) d (w, ds0) = retry_loop c b f (Suc n) d' (w', ?ds)"
      using d e f by (simp add: andthen_def ret_def py_sleep_def lift_exn_def del: retry_loop.simps(2)) (simp add: andthen_def ret_def py_sleep_def lift_exn_def)
    with ds Suc a show ?thesis by (auto intro!: exI [of _ "(if truthy d then [d] else []) @ ds"])
  qed
qed

text \<open>What decorating gives.\<close>

lemma decorate_retry_Inr:
  "decorate_retry k (VInt m) d b (Some c) k f = (case validate_retry_options (VInt m) d b (Some c) of
     Inl e \<Rightarrow> Inl e | Inr _ \<Rightarrow> Inr (retry_loop c b f (nat m) d))"
  unfolding decorate_retry_def by (rule sum.case_cong [OF refl]) (simp_all split: unit.split)

lemma retry_decorated: "retry (VInt (int (Suc n))) d b (Some c) False f = Inr g \<Longrightarrow> g = retry_loop c b f (Suc n) d"
  unfolding retry_def decorate_retry_Inr nat_int by (simp split: sum.splits)

section \<open>The token bucket\<close>

text \<open>Multiples of \<open>1 / 2^20\<close>; up to \<open>2^33\<close> they are floats.\<close>

definition ticked :: "rat \<Rightarrow> bool" where
  "ticked x \<longleftrightarrow> (\<exists>n::int. x = of_int n / 2 ^ 20)"

lemma ticked_simps [simp]: "ticked 0" "ticked (of_int n)"
proof -
  show "ticked 0" unfolding ticked_def by (rule exI [of _ 0]) simp
  show "ticked (of_int n)" unfolding ticked_def by (rule exI [of _ "n * 2 ^ 20"]) simp
qed

lemma ticked_add: "ticked x \<Longrightarrow> ticked y \<Longrightarrow> ticked (x + y)"
  unfolding ticked_def by (metis add_divide_distrib of_int_add)

lemma ticked_diff: "ticked x \<Longrightarrow> ticked y \<Longrightarrow> ticked (x - y)"
  unfolding ticked_def by (metis diff_divide_distrib of_int_diff)

lemma ticked_scale: "ticked x \<Longrightarrow> ticked (x * of_int n)"
  unfolding ticked_def by (metis of_int_mult times_divide_eq_left)

lemma ticked_min: "ticked x \<Longrightarrow> ticked y \<Longrightarrow> ticked (min x y)"
  by (simp add: min_def)

lemma ticked_max: "ticked x \<Longrightarrow> ticked y \<Longrightarrow> ticked (max x y)"
  by (simp add: max_def)

lemma fl_power: "k \<le> 1000 \<Longrightarrow> fl_rep (2 ^ k)"
proof -
  assume k: "k \<le> 1000"
  have "fl (of_nat 2 powi int k) = of_nat 2 powi int k" unfolding fl_def by (rule rnd_powi) auto
  moreover have "(2::rat) ^ k < 2 ^ 1024" using k by (intro power_strict_increasing) auto
  ultimately show ?thesis by (simp add: fl_rep_def)
qed

lemma ticked_fl: "ticked x \<Longrightarrow> \<bar>x\<bar> \<le> 2 ^ 33 \<Longrightarrow> fl_rep x"
proof -
  assume t: "ticked x" and b: "\<bar>x\<bar> \<le> 2 ^ 33"
  then obtain n :: int where n: "x = of_int n / 2 ^ 20" by (auto simp: ticked_def)
  have "of_int \<bar>n\<bar> = \<bar>x\<bar> * 2 ^ 20" by (simp add: n)
  also have "\<dots> \<le> 2 ^ 33 * 2 ^ 20" using b by simp
  finally have "of_int \<bar>n\<bar> \<le> (of_int (2 ^ 53) :: rat)" by simp
  then have "\<bar>n\<bar> \<le> 2 ^ 53" by (simp only: of_int_le_iff)
  from fl_exact [OF n this] have "fl x = x" by simp
  moreover have "\<bar>x\<bar> < 2 ^ 1024" using b by (rule le_less_trans) simp
  ultimately show ?thesis by (simp add: fl_rep_def)
qed

definition bucket_ok :: "rate_limiter \<Rightarrow> int \<Rightarrow> rat \<Rightarrow> rat \<Rightarrow> bool" where
  "bucket_ok l r t u \<longleftrightarrow> rl_rate l = Fin (of_int r) \<and> 1 \<le> r \<and> r \<le> 2 ^ 32 \<and> 1 \<le> rl_burst l \<and> rl_burst l \<le> 2 ^ 32 \<and>
     (rl_tokens l = VFloat (Fin t) \<or> rl_tokens l = VInt (rl_burst l) \<and> t = of_int (rl_burst l)) \<and>
     0 \<le> t \<and> t \<le> of_int (rl_burst l) \<and> ticked t \<and> last_refill l = Fin u \<and> ticked u \<and> \<bar>u\<bar> \<le> 2 ^ 32"

definition filled_to :: "int \<Rightarrow> int \<Rightarrow> rat \<Rightarrow> rat \<Rightarrow> rat \<Rightarrow> rat" where
  "filled_to b r t u now = min (of_int b) (t + max 0 (now - u) * of_int r)"

lemma burst_rat: "rl_burst l \<le> 2 ^ 32 \<Longrightarrow> (of_int (rl_burst l) :: rat) \<le> 2 ^ 32"
  by (metis of_int_le_iff of_int_numeral of_int_power)

lemma burst_float: "1 \<le> rl_burst l \<Longrightarrow> rl_burst l \<le> 2 ^ 32 \<Longrightarrow> int_to_float (rl_burst l) = Inr (Fin (of_int (rl_burst l)))"
  by (simp add: int_to_float_def to_float_rep fl_rep_of_int)

lemma refill_spec:
  assumes l: "bucket_ok l r t u" and now: "ticked now" "\<bar>now\<bar> \<le> 2 ^ 32"
  shows "\<exists>l1. refill (Fin now) l = Inr l1 \<and> bucket_ok l1 r (filled_to (rl_burst l) r t u now) now \<and> rl_burst l1 = rl_burst l"
proof -
  let ?B = "of_int (rl_burst l) :: rat" and ?e = "max 0 (now - u)"
  note d = l [unfolded bucket_ok_def]
  have r: "(1::rat) \<le> of_int r" "(of_int r :: rat) \<le> 2 ^ 32"
    using d by (simp, metis of_int_le_iff of_int_numeral of_int_power)
  have B: "?B \<le> 2 ^ 32" "1 \<le> ?B" "fl_rep ?B" using d burst_rat [of l] by (simp_all add: fl_rep_of_int)
  have df: "\<bar>now - u\<bar> \<le> 2 ^ 33" using now(2) conjunct2 [OF d] abs_triangle_ineq4 [of now u] by simp
  have el: "f_max (Fin 0) (f_sub (Fin now) (last_refill l)) = Fin ?e"
    using d now ticked_diff [of now u] ticked_fl [OF _ df] by (simp add: f_sub_def to_float_rep f_max_def max_def)
  have e: "0 \<le> ?e" "?e \<le> 2 ^ 33" "ticked ?e" using df now d by (auto intro!: ticked_max ticked_diff)
  let ?p = "?e * of_int r"
  have p: "0 \<le> ?p" "ticked ?p" using e r by (auto intro: ticked_scale)
  have "?p \<le> 2 ^ 33 * 2 ^ 32" using e r by (intro mult_mono) auto
  then have p65: "?p \<le> 2 ^ 65" by simp
  from to_float_bounded [OF p(1) this fl_power] have fp: "to_float ?p = Fin (fl ?p)" "0 \<le> fl ?p" "fl ?p \<le> 2 ^ 65" by simp_all
  have s66: "t + fl ?p \<le> 2 ^ 66" using fp(3) d B by simp
  from to_float_bounded [OF _ this fl_power] d fp(2)
  have fs: "to_float (t + fl ?p) = Fin (fl (t + fl ?p))" by simp
  have val: "min ?B (fl (t + fl ?p)) = filled_to (rl_burst l) r t u now"
  proof (cases "?p \<le> 2 ^ 32")
    case True
    then have "fl ?p = ?p" using ticked_fl [OF p(2)] p(1) by (simp add: fl_rep_def)
    moreover have "fl (t + ?p) = t + ?p"
      using ticked_fl [OF ticked_add [of t ?p]] p d True B by (simp add: fl_rep_def)
    ultimately show ?thesis by (simp add: filled_to_def)
  next
    case False
    have "2 ^ 32 \<le> fl ?p" using False fl_power [of 32] by (intro fl_ge_rep) (auto simp: fl_rep_def)
    then have "?B \<le> t + fl ?p" using B d by linarith
    then have "?B \<le> fl (t + fl ?p)" using B(3) by (intro fl_ge_rep) (auto simp: fl_rep_def)
    moreover have "?B \<le> t + ?p" using False B d by linarith
    ultimately show ?thesis by (simp add: filled_to_def)
  qed
  have "num_add (rl_tokens l) (VFloat (f_mul (Fin ?e) (rl_rate l))) = Inr (VFloat (Fin (fl (t + fl ?p))))"
    using d fp fs burst_float [of l] by auto
  moreover have "bucket_ok (l\<lparr>rl_tokens := num_min (VInt (rl_burst l)) (VFloat (Fin (fl (t + fl ?p)))), last_refill := Fin now\<rparr>)
      r (filled_to (rl_burst l) r t u now) now"
  proof -
    have "0 \<le> filled_to (rl_burst l) r t u now" "filled_to (rl_burst l) r t u now \<le> ?B"
      using B d p by (auto simp: filled_to_def)
    moreover have "ticked (filled_to (rl_burst l) r t u now)"
      unfolding filled_to_def using d p by (intro ticked_min ticked_add) auto
    moreover have "num_min (VInt (rl_burst l)) (VFloat (Fin (fl (t + fl ?p)))) =
        (if fl (t + fl ?p) < ?B then VFloat (Fin (filled_to (rl_burst l) r t u now)) else VInt (rl_burst l))"
      using val by (auto simp: num_min_def num_lt_def)
    moreover have "\<not> fl (t + fl ?p) < ?B \<Longrightarrow> filled_to (rl_burst l) r t u now = ?B" using val by simp
    ultimately show ?thesis using d now by (auto simp: bucket_ok_def)
  qed
  ultimately show ?thesis by (simp add: refill_def el)
qed

text \<open>An attempt to take tokens succeeds exactly if enough have accrued.\<close>

definition request_ok :: "rat \<Rightarrow> rate_limiter \<Rightarrow> bool" where
  "request_ok x l \<longleftrightarrow> ticked x \<and> 0 < x \<and> x \<le> of_int (rl_burst l)"

lemma validate_tokens_ok: "request_ok x l \<Longrightarrow> validate_tokens (VFloat (Fin x)) l = Inr (Fin x)"
  by (auto simp: validate_tokens_def request_ok_def finite_number_such_def math_isfinite_def num_lt_def)

lemma take_tokens:
  assumes l: "bucket_ok l r t u" and x: "request_ok x l" and le: "x \<le> t"
  shows "\<exists>v. num_sub (rl_tokens l) (VFloat (Fin x)) = Inr v \<and> bucket_ok (l\<lparr>rl_tokens := v\<rparr>) r (t - x) u"
proof -
  note d = l [unfolded bucket_ok_def] and y = x [unfolded request_ok_def]
  have "ticked (t - x)" using d y by (auto intro: ticked_diff)
  moreover have "\<bar>t - x\<bar> \<le> 2 ^ 33" using le d y burst_rat [of l] by simp
  ultimately have "fl_rep (t - x)" by (rule ticked_fl)
  then have "num_sub (rl_tokens l) (VFloat (Fin x)) = Inr (VFloat (Fin (t - x)))"
    using d burst_float [of l] by (auto simp: f_sub_def to_float_rep)
  moreover have "bucket_ok (l\<lparr>rl_tokens := VFloat (Fin (t - x))\<rparr>) r (t - x) u"
    using d y le \<open>ticked (t - x)\<close> by (auto simp: bucket_ok_def)
  ultimately show ?thesis by blast
qed

lemma tokens_value: "bucket_ok l r t u \<Longrightarrow> num_value (rl_tokens l) = Fin t"
  by (auto simp: bucket_ok_def)

lemma acquire_spec:
  assumes l: "bucket_ok l r t u" and x: "request_ok x l" and now: "ticked now" "\<bar>now\<bar> \<le> 2 ^ 32"
  defines "f \<equiv> filled_to (rl_burst l) r t u now"
  shows "\<exists>l1. acquire (VFloat (Fin x)) (Fin now) l = (Inr (x \<le> f), l1) \<and>
    bucket_ok l1 r (if x \<le> f then f - x else f) now \<and> rl_burst l1 = rl_burst l"
proof -
  obtain l1 where l1: "refill (Fin now) l = Inr l1" "bucket_ok l1 r f now" "rl_burst l1 = rl_burst l"
    using refill_spec [OF l now] f_def by blast
  have x1: "request_ok x l1" using x l1(3) by (simp add: request_ok_def)
  show ?thesis
  proof (cases "x \<le> f")
    case True
    obtain v where "num_sub (rl_tokens l1) (VFloat (Fin x)) = Inr v" "bucket_ok (l1\<lparr>rl_tokens := v\<rparr>) r (f - x) now"
      using take_tokens [OF l1(2) x1 True] by blast
    then show ?thesis using True l1 tokens_value [OF l1(2)]
      by (simp add: acquire_def validate_tokens_ok [OF x] num_lt_def)
  next
    case False
    then show ?thesis using l1 tokens_value [OF l1(2)]
      by (simp add: acquire_def validate_tokens_ok [OF x] num_lt_def)
  qed
qed

text \<open>A run of calls, each with its request and the time of its call; the tokens granted.\<close>

fun acquire_all :: "(rat \<times> rat) list \<Rightarrow> rate_limiter \<Rightarrow> rat \<times> rate_limiter" where
  "acquire_all [] l = (0, l)"
| "acquire_all ((x, now) # cs) l =
     (let (res, l1) = acquire (VFloat (Fin x)) (Fin now) l; (g, l2) = acquire_all cs l1
      in ((if res = Inr True then x else 0) + g, l2))"

lemma acquire_all_bound:
  assumes "bucket_ok l r t u" "\<forall>(x, now)\<in>set cs. request_ok x l \<and> ticked now \<and> \<bar>now\<bar> \<le> 2 ^ 32"
    "sorted (u # map snd cs)"
  shows "fst (acquire_all cs l) \<le> t + of_int r * (last (u # map snd cs) - u)"
  using assms
proof (induction cs arbitrary: l t u)
  case Nil
  then show ?case by (simp add: bucket_ok_def)
next
  case (Cons c cs)
  obtain x now where c: "c = (x, now)" by fastforce
  let ?f = "filled_to (rl_burst l) r t u now"
  have x: "request_ok x l" "ticked now" "\<bar>now\<bar> \<le> 2 ^ 32" and mono: "u \<le> now" using Cons.prems c by auto
  obtain l1 where l1: "acquire (VFloat (Fin x)) (Fin now) l = (Inr (x \<le> ?f), l1)"
    "bucket_ok l1 r (if x \<le> ?f then ?f - x else ?f) now" "rl_burst l1 = rl_burst l"
    using acquire_spec [OF Cons.prems(1) x] by blast
  have "fst (acquire_all cs l1) \<le> (if x \<le> ?f then ?f - x else ?f) + of_int r * (last (now # map snd cs) - now)"
    using Cons.prems c l1 by (intro Cons.IH) (auto simp: request_ok_def)
  moreover have "?f \<le> t + of_int r * (now - u)" using mono by (simp add: filled_to_def mult.commute)
  moreover have "fst (acquire_all (c # cs) l) = (if x \<le> ?f then x else 0) + fst (acquire_all cs l1)"
    by (simp add: c l1 case_prod_beta)
  ultimately show ?case by (simp add: c algebra_simps split: if_splits)
qed

text \<open>A wait ends at the first reading of the clock at which enough has accrued.\<close>

lemma filled_twice:
  "0 \<le> t \<Longrightarrow> t \<le> of_int b \<Longrightarrow> 0 < r \<Longrightarrow> u \<le> v \<Longrightarrow> v \<le> w \<Longrightarrow>
   filled_to b r (filled_to b r t u v) v w = filled_to b r t u w"
proof -
  assume a: "0 \<le> t" "t \<le> of_int b" "0 < r" "u \<le> v" "v \<le> w"
  have "(w - u) * of_int r = (v - u) * of_int r + (w - v) * of_int r" by (simp add: algebra_simps)
  moreover have "0 \<le> (v - u) * (of_int r :: rat)" "0 \<le> (w - v) * (of_int r :: rat)" using a by simp_all
  moreover have "max 0 (v - u) = v - u" "max 0 (w - v) = w - v" "max 0 (w - u) = w - u" using a by auto
  ultimately show ?thesis using a(2) unfolding filled_to_def by simp
qed

lemma wait_loop_spec:
  assumes l: "bucket_ok l r t u" and x: "request_ok x l"
    and clk: "\<forall>j. clock j = Fin (tm j) \<and> ticked (tm j) \<and> \<bar>tm j\<bar> \<le> 2 ^ 32" "mono tm" "u \<le> tm k"
    and enough: "x \<le> filled_to (rl_burst l) r t u (tm n)" "k \<le> n"
    and early: "\<forall>j. k \<le> j \<and> j < n \<longrightarrow> filled_to (rl_burst l) r t u (tm j) < x"
  shows "\<exists>waited' l'. wait_loop clock (Fin x) k waited l = Some (Inr waited', Suc n, l') \<and>
    bucket_ok l' r (filled_to (rl_burst l) r t u (tm n) - x) (tm n)"
  using l x clk(3) enough early
proof (induction "n - k" arbitrary: k l t u waited)
  case 0
  then have k: "k = n" by simp
  obtain l1 where l1: "refill (clock n) l = Inr l1" "bucket_ok l1 r (filled_to (rl_burst l) r t u (tm n)) (tm n)"
    "rl_burst l1 = rl_burst l" using refill_spec [OF 0(2), of "tm n"] clk(1) by auto
  have x1: "request_ok x l1" using 0 l1(3) by (simp add: request_ok_def)
  obtain v where "num_sub (rl_tokens l1) (VFloat (Fin x)) = Inr v"
    "bucket_ok (l1\<lparr>rl_tokens := v\<rparr>) r (filled_to (rl_burst l) r t u (tm n) - x) (tm n)"
    using take_tokens [OF l1(2) x1] 0 by auto
  moreover have "x < f \<or> x = f" if "x \<le> f" for f :: rat using that by auto
  ultimately show ?case using l1 0 tokens_value [OF l1(2)]
    by (subst wait_loop.simps) (auto simp: k num_le_def f_le_def)
next
  case (Suc m)
  let ?f = "filled_to (rl_burst l) r t u (tm k)"
  have kn: "k < n" using Suc(2) by simp
  obtain l1 where l1: "refill (clock k) l = Inr l1" "bucket_ok l1 r ?f (tm k)"
    "rl_burst l1 = rl_burst l" using refill_spec [OF Suc(3), of "tm k"] clk(1) by auto
  have less: "?f < x" using Suc.prems(6) kn by simp
  note d = l1(2) [unfolded bucket_ok_def] and y = Suc.prems(2) [unfolded request_ok_def]
  have B: "(of_int (rl_burst l) :: rat) \<le> 2 ^ 32" using d l1(3) burst_rat [of l1] by simp
  have r1: "(1::rat) \<le> of_int r" using d by simp
  have "ticked (x - ?f)" "\<bar>x - ?f\<bar> \<le> 2 ^ 33" using d y less B l1(3) by (auto intro: ticked_diff)
  then have fr: "fl_rep (x - ?f)" by (rule ticked_fl)
  have ms: "num_sub (VFloat (Fin x)) (rl_tokens l1) = Inr (VFloat (Fin (x - ?f)))"
    using d burst_float [of l1] fr l1(3) by (auto simp: f_sub_def to_float_rep)
  let ?q = "(x - ?f) / of_int r"
  have "x - ?f \<le> 2 ^ 32" using d y B l1(3) by linarith
  moreover have "?q \<le> x - ?f" using less r1 by (simp add: divide_le_eq mult_left_le)
  ultimately have q: "0 \<le> ?q" "?q \<le> 2 ^ 32" using less r1 by simp_all
  from to_float_bounded [OF this fl_power] have fq: "to_float ?q = Fin (fl ?q)" "fl ?q \<le> 2 ^ 32" by simp_all
  then have "fl ?q * 10 ^ 9 < 2 ^ 63" by simp
  with fq have slp: "f_div (Fin (x - ?f)) (rl_rate l1) = Inr (Fin (fl ?q))" "sleepable (VFloat (Fin (fl ?q)))"
    using d by (auto simp: sleepable_def)
  have step: "wait_loop clock (Fin x) k waited l = wait_loop clock (Fin x) (Suc k) (f_add waited (Fin (fl ?q))) l1"
    using l1 less tokens_value [OF l1(2)] ms slp by (subst wait_loop.simps) (simp add: num_le_def f_le_def)
  have t: "0 \<le> t" "t \<le> of_int (rl_burst l)" "0 < r" using Suc(3) by (auto simp: bucket_ok_def)
  have tw: "k \<le> j \<Longrightarrow> filled_to (rl_burst l1) r ?f (tm k) (tm j) = filled_to (rl_burst l) r t u (tm j)" for j
    unfolding l1(3) using Suc.prems(3) clk(2) by (intro filled_twice t) (auto simp: mono_def)
  have "\<exists>waited' l'. wait_loop clock (Fin x) (Suc k) (f_add waited (Fin (fl ?q))) l1 = Some (Inr waited', Suc n, l') \<and>
      bucket_ok l' r (filled_to (rl_burst l1) r ?f (tm k) (tm n) - x) (tm n)"
  proof (rule Suc.hyps(1))
    show "m = n - Suc k" using Suc(2) by simp
    show "tm k \<le> tm (Suc k)" using clk(2) by (simp add: mono_def)
    show "request_ok x l1" using Suc.prems(2) l1(3) by (simp add: request_ok_def)
    show "x \<le> filled_to (rl_burst l1) r ?f (tm k) (tm n)" using tw [of n] kn Suc.prems(4) by simp
    show "\<forall>j. Suc k \<le> j \<and> j < n \<longrightarrow> filled_to (rl_burst l1) r ?f (tm k) (tm j) < x" using tw Suc.prems(6) by auto
  qed (use l1(2) kn in auto)
  then show ?case unfolding step using tw [of n] kn by simp
qed

end
