(* ===== verification/MetricLaws.thy ===== *)
theory MetricLaws
  imports Metrics
begin

text \<open>
  The laws of the metrics. A counter only grows, a histogram counts exactly the observations
  up to each bound, and the registry gives one object per name and kind.
\<close>

section \<open>Counters\<close>

lemma finite_number_ok: "finite_number v = Inr x \<Longrightarrow> \<exists>y. x = Fin y"
  by (cases x) (auto simp: finite_number_def split: if_splits sum.splits)

definition counter_ok :: "counter \<Rightarrow> rat \<Rightarrow> bool" where
  "counter_ok c x \<longleftrightarrow> c_value c = Fin x \<and> 0 \<le> x \<and> fl_rep x"

lemma to_float_ge:
  assumes "to_float z = Fin y" "x \<le> z" "fl_rep x"
  shows "x \<le> y"
  using to_float_Fin [OF assms(1)] fl_ge_rep [of x z] assms by (simp add: fl_rep_def)

lemma counter_inc_spec:
  assumes c: "counter_ok c x" and i: "counter_inc v c = Inr c'"
  shows "\<exists>y. counter_ok c' y \<and> x \<le> y \<and> c_name c' = c_name c"
proof -
  obtain d where d: "finite_number v = Inr (Fin d)" "\<not> d < 0" and f: "is_finite (f_add (c_value c) (Fin d))"
    and c': "c' = c\<lparr>c_value := f_add (c_value c) (Fin d)\<rparr>"
    using i finite_number_ok by (fastforce simp: counter_inc_def Let_def split: sum.splits if_splits)
  have "f_add (c_value c) (Fin d) = to_float (x + d)" using c by (simp add: counter_ok_def)
  moreover obtain y where y: "to_float (x + d) = Fin y" using f calculation by (cases "to_float (x + d)") auto
  moreover have "x \<le> y" using to_float_ge [OF y] c d by (simp add: counter_ok_def)
  ultimately show ?thesis using c' c to_float_Fin [OF y] by (auto simp: counter_ok_def)
qed

text \<open>A sequence of increments; one that fails leaves the counter as it is.\<close>

definition counter_try :: "pyval \<Rightarrow> counter \<Rightarrow> counter" where
  "counter_try v c = (case counter_inc v c of Inl e \<Rightarrow> c | Inr c' \<Rightarrow> c')"

lemma counter_monotone:
  "counter_ok c x \<Longrightarrow> \<exists>y. counter_ok (fold counter_try vs c) y \<and> x \<le> y"
proof (induction vs arbitrary: c x)
  case (Cons v vs)
  obtain y where "counter_ok (counter_try v c) y" "x \<le> y"
    using Cons.prems counter_inc_spec by (fastforce simp: counter_try_def split: sum.splits)
  with Cons.IH show ?case by (metis fold_simps(2) order_trans)
qed auto

section \<open>Histograms\<close>

definition histogram_ok :: "histogram \<Rightarrow> rat list \<Rightarrow> bool" where
  "histogram_ok h xs \<longleftrightarrow> distinct (h_buckets h) \<and> sorted (h_buckets h) \<and>
     map fst (h_counts h) = h_buckets h \<and> h_count h = int (length xs) \<and>
     h_sum h = foldl f_add (Fin 0) (map Fin xs) \<and>
     (\<forall>b\<in>set (h_buckets h). dict_get (h_counts h) b = Some (int (length (filter (\<lambda>x. x \<le> b) xs))))"

lemma keys_update_present: "k \<in> set (map fst d) \<Longrightarrow> map fst (dict_set k v d) = map fst d"
  by (induction d) auto

lemma count_in_fold:
  assumes "set bs \<subseteq> set (map fst counts)" "distinct bs"
  shows "map fst (foldl (count_in (Fin x)) counts bs) = map fst counts \<and>
    (\<forall>b. dict_get (foldl (count_in (Fin x)) counts bs) b =
       (if b \<in> set bs \<and> x \<le> b then map_option (\<lambda>n. n + 1) (dict_get counts b) else dict_get counts b))"
  using assms
proof (induction bs arbitrary: counts)
  case (Cons b bs)
  have k: "map fst (count_in (Fin x) counts b) = map fst counts"
    using Cons.prems by (auto simp: count_in_def keys_update_present)
  have g: "dict_get (count_in (Fin x) counts b) c =
      (if c = b \<and> x \<le> b then map_option (\<lambda>n. n + 1) (dict_get counts b) else dict_get counts c)" for c
    using Cons.prems by (auto simp: count_in_def f_le_def dict_simps dict_get_None split: option.splits)
  have "set bs \<subseteq> set (map fst (count_in (Fin x) counts b))" using Cons.prems k by auto
  from Cons.IH [OF this] Cons.prems(2) show ?case by (auto simp: k g)
qed simp

lemma new_histogram_ok: "new_histogram n d bs = Inr h \<Longrightarrow> histogram_ok h []"
  by (auto simp: new_histogram_def Let_def zero_counts_def histogram_ok_def o_def map_of_map_restrict
      split: sum.splits if_splits intro: card_distinct)

lemma observe_ok:
  assumes h: "histogram_ok h xs" and o: "observe v h = Inr h'"
  shows "\<exists>x. finite_number v = Inr (Fin x) \<and> histogram_ok h' (xs @ [x]) \<and> h_buckets h' = h_buckets h"
proof -
  obtain x where x: "finite_number v = Inr (Fin x)"
    and h': "h' = h\<lparr>h_sum := f_add (h_sum h) (Fin x), h_count := h_count h + 1,
                       h_counts := foldl (count_in (Fin x)) (h_counts h) (h_buckets h)\<rparr>"
    using o finite_number_ok by (fastforce simp: observe_def Let_def split: sum.splits if_splits)
  have "set (h_buckets h) \<subseteq> set (map fst (h_counts h))" "distinct (h_buckets h)"
    using h by (auto simp: histogram_ok_def)
  from count_in_fold [OF this, of x] h have "histogram_ok h' (xs @ [x])"
    by (simp add: histogram_ok_def h')
  with x h' show ?thesis by auto
qed

definition observe_all :: "pyval list \<Rightarrow> histogram \<Rightarrow> histogram" where
  "observe_all vs h = fold (\<lambda>v h. case observe v h of Inl e \<Rightarrow> h | Inr h' \<Rightarrow> h') vs h"

text \<open>The values that were accepted, in order.\<close>

fun accepted_values :: "pyval list \<Rightarrow> histogram \<Rightarrow> rat list" where
  "accepted_values [] h = []"
| "accepted_values (v # vs) h = (case observe v h of
      Inl e \<Rightarrow> accepted_values vs h
    | Inr h' \<Rightarrow> (case finite_number v of Inr (Fin x) \<Rightarrow> [x] | _ \<Rightarrow> []) @ accepted_values vs h')"

lemma observe_all_ok: "histogram_ok h xs \<Longrightarrow> histogram_ok (observe_all vs h) (xs @ accepted_values vs h)"
proof (induction vs arbitrary: h xs)
  case Nil
  then show ?case by (simp add: observe_all_def)
next
  case (Cons v vs)
  show ?case
  proof (cases "observe v h")
    case (Inl e)
    with Cons show ?thesis by (simp add: observe_all_def)
  next
    case (Inr h')
    then obtain x where "finite_number v = Inr (Fin x)" "histogram_ok h' (xs @ [x])" using observe_ok [OF Cons.prems] by blast
    with Cons.IH [OF this(2)] Inr show ?thesis by (simp add: observe_all_def)
  qed
qed

text \<open>The counts of a well-formed histogram grow with the bound and never exceed the total.\<close>

lemma histogram_cumulative:
  assumes "histogram_ok h xs" "a \<in> set (h_buckets h)" "b \<in> set (h_buckets h)" "a \<le> b"
  shows "the (dict_get (h_counts h) a) \<le> the (dict_get (h_counts h) b)"
    "the (dict_get (h_counts h) b) \<le> h_count h"
proof -
  have "length (filter (\<lambda>x. x \<le> a) xs) \<le> length (filter (\<lambda>x. x \<le> b) xs)"
    using assms(4) by (induction xs) auto
  then show "the (dict_get (h_counts h) a) \<le> the (dict_get (h_counts h) b)"
    using assms by (simp add: histogram_ok_def)
  show "the (dict_get (h_counts h) b) \<le> h_count h" using assms by (simp add: histogram_ok_def)
qed

section \<open>The registry\<close>

text \<open>
  Every name belongs to one kind, and is bound to a live object of that kind that no other
  name shares.
\<close>

fun kind_of :: "metric \<Rightarrow> metric_kind" where
  "kind_of (MCounter c) = CounterKind"
| "kind_of (MGauge g) = GaugeKind"
| "kind_of (MHistogram h) = HistogramKind"

definition bound :: "metrics_registry \<Rightarrow> metric_kind \<Rightarrow> string \<Rightarrow> metric_ref \<Rightarrow> bool" where
  "bound r k n i \<longleftrightarrow> dict_get (kind_names k r) n = Some i"

definition registry_inv :: "metrics_registry \<Rightarrow> bool" where
  "registry_inv r \<longleftrightarrow>
     (\<forall>k n i. bound r k n i \<longrightarrow> i < r_next r \<and> (\<exists>m. r_store r i = Some m \<and> kind_of m = k)) \<and>
     (\<forall>k n i k' n' i'. bound r k n i \<longrightarrow> bound r k' n' i' \<longrightarrow> (i = i' \<longleftrightarrow> k = k' \<and> n = n') \<and> (n = n' \<longrightarrow> k = k'))"

lemma registry_invD:
  "registry_inv r \<Longrightarrow> bound r k n i \<Longrightarrow> i < r_next r \<and> (\<exists>m. r_store r i = Some m \<and> kind_of m = k)"
  unfolding registry_inv_def by (drule conjunct1) simp

lemma registry_inv_new [simp]: "registry_inv new_registry"
proof -
  have "\<not> bound new_registry k n i" for k n i by (cases k) (simp_all add: bound_def new_registry_def)
  then show ?thesis by (simp add: registry_inv_def)
qed

lemma kind_names_set: "kind_names k' (set_kind_names k d r) = (if k' = k then d else kind_names k' r)"
  by (cases k; cases k') auto

lemma kind_frame [simp]: "kind_names k (r\<lparr>r_store := s\<rparr>) = kind_names k r" "kind_names k (r\<lparr>r_next := n\<rparr>) = kind_names k r"
  "r_store (set_kind_names k d r) = r_store r" "r_next (set_kind_names k d r) = r_next r"
  by (cases k; simp)+

lemma all_kinds: "kind \<in> set [CounterKind, GaugeKind, HistogramKind]"
  by (cases kind) auto

lemma ensure_kind_iff: "ensure_kind n k r = Inr () \<longleftrightarrow> (\<forall>k' i. bound r k' n i \<longrightarrow> k' = k)"
proof -
  have "(n \<in> set (dict_keys (kind_names k' r))) = (\<exists>i. bound r k' n i)" for k'
    unfolding bound_def by (metis dict_get_None not_None_eq)
  then have "(\<exists>kind\<in>set [CounterKind, GaugeKind, HistogramKind]. kind \<noteq> k \<and> n \<in> set (dict_keys (kind_names kind r)))
      = (\<exists>k' i. k' \<noteq> k \<and> bound r k' n i)" using all_kinds by blast
  then show ?thesis unfolding ensure_kind_def by auto
qed

lemma get_or_create_spec:
  assumes r: "registry_inv r" and g: "get_or_create k n fresh check r = (Inr i, r')"
    and fresh: "\<And>m. fresh = Inr m \<Longrightarrow> kind_of m = k"
  shows "registry_inv r' \<and> bound r' k n i \<and> (\<forall>k' n' i'. bound r k' n' i' \<longrightarrow> bound r' k' n' i' \<and> r_store r' i' = r_store r i') \<and>
    (bound r k n i \<longrightarrow> r' = r)"
proof (cases "dict_get (kind_names k r) n")
  case None
  obtain m where e: "ensure_kind n k r = Inr ()" "fresh = Inr m" and i: "i = r_next r"
    and r': "r' = (set_kind_names k (dict_set n (r_next r) (kind_names k r)) r)
        \<lparr>r_store := (r_store r)(r_next r := Some m), r_next := r_next r + 1\<rparr>"
    using g None by (auto simp: get_or_create_def validate_name_def split: sum.splits if_splits unit.splits)
  have b: "bound r' k' n' i' \<longleftrightarrow> (if k' = k \<and> n' = n then i' = r_next r else bound r k' n' i')" for k' n' i'
    by (auto simp: r' bound_def kind_names_set dict_simps)
  have lt: "bound r k' n' i' \<Longrightarrow> i' < r_next r" for k' n' i' using r unfolding registry_inv_def by blast
  have nb: "\<not> bound r k' n i'" for k' i'
    using e(1) None unfolding ensure_kind_iff bound_def by (metis option.distinct(1))
  have "registry_inv r'" unfolding registry_inv_def
  proof (intro conjI allI impI)
    fix k' n' i' assume "bound r' k' n' i'"
    then show "i' < r_next r'" using lt [of k' n' i'] unfolding b by (auto simp: r' split: if_splits)
  next
    fix k' n' i' assume "bound r' k' n' i'"
    then show "\<exists>m. r_store r' i' = Some m \<and> kind_of m = k'"
      using registry_invD [OF r, of k' n' i'] fresh [OF e(2)] unfolding b by (auto simp: r' split: if_splits)
  next
    fix k1 n1 i1 k2 n2 i2 assume h: "bound r' k1 n1 i1" "bound r' k2 n2 i2"
    show "i1 = i2 \<longleftrightarrow> k1 = k2 \<and> n1 = n2"
      using h r lt unfolding registry_inv_def b by (metis less_irrefl)
    show "n1 = n2 \<Longrightarrow> k1 = k2"
      using h r nb unfolding registry_inv_def b by (metis)
  qed
  moreover have "r_store r' i' = r_store r i'" if "bound r k' n' i'" for k' n' i' using lt [OF that] by (simp add: r')
  ultimately show ?thesis using nb b i by auto
next
  case (Some j)
  then have "r' = r \<and> i = j"
    using g by (auto simp: get_or_create_def validate_name_def split: sum.splits if_splits unit.splits option.splits)
  then show ?thesis using r Some by (simp add: bound_def)
qed

lemma fresh_kinds:
  "map_sum id MCounter x = Inr m \<Longrightarrow> kind_of m = CounterKind"
  "map_sum id MGauge y = Inr m \<Longrightarrow> kind_of m = GaugeKind"
  "map_sum id MHistogram z = Inr m \<Longrightarrow> kind_of m = HistogramKind"
  by (cases x; cases y; cases z; auto)+

text \<open>Resetting keeps every binding and object; clearing forgets the bindings only.\<close>

lemma fold_reset_store:
  "fold (\<lambda>i st. st(i := map_option f (st i))) is st j = None \<longleftrightarrow> st j = None"
  by (induction "is" arbitrary: st) auto

lemma kind_of_reset [simp]: "kind_of (metric_reset m) = kind_of m"
  by (cases m) auto

lemma fold_reset_kind:
  "st j = Some m \<Longrightarrow> \<exists>m'. fold (\<lambda>i st. st(i := map_option metric_reset (st i))) is st j = Some m' \<and> kind_of m' = kind_of m"
proof (induction "is" arbitrary: st m)
  case (Cons a "is")
  have "\<exists>m1. (st(a := map_option metric_reset (st a))) j = Some m1 \<and> kind_of m1 = kind_of m"
    using Cons.prems by auto
  then obtain m1 where m1: "(st(a := map_option metric_reset (st a))) j = Some m1" "kind_of m1 = kind_of m" by blast
  from Cons.IH [where st = "st(a := map_option metric_reset (st a))" and m = m1, OF m1(1)] m1(2) show ?case by auto
qed auto

lemma registry_reset_inv: "registry_inv r \<Longrightarrow> registry_inv (registry_reset r)"
proof -
  assume r: "registry_inv r"
  have b: "bound (registry_reset r) = bound r" unfolding bound_def registry_reset_def by (intro ext) simp
  have "\<exists>m'. r_store (registry_reset r) i = Some m' \<and> kind_of m' = k" if h: "bound r k n i" for k n i
  proof -
    obtain m where m: "r_store r i = Some m" "kind_of m = k" using registry_invD [OF r h] by auto
    from fold_reset_kind [where st = "r_store r" and j = i, OF m(1)] m(2) show ?thesis by (simp add: registry_reset_def del: fold_append)
  qed
  moreover have "r_next (registry_reset r) = r_next r" by (simp add: registry_reset_def)
  ultimately show ?thesis using r unfolding registry_inv_def b by simp
qed

end
