(* ===== verification/KeyLaws.thy ===== *)
theory KeyLaws
  imports Keys
begin

text \<open>
  The laws of the key manager: a key validates exactly while its record is active, a revoked
  key never validates again, and a rotation passes the grants on.
\<close>

section \<open>The invariant\<close>

text \<open>
  The three dictionaries agree: every record has its digest, which the index maps back to it,
  and the index points only at records.
\<close>

definition key_row_ok :: "key_manager \<Rightarrow> string \<Rightarrow> bool" where
  "key_row_ok m i \<longleftrightarrow> (case dict_get (km_records m) i of
      None \<Rightarrow> dict_get (km_digests m) i = None
    | Some r \<Rightarrow> key_id r = i \<and> ak_organization r \<noteq> [] \<and> strip (ak_organization r) = ak_organization r \<and>
        ak_permissions r \<noteq> {} \<and> ak_permissions r \<subseteq> set valid_permissions \<and>
        (\<exists>d. dict_get (km_digests m) i = Some d \<and> dict_get (by_digest m) d = Some i))"

definition manager_inv :: "key_manager \<Rightarrow> bool" where
  "manager_inv m \<longleftrightarrow> dict_ok (km_records m) \<and> (\<forall>i. key_row_ok m i) \<and>
     (\<forall>d i. dict_get (by_digest m) d = Some i \<longrightarrow> dict_get (km_records m) i \<noteq> None) \<and>
     (\<forall>t. default_ttl m = Some t \<longrightarrow> 0 < t)"

lemma manager_invD:
  assumes "manager_inv m"
  shows "dict_ok (km_records m)" "key_row_ok m i" "dict_get (by_digest m) d = Some i \<Longrightarrow> dict_get (km_records m) i \<noteq> None"
  using assms unfolding manager_inv_def by auto

lemma manager_row:
  assumes "manager_inv m" "dict_get (km_records m) i = Some r"
  obtains d where "dict_get (km_digests m) i = Some d" "dict_get (by_digest m) d = Some i" "key_id r = i"
    "ak_organization r \<noteq> []" "strip (ak_organization r) = ak_organization r"
    "ak_permissions r \<noteq> {}" "ak_permissions r \<subseteq> set valid_permissions"
  using manager_invD(2) [OF assms(1), of i] assms(2) by (auto simp: key_row_ok_def)

lemma new_key_manager_inv: "new_key_manager s e f t = Inr m \<Longrightarrow> manager_inv m"
  by (auto simp: new_key_manager_def manager_inv_def key_row_ok_def validate_ttl_def
      split: sum.splits pyval.splits if_splits)

lemma collect_permissions_valid:
  "collect_permissions vs c = Inr ps \<Longrightarrow> c \<subseteq> set valid_permissions \<Longrightarrow> ps \<subseteq> set valid_permissions"
  by (induction vs c rule: collect_permissions.induct) (auto simp: Let_def split: if_splits)

lemma validate_permissions_valid: "validate_permissions v = Inr ps \<Longrightarrow> ps \<noteq> {} \<and> ps \<subseteq> set valid_permissions"
proof (cases v)
  case (VList vs)
  then show "validate_permissions v = Inr ps \<Longrightarrow> ?thesis"
    using collect_permissions_valid [of vs "{}"] by (auto simp: validate_permissions_def split: sum.splits if_splits)
qed (auto simp: validate_permissions_def valid_permissions_def)

text \<open>What storing a key returns and leaves.\<close>

lemma store_key_cases:
  assumes "store_key mac now hex raw org perms ttl m = (res, m')"
  obtains (Fails) e where "res = Inl e" "m' = m"
    | (Stored) r o' ps where "res = Inr r" "key_id r = hex" "revoked_at r = None"
      "validate_organization_id org = Inr o'" "validate_permissions perms = Inr ps"
      "ak_organization r = o'" "ak_permissions r = ps"
      "Inr (ak_created_at r) = manager_now now"
      "\<forall>t. expires_at r = Some t \<longrightarrow> ak_created_at r < t \<or> (\<exists>s\<le>0. default_ttl m = Some s)"
      "dict_get (by_digest m) (key_digest mac raw m) = None"
      "m' = m\<lparr>km_records := dict_set hex r (km_records m),
              km_digests := dict_set hex (key_digest mac raw m) (km_digests m),
              by_digest := dict_set (key_digest mac raw m) hex (by_digest m)\<rparr>"
proof (cases res)
  case (Inl e)
  then have "m' = m" using assms
    by (auto simp: store_key_def Let_def split: sum.splits if_splits pyval.splits option.splits)
  with Inl that(1) show ?thesis by blast
next
  case (Inr r)
  let ?ttl = "case ttl of VNone \<Rightarrow> Inr (default_ttl m) | t \<Rightarrow> validate_ttl t"
  note s = assms [unfolded Inr]
  obtain o' where o: "validate_organization_id org = Inr o'"
    using s by (cases "validate_organization_id org") (auto simp: store_key_def)
  obtain ps where p: "validate_permissions perms = Inr ps"
    using s by (cases "validate_permissions perms") (auto simp: store_key_def o)
  obtain ttl1 where l: "?ttl = Inr ttl1"
    using s by (cases ?ttl) (auto simp: store_key_def o p)
  have d: "key_digest mac raw m \<notin> set (dict_keys (by_digest m))"
    using s by (auto simp: store_key_def o p l Let_def split: if_splits)
  obtain t where n: "manager_now now = Inr t"
    using s d by (cases "manager_now now") (auto simp: store_key_def o p l)
  let ?x = "case ttl1 of None \<Rightarrow> Inr None | Some s \<Rightarrow> map_sum id Some (plus_seconds t s)"
  obtain x where x: "?x = Inr x"
    using s d by (cases ?x) (auto simp: store_key_def o p l n)
  note 1 = o p l d n x
  have r: "r = \<lparr>key_id = hex, ak_organization = o', ak_permissions = ps, ak_created_at = t, expires_at = x, revoked_at = None\<rparr>"
    and m': "m' = m\<lparr>km_records := dict_set hex r (km_records m),
              km_digests := dict_set hex (key_digest mac raw m) (km_digests m),
              by_digest := dict_set (key_digest mac raw m) hex (by_digest m)\<rparr>"
    using s d by (auto simp: store_key_def o p l n x Let_def)
  have "\<forall>s. ttl1 = Some s \<longrightarrow> 0 < s \<or> (\<exists>s\<le>0. default_ttl m = Some s)"
    using 1(3) by (auto simp: validate_ttl_def not_le split: pyval.splits if_splits)
  then have "\<forall>e. x = Some e \<longrightarrow> t < e \<or> (\<exists>s\<le>0. default_ttl m = Some s)"
    using 1(6) by (auto simp: plus_seconds_def Let_def split: option.splits if_splits)
  with that(2) [of r o' ps] 1 r m' Inr show ?thesis by (simp add: dict_get_None)
qed

lemma store_key_inv:
  assumes m: "manager_inv m" and s: "store_key mac now hex raw org perms ttl m = (res, m')"
  shows "manager_inv m'"
  using s
proof (cases rule: store_key_cases)
  case Fails
  with m show ?thesis by simp
next
  case (Stored r o' ps)
  let ?d = "key_digest mac raw m"
  have o': "o' \<noteq> []" "strip o' = o'"
    using Stored(4) by (auto simp: validate_organization_id_def split: pyval.splits if_splits)
  have ps: "ps \<noteq> {}" "ps \<subseteq> set valid_permissions" using validate_permissions_valid [OF Stored(5)] by auto
  have "key_row_ok m' i" for i
  proof (cases "i = hex")
    case True
    then show ?thesis using Stored o' ps by (simp add: key_row_ok_def dict_simps)
  next
    case False
    have "dict_get (by_digest m) d = Some i \<Longrightarrow> d \<noteq> ?d" for d using Stored(10) by auto
    with manager_invD(2) [OF m, of i] False show ?thesis
      by (auto simp: key_row_ok_def Stored(11) dict_simps split: option.splits)
  qed
  moreover have "dict_get (km_records m') i \<noteq> None" if "dict_get (by_digest m') d = Some i" for d i
    using that manager_invD(3) [OF m, of d i] by (auto simp: Stored(11) dict_simps split: if_splits)
  ultimately show ?thesis using m by (simp add: manager_inv_def Stored(11))
qed

lemma generate_key_eq:
  "generate_key mac now hex token org perms ttl m =
     (case store_key mac now hex (key_prefix @ token) org perms ttl m of
        (Inl e, m') \<Rightarrow> (Inl e, m') | (Inr r, m') \<Rightarrow> (Inr (key_prefix @ token), m'))"
  by (auto simp: generate_key_def andthen_def ret_def Let_def split: prod.split sum.split)

lemma generate_key_inv: "manager_inv m \<Longrightarrow> generate_key mac now hex token org perms ttl m = (res, m') \<Longrightarrow> manager_inv m'"
  using store_key_inv by (auto simp: generate_key_eq split: prod.splits sum.splits)

lemma register_key_inv: "manager_inv m \<Longrightarrow> register_key mac now hex raw org perms ttl m = (res, m') \<Longrightarrow> manager_inv m'"
  using store_key_inv by (auto simp: register_key_def split: pyval.splits if_splits)

lemma revoke_key_cases:
  assumes "revoke_key now i m = (res, m')"
  obtains (Unchanged) "m' = m" "res = Inr False \<or> (\<exists>e. res = Inl e)" "res = Inr False \<Longrightarrow> \<forall>r. dict_get (km_records m) i = Some r \<longrightarrow> is_revoked r"
    | (Revoked) r t where "res = Inr True" "dict_get (km_records m) i = Some r" "\<not> is_revoked r" "manager_now now = Inr t"
        "m' = m\<lparr>km_records := dict_set i (r\<lparr>revoked_at := Some t\<rparr>) (km_records m)\<rparr>"
  using assms by (auto simp: revoke_key_def split: option.splits if_splits sum.splits)

lemma revoke_key_inv:
  assumes m: "manager_inv m" and s: "revoke_key now i m = (res, m')"
  shows "manager_inv m'"
  using s
proof (cases rule: revoke_key_cases)
  case (Revoked r t)
  have "key_row_ok m' j" for j
    using manager_invD(2) [OF m, of j] Revoked(2) by (auto simp: key_row_ok_def Revoked(5) dict_simps split: option.splits)
  moreover have "dict_get (km_records m') j \<noteq> None" if "dict_get (by_digest m') d = Some j" for d j
    using that manager_invD(3) [OF m, of d j] by (auto simp: Revoked(5) dict_simps split: if_splits)
  ultimately show ?thesis using m by (simp add: manager_inv_def Revoked(5))
qed (use m in simp)

lemma rotate_key_inv:
  assumes m: "manager_inv m" and s: "rotate_key mac now now' hex token i ttl m = (res, m')"
  shows "manager_inv m'"
proof (cases "dict_get (km_records m) i")
  case None
  with m s show ?thesis by (simp add: rotate_key_def)
next
  case (Some r)
  obtain a m1 where m1: "revoke_key now i m = (a, m1)" by fastforce
  note i1 = revoke_key_inv [OF m m1]
  show ?thesis
  proof (cases a)
    case (Inl e)
    with s Some m1 i1 show ?thesis by (simp add: rotate_key_def andthen_def)
  next
    case (Inr b)
    obtain g m2 where g: "generate_key mac now' hex token (VStr (ak_organization r)) (permission_list (ak_permissions r)) ttl m1 = (g, m2)"
      by fastforce
    have "m' = m2" using s Some m1 Inr g by (cases g) (simp_all add: rotate_key_def andthen_def ret_def)
    with generate_key_inv [OF i1 g] show ?thesis by simp
  qed
qed

section \<open>Validation\<close>

text \<open>A raw key validates exactly if it is the key of an active record.\<close>

lemma validate_key_iff:
  assumes m: "manager_inv m" and now: "manager_now now = Inr t"
  shows "validate_key mac now (VStr raw) m = Inr (Some r) \<longleftrightarrow>
    raw \<noteq> [] \<and> (\<exists>i. dict_get (km_records m) i = Some r \<and> dict_get (km_digests m) i = Some (key_digest mac raw m)) \<and>
    key_is_active t r"
proof
  assume "validate_key mac now (VStr raw) m = Inr (Some r)"
  then show "raw \<noteq> [] \<and> (\<exists>i. dict_get (km_records m) i = Some r \<and> dict_get (km_digests m) i = Some (key_digest mac raw m)) \<and>
    key_is_active t r"
    using now by (auto simp: validate_key_def Let_def split: if_splits option.splits)
next
  assume a: "raw \<noteq> [] \<and> (\<exists>i. dict_get (km_records m) i = Some r \<and> dict_get (km_digests m) i = Some (key_digest mac raw m)) \<and>
    key_is_active t r"
  then obtain i where i: "dict_get (km_records m) i = Some r" "dict_get (km_digests m) i = Some (key_digest mac raw m)" by blast
  then have "dict_get (by_digest m) (key_digest mac raw m) = Some i" using manager_row [OF m i(1)] by auto
  with a i now show "validate_key mac now (VStr raw) m = Inr (Some r)" by (simp add: validate_key_def)
qed

lemma validate_key_total:
  assumes m: "manager_inv m" and now: "manager_now now = Inr t"
  shows "\<exists>r. validate_key mac now raw m = Inr r"
proof -
  have "\<exists>s. dict_get (km_digests m) i = Some s" "\<exists>r. dict_get (km_records m) i = Some r"
    if h: "dict_get (by_digest m) d = Some i" for d i
  proof -
    obtain r where r: "dict_get (km_records m) i = Some r" using manager_invD(3) [OF m h] by auto
    with manager_row [OF m r] show "\<exists>s. dict_get (km_digests m) i = Some s" "\<exists>r. dict_get (km_records m) i = Some r" by auto
  qed
  then show ?thesis using now by (fastforce simp: validate_key_def Let_def split: pyval.splits option.splits)
qed

section \<open>Revocation is final\<close>

text \<open>The operations that change a manager, with fresh key identifiers.\<close>

inductive manager_step :: "(string \<Rightarrow> string \<Rightarrow> string) \<Rightarrow> key_manager \<Rightarrow> key_manager \<Rightarrow> bool" for mac where
  Generate: "hex \<notin> set (dict_keys (km_records m)) \<Longrightarrow> generate_key mac now hex token org perms ttl m = (res, m') \<Longrightarrow>
    manager_step mac m m'"
| Register: "hex \<notin> set (dict_keys (km_records m)) \<Longrightarrow> register_key mac now hex raw org perms ttl m = (res', m') \<Longrightarrow>
    manager_step mac m m'"
| Revoke: "revoke_key now i m = (done, m') \<Longrightarrow> manager_step mac m m'"
| Rotate: "hex \<notin> set (dict_keys (km_records m)) \<Longrightarrow> rotate_key mac now now' hex token i ttl m = (res'', m') \<Longrightarrow>
    manager_step mac m m'"

lemma manager_step_inv: "manager_step mac m m' \<Longrightarrow> manager_inv m \<Longrightarrow> manager_inv m'"
proof (induction rule: manager_step.induct)
  case Generate
  from generate_key_inv [OF Generate(3,2)] show ?case .
next
  case Register
  from register_key_inv [OF Register(3,2)] show ?case .
next
  case Revoke
  from revoke_key_inv [OF Revoke(2,1)] show ?case .
next
  case Rotate
  from rotate_key_inv [OF Rotate(3,2)] show ?case .
qed

text \<open>The managers an application can hold: made by the constructor, then changed step by step.\<close>

definition managed :: "(string \<Rightarrow> string \<Rightarrow> string) \<Rightarrow> key_manager \<Rightarrow> bool" where
  "managed mac m \<longleftrightarrow> (\<exists>s e f t m0. new_key_manager s e f t = Inr m0 \<and> (manager_step mac)\<^sup>*\<^sup>* m0 m)"

lemma managed_inv: "managed mac m \<Longrightarrow> manager_inv m"
  unfolding managed_def
proof (elim exE conjE)
  fix s e f t m0
  assume n: "new_key_manager s e f t = Inr m0" and r: "(manager_step mac)\<^sup>*\<^sup>* m0 m"
  from r show "manager_inv m"
    by (induction rule: rtranclp_induct) (use n in \<open>auto intro: new_key_manager_inv manager_step_inv\<close>)
qed

lemma managed_step: "managed mac m \<Longrightarrow> manager_step mac m m' \<Longrightarrow> managed mac m'"
  unfolding managed_def by (meson rtranclp.rtrancl_into_rtrancl)

definition dead :: "string \<Rightarrow> key_manager \<Rightarrow> bool" where
  "dead d m \<longleftrightarrow> (\<exists>i r. dict_get (by_digest m) d = Some i \<and> dict_get (km_records m) i = Some r \<and> is_revoked r)"

definition kept :: "key_manager \<Rightarrow> key_manager \<Rightarrow> bool" where
  "kept m m' \<longleftrightarrow> km_secret m' = km_secret m \<and> set (dict_keys (km_records m)) \<subseteq> set (dict_keys (km_records m')) \<and>
     (\<forall>d. dead d m \<longrightarrow> dead d m')"

lemma kept_refl [simp]: "kept m m"
  by (simp add: kept_def)

lemma kept_trans: "kept m m' \<Longrightarrow> kept m' m'' \<Longrightarrow> kept m m''"
  unfolding kept_def by (intro conjI) (simp, erule conjE, erule conjE, erule conjE, erule conjE, erule (1) subset_trans, simp)

lemma store_key_kept:
  assumes "store_key mac now hex raw org perms ttl m = (res, m')" "hex \<notin> set (dict_keys (km_records m))"
  shows "kept m m'"
  using assms(1)
proof (cases rule: store_key_cases)
  case (Stored r o' ps)
  have "dead d m'" if h: "dead d m" for d
  proof -
    obtain i r0 where i: "dict_get (by_digest m) d = Some i" "dict_get (km_records m) i = Some r0" "is_revoked r0"
      using h by (auto simp: dead_def)
    have "i \<noteq> hex" using i(2) assms(2) unfolding dict_get_None [symmetric] by auto
    moreover have "d \<noteq> key_digest mac raw m" using i(1) Stored(10) by auto
    ultimately show ?thesis using i unfolding dead_def by (intro exI [of _ i] exI [of _ r0]) (simp add: Stored(11) dict_simps)
  qed
  then show ?thesis by (auto simp: kept_def Stored(11) dict_simps)
qed simp

lemma generate_key_kept:
  "generate_key mac now hex token org perms ttl m = (res, m') \<Longrightarrow> hex \<notin> set (dict_keys (km_records m)) \<Longrightarrow> kept m m'"
  using store_key_kept by (auto simp: generate_key_eq split: prod.splits sum.splits)

lemma revoke_key_kept:
  assumes "revoke_key now i m = (res, m')"
  shows "kept m m'" "dict_keys (km_records m') = dict_keys (km_records m)"
proof -
  show "kept m m'" using assms
  proof (cases rule: revoke_key_cases)
    case (Revoked r t)
    have "dead d m'" if "dead d m" for d
      using that Revoked unfolding dead_def by (auto simp: dict_simps is_revoked_def)
    then show ?thesis by (auto simp: kept_def Revoked(5) dict_simps)
  qed simp
  have "k \<in> set (dict_keys d) \<Longrightarrow> dict_keys (dict_set k v d) = dict_keys d" for k :: string and v :: api_key and d
    by (induction d) auto
  then show "dict_keys (km_records m') = dict_keys (km_records m)" using assms
    by (auto simp: revoke_key_def dest!: dict_get_mem split: option.splits if_splits sum.splits) (force simp: image_iff)
qed

lemma manager_step_kept: "manager_step mac m m' \<Longrightarrow> kept m m'"
proof (induction rule: manager_step.induct)
  case Generate
  then show ?case by (blast intro: generate_key_kept)
next
  case Register
  then show ?case using store_key_kept by (auto simp: register_key_def split: pyval.splits if_splits)
next
  case Revoke
  then show ?case by (blast intro: revoke_key_kept)
next
  case (Rotate hex m now now' token i ttl res'' m')
  show ?case
  proof (cases "dict_get (km_records m) i")
    case None
    with Rotate show ?thesis by (simp add: rotate_key_def)
  next
    case (Some r)
    obtain a m1 where m1: "revoke_key now i m = (a, m1)" by fastforce
    note k1 = revoke_key_kept [OF m1]
    show ?thesis
    proof (cases a)
      case (Inl e)
      with Rotate Some m1 k1 show ?thesis by (simp add: rotate_key_def andthen_def)
    next
      case (Inr b)
      obtain g m2 where g: "generate_key mac now' hex token (VStr (ak_organization r)) (permission_list (ak_permissions r)) ttl m1 = (g, m2)"
        by fastforce
      have "kept m1 m2" using generate_key_kept [OF g] Rotate(1) k1(2) by metis
      moreover have "m' = m2" using Rotate(2) Some m1 Inr g by (cases g) (simp_all add: rotate_key_def andthen_def ret_def)
      ultimately show ?thesis using k1 kept_trans by blast
    qed
  qed
qed

lemma dead_never_validates:
  assumes "manager_inv m" "dead (key_digest mac raw m) m"
  shows "validate_key mac now (VStr raw) m \<noteq> Inr (Some r)"
proof
  assume v: "validate_key mac now (VStr raw) m = Inr (Some r)"
  then obtain t where "manager_now now = Inr t"
    by (auto simp: validate_key_def Let_def split: if_splits option.splits sum.splits)
  from v show False using assms(2)
    by (auto simp: validate_key_def dead_def Let_def key_is_active_def split: if_splits option.splits sum.splits)
qed

lemma dead_forever:
  assumes "(manager_step mac)\<^sup>*\<^sup>* m m'" "manager_inv m" "dead d m"
  shows "manager_inv m' \<and> dead d m' \<and> km_secret m' = km_secret m"
  using assms
proof (induction rule: rtranclp_induct)
  case (step y z)
  then show ?case using manager_step_inv manager_step_kept [OF step(2)] by (auto simp: kept_def)
qed simp

lemma revoke_kills:
  assumes m: "manager_inv m" and r: "revoke_key now i m = (Inr True, m')" and d: "dict_get (km_digests m) i = Some d"
  shows "dead d m'"
  using r
proof (cases rule: revoke_key_cases)
  case (Revoked r t)
  have "dict_get (by_digest m) d = Some i" using manager_row [OF m Revoked(2)] d by auto
  then show ?thesis using Revoked by (auto simp: dead_def dict_simps is_revoked_def)
qed simp

text \<open>A revoked key stays invalid, whatever happens to the manager afterwards.\<close>

lemma revoked_never_validates:
  assumes m: "manager_inv m" and r: "revoke_key now i m = (Inr True, m1)"
    and d: "dict_get (km_digests m) i = Some (key_digest mac raw m)" and s: "(manager_step mac)\<^sup>*\<^sup>* m1 m'"
  shows "validate_key mac now' (VStr raw) m' \<noteq> Inr (Some k)"
proof -
  have "km_secret m1 = km_secret m" using revoke_key_kept(1) [OF r] by (simp add: kept_def)
  moreover have "manager_inv m' \<and> dead (key_digest mac raw m) m' \<and> km_secret m' = km_secret m1"
    using dead_forever [OF s revoke_key_inv [OF m r] revoke_kills [OF m r d]] .
  ultimately show ?thesis using dead_never_validates [of m' mac raw now' k] by (simp add: key_digest_def)
qed

section \<open>Issue and rotation\<close>

lemma store_then_validate:
  assumes m: "manager_inv m" and s: "store_key mac now hex raw org perms ttl m = (Inr r, m')" and raw: "raw \<noteq> []"
    and now: "manager_now now' = Inr t" and live: "\<forall>e. expires_at r = Some e \<longrightarrow> t < e"
  shows "validate_key mac now' (VStr raw) m' = Inr (Some r)"
  using s
proof (cases rule: store_key_cases)
  case (Stored r' o' ps)
  have "r' = r" using Stored by simp
  then have "key_is_active t r" using Stored(3) live
    by (auto simp: key_is_active_def is_revoked_def is_expired_def not_le split: option.splits)
  then show ?thesis using Stored \<open>r' = r\<close> raw now
    by (simp add: validate_key_def dict_simps key_digest_def)
qed simp

lemma lower_strip_valid: "p \<in> set valid_permissions \<Longrightarrow> lower (strip p) = p"
  by (auto simp: valid_permissions_def; code_simp)

lemma collect_permission_list:
  "set ps \<subseteq> set valid_permissions \<Longrightarrow> collect_permissions (map VStr ps) c = Inr (c \<union> set ps)"
  by (induction ps arbitrary: c) (auto simp: lower_strip_valid Let_def)

lemma permission_list_roundtrip:
  assumes "ps \<noteq> {}" "ps \<subseteq> set valid_permissions"
  shows "validate_permissions (permission_list ps) = Inr ps"
proof -
  have "set (filter (\<lambda>p. p \<in> ps) valid_permissions) = ps" using assms(2) by auto
  then show ?thesis using assms collect_permission_list [of "filter (\<lambda>p. p \<in> ps) valid_permissions" "{}"]
    by (simp add: validate_permissions_def permission_list_def)
qed

text \<open>
  A rotation revokes first and issues then: on success the replacement has the grants of the
  old key, which is dead; on a failed issue the old key is dead all the same.
\<close>

lemma rotate_key_spec:
  assumes m: "manager_inv m" and g: "dict_get (km_records m) i = Some r" and act: "\<not> is_revoked r"
    and hex: "hex \<notin> set (dict_keys (km_records m))" and now: "manager_now now = Inr t"
    and rot: "rotate_key mac now now' hex token i ttl m = (res, m')"
  shows "(\<exists>d. dict_get (km_digests m) i = Some d \<and> dead d m') \<and>
    (case res of
       Inl e \<Rightarrow> dict_keys (km_records m') = dict_keys (km_records m)
     | Inr raw \<Rightarrow> raw = Some (key_prefix @ token) \<and> (\<exists>r'. dict_get (km_records m') hex = Some r' \<and>
         ak_organization r' = ak_organization r \<and> ak_permissions r' = ak_permissions r \<and> revoked_at r' = None \<and>
         dict_get (km_digests m') hex = Some (key_digest mac (key_prefix @ token) m')))"
proof -
  obtain d where d: "dict_get (km_digests m) i = Some d" and org: "ak_organization r \<noteq> []" "strip (ak_organization r) = ak_organization r"
    and ps: "ak_permissions r \<noteq> {}" "ak_permissions r \<subseteq> set valid_permissions" using manager_row [OF m g] by metis
  let ?m1 = "m\<lparr>km_records := dict_set i (r\<lparr>revoked_at := Some t\<rparr>) (km_records m)\<rparr>"
  have r1: "revoke_key now i m = (Inr True, ?m1)" using g act now by (simp add: revoke_key_def)
  have dd: "dead d ?m1" using revoke_kills [OF m r1 d] .
  have keys: "dict_keys (km_records ?m1) = dict_keys (km_records m)" using revoke_key_kept(2) [OF r1] .
  obtain s m2 where s: "store_key mac now' hex (key_prefix @ token) (VStr (ak_organization r)) (permission_list (ak_permissions r)) ttl ?m1 = (s, m2)"
    by fastforce
  have k: "kept ?m1 m2" using store_key_kept [OF s] hex keys by metis
  have m': "m' = m2" and res: "res = map_sum id (\<lambda>_. Some (key_prefix @ token)) s"
    using rot g r1 s by (cases s; simp add: rotate_key_def andthen_def ret_def generate_key_eq)+
  have "dead d m'" using k dd m' by (simp add: kept_def)
  from s show ?thesis
  proof (cases rule: store_key_cases)
    case (Fails e)
    then show ?thesis using \<open>dead d m'\<close> d m' res keys by simp
  next
    case (Stored r' o' ps')
    have "o' = ak_organization r" using Stored(4) org by (simp add: validate_organization_id_def split: if_splits)
    moreover have "ps' = ak_permissions r" using Stored(5) permission_list_roundtrip [OF ps] by simp
    ultimately show ?thesis using Stored \<open>dead d m'\<close> d m' res
      by (auto simp: dict_simps key_digest_def)
  qed
qed

end
