(* ===== verification/Signing.thy ===== *)
theory Signing
  imports Values Texts
begin

text \<open>
  Request signing, \<^verbatim>\<open>mittelwerk/auth/signing.py\<close>. The hash \<^verbatim>\<open>SHA-256\<close> (as hexadecimal text)
  and the keyed digest \<^verbatim>\<open>HMAC-SHA256\<close> are the parameters \<open>sha\<close> and \<open>mac\<close>; \<open>now\<close> is
  \<^verbatim>\<open>int(time.time())\<close>. The arguments are checked at run time, so they are dynamically typed.
\<close>

definition default_max_age :: int where
  "default_max_age = 300"

definition coerce_secret :: "pyval \<Rightarrow> exn + string" where
  "coerce_secret v = (case v of VStr s \<Rightarrow> if s = [] then Inl ValueError else Inr s | _ \<Rightarrow> Inl TypeError)"

definition coerce_text :: "pyval \<Rightarrow> exn + string" where
  "coerce_text v = (case v of VStr s \<Rightarrow> Inr s | _ \<Rightarrow> Inl TypeError)"

definition coerce_timestamp :: "int \<Rightarrow> pyval \<Rightarrow> exn + int" where
  "coerce_timestamp now v = (case v of
      VNone \<Rightarrow> Inr now
    | VInt t \<Rightarrow> if t < 0 then Inl ValueError else Inr t
    | _ \<Rightarrow> Inl TypeError)"

fun string_items :: "(string \<times> pyval) list \<Rightarrow> exn + (string \<times> string) list" where
  "string_items [] = Inr []"
| "string_items ((k, VStr v) # kvs) = map_sum id ((#) (k, v)) (string_items kvs)"
| "string_items ((k, _) # kvs) = Inl TypeError"

definition canonical_params :: "pyval \<Rightarrow> exn + string" where
  "canonical_params v = (case v of
      VNone \<Rightarrow> Inr []
    | VDict d \<Rightarrow> map_sum id (\<lambda>items. urlencode (sort_key fst items)) (string_items d)
    | _ \<Rightarrow> Inl TypeError)"

definition canonical_request ::
  "(string \<Rightarrow> string) \<Rightarrow> int \<Rightarrow> pyval \<Rightarrow> pyval \<Rightarrow> pyval \<Rightarrow> pyval \<Rightarrow> pyval \<Rightarrow> exn + string" where
  "canonical_request sha now verb path params body timestamp =
     (case coerce_text verb of Inl e \<Rightarrow> Inl e | Inr verb_text \<Rightarrow>
      if strip verb_text = [] then Inl ValueError
      else (case coerce_text path of Inl e \<Rightarrow> Inl e | Inr path_text \<Rightarrow>
      if \<not> (path_text \<noteq> [] \<and> hd path_text = CHR ''/'') then Inl ValueError
      else (case coerce_text body of Inl e \<Rightarrow> Inl e | Inr body_text \<Rightarrow>
      (case coerce_timestamp now timestamp of Inl e \<Rightarrow> Inl e | Inr ts \<Rightarrow>
      (case canonical_params params of Inl e \<Rightarrow> Inl e | Inr sorted_params \<Rightarrow>
       Inr (join ''\<newline>'' [upper (strip verb_text), path_text, sorted_params, sha body_text, int_text ts]))))))"

definition sign_request ::
  "(string \<Rightarrow> string) \<Rightarrow> (string \<Rightarrow> string \<Rightarrow> string) \<Rightarrow> int \<Rightarrow> pyval \<Rightarrow> pyval \<Rightarrow> pyval \<Rightarrow> pyval \<Rightarrow> pyval \<Rightarrow> pyval \<Rightarrow>
   exn + string" where
  "sign_request sha mac now secret_key verb path params body timestamp =
     (case canonical_request sha now verb path params body timestamp of Inl e \<Rightarrow> Inl e | Inr canon \<Rightarrow>
      (case coerce_secret secret_key of Inl e \<Rightarrow> Inl e | Inr key \<Rightarrow> Inr (mac key canon)))"

definition verify_signature ::
  "(string \<Rightarrow> string) \<Rightarrow> (string \<Rightarrow> string \<Rightarrow> string) \<Rightarrow> int \<Rightarrow> pyval \<Rightarrow> pyval \<Rightarrow> pyval \<Rightarrow> pyval \<Rightarrow> pyval \<Rightarrow> pyval \<Rightarrow>
   pyval \<Rightarrow> pyval \<Rightarrow> exn + bool" where
  "verify_signature sha mac now secret_key given verb path params body timestamp max_age =
     (case max_age of
        VInt age \<Rightarrow>
          if age \<le> 0 then Inl ValueError
          else (case given of
              VStr sig \<Rightarrow>
                if sig = [] then Inr False
                else (case coerce_timestamp now timestamp of Inl e \<Rightarrow> Inl e | Inr ts \<Rightarrow>
                  if age < \<bar>now - ts\<bar> then Inr False
                  else (case sign_request sha mac now secret_key verb path params body (VInt ts) of
                      Inl e \<Rightarrow> Inl e
                    | Inr expected \<Rightarrow> Inr (expected = sig)))
            | _ \<Rightarrow> Inr False)
      | _ \<Rightarrow> Inl TypeError)"

section \<open>Laws\<close>

text \<open>A well-formed request: its parts as the canonical form uses them.\<close>

record request =
  rq_verb :: string
  rq_path :: string
  rq_params :: "(string \<times> string) list"
  rq_body :: string

definition request_wf :: "request \<Rightarrow> bool" where
  "request_wf q \<longleftrightarrow> strip (rq_verb q) \<noteq> [] \<and> rq_path q \<noteq> [] \<and> hd (rq_path q) = CHR ''/'' \<and> dict_ok (rq_params q) \<and>
     CHR ''\<newline>'' \<notin> set (rq_verb q) \<and> CHR ''\<newline>'' \<notin> set (rq_path q)"

definition canon :: "(string \<Rightarrow> string) \<Rightarrow> request \<Rightarrow> int \<Rightarrow> string" where
  "canon sha q ts = join ''\<newline>'' [canonical (rq_verb q), rq_path q, urlencode (sort_key fst (rq_params q)),
     sha (rq_body q), int_text ts]"

definition param_value :: "request \<Rightarrow> pyval" where
  "param_value q = VDict (map (\<lambda>(k, v). (k, VStr v)) (rq_params q))"

lemma string_items_map: "string_items (map (\<lambda>(k, v). (k, VStr v)) kvs) = Inr kvs"
  by (induction kvs) auto

lemma canonical_request_canon:
  "request_wf q \<Longrightarrow> 0 \<le> ts \<Longrightarrow>
   canonical_request sha now (VStr (rq_verb q)) (VStr (rq_path q)) (param_value q) (VStr (rq_body q)) (VInt ts) = Inr (canon sha q ts)"
  by (simp add: canonical_request_def coerce_text_def request_wf_def coerce_timestamp_def canonical_params_def
      param_value_def string_items_map canon_def canonical_def)

text \<open>Two requests are the same to the signature if they agree up to the case of the verb and the order of the parameters.\<close>

definition same_request :: "(string \<Rightarrow> string) \<Rightarrow> request \<Rightarrow> request \<Rightarrow> bool" where
  "same_request sha q q' \<longleftrightarrow> canonical (rq_verb q) = canonical (rq_verb q') \<and> rq_path q = rq_path q' \<and>
     dict_get (rq_params q) = dict_get (rq_params q') \<and> sha (rq_body q) = sha (rq_body q')"

lemma sorted_dict_get: "dict_ok d \<Longrightarrow> dict_get (sort_key fst d) = dict_get d"
  by (rule map_of_inject_set [THEN iffD2]) (auto simp: dict_ok_def distinct_map_mset [of "sort_key fst d" d])

lemma strip_subset: "set (strip s) \<subseteq> set s"
  unfolding strip_def set_rev by (auto dest!: set_dropWhileD)

lemma canonical_no_newline: "CHR ''\<newline>'' \<notin> set s \<Longrightarrow> CHR ''\<newline>'' \<notin> set (canonical s)"
proof
  assume s: "CHR ''\<newline>'' \<notin> set s" and c: "CHR ''\<newline>'' \<in> set (canonical s)"
  then obtain x where x: "x \<in> set s" "upper_char x = CHR ''\<newline>''"
    using strip_subset [of s] by (force simp: canonical_def upper_def)
  show False
  proof (cases "is_lower x")
    case True
    then have n: "97 \<le> (of_char x :: nat)" "(of_char x :: nat) \<le> 122" by (auto simp: is_lower_def)
    have "(of_char (upper_char x) :: nat) = of_char x - 32"
      using True n by (simp add: upper_char_def code_shift)
    moreover have "(of_char (CHR ''\<newline>'') :: nat) = 10" by simp
    ultimately show False using x(2) n by simp
  next
    case False
    with x s show False by (simp add: upper_char_def)
  qed
qed

lemma canon_inj:
  assumes "request_wf q" "request_wf q'" "\<And>s. CHR ''\<newline>'' \<notin> set (sha s)"
  shows "canon sha q ts = canon sha q' ts' \<longleftrightarrow> same_request sha q q' \<and> ts = ts'"
proof -
  let ?l = "\<lambda>q ts. [canonical (rq_verb q), rq_path q, urlencode (sort_key fst (rq_params q)), sha (rq_body q), int_text ts]"
  have "canon sha q ts = canon sha q' ts' \<longleftrightarrow> ?l q ts = ?l q' ts'"
    unfolding canon_def using assms
    by (intro join_inj_length) (auto simp: request_wf_def canonical_no_newline urlencode_no_newline int_text_no_newline)
  also have "\<dots> \<longleftrightarrow> same_request sha q q' \<and> ts = ts'"
  proof -
    have "urlencode (sort_key fst (rq_params q)) = urlencode (sort_key fst (rq_params q')) \<longleftrightarrow>
        dict_get (rq_params q) = dict_get (rq_params q')"
    proof
      assume "urlencode (sort_key fst (rq_params q)) = urlencode (sort_key fst (rq_params q'))"
      then have "sort_key fst (rq_params q) = sort_key fst (rq_params q')" by (rule urlencode_inj)
      then show "dict_get (rq_params q) = dict_get (rq_params q')"
        using assms sorted_dict_get unfolding request_wf_def by metis
    next
      assume g: "dict_get (rq_params q) = dict_get (rq_params q')"
      have d: "distinct (map fst (rq_params q))" "distinct (map fst (rq_params q'))"
        using assms by (auto simp: request_wf_def dict_ok_def)
      then have "set (rq_params q) = set (rq_params q')" using g map_of_inject_set [OF d] by simp
      then have "mset (rq_params q) = mset (rq_params q')"
        using d by (metis set_eq_iff_mset_eq_distinct distinct_map)
      then have "sort_key fst (rq_params q) = sort_key fst (rq_params q')"
        using d by (intro sort_key_inj_key_eq) (auto simp: distinct_map)
      then show "urlencode (sort_key fst (rq_params q)) = urlencode (sort_key fst (rq_params q'))" by simp
    qed
    then show ?thesis by (auto simp: same_request_def)
  qed
  finally show ?thesis .
qed

lemma verify_signature_iff:
  assumes "request_wf q" "0 \<le> ts" "key \<noteq> []" "sig \<noteq> []" "0 < age"
  shows "verify_signature sha mac now (VStr key) (VStr sig) (VStr (rq_verb q)) (VStr (rq_path q)) (param_value q)
      (VStr (rq_body q)) (VInt ts) (VInt age) = Inr (\<bar>now - ts\<bar> \<le> age \<and> mac key (canon sha q ts) = sig)"
  using assms canonical_request_canon [OF assms(1,2)]
  by (auto simp: verify_signature_def coerce_timestamp_def sign_request_def coerce_secret_def)

lemma sign_request_canon:
  assumes "request_wf q" "0 \<le> ts" "key \<noteq> []"
  shows "sign_request sha mac now (VStr key) (VStr (rq_verb q)) (VStr (rq_path q)) (param_value q) (VStr (rq_body q)) (VInt ts) =
    Inr (mac key (canon sha q ts))"
  using assms canonical_request_canon [OF assms(1,2)] by (simp add: sign_request_def coerce_secret_def)

end
