(* ===== verification/ToolScenario.thy ===== *)
theory ToolScenario
  imports DecoratorLaws MetricLaws KeyLaws Signing Capacity
begin

text \<open>
  Small concrete objects for the witnesses about the utilities: a function that fails twice,
  a token bucket with two tokens a second, a histogram with two bounds.
\<close>

section \<open>Small numbers\<close>

lemma small_float: "\<bar>n\<bar> \<le> 2 ^ 53 \<Longrightarrow> to_float (of_int n) = Fin (of_int n)"
  by (rule to_float_rep [OF fl_rep_of_int])

lemma small_such: "\<bar>n\<bar> \<le> 2 ^ 53 \<Longrightarrow> finite_number_such P (VInt n) = Inr (P (of_int n))"
  by (simp add: finite_number_such_def math_isfinite_def int_to_float_def small_float)

lemma small_numerals:
  "to_float 1 = Fin 1" "to_float 2 = Fin 2" "to_float 3 = Fin 3" "to_float 4 = Fin 4" "to_float 5 = Fin 5"
  using small_float [of 1] small_float [of 2] small_float [of 3] small_float [of 4] small_float [of 5] by simp_all

lemma ticked_numerals: "ticked 1" "ticked 2" "ticked 3" "ticked 5" "ticked (of_nat k)"
  using ticked_simps(2) [of 1] ticked_simps(2) [of 2] ticked_simps(2) [of 3] ticked_simps(2) [of 5]
    ticked_simps(2) [of "int k"] by simp_all

section \<open>A function that fails twice\<close>

definition flaky :: "(nat, nat) action" where
  "flaky n = (if n < 2 then Inl ValueError else Inr n, Suc n)"

definition only_value_errors :: "exn \<Rightarrow> bool" where
  "only_value_errors e \<longleftrightarrow> e = ValueError"

lemma flaky_decorated: "\<exists>g. retry (VInt (int (Suc 3))) (VInt 1) (VInt 2) (Some only_value_errors) False flaky = Inr g"
proof -
  have "validate_retry_options (VInt (int (Suc 3))) (VInt 1) (VInt 2) (Some only_value_errors) = Inr ()"
    by (simp add: validate_retry_options_def small_such)
  then show ?thesis unfolding retry_def decorate_retry_Inr by simp
qed

lemma attempts_flaky: "attempts flaky k w = w + k"
  by (induction k arbitrary: w) (simp_all add: flaky_def)

lemma flaky_pauses: "pauses_ok (VInt 2) (VInt 1) 3"
  by (simp add: pauses_ok_def sleepable_def less_Suc_eq numeral_3_eq_3 all_conj_distrib)

lemma flaky_attempts:
  "\<forall>j<2. failed only_value_errors (fst (attempt flaky j 0))" "attempt flaky 2 0 = (Inr 2, 3)"
  by (simp_all add: failed_def attempt_def attempts_flaky flaky_def only_value_errors_def)

section \<open>A token bucket\<close>

definition bucket0 :: "rat \<Rightarrow> rate_limiter" where
  "bucket0 t = \<lparr>rl_rate = Fin 2, rl_burst = 5, rl_tokens = VFloat (Fin t), last_refill = Fin 0\<rparr>"

lemma bucket0_new: "new_rate_limiter (VInt 2) (VInt 5) (Fin 0) = Inr (bucket0 5)"
  by (simp add: new_rate_limiter_def small_such int_to_float_def small_numerals bucket0_def)

lemma bucket0_ok: "bucket_ok (bucket0 5) 2 5 0" "bucket_ok (bucket0 0) 2 0 0" "rl_burst (bucket0 t) = 5"
  by (simp_all add: bucket_ok_def bucket0_def ticked_numerals)

definition seconds :: "nat \<Rightarrow> rat" where
  "seconds j = of_nat (min j 9)"

lemma seconds_ok: "ticked (seconds j)" "\<bar>seconds j\<bar> \<le> 2 ^ 32" "mono seconds" "seconds 0 = 0" "seconds (Suc 0) = 1" "seconds 2 = 2"
proof -
  have "seconds j \<le> of_nat 9" unfolding seconds_def of_nat_le_iff by simp
  then show "\<bar>seconds j\<bar> \<le> 2 ^ 32" by (simp add: seconds_def)
  show "mono seconds" unfolding seconds_def by (intro monoI) (simp add: min.coboundedI1)
qed (simp_all add: seconds_def ticked_numerals)

section \<open>A histogram\<close>

lemma histogram0: "\<exists>h. new_histogram ''t'' [] (Some [VInt 1, VInt 2]) = Inr h \<and> h_sum h = Fin 0"
  by (simp add: new_histogram_def validate_name_def finite_number_def int_to_float_def small_numerals Let_def) code_simp

lemma histogram0_accepts: "h_sum h = Fin 0 \<Longrightarrow> accepted_values [VInt 1, VStr ''x'', VInt 2] h = [1, 2]"
  by (simp add: observe_def finite_number_def int_to_float_def small_numerals Let_def)

section \<open>A key manager with one key\<close>

definition mac0 :: "string \<Rightarrow> string \<Rightarrow> string" where
  "mac0 secret text = text"

definition raw0 :: string where
  "raw0 = ''0123456789abcdef''"

definition manager0 :: key_manager where
  "manager0 = \<lparr>km_secret = ''s'', default_ttl = None, km_records = [], km_digests = [], by_digest = []\<rparr>"

definition record1 :: api_key where
  "record1 = \<lparr>key_id = ''k'', ak_organization = ''o2'', ak_permissions = {''read''}, ak_created_at = 0,
     expires_at = None, revoked_at = None\<rparr>"

definition manager1 :: key_manager where
  "manager1 = \<lparr>km_secret = ''s'', default_ttl = None, km_records = [(''k'', record1)], km_digests = [(''k'', raw0)],
     by_digest = [(raw0, ''k'')]\<rparr>"

lemma strip_literals: "strip ''o2'' = ''o2''" "strip raw0 = raw0"
  by code_simp+

lemma manager1_registered:
  "register_key mac0 (Aware 0 0) ''k'' (VStr raw0) (VStr ''o2'') VNone VNone manager0 = (Inr record1, manager1)"
proof -
  have "length raw0 = 16" by (simp add: raw0_def)
  then show ?thesis
    by (simp add: register_key_def store_key_def validate_organization_id_def validate_permissions_def strip_literals
      manager0_def manager1_def record1_def key_digest_def mac0_def manager_now_def ensure_utc_def Let_def)
qed

lemma managed1: "managed mac0 manager1"
proof -
  have "new_key_manager (Some ''s'') None [] VNone = Inr manager0"
    by (simp add: new_key_manager_def coerce_manager_secret_def validate_ttl_def manager0_def)
  moreover have "manager_step mac0 manager0 manager1"
    using manager1_registered by (intro manager_step.Register) (simp_all add: manager0_def)
  ultimately show ?thesis unfolding managed_def by blast
qed

lemma manager1_parts [simp]:
  "dict_get (km_records manager1) ''k'' = Some record1" "dict_get (km_digests manager1) ''k'' = Some raw0"
  "dict_keys (km_records manager1) = [''k'']" "key_digest mac0 raw manager1 = raw" "\<not> is_revoked record1" "key_is_active t record1"
  "raw0 \<noteq> []"
  by (simp_all add: manager1_def key_digest_def mac0_def is_revoked_def record1_def key_is_active_def is_expired_def raw0_def)

lemma manager_now_aware [simp]: "manager_now (Aware t z) = Inr t"
  by (simp add: manager_now_def ensure_utc_def)

lemma manager1_revoked: "\<exists>m. revoke_key (Aware 5 0) ''k'' manager1 = (Inr True, m)"
  by (simp add: revoke_key_def)

lemma rotation_refused:
  "\<exists>e m'. rotate_key mac0 (Aware 5 0) (Aware 5 0) ''k2'' ''tok'' ''k'' (VInt 0) manager1 = (Inl e, m')"
  using manager1_revoked by (auto simp: rotate_key_def generate_key_def store_key_def validate_ttl_def
      andthen_def Let_def raise_def split: sum.splits)

section \<open>A signed request\<close>

definition request_a :: request where
  "request_a = \<lparr>rq_verb = ''get'', rq_path = ''/x'', rq_params = [(''a'', ''1''), (''b'', ''2'')], rq_body = []\<rparr>"

definition request_b :: request where
  "request_b = \<lparr>rq_verb = ''GET'', rq_path = ''/x'', rq_params = [(''b'', ''2''), (''a'', ''1'')], rq_body = []\<rparr>"

lemma requests_wf: "request_wf request_a" "request_wf request_b"
  by (simp_all add: request_wf_def request_a_def request_b_def dict_ok_def) code_simp+

lemma requests_same: "same_request (\<lambda>s. ''h'') request_a request_b"
proof -
  have "canonical ''get'' = canonical ''GET''" by code_simp
  then show ?thesis by (auto simp: same_request_def request_a_def request_b_def)
qed

section \<open>A capacity plan\<close>

definition plan0 :: plan where
  "plan0 = \<lparr>backlog_hours = Fin 4, crew_size = Fin 2, plan_rate = Fin 3, crew_capacity = Fin 1\<rparr>"

definition model0 :: capacity_model where
  "model0 = \<lparr>cm_backlog = VFloat (Fin 4), cm_crew = VFloat (Fin 2), cm_rate = VFloat (Fin 3), cm_capacity = VFloat (Fin 1),
     cm_cache = (\<lambda>_. None)\<rparr>"

text \<open>The plan is read, then its crew is doubled.\<close>

definition plan1 :: plan where
  "plan1 = plan0\<lparr>crew_size := Fin 4\<rparr>"

lemma model1_run:
  "\<exists>m. plan_run sum_list {plan0} m \<and> current_parameters m = Inr plan1 \<and> cm_cache m CostEstimate \<noteq> None"
proof -
  have made: "new_capacity_model (VFloat (Fin 4)) (VFloat (Fin 2)) (VFloat (Fin 3)) (VFloat (Fin 1)) = Inr model0"
    by (simp add: new_capacity_model_def plan_parameters_def finite_float_def f_le_def model0_def)
  have p: "current_parameters model0 = Inr plan0"
    by (simp add: current_parameters_def model0_def plan_parameters_def finite_float_def f_le_def plan0_def)
  obtain v where v: "compute_metric CostEstimate plan0 = Inr v" by (simp add: compute_cost_estimate_def)
  let ?m = "model0\<lparr>cm_cache := (\<lambda>_. None)(CostEstimate := Some (param_hash sum_list plan0, v))\<rparr>"
  have "read_metric sum_list CostEstimate model0 = (Inr v, ?m)"
    using p v by (simp add: read_metric_def model0_def del: compute_metric.simps)
  then have "plan_run sum_list {plan0} ?m" using plan_run.Metric_read [OF plan_run.Made [OF made] p] by blast
  then have "plan_run sum_list {plan0} (?m\<lparr>cm_backlog := VFloat (Fin 4), cm_crew := VFloat (Fin 4), cm_rate := VFloat (Fin 3),
      cm_capacity := VFloat (Fin 1)\<rparr>)" (is "plan_run sum_list _ ?m'") by (rule plan_run.Assigned)
  moreover have "current_parameters ?m' = Inr plan1" "cm_cache ?m' CostEstimate \<noteq> None"
    by (simp_all add: current_parameters_def plan_parameters_def finite_float_def f_le_def plan1_def plan0_def)
  ultimately show ?thesis by blast
qed

lemma plan_hashes: "param_hash sum_list plan0 \<noteq> param_hash sum_list plan1"
  by code_simp

end
