(* ===== verification/Transforms.thy ===== *)
theory Transforms
  imports BacklogRisk "HOL-Library.List_Lexorder" "HOL-Library.Char_ord"
begin

text \<open>
  The transformations of telemetry readings (\<^verbatim>\<open>mittelwerk/telemetry/transform.py\<close>): the
  aggregation into interval bars, averages, deltas, normalisation, rolling statistics and the
  exponential moving average. Arrays of floats are lists; their elementwise arithmetic is that
  of the floats, their reductions and logarithms are the parameters of \<open>numerics\<close>.
\<close>

section \<open>Arrays of floats\<close>

text \<open>An elementwise division: by zero it gives an infinity or NaN where Python would raise.\<close>

definition np_div :: "pyfloat \<Rightarrow> pyfloat \<Rightarrow> pyfloat" where
  "np_div a b = (case f_div a b of Inr x \<Rightarrow> x | Inl e \<Rightarrow> f_infinite (f_sign a))"

definition np_diff :: "pyfloat list \<Rightarrow> pyfloat list" where
  "np_diff xs = map2 f_sub (tl xs) (butlast xs)"

definition float_array :: "pyfloat list \<Rightarrow> exn + pyfloat list" where
  "float_array values = (if list_all is_finite values then Inr values else Inl ValueError)"

definition validate_window :: "pyval \<Rightarrow> exn + int" where
  "validate_window v = (case v of VInt n \<Rightarrow> if n \<le> 0 then Inl ValueError else Inr n | _ \<Rightarrow> Inl ValueError)"

definition not_positive :: "pyfloat list \<Rightarrow> bool" where
  "not_positive xs \<longleftrightarrow> list_ex (\<lambda>x. f_le x (Fin 0)) xs"

section \<open>Interval bars\<close>

record interval_bar =
  ib_asset :: string
  open_reading :: pyfloat
  high_reading :: pyfloat
  low_reading :: pyfloat
  close_reading :: pyfloat
  ib_count :: int
  ib_timestamp :: datetime

definition as_utc :: "datetime \<Rightarrow> exn + datetime" where
  "as_utc t = ensure_utc t"

text \<open>\<^verbatim>\<open>math.floor(timestamp.timestamp())\<close>: the seconds are a quotient of integers, rounded to a float.\<close>

definition epoch_seconds :: "datetime \<Rightarrow> int" where
  "epoch_seconds t = \<lfloor>fl (of_int (instant t) / 10 ^ 6)\<rfloor>"

text \<open>
  \<^verbatim>\<open>datetime.fromtimestamp(s, tz=UTC)\<close> of an integer that is not after year 9999: what precedes year 1 is
  refused, beyond the range of the platform's calendar and of its time type with other exceptions.
\<close>

definition from_timestamp :: "int \<Rightarrow> exn + datetime" where
  "from_timestamp s =
     (if s < - (2 ^ 63) then Inl OverflowError
      else if s < - 67768040609740800 then Inl OSError
      else if s < - 62135596800 then Inl ValueError
      else Inr (Aware (s * 1000000) 0))"

definition bucket_of :: "int \<Rightarrow> telemetry_reading \<Rightarrow> int" where
  "bucket_of n r = epoch_seconds (tr_timestamp r) div n"

definition first_bar :: "telemetry_reading \<Rightarrow> datetime \<Rightarrow> interval_bar" where
  "first_bar r start = (let value = to_float (last_reading r) in
     \<lparr>ib_asset = tr_asset r, open_reading = value, high_reading = value, low_reading = value, close_reading = value,
      ib_count = sample_count r, ib_timestamp = start\<rparr>)"

definition extend_bar :: "telemetry_reading \<Rightarrow> interval_bar \<Rightarrow> interval_bar" where
  "extend_bar r b = (let value = to_float (last_reading r) in
     b\<lparr>high_reading := f_max (high_reading b) value, low_reading := f_min (low_reading b) value, close_reading := value,
       ib_count := ib_count b + sample_count r\<rparr>)"

type_synonym bars = "(string \<times> int, interval_bar) dict"

fun collect_bars :: "int \<Rightarrow> telemetry_reading list \<Rightarrow> bars \<Rightarrow> exn + bars" where
  "collect_bars n [] d = Inr d"
| "collect_bars n (r # rs) d =
     (let bucket = bucket_of n r; key = (tr_asset r, bucket) in
      if \<not> is_finite (to_float (last_reading r)) then Inl ValueError
      else case dict_get d key of
          None \<Rightarrow> (case from_timestamp (bucket * n) of Inl e \<Rightarrow> Inl e
            | Inr start \<Rightarrow> collect_bars n rs (dict_set key (first_bar r start) d))
        | Some b \<Rightarrow> collect_bars n rs (dict_set key (extend_bar r b) d))"

definition sort_readings :: "telemetry_reading list \<Rightarrow> telemetry_reading list" where
  "sort_readings rs = sort_key (\<lambda>r. instant (tr_timestamp r)) (sort_key tr_asset rs)"

definition sort_bars :: "interval_bar list \<Rightarrow> interval_bar list" where
  "sort_bars bs = sort_key (\<lambda>b. instant (ib_timestamp b)) (sort_key ib_asset bs)"

definition readings_to_intervals :: "telemetry_reading list \<Rightarrow> pyval \<Rightarrow> exn + interval_bar list" where
  "readings_to_intervals rs interval = (case validate_window interval of
      Inl e \<Rightarrow> Inl e
    | Inr n \<Rightarrow>
        if rs = [] then Inr []
        else if list_ex (\<lambda>r. as_utc (tr_timestamp r) = Inl ValueError) rs then Inl ValueError
        else map_sum id (\<lambda>d. sort_bars (dict_values d)) (collect_bars n (sort_readings rs) []))"

section \<open>Averages\<close>

text \<open>\<^verbatim>\<open>x.quantize(Decimal("0.000001"))\<close>.\<close>

definition quantize_micro :: "rat \<Rightarrow> exn + rat" where
  "quantize_micro x = (if 10 ^ 28 \<le> \<bar>rhe (x * 10 ^ 6)\<bar> then Inl InvalidOperation else Inr (of_int (rhe (x * 10 ^ 6)) / 10 ^ 6))"

definition compute_weighted_average :: "telemetry_reading list \<Rightarrow> exn + rat option" where
  "compute_weighted_average rs =
     (if rs = [] then Inr None
      else if list_ex (\<lambda>r. sample_count r < 0) rs then Inl ValueError
      else (let total_count = sum_list (map sample_count rs) in
        if total_count = 0 then Inr None
        else case dec_div (dec_sum (map (\<lambda>r. dec_mul (last_reading r) (of_int (sample_count r))) rs)) (of_int total_count) of
            Inl e \<Rightarrow> Inl e
          | Inr q \<Rightarrow> map_sum id Some (quantize_micro q)))"

definition compute_average :: "telemetry_reading list \<Rightarrow> exn + rat option" where
  "compute_average rs =
     (if rs = [] then Inr None
      else case dec_div (dec_sum (map last_reading rs)) (of_nat (length rs)) of
          Inl e \<Rightarrow> Inl e
        | Inr q \<Rightarrow> map_sum id Some (quantize_micro q))"

section \<open>Deltas and normalisation\<close>

definition compute_deltas :: "numerics \<Rightarrow> pyfloat list \<Rightarrow> bool \<Rightarrow> exn + pyfloat list" where
  "compute_deltas np readings log_deltas = (case float_array readings of Inl e \<Rightarrow> Inl e | Inr xs \<Rightarrow>
      if length xs < 2 then Inr []
      else if not_positive xs then Inl ValueError
      else if log_deltas then Inr (np_diff (map (np_log np) xs))
      else Inr (map2 np_div (np_diff xs) (butlast xs)))"

definition annual_days :: int where
  "annual_days = 260"

definition compute_variability :: "numerics \<Rightarrow> pyfloat list \<Rightarrow> bool \<Rightarrow> exn + pyfloat" where
  "compute_variability np deltas annualise = (case float_array deltas of Inl e \<Rightarrow> Inl e | Inr xs \<Rightarrow>
      if length xs < 2 then Inr (Fin 0)
      else (let variability = np_std np xs in
        Inr (if annualise then f_mul variability (f_sqrt np (Fin (of_int annual_days))) else variability)))"

definition minmax_scale :: "numerics \<Rightarrow> pyfloat list \<Rightarrow> pyfloat list" where
  "minmax_scale np xs = (let minimum = np_min np xs; maximum = np_max np xs in
     if f_eq maximum minimum then map (\<lambda>_. Fin 0) xs
     else map (\<lambda>x. np_div (f_sub x minimum) (f_sub maximum minimum)) xs)"

definition zscore_scale :: "numerics \<Rightarrow> pyfloat list \<Rightarrow> pyfloat list" where
  "zscore_scale np xs =
     (if length xs < 2 then map (\<lambda>_. Fin 0) xs
      else (let standard_deviation = np_std np xs in
        if f_eq standard_deviation (Fin 0) then map (\<lambda>_. Fin 0) xs
        else map (\<lambda>x. np_div (f_sub x (np_mean np xs)) standard_deviation) xs))"

definition normalise_readings :: "numerics \<Rightarrow> pyfloat list \<Rightarrow> string \<Rightarrow> exn + pyfloat list" where
  "normalise_readings np readings way = (case float_array readings of Inl e \<Rightarrow> Inl e | Inr xs \<Rightarrow>
      if way \<notin> {''minmax'', ''zscore'', ''deltas''} then Inl ValueError
      else if xs = [] then Inr []
      else if way = ''minmax'' then Inr (minmax_scale np xs)
      else if way = ''zscore'' then Inr (zscore_scale np xs)
      else if not_positive xs then Inl ValueError
      else Inr (map (\<lambda>x. f_sub (np_div x (hd xs)) (Fin 1)) xs))"

section \<open>Rolling statistics\<close>

definition rolling_mean :: "numerics \<Rightarrow> pyfloat list \<Rightarrow> pyval \<Rightarrow> exn + pyfloat list" where
  "rolling_mean np values window = (case validate_window window of Inl e \<Rightarrow> Inl e | Inr w \<Rightarrow>
      (case float_array values of Inl e \<Rightarrow> Inl e | Inr xs \<Rightarrow>
       if int (length xs) < w then Inr []
       else (let cumulative = np_cumsum np (Fin 0 # xs) in
         Inr (map2 (\<lambda>hi lo. np_div (f_sub hi lo) (to_float (of_int w)))
           (drop (nat w) cumulative) (take (length cumulative - nat w) cumulative)))))"

definition rolling_std :: "numerics \<Rightarrow> pyfloat list \<Rightarrow> pyval \<Rightarrow> exn + pyfloat list" where
  "rolling_std np values window = (case validate_window window of Inl e \<Rightarrow> Inl e | Inr w \<Rightarrow>
      (case float_array values of Inl e \<Rightarrow> Inl e | Inr xs \<Rightarrow>
       if int (length xs) < w then Inr []
       else if w = 1 then Inr (map (\<lambda>_. Fin 0) xs)
       else Inr (map (\<lambda>i. np_std np (take (nat w) (drop i xs))) [0..<length xs - nat w + 1])))"

fun ema_loop :: "pyfloat \<Rightarrow> pyfloat \<Rightarrow> pyfloat list \<Rightarrow> pyfloat list" where
  "ema_loop alpha previous [] = []"
| "ema_loop alpha previous (x # xs) =
     (let y = f_add (f_mul alpha x) (f_mul (f_sub (Fin 1) alpha) previous) in y # ema_loop alpha y xs)"

definition exponential_moving_average :: "pyfloat list \<Rightarrow> pyval \<Rightarrow> exn + pyfloat list" where
  "exponential_moving_average values width = (case validate_window width of Inl e \<Rightarrow> Inl e | Inr n \<Rightarrow>
      (case float_array values of Inl e \<Rightarrow> Inl e | Inr xs \<Rightarrow>
       if xs = [] then Inr []
       else (case int_to_float n of Inl e \<Rightarrow> Inl e | Inr s \<Rightarrow>
         (case f_div (Fin 2) (f_add s (Fin 1)) of Inl e \<Rightarrow> Inl e | Inr alpha \<Rightarrow>
          Inr (hd xs # ema_loop alpha (hd xs) (tl xs))))))"

end
