(* ===== verification/TransformLaws.thy ===== *)
theory TransformLaws
  imports Transforms OperationsLaws
begin

text \<open>
  The interval bars are the groups of the readings by asset and interval: what each bar holds,
  in which order they come, and that the rounding of the epoch seconds does not move a reading
  of the years 1970 to 2242 to another interval.
\<close>

section \<open>Epoch seconds\<close>

lemma epoch_seconds_exact:
  assumes "0 \<le> instant t" "instant t < 2 ^ 33 * 10 ^ 6"
  shows "epoch_seconds t = instant t div 10 ^ 6"
proof -
  define k where "k = instant t div 10 ^ 6"
  define x :: rat where "x = of_int (instant t) / 10 ^ 6"
  have m: "10 ^ 6 * k \<le> instant t" "instant t + 1 \<le> 10 ^ 6 * (k + 1)" unfolding k_def by simp_all
  have k: "0 \<le> k" "k + 1 \<le> 2 ^ 33" using assms unfolding k_def by simp_all
  have m': "10 ^ 6 * of_int k \<le> (of_int (instant t) :: rat)" "of_int (instant t) + 1 \<le> 10 ^ 6 * (of_int k + 1 :: rat)"
    using m [folded of_int_le_iff [where 'a = rat]] by simp_all
  have lo: "of_int k \<le> x" using m'(1) by (simp add: x_def field_simps)
  have hi: "x \<le> of_int ((k + 1) * 2 ^ 20 - 1) / 2 ^ 20" using m'(2) by (simp add: x_def field_simps)
  have "fl (of_int k) = of_int k" using k by (intro fl_of_int) simp
  then have "of_int k \<le> fl x" using lo by (rule fl_ge_rep)
  moreover have "fl (of_int ((k + 1) * 2 ^ 20 - 1) / 2 ^ 20) = of_int ((k + 1) * 2 ^ 20 - 1) / 2 ^ 20"
    using k by (intro fl_exact [OF refl]) (simp_all add: abs_if)
  then have "fl x \<le> of_int ((k + 1) * 2 ^ 20 - 1) / 2 ^ 20" using hi by (rule fl_le_rep)
  then have "fl x < of_int k + 1" by (rule le_less_trans) (simp add: field_simps)
  ultimately show ?thesis unfolding epoch_seconds_def x_def [symmetric] k_def [symmetric] by (intro floor_unique) simp_all
qed

section \<open>Lexicographic order by two stable sorts\<close>

lemma lex_sorted:
  assumes "sorted (map f xs)" "\<And>k. sorted (map g (filter (\<lambda>x. f x = k) xs))"
  shows "sorted_wrt (\<lambda>x y. f x < f y \<or> f x = f y \<and> g x \<le> g y) xs"
  using assms
proof (induction xs)
  case (Cons x xs)
  have "sorted (map g (filter (\<lambda>y. f y = k) xs))" for k using Cons.prems(2) [of k] by (auto split: if_splits)
  with Cons.IH Cons.prems(1) have "sorted_wrt (\<lambda>x y. f x < f y \<or> f x = f y \<and> g x \<le> g y) xs" by simp
  moreover have "f x < f y \<or> f x = f y \<and> g x \<le> g y" if "y \<in> set xs" for y
    using Cons.prems(1) Cons.prems(2) [of "f x"] that by (cases "f x = f y") auto
  ultimately show ?case by simp
qed simp

lemma sort_twice_lex: "sorted_wrt (\<lambda>x y. f x < f y \<or> f x = f y \<and> g x \<le> g y) (sort_key f (sort_key g xs))"
proof (rule lex_sorted)
  fix k
  have "filter (\<lambda>x. f x = k) (sort_key f (sort_key g xs)) = filter (\<lambda>x. f x = k) (sort_key g xs)"
    by (rule sort_key_stable)
  moreover have "sorted (map g (filter P (sort_key g xs)))" for P by (rule sorted_filter) simp
  ultimately show "sorted (map g (filter (\<lambda>x. f x = k) (sort_key f (sort_key g xs))))" by simp
qed simp

lemma sorted_wrt_strict:
  assumes "sorted_wrt (\<lambda>x y. f x < f y \<or> f x = f y \<and> g x \<le> g y) xs" "distinct (map (\<lambda>x. (f x, g x)) xs)"
  shows "sorted_wrt (\<lambda>x y. f x < f y \<or> f x = f y \<and> (g x :: 'a :: linorder) < g y) xs"
  using assms
proof (induction xs)
  case (Cons x xs)
  then have "f x < f y \<or> f x = f y \<and> g x < g y" if "y \<in> set xs" for y
    using that by (auto simp: image_iff less_le)
  with Cons show ?case by simp
qed simp

section \<open>Bars\<close>

definition bar_key :: "int \<Rightarrow> telemetry_reading \<Rightarrow> string \<times> int" where
  "bar_key n r = (tr_asset r, bucket_of n r)"

text \<open>The bar that a group of readings, in the order of time and asset, should give.\<close>

definition reference_bar :: "int \<Rightarrow> string \<times> int \<Rightarrow> telemetry_reading list \<Rightarrow> interval_bar" where
  "reference_bar n k g = (let values = map (\<lambda>r. fl (last_reading r)) g in
     \<lparr>ib_asset = fst k, open_reading = Fin (hd values), high_reading = Fin (Max (set values)), low_reading = Fin (Min (set values)),
      close_reading = Fin (last values), ib_count = sum_list (map sample_count g), ib_timestamp = Aware (snd k * n * 1000000) 0\<rparr>)"

definition group :: "int \<Rightarrow> string \<times> int \<Rightarrow> telemetry_reading list \<Rightarrow> telemetry_reading list" where
  "group n k rs = filter (\<lambda>r. bar_key n r = k) rs"

lemma finite_value: "is_finite (to_float x) \<Longrightarrow> to_float x = Fin (fl x)"
  using to_float_Fin by (cases "to_float x") auto

lemma f_max_Fin [simp]: "f_max (Fin a) (Fin b) = Fin (max a b)" "f_min (Fin a) (Fin b) = Fin (min a b)"
  by (auto simp: f_max_def f_min_def)

lemma first_bar_reference:
  "is_finite (to_float (last_reading r)) \<Longrightarrow> from_timestamp (bucket_of n r * n) = Inr start \<Longrightarrow>
   first_bar r start = reference_bar n (bar_key n r) [r]"
  by (auto simp: first_bar_def reference_bar_def finite_value Let_def bar_key_def from_timestamp_def split: if_splits)

lemma extend_bar_reference:
  "is_finite (to_float (last_reading r)) \<Longrightarrow> g \<noteq> [] \<Longrightarrow>
   extend_bar r (reference_bar n k g) = reference_bar n k (g @ [r])"
  by (simp add: extend_bar_def reference_bar_def finite_value Let_def hd_append max.commute min.commute)

lemma group_snoc: "group n k (ps @ [r]) = (if bar_key n r = k then group n k ps @ [r] else group n k ps)"
  by (simp add: group_def)

definition bars_of :: "int \<Rightarrow> telemetry_reading list \<Rightarrow> bars \<Rightarrow> bool" where
  "bars_of n ps d \<longleftrightarrow> dict_ok d \<and>
     (\<forall>k. dict_get d k = (if group n k ps = [] then None else Some (reference_bar n k (group n k ps))))"

lemma collect_bars_spec: "collect_bars n rs d = Inr d' \<Longrightarrow> bars_of n ps d \<Longrightarrow> bars_of n (ps @ rs) d'"
proof (induction rs arbitrary: ps d)
  case (Cons r rs)
  let ?k = "bar_key n r"
  have fin: "is_finite (to_float (last_reading r))" using Cons.prems(1) by (auto simp: Let_def split: if_splits)
  have b: "dict_get d ?k = (if group n ?k ps = [] then None else Some (reference_bar n ?k (group n ?k ps)))"
    using Cons.prems(2) unfolding bars_of_def by blast
  obtain e where e: "collect_bars n rs (dict_set ?k e d) = Inr d'" "e = reference_bar n ?k (group n ?k ps @ [r])"
  proof (cases "group n ?k ps = []")
    case True
    then obtain start where "from_timestamp (bucket_of n r * n) = Inr start" "collect_bars n rs (dict_set ?k (first_bar r start) d) = Inr d'"
      using Cons.prems(1) b fin by (auto simp: bar_key_def Let_def split: sum.splits)
    with True show ?thesis using that first_bar_reference [OF fin] by simp
  next
    case False
    then show ?thesis using that Cons.prems(1) b fin extend_bar_reference [OF fin False, of n ?k]
      by (simp add: bar_key_def Let_def)
  qed
  have "bars_of n (ps @ [r]) (dict_set ?k e d)"
    using Cons.prems(2) unfolding bars_of_def e(2) by (simp add: group_snoc dict_simps del: split_paired_All)
  from Cons.IH [OF e(1) this] show ?case by simp
qed simp

lemma intervals_spec:
  assumes "readings_to_intervals rs (VInt n) = Inr bars"
  shows "sorted_wrt (\<lambda>b c. instant (ib_timestamp b) < instant (ib_timestamp c) \<or>
      instant (ib_timestamp b) = instant (ib_timestamp c) \<and> ib_asset b < ib_asset c) bars \<and>
    set bars = (\<lambda>k. reference_bar n k (group n k (sort_readings rs))) ` bar_key n ` set rs"
proof -
  have n: "0 < n" using assms by (auto simp: readings_to_intervals_def validate_window_def split: if_splits)
  obtain d where d: "bars = sort_bars (dict_values d)" "bars_of n (sort_readings rs) d"
  proof (cases "rs = []")
    case True
    with assms n have "bars = []" by (simp add: readings_to_intervals_def validate_window_def)
    with True that [of "[]"] show ?thesis by (simp add: sort_bars_def bars_of_def group_def sort_readings_def)
  next
    case False
    with assms n obtain d where "bars = sort_bars (dict_values d)" "collect_bars n (sort_readings rs) [] = Inr d"
      by (cases "collect_bars n (sort_readings rs) []") (auto simp: readings_to_intervals_def validate_window_def split: if_splits)
    with collect_bars_spec [of n "sort_readings rs" "[]" d "[]"] that show ?thesis by (simp add: bars_of_def group_def)
  qed
  have ok: "dict_ok d" using d(2) by (simp add: bars_of_def)
  have g: "group n k (sort_readings rs) \<noteq> [] \<longleftrightarrow> k \<in> bar_key n ` set rs" for k
    by (auto simp: group_def sort_readings_def filter_empty_conv)
  have entries: "(k, b) \<in> set d \<longleftrightarrow> k \<in> bar_key n ` set rs \<and> b = reference_bar n k (group n k (sort_readings rs))" for k b
  proof -
    have "dict_get d k = (if k \<in> bar_key n ` set rs then Some (reference_bar n k (group n k (sort_readings rs))) else None)"
      using d(2) g [of k] unfolding bars_of_def by metis
    then show ?thesis unfolding dict_get_iff [OF ok, symmetric] by auto
  qed
  have "distinct (map (\<lambda>b. (instant (ib_timestamp b), ib_asset b)) (dict_values d))"
  proof -
    have "map (\<lambda>b. (instant (ib_timestamp b), ib_asset b)) (dict_values d) = map (\<lambda>k. (snd k * n * 1000000, fst k)) (dict_keys d)"
      using entries by (auto simp: reference_bar_def Let_def)
    moreover have "inj (\<lambda>k :: string \<times> int. (snd k * n * 1000000, fst k))" using n by (auto simp: inj_def)
    ultimately show ?thesis using ok unfolding dict_ok_def by (simp add: distinct_map [of _ "dict_keys d"] inj_on_subset [OF _ subset_UNIV] del: map_map)
  qed
  then have "distinct (map (\<lambda>b. (instant (ib_timestamp b), ib_asset b)) bars)"
    using distinct_map_mset [of bars "dict_values d" "\<lambda>b. (instant (ib_timestamp b), ib_asset b)"]
    by (simp add: d(1) sort_bars_def del: map_map)
  then have "sorted_wrt (\<lambda>b c. instant (ib_timestamp b) < instant (ib_timestamp c) \<or>
      instant (ib_timestamp b) = instant (ib_timestamp c) \<and> ib_asset b < ib_asset c) bars"
    unfolding d(1) sort_bars_def by (intro sorted_wrt_strict sort_twice_lex) simp
  moreover have "set bars = (\<lambda>k. reference_bar n k (group n k (sort_readings rs))) ` bar_key n ` set rs"
  proof -
    have "set bars = snd ` set d" by (simp add: d(1) sort_bars_def)
    also have "\<dots> = (\<lambda>k. reference_bar n k (group n k (sort_readings rs))) ` bar_key n ` set rs"
      using entries by (force simp: image_iff)
    finally show ?thesis .
  qed
  ultimately show ?thesis ..
qed

lemma bucket_exact:
  assumes "0 \<le> instant (tr_timestamp r)" "instant (tr_timestamp r) < 2 ^ 33 * 10 ^ 6" "0 < n"
  shows "bucket_of n r = instant (tr_timestamp r) div (n * 1000000)"
  using epoch_seconds_exact [OF assms(1,2)] assms(3) by (simp add: bucket_of_def mult.commute [of n] zdiv_zmult2_eq)

section \<open>Averages\<close>

definition micro :: "rat \<Rightarrow> rat" where
  "micro x = of_int (rhe (x * 10 ^ 6)) / 10 ^ 6"

lemma micro_mono: "x \<le> y \<Longrightarrow> micro x \<le> micro y"
  by (auto simp: micro_def divide_right_mono intro: rhe_mono)

lemma weighted_sum_bounds:
  fixes f :: "'a \<Rightarrow> rat" and n :: "'a \<Rightarrow> int"
  assumes "\<forall>r\<in>set rs. 0 \<le> n r \<and> m \<le> f r \<and> f r \<le> M"
  shows "m * of_int (sum_list (map n rs)) \<le> sum_list (map (\<lambda>r. f r * of_int (n r)) rs) \<and>
    sum_list (map (\<lambda>r. f r * of_int (n r)) rs) \<le> M * of_int (sum_list (map n rs))"
  using assms
proof (induction rs)
  case (Cons r rs)
  then have "m * of_int (n r) \<le> f r * of_int (n r)" "f r * of_int (n r) \<le> M * of_int (n r)"
    by (auto intro!: mult_right_mono)
  with Cons show ?case by (simp add: algebra_simps)
qed simp

text \<open>The weighted average lies between the extreme readings, rounded to its six places.\<close>

lemma weighted_average_between:
  assumes avg: "compute_weighted_average rs = Inr (Some a)"
    and r: "\<forall>r\<in>set rs. grid (last_reading r * of_int (sample_count r)) \<and> m \<le> last_reading r \<and> last_reading r \<le> M"
    and small: "sum_list (map (\<lambda>r. \<bar>last_reading r * of_int (sample_count r)\<bar>) rs) < 10 ^ 20" and g: "grid m" "grid M"
  shows "micro m \<le> a \<and> a \<le> micro M"
proof -
  define N where "N = sum_list (map sample_count rs)"
  define S where "S = sum_list (map (\<lambda>r. last_reading r * of_int (sample_count r)) rs)"
  have nn: "\<forall>r\<in>set rs. 0 \<le> sample_count r" and N0: "N \<noteq> 0"
    using avg by (auto simp: compute_weighted_average_def N_def Let_def list_ex_iff not_less split: if_splits)
  have N: "0 < N" using N0 nn sum_list_nonneg [of "map sample_count rs"] by (force simp: N_def)
  have eq: "map (\<lambda>r. dec_mul (last_reading r) (of_int (sample_count r))) rs = map (\<lambda>r. last_reading r * of_int (sample_count r)) rs"
    using r by (auto simp: dec_mul_def grid_rep)
  then have "dec_sum (map (\<lambda>r. dec_mul (last_reading r) (of_int (sample_count r))) rs) = S"
    using dec_sum_exact [of "map (\<lambda>r. last_reading r * of_int (sample_count r)) rs"] r small
    unfolding eq S_def by (simp add: comp_def)
  then have "map_sum id Some (quantize_micro (dec (S / of_int N))) = Inr (Some a)"
    using avg N by (auto simp: compute_weighted_average_def N_def [symmetric] Let_def dec_div_def split: if_splits)
  then have a: "a = micro (dec (S / of_int N))"
    by (auto simp: quantize_micro_def micro_def split: if_splits)
  have "m * of_int N \<le> S \<and> S \<le> M * of_int N" unfolding N_def S_def using r nn by (intro weighted_sum_bounds) auto
  then have "m \<le> S / of_int N" "S / of_int N \<le> M" using N by (simp_all add: field_simps)
  then have "m \<le> dec (S / of_int N)" "dec (S / of_int N) \<le> M"
    using decr.rd_ge_rep [OF grid_rep [OF g(1)]] decr.rd_le_rep [OF grid_rep [OF g(2)]] by auto
  then show ?thesis unfolding a by (blast intro: micro_mono)
qed

end
