(* ===== verification/Policies.thy ===== *)
theory Policies
  imports Transforms Operations
begin

text \<open>
  The dispatch policies (\<^verbatim>\<open>mittelwerk/dispatch_policies\<close>): the recommendation, the registry of
  policy classes, the base class with its buffers of readings, and the two threshold policies.
  The band and imbalance policies are in \<^verbatim>\<open>Deviations\<close>. A subclass extends the record of the
  base class.
\<close>

section \<open>Recommendations\<close>

datatype urgency = URGENT | ELEVATED | ROUTINE | DEFER | SUPPRESS

record recommendation =
  rc_asset :: equipment
  rc_urgency :: urgency
  target_rate :: "pyfloat option"
  rc_escalation :: "pyfloat option"
  rc_confidence :: pyfloat
  rc_metadata :: payload
  rc_timestamp :: datetime

text \<open>What \<^verbatim>\<open>json.dumps(value, allow_nan=False)\<close> accepts of the values of the model.\<close>

fun json_dumps_ok :: "pyval \<Rightarrow> bool" where
  "json_dumps_ok (VFloat x) = is_finite x"
| "json_dumps_ok (VNum x) = False"
| "json_dumps_ok (VList vs) = list_all json_dumps_ok vs"
| "json_dumps_ok (VDict d) = list_all (\<lambda>(k, v). json_dumps_ok v) d"
| "json_dumps_ok v = True"

definition mk_recommendation :: "recommendation \<Rightarrow> exn + recommendation" where
  "mk_recommendation r =
     (if \<not> (f_le (Fin 0) (rc_confidence r) \<and> f_le (rc_confidence r) (Fin 1)) then Inl ValueError
      else case ensure_utc (rc_timestamp r) of Inl e \<Rightarrow> Inl ValueError
      | Inr t \<Rightarrow> if \<not> json_dumps_ok (VDict (rc_metadata r)) then Inl ValueError
          else Inr (r\<lparr>rc_timestamp := t\<rparr>))"

definition is_actionable :: "recommendation \<Rightarrow> bool" where
  "is_actionable r \<longleftrightarrow> rc_urgency r \<noteq> ROUTINE \<and> f_le (Fin (1 / 2)) (rc_confidence r)"

section \<open>The registry\<close>

text \<open>
  What the metaclass sees of a class statement: the name, whether it has bases, whether methods
  are still abstract, whether it descends from the base class, and \<open>policy_name\<close> in its body.
\<close>

record class_statement =
  cs_name :: string
  cs_has_bases :: bool
  cs_abstract :: bool
  cs_is_policy :: bool
  cs_policy_name :: "pyval option"

type_synonym 'c policy_registry = "(string, 'c) dict"

definition register_class :: "class_statement \<Rightarrow> 'c \<Rightarrow> ('c policy_registry, 'c) action" where
  "register_class s cls reg =
     (if cs_has_bases s \<and> \<not> cs_abstract s
      then (if \<not> cs_is_policy s then (Inl TypeError, reg)
        else (case (case cs_policy_name s of None \<Rightarrow> VStr (cs_name s) | Some v \<Rightarrow> v) of
            VStr key \<Rightarrow>
              if strip key = [] then (Inl ValueError, reg)
              else (case dict_get reg key of
                  Some existing \<Rightarrow> if existing \<noteq> cls then (Inl ValueError, reg) else (Inr cls, dict_set key cls reg)
                | None \<Rightarrow> (Inr cls, dict_set key cls reg))
          | _ \<Rightarrow> (Inl ValueError, reg)))
      else (Inr cls, reg))"

definition get_policy :: "string \<Rightarrow> 'c policy_registry \<Rightarrow> exn + 'c" where
  "get_policy n reg = (case dict_get reg n of None \<Rightarrow> Inl KeyError | Some c \<Rightarrow> Inr c)"

definition list_policies :: "'c policy_registry \<Rightarrow> string list" where
  "list_policies reg = sort (dict_keys reg)"

section \<open>The base class\<close>

record policy =
  po_equipment :: "(string, equipment) dict"
  po_parameters :: payload
  po_buffer :: "(string, telemetry_reading list) dict"
  po_recommendations :: "recommendation list"
  po_running :: bool
  po_exposure :: "(string, pyfloat) dict"

type_synonym ('p, 'a) policy_op = "('p policy_scheme, 'a) action"

definition require_int_parameter :: "payload \<Rightarrow> string \<Rightarrow> int \<Rightarrow> exn + int" where
  "require_int_parameter parameters n minimum = (case dict_get parameters n of
      None \<Rightarrow> Inl KeyError
    | Some (VInt v) \<Rightarrow> if v < minimum then Inl ValueError else Inr v
    | Some _ \<Rightarrow> Inl ValueError)"

text \<open>\<^verbatim>\<open>float(value)\<close>; texts that are not the text of a number raise, also those of infinities and NaN,
  which every caller refuses with the same exception.\<close>

definition py_float :: "pyval \<Rightarrow> exn + pyfloat" where
  "py_float v = (case v of
      VInt n \<Rightarrow> int_to_float n | VFloat x \<Rightarrow> Inr x | VBool b \<Rightarrow> Inr (Fin (if b then 1 else 0))
    | VNum x \<Rightarrow> Inr (to_float x) | VNumText x \<Rightarrow> Inr (to_float x)
    | VStr s \<Rightarrow> Inl ValueError | VTimeText t \<Rightarrow> Inl ValueError
    | _ \<Rightarrow> Inl TypeError)"

definition float_parameter :: "payload \<Rightarrow> string \<Rightarrow> exn + pyfloat" where
  "float_parameter parameters n = (case dict_get parameters n of None \<Rightarrow> Inl KeyError | Some v \<Rightarrow> py_float v)"

text \<open>\<^verbatim>\<open>int(self.parameters[name])\<close> of a parameter that the constructor has checked to be an integer.\<close>

definition int_parameter :: "payload \<Rightarrow> string \<Rightarrow> exn + int" where
  "int_parameter parameters n = (case dict_get parameters n of
      None \<Rightarrow> Inl KeyError | Some (VInt v) \<Rightarrow> Inr v | Some _ \<Rightarrow> Inl TypeError)"

definition new_policy :: "equipment list \<Rightarrow> payload option \<Rightarrow> exn + policy" where
  "new_policy eqs parameters =
     (if \<not> distinct (map eq_asset_id eqs) then Inl ValueError
      else Inr \<lparr>po_equipment = dict_update [] (map (\<lambda>e. (eq_asset_id e, e)) eqs),
        po_parameters = (case parameters of None \<Rightarrow> [] | Some p \<Rightarrow> p),
        po_buffer = dict_update [] (map (\<lambda>e. (eq_asset_id e, [])) eqs),
        po_recommendations = [], po_running = False, po_exposure = []\<rparr>)"

definition merge_parameters :: "payload \<Rightarrow> payload option \<Rightarrow> payload" where
  "merge_parameters defaults parameters = dict_update defaults (case parameters of None \<Rightarrow> [] | Some p \<Rightarrow> p)"

definition on_start :: "('p, unit) policy_op" where
  "on_start = modify (\<lambda>p. p\<lparr>po_running := True\<rparr>)"

definition on_stop :: "('p, unit) policy_op" where
  "on_stop = modify (\<lambda>p. p\<lparr>po_running := False\<rparr>)"

definition on_assignment :: "work_order \<Rightarrow> pyfloat \<Rightarrow> pyfloat \<Rightarrow> ('p, unit) policy_op" where
  "on_assignment w rate hrs = modify (\<lambda>p.
     (let current = (case dict_get (po_exposure p) (wo_asset w) of None \<Rightarrow> Fin 0 | Some x \<Rightarrow> x);
          signed = (if side w = REQUEST then hrs else f_neg hrs)
      in p\<lparr>po_exposure := dict_set (wo_asset w) (f_add current (f_mul signed rate)) (po_exposure p)\<rparr>))"

definition buffer_reading :: "nat \<Rightarrow> telemetry_reading \<Rightarrow> ('p, unit) policy_op" where
  "buffer_reading max_buffer r p = (case dict_get (po_buffer p) (tr_asset r) of
      None \<Rightarrow> (Inl ValueError, p)
    | Some buf \<Rightarrow>
        (let grown = buf @ [r] in
         (Inr (), p\<lparr>po_buffer := dict_set (tr_asset r) (drop (length grown - max_buffer) grown) (po_buffer p)\<rparr>)))"

definition create_work_order ::
  "string \<Rightarrow> int \<Rightarrow> string \<Rightarrow> dispatch_side \<Rightarrow> pyfloat \<Rightarrow> pyfloat option \<Rightarrow> work_order_mode option \<Rightarrow> dispatch_window \<Rightarrow>
   string \<Rightarrow> 'p policy_scheme \<Rightarrow> exn + work_order" where
  "create_work_order uid now asset sd hrs max_rate md window org p =
     (let normalized = upper (strip asset) in
      if normalized \<notin> set (dict_keys (po_equipment p)) then Inl ValueError
      else (let resolved = (case md of Some m \<Rightarrow> m | None \<Rightarrow> if max_rate \<noteq> None then RATE_CAPPED else ANY_RATE) in
        case decimal_of_float hrs of Inl e \<Rightarrow> Inl e | Inr h \<Rightarrow>
        (case decimal_or_none max_rate of Inl e \<Rightarrow> Inl e | Inr cap \<Rightarrow>
         mk_work_order \<lparr>work_order_id = uid, wo_organization = org, wo_asset = normalized, side = sd, mode = resolved,
           requested_hours = h, max_hourly_rate = cap, escalation_rate = None, priority = 3, dispatch_window = window,
           status = NEW, assigned_hours = 0, average_rate = None, created_at = now, updated_at = None, signature = None\<rparr>)))"

text \<open>The floats of a buffer; a value that is not positive is refused.\<close>

definition buffer_values :: "telemetry_reading list \<Rightarrow> exn + pyfloat list" where
  "buffer_values buf = (let values = map (\<lambda>r. to_float (last_reading r)) buf in
     if not_positive values then Inl ValueError else Inr values)"

text \<open>\<^verbatim>\<open>values[-(n + 1):-1]\<close>.\<close>

definition history_window :: "int \<Rightarrow> 'a list \<Rightarrow> 'a list" where
  "history_window n xs = butlast (drop (length xs - (nat n + 1)) xs)"

definition clamp_unit :: "pyfloat \<Rightarrow> pyfloat" where
  "clamp_unit x = f_min (Fin 1) (f_max (Fin 0) x)"

end
