(* ===== verification/Thresholds.thy ===== *)
theory Thresholds
  imports Policies
begin

text \<open>
  The threshold policies, \<^verbatim>\<open>mittelwerk/dispatch_policies/threshold.py\<close>. \<open>clk n\<close> is the reading of the
  clock when the recommendation number \<open>n\<close> of a run is created.
\<close>

text \<open>Appending a recommendation: it is validated, and the state changes only when it is accepted.\<close>

definition emit ::
  "(nat \<Rightarrow> int) \<Rightarrow> equipment \<Rightarrow> urgency \<Rightarrow> pyfloat option \<Rightarrow> pyfloat option \<Rightarrow> pyfloat \<Rightarrow> payload \<Rightarrow> recommendation list \<Rightarrow>
   exn + recommendation list" where
  "emit clk asset u target esc confidence metadata recs =
     map_sum id (\<lambda>r. recs @ [r]) (mk_recommendation \<lparr>rc_asset = asset, rc_urgency = u, target_rate = target,
       rc_escalation = esc, rc_confidence = confidence, rc_metadata = metadata,
       rc_timestamp = Aware (clk (length recs)) 0\<rparr>)"

fun over_assets ::
  "('a \<Rightarrow> recommendation list \<Rightarrow> ('s, recommendation list) action) \<Rightarrow> 'a list \<Rightarrow> recommendation list \<Rightarrow>
   ('s, recommendation list) action" where
  "over_assets step [] recs = ret recs"
| "over_assets step (x # xs) recs = andthen (step x recs) (over_assets step xs)"

definition finish :: "recommendation list \<Rightarrow> ('p, recommendation list) policy_op" where
  "finish recs = andthen (modify (\<lambda>p. p\<lparr>po_recommendations := recs\<rparr>)) (\<lambda>_. ret recs)"

section \<open>Capacity breach\<close>

record breach_policy = policy +
  breach_state :: "(string, string) dict"

definition new_capacity_breach :: "equipment list \<Rightarrow> payload option \<Rightarrow> exn + breach_policy" where
  "new_capacity_breach eqs parameters =
     (let merged = merge_parameters
        [(''lookback'', VInt 20), (''deviation_multiplier'', VFloat (Fin (3 / 2))), (''min_ticks'', VInt 30)] parameters in
      case require_int_parameter merged ''lookback'' 2 of Inl e \<Rightarrow> Inl e | Inr lookback \<Rightarrow>
      (case require_int_parameter merged ''min_ticks'' (lookback + 1) of Inl e \<Rightarrow> Inl e | Inr min_ticks \<Rightarrow>
      (case float_parameter merged ''deviation_multiplier'' of Inl e \<Rightarrow> Inl e | Inr multiplier \<Rightarrow>
       if f_lt multiplier (Fin 0) \<or> \<not> is_finite multiplier then Inl ValueError
       else map_sum id (\<lambda>p. policy.extend p (breach_policy.fields []))
         (new_policy eqs (Some (dict_set ''min_ticks'' (VInt min_ticks) (dict_set ''lookback'' (VInt lookback) merged)))))))"

definition breach_on_reading :: "telemetry_reading \<Rightarrow> (breach_policy, unit) action" where
  "breach_on_reading r = buffer_reading 500 r"

definition breach_metadata :: "string \<Rightarrow> pyfloat \<Rightarrow> pyfloat \<Rightarrow> int \<Rightarrow> payload" where
  "breach_metadata channel level average_move lookback =
     [(channel, VFloat level), (''average_move'', VFloat average_move), (''lookback'', VInt lookback)]"

definition breach_asset ::
  "numerics \<Rightarrow> (nat \<Rightarrow> int) \<Rightarrow> int \<Rightarrow> pyfloat \<Rightarrow> int \<Rightarrow> string \<times> telemetry_reading list \<Rightarrow> recommendation list \<Rightarrow>
   (breach_policy, recommendation list) action" where
  "breach_asset np clk lookback multiplier min_ticks x recs p = (case x of (asset_id, buf) \<Rightarrow>
     if int (length buf) < min_ticks then (Inr recs, p)
     else case buffer_values buf of Inl e \<Rightarrow> (Inl e, p) | Inr values \<Rightarrow>
      (let window = history_window lookback values; upper = np_max np window; lower = np_min np window;
           current = last values;
           average_move = np_mean np (map f_abs (np_diff window));
           threshold = f_mul multiplier average_move;
           confidence_scale = f_max (f_max threshold (f_mul (f_abs upper) (Fin (fl (1 / 10 ^ 3))))) (Fin (fl (1 / 10 ^ 12)));
           state = dict_get (breach_state p) asset_id
       in case dict_get (po_equipment p) asset_id of None \<Rightarrow> (Inl KeyError, p) | Some asset \<Rightarrow>
        if f_lt (f_add upper threshold) current \<and> state \<noteq> Some ''high''
        then (case f_div (f_sub current upper) confidence_scale of Inl e \<Rightarrow> (Inl e, p) | Inr q \<Rightarrow>
          (let confidence = clamp_unit q in
           case emit clk asset (if f_lt (Fin (fl (8 / 10))) confidence then URGENT else ELEVATED)
               (Some (f_add current (f_mul average_move (Fin 2)))) (Some (f_sub upper average_move)) confidence
               (breach_metadata ''channel_upper'' upper average_move lookback) recs of
             Inl e \<Rightarrow> (Inl e, p)
           | Inr recs' \<Rightarrow> (Inr recs', p\<lparr>breach_state := dict_set asset_id ''high'' (breach_state p)\<rparr>)))
        else if f_lt current (f_sub lower threshold) \<and> state \<noteq> Some ''low''
        then (case f_div (f_sub lower current) confidence_scale of Inl e \<Rightarrow> (Inl e, p) | Inr q \<Rightarrow>
          (let confidence = clamp_unit q in
           case emit clk asset (if f_lt (Fin (fl (8 / 10))) confidence then SUPPRESS else DEFER)
               (Some (f_sub current (f_mul average_move (Fin 2)))) (Some (f_add lower average_move)) confidence
               (breach_metadata ''channel_lower'' lower average_move lookback) recs of
             Inl e \<Rightarrow> (Inl e, p)
           | Inr recs' \<Rightarrow> (Inr recs', p\<lparr>breach_state := dict_set asset_id ''low'' (breach_state p)\<rparr>)))
        else if f_le lower current \<and> f_le current upper
        then (Inr recs, p\<lparr>breach_state := dict_pop asset_id (breach_state p)\<rparr>)
        else (Inr recs, p)))"

definition breach_generate :: "numerics \<Rightarrow> (nat \<Rightarrow> int) \<Rightarrow> (breach_policy, recommendation list) action" where
  "breach_generate np clk p =
     (case int_parameter (po_parameters p) ''lookback'' of Inl e \<Rightarrow> (Inl e, p) | Inr lookback \<Rightarrow>
      (case float_parameter (po_parameters p) ''deviation_multiplier'' of Inl e \<Rightarrow> (Inl e, p) | Inr multiplier \<Rightarrow>
      (case int_parameter (po_parameters p) ''min_ticks'' of Inl e \<Rightarrow> (Inl e, p) | Inr min_ticks \<Rightarrow>
       andthen (over_assets (breach_asset np clk lookback multiplier min_ticks) (po_buffer p) []) finish p)))"

section \<open>Trend crossover\<close>

definition new_trend_crossover :: "equipment list \<Rightarrow> payload option \<Rightarrow> exn + policy" where
  "new_trend_crossover eqs parameters =
     (let merged = merge_parameters [(''fast_span'', VInt 12), (''slow_span'', VInt 26)] parameters in
      case require_int_parameter merged ''fast_span'' 1 of Inl e \<Rightarrow> Inl e | Inr fast_span \<Rightarrow>
      (case require_int_parameter merged ''slow_span'' (fast_span + 1) of Inl e \<Rightarrow> Inl e | Inr slow_span \<Rightarrow>
       new_policy eqs (Some (dict_set ''slow_span'' (VInt slow_span) (dict_set ''fast_span'' (VInt fast_span) merged)))))"

definition trend_on_reading :: "telemetry_reading \<Rightarrow> (policy, unit) action" where
  "trend_on_reading r = buffer_reading 200 r"

definition trend_metadata :: "pyfloat \<Rightarrow> string \<Rightarrow> payload" where
  "trend_metadata difference direction = [(''ema_difference'', VFloat difference), (''crossover'', VStr direction)]"

definition trend_asset ::
  "(nat \<Rightarrow> int) \<Rightarrow> int \<Rightarrow> int \<Rightarrow> string \<times> telemetry_reading list \<Rightarrow> recommendation list \<Rightarrow>
   (policy, recommendation list) action" where
  "trend_asset clk fast_span slow_span x recs p = (case x of (asset_id, buf) \<Rightarrow>
     if int (length buf) < slow_span + 1 then (Inr recs, p)
     else (case buffer_values buf of Inl e \<Rightarrow> (Inl e, p) | Inr values \<Rightarrow>
      (case exponential_moving_average values (VInt fast_span) of Inl e \<Rightarrow> (Inl e, p) | Inr fast_ema \<Rightarrow>
      (case exponential_moving_average values (VInt slow_span) of Inl e \<Rightarrow> (Inl e, p) | Inr slow_ema \<Rightarrow>
       if length fast_ema \<noteq> length slow_ema then (Inl RuntimeError, p)
       else (let difference = map2 f_sub fast_ema slow_ema; now = last difference; before = last (butlast difference);
                 confidence = map_sum id clamp_unit
                   (f_div (f_abs now) (f_mul (f_abs (last values)) (Fin (fl (1 / 10 ^ 2)))))
         in case dict_get (po_equipment p) asset_id of None \<Rightarrow> (Inl KeyError, p) | Some asset \<Rightarrow>
           if f_lt (Fin 0) now \<and> f_le before (Fin 0)
           then (case confidence of Inl e \<Rightarrow> (Inl e, p)
             | Inr q \<Rightarrow> (emit clk asset ELEVATED None None q (trend_metadata now ''rising'') recs, p))
           else if f_lt now (Fin 0) \<and> f_le (Fin 0) before
           then (case confidence of Inl e \<Rightarrow> (Inl e, p)
             | Inr q \<Rightarrow> (emit clk asset DEFER None None q (trend_metadata now ''falling'') recs, p))
           else (Inr recs, p))))))"

definition trend_generate :: "(nat \<Rightarrow> int) \<Rightarrow> (policy, recommendation list) action" where
  "trend_generate clk p =
     (case int_parameter (po_parameters p) ''fast_span'' of Inl e \<Rightarrow> (Inl e, p) | Inr fast_span \<Rightarrow>
      (case int_parameter (po_parameters p) ''slow_span'' of Inl e \<Rightarrow> (Inl e, p) | Inr slow_span \<Rightarrow>
       andthen (over_assets (trend_asset clk fast_span slow_span) (po_buffer p) []) finish p))"

end
