(* ===== verification/Deviations.thy ===== *)
theory Deviations
  imports Thresholds
begin

text \<open>
  The deviation policies, \<^verbatim>\<open>mittelwerk/dispatch_policies/telemetry_deviation.py\<close>: the band around the
  recent mean of one asset, and the imbalance between the readings of two assets.
\<close>

definition spread_floor :: pyfloat where
  "spread_floor = Fin (fl (1 / 10 ^ 9))"

section \<open>Band deviation\<close>

definition new_band_deviation :: "equipment list \<Rightarrow> payload option \<Rightarrow> exn + policy" where
  "new_band_deviation eqs parameters =
     (let merged = merge_parameters [(''window'', VInt 20), (''band_width'', VFloat (Fin 2)), (''min_ticks'', VInt 25)] parameters in
      case require_int_parameter merged ''window'' 2 of Inl e \<Rightarrow> Inl e | Inr window \<Rightarrow>
      (case require_int_parameter merged ''min_ticks'' (window + 1) of Inl e \<Rightarrow> Inl e | Inr min_ticks \<Rightarrow>
      (case float_parameter merged ''band_width'' of Inl e \<Rightarrow> Inl e | Inr band_width \<Rightarrow>
       if f_le band_width (Fin 0) \<or> \<not> is_finite band_width then Inl ValueError
       else new_policy eqs (Some (dict_set ''min_ticks'' (VInt min_ticks) (dict_set ''window'' (VInt window) merged))))))"

definition band_on_reading :: "telemetry_reading \<Rightarrow> (policy, unit) action" where
  "band_on_reading r = buffer_reading 300 r"

definition band_metadata :: "pyfloat \<Rightarrow> pyfloat \<Rightarrow> pyfloat \<Rightarrow> pyfloat \<Rightarrow> int \<Rightarrow> payload" where
  "band_metadata z hi lo mean window =
     [(''z_score'', VFloat z), (''upper_band'', VFloat hi), (''lower_band'', VFloat lo), (''ma'', VFloat mean),
      (''window'', VInt window)]"

definition band_asset ::
  "numerics \<Rightarrow> (nat \<Rightarrow> int) \<Rightarrow> int \<Rightarrow> pyfloat \<Rightarrow> int \<Rightarrow> string \<times> telemetry_reading list \<Rightarrow> recommendation list \<Rightarrow>
   (policy, recommendation list) action" where
  "band_asset np clk window band_width min_ticks x recs p = (case x of (asset_id, buf) \<Rightarrow>
     if int (length buf) < min_ticks then (Inr recs, p)
     else (case buffer_values buf of Inl e \<Rightarrow> (Inl e, p) | Inr values \<Rightarrow>
      (let past = history_window window values; current = last values;
           current_ma = np_mean np past; current_std = np_std np past;
           upper_band = f_add current_ma (f_mul band_width current_std);
           lower_band = f_sub current_ma (f_mul band_width current_std)
       in if f_lt current_std spread_floor then (Inr recs, p)
       else (case f_div (f_sub current current_ma) current_std of Inl e \<Rightarrow> (Inl e, p) | Inr z_score \<Rightarrow>
        (case f_div (f_abs z_score) (f_mul band_width (Fin 2)) of Inl e \<Rightarrow> (Inl e, p) | Inr q \<Rightarrow>
        (case dict_get (po_equipment p) asset_id of None \<Rightarrow> (Inl KeyError, p) | Some asset \<Rightarrow>
         if f_le upper_band current
         then (emit clk asset DEFER (Some current_ma) (Some (f_add upper_band current_std)) (clamp_unit q)
                 (band_metadata z_score upper_band lower_band current_ma window) recs, p)
         else if f_le current lower_band
         then (emit clk asset ELEVATED (Some current_ma) (Some (f_sub lower_band current_std)) (clamp_unit q)
                 (band_metadata z_score upper_band lower_band current_ma window) recs, p)
         else (Inr recs, p)))))))"

definition band_generate :: "numerics \<Rightarrow> (nat \<Rightarrow> int) \<Rightarrow> (policy, recommendation list) action" where
  "band_generate np clk p =
     (case int_parameter (po_parameters p) ''window'' of Inl e \<Rightarrow> (Inl e, p) | Inr window \<Rightarrow>
      (case float_parameter (po_parameters p) ''band_width'' of Inl e \<Rightarrow> (Inl e, p) | Inr band_width \<Rightarrow>
      (case int_parameter (po_parameters p) ''min_ticks'' of Inl e \<Rightarrow> (Inl e, p) | Inr min_ticks \<Rightarrow>
       andthen (over_assets (band_asset np clk window band_width min_ticks) (po_buffer p) []) finish p)))"

section \<open>Cross-asset imbalance\<close>

record imbalance_policy = policy +
  po_pair :: "string \<times> string"
  active_imbalance :: "string option"

text \<open>The pair is the parameter of that name, or the first two assets; it must be two distinct configured
  ones. A list or dictionary in it cannot be looked up.\<close>

definition configured_asset :: "pyval \<Rightarrow> policy \<Rightarrow> exn + string" where
  "configured_asset v p = (case v of
      VStr a \<Rightarrow> if a \<notin> set (dict_keys (po_equipment p)) then Inl ValueError else Inr a
    | VList _ \<Rightarrow> Inl TypeError | VDict _ \<Rightarrow> Inl TypeError
    | _ \<Rightarrow> Inl ValueError)"

definition resolve_pair :: "payload \<Rightarrow> policy \<Rightarrow> exn + string \<times> string" where
  "resolve_pair merged p =
     (case (case dict_get merged ''pair'' of None \<Rightarrow> VList (map VStr (take 2 (dict_keys (po_equipment p)))) | Some v \<Rightarrow> v) of
        VList [x, y] \<Rightarrow>
          if x = y then Inl ValueError
          else (case configured_asset x p of Inl e \<Rightarrow> Inl e | Inr a \<Rightarrow>
            (case configured_asset y p of Inl e \<Rightarrow> Inl e | Inr b \<Rightarrow> Inr (a, b)))
      | _ \<Rightarrow> Inl ValueError)"

definition new_imbalance :: "equipment list \<Rightarrow> payload option \<Rightarrow> exn + imbalance_policy" where
  "new_imbalance eqs parameters =
     (let merged = merge_parameters
        [(''entry_z'', VFloat (Fin 2)), (''exit_z'', VFloat (Fin (1 / 2))), (''lookback'', VInt 60)] parameters in
      case new_policy eqs (Some merged) of Inl e \<Rightarrow> Inl e | Inr p \<Rightarrow>
      (case resolve_pair merged p of Inl e \<Rightarrow> Inl e | Inr pair \<Rightarrow>
      (case require_int_parameter merged ''lookback'' 2 of Inl e \<Rightarrow> Inl e | Inr lookback \<Rightarrow>
      (case float_parameter merged ''entry_z'' of Inl e \<Rightarrow> Inl e | Inr entry_z \<Rightarrow>
      (case float_parameter merged ''exit_z'' of Inl e \<Rightarrow> Inl e | Inr exit_z \<Rightarrow>
       if f_le entry_z (Fin 0) \<or> \<not> is_finite entry_z then Inl ValueError
       else if f_lt exit_z (Fin 0) \<or> f_le entry_z exit_z \<or> \<not> is_finite exit_z then Inl ValueError
       else Inr (policy.extend p (imbalance_policy.fields pair None)))))))"

definition imbalance_on_reading :: "telemetry_reading \<Rightarrow> (imbalance_policy, unit) action" where
  "imbalance_on_reading r = buffer_reading 200 r"

definition imbalance_metadata :: "pyfloat \<Rightarrow> pyfloat \<Rightarrow> string \<Rightarrow> string \<Rightarrow> string \<Rightarrow> payload" where
  "imbalance_metadata z gap a b assessment =
     [(''z_score'', VFloat z), (''relative_reading_gap'', VFloat gap), (''comparison_assets'', VList [VStr a, VStr b]),
      (''assessment'', VStr assessment)]"

definition resolved_metadata :: "pyfloat \<Rightarrow> string \<Rightarrow> string \<Rightarrow> payload" where
  "resolved_metadata z a b =
     [(''z_score'', VFloat z), (''comparison_assets'', VList [VStr a, VStr b]), (''action'', VStr ''imbalance_resolved'')]"

text \<open>
  The two recommendations of an event, created one after the other. They carry the same numbers, so
  either both are accepted or the first is refused already.
\<close>

definition emit_pair ::
  "(nat \<Rightarrow> int) \<Rightarrow> equipment \<times> urgency \<times> payload \<Rightarrow> equipment \<times> urgency \<times> payload \<Rightarrow> pyfloat \<Rightarrow> exn + recommendation list" where
  "emit_pair clk x y confidence = (case (x, y) of ((a, u, m), (b, v, n)) \<Rightarrow>
     (case emit clk a u None None confidence m [] of Inl e \<Rightarrow> Inl e | Inr recs \<Rightarrow> emit clk b v None None confidence n recs))"

definition current_gap :: "pyfloat list \<Rightarrow> pyfloat" where
  "current_gap spread = last spread"

text \<open>What a gap does: which recommendations and which new state.\<close>

definition imbalance_step ::
  "(nat \<Rightarrow> int) \<Rightarrow> pyfloat \<Rightarrow> pyfloat \<Rightarrow> string \<times> equipment \<Rightarrow> string \<times> equipment \<Rightarrow> pyfloat \<Rightarrow> pyfloat \<Rightarrow> string option \<Rightarrow>
   exn + recommendation list \<times> string option" where
  "imbalance_step clk entry_z exit_z fst_asset snd_asset z gap active = (case (fst_asset, snd_asset) of ((a, ea), (b, eb)) \<Rightarrow>
     if f_lt entry_z z \<and> active \<noteq> Some ''first_high''
     then (case f_div (f_abs z) (f_mul entry_z (Fin 2)) of Inl e \<Rightarrow> Inl e | Inr q \<Rightarrow>
       map_sum id (\<lambda>recs. (recs, Some ''first_high''))
         (emit_pair clk (ea, ELEVATED, imbalance_metadata z gap a b ''first_asset_high'')
            (eb, DEFER, imbalance_metadata z gap a b ''second_asset_reference'') (clamp_unit q)))
     else if f_lt z (f_neg entry_z) \<and> active \<noteq> Some ''first_low''
     then (case f_div (f_abs z) (f_mul entry_z (Fin 2)) of Inl e \<Rightarrow> Inl e | Inr q \<Rightarrow>
       map_sum id (\<lambda>recs. (recs, Some ''first_low''))
         (emit_pair clk (ea, DEFER, imbalance_metadata z gap a b ''first_asset_reference'')
            (eb, ELEVATED, imbalance_metadata z gap a b ''second_asset_high'') (clamp_unit q)))
     else if f_lt (f_abs z) exit_z \<and> active \<noteq> None
     then map_sum id (\<lambda>recs. (recs, None))
       (emit_pair clk (ea, ROUTINE, resolved_metadata z a b) (eb, ROUTINE, resolved_metadata z a b) (Fin 1))
     else Inr ([], active))"

definition recent_values :: "int \<Rightarrow> telemetry_reading list \<Rightarrow> pyfloat list" where
  "recent_values required buf = map (\<lambda>r. to_float (last_reading r)) (drop (length buf - nat required) buf)"

definition imbalance_generate :: "numerics \<Rightarrow> (nat \<Rightarrow> int) \<Rightarrow> (imbalance_policy, recommendation list) action" where
  "imbalance_generate np clk p0 =
     (let p = p0\<lparr>po_recommendations := []\<rparr> in
      case int_parameter (po_parameters p) ''lookback'' of Inl e \<Rightarrow> (Inl e, p) | Inr lookback \<Rightarrow>
      (case float_parameter (po_parameters p) ''entry_z'' of Inl e \<Rightarrow> (Inl e, p) | Inr entry_z \<Rightarrow>
      (case float_parameter (po_parameters p) ''exit_z'' of Inl e \<Rightarrow> (Inl e, p) | Inr exit_z \<Rightarrow>
       (let (a, b) = po_pair p; required = lookback + 1;
            buf_a = (case dict_get (po_buffer p) a of None \<Rightarrow> [] | Some x \<Rightarrow> x);
            buf_b = (case dict_get (po_buffer p) b of None \<Rightarrow> [] | Some x \<Rightarrow> x);
            values_a = recent_values required buf_a; values_b = recent_values required buf_b
        in if int (length buf_a) < required \<or> int (length buf_b) < required then (Inr [], p)
        else if not_positive values_a \<or> not_positive values_b then (Inl ValueError, p)
        else (let spread = map2 f_sub (map (np_log np) values_a) (map (np_log np) values_b);
                  past = butlast spread; spread_mean = np_mean np past; spread_std = np_std np past
          in if f_lt spread_std spread_floor then (Inr [], p)
          else (case f_div (f_sub (current_gap spread) spread_mean) spread_std of Inl e \<Rightarrow> (Inl e, p) | Inr z \<Rightarrow>
           (case dict_get (po_equipment p) a of None \<Rightarrow> (Inl KeyError, p) | Some ea \<Rightarrow>
           (case dict_get (po_equipment p) b of None \<Rightarrow> (Inl KeyError, p) | Some eb \<Rightarrow>
           (case imbalance_step clk entry_z exit_z (a, ea) (b, eb) z (current_gap spread) (active_imbalance p) of
              Inl e \<Rightarrow> (Inl e, p)
            | Inr (recs, active) \<Rightarrow>
                (Inr recs, p\<lparr>active_imbalance := active, po_recommendations := recs\<rparr>)))))))))) "

end
