(* ===== verification/PolicyLaws.thy ===== *)
theory PolicyLaws
  imports Deviations
begin

text \<open>
  What the policies promise: the buffers hold the latest readings of each asset, a breach is
  recommended exactly when the breach state of the asset changes, and a window larger than the
  buffer keeps a policy silent.
\<close>

section \<open>Buffers\<close>

definition latest :: "nat \<Rightarrow> 'a list \<Rightarrow> 'a list" where
  "latest n xs = drop (length xs - n) xs"

lemma latest_snoc: "drop (Suc (length (latest n xs)) - n) (latest n xs @ [x]) = latest n (xs @ [x])"
  by (cases "length xs < n") (auto simp: latest_def Suc_diff_le)

lemma length_latest: "length (latest n xs) = min n (length xs)"
  by (auto simp: latest_def)

definition readings_of :: "string \<Rightarrow> telemetry_reading list \<Rightarrow> telemetry_reading list" where
  "readings_of a rs = filter (\<lambda>r. tr_asset r = a) rs"

text \<open>The buffers after the readings \<open>rs\<close>, of a policy for the assets \<open>ks\<close>.\<close>

definition buffers_hold :: "nat \<Rightarrow> telemetry_reading list \<Rightarrow> 'p policy_scheme \<Rightarrow> bool" where
  "buffers_hold n rs p \<longleftrightarrow> dict_ok (po_buffer p) \<and> dict_keys (po_buffer p) = dict_keys (po_equipment p) \<and>
     (\<forall>a\<in>set (dict_keys (po_buffer p)). dict_get (po_buffer p) a = Some (latest n (readings_of a rs))) \<and>
     (\<forall>a e. dict_get (po_equipment p) a = Some e \<longrightarrow> eq_asset_id e = a)"

lemma dict_keys_update: "k \<in> set (dict_keys d) \<Longrightarrow> dict_keys (dict_set k v d) = dict_keys d"
  by (induction d) auto

lemma buffers_hold_reading:
  assumes b: "buffers_hold n rs p" and s: "buffer_reading n r p = (res, p')"
  shows "buffers_hold n (rs @ [r]) p'"
proof (cases "dict_get (po_buffer p) (tr_asset r)")
  case None
  then have "p' = p" using s by (simp add: buffer_reading_def)
  moreover have "tr_asset r \<notin> set (dict_keys (po_buffer p))" using None by (simp add: dict_get_None)
  moreover have "readings_of a (rs @ [r]) = readings_of a rs" if "a \<noteq> tr_asset r" for a using that by (simp add: readings_of_def)
  ultimately show ?thesis using b unfolding buffers_hold_def by metis
next
  case (Some buf)
  then have k: "tr_asset r \<in> set (dict_keys (po_buffer p))" using dict_get_None [of "po_buffer p" "tr_asset r"] by auto
  have buf: "buf = latest n (readings_of (tr_asset r) rs)"
    using b k Some unfolding buffers_hold_def by (metis option.inject)
  have p': "p' = p\<lparr>po_buffer := dict_set (tr_asset r) (latest n (readings_of (tr_asset r) rs @ [r])) (po_buffer p)\<rparr>"
    using s Some latest_snoc [of n _ r] by (simp add: buffer_reading_def buf)
  have "readings_of a (rs @ [r]) = (if a = tr_asset r then readings_of a rs @ [r] else readings_of a rs)" for a
    by (simp add: readings_of_def)
  moreover have hold: "\<forall>a\<in>set (dict_keys (po_buffer p)). dict_get (po_buffer p) a = Some (latest n (readings_of a rs))"
    using b unfolding buffers_hold_def by blast
  ultimately have "\<forall>a\<in>set (dict_keys (po_buffer p)).
      dict_get (dict_set (tr_asset r) (latest n (readings_of (tr_asset r) rs @ [r])) (po_buffer p)) a =
      Some (latest n (readings_of a (rs @ [r])))"
    using hold unfolding dict_get_set by simp
  then show ?thesis using b dict_keys_update [OF k] unfolding p' buffers_hold_def by simp
qed

lemma buffers_hold_same:
  "po_buffer p' = po_buffer p \<Longrightarrow> po_equipment p' = po_equipment p \<Longrightarrow> buffers_hold n rs p' = buffers_hold n rs p"
  by (simp only: buffers_hold_def)

lemma dict_update_keys: "distinct (dict_keys e) \<Longrightarrow> set (dict_keys d) \<inter> set (dict_keys e) = {} \<Longrightarrow> dict_update d e = d @ e"
proof (induction e arbitrary: d)
  case (Cons kv e)
  obtain k v where kv: "kv = (k, v)" by fastforce
  have "dict_update d (kv # e) = dict_update (dict_set k v d) e" by (simp add: dict_update_def kv)
  also have "dict_set k v d = d @ [(k, v)]" using Cons.prems(2) by (intro dict_set_new) (auto simp: kv)
  also have "dict_update (d @ [(k, v)]) e = d @ [(k, v)] @ e" using Cons by (subst Cons.IH) (auto simp: kv)
  finally show ?case by (simp add: kv)
qed (simp add: dict_update_def)

lemma new_policy_buffers: "new_policy eqs ps = Inr p \<Longrightarrow> buffers_hold n [] p"
  by (auto simp: new_policy_def buffers_hold_def dict_update_keys comp_def dict_ok_def readings_of_def latest_def
      map_of_eq_None_iff map_of_map dest!: map_of_SomeD split: if_splits)

section \<open>Recommendations\<close>

lemma clamp_unit_bounds: "f_le (Fin 0) (clamp_unit x) \<and> f_le (clamp_unit x) (Fin 1)"
  by (cases x) (auto simp: clamp_unit_def f_max_def f_min_def f_le_def)

lemma emit_cases:
  assumes "emit clk asset u target esc confidence metadata recs = Inr recs'"
  shows "\<exists>r. recs' = recs @ [r] \<and> rc_asset r = asset \<and> rc_urgency r = u \<and> rc_confidence r = confidence"
  using assms by (auto simp: emit_def mk_recommendation_def split: if_splits sum.splits)

lemma emit_accepts:
  assumes "json_dumps_ok (VDict metadata)" "confidence = clamp_unit q"
  shows "\<exists>recs'. emit clk asset u target esc confidence metadata recs = Inr recs'"
  using assms clamp_unit_bounds [of q] by (simp add: emit_def mk_recommendation_def ensure_utc_def)

section \<open>Breaches\<close>

definition direction :: "recommendation \<Rightarrow> string" where
  "direction r = (if rc_urgency r \<in> {URGENT, ELEVATED} then ''high'' else ''low'')"

text \<open>An asset whose breach state became a breach it was not before.\<close>

definition breached :: "breach_policy \<Rightarrow> breach_policy \<Rightarrow> string \<Rightarrow> bool" where
  "breached p p' a \<longleftrightarrow> dict_get (breach_state p') a \<notin> {None, dict_get (breach_state p) a}"

definition same_policy :: "breach_policy \<Rightarrow> breach_policy \<Rightarrow> bool" where
  "same_policy p p' \<longleftrightarrow> po_equipment p' = po_equipment p \<and> po_buffer p' = po_buffer p \<and> po_parameters p' = po_parameters p"

lemma same_policy_simps [simp]:
  "same_policy p p" "same_policy p (p\<lparr>breach_state := x\<rparr>)" "same_policy p (p\<lparr>po_recommendations := y\<rparr>)"
  by (simp_all add: same_policy_def)

lemma same_policy_trans: "same_policy p q \<Longrightarrow> same_policy q r \<Longrightarrow> same_policy p r"
  by (simp add: same_policy_def)

text \<open>What one asset does to the recommendations and to the policy.\<close>

definition breach_effect ::
  "string \<Rightarrow> breach_policy \<Rightarrow> recommendation list \<Rightarrow> (exn + recommendation list) \<times> breach_policy \<Rightarrow> bool" where
  "breach_effect a p recs out \<longleftrightarrow> (case out of (res, p') \<Rightarrow>
     same_policy p p' \<and> (\<forall>b. b \<noteq> a \<longrightarrow> dict_get (breach_state p') b = dict_get (breach_state p) b) \<and>
     (\<forall>recs'. res = Inr recs' \<longrightarrow>
       (if breached p p' a
        then \<exists>r e. recs' = recs @ [r] \<and> dict_get (po_equipment p) a = Some e \<and> rc_asset r = e \<and>
          dict_get (breach_state p') a = Some (direction r)
        else recs' = recs)))"

lemma breach_effect_idle:
  "breach_effect a p recs (Inl x, p)" "breach_effect a p recs (Inr recs, p)"
  "breach_effect a p recs (Inr recs, p\<lparr>breach_state := dict_pop a (breach_state p)\<rparr>)"
  by (simp_all add: breach_effect_def breached_def dict_simps)

lemma breach_effect_emit:
  assumes "dict_get (po_equipment p) a = Some asset" "dict_get (breach_state p) a \<noteq> Some d"
    "\<And>q. d = (if u q \<in> {URGENT, ELEVATED} then ''high'' else ''low'')"
  shows "breach_effect a p recs (case f_div x y of Inl e \<Rightarrow> (Inl e, p) | Inr q \<Rightarrow>
      (case emit clk asset (u q) (t q) (esc q) (c q) (m q) recs of Inl e \<Rightarrow> (Inl e, p)
       | Inr recs' \<Rightarrow> (Inr recs', p\<lparr>breach_state := dict_set a d (breach_state p)\<rparr>)))"
proof (cases "f_div x y")
  case (Inr q)
  show ?thesis
  proof (cases "emit clk asset (u q) (t q) (esc q) (c q) (m q) recs")
    case (Inr recs')
    from emit_cases [OF this] obtain r where r: "recs' = recs @ [r]" "rc_asset r = asset" "rc_urgency r = u q" by blast
    then have "direction r = d" using assms(3) [of q] by (simp add: direction_def)
    with r assms(1,2) Inr \<open>f_div x y = Inr q\<close> show ?thesis by (auto simp: breach_effect_def breached_def dict_simps)
  qed (simp add: Inr breach_effect_idle)
qed (simp add: breach_effect_idle)

lemma breach_asset_effect: "breach_effect a p recs (breach_asset np clk lookback multiplier min_ticks (a, buf) recs p)"
proof (cases "int (length buf) < min_ticks \<or> (\<exists>e. buffer_values buf = Inl e) \<or> dict_get (po_equipment p) a = None")
  case True
  then show ?thesis
    by (cases "buffer_values buf") (auto simp: breach_asset_def Let_def breach_effect_idle)
next
  case False
  then obtain xs asset where v: "\<not> int (length buf) < min_ticks" "buffer_values buf = Inr xs"
    "dict_get (po_equipment p) a = Some asset" by (cases "buffer_values buf") auto
  show ?thesis
    unfolding breach_asset_def Let_def v(2) v(3) prod.case sum.case option.case
    using v(1) by (auto intro!: breach_effect_idle breach_effect_emit [OF v(3)])
qed

lemma breach_loop_effect:
  assumes "over_assets (breach_asset np clk lookback multiplier min_ticks) xs recs p = (res, p')"
    "distinct (map fst xs)" "\<forall>a e. dict_get (po_equipment p) a = Some e \<longrightarrow> eq_asset_id e = a"
  shows "same_policy p p' \<and> (\<forall>b. b \<notin> fst ` set xs \<longrightarrow> dict_get (breach_state p') b = dict_get (breach_state p) b) \<and>
    (\<forall>recs'. res = Inr recs' \<longrightarrow> (\<exists>new. recs' = recs @ new \<and>
      map (\<lambda>r. eq_asset_id (rc_asset r)) new = filter (breached p p') (map fst xs) \<and>
      (\<forall>r\<in>set new. dict_get (breach_state p') (eq_asset_id (rc_asset r)) = Some (direction r))))"
  using assms
proof (induction xs arbitrary: recs p)
  case (Cons x xs)
  obtain a buf where x: "x = (a, buf)" by fastforce
  obtain r1 p1 where s: "breach_asset np clk lookback multiplier min_ticks (a, buf) recs p = (r1, p1)" by fastforce
  note e1 = breach_asset_effect [of a p recs np clk lookback multiplier min_ticks buf, unfolded s breach_effect_def prod.case]
  show ?case
  proof (cases r1)
    case (Inl e)
    with Cons.prems(1) s have "p' = p1" "res = Inl e" by (auto simp: x andthen_def)
    with e1 show ?thesis by (auto simp: x)
  next
    case (Inr recs1)
    with Cons.prems(1) s have rest: "over_assets (breach_asset np clk lookback multiplier min_ticks) xs recs1 p1 = (res, p')"
      by (simp add: x andthen_def)
    have eq: "\<forall>a e. dict_get (po_equipment p1) a = Some e \<longrightarrow> eq_asset_id e = a"
      using Cons.prems(3) e1 by (simp add: same_policy_def)
    note ih = Cons.IH [OF rest _ eq]
    have d: "distinct (map fst xs)" "a \<notin> fst ` set xs" using Cons.prems(2) by (auto simp: x)
    have keep: "dict_get (breach_state p') a = dict_get (breach_state p1) a" using ih [OF d(1)] d(2) by blast
    have same: "filter (breached p1 p') (map fst xs) = filter (breached p p') (map fst xs)"
      using e1 d(2) by (intro filter_cong) (auto simp: breached_def image_iff)
    have "\<exists>new. recs' = recs @ new \<and>
        map (\<lambda>r. eq_asset_id (rc_asset r)) new = filter (breached p p') (map fst (x # xs)) \<and>
        (\<forall>r\<in>set new. dict_get (breach_state p') (eq_asset_id (rc_asset r)) = Some (direction r))" if res: "res = Inr recs'" for recs'
    proof -
      obtain new where new: "recs' = recs1 @ new" "map (\<lambda>r. eq_asset_id (rc_asset r)) new = filter (breached p p') (map fst xs)"
        "\<forall>r\<in>set new. dict_get (breach_state p') (eq_asset_id (rc_asset r)) = Some (direction r)"
        using ih [OF d(1)] res unfolding same by blast
      have br: "breached p p' a \<longleftrightarrow> breached p p1 a" using keep by (simp add: breached_def)
      show ?thesis
      proof (cases "breached p p1 a")
        case True
        then obtain r e where r: "recs1 = recs @ [r]" "dict_get (po_equipment p) a = Some e" "rc_asset r = e"
          "dict_get (breach_state p1) a = Some (direction r)" using e1 Inr by auto
        moreover have "eq_asset_id e = a" using Cons.prems(3) r(2) by blast
        ultimately show ?thesis using new True br keep by (intro exI [of _ "r # new"]) (simp add: x)
      next
        case False
        then have "recs1 = recs" using e1 Inr by auto
        with False new br show ?thesis by (intro exI [of _ new]) (simp add: x)
      qed
    qed
    moreover have "same_policy p p'" using e1 ih [OF d(1)] same_policy_trans by blast
    moreover have "dict_get (breach_state p') b = dict_get (breach_state p) b" if "b \<notin> fst ` set (x # xs)" for b
      using that e1 ih [OF d(1)] by (auto simp: x)
    ultimately show ?thesis by blast
  qed
qed (auto simp: ret_def)

lemma breach_generate_changes:
  assumes b: "buffers_hold n rs p" and g: "breach_generate np clk p = (res, p')"
  shows "same_policy p p' \<and> (\<forall>recs. res = Inr recs \<longrightarrow>
      po_recommendations p' = recs \<and>
      map (\<lambda>r. eq_asset_id (rc_asset r)) recs = filter (breached p p') (dict_keys (po_buffer p)) \<and>
      (\<forall>r\<in>set recs. dict_get (breach_state p') (eq_asset_id (rc_asset r)) = Some (direction r)))"
proof -
  have eq: "\<forall>a e. dict_get (po_equipment p) a = Some e \<longrightarrow> eq_asset_id e = a" "distinct (dict_keys (po_buffer p))"
    using b by (auto simp: buffers_hold_def dict_ok_def)
  show ?thesis
  proof (cases "\<exists>l m t. int_parameter (po_parameters p) ''lookback'' = Inr l \<and>
      float_parameter (po_parameters p) ''deviation_multiplier'' = Inr m \<and> int_parameter (po_parameters p) ''min_ticks'' = Inr t")
    case False
    with g have "p' = p \<and> (\<exists>e. res = Inl e)" by (auto simp: breach_generate_def split: sum.splits)
    then show ?thesis by auto
  next
    case True
    then obtain l m t where par: "int_parameter (po_parameters p) ''lookback'' = Inr l"
      "float_parameter (po_parameters p) ''deviation_multiplier'' = Inr m" "int_parameter (po_parameters p) ''min_ticks'' = Inr t"
      by blast
    obtain r1 p1 where s: "over_assets (breach_asset np clk l m t) (po_buffer p) [] p = (r1, p1)" by fastforce
    note e = breach_loop_effect [OF s eq(2,1)]
    show ?thesis
    proof (cases r1)
      case (Inl x)
      with g s par have "p' = p1" "res = Inl x" by (simp_all add: breach_generate_def andthen_def)
      with e show ?thesis by simp
    next
      case (Inr recs)
      with g s par have p': "p' = p1\<lparr>po_recommendations := recs\<rparr>" "res = Inr recs"
        by (simp_all add: breach_generate_def andthen_def finish_def modify_def ret_def)
      have "breached p p' = breached p p1" by (simp add: p' breached_def fun_eq_iff)
      with e Inr p' show ?thesis by (auto intro: same_policy_trans)
    qed
  qed
qed

section \<open>Runs of the breach policy\<close>

text \<open>A policy that was made, has seen the readings \<open>rs\<close>, and was run any number of times.\<close>

inductive breach_run :: "numerics \<Rightarrow> telemetry_reading list \<Rightarrow> breach_policy \<Rightarrow> bool" for np where
  Made: "new_capacity_breach eqs ps = Inr p \<Longrightarrow> breach_run np [] p"
| Read: "breach_run np rs p \<Longrightarrow> breach_on_reading r p = (res, p') \<Longrightarrow> breach_run np (rs @ [r]) p'"
| Generated: "breach_run np rs p \<Longrightarrow> breach_generate np clk p = (out, p') \<Longrightarrow> breach_run np rs p'"
| Started: "breach_run np rs p \<Longrightarrow> on_start p = (u, p') \<Longrightarrow> breach_run np rs p'"
| Stopped: "breach_run np rs p \<Longrightarrow> on_stop p = (u, p') \<Longrightarrow> breach_run np rs p'"
| Assigned: "breach_run np rs p \<Longrightarrow> on_assignment w rate hrs p = (u, p') \<Longrightarrow> breach_run np rs p'"

definition breach_parameters :: "payload \<Rightarrow> int \<Rightarrow> rat \<Rightarrow> int \<Rightarrow> bool" where
  "breach_parameters ps lookback multiplier min_ticks \<longleftrightarrow>
     int_parameter ps ''lookback'' = Inr lookback \<and> float_parameter ps ''deviation_multiplier'' = Inr (Fin multiplier) \<and>
     int_parameter ps ''min_ticks'' = Inr min_ticks \<and> 2 \<le> lookback \<and> 0 \<le> multiplier \<and> lookback < min_ticks"

lemma require_int_parameterD: "require_int_parameter ps n k = Inr v \<Longrightarrow> dict_get ps n = Some (VInt v) \<and> k \<le> v"
  by (auto simp: require_int_parameter_def split: option.splits pyval.splits if_splits)

lemma new_capacity_breach_ok:
  assumes "new_capacity_breach eqs ps = Inr p"
  shows "buffers_hold 500 [] p \<and> (\<exists>l m t. breach_parameters (po_parameters p) l m t)"
proof -
  define merged where "merged = merge_parameters
    [(''lookback'', VInt 20), (''deviation_multiplier'', VFloat (Fin (3 / 2))), (''min_ticks'', VInt 30)] ps"
  obtain l t m q where r: "require_int_parameter merged ''lookback'' 2 = Inr l" "require_int_parameter merged ''min_ticks'' (l + 1) = Inr t"
    "float_parameter merged ''deviation_multiplier'' = Inr m" "\<not> f_lt m (Fin 0)" "is_finite m"
    "new_policy eqs (Some (dict_set ''min_ticks'' (VInt t) (dict_set ''lookback'' (VInt l) merged))) = Inr q"
    "p = policy.extend q (breach_policy.fields [])"
    using assms unfolding new_capacity_breach_def merged_def [symmetric] Let_def
    by (auto simp: map_sum_Inr split: sum.splits if_splits)
  obtain x where x: "m = Fin x" using r(5) by (cases m) auto
  have "buffers_hold 500 [] q" using new_policy_buffers [OF r(6)] .
  then have "buffers_hold 500 [] p" 
    by (subst buffers_hold_same [where p = q]) (simp_all add: r(7) policy.defs breach_policy.defs)
  moreover have "po_parameters q = dict_set ''min_ticks'' (VInt t) (dict_set ''lookback'' (VInt l) merged)"
    using r(6) by (auto simp: new_policy_def split: if_splits)
  then have "breach_parameters (po_parameters p) l x t"
    using r(3,4) require_int_parameterD [OF r(1)] require_int_parameterD [OF r(2)]
    by (auto simp: breach_parameters_def r(7) policy.defs breach_policy.defs int_parameter_def float_parameter_def dict_simps x)
  ultimately show ?thesis by blast
qed

lemma same_policy_holds: "same_policy p p' \<Longrightarrow> buffers_hold n rs p' = buffers_hold n rs p \<and> po_parameters p' = po_parameters p"
  using buffers_hold_same by (auto simp: same_policy_def)

lemma lifecycle_same:
  "on_start p = (u, p') \<Longrightarrow> same_policy p p'" "on_stop p = (u, p') \<Longrightarrow> same_policy p p'"
  "on_assignment w rate hrs p = (u, p') \<Longrightarrow> same_policy p p'"
  by (auto simp: on_start_def on_stop_def on_assignment_def modify_def Let_def same_policy_def)

lemma breach_run_ok: "breach_run np rs p \<Longrightarrow> buffers_hold 500 rs p \<and> (\<exists>l m t. breach_parameters (po_parameters p) l m t)"
proof (induction rule: breach_run.induct)
  case Made
  then show ?case by (rule new_capacity_breach_ok)
next
  case (Read rs p r res p')
  then have "po_parameters p' = po_parameters p"
    by (auto simp: breach_on_reading_def buffer_reading_def Let_def split: option.splits)
  with Read buffers_hold_reading [of 500 rs p r res p'] show ?case by (simp add: breach_on_reading_def)
next
  case (Generated rs p clk out p')
  then have "same_policy p p'" using breach_generate_changes by blast
  with Generated show ?case using same_policy_holds by metis
qed (metis lifecycle_same same_policy_holds)+

section \<open>Windows larger than the buffer\<close>

lemma breach_loop_silent:
  "\<forall>x\<in>set xs. int (length (snd x)) < min_ticks \<Longrightarrow>
   over_assets (breach_asset np clk lookback multiplier min_ticks) xs recs p = (Inr recs, p)"
  by (induction xs) (auto simp: ret_def andthen_def breach_asset_def)

lemma oversized_breach_silent:
  assumes r: "breach_run np rs p" and big: "int_parameter (po_parameters p) ''min_ticks'' = Inr n" "500 < n"
  shows "breach_generate np clk p = (Inr [], p\<lparr>po_recommendations := []\<rparr>)"
proof -
  obtain l m t where par: "breach_parameters (po_parameters p) l m t" and b: "buffers_hold 500 rs p"
    using breach_run_ok [OF r] by blast
  have "length buf \<le> 500" if "(a, buf) \<in> set (po_buffer p)" for a buf
  proof -
    have "a \<in> set (dict_keys (po_buffer p))" using that by force
    then have "dict_get (po_buffer p) a = Some (latest 500 (readings_of a rs))" using b unfolding buffers_hold_def by blast
    moreover have "dict_get (po_buffer p) a = Some buf" using that b dict_get_iff unfolding buffers_hold_def by metis
    ultimately show ?thesis by (simp add: length_latest)
  qed
  then have "\<forall>x\<in>set (po_buffer p). int (length (snd x)) < n" using big(2) by fastforce
  from breach_loop_silent [OF this] par big(1) show ?thesis
    by (simp add: breach_generate_def breach_parameters_def andthen_def finish_def modify_def ret_def)
qed

section \<open>Generation raises only for a reading that is not positive\<close>

definition stats_laws :: "numerics \<Rightarrow> bool" where
  "stats_laws np \<longleftrightarrow> (\<forall>xs. xs \<noteq> [] \<longrightarrow> list_all is_finite xs \<longrightarrow> is_finite (np_max np xs) \<and> is_finite (np_min np xs)) \<and>
     (\<forall>xs. list_all (f_le (Fin 0)) xs \<longrightarrow> np_mean np xs = NaN \<or> f_le (Fin 0) (np_mean np xs))"

lemma f_div_scale: "0 < eps \<Longrightarrow> \<exists>q. f_div a (f_max b (Fin eps)) = Inr q"
  by (cases b; cases a) (auto simp: f_max_def)

lemma fl_literal_pos: "0 < fl (1 / 10 ^ 12)"
proof -
  have "fl (1 / 2 ^ 40) = 1 / 2 ^ 40" by (rule fl_exact [of _ 1 40]) simp_all
  then have "1 / 2 ^ 40 \<le> fl (1 / 10 ^ 12)" by (rule fl_ge_rep) simp
  then show ?thesis by (rule less_le_trans [rotated]) simp
qed

definition returns :: "(exn + 'a) \<times> 's \<Rightarrow> bool" where
  "returns out \<longleftrightarrow> (\<exists>a s. out = (Inr a, s))"

lemma returns_done: "returns (Inr a, s)"
  by (simp add: returns_def)

lemma returns_if: "(c \<Longrightarrow> returns a) \<Longrightarrow> (\<not> c \<Longrightarrow> returns b) \<Longrightarrow> returns (if c then a else b)"
  by simp

lemma returns_div:
  assumes "\<And>q. returns (f q)"
  shows "returns (case f_div a (f_max b (Fin (fl (1 / 10 ^ 12)))) of Inl e \<Rightarrow> (Inl e, p) | Inr q \<Rightarrow> f q)"
  using f_div_scale [OF fl_literal_pos, of a b] assms by auto

lemma returns_emit:
  assumes "is_finite level" "is_finite average_move"
  shows "returns (case emit clk asset u target esc (clamp_unit q) (breach_metadata channel level average_move l) recs of
     Inl e \<Rightarrow> (Inl e, p) | Inr recs' \<Rightarrow> (Inr recs', p'))"
proof -
  have "json_dumps_ok (VDict (breach_metadata channel level average_move l))" using assms by (simp add: breach_metadata_def)
  from emit_accepts [OF this refl, of clk asset u target esc q recs] show ?thesis by (auto simp: returns_def)
qed

lemma abs_nonneg: "x \<noteq> NaN \<Longrightarrow> f_le (Fin 0) (f_abs x)"
  by (cases x) (auto simp: f_le_def)

lemma move_finite:
  assumes "f_le (Fin 0) mv \<or> mv = NaN" "0 \<le> m" "current = Fin x" "level = Fin y"
    "f_lt (f_add level (f_mul (Fin m) mv)) current \<or> f_lt current (f_sub level (f_mul (Fin m) mv))"
  shows "is_finite mv"
  using assms by (cases mv) (auto simp: f_le_def f_infinite_def f_sub_def split: if_splits)

lemma finite_diff: "f_sub (Fin a) (Fin b) \<noteq> NaN"
  by (auto simp: f_sub_def to_float_def Let_def)

lemma diff_not_nan: "list_all is_finite xs \<Longrightarrow> x \<in> set (np_diff xs) \<Longrightarrow> x \<noteq> NaN"
proof -
  assume fin: "list_all is_finite xs" and x: "x \<in> set (np_diff xs)"
  obtain a b where ab: "x = f_sub a b" "a \<in> set (tl xs)" "b \<in> set (butlast xs)"
    using x by (auto simp: np_diff_def dest: set_zip_leftD set_zip_rightD)
  have "a \<in> set xs" "b \<in> set xs" using ab(2,3) by (auto intro: list.set_sel(2) in_set_butlastD dest: list.set_sel(2) [rotated])
  then have "is_finite a" "is_finite b" using fin by (auto simp: list_all_iff)
  then show "x \<noteq> NaN" unfolding ab(1) by (cases a; cases b) (simp_all add: finite_diff)
qed

lemma breach_asset_total:
  assumes np: "stats_laws np" and par: "0 \<le> m" "2 \<le> l" "l < t"
    and buf: "\<forall>r\<in>set buf. \<exists>x. to_float (last_reading r) = Fin x \<and> 0 < x" and e: "dict_get (po_equipment p) a = Some asset"
  shows "returns (breach_asset np clk l (Fin m) t (a, buf) recs p)"
proof (cases "int (length buf) < t")
  case True
  then show ?thesis by (simp add: breach_asset_def returns_done)
next
  case False
  define xs where "xs = map (\<lambda>r. to_float (last_reading r)) buf"
  have pos: "\<forall>v\<in>set xs. \<exists>x. v = Fin x \<and> 0 < x" using buf by (auto simp: xs_def)
  have xs: "buffer_values buf = Inr xs"
    using pos by (auto simp: buffer_values_def xs_def [symmetric] Let_def not_positive_def list_ex_iff f_le_def)
  have len: "xs \<noteq> []" "nat l + 1 \<le> length xs" using False par by (auto simp: xs_def)
  define w where "w = history_window l xs"
  have w: "w \<noteq> []" "set w \<subseteq> set xs"
    using len par by (auto simp: w_def history_window_def butlast_conv_take dest: in_set_takeD in_set_dropD)
  have fin: "list_all is_finite w" using w(2) pos by (force simp: list_all_iff)
  then obtain u v where uv: "np_max np w = Fin u" "np_min np w = Fin v"
    using np w(1) unfolding stats_laws_def by (metis is_finite.elims(2))
  obtain c where c: "last xs = Fin c" using pos len(1) by (metis last_in_set)
  let ?mv = "np_mean np (map f_abs (np_diff w))"
  have "list_all (f_le (Fin 0)) (map f_abs (np_diff w))" using diff_not_nan [OF fin] by (auto simp: list_all_iff intro: abs_nonneg)
  then have mv: "f_le (Fin 0) ?mv \<or> ?mv = NaN" using np unfolding stats_laws_def by blast
  note ok = move_finite [OF mv par(1) c]
  note hi = ok [OF uv(1), unfolded uv c] and lo = ok [OF uv(2), unfolded uv c]
  show ?thesis
    unfolding breach_asset_def Let_def prod.case xs sum.case e option.case w_def [symmetric] uv c
    by (intro returns_if returns_done returns_div returns_emit) (use hi lo in auto)
qed

lemma latest_subset: "set (latest n (readings_of a rs)) \<subseteq> set rs"
  by (auto simp: latest_def readings_of_def dest: in_set_dropD)

lemma breach_loop_total:
  assumes "stats_laws np" "0 \<le> m" "2 \<le> l" "l < t"
    "\<forall>(a, buf)\<in>set xs. a \<in> set (dict_keys (po_equipment p)) \<and>
       (\<forall>r\<in>set buf. \<exists>x. to_float (last_reading r) = Fin x \<and> 0 < x)"
  shows "returns (over_assets (breach_asset np clk l (Fin m) t) xs recs p)"
  using assms(5)
proof (induction xs arbitrary: recs p)
  case (Cons x xs)
  obtain a buf where x: "x = (a, buf)" by fastforce
  have "a \<in> set (dict_keys (po_equipment p))" using Cons.prems by (auto simp: x)
  then obtain e where e: "dict_get (po_equipment p) a = Some e" by (metis dict_get_None not_Some_eq)
  have "\<forall>r\<in>set buf. \<exists>v. to_float (last_reading r) = Fin v \<and> 0 < v" using Cons.prems by (auto simp: x)
  from breach_asset_total [OF assms(1-4) this e, of clk recs] obtain recs1 p1 where
    s: "breach_asset np clk l (Fin m) t (a, buf) recs p = (Inr recs1, p1)" unfolding returns_def by blast
  have "po_equipment p1 = po_equipment p"
    using breach_asset_effect [of a p recs np clk l "Fin m" t buf] by (simp add: s breach_effect_def same_policy_def)
  then have "returns (over_assets (breach_asset np clk l (Fin m) t) xs recs1 p1)" using Cons.prems by (intro Cons.IH) auto
  then show ?case by (simp add: x andthen_def s)
qed (simp add: ret_def returns_def)

lemma breach_generate_total:
  assumes np: "stats_laws np" and r: "breach_run np rs p"
    and pos: "\<forall>r\<in>set rs. \<exists>x. to_float (last_reading r) = Fin x \<and> 0 < x"
  shows "returns (breach_generate np clk p)"
proof -
  obtain l m t where par: "breach_parameters (po_parameters p) l m t" and b: "buffers_hold 500 rs p"
    using breach_run_ok [OF r] by blast
  have "returns (over_assets (breach_asset np clk l (Fin m) t) (po_buffer p) [] p)"
  proof (rule breach_loop_total [OF np])
    show "0 \<le> m" "2 \<le> l" "l < t" using par by (auto simp: breach_parameters_def)
    show "\<forall>(a, buf)\<in>set (po_buffer p). a \<in> set (dict_keys (po_equipment p)) \<and>
       (\<forall>r\<in>set buf. \<exists>x. to_float (last_reading r) = Fin x \<and> 0 < x)"
    proof (clarify, intro conjI ballI)
      fix a buf assume m: "(a, buf) \<in> set (po_buffer p)"
      then have k: "a \<in> set (dict_keys (po_buffer p))" by force
      then show "a \<in> set (dict_keys (po_equipment p))" using b unfolding buffers_hold_def by metis
      have "buf = latest 500 (readings_of a rs)"
        using b k m dict_get_iff unfolding buffers_hold_def by (metis option.inject)
      then have "set buf \<subseteq> set rs" using latest_subset by simp
      then show "\<exists>x. to_float (last_reading r) = Fin x \<and> 0 < x" if "r \<in> set buf" for r using pos that by blast
    qed
  qed
  then show ?thesis using par
    by (auto simp: returns_def breach_generate_def breach_parameters_def andthen_def finish_def modify_def ret_def)
qed

section \<open>Imbalance\<close>

lemma emit_length: "emit clk asset u target esc confidence metadata recs = Inr recs' \<Longrightarrow> length recs' = Suc (length recs)"
  by (auto dest: emit_cases)

lemma emit_pair_length: "emit_pair clk x y c = Inr recs \<Longrightarrow> length recs = 2"
  by (auto simp: emit_pair_def dest!: emit_length split: prod.splits sum.splits)

text \<open>Two recommendations come with every change of the imbalance, and only with one.\<close>

lemma imbalance_step_changes:
  assumes "imbalance_step clk entry_z exit_z a b z gap active = Inr (recs, active')"
  shows "if active' = active then recs = [] else length recs = 2"
  using assms by (auto simp: imbalance_step_def map_sum_Inr dest: emit_pair_length split: if_splits prod.splits sum.splits)

end
