(* ===== verification/Serializer.thy ===== *)
theory Serializer
  imports Store Operations
begin

text \<open>
  Deterministic JSON, \<^verbatim>\<open>mittelwerk/utils/serializer.py\<close>. Python objects are values with references into
  a heap of containers, so that sharing and cycles can be told apart. The text of JSON is kept as a
  tree with its literals: writing and reading the characters is the library's \<^verbatim>\<open>json\<close> module, a
  parameter.
\<close>

section \<open>Objects\<close>

datatype obj = ONone | OBool bool | OInt int | OFloat pyfloat | OStr string | ODecimal "rat option"
  | ODateTime datetime | ODate string | OEnum obj | ORef nat

text \<open>
  A model with its dump, a dataclass with its fields, a mapping, a sequence, an instance of classes with
  slots (the slots of each class, and the attributes that are set), or anything else.
\<close>

datatype container = Dumped obj | Fields "(string \<times> obj) list" | Entries "(obj \<times> obj) list" | Items "obj list"
  | Slotted "string list list" "(string \<times> obj) list" | Opaque

definition private_name :: "string \<Rightarrow> bool" where
  "private_name n \<longleftrightarrow> n \<noteq> [] \<and> hd n = CHR ''_''"

definition slot_names :: "string list list \<Rightarrow> string list" where
  "slot_names classes = rev (remdups (rev (filter (\<lambda>n. \<not> private_name n) (concat classes))))"

text \<open>The named values of a container: the keys of a mapping must be strings.\<close>

fun string_entries :: "(obj \<times> obj) list \<Rightarrow> (exn + string \<times> obj) list" where
  "string_entries [] = []"
| "string_entries ((OStr k, v) # es) = Inr (k, v) # string_entries es"
| "string_entries (_ # es) = Inl TypeError # string_entries es"

fun named_values :: "container \<Rightarrow> (exn + string \<times> obj) list" where
  "named_values (Fields fs) = map Inr (filter (\<lambda>(n, v). \<not> private_name n) fs)"
| "named_values (Entries es) = string_entries es"
| "named_values (Slotted classes attrs) =
     concat (map (\<lambda>n. case dict_get attrs n of None \<Rightarrow> [] | Some v \<Rightarrow> [Inr (n, v)]) (slot_names classes))"
| "named_values _ = []"

lemma map_exn_cong [fundef_cong]:
  "xs = ys \<Longrightarrow> (\<And>y. y \<in> set ys \<Longrightarrow> f y = g y) \<Longrightarrow> map_exn f xs = map_exn g ys"
  by (induction xs arbitrary: ys) (auto split: sum.split)

definition named :: "(obj \<Rightarrow> exn + pyval) \<Rightarrow> exn + string \<times> obj \<Rightarrow> exn + string \<times> pyval" where
  "named f x = (case x of Inl e \<Rightarrow> Inl e | Inr (n, v) \<Rightarrow> map_sum id (Pair n) (f v))"

lemma named_cong [fundef_cong]: "x = y \<Longrightarrow> (\<And>n v. y = Inr (n, v) \<Longrightarrow> f v = g v) \<Longrightarrow> named f x = named g y"
  by (auto simp: named_def split: sum.splits prod.splits)

lemma unseen_less: "\<not> length h \<le> i \<Longrightarrow> i \<notin> set seen \<Longrightarrow>
   card ({..<length h} - set seen) - Suc 0 < card ({..<length h} - set seen)"
proof -
  assume i: "\<not> length h \<le> i" "i \<notin> set seen"
  then have "i \<in> {..<length h} - set seen" by simp
  then have "0 < card ({..<length h} - set seen)" by (metis card_gt_0_iff empty_iff finite_Diff finite_lessThan)
  then show ?thesis by simp
qed

function json_compatible :: "container list \<Rightarrow> nat list \<Rightarrow> obj \<Rightarrow> exn + pyval" where
  "json_compatible h seen ONone = Inr VNone"
| "json_compatible h seen (OBool b) = Inr (VBool b)"
| "json_compatible h seen (OInt n) = Inr (VInt n)"
| "json_compatible h seen (OStr s) = Inr (VStr s)"
| "json_compatible h seen (OFloat x) = (if is_finite x then Inr (VFloat x) else Inl ValueError)"
| "json_compatible h seen (ODecimal d) = (case d of None \<Rightarrow> Inl ValueError | Some x \<Rightarrow> Inr (VNumText x))"
| "json_compatible h seen (ODateTime t) = (case t of Naive _ \<Rightarrow> Inl ValueError | Aware _ _ \<Rightarrow> Inr (VTimeText t))"
| "json_compatible h seen (ODate text) = Inr (VStr text)"
| "json_compatible h seen (OEnum v) = json_compatible h seen v"
| "json_compatible h seen (ORef i) =
     (if i \<in> set seen then Inl ValueError
      else if length h \<le> i then Inl TypeError
      else case h ! i of
          Dumped v \<Rightarrow> json_compatible h (i # seen) v
        | Items vs \<Rightarrow> map_sum id VList (map_exn (\<lambda>v. json_compatible h (i # seen) v) vs)
        | Opaque \<Rightarrow> Inl TypeError
        | Slotted classes attrs \<Rightarrow>
            if slot_names classes = [] then Inl TypeError
            else map_sum id VDict (map_exn (\<lambda>x. named (\<lambda>v. json_compatible h (i # seen) v) x) (named_values (Slotted classes attrs)))
        | c \<Rightarrow> map_sum id VDict (map_exn (\<lambda>x. named (\<lambda>v. json_compatible h (i # seen) v) x) (named_values c)))"
  by pat_completeness auto

termination
  by (relation "inv_image (less_than <*lex*> less_than) (\<lambda>(h, seen, v). (card ({..<length h} - set seen), size v))")
    (auto intro!: unseen_less)

section \<open>JSON text\<close>

datatype json_text = TNull | TBool bool | TInt int | TReal rat | TConstant pyfloat | TString string
  | TNumText rat | TTimeText datetime | TArray "json_text list" | TObject "(string \<times> json_text) list"

text \<open>
  What \<^verbatim>\<open>json.dumps(value, sort_keys=True)\<close> writes. A float is written as the shortest decimal that reads back
  as the float.
\<close>

fun json_tree :: "pyval \<Rightarrow> json_text" where
  "json_tree VNone = TNull"
| "json_tree (VBool b) = TBool b"
| "json_tree (VInt n) = TInt n"
| "json_tree (VFloat (Fin x)) = TReal (float_text x)"
| "json_tree (VFloat x) = TConstant x"
| "json_tree (VNum x) = TNumText x"
| "json_tree (VStr s) = TString s"
| "json_tree (VNumText x) = TNumText x"
| "json_tree (VTimeText t) = TTimeText t"
| "json_tree (VList vs) = TArray (map json_tree vs)"
| "json_tree (VDict d) = TObject (sort_key fst (map (\<lambda>(k, v). (k, json_tree v)) d))"

definition to_json :: "(bool \<Rightarrow> json_text \<Rightarrow> string) \<Rightarrow> container list \<Rightarrow> obj \<Rightarrow> bool \<Rightarrow> exn + string" where
  "to_json write h v pretty = map_sum id (\<lambda>j. write pretty (json_tree j)) (json_compatible h [] v)"

definition reject_non_finite_constant :: "pyfloat \<Rightarrow> exn + pyval" where
  "reject_non_finite_constant x = Inl ValueError"

fun strict_object :: "(string \<times> pyval) list \<Rightarrow> (string, pyval) dict \<Rightarrow> exn + pyval" where
  "strict_object [] result = Inr (VDict result)"
| "strict_object ((k, v) # kvs) result =
     (if k \<in> set (dict_keys result) then Inl ValueError else strict_object kvs (dict_set k v result))"

text \<open>\<^verbatim>\<open>json.loads\<close> on the parsed text: constants and objects go through the hooks, numbers with a point or
  an exponent are read by \<^verbatim>\<open>float\<close>.\<close>

lemma member_size:
  "t \<in> set ts \<Longrightarrow> size t \<le> size_list size ts"
  "(k, t) \<in> set kts \<Longrightarrow> size t \<le> size_list (size_prod (\<lambda>x. 0) size) kts"
  by (rule size_list_estimation', assumption, simp)+

function load_tree :: "json_text \<Rightarrow> exn + pyval" where
  "load_tree TNull = Inr VNone"
| "load_tree (TBool b) = Inr (VBool b)"
| "load_tree (TInt n) = Inr (VInt n)"
| "load_tree (TReal x) = Inr (VFloat (to_float x))"
| "load_tree (TConstant x) = reject_non_finite_constant x"
| "load_tree (TString s) = Inr (VStr s)"
| "load_tree (TNumText x) = Inr (VNumText x)"
| "load_tree (TTimeText t) = Inr (VTimeText t)"
| "load_tree (TArray ts) = map_sum id VList (map_exn load_tree ts)"
| "load_tree (TObject kts) =
     (case map_exn (\<lambda>kt. map_sum id (Pair (fst kt)) (load_tree (snd kt))) kts of
        Inl e \<Rightarrow> Inl e | Inr kvs \<Rightarrow> strict_object kvs [])"
  by pat_completeness auto
termination
  by (relation "measure size") (auto simp: less_Suc_eq_le intro: member_size)

text \<open>\<open>parse\<close> reads the characters; without a value the text is not JSON.\<close>

definition from_json :: "(string \<Rightarrow> json_text option) \<Rightarrow> pyval \<Rightarrow> exn + pyval" where
  "from_json parse data = (case data of
      VStr s \<Rightarrow> (case parse s of None \<Rightarrow> Inl ValueError | Some t \<Rightarrow> load_tree t)
    | _ \<Rightarrow> Inl TypeError)"

section \<open>Bytes\<close>

definition to_binary :: "(bool \<Rightarrow> json_text \<Rightarrow> string) \<Rightarrow> container list \<Rightarrow> obj \<Rightarrow> exn + nat list" where
  "to_binary write h v = map_sum id (map of_char) (to_json write h v False)"

text \<open>\<open>decode\<close> is the UTF-8 decoder; the input is bytes-like or not.\<close>

definition from_binary :: "(nat list \<Rightarrow> string option) \<Rightarrow> (string \<Rightarrow> json_text option) \<Rightarrow> nat list option \<Rightarrow> exn + pyval" where
  "from_binary decode parse data = (case data of
      None \<Rightarrow> Inl TypeError
    | Some bytes \<Rightarrow> (case decode bytes of None \<Rightarrow> Inl ValueError | Some text \<Rightarrow> from_json parse (VStr text)))"

section \<open>Rounding to a tick\<close>

text \<open>\<^verbatim>\<open>Decimal(str(v))\<close> of a float or a decimal; no value if it is not finite.\<close>

definition decimal_text_value :: "pyval \<Rightarrow> exn + rat option" where
  "decimal_text_value v = (case v of
      VFloat (Fin x) \<Rightarrow> Inr (Some (float_text x)) | VFloat x \<Rightarrow> Inr None
    | VInt n \<Rightarrow> Inr (Some (of_int n)) | VNum x \<Rightarrow> Inr (Some x) | VNumText x \<Rightarrow> Inr (Some x)
    | _ \<Rightarrow> Inl InvalidOperation)"

definition round_decimal :: "pyval \<Rightarrow> pyval \<Rightarrow> exn + rat" where
  "round_decimal value tick_size =
     (case decimal_text_value value of Inl e \<Rightarrow> Inl e | Inr dv \<Rightarrow>
      (case decimal_text_value tick_size of Inl e \<Rightarrow> Inl e | Inr dt \<Rightarrow>
       (case dv of None \<Rightarrow> Inl ValueError | Some x \<Rightarrow>
        (case dt of None \<Rightarrow> Inl ValueError | Some tick \<Rightarrow>
         if tick \<le> 0 then Inl ValueError
         else (case dec_div x tick of Inl e \<Rightarrow> Inl e | Inr q \<Rightarrow>
          (case quantize_one q of Inl e \<Rightarrow> Inl e | Inr ticks \<Rightarrow> Inr (dec_mul ticks tick)))))))"

end
