(* ===== verification/SerializerLaws.thy ===== *)
theory SerializerLaws
  imports Serializer StoreLaws
begin

text \<open>
  What is written is strict JSON and reads back as the same value with its keys sorted; duplicate
  keys and constants are refused, a number literal beyond the range of the floats is not.
\<close>

section \<open>Floats\<close>

lemma float_text_reads_back:
  assumes "fl x = x"
  shows "fl (float_text x) = x"
proof (cases "concat (map (short_candidates x) [1..<18])")
  case Nil
  then show ?thesis unfolding float_text_def Nil using assms by simp
next
  case (Cons y ys)
  then have "y \<in> set (concat (map (short_candidates x) [1..<18]))" by simp
  then have "fl y = x" by (auto simp: short_candidates_def Let_def)
  then show ?thesis using Cons by (simp add: float_text_def)
qed

lemma float_text_to_float: "fl_rep x \<Longrightarrow> to_float (float_text x) = Fin x"
  using float_text_reads_back [of x] by (auto simp: to_float_def fl_rep_def Let_def)

section \<open>Values that are JSON\<close>

fun json_ok :: "pyval \<Rightarrow> bool" where
  "json_ok (VFloat x) = (is_finite x \<and> f_ok x)"
| "json_ok (VNum x) = False"
| "json_ok (VList vs) = list_all json_ok vs"
| "json_ok (VDict d) = (dict_ok d \<and> list_all (\<lambda>(k, v). json_ok v) d)"
| "json_ok v = True"

fun obj_ok :: "obj \<Rightarrow> bool" where
  "obj_ok (OFloat x) = f_ok x"
| "obj_ok (OEnum v) = obj_ok v"
| "obj_ok v = True"

text \<open>The names of fields and attributes and the keys of a mapping are distinct, floats are floats.\<close>

fun container_ok :: "container \<Rightarrow> bool" where
  "container_ok (Dumped v) = obj_ok v"
| "container_ok (Fields fs) = (dict_ok fs \<and> list_all (obj_ok \<circ> snd) fs)"
| "container_ok (Entries es) = (dict_ok es \<and> list_all (obj_ok \<circ> snd) es)"
| "container_ok (Items vs) = list_all obj_ok vs"
| "container_ok (Slotted classes attrs) = (dict_ok attrs \<and> list_all (obj_ok \<circ> snd) attrs)"
| "container_ok Opaque = True"

lemma map_exn_Inr: "map_exn f xs = Inr ys \<longleftrightarrow> list_all2 (\<lambda>x y. f x = Inr y) xs ys"
proof (induction xs arbitrary: ys)
  case (Cons x xs)
  then show ?case by (cases ys; cases "f x"; cases "map_exn f xs") (auto split: sum.splits)
qed (auto simp: list_all2_Nil)

lemma string_entries_keys:
  "Inr (k, v) \<in> set (string_entries es) \<Longrightarrow> (OStr k, v) \<in> set es"
  by (induction es rule: string_entries.induct) auto

definition entry_names :: "(exn + string \<times> obj) list \<Rightarrow> string list" where
  "entry_names xs = concat (map (\<lambda>x. case x of Inl e \<Rightarrow> [] | Inr (n, v) \<Rightarrow> [n]) xs)"

lemma string_entries_distinct: "dict_ok es \<Longrightarrow> distinct (entry_names (string_entries es))"
proof (induction es rule: string_entries.induct)
  case (2 k v es)
  have "k \<notin> set (entry_names (string_entries es))"
    using 2 string_entries_keys by (force simp: entry_names_def dict_ok_def split: sum.splits)
  with 2 show ?case by (simp add: entry_names_def dict_ok_def)
qed (auto simp: entry_names_def dict_ok_def)

lemma distinct_slot_names: "distinct (slot_names classes)"
  by (simp add: slot_names_def)

lemma slotted_names: "entry_names (named_values (Slotted classes attrs)) = filter (\<lambda>n. dict_get attrs n \<noteq> None) (slot_names classes)"
proof -
  have "entry_names (concat (map (\<lambda>n. case dict_get attrs n of None \<Rightarrow> [] | Some v \<Rightarrow> [Inr (n, v)]) ns)) =
    filter (\<lambda>n. dict_get attrs n \<noteq> None) ns" for ns
    by (induction ns) (auto simp: entry_names_def split: option.splits)
  then show ?thesis by simp
qed

lemma named_values_distinct: "container_ok c \<Longrightarrow> distinct (entry_names (named_values c))"
proof (cases c)
  case (Fields fs)
  have "entry_names (map Inr xs) = map fst xs" for xs :: "(string \<times> obj) list"
    by (induction xs) (auto simp: entry_names_def)
  moreover assume "container_ok c"
  ultimately show ?thesis using Fields by (simp add: dict_ok_def distinct_map_filter)
next
  case (Entries es)
  moreover assume "container_ok c"
  ultimately show ?thesis by (simp add: string_entries_distinct)
next
  case (Slotted classes attrs)
  then show ?thesis using slotted_names distinct_slot_names by simp
qed (simp_all add: entry_names_def)

lemma named_values_ok: "container_ok c \<Longrightarrow> Inr (n, v) \<in> set (named_values c) \<Longrightarrow> obj_ok v"
  by (cases c) (auto simp: list_all_iff dest!: string_entries_keys map_of_SomeD [OF sym] split: option.splits)

lemma named_keys:
  "list_all2 (\<lambda>x y. named f x = Inr y) xs kvs \<Longrightarrow> dict_keys kvs = entry_names xs"
  by (induction rule: list_all2_induct)
    (auto simp: named_def entry_names_def map_sum_Inr split: sum.splits prod.splits)

lemma json_items_ok:
  assumes "list_all2 (\<lambda>v y. f v = Inr y) vs js" "\<forall>v\<in>set vs. \<forall>j. f v = Inr j \<longrightarrow> json_ok j"
  shows "list_all json_ok js"
  using assms by (induction rule: list_all2_induct) auto

lemma json_dict_ok:
  assumes c: "container_ok c" and l: "list_all2 (\<lambda>x y. named f x = Inr y) (named_values c) kvs"
    and f: "\<forall>n v. Inr (n, v) \<in> set (named_values c) \<longrightarrow> (\<forall>j. f v = Inr j \<longrightarrow> json_ok j)"
  shows "json_ok (VDict kvs)"
proof -
  have "dict_ok kvs" using named_keys [OF l] named_values_distinct [OF c] by (simp add: dict_ok_def)
  moreover have "json_ok j" if m: "(k, j) \<in> set kvs" for k j
  proof -
    obtain n where "n < length kvs" "kvs ! n = (k, j)" using m by (auto simp: in_set_conv_nth)
    then have "named_values c ! n \<in> set (named_values c)" "named f (named_values c ! n) = Inr (k, j)"
      using l by (auto simp: list_all2_conv_all_nth)
    with f show ?thesis by (auto simp: named_def map_sum_Inr split: sum.splits)
  qed
  ultimately show ?thesis by (auto simp: list_all_iff)
qed

lemma json_compatible_ok:
  "\<forall>c\<in>set h. container_ok c \<Longrightarrow> obj_ok v \<Longrightarrow> json_compatible h seen v = Inr j \<Longrightarrow> json_ok j"
proof (induction h seen v arbitrary: j rule: json_compatible.induct)
  case (10 h seen i)
  note ok = 10(6) and res = 10(8)
  have i: "i \<notin> set seen" "\<not> length h \<le> i" using res by (auto split: if_splits)
  then have c: "container_ok (h ! i)" using ok by simp
  let ?f = "\<lambda>v. json_compatible h (i # seen) v"
  show ?case
  proof (cases "h ! i")
    case (Dumped v)
    with 10(1) [OF i Dumped ok] c res i show ?thesis by simp
  next
    case (Fields fs)
    with res i obtain kvs where "j = VDict kvs" "list_all2 (\<lambda>x y. named ?f x = Inr y) (named_values (Fields fs)) kvs"
      by (auto simp: map_sum_Inr map_exn_Inr)
    then show ?thesis using json_dict_ok [of "Fields fs" ?f kvs] c 10(2) [OF i Fields _ _ ok] named_values_ok
      unfolding Fields by blast
  next
    case (Entries es)
    with res i obtain kvs where "j = VDict kvs" "list_all2 (\<lambda>x y. named ?f x = Inr y) (named_values (Entries es)) kvs"
      by (auto simp: map_sum_Inr map_exn_Inr)
    then show ?thesis using json_dict_ok [of "Entries es" ?f kvs] c 10(3) [OF i Entries _ _ ok] named_values_ok
      unfolding Entries by blast
  next
    case (Items vs)
    with res i obtain js where "j = VList js" "list_all2 (\<lambda>v y. ?f v = Inr y) vs js"
      by (auto simp: map_sum_Inr map_exn_Inr)
    moreover have "\<forall>v\<in>set vs. \<forall>j. ?f v = Inr j \<longrightarrow> json_ok j"
      using c Items 10(4) [OF i Items _ ok] by (auto simp: list_all_iff)
    ultimately show ?thesis using json_items_ok by auto
  next
    case (Slotted classes attrs)
    with res i obtain kvs where "slot_names classes \<noteq> []" "j = VDict kvs"
      "list_all2 (\<lambda>x y. named ?f x = Inr y) (named_values (Slotted classes attrs)) kvs"
      by (auto simp: map_sum_Inr map_exn_Inr split: if_splits)
    then show ?thesis using json_dict_ok [of "Slotted classes attrs" ?f kvs] c 10(5) [OF i Slotted _ _ _ ok] named_values_ok
      unfolding Slotted by blast
  next
    case Opaque
    with res i show ?thesis by simp
  qed
qed (auto split: if_splits option.splits datetime.splits)

section \<open>Round trip\<close>

fun sorted_keys_value :: "pyval \<Rightarrow> pyval" where
  "sorted_keys_value (VList vs) = VList (map sorted_keys_value vs)"
| "sorted_keys_value (VDict d) = VDict (sort_key fst (map (\<lambda>(k, v). (k, sorted_keys_value v)) d))"
| "sorted_keys_value v = v"

lemma strict_object_distinct:
  "distinct (dict_keys (r @ kvs)) \<Longrightarrow> strict_object kvs r = Inr (VDict (r @ kvs))"
proof (induction kvs arbitrary: r)
  case (Cons kv kvs)
  then show ?case by (cases kv) (simp add: dict_set_new)
qed simp

lemma strict_object_duplicate: "\<not> distinct (dict_keys (r @ kvs)) \<Longrightarrow> distinct (dict_keys r) \<Longrightarrow> strict_object kvs r = Inl ValueError"
proof (induction kvs arbitrary: r)
  case (Cons kv kvs)
  obtain k v where kv: "kv = (k, v)" by fastforce
  show ?case
  proof (cases "k \<in> set (dict_keys r)")
    case False
    then have "dict_set k v r = r @ [(k, v)]" by (rule dict_set_new)
    with Cons.IH [of "r @ [(k, v)]"] Cons.prems False show ?thesis by (auto simp: kv)
  qed (simp add: kv)
qed simp

lemma map_exn_map: "map_exn f (map g xs) = map_exn (f \<circ> g) xs"
  by (induction xs) (auto split: sum.splits)

lemma load_json_tree: "json_ok j \<Longrightarrow> load_tree (json_tree j) = Inr (sorted_keys_value j)"
proof (induction j)
  case (VFloat x)
  then show ?case by (cases x) (auto simp: float_text_to_float)
next
  case (VList vs)
  then have "map_exn load_tree (map json_tree vs) = Inr (map sorted_keys_value vs)"
    by (subst map_exn_map) (auto simp: list_all_iff intro: map_exn_all)
  then show ?case by simp
next
  case (VDict d)
  let ?s = "sort_key fst d"
  have "json_tree (VDict d) = TObject (map (\<lambda>(k, v). (k, json_tree v)) ?s)"
    by (simp add: sort_key_mapped comp_def case_prod_unfold)
  moreover have "map_exn (\<lambda>kt. map_sum id (Pair (fst kt)) (load_tree (snd kt))) (map (\<lambda>(k, v). (k, json_tree v)) ?s) =
      Inr (map (\<lambda>(k, v). (k, sorted_keys_value v)) ?s)"
  proof -
    have "load_tree (json_tree v) = Inr (sorted_keys_value v)" if m: "(k, v) \<in> set d" for k v
    proof (rule VDict.IH [OF m])
      show "v \<in> Basic_BNFs.snds (k, v)" by simp
      show "json_ok v" using VDict.prems m by (auto simp: list_all_iff)
    qed
    then show ?thesis by (subst map_exn_map) (auto intro!: map_exn_all)
  qed
  moreover have "distinct (dict_keys (map (\<lambda>(k, v). (k, sorted_keys_value v)) ?s))"
  proof -
    have "distinct (map fst ?s)" using VDict.prems distinct_map_mset [of ?s d fst] by (simp add: dict_ok_def)
    then show ?thesis by (simp add: comp_def case_prod_unfold)
  qed
  then have "strict_object (map (\<lambda>(k, v). (k, sorted_keys_value v)) ?s) [] = Inr (VDict (map (\<lambda>(k, v). (k, sorted_keys_value v)) ?s))"
    using strict_object_distinct [of "[]"] by simp
  ultimately show ?case by (simp add: sort_key_mapped comp_def case_prod_unfold)
qed simp_all

definition json_library :: "(bool \<Rightarrow> json_text \<Rightarrow> string) \<Rightarrow> (string \<Rightarrow> json_text option) \<Rightarrow> bool" where
  "json_library write parse \<longleftrightarrow> (\<forall>pretty t. parse (write pretty t) = Some t)"

lemma json_roundtrip:
  assumes "json_library write parse" "\<forall>c\<in>set h. container_ok c" "obj_ok v" "to_json write h v pretty = Inr text"
  shows "\<exists>j. json_compatible h [] v = Inr j \<and> json_ok j \<and> from_json parse (VStr text) = Inr (sorted_keys_value j)"
proof -
  obtain j where j: "json_compatible h [] v = Inr j" "text = write pretty (json_tree j)"
    using assms(4) by (auto simp: to_json_def map_sum_Inr)
  have "json_ok j" using json_compatible_ok [OF assms(2,3) j(1)] .
  with j assms(1) show ?thesis by (simp add: from_json_def json_library_def load_json_tree)
qed

section \<open>What is refused\<close>

lemma duplicate_key_refused:
  assumes "parse text = Some (TObject kts)" "\<not> distinct (map fst kts)"
    "\<forall>(k, t)\<in>set kts. \<exists>v. load_tree t = Inr v"
  shows "from_json parse (VStr text) = Inl ValueError"
proof -
  define g where "g x = (case load_tree (snd x) of Inr v \<Rightarrow> v | Inl e \<Rightarrow> VNone)" for x :: "string \<times> json_text"
  have g: "load_tree (snd x) = Inr (g x)" if "x \<in> set kts" for x using assms(3) that by (auto simp: g_def)
  have "map_exn (\<lambda>kt. map_sum id (Pair (fst kt)) (load_tree (snd kt))) kts = Inr (map (\<lambda>x. (fst x, g x)) kts)"
    using g by (intro map_exn_all) simp
  moreover have "strict_object (map (\<lambda>x. (fst x, g x)) kts) [] = Inl ValueError"
    using assms(2) by (intro strict_object_duplicate) (simp_all add: comp_def)
  ultimately show ?thesis using assms(1) by (simp add: from_json_def)
qed

lemma constant_refused: "parse text = Some (TConstant x) \<Longrightarrow> from_json parse (VStr text) = Inl ValueError"
  by (simp add: from_json_def reject_non_finite_constant_def)

text \<open>A literal that is too large for a float is read as an infinity, without passing a hook.\<close>

lemma to_float_large: "2 ^ 1024 \<le> x \<Longrightarrow> to_float x = PosInf"
proof -
  assume x: "2 ^ 1024 \<le> x"
  have "fl (2 powi 1024) = 2 powi 1024" unfolding fl_def using rnd_powi [of 2 53 "- 1074" 1024] by simp
  then have "2 powi 1024 \<le> fl x" using x by (intro fl_ge_rep) (simp_all add: power_int_def)
  then show ?thesis by (simp add: to_float_def Let_def power_int_def)
qed

lemma large_literal_accepted:
  "parse text = Some (TReal x) \<Longrightarrow> 2 ^ 1024 \<le> x \<Longrightarrow> from_json parse (VStr text) = Inr (VFloat PosInf)"
  by (simp add: from_json_def to_float_large del: power_numeral_even power_numeral_odd)

end
