(* ===== verification/Feed.thy ===== *)
theory Feed
  imports Events Operations Texts
begin

text \<open>
  The telemetry feeds, \<^verbatim>\<open>mittelwerk/telemetry/feed.py\<close>: the simulated feed as the production of one
  reading after the other, and the WebSocket adapter as a state machine driven by its transport.
  The random generator, \<^verbatim>\<open>exp\<close>, \<^verbatim>\<open>sqrt\<close> and the power, the reading of ISO time stamps and of JSON text
  are parameters.
\<close>

section \<open>The simulator\<close>

record 'g random_source =
  rs_gauss :: "'g \<Rightarrow> pyfloat \<times> 'g"
  rs_uniform :: "pyfloat \<Rightarrow> pyfloat \<Rightarrow> 'g \<Rightarrow> pyfloat \<times> 'g"
  rs_randint :: "int \<Rightarrow> int \<Rightarrow> 'g \<Rightarrow> int \<times> 'g"

record math_functions =
  m_exp :: "pyfloat \<Rightarrow> exn + pyfloat"
  m_square :: "pyfloat \<Rightarrow> exn + pyfloat"
  m_sqrt :: "pyfloat \<Rightarrow> pyfloat"

record simulator =
  sim_value :: pyfloat
  sim_mu :: pyfloat
  sim_sigma :: pyfloat
  sim_dt :: pyfloat

text \<open>\<^verbatim>\<open>1.0 / (365.0 * 24.0 * 60.0)\<close>.\<close>

definition default_dt :: pyfloat where
  "default_dt = to_float (1 / 525600)"

definition default_mu :: pyfloat where
  "default_mu = to_float (1 / 10 ^ 4)"

definition new_simulator :: "pyfloat \<Rightarrow> pyfloat \<Rightarrow> pyfloat \<Rightarrow> pyfloat \<Rightarrow> bool \<Rightarrow> bool \<Rightarrow> exn + simulator" where
  "new_simulator initial mu sigma dt has_rng has_seed =
     (if f_le initial (Fin 0) \<or> \<not> is_finite initial then Inl ValueError
      else if \<not> is_finite mu then Inl ValueError
      else if f_lt sigma (Fin 0) \<or> \<not> is_finite sigma then Inl ValueError
      else if f_le dt (Fin 0) \<or> \<not> is_finite dt then Inl ValueError
      else if has_rng \<and> has_seed then Inl ValueError
      else Inr \<lparr>sim_value = initial, sim_mu = mu, sim_sigma = sigma, sim_dt = dt\<rparr>)"

text \<open>The draw of \<open>z\<close> comes first and stays taken when the arithmetic raises.\<close>

definition next_value :: "math_functions \<Rightarrow> 'g random_source \<Rightarrow> simulator \<Rightarrow> ('g, simulator) action" where
  "next_value m rs s g = (case rs_gauss rs g of (z, g') \<Rightarrow>
     (case m_square m (sim_sigma s) of Inl e \<Rightarrow> (Inl e, g') | Inr variance \<Rightarrow>
      (let drift = f_mul (f_sub (sim_mu s) (f_mul (Fin (1 / 2)) variance)) (sim_dt s);
           diffusion = f_mul (f_mul (sim_sigma s) (m_sqrt m (sim_dt s))) z
       in case m_exp m (f_add drift diffusion) of Inl e \<Rightarrow> (Inl e, g')
        | Inr factor \<Rightarrow> (Inr (s\<lparr>sim_value := f_mul (sim_value s) factor\<rparr>), g'))))"

section \<open>The simulated feed\<close>

record 'g feed =
  fd_assets :: "string list"
  fd_interval :: pyfloat
  fd_random :: 'g
  fd_simulators :: "(string, simulator) dict"
  fd_running :: bool
  fd_stopped :: bool
  fd_latest :: "(string, telemetry_reading) dict"
  fd_bus :: event_bus

definition base_readings :: "(string, pyfloat) dict" where
  "base_readings = [(''CNC-01'', Fin (193 / 2)), (''PRESS-04'', Fin 182), (''CONV-12'', Fin 68), (''ROBOT-07'', Fin (243 / 2)),
     (''COMP-03'', Fin 154), (''GEN-02'', Fin (415 / 2)), (''HVAC-09'', Fin 58), (''FORK-05'', Fin (147 / 2)),
     (''CNC-02'', Fin 104), (''PRESS-01'', Fin (353 / 2))]"

text \<open>\<^verbatim>\<open>dict.fromkeys\<close> keeps the first of equal identifiers; they are normalised afterwards.\<close>

definition normalised_assets :: "string list \<Rightarrow> string list" where
  "normalised_assets ids = map canonical (rev (remdups (rev ids)))"

definition new_feed :: "event_bus \<Rightarrow> string list option \<Rightarrow> pyfloat \<Rightarrow> bool \<Rightarrow> bool \<Rightarrow> 'g \<Rightarrow> exn + 'g feed" where
  "new_feed bus ids interval has_rng has_seed g =
     (if f_lt interval (Fin 0) \<or> \<not> is_finite interval then Inl ValueError
      else if has_rng \<and> has_seed then Inl ValueError
      else Inr \<lparr>fd_assets = normalised_assets (case ids of None \<Rightarrow> [] | Some l \<Rightarrow> l), fd_interval = interval, fd_random = g,
        fd_simulators = [], fd_running = False, fd_stopped = False, fd_latest = [], fd_bus = bus\<rparr>)"

text \<open>No reference reading is zero, so \<^verbatim>\<open>get(...) or ...\<close> draws exactly for the unknown assets.\<close>

fun fetch_initial_readings ::
  "'g random_source \<Rightarrow> string list \<Rightarrow> (string, pyfloat) dict \<Rightarrow> 'g \<Rightarrow> (string, pyfloat) dict \<times> 'g" where
  "fetch_initial_readings rs [] readings g = (readings, g)"
| "fetch_initial_readings rs (a # as) readings g = (case dict_get base_readings a of
      Some x \<Rightarrow> fetch_initial_readings rs as (dict_set a x readings) g
    | None \<Rightarrow> (case rs_uniform rs (Fin (-20)) (Fin 50) g of (u, g') \<Rightarrow>
        fetch_initial_readings rs as (dict_set a (f_add (Fin 100) u) readings) g'))"

fun make_simulators ::
  "'g random_source \<Rightarrow> (string, pyfloat) dict \<Rightarrow> (string, simulator) dict \<Rightarrow> ('g, (string, simulator) dict) action" where
  "make_simulators rs [] sims g = (Inr sims, g)"
| "make_simulators rs ((a, x) # rest) sims g =
     (case rs_uniform rs (to_float (1 / 10 ^ 2)) (to_float (4 / 10 ^ 2)) g of (sigma, g') \<Rightarrow>
      (case new_simulator x default_mu sigma default_dt True False of
         Inl e \<Rightarrow> (Inl e, g')
       | Inr s \<Rightarrow> make_simulators rs rest (dict_set a s sims) g'))"

definition start_feed :: "'g random_source \<Rightarrow> ('g feed, unit) action" where
  "start_feed rs f =
     (if fd_running f then (Inr (), f)
      else (case fetch_initial_readings rs (fd_assets f) [] (fd_random f) of (readings, g) \<Rightarrow>
       (case make_simulators rs readings [] g of
          (Inl e, g') \<Rightarrow> (Inl e, f\<lparr>fd_random := g'\<rparr>)
        | (Inr sims, g') \<Rightarrow> (Inr (), f\<lparr>fd_random := g', fd_simulators := sims, fd_stopped := False, fd_running := True\<rparr>))))"

definition stop_feed :: "('g feed, unit) action" where
  "stop_feed f = (if \<not> fd_running f then (Inr (), f) else (Inr (), f\<lparr>fd_running := False, fd_stopped := True\<rparr>))"

text \<open>\<^verbatim>\<open>round(x, 4)\<close>: the exact value is rounded to four places, half to even, and read as a float.\<close>

fun round_places :: "pyfloat \<Rightarrow> pyfloat" where
  "round_places (Fin x) = to_float (of_int (rhe (x * 10 ^ 4)) / 10 ^ 4)"
| "round_places x = x"

text \<open>\<^verbatim>\<open>Decimal(str(x))\<close> for a reading; the text of an infinity or NaN is not finite and is refused.\<close>

definition float_reading :: "pyfloat \<Rightarrow> rat option" where
  "float_reading x = (case x of Fin y \<Rightarrow> Some (float_text y) | _ \<Rightarrow> None)"

definition reading_of ::
  "string \<Rightarrow> rat option \<Rightarrow> rat option \<Rightarrow> rat option \<Rightarrow> int \<Rightarrow> datetime \<Rightarrow> exn + telemetry_reading" where
  "reading_of asset mn mx lst n stamp = (case (mn, mx, lst) of
      (Some a, Some b, Some c) \<Rightarrow> mk_telemetry_reading asset a b c n (Some stamp) 0
    | _ \<Rightarrow> Inl ValueError)"

definition reading_event :: "string \<Rightarrow> int \<Rightarrow> string \<Rightarrow> telemetry_reading \<Rightarrow> domain_event" where
  "reading_event uid now src r =
     \<lparr>event_id = uid, event_type = TELEMETRY_READING, ev_timestamp = Aware now 0, source = src, correlation_id = None,
      payload = [(''asset_id'', VStr (tr_asset r)), (''min_reading'', VNumText (min_reading r)),
        (''max_reading'', VNumText (max_reading r)), (''last_reading'', VNumText (last_reading r)),
        (''sample_count'', VInt (sample_count r)), (''timestamp'', VTimeText (tr_timestamp r))]\<rparr>"

text \<open>The body of the loop for one asset; \<open>now\<close> is the time of the reading, \<open>later\<close> that of its event.\<close>

definition produce_reading ::
  "math_functions \<Rightarrow> 'g random_source \<Rightarrow> string \<Rightarrow> int \<Rightarrow> int \<Rightarrow> string \<Rightarrow> simulator \<Rightarrow> ('g feed, telemetry_reading) action" where
  "produce_reading m rs uid now later asset s f = (case next_value m rs s (fd_random f) of
      (Inl e, g) \<Rightarrow> (Inl e, f\<lparr>fd_random := g\<rparr>)
    | (Inr s', g) \<Rightarrow>
       (let mid = sim_value s' in
        case rs_uniform rs (to_float (1 / 10 ^ 4)) (to_float (1 / 10 ^ 3)) g of (u, g1) \<Rightarrow>
        (let spread = f_mul mid u; half = f_mul spread (Fin (1 / 2)) in
        case rs_uniform rs (f_neg spread) spread g1 of (v, g2) \<Rightarrow>
        (case rs_randint rs 100 10000 g2 of (n, g3) \<Rightarrow>
         (let f' = f\<lparr>fd_random := g3, fd_simulators := dict_set asset s' (fd_simulators f)\<rparr> in
          case reading_of asset (float_reading (round_places (f_sub mid half))) (float_reading (round_places (f_add mid half)))
                 (float_reading (round_places (f_add mid (f_mul v (Fin (1 / 2)))))) n (Aware now 0) of
            Inl e \<Rightarrow> (Inl e, f')
          | Inr r \<Rightarrow> (Inr r, f'\<lparr>fd_latest := dict_set asset r (fd_latest f'),
                             fd_bus := publish (reading_event uid later ''telemetry_feed'' r) (fd_bus f')\<rparr>))))))"

text \<open>One pass over the simulators: it ends early when the feed is stopped between two readings (\<open>stops\<close>
  says after which asset the consumer stops it).\<close>

fun produce_pass ::
  "math_functions \<Rightarrow> 'g random_source \<Rightarrow> (string \<times> string \<times> int \<times> int) list \<Rightarrow> (string \<Rightarrow> bool) \<Rightarrow>
   ('g feed, telemetry_reading list) action" where
  "produce_pass m rs [] stops f = (Inr [], f)"
| "produce_pass m rs ((asset, uid, now, later) # rest) stops f =
     (if \<not> fd_running f then (Inr [], f)
      else (case dict_get (fd_simulators f) asset of
         None \<Rightarrow> produce_pass m rs rest stops f
       | Some s \<Rightarrow> andthen (produce_reading m rs uid now later asset s) (\<lambda>r f1.
           (case (if stops asset then snd (stop_feed f1) else f1) of f2 \<Rightarrow>
            andthen (produce_pass m rs rest stops) (\<lambda>rs'. ret (r # rs')) f2)) f))"

text \<open>
  The generator as far as its consumer has driven it, one element of the schedule for each pass: what is
  drawn for the identifiers and times of the readings of the pass, after which asset the consumer stops
  the feed, and whether it is stopped in the pause that follows the pass. A running feed without
  simulators only waits to be stopped.
\<close>

record feed_pass =
  fp_stamps :: "string \<Rightarrow> string \<times> int \<times> int"
  fp_stops :: "string \<Rightarrow> bool"
  fp_pause_stops :: bool

definition pause_feed :: "bool \<Rightarrow> 'g feed \<Rightarrow> 'g feed" where
  "pause_feed stopped f =
     (if fd_running f \<and> f_lt (Fin 0) (fd_interval f) \<and> stopped then snd (stop_feed f) else f)"

definition run_pass :: "math_functions \<Rightarrow> 'g random_source \<Rightarrow> feed_pass \<Rightarrow> ('g feed, telemetry_reading list) action" where
  "run_pass m rs p f = produce_pass m rs (map (\<lambda>a. (a, fp_stamps p a)) (dict_keys (fd_simulators f))) (fp_stops p) f"

fun generate_loop :: "math_functions \<Rightarrow> 'g random_source \<Rightarrow> feed_pass list \<Rightarrow> ('g feed, telemetry_reading list) action" where
  "generate_loop m rs [] f = (Inr [], f)"
| "generate_loop m rs (p # ps) f =
     (if \<not> fd_running f then (Inr [], f)
      else andthen (run_pass m rs p) (\<lambda>out f1.
        andthen (generate_loop m rs ps) (\<lambda>more. ret (out @ more)) (pause_feed (fp_pause_stops p) f1)) f)"

definition generate_readings :: "math_functions \<Rightarrow> 'g random_source \<Rightarrow> feed_pass list \<Rightarrow> ('g feed, telemetry_reading list) action" where
  "generate_readings m rs ps f =
     (if fd_running f \<and> fd_simulators f = []
      then (Inr [], if list_ex fp_pause_stops ps then snd (stop_feed f) else f)
      else generate_loop m rs ps f)"

definition get_latest_reading :: "string \<Rightarrow> 'g feed \<Rightarrow> telemetry_reading option" where
  "get_latest_reading asset f = dict_get (fd_latest f) (canonical asset)"

definition get_all_latest_readings :: "'g feed \<Rightarrow> (string, telemetry_reading) dict" where
  "get_all_latest_readings f = fd_latest f"

end
