(* ===== verification/Adapter.thy ===== *)
theory Adapter
  imports Feed
begin

text \<open>
  The WebSocket adapter of \<^verbatim>\<open>mittelwerk/telemetry/feed.py\<close>. Its coroutine waits for the transport at four
  places; each event of the transport, and each call of \<^verbatim>\<open>connect\<close> and \<^verbatim>\<open>disconnect\<close>, is a step.
\<close>

section \<open>Parsing a reading\<close>

text \<open>
  \<^verbatim>\<open>_utc_datetime\<close>: \<open>read_time\<close> reads the text of a time stamp. A value that is neither a text nor missing has
  no \<^verbatim>\<open>tzinfo\<close>.
\<close>

definition utc_datetime :: "(string \<Rightarrow> datetime option) \<Rightarrow> int \<Rightarrow> pyval option \<Rightarrow> exn + datetime" where
  "utc_datetime read_time now v = (case v of
      None \<Rightarrow> Inr (Aware now 0)
    | Some VNone \<Rightarrow> Inr (Aware now 0)
    | Some (VStr s) \<Rightarrow> (case read_time s of None \<Rightarrow> Inl ValueError | Some t \<Rightarrow> ensure_utc t)
    | Some (VTimeText t) \<Rightarrow> ensure_utc t
    | Some _ \<Rightarrow> Inl AttributeError)"

text \<open>\<^verbatim>\<open>Decimal(str(v))\<close> of a JSON value, if it is finite.\<close>

fun reading_number :: "pyval \<Rightarrow> rat option" where
  "reading_number (VInt n) = Some (of_int n)"
| "reading_number (VFloat x) = float_reading x"
| "reading_number (VNum x) = Some x"
| "reading_number (VNumText x) = Some x"
| "reading_number (VStr s) = read_decimal s"
| "reading_number _ = None"

text \<open>
  \<^verbatim>\<open>_parse_reading\<close>: a key, type, value or decimal error means no reading. The error of a time stamp
  that is not a text is not among those caught.
\<close>

definition parse_reading ::
  "(string \<Rightarrow> datetime option) \<Rightarrow> int \<Rightarrow> string set \<Rightarrow> payload \<Rightarrow> exn + telemetry_reading option" where
  "parse_reading read_time now assets data = (case utc_datetime read_time now (dict_get data ''timestamp'') of
      Inl AttributeError \<Rightarrow> Inl AttributeError
    | Inl e \<Rightarrow> Inr None
    | Inr stamp \<Rightarrow> (case dict_get data ''asset_id'' of
        Some (VStr a) \<Rightarrow>
          if canonical a \<notin> assets then Inr None
          else (case dict_get data ''min_reading'' of None \<Rightarrow> Inr None | Some mn \<Rightarrow>
            (case dict_get data ''max_reading'' of None \<Rightarrow> Inr None | Some mx \<Rightarrow>
             (case (case dict_get data ''sample_count'' of None \<Rightarrow> VInt 0 | Some v \<Rightarrow> v) of
                VInt n \<Rightarrow>
                  (case reading_of (canonical a) (reading_number mn) (reading_number mx)
                      (reading_number (case dict_get data ''last_reading'' of None \<Rightarrow> mx | Some v \<Rightarrow> v)) n stamp of
                     Inl e \<Rightarrow> Inr None
                   | Inr r \<Rightarrow> Inr (Some r))
              | _ \<Rightarrow> Inr None)))
      | _ \<Rightarrow> Inr None))"

section \<open>The connection\<close>

datatype ws_phase = Idle | Connecting | Consuming | Waiting

record adapter =
  wa_assets :: "string list"
  wa_delay :: pyfloat
  wa_running :: bool
  wa_disconnect :: bool
  wa_socket :: bool
  wa_phase :: ws_phase
  wa_sent :: "string list list"
  wa_bus :: event_bus

definition new_adapter :: "string list \<Rightarrow> event_bus \<Rightarrow> pyfloat \<Rightarrow> exn + adapter" where
  "new_adapter ids bus delay =
     (if f_lt delay (Fin 0) \<or> \<not> is_finite delay then Inl ValueError
      else Inr \<lparr>wa_assets = normalised_assets ids, wa_delay = delay, wa_running = False, wa_disconnect = False,
        wa_socket = False, wa_phase = Idle, wa_sent = [], wa_bus = bus\<rparr>)"

datatype ws_event = Connect_called | Opened | Open_failed | Received string int string int | Closed | Broken
  | Delay_over | Disconnect_called

text \<open>The end of one connection, and of the whole coroutine.\<close>

definition connection_over :: "adapter \<Rightarrow> adapter" where
  "connection_over a = (if wa_running a then a\<lparr>wa_socket := False, wa_phase := Waiting\<rparr>
     else a\<lparr>wa_socket := False, wa_phase := Idle\<rparr>)"

definition coroutine_over :: "adapter \<Rightarrow> adapter" where
  "coroutine_over a = a\<lparr>wa_running := False, wa_socket := False, wa_phase := Idle\<rparr>"

text \<open>\<open>loads\<close> reads the JSON of a message; without a value it is malformed.\<close>

definition receive ::
  "(string \<Rightarrow> pyval option) \<Rightarrow> (string \<Rightarrow> datetime option) \<Rightarrow> string \<Rightarrow> int \<Rightarrow> string \<Rightarrow> int \<Rightarrow> adapter \<Rightarrow> adapter" where
  "receive loads read_time message now uid later a =
     (if \<not> wa_running a then connection_over a
      else (case loads message of
         Some (VDict data) \<Rightarrow> (case parse_reading read_time now (set (wa_assets a)) data of
             Inl e \<Rightarrow> coroutine_over a
           | Inr None \<Rightarrow> a
           | Inr (Some r) \<Rightarrow> a\<lparr>wa_bus := publish (reading_event uid later ''websocket_feed'' r) (wa_bus a)\<rparr>)
       | _ \<Rightarrow> a))"

fun ws_step ::
  "(string \<Rightarrow> pyval option) \<Rightarrow> (string \<Rightarrow> datetime option) \<Rightarrow> ws_event \<Rightarrow> adapter \<Rightarrow> adapter option" where
  "ws_step loads read_time Connect_called a =
     (if wa_phase a = Idle then Some (a\<lparr>wa_disconnect := False, wa_running := True, wa_phase := Connecting\<rparr>) else None)"
| "ws_step loads read_time Opened a =
     (if wa_phase a = Connecting
      then Some (a\<lparr>wa_socket := True, wa_sent := wa_sent a @ [wa_assets a], wa_phase := Consuming\<rparr>) else None)"
| "ws_step loads read_time Open_failed a = (if wa_phase a = Connecting then Some (connection_over a) else None)"
| "ws_step loads read_time (Received message now uid later) a =
     (if wa_phase a = Consuming then Some (receive loads read_time message now uid later a) else None)"
| "ws_step loads read_time Closed a = (if wa_phase a = Consuming then Some (connection_over a) else None)"
| "ws_step loads read_time Broken a = (if wa_phase a = Consuming then Some (connection_over a) else None)"
| "ws_step loads read_time Delay_over a =
     (if wa_phase a = Waiting then Some (if wa_running a then a\<lparr>wa_phase := Connecting\<rparr> else coroutine_over a) else None)"
| "ws_step loads read_time Disconnect_called a = Some (a\<lparr>wa_running := False, wa_disconnect := True\<rparr>)"

text \<open>The socket that a call of \<^verbatim>\<open>disconnect\<close> closes, if there is one at that moment.\<close>

definition closes_socket :: "adapter \<Rightarrow> bool" where
  "closes_socket a \<longleftrightarrow> wa_socket a"

fun ws_run ::
  "(string \<Rightarrow> pyval option) \<Rightarrow> (string \<Rightarrow> datetime option) \<Rightarrow> ws_event list \<Rightarrow> adapter \<Rightarrow> adapter option" where
  "ws_run loads read_time [] a = Some a"
| "ws_run loads read_time (e # es) a = (case ws_step loads read_time e a of None \<Rightarrow> None | Some a' \<Rightarrow> ws_run loads read_time es a')"

end
