(* ===== verification/FeedLaws.thy ===== *)
theory FeedLaws
  imports Adapter SerializerLaws
begin

text \<open>
  The simulated readings are ordered, the adapter publishes nothing after a disconnection, and the
  two ways in which it does not end as it should.
\<close>

section \<open>Monotone rounding of readings\<close>

lemma to_float_mono: "to_float x = Fin a \<Longrightarrow> to_float y = Fin b \<Longrightarrow> x \<le> y \<Longrightarrow> a \<le> b"
  using to_float_Fin [of x a] to_float_Fin [of y b] using flr.rd_mono by blast

lemma float_text_mono:
  assumes "fl x = x" "fl y = y" "x \<le> y"
  shows "float_text x \<le> float_text y"
proof (rule ccontr)
  assume "\<not> float_text x \<le> float_text y"
  then have "fl (float_text y) \<le> fl (float_text x)" by (intro flr.rd_mono) simp
  then have "y \<le> x" using float_text_reads_back assms by simp
  with assms(3) have "x = y" by simp
  with \<open>\<not> float_text x \<le> float_text y\<close> show False by simp
qed

lemma round_places_mono:
  assumes "round_places (Fin x) = Fin a" "round_places (Fin y) = Fin b" "x \<le> y"
  shows "a \<le> b"
  using assms by (auto elim!: to_float_mono intro!: divide_right_mono simp: rhe_mono mult_right_mono)

text \<open>The reading of a rounded sum grows with the summand.\<close>

lemma rounded_sum_mono:
  assumes "float_reading (round_places (f_add mid x)) = Some a" "float_reading (round_places (f_add mid y)) = Some b" "f_le x y"
  shows "a \<le> b"
proof -
  obtain u v where u: "f_add mid x = Fin u" "f_add mid y = Fin v"
    using assms(1,2) by (cases "f_add mid x"; cases "f_add mid y") (auto simp: float_reading_def)
  obtain m p q where f: "mid = Fin m" "x = Fin p" "y = Fin q"
    using f_add_finite [OF u(1)] f_add_finite [OF u(2)] by auto
  have "p \<le> q" using assms(3) f by (auto simp: f_le_def)
  then have uv: "u \<le> v" using u f by (auto elim!: to_float_mono)
  obtain c d where c: "round_places (Fin u) = Fin c" "round_places (Fin v) = Fin d" "a = float_text c" "b = float_text d"
    using assms(1,2) u by (auto simp: float_reading_def split: pyfloat.splits)
  have "fl c = c" "fl d = d" using c(1,2) to_float_Fin by (auto simp: fl_rep_def)
  with round_places_mono [OF c(1,2) uv] show ?thesis unfolding c(3,4) by (intro float_text_mono)
qed

section \<open>Simulated readings\<close>

lemma to_float_le: "x \<le> y \<Longrightarrow> f_le (to_float x) (to_float y)"
  using flr.rd_mono [of x y] by (auto simp: to_float_def Let_def f_le_def)

lemma to_float_neg: "to_float (- x) = f_neg (to_float x)"
  by (auto simp: to_float_def Let_def fl_minus)

definition uniform_law :: "'g random_source \<Rightarrow> bool" where
  "uniform_law rs \<longleftrightarrow> (\<forall>a b g. f_le a b \<longrightarrow> f_le a (fst (rs_uniform rs a b g)) \<and> f_le (fst (rs_uniform rs a b g)) b)"

lemma half_between:
  assumes "f_le (f_neg (Fin s)) v" "f_le v (Fin s)"
  shows "f_le (f_neg (f_mul (Fin s) (Fin (1 / 2)))) (f_mul v (Fin (1 / 2)))" "f_le (f_mul v (Fin (1 / 2))) (f_mul (Fin s) (Fin (1 / 2)))"
proof -
  obtain w where "v = Fin w" "- s \<le> w" "w \<le> s" using assms by (cases v) (auto simp: f_le_def)
  then show "f_le (f_neg (f_mul (Fin s) (Fin (1 / 2)))) (f_mul v (Fin (1 / 2)))" "f_le (f_mul v (Fin (1 / 2))) (f_mul (Fin s) (Fin (1 / 2)))"
    using to_float_le [of "- (s / 2)" "w / 2"] to_float_le [of "w / 2" "s / 2"] by (simp_all add: to_float_neg)
qed

lemma reading_of_parts:
  assumes "reading_of asset mn mx lst n stamp = Inr r"
  shows "mn = Some (min_reading r)" "mx = Some (max_reading r)" "lst = Some (last_reading r)" "0 < min_reading r"
  using assms by (auto simp: reading_of_def mk_telemetry_reading_def Let_def split: option.splits if_splits sum.splits)

lemma fl_pos_small: "0 \<le> fl (1 / 10 ^ 4)" "to_float (1 / 10 ^ 4) = Fin (fl (1 / 10 ^ 4))"
  using to_float_bounded [of "1 / 10 ^ 4" 1] fl_rep_of_int [of 1] by simp_all

lemma f_sign_nonneg: "f_le (Fin 0) a \<Longrightarrow> 0 \<le> f_sign a"
  by (cases a) (auto simp: f_le_def)

lemma f_mul_nonneg:
  assumes "f_le (Fin 0) a" "f_le (Fin 0) b"
  shows "f_mul a b = NaN \<or> f_le (Fin 0) (f_mul a b)"
proof (cases "\<exists>x y. a = Fin x \<and> b = Fin y")
  case True
  then obtain x y where xy: "a = Fin x" "b = Fin y" by blast
  with assms have "0 \<le> x * y" by (auto simp: f_le_def)
  then show ?thesis using to_float_le [of 0 "x * y"] xy by simp
next
  case False
  then have "f_mul a b = f_infinite (f_sign a * f_sign b)" by (cases "(a, b)" rule: f_mul.cases) auto
  moreover have "0 \<le> f_sign a * f_sign b" using assms f_sign_nonneg by simp
  ultimately show ?thesis by (auto simp: f_infinite_def f_le_def)
qed

lemma uniform_lawD: "uniform_law rs \<Longrightarrow> rs_uniform rs a b g = (u, g') \<Longrightarrow> f_le a b \<Longrightarrow> f_le a u \<and> f_le u b"
  unfolding uniform_law_def by (metis fst_conv)

lemma next_value_nonneg:
  assumes "next_value m rs s g = (Inr s', g')" "f_le (Fin 0) (sim_value s)" "\<forall>x y. m_exp m x = Inr y \<longrightarrow> f_le (Fin 0) y"
  shows "sim_value s' = NaN \<or> f_le (Fin 0) (sim_value s')"
proof -
  obtain y where y: "sim_value s' = f_mul (sim_value s) y" "f_le (Fin 0) y"
    using assms(1,3) by (auto simp: next_value_def Let_def split: prod.splits sum.splits)
  with assms(2) show ?thesis using f_mul_nonneg by simp
qed

lemma produced_reading_ordered:
  assumes rs: "uniform_law rs" and exp: "\<forall>x y. m_exp m x = Inr y \<longrightarrow> f_le (Fin 0) y" and pos: "f_le (Fin 0) (sim_value s)"
    and p: "produce_reading m rs uid now later asset s f = (Inr r, f')"
  shows "0 < min_reading r \<and> min_reading r \<le> last_reading r \<and> last_reading r \<le> max_reading r \<and>
    fd_latest f' = dict_set asset r (fd_latest f) \<and>
    fd_bus f' = publish (reading_event uid later ''telemetry_feed'' r) (fd_bus f)"
proof -
  obtain s' g where n: "next_value m rs s (fd_random f) = (Inr s', g)"
    using p by (cases "next_value m rs s (fd_random f)"; cases "fst (next_value m rs s (fd_random f))")
      (auto simp: produce_reading_def)
  define mid where "mid = sim_value s'"
  obtain u g1 where u: "rs_uniform rs (to_float (1 / 10 ^ 4)) (to_float (1 / 10 ^ 3)) g = (u, g1)" by fastforce
  define spread where "spread = f_mul mid u"
  define half where "half = f_mul spread (Fin (1 / 2))"
  obtain v g2 where v: "rs_uniform rs (f_neg spread) spread g1 = (v, g2)" by fastforce
  obtain k g3 where k: "rs_randint rs 100 10000 g2 = (k, g3)" by fastforce
  have red: "reading_of asset (float_reading (round_places (f_sub mid half))) (float_reading (round_places (f_add mid half)))
      (float_reading (round_places (f_add mid (f_mul v (Fin (1 / 2)))))) k (Aware now 0) = Inr r" and
    f': "fd_latest f' = dict_set asset r (fd_latest f)" "fd_bus f' = publish (reading_event uid later ''telemetry_feed'' r) (fd_bus f)"
    using p unfolding produce_reading_def n prod.case sum.case Let_def mid_def [symmetric] u prod.case
      spread_def [symmetric] half_def [symmetric] v prod.case k prod.case by (auto split: sum.splits)
  note parts = reading_of_parts [OF red]
  obtain x where "f_add mid half = Fin x" using parts(2) by (cases "f_add mid half") (auto simp: float_reading_def)
  then obtain a b where ab: "mid = Fin a" "half = Fin b" using f_add_finite by blast
  obtain c where c: "spread = Fin c" using ab(2) by (cases spread) (auto simp: half_def f_infinite_def)
  have "f_le (to_float (1 / 10 ^ 4)) u" using uniform_lawD [OF rs u] to_float_le [of "1 / 10 ^ 4" "1 / 10 ^ 3"] by simp
  then have u0: "f_le (Fin 0) u" using fl_pos_small by (cases u) (auto simp: f_le_def)
  have "0 \<le> a" using next_value_nonneg [OF n pos exp] ab by (auto simp: mid_def f_le_def)
  then have "f_le (Fin 0) mid" by (auto simp: ab(1) f_le_def)
  from f_mul_nonneg [OF this u0] have "0 \<le> c" unfolding spread_def [symmetric] c by (auto simp: f_le_def)
  then have "f_le (f_neg spread) spread" by (auto simp: c f_le_def)
  then have "f_le (f_neg spread) v \<and> f_le v spread" using uniform_lawD [OF rs v] by simp
  then have "f_le (f_neg half) (f_mul v (Fin (1 / 2)))" "f_le (f_mul v (Fin (1 / 2))) half"
    using half_between [of c v] unfolding half_def c by blast+
  with parts f' show ?thesis unfolding f_sub_def by (auto intro: rounded_sum_mono)
qed

section \<open>The adapter\<close>

lemma ws_step_stopped:
  assumes "ws_step loads read_time e a = Some a'" "\<not> wa_running a" "e \<noteq> Connect_called"
  shows "\<not> wa_running a' \<and> wa_bus a' = wa_bus a"
  using assms by (cases e) (auto simp: receive_def connection_over_def coroutine_over_def split: if_splits)

lemma ws_run_stopped:
  "ws_run loads read_time es a = Some a' \<Longrightarrow> \<not> wa_running a \<Longrightarrow> Connect_called \<notin> set es \<Longrightarrow>
   \<not> wa_running a' \<and> wa_bus a' = wa_bus a"
proof (induction es arbitrary: a)
  case (Cons e es)
  then obtain b where b: "ws_step loads read_time e a = Some b" "ws_run loads read_time es b = Some a'"
    by (auto split: option.splits)
  with ws_step_stopped [OF b(1)] Cons show ?case by auto
qed simp

text \<open>Every event of the transport that a stopped adapter waits for ends its coroutine, once connected.\<close>

lemma stopped_ends:
  assumes "\<not> wa_running a" "ws_step loads read_time e a = Some a'" "e \<notin> {Connect_called, Opened, Disconnect_called}"
  shows "wa_phase a' = Idle \<and> \<not> wa_socket a'"
  using assms by (cases e) (auto simp: receive_def connection_over_def coroutine_over_def split: if_splits)

text \<open>
  A call of \<^verbatim>\<open>disconnect\<close> while the connection is being opened finds no socket to close: the adapter
  connects, subscribes and goes on waiting for a message.
\<close>

lemma disconnect_while_connecting:
  assumes "wa_phase a = Connecting" "\<not> wa_socket a"
  shows "\<not> closes_socket a \<and> (\<exists>a'. ws_run loads read_time [Disconnect_called, Opened] a = Some a' \<and>
    wa_phase a' = Consuming \<and> wa_socket a' \<and> \<not> wa_running a' \<and> wa_sent a' = wa_sent a @ [wa_assets a])"
  using assms by (simp add: closes_socket_def)

text \<open>A message whose time stamp is a number ends the coroutine instead of being ignored.\<close>

lemma numeric_timestamp_ends:
  assumes "wa_phase a = Consuming" "wa_running a" "loads message = Some (VDict data)" "dict_get data ''timestamp'' = Some (VInt n)"
  shows "ws_step loads read_time (Received message now uid later) a = Some (coroutine_over a)"
  using assms by (simp add: receive_def parse_reading_def utc_datetime_def)

end
