(* ===== verification/McpServer.thy ===== *)
theory McpServer
  imports Api
begin

text \<open>
  The MCP server of \<^verbatim>\<open>mittelwerk/mcp_server/server.py\<close>: its tools as operations on the injected dispatch
  engine. Registering the tools, the transport and the schema of the arguments are the library's; the
  constraints that the argument types declare are checked here before a tool runs. Decimals are not
  tracked beyond their value, so zeros behind the last place do not count as places.
\<close>

section \<open>Argument types\<close>

definition max_equipment_results :: int where "max_equipment_results = 50"
definition max_queue_depth :: int where "max_queue_depth = 20"
definition max_backlog_observations :: nat where "max_backlog_observations = 256"
definition max_requested_hours :: rat where "max_requested_hours = 10000"
definition max_serialized_assignments :: nat where "max_serialized_assignments = 100"
definition max_organization_id_length :: nat where "max_organization_id_length = 64"
definition max_rejection_reason_length :: nat where "max_rejection_reason_length = 256"

definition rejection_detail_unavailable :: string where
  "rejection_detail_unavailable =
     ''Local simulation engine rejected the work order; detailed reason unavailable''"

text \<open>A letter or digit followed by letters, digits and some signs, in full.\<close>

definition identifier_re :: "string \<Rightarrow> string \<Rightarrow> bool" where
  "identifier_re signs s \<longleftrightarrow> s \<noteq> [] \<and> alnum (hd s) \<and> list_all (\<lambda>c. alnum c \<or> c \<in> set signs) (tl s)"

definition organization_id_re :: "string \<Rightarrow> bool" where
  "organization_id_re s \<longleftrightarrow> identifier_re ''._:@/-'' s \<and> length s \<le> max_organization_id_length"

definition asset_id_input :: "string \<Rightarrow> bool" where
  "asset_id_input s \<longleftrightarrow> 1 \<le> length s \<and> length s \<le> 32 \<and> identifier_re ''._/-'' s"

definition work_order_id_input :: "string \<Rightarrow> bool" where
  "work_order_id_input s \<longleftrightarrow> 1 \<le> length s \<and> length s \<le> 64 \<and> identifier_re ''._:-'' s"

text \<open>At most \<open>p\<close> decimal places and \<open>d\<close> digits.\<close>

definition decimal_input :: "nat \<Rightarrow> nat \<Rightarrow> rat \<Rightarrow> bool" where
  "decimal_input d p x \<longleftrightarrow> of_int \<lfloor>x * 10 ^ p\<rfloor> = x * 10 ^ p \<and> \<bar>x\<bar> * 10 ^ p < 10 ^ d"

definition requested_hours_input :: "rat \<Rightarrow> bool" where
  "requested_hours_input x \<longleftrightarrow> 0 < x \<and> x \<le> max_requested_hours \<and> decimal_input 24 8 x"

definition hourly_rate_input :: "rat \<Rightarrow> bool" where
  "hourly_rate_input x \<longleftrightarrow> 0 < x \<and> x \<le> 10 ^ 12 \<and> decimal_input 24 8 x"

definition backlog_hours_input :: "rat \<Rightarrow> bool" where
  "backlog_hours_input x \<longleftrightarrow> 0 \<le> x \<and> x \<le> 10 ^ 15 \<and> decimal_input 24 8 x"

definition hours_volatility_input :: "rat \<Rightarrow> bool" where
  "hours_volatility_input x \<longleftrightarrow> 0 \<le> x \<and> x \<le> 10 \<and> decimal_input 12 10 x"

definition confidence_input :: "rat \<Rightarrow> bool" where
  "confidence_input x \<longleftrightarrow> 0 < x \<and> x < 1 \<and> decimal_input 12 10 x"

definition backlog_observation_input :: "rat \<Rightarrow> bool" where
  "backlog_observation_input x \<longleftrightarrow> - (10 ^ 15) \<le> x \<and> x \<le> 10 ^ 15 \<and> decimal_input 24 8 x"

definition backlog_history_input :: "rat list \<Rightarrow> bool" where
  "backlog_history_input xs \<longleftrightarrow> 1 \<le> length xs \<and> length xs \<le> max_backlog_observations \<and> list_all backlog_observation_input xs"

datatype supported_mode = Rate_capped | Any_rate
datatype supported_window = Open_window | Immediate_window | Complete_window

fun mode_of :: "supported_mode \<Rightarrow> work_order_mode" where
  "mode_of Rate_capped = RATE_CAPPED"
| "mode_of Any_rate = ANY_RATE"

fun window_of :: "supported_window \<Rightarrow> dispatch_window" where
  "window_of Open_window = OPEN"
| "window_of Immediate_window = IMMEDIATE"
| "window_of Complete_window = COMPLETE"

section \<open>Results\<close>

record equipment_summary =
  es_asset :: string
  es_name :: string
  es_type :: equipment_category
  es_rate :: rat
  es_increment :: rat
  es_lot :: rat
  es_currency :: string
  es_site :: string

definition equipment_summary_of :: "equipment \<Rightarrow> equipment_summary" where
  "equipment_summary_of e = \<lparr>es_asset = eq_asset_id e, es_name = eq_name e, es_type = equipment_type e,
     es_rate = hourly_service_rate e, es_increment = rate_increment e, es_lot = hour_lot_size e, es_currency = currency e,
     es_site = site_code e\<rparr>"

record equipment_list_result =
  el_total :: nat
  el_offset :: int
  el_limit :: int
  el_returned :: nat
  el_equipment :: "equipment_summary list"

record queue_level_result =
  ql_rate :: rat
  ql_hours :: rat
  ql_orders :: nat

definition queue_level_result_of :: "heap \<Rightarrow> rate_level \<Rightarrow> queue_level_result" where
  "queue_level_result_of h l = \<lparr>ql_rate = lvl_rate l, ql_hours = total_hours h l, ql_orders = work_order_count l\<rparr>"

record queue_snapshot_result =
  qs_asset :: string
  qs_as_of :: int
  qs_depth :: int
  qs_best_request :: "rat option"
  qs_best_offer :: "rat option"
  qs_spread :: "rat option"
  qs_representative :: "rat option"
  qs_requests :: "queue_level_result list"
  qs_offers :: "queue_level_result list"

record risk_result =
  rr_as_of :: int
  rr_confidence :: rat
  rr_horizon :: int
  rr_observations :: nat
  rr_parametric :: "rat option"
  rr_historical :: "rat option"
  rr_conditional :: "rat option"

record assignment_result =
  ar_id :: string
  ar_requester :: string
  ar_provider :: string
  ar_rate :: rat
  ar_hours :: rat
  ar_side :: dispatch_side
  ar_timestamp :: int

definition assignment_result_of :: "service_assignment \<Rightarrow> assignment_result" where
  "assignment_result_of a = \<lparr>ar_id = assignment_id a, ar_requester = requester_work_order_id a,
     ar_provider = provider_work_order_id a, ar_rate = hourly_rate a, ar_hours = hours a, ar_side = initiating_side a,
     ar_timestamp = sa_timestamp a\<rparr>"

record work_order_result =
  or_order :: work_order
  or_accepted :: bool
  or_remaining :: rat
  or_reason :: "string option"
  or_count :: nat
  or_returned :: nat
  or_truncated :: bool
  or_assignments :: "assignment_result list"

text \<open>An empty reason counts as a missing one.\<close>

definition bounded_rejection_reason :: "heap \<Rightarrow> dispatch_result \<Rightarrow> string option" where
  "bounded_rejection_reason h d =
     (if status (h (dr_work_order d)) \<noteq> REJECTED then None
      else (let reason = (case rejection_reason d of None \<Rightarrow> rejection_detail_unavailable
                | Some t \<Rightarrow> if t = [] then rejection_detail_unavailable else t)
        in if length reason \<le> max_rejection_reason_length then Some reason
           else Some (take (max_rejection_reason_length - 3) reason @ ''...'')))"

text \<open>The fields of the order itself are copied from it: \<open>or_order\<close> is the order at that moment.\<close>

definition work_order_result_of :: "heap \<Rightarrow> dispatch_result \<Rightarrow> work_order_result" where
  "work_order_result_of h d =
     (let w = h (dr_work_order d); kept = take max_serialized_assignments (dr_assignments d) in
      \<lparr>or_order = w, or_accepted = accepted h d, or_remaining = remaining_hours w, or_reason = bounded_rejection_reason h d,
       or_count = length (dr_assignments d), or_returned = length kept, or_truncated = length kept < length (dr_assignments d),
       or_assignments = map assignment_result_of kept\<rparr>)"

record cancellation_result =
  cr_order :: string
  cr_asset :: string
  cr_status :: work_order_status
  cr_updated :: int

datatype mcp_result = Equipment_list equipment_list_result | Queue_snapshot queue_snapshot_result | Risk risk_result
  | Order work_order_result | Cancellation cancellation_result

text \<open>The library refuses unknown tools and arguments that break the declared constraints.\<close>

datatype mcp_error = Unknown_tool | Invalid_arguments | InvalidParams | Tool_raised exn

section \<open>The server\<close>

type_synonym risk_calculator =
  "pyfloat \<Rightarrow> pyfloat option \<Rightarrow> pyfloat list option \<Rightarrow> pyfloat \<Rightarrow> int \<Rightarrow> exn + (string, pyfloat) dict"

record mcp_config =
  mg_engine :: engine_config
  mg_equipment :: "(string, equipment) dict"
  mg_risk :: risk_calculator
  mg_org :: "string option"

record mcp_state =
  ms_engine :: engine_state
  ms_next :: ref
  ms_owned :: "string set"

fun copy_entries :: "(string \<times> equipment) list \<Rightarrow> (string, equipment) dict \<Rightarrow> exn + (string, equipment) dict" where
  "copy_entries [] copied = Inr copied"
| "copy_entries ((key, item) # rest) copied =
     (let a = canonical key in
      if a \<noteq> eq_asset_id item then Inl ValueError
      else if a \<in> set (dict_keys copied) then Inl ValueError
      else copy_entries rest (dict_set a item copied))"

definition copy_equipment :: "(string, equipment) dict \<Rightarrow> exn + (string, equipment) dict" where
  "copy_equipment eqs = (if eqs = [] then Inl ValueError else copy_entries eqs [])"

definition default_calculator :: "numerics \<Rightarrow> risk_calculator" where
  "default_calculator np backlog volatility history confidence horizon =
     risk_compute np default_risk_engine (VFloat backlog) (case volatility of None \<Rightarrow> VNone | Some v \<Rightarrow> VFloat v) history
       (VFloat confidence) (VInt horizon)"

definition create_mcp_server ::
  "numerics \<Rightarrow> engine_config \<Rightarrow> (string, equipment) dict \<Rightarrow> risk_calculator option \<Rightarrow> bool \<Rightarrow> string option \<Rightarrow> exn + mcp_config" where
  "create_mcp_server np c eqs calculator allow_writes organization_id =
     (case copy_equipment eqs of Inl e \<Rightarrow> Inl e | Inr equipment_map \<Rightarrow>
      if set (cfg_equipment c) \<noteq> set equipment_map then Inl ValueError
      else if allow_writes \<and> \<not> (case organization_id of None \<Rightarrow> False | Some o' \<Rightarrow> organization_id_re o') then Inl ValueError
      else Inr \<lparr>mg_engine = c, mg_equipment = equipment_map,
        mg_risk = (case calculator of None \<Rightarrow> default_calculator np | Some k \<Rightarrow> k),
        mg_org = (if allow_writes then organization_id else None)\<rparr>)"

definition require_equipment :: "mcp_config \<Rightarrow> string \<Rightarrow> mcp_error + equipment" where
  "require_equipment g asset = (case dict_get (mg_equipment g) (upper asset) of None \<Rightarrow> Inl InvalidParams | Some e \<Rightarrow> Inr e)"

section \<open>Read-only tools\<close>

definition list_equipment :: "mcp_config \<Rightarrow> int \<Rightarrow> int \<Rightarrow> equipment_list_result" where
  "list_equipment g limit offset =
     (let ordered = map snd (sort_key fst (mg_equipment g)); selected = take (nat limit) (drop (nat offset) ordered) in
      \<lparr>el_total = length ordered, el_offset = offset, el_limit = limit, el_returned = length selected,
       el_equipment = map equipment_summary_of selected\<rparr>)"

definition get_dispatch_queue :: "mcp_config \<Rightarrow> int \<Rightarrow> string \<Rightarrow> int \<Rightarrow> engine_state \<Rightarrow> mcp_error + queue_snapshot_result" where
  "get_dispatch_queue g now asset depth s = (case require_equipment g asset of Inl e \<Rightarrow> Inl e | Inr item \<Rightarrow>
     (case get_queue (eq_asset_id item) s of
        None \<Rightarrow> Inr \<lparr>qs_asset = eq_asset_id item, qs_as_of = now, qs_depth = depth, qs_best_request = None, qs_best_offer = None,
          qs_spread = None, qs_representative = None, qs_requests = [], qs_offers = []\<rparr>
      | Some q \<Rightarrow> (let ks = key_enum (mg_engine g) in
          Inr \<lparr>qs_asset = eq_asset_id item, qs_as_of = now, qs_depth = depth, qs_best_request = best_request_rate ks q,
            qs_best_offer = best_offer_rate ks q, qs_spread = rate_spread ks q, qs_representative = representative_rate ks q,
            qs_requests = map (queue_level_result_of (orders s)) (request_levels ks depth q),
            qs_offers = map (queue_level_result_of (orders s)) (offer_levels ks depth q)\<rparr>)))"

definition loss_decimal :: "pyfloat \<Rightarrow> exn + rat" where
  "loss_decimal v = (case v of
      Fin x \<Rightarrow> if x < 0 then Inl RuntimeError else Inr (float_text x)
    | _ \<Rightarrow> Inl RuntimeError)"

text \<open>A metric of the result that was asked for.\<close>

definition risk_figure :: "bool \<Rightarrow> (string, pyfloat) dict \<Rightarrow> string \<Rightarrow> exn + rat option" where
  "risk_figure wanted calculated n =
     (if \<not> wanted then Inr None
      else case dict_get calculated n of None \<Rightarrow> Inl KeyError | Some v \<Rightarrow> map_sum id Some (loss_decimal v))"

definition calculate_service_risk ::
  "mcp_config \<Rightarrow> int \<Rightarrow> rat \<Rightarrow> rat option \<Rightarrow> rat list option \<Rightarrow> rat \<Rightarrow> int \<Rightarrow> mcp_error + risk_result" where
  "calculate_service_risk g now backlog volatility history confidence horizon =
     (if volatility = None \<and> history = None then Inl InvalidParams
      else (case mg_risk g (to_float backlog) (map_option to_float volatility) (map_option (map to_float) history)
          (to_float confidence) horizon of Inl e \<Rightarrow> Inl (Tool_raised e) | Inr calculated \<Rightarrow>
       (case risk_figure (volatility \<noteq> None) calculated ''parametric_backlog_risk'' of Inl e \<Rightarrow> Inl (Tool_raised e) | Inr p \<Rightarrow>
       (case risk_figure (history \<noteq> None) calculated ''historical_backlog_risk'' of Inl e \<Rightarrow> Inl (Tool_raised e) | Inr h \<Rightarrow>
       (case risk_figure (history \<noteq> None) calculated ''conditional_backlog_risk'' of Inl e \<Rightarrow> Inl (Tool_raised e) | Inr k \<Rightarrow>
        Inr \<lparr>rr_as_of = now, rr_confidence = confidence, rr_horizon = horizon,
          rr_observations = (case history of None \<Rightarrow> 0 | Some xs \<Rightarrow> length xs), rr_parametric = p, rr_historical = h,
          rr_conditional = k\<rparr>)))))"

section \<open>Tools that write\<close>

record submit_arguments =
  sa_in_asset :: string
  sa_in_side :: dispatch_side
  sa_in_hours :: rat
  sa_in_mode :: supported_mode
  sa_in_rate :: "rat option"
  sa_in_window :: supported_window
  sa_in_id :: "string option"

definition submit_arguments_ok :: "submit_arguments \<Rightarrow> bool" where
  "submit_arguments_ok q \<longleftrightarrow> asset_id_input (sa_in_asset q) \<and> requested_hours_input (sa_in_hours q) \<and>
     (case sa_in_rate q of None \<Rightarrow> True | Some r \<Rightarrow> hourly_rate_input r) \<and>
     (case sa_in_id q of None \<Rightarrow> True | Some i \<Rightarrow> work_order_id_input i)"

text \<open>The checks and the construction of the order.\<close>

definition build_order :: "mcp_config \<Rightarrow> string \<Rightarrow> int \<Rightarrow> string \<Rightarrow> submit_arguments \<Rightarrow> mcp_error + work_order" where
  "build_order g org now uid q = (case require_equipment g (sa_in_asset q) of Inl e \<Rightarrow> Inl e | Inr item \<Rightarrow>
     if sa_in_mode q = Rate_capped \<and> sa_in_rate q = None then Inl InvalidParams
     else if sa_in_mode q = Any_rate \<and> sa_in_rate q \<noteq> None then Inl InvalidParams
     else (case mk_work_order
        \<lparr>work_order_id = (case sa_in_id q of None \<Rightarrow> uid | Some i \<Rightarrow> i), wo_organization = org, wo_asset = eq_asset_id item,
         side = sa_in_side q, mode = mode_of (sa_in_mode q), requested_hours = sa_in_hours q, max_hourly_rate = sa_in_rate q,
         escalation_rate = None, priority = 3, dispatch_window = window_of (sa_in_window q), status = NEW, assigned_hours = 0,
         average_rate = None, created_at = now, updated_at = None, signature = None\<rparr> of
       Inl e \<Rightarrow> Inl (Tool_raised e) | Inr w \<Rightarrow> Inr w))"

text \<open>The order enters the heap, the engine takes it, and an order that is still active is owned.\<close>

definition submit_tool ::
  "mcp_config \<Rightarrow> string \<Rightarrow> int \<Rightarrow> string \<Rightarrow> submit_arguments \<Rightarrow> mcp_state \<Rightarrow> ((mcp_error + work_order_result) \<times> mcp_state) option" where
  "submit_tool g org now uid q m = (case build_order g org now uid q of Inl e \<Rightarrow> Some (Inl e, m) | Inr w \<Rightarrow>
     (let r = ms_next m; s = (ms_engine m)\<lparr>orders := (orders (ms_engine m))(r := w)\<rparr> in
      case submit_work_order (mg_engine g) r s of
        None \<Rightarrow> None
      | Some (Inl (DuplicateWorkOrderError i), s') \<Rightarrow> Some (Inl InvalidParams, m\<lparr>ms_engine := s', ms_next := Suc r\<rparr>)
      | Some (Inl e, s') \<Rightarrow> Some (Inl (Tool_raised e), m\<lparr>ms_engine := s', ms_next := Suc r\<rparr>)
      | Some (Inr d, s') \<Rightarrow>
          Some (Inr (work_order_result_of (orders s') d),
            m\<lparr>ms_engine := s', ms_next := Suc r,
              ms_owned := (if is_active (orders s' r) then insert (work_order_id (orders s' r)) (ms_owned m) else ms_owned m)\<rparr>)))"

definition cancel_tool :: "mcp_config \<Rightarrow> string \<Rightarrow> mcp_state \<Rightarrow> (mcp_error + cancellation_result) \<times> mcp_state" where
  "cancel_tool g i m =
     (if i \<notin> ms_owned m then (Inl InvalidParams, m)
      else (case Engine.cancel_work_order (mg_engine g) i None (ms_engine m) of
          (Inl e, s') \<Rightarrow> (Inl (Tool_raised e), m\<lparr>ms_engine := s'\<rparr>)
        | (Inr found, s') \<Rightarrow>
            (let m' = m\<lparr>ms_engine := s', ms_owned := ms_owned m - {i}\<rparr> in
             case found of None \<Rightarrow> (Inl InvalidParams, m')
             | Some r \<Rightarrow> (let w = orders s' r in
                 case updated_at w of None \<Rightarrow> (Inl (Tool_raised RuntimeError), m')
                 | Some t \<Rightarrow> (Inr \<lparr>cr_order = work_order_id w, cr_asset = wo_asset w, cr_status = status w, cr_updated = t\<rparr>, m')))))"

section \<open>Calls\<close>

datatype mcp_call = List_equipment int int | Get_queue string int
  | Calculate_risk rat "rat option" "rat list option" rat int | Submit_order submit_arguments | Cancel_order string

definition risk_arguments_ok :: "rat \<Rightarrow> rat option \<Rightarrow> rat list option \<Rightarrow> rat \<Rightarrow> int \<Rightarrow> bool" where
  "risk_arguments_ok backlog volatility history confidence horizon \<longleftrightarrow> backlog_hours_input backlog \<and>
     (case volatility of None \<Rightarrow> True | Some v \<Rightarrow> hours_volatility_input v) \<and>
     (case history of None \<Rightarrow> True | Some xs \<Rightarrow> backlog_history_input xs) \<and>
     confidence_input confidence \<and> 1 \<le> horizon \<and> horizon \<le> 365"

fun call_tool ::
  "mcp_config \<Rightarrow> int \<Rightarrow> string \<Rightarrow> mcp_call \<Rightarrow> mcp_state \<Rightarrow> ((mcp_error + mcp_result) \<times> mcp_state) option" where
  "call_tool g now uid (List_equipment limit offset) m = Some
     (if 1 \<le> limit \<and> limit \<le> max_equipment_results \<and> 0 \<le> offset \<and> offset \<le> 10000
      then Inr (Equipment_list (list_equipment g limit offset)) else Inl Invalid_arguments, m)"
| "call_tool g now uid (Get_queue asset depth) m = Some
     (if asset_id_input asset \<and> 1 \<le> depth \<and> depth \<le> max_queue_depth
      then map_sum id Queue_snapshot (get_dispatch_queue g now asset depth (ms_engine m)) else Inl Invalid_arguments, m)"
| "call_tool g now uid (Calculate_risk backlog volatility history confidence horizon) m = Some
     (if risk_arguments_ok backlog volatility history confidence horizon
      then map_sum id Risk (calculate_service_risk g now backlog volatility history confidence horizon)
      else Inl Invalid_arguments, m)"
| "call_tool g now uid (Submit_order q) m = (case mg_org g of
      None \<Rightarrow> Some (Inl Unknown_tool, m)
    | Some org \<Rightarrow> if submit_arguments_ok q then map_option (map_prod (map_sum id Order) id) (submit_tool g org now uid q m)
        else Some (Inl Invalid_arguments, m))"
| "call_tool g now uid (Cancel_order i) m = (case mg_org g of
      None \<Rightarrow> Some (Inl Unknown_tool, m)
    | Some org \<Rightarrow> Some (if work_order_id_input i then map_prod (map_sum id Cancellation) id (cancel_tool g i m)
        else (Inl Invalid_arguments, m)))"

section \<open>The equipment file\<close>

text \<open>\<^verbatim>\<open>_load_equipment\<close> after reading the JSON: \<open>validate\<close> reads an object as equipment (the library), the
  entries must be objects with distinct identifiers.\<close>

fun load_entries :: "(payload \<Rightarrow> exn + equipment) \<Rightarrow> pyval list \<Rightarrow> (string, equipment) dict \<Rightarrow> exn + (string, equipment) dict" where
  "load_entries validate [] eqs = Inr eqs"
| "load_entries validate (VDict d # items) eqs = (case validate d of Inl e \<Rightarrow> Inl e | Inr r \<Rightarrow>
     if eq_asset_id r \<in> set (dict_keys eqs) then Inl ValueError
     else load_entries validate items (dict_set (eq_asset_id r) r eqs))"
| "load_entries validate (_ # items) eqs = Inl ValueError"

definition load_equipment :: "(payload \<Rightarrow> exn + equipment) \<Rightarrow> pyval option \<Rightarrow> exn + (string, equipment) dict" where
  "load_equipment validate file = (case file of
      None \<Rightarrow> Inl OSError
    | Some (VList items) \<Rightarrow> (case load_entries validate items [] of Inl e \<Rightarrow> Inl e | Inr eqs \<Rightarrow>
        if eqs = [] then Inl ValueError else Inr eqs)
    | Some _ \<Rightarrow> Inl ValueError)"

definition create_default_mcp_server ::
  "numerics \<Rightarrow> (payload \<Rightarrow> exn + equipment) \<Rightarrow> engine_config \<Rightarrow> pyval option \<Rightarrow> exn + mcp_config" where
  "create_default_mcp_server np validate c file = (case load_equipment validate file of Inl e \<Rightarrow> Inl e | Inr eqs \<Rightarrow>
     create_mcp_server np (c\<lparr>cfg_equipment := eqs\<rparr>) eqs None False None)"

end
