(* ===== verification/McpLaws.thy ===== *)
theory McpLaws
  imports McpServer ApiLaws
begin

text \<open>
  What the MCP server promises whoever runs it: a read-only server changes nothing, a writing one cancels
  only what it submitted for its organization, even when others use the same engine, every
  submission it lets through is one the engine is correct for, and its answers are bounded.
\<close>

section \<open>Reading\<close>

lemma read_only_call:
  assumes "mg_org g = None" "call_tool g now uid k m = Some (res, m')"
  shows "m' = m"
  using assms by (cases k) auto

lemma created_read_only: "create_mcp_server np c eqs k False org = Inr g \<Longrightarrow> mg_org g = None"
  by (auto simp: create_mcp_server_def split: sum.splits if_splits)

lemma created_writing: "create_mcp_server np c eqs k True org = Inr g \<Longrightarrow> \<exists>o'. mg_org g = Some o' \<and> organization_id_re o'"
  by (auto simp: create_mcp_server_def split: sum.splits if_splits option.splits)

section \<open>Ownership\<close>

definition placed :: "ref \<Rightarrow> work_order \<Rightarrow> engine_state \<Rightarrow> engine_state" where
  "placed r w s = s\<lparr>orders := (orders s)(r := w)\<rparr>"

text \<open>
  A server and the other users of its engine: they place orders in the heap and submit them, and cancel
  whatever they like.
\<close>

inductive mcp_run :: "mcp_config \<Rightarrow> mcp_state \<Rightarrow> bool" for g where
  Created: "refs_in s \<subseteq> {..<n} \<Longrightarrow> \<forall>r\<in>refs_in s. work_order_id (orders s r) \<in> known_ids s \<Longrightarrow>
    mcp_run g \<lparr>ms_engine = s, ms_next = n, ms_owned = {}\<rparr>"
| Called: "mcp_run g m \<Longrightarrow> call_tool g now uid k m = Some (res, m') \<Longrightarrow> mcp_run g m'"
| Other_submits: "mcp_run g m \<Longrightarrow> submit_work_order c (ms_next m) (placed (ms_next m) w (ms_engine m)) = Some (out, s') \<Longrightarrow>
    mcp_run g (m\<lparr>ms_engine := s', ms_next := Suc (ms_next m)\<rparr>)"
| Other_cancels: "mcp_run g m \<Longrightarrow> Engine.cancel_work_order c i asset (ms_engine m) = (gone, s') \<Longrightarrow>
    mcp_run g (m\<lparr>ms_engine := s'\<rparr>)"

definition mcp_ok :: "string option \<Rightarrow> engine_state \<Rightarrow> ref \<Rightarrow> string set \<Rightarrow> bool" where
  "mcp_ok org s n owned \<longleftrightarrow> refs_in s \<subseteq> {..<n} \<and> owned \<subseteq> known_ids s \<and>
     (\<forall>r\<in>refs_in s. work_order_id (orders s r) \<in> known_ids s \<and>
        (work_order_id (orders s r) \<in> owned \<longrightarrow> org = Some (wo_organization (orders s r))))"

lemma placed_refs [simp]: "refs_in (placed r w s) = refs_in s" "known_ids (placed r w s) = known_ids s"
  "orders (placed r w s) r = w"
  by (simp_all add: placed_def refs_in_def)

lemma mcp_ok_placed: "mcp_ok org s n owned \<Longrightarrow> mcp_ok org (placed n w s) (Suc n) owned \<and> n \<notin> refs_in (placed n w s)"
  by (fastforce simp: mcp_ok_def placed_def refs_in_def)

lemma mcp_ok_cancel:
  assumes ok: "mcp_ok org s n owned" and c: "Engine.cancel_work_order c i asset s = (res, s')"
  shows "mcp_ok org s' n owned"
proof -
  note n = tame_names [OF cancel_tame [OF c subset_refl]]
  show ?thesis using ok n(1,2,4,5) unfolding mcp_ok_def by (metis subset_iff)
qed

lemma mcp_ok_submit:
  assumes ok: "mcp_ok org s n owned" and r: "r \<notin> refs_in s" "r < n"
    and s: "submit_work_order c r s = Some (out, s')"
    and own: "owned' = owned \<or> owned' = insert (work_order_id (orders s r)) owned \<and> (\<exists>d. out = Inr d) \<and>
      org = Some (wo_organization (orders s r))"
  shows "mcp_ok org s' n owned'"
proof (cases "work_order_id (orders s r) \<in> known_ids s")
  case True
  then have "s' = s" "\<not> (\<exists>d. out = Inr d)" using s by (auto simp: submit_known)
  with ok own show ?thesis by auto
next
  case False
  note t = tame_names [OF submit_tame [OF s subset_refl]]
  have known: "work_order_id (orders s r) \<in> known_ids s'" using submit_known_after [OF s] .
  have "refs_in s' \<subseteq> {..<n}" using t(4) ok r(2) unfolding mcp_ok_def by blast
  moreover have "owned' \<subseteq> known_ids s'" using own known ok t(5) unfolding mcp_ok_def by blast
  moreover have "work_order_id (orders s' x) \<in> known_ids s' \<and>
      (work_order_id (orders s' x) \<in> owned' \<longrightarrow> org = Some (wo_organization (orders s' x)))" if x: "x \<in> refs_in s'" for x
  proof (cases "x = r")
    case True
    have "work_order_id (orders s r) \<notin> owned" using False ok unfolding mcp_ok_def by blast
    then show ?thesis using True own known t(1,2) by auto
  next
    case no: False
    then have m: "x \<in> refs_in s" using t(4) x by blast
    then have "work_order_id (orders s x) \<in> known_ids s" using ok unfolding mcp_ok_def by blast
    then have "work_order_id (orders s x) \<noteq> work_order_id (orders s r)" using False by metis
    then show ?thesis using m ok own t(1,2,5) unfolding mcp_ok_def by (metis insert_iff subset_iff)
  qed
  ultimately show ?thesis unfolding mcp_ok_def by blast
qed

lemma built_order:
  assumes "build_order g org now uid q = Inr w"
  shows "wo_organization w = org" "requested_hours w = sa_in_hours q" "max_hourly_rate w = sa_in_rate q" "assigned_hours w = 0"
    "work_order_valid w" "status w = NEW"
  using assms by (auto simp: build_order_def mk_work_order_def Let_def split: sum.splits if_splits)

lemma submit_tool_cases:
  assumes "submit_tool g org now uid q m = Some (res, m')"
  obtains (Refused) e where "res = Inl e" "m' = m"
  | (Failed) w e s' x where "build_order g org now uid q = Inr w" "res = Inl x"
      "submit_work_order (mg_engine g) (ms_next m) (placed (ms_next m) w (ms_engine m)) = Some (Inl e, s')"
      "m' = m\<lparr>ms_engine := s', ms_next := Suc (ms_next m)\<rparr>"
  | (Taken) w d s' where "build_order g org now uid q = Inr w" "res = Inr (work_order_result_of (orders s') d)"
      "submit_work_order (mg_engine g) (ms_next m) (placed (ms_next m) w (ms_engine m)) = Some (Inr d, s')"
      "m' = m\<lparr>ms_engine := s', ms_next := Suc (ms_next m),
         ms_owned := (if is_active (orders s' (ms_next m)) then insert (work_order_id (orders s' (ms_next m))) (ms_owned m)
           else ms_owned m)\<rparr>"
proof (cases "build_order g org now uid q")
  case (Inl e)
  with assms have "res = Inl e" "m' = m" by (auto simp: submit_tool_def)
  then show ?thesis by (rule Refused)
next
  case (Inr w)
  show ?thesis
  proof (cases "submit_work_order (mg_engine g) (ms_next m) (placed (ms_next m) w (ms_engine m))")
    case None
    with assms Inr show ?thesis by (simp add: submit_tool_def placed_def)
  next
    case (Some os)
    obtain out s' where os: "os = (out, s')" by fastforce
    show ?thesis
    proof (cases out)
      case (Inl e)
      with assms Inr Some os Failed show ?thesis
        by (cases e) (auto simp: submit_tool_def placed_def)
    next
      case (Inr d)
      note parts = \<open>build_order g org now uid q = Inr w\<close> Some [unfolded os Inr]
      have "res = Inr (work_order_result_of (orders s') d)"
        "m' = m\<lparr>ms_engine := s', ms_next := Suc (ms_next m),
         ms_owned := (if is_active (orders s' (ms_next m)) then insert (work_order_id (orders s' (ms_next m))) (ms_owned m)
           else ms_owned m)\<rparr>"
        using assms parts by (simp_all add: submit_tool_def placed_def Let_def)
      then show ?thesis by (rule Taken [OF parts(1) _ parts(2)])
    qed
  qed
qed

lemma mcp_run_ok: "mcp_run g m \<Longrightarrow> mcp_ok (mg_org g) (ms_engine m) (ms_next m) (ms_owned m)"
proof (induction rule: mcp_run.induct)
  case (Created s n)
  then show ?case by (simp add: mcp_ok_def)
next
  case (Called m now uid k res m')
  note ok = Called.IH
  show ?case
  proof (cases k)
    case (Submit_order q)
    show ?thesis
    proof (cases "mg_org g")
      case None
      then show ?thesis using read_only_call Called.hyps(2) ok by blast
    next
      case (Some org)
      show ?thesis
      proof (cases "submit_arguments_ok q")
        case True
        then obtain r where "submit_tool g org now uid q m = Some (r, m')"
          using Called.hyps(2) Some Submit_order by (auto simp: map_prod_def split: prod.splits)
        then show ?thesis
        proof (cases rule: submit_tool_cases)
          case (Refused e)
          with ok show ?thesis by simp
        next
          case (Failed w e s' x)
          have "mcp_ok (mg_org g) s' (Suc (ms_next m)) (ms_owned m)"
            using mcp_ok_submit [OF _ _ _ Failed(3)] mcp_ok_placed [OF ok] by blast
          with Failed show ?thesis by simp
        next
          case (Taken w d s')
          have same: "work_order_id (orders s' (ms_next m)) = work_order_id w"
            using tame_names(1) [OF submit_tame [OF Taken(3) subset_refl]] by simp
          have "mcp_ok (mg_org g) s' (Suc (ms_next m)) (ms_owned m')"
            by (rule mcp_ok_submit [OF _ _ _ Taken(3)])
              (use mcp_ok_placed [OF ok] Taken(4) same Some built_order(1) [OF Taken(1)] in auto)
          with Taken show ?thesis by simp
        qed
      qed (use Called.hyps(2) Submit_order Some ok in simp)
    qed
  next
    case (Cancel_order i)
    show ?thesis
    proof (cases "mg_org g \<noteq> None \<and> work_order_id_input i \<and> i \<in> ms_owned m")
      case True
      obtain out s' where c: "Engine.cancel_work_order (mg_engine g) i None (ms_engine m) = (out, s')" by fastforce
      have "ms_engine m' = s' \<and> ms_next m' = ms_next m \<and> ms_owned m' \<subseteq> ms_owned m"
        using Called.hyps(2) Cancel_order True c
        by (auto simp: cancel_tool_def Let_def map_prod_def split: sum.splits option.splits prod.splits)
      with mcp_ok_cancel [OF ok c] show ?thesis unfolding mcp_ok_def by (metis subset_iff)
    next
      case False
      then have "m' = m" using Called.hyps(2) Cancel_order by (auto simp: cancel_tool_def split: option.splits if_splits)
      with ok show ?thesis by simp
    qed
  qed (use Called.hyps(2) ok in auto)
next
  case (Other_submits m c w out s')
  have "mcp_ok (mg_org g) s' (Suc (ms_next m)) (ms_owned m)"
    using mcp_ok_submit [OF _ _ _ Other_submits.hyps(2)] mcp_ok_placed [OF Other_submits.IH] by blast
  then show ?case by simp
next
  case (Other_cancels m c i asset gone s')
  from mcp_ok_cancel [OF Other_cancels.IH Other_cancels.hyps(2)] show ?case by simp
qed

text \<open>A cancellation changes an order only if the server owns it, and then it is one of its organization.\<close>

lemma mcp_cancels_own:
  assumes m: "mcp_run g m" and c: "call_tool g now uid (Cancel_order i) m = Some (res, m')"
    and x: "orders (ms_engine m') x \<noteq> orders (ms_engine m) x"
  shows "i \<in> ms_owned m \<and> work_order_id (orders (ms_engine m) x) = i \<and>
    mg_org g = Some (wo_organization (orders (ms_engine m) x))"
proof -
  have own: "mg_org g \<noteq> None" "i \<in> ms_owned m" "work_order_id_input i"
    using c x by (auto simp: cancel_tool_def split: option.splits if_splits)
  obtain out s' where e: "Engine.cancel_work_order (mg_engine g) i None (ms_engine m) = (out, s')" by fastforce
  have "ms_engine m' = s'" using c own e
    by (auto simp: cancel_tool_def Let_def map_prod_def split: sum.splits option.splits prod.splits)
  then have "x \<in> refs_in (ms_engine m)" "work_order_id (orders (ms_engine m) x) = i"
    using cancel_other [OF e subset_refl] x by blast+
  with own mcp_run_ok [OF m] show ?thesis unfolding mcp_ok_def by auto
qed

section \<open>Submission\<close>

lemma requested_hours_grid: "requested_hours_input x \<Longrightarrow> grid x"
  by (auto simp: requested_hours_input_def decimal_input_def grid_def max_requested_hours_def)

lemma hourly_rate_grid: "hourly_rate_input x \<Longrightarrow> grid x \<and> 0 < x"
  by (auto simp: hourly_rate_input_def decimal_input_def grid_def)

lemma built_order_ok:
  assumes "submit_arguments_ok q" "build_order g org now uid q = Inr w"
  shows "work_order_ok w" "remaining_hours w \<le> max_requested_hours"
proof -
  note b = built_order [OF assms(2)]
  have h: "requested_hours_input (sa_in_hours q)" using assms(1) by (simp add: submit_arguments_ok_def)
  show ok: "work_order_ok w"
    using assms(1) b requested_hours_grid [OF h] hourly_rate_grid
    by (auto simp: work_order_ok_def submit_arguments_ok_def grid_dec_rep split: option.splits)
  show "remaining_hours w \<le> max_requested_hours"
    using h b remaining_hours_exact [OF ok] by (simp add: requested_hours_input_def)
qed

text \<open>
  Every call of the submission tool returns, keeps the invariant of the engine, and its answer lists at
  most the stated number of assignments and of characters.
\<close>

definition answer_bounded :: "work_order_result \<Rightarrow> bool" where
  "answer_bounded o' \<longleftrightarrow> or_returned o' = length (or_assignments o') \<and> or_returned o' \<le> max_serialized_assignments \<and>
     (or_truncated o' \<longleftrightarrow> max_serialized_assignments < or_count o') \<and>
     (case or_reason o' of None \<Rightarrow> or_accepted o' | Some t \<Rightarrow> \<not> or_accepted o' \<and> 0 < length t \<and> length t \<le> max_rejection_reason_length)"

lemma result_bounded: "answer_bounded (work_order_result_of h d)"
  by (auto simp: answer_bounded_def work_order_result_of_def Let_def accepted_def bounded_rejection_reason_def
      rejection_detail_unavailable_def max_rejection_reason_length_def split: option.splits)

lemma engine_inv_placed:
  assumes "engine_inv s" "n \<notin> refs_in s"
  shows "engine_inv (placed n w s)"
proof (rule engine_inv_light [OF assms(1)])
  show "light n s (placed n w s)" by (simp add: light_def placed_def)
  have "set (all_refs q) \<subseteq> refs_in s" if "dict_get (queues s) x = Some q" for x q
    using dict_get_mem [OF that] by (force simp: refs_in_def)
  then show "apart n (queues s)" using assms(2) unfolding apart_def by blast
qed

lemma mcp_submission_total:
  assumes ks: "sorted_keys (key_enum (mg_engine g))" and m: "mcp_run g m" and inv: "engine_inv (ms_engine m)"
    and small: "volume (ms_engine m) < 4 * 10 ^ 19"
  shows "\<exists>res m'. call_tool g now uid (Submit_order q) m = Some (res, m') \<and> engine_inv (ms_engine m') \<and>
    (\<forall>r. res = Inr r \<longrightarrow> (\<exists>o'. r = Order o' \<and> answer_bounded o'))"
proof (cases "mg_org g")
  case None
  with inv show ?thesis by simp
next
  case (Some org)
  show ?thesis
  proof (cases "submit_arguments_ok q \<and> (\<exists>w. build_order g org now uid q = Inr w)")
    case False
    with inv Some show ?thesis by (cases "build_order g org now uid q") (auto simp: submit_tool_def)
  next
    case True
    then obtain w where q: "submit_arguments_ok q" and w: "build_order g org now uid q = Inr w" by blast
    let ?r = "ms_next m" and ?s = "placed (ms_next m) w (ms_engine m)"
    have "?r \<notin> refs_in (ms_engine m)" using mcp_run_ok [OF m] by (auto simp: mcp_ok_def)
    then have "engine_inv ?s" using inv by (rule engine_inv_placed [rotated])
    moreover have "volume ?s = volume (ms_engine m)" by (simp add: volume_def placed_def)
    then have "2 * volume ?s + 2 * remaining_hours (orders ?s ?r) < 10 ^ 20"
      using small built_order_ok(2) [OF q w] by (simp add: max_requested_hours_def)
    moreover have "work_order_ok (orders ?s ?r)" using built_order_ok(1) [OF q w] by simp
    ultimately obtain out s' where s': "submit_work_order (mg_engine g) ?r ?s = Some (out, s')" "engine_inv s'"
      using submit_total [OF ks, of ?s ?r] by blast
    show ?thesis
    proof (cases out)
      case (Inl e)
      with s' w q Some show ?thesis by (cases e) (simp_all add: submit_tool_def placed_def)
    next
      case (Inr d)
      with s' w q Some show ?thesis by (simp add: submit_tool_def placed_def result_bounded Let_def)
    qed
  qed
qed

end
