(* ===== verification/EdgeScenario.thy ===== *)
theory EdgeScenario
  imports "HOL-Library.Countable" ApiScenario ToolScenario TransformLaws PolicyLaws SerializerLaws FeedLaws McpLaws
begin

text \<open>
  Small scenes at the edges of the platform for the witnesses: three telemetry readings, a breach policy
  that has read them, a JSON library by enumeration, an adapter that is disconnected while it consumes, and
  an MCP server whose only client has one resting order.
\<close>

section \<open>Readings and policies\<close>

definition tick :: "int \<Rightarrow> rat \<Rightarrow> telemetry_reading" where
  "tick t x = \<lparr>tr_asset = ''CNC-01'', min_reading = x, max_reading = x, last_reading = x, sample_count = 2,
     tr_timestamp = Aware (t * 1000000) 0\<rparr>"

lemma tick_times: "instant (tr_timestamp (tick t x)) = t * 1000000"
  by (simp add: tick_def)

lemma tick_buckets:
  "bucket_of 60 (tick 5 x) = 0" "bucket_of 60 (tick 70 x) = 1" "bucket_of 60 (tick 80 x) = 1"
  by (simp_all add: bucket_exact tick_times)

lemma tick_intervals: "\<exists>bars. readings_to_intervals [tick 80 9, tick 5 4, tick 70 6] (VInt 60) = Inr bars"
proof -
  have f: "to_float (last_reading (tick t (numeral n))) = Fin (numeral n)" if "(numeral n :: int) \<le> 2 ^ 53" for t n
    using small_float [of "numeral n"] that by (simp add: tick_def)
  have s: "sort_readings [tick 80 9, tick 5 4, tick 70 6] = [tick 5 4, tick 70 6, tick 80 9]"
    by (simp add: sort_readings_def tick_times)
  have a: "tr_asset (tick t x) = ''CNC-01''" for t x by (simp add: tick_def)
  have "\<exists>d. collect_bars 60 [tick 5 4, tick 70 6, tick 80 9] [] = Inr d"
    by (simp add: f a tick_buckets from_timestamp_def)
  then show ?thesis unfolding readings_to_intervals_def s by (auto simp: validate_window_def as_utc_def ensure_utc_def tick_def)
qed

text \<open>Statistics by the first element; the mean of nothing is not a number.\<close>

definition numerics1 :: numerics where
  "numerics1 = numerics0\<lparr>np_mean := \<lambda>xs. case xs of [] \<Rightarrow> NaN | x # _ \<Rightarrow> x\<rparr>"

lemma numerics1_laws: "stats_laws numerics1"
  by (auto simp: stats_laws_def numerics1_def numerics0_def neq_Nil_conv split: list.split)

definition breach0 :: payload where
  "breach0 = [(''lookback'', VInt 2), (''min_ticks'', VInt 3)]"

lemma breach0_made: "\<exists>p. new_capacity_breach [press0] (Some breach0) = Inr p \<and> dict_keys (po_buffer p) = [''CNC-01'']"
  by (simp add: new_capacity_breach_def breach0_def merge_parameters_def require_int_parameter_def float_parameter_def
      py_float_def new_policy_def press0_def press_def policy.defs breach_policy.defs Let_def dict_update_def)

lemma breach0_run: "\<exists>p. breach_run numerics1 [tick 5 100, tick 6 100, tick 7 200] p"
proof -
  obtain p0 where "breach_run numerics1 [] p0" using breach0_made breach_run.Made by blast
  then have "\<exists>p. breach_run numerics1 ([] @ [r]) p" for r
    using breach_run.Read by (metis surj_pair)
  then have "\<exists>p. breach_run numerics1 ([r] @ [r']) p" for r r'
    using breach_run.Read by (metis surj_pair append_Nil)
  then have "\<exists>p. breach_run numerics1 (([r] @ [r']) @ [r'']) p" for r r' r''
    using breach_run.Read by (metis surj_pair)
  then show ?thesis by simp
qed

lemma ticks_positive: "\<forall>r\<in>set [tick 5 100, tick 6 100, tick 7 200]. \<exists>x. to_float (last_reading r) = Fin x \<and> 0 < x"
  using small_float [of 100] small_float [of 200] by (simp add: tick_def)

section \<open>A JSON library\<close>

text \<open>The text of a tree is as long as the number of the tree in an enumeration.\<close>

instance pyfloat :: countable by countable_datatype
instance datetime :: countable by countable_datatype
instance json_text :: countable by countable_datatype

definition write0 :: "bool \<Rightarrow> json_text \<Rightarrow> string" where
  "write0 pretty t = replicate (to_nat t) CHR ''x''"

definition parse0 :: "string \<Rightarrow> json_text option" where
  "parse0 s = Some (from_nat (length s))"

lemma library0: "json_library write0 parse0"
  by (simp add: json_library_def write0_def parse0_def)

definition heap_json :: "container list" where
  "heap_json = [Entries [(OStr ''b'', OInt 1), (OStr ''a'', ORef 1)], Items [ODecimal (Some 2), ONone]]"

lemma heap_json_value:
  "\<exists>text. to_json write0 heap_json (ORef 0) False = Inr text"
  "json_compatible heap_json [] (ORef 0) = Inr (VDict [(''b'', VInt 1), (''a'', VList [VNumText 2, VNone])])"
  by (simp_all add: to_json_def heap_json_def named_def)

section \<open>An adapter that is disconnected\<close>

definition adapter0 :: adapter where
  "adapter0 = \<lparr>wa_assets = [''CNC-01''], wa_delay = Fin 5, wa_running = False, wa_disconnect = True, wa_socket = True,
     wa_phase = Consuming, wa_sent = [[''CNC-01'']], wa_bus = bus0\<rparr>"

lemma adapter0_run:
  "\<exists>a. ws_run loads read_time [Received ''m'' 1 ''u'' 2] adapter0 = Some a"
  by (simp add: adapter0_def)

section \<open>An MCP server\<close>

definition server0 :: mcp_config where
  "server0 = \<lparr>mg_engine = cfg0, mg_equipment = catalogue0, mg_risk = default_calculator numerics0, mg_org = Some ''o2''\<rparr>"

definition fresh0 :: mcp_state where
  "fresh0 = \<lparr>ms_engine = new_engine heap0 bus0, ms_next = 0, ms_owned = {}\<rparr>"

definition arguments0 :: submit_arguments where
  "arguments0 = \<lparr>sa_in_asset = ''CNC-01'', sa_in_side = REQUEST, sa_in_hours = 4, sa_in_mode = Rate_capped,
     sa_in_rate = Some 60, sa_in_window = Open_window, sa_in_id = Some ''b''\<rparr>"

lemma fresh0_run: "mcp_run server0 fresh0"
  unfolding fresh0_def by (rule mcp_run.Created) (simp_all add: refs_in_def new_engine_def)

lemma fresh0_parts [simp]: "ms_engine fresh0 = new_engine heap0 bus0" "ms_next fresh0 = 0" "ms_owned fresh0 = {}"
  by (simp_all add: fresh0_def)

lemma server0_parts [simp]: "mg_engine server0 = cfg0" "mg_org server0 = Some ''o2''"
  by (simp_all add: server0_def)

lemma arguments0_ok: "submit_arguments_ok arguments0"
  by (simp add: submit_arguments_ok_def arguments0_def requested_hours_input_def hourly_rate_input_def decimal_input_def
      max_requested_hours_def asset_id_input_def work_order_id_input_def identifier_re_def) code_simp

lemma upper_cnc: "upper ''CNC-01'' = ''CNC-01''"
  by code_simp

lemma arguments0_built: "build_order server0 ''o2'' 7 ''u'' arguments0 = Inr order0"
  using order0_ok
  by (simp add: build_order_def require_equipment_def server0_def catalogue0_def arguments0_def press0_def press_def upper_cnc
      canonical_cnc mk_work_order_def work_order_ok_def order0_def plain_order_def)

definition before0 :: engine_state where
  "before0 = placed 0 order0 (new_engine heap0 bus0)"

lemma before0_simps [simp]: "orders before0 0 = order0" "known_ids before0 = {}" "volume before0 = 0" "the_queue a before0 = new_queue a"
  by (simp_all add: before0_def) (simp_all add: placed_def new_engine_def volume_def the_queue_def)

lemma before0_inv: "engine_inv before0"
  unfolding before0_def by (rule engine_inv_placed [OF engine_inv_new]) (simp add: refs_in_def new_engine_def)

lemma order0_terms: "remaining_hours order0 = 4" "side order0 = REQUEST" "rests order0" "wo_asset order0 = ''CNC-01''"
  "work_order_id order0 = ''b''" "wo_organization order0 = ''o2''"
  by (simp_all add: order0_def plain_order_def remaining_hours_def dec_sub_def rests_def)

lemma before0_admits: "decide cfg0 before0 0 = Admits" "\<not> stood_down cfg0 0 before0"
  by (simp_all add: stood_down_iff order0_terms)
    (simp_all add: decide_def validate_boundary_def cfg0_def Let_def order0_def plain_order_def)

lemma before0_rests:
  "\<exists>d s. submit_work_order cfg0 0 before0 = Some (Inr d, s) \<and> engine_inv s \<and> status (orders s 0) = ACCEPTED \<and>
     work_order_id (orders s 0) = ''b'' \<and> contains ''b'' (the_queue ''CNC-01'' s)"
proof -
  have e: "book OFFER (new_queue a) = []" for a by (simp add: new_queue_def book_def side_queue_def)
  have al: "allocation before0 0 = []"
    by (simp add: allocation_def order0_terms opposite_def e offers_of_def Let_def)
  have ok: "work_order_ok (orders before0 0)" and new: "work_order_id (orders before0 0) \<notin> known_ids before0"
    by (simp_all add: order0_ok)
  have b: "2 * volume before0 + 2 * remaining_hours (orders before0 0) < 10 ^ 20" by (simp add: order0_terms)
  obtain ms s where s: "submit_work_order cfg0 0 before0 =
      Some (Inr \<lparr>dr_work_order = 0, dr_assignments = map fst ms, rejection_reason = None\<rparr>, s)" "engine_inv s"
    and o: "matched_outcome cfg0 before0 0 ms s"
    using submit_matched_state [OF cfg0_keys before0_inv ok new b before0_admits] by blast
  have "\<exists>av now. orders s 0 = order0\<lparr>status := final_status order0 (poured []) ([] \<noteq> ([] :: (ref \<times> rat \<times> rat) list)),
      assigned_hours := assigned_hours order0 + poured [], average_rate := av, updated_at := now\<rparr>"
    using o unfolding matched_outcome_def Let_def al before0_simps by blast
  then have w: "status (orders s 0) = ACCEPTED" "work_order_id (orders s 0) = ''b''"
    by (auto simp: order0_terms final_status_def poured_def)
  have "book REQUEST (the_queue ''CNC-01'' s) = enqueue (orders s) 0 (book REQUEST (new_queue ''CNC-01''))"
    using o by (simp add: matched_outcome_def Let_def al order0_terms)
  then have "0 \<in> set (all_refs (the_queue ''CNC-01'' s))" using set_all_refs [of _ REQUEST] by (simp add: set_enqueue)
  moreover have "queue_inv (orders s) (the_queue ''CNC-01'' s)" using engine_inv_queue [OF s(2)] by (simp add: queue_ok_def)
  ultimately have "contains ''b'' (the_queue ''CNC-01'' s)" using contains_iff w(2) by blast
  with s w show ?thesis by blast
qed

lemma order0_owned:
  "\<exists>x m. call_tool server0 7 ''u'' (Submit_order arguments0) fresh0 = Some (Inr x, m) \<and> mcp_run server0 m \<and>
     engine_inv (ms_engine m) \<and> status (orders (ms_engine m) 0) = ACCEPTED \<and> ms_owned m = {''b''} \<and>
     contains ''b'' (the_queue ''CNC-01'' (ms_engine m))"
proof -
  obtain d s where s: "submit_work_order cfg0 0 before0 = Some (Inr d, s)" "engine_inv s" "status (orders s 0) = ACCEPTED"
    "work_order_id (orders s 0) = ''b''" "contains ''b'' (the_queue ''CNC-01'' s)" using before0_rests by blast
  have b: "(new_engine heap0 bus0)\<lparr>orders := (orders (new_engine heap0 bus0))(0 := order0)\<rparr> = before0"
    by (simp add: before0_def placed_def)
  have "\<exists>x m. call_tool server0 7 ''u'' (Submit_order arguments0) fresh0 = Some (Inr x, m) \<and> ms_engine m = s \<and> ms_owned m = {''b''}"
    using s(3,4) by (simp add: arguments0_ok submit_tool_def arguments0_built b s(1) is_active_def is_terminal_def)
  with s mcp_run.Called [OF fresh0_run] show ?thesis by metis
qed

lemma order0_cancelled:
  "\<exists>m res m'. mcp_run server0 m \<and> call_tool server0 8 ''v'' (Cancel_order ''b'') m = Some (res, m') \<and>
     (\<exists>x. orders (ms_engine m') x \<noteq> orders (ms_engine m) x)"
proof -
  obtain m where m: "mcp_run server0 m" "engine_inv (ms_engine m)" "status (orders (ms_engine m) 0) = ACCEPTED"
    "ms_owned m = {''b''}" "contains ''b'' (the_queue ''CNC-01'' (ms_engine m))" using order0_owned by blast
  obtain found s where c: "Engine.cancel_work_order cfg0 ''b'' None (ms_engine m) = (Inr found, s)"
    and f: "case found of None \<Rightarrow> s = ms_engine m \<and> (\<forall>a\<in>set (searched (ms_engine m) None). \<not> contains ''b'' (the_queue a (ms_engine m)))
       | Some r \<Rightarrow> cancelled_outcome (ms_engine m) ''b'' r s"
    using cancel_spec [OF m(2)] by blast
  have "''CNC-01'' \<in> set (searched (ms_engine m) None)"
  proof (rule ccontr)
    assume "''CNC-01'' \<notin> set (searched (ms_engine m) None)"
    then have "dict_get (queues (ms_engine m)) ''CNC-01'' = None"
      using dict_get_None [of "queues (ms_engine m)" "''CNC-01''"] by (simp add: searched_def)
    then have "the_queue ''CNC-01'' (ms_engine m) = new_queue ''CNC-01''" by (simp add: the_queue_def)
    then show False using m(5) by (simp add: contains_def new_queue_def)
  qed
  with m(5) f obtain r where r: "found = Some r" "cancelled_outcome (ms_engine m) ''b'' r s" by (cases found) auto
  then obtain a now where a: "r \<in> set (all_refs (the_queue a (ms_engine m)))"
    "orders s r = (orders (ms_engine m) r)\<lparr>status := CANCELLED, updated_at := now\<rparr>" unfolding cancelled_outcome_def by blast
  from a(1) have "status (orders (ms_engine m) r) \<noteq> CANCELLED"
    using engine_inv_queue [OF m(2), of a] by (auto simp: queue_ok_def resting_ok_def)
  moreover have "status (orders s r) = CANCELLED" using a(2) by simp
  ultimately have x: "orders s r \<noteq> orders (ms_engine m) r" by metis
  have i: "work_order_id_input ''b''" by code_simp
  have e: "call_tool server0 8 ''v'' (Cancel_order ''b'') m =
      Some (map_prod (map_sum id Cancellation) id (cancel_tool server0 ''b'' m))" by (simp add: i)
  have o: "ms_engine (snd (map_prod (map_sum id Cancellation) id (cancel_tool server0 ''b'' m))) = s"
    by (simp add: cancel_tool_def m(4) c r(1) Let_def split: option.split)
  obtain res m' where "call_tool server0 8 ''v'' (Cancel_order ''b'') m = Some (res, m')" "ms_engine m' = s"
    using e o by (metis prod.collapse)
  with m(1) x show ?thesis by blast
qed

end
