(* ===== verification/RunnerScenario.thy ===== *)
theory RunnerScenario
  imports CommandLaws EdgeScenario "HOL-Library.Code_Target_Nat"
begin

text \<open>
  A repository with one scenario, in which the runner starts it, the participant works on it and resets it; and a start
  that is refused half-way.
\<close>

section \<open>A JSON library\<close>

instance pyval :: countable by countable_datatype

definition js_catalogue :: pyval where
  "js_catalogue = VDict [(''schema_version'', VInt 1), (''scenarios'', VList [VStr ''a''])]"

definition js_manifest :: pyval where
  "js_manifest = VDict [(''schema_version'', VInt 1), (''id'', VStr ''a''), (''title'', VStr ''t''), (''kind'', VStr ''code''),
     (''lab'', VStr ''l''), (''summary'', VStr ''s''), (''fallback'', VStr ''workshop/fallbacks/a''),
     (''acceptance_doc'', VStr ''workshop/scenarios/a/d''),
     (''stage'', VList [VDict [(''payload'', VStr ''workshop/scenarios/a/p''), (''target'', VStr ''workshop/scenarios/a/work/f''),
        (''description'', VStr ''x'')]]),
     (''acceptance'', VDict [(''kind'', VStr ''command''), (''commands'', VList [VDict [(''label'', VStr ''c''), (''argv'', VList [VStr ''{python}''])]])])]"

definition sha0 :: "string \<Rightarrow> string" where
  "sha0 d = replicate 63 (CHR ''0'') @ (if d = ''q'' then ''1'' else ''2'')"

definition js_target :: "bool \<Rightarrow> pyval" where
  "js_target staged = VDict [(''backup'', VNone), (''existed_before'', VBool False), (''path'', VStr ''workshop/scenarios/a/work/f''),
     (''pre_mode'', VNone), (''pre_sha256'', VNone), (''staged_mode'', if staged then VStr ''0644'' else VNone),
     (''staged_sha256'', if staged then VStr (sha0 ''q'') else VNone)]"

definition js_state :: "string \<Rightarrow> bool \<Rightarrow> bool \<Rightarrow> pyval" where
  "js_state ph moved' staged = VDict [(''catalogue_sha256'', VStr (sha0 ''C'')),
     (''created_dirs'', VList [VStr ''workshop/scenarios/a/work'']), (''git'', VNone), (''manifest_sha256'', VStr (sha0 ''M'')),
     (''phase'', VStr ph), (''pre_start_work_sha256'', if moved' then VStr (sha0 ''w'') else VNone), (''repo_root'', VStr ''R''),
     (''scenario_id'', VStr ''a''), (''schema_version'', VInt 2), (''started_at'', VStr ''now''), (''targets'', VList [js_target staged]),
     (''tool_version'', VStr ''1.3.0''), (''work_dir_existed_before'', VBool True), (''work_dir_moved'', VBool moved')]"

definition js_entry :: "string \<Rightarrow> string \<Rightarrow> string \<Rightarrow> int \<Rightarrow> pyval \<Rightarrow> pyval" where
  "js_entry p k m n h = VDict [(''path'', VStr p), (''kind'', VStr k), (''mode'', VStr m), (''size'', VInt n), (''sha256'', h)]"

definition js_attempt :: pyval where
  "js_attempt = VDict [(''schema_version'', VInt 1), (''scenario_id'', VStr ''a''), (''started_at'', VStr ''now''), (''archived_at'', VStr ''then''),
     (''manifest_sha256'', VStr (sha0 ''M'')), (''catalogue_sha256'', VStr (sha0 ''C'')),
     (''baseline'', VList [VDict [(''path'', VStr ''workshop/scenarios/a/work/f''), (''sha256'', VStr (sha0 ''q'')), (''mode'', VStr ''0644'')]]),
     (''tree'', VList [js_entry ''workshop/scenarios/a/work'' ''directory'' ''0755'' 0 VNone,
        js_entry ''workshop/scenarios/a/work/f'' ''file'' ''0644'' 5 (VStr (sha0 ''fixed'')),
        js_entry ''workshop/scenarios/a/work/g'' ''file'' ''0644'' 5 (VStr (sha0 ''notes''))]),
     (''resume_blocker'', VNone)]"

text \<open>Texts of the values of the scene; any other value has a text as long as its number.\<close>

definition js_table :: "(pyval \<times> string) list" where
  "js_table = [(js_catalogue, ''C''), (js_manifest, ''M''), (js_state ''staging'' False False, ''S1''),
     (js_state ''staging'' True False, ''S2''), (js_state ''active'' True True, ''S3''), (js_attempt, ''A1'')]"

definition dump0 :: "pyval \<Rightarrow> string" where
  "dump0 v = (case map_of js_table v of Some d \<Rightarrow> d | None \<Rightarrow> CHR ''B'' # replicate (to_nat v) (CHR ''x''))"

definition load0 :: "string \<Rightarrow> pyval option" where
  "load0 d = (case map_of (map (\<lambda>(v, d). (d, v)) js_table) d of Some v \<Rightarrow> Some v | None \<Rightarrow> Some (from_nat (length d - 1)))"

lemma load_dump: "load0 (dump0 v) = Some v"
proof (cases "map_of js_table v")
  case None
  then have "dump0 v = CHR ''B'' # replicate (to_nat v) (CHR ''x'')" by (simp add: dump0_def)
  then show ?thesis by (simp add: load0_def js_table_def)
next
  case (Some d)
  then have "(v, d) \<in> set js_table" by (rule map_of_SomeD)
  then have "(d, v) \<in> set (map (\<lambda>(v, d). (d, v)) js_table)" by force
  moreover have "distinct (map fst (map (\<lambda>(v, d). (d, v)) js_table))" by (simp add: js_table_def)
  ultimately have "map_of (map (\<lambda>(v, d). (d, v)) js_table) d = Some v" by (simp del: map_map)
  with Some show ?thesis by (simp add: load0_def dump0_def)
qed

section \<open>The repository\<close>

definition mc0 :: machine where
  "mc0 = \<lparr>mc_sha = sha0, mc_dump = dump0, mc_line = (\<lambda>_. ''l''), mc_load = load0, mc_utf8 = Some, mc_aware = (\<lambda>_. Some True),
     mc_root = ''R'', mc_dir_mode = 493, mc_module = (\<lambda>_. True)\<rparr>"

definition tree0 :: tree where
  "tree0 = [([''workshop''], Directory 493), ([''workshop'', ''scenarios''], Directory 493), ([''workshop'', ''fallbacks''], Directory 493),
     ([''workshop'', ''scenarios'', ''a''], Directory 493), ([''workshop'', ''fallbacks'', ''a''], Directory 493),
     ([''workshop'', ''scenarios'', ''catalogue.json''], Regular ''C'' 420),
     ([''workshop'', ''scenarios'', ''a'', ''manifest.json''], Regular ''M'' 420),
     ([''workshop'', ''scenarios'', ''a'', ''d''], Regular ''doc'' 420),
     ([''workshop'', ''scenarios'', ''a'', ''p''], Regular ''q'' 420),
     ([''workshop'', ''scenarios'', ''a'', ''work''], Directory 493),
     ([''workshop'', ''scenarios'', ''a'', ''work'', ''n''], Regular ''mine'' 420)]"

lemma reads_back0: "reads_back mc0"
  by (simp add: reads_back_def mc0_def load_dump)

lemma well_formed_list: "list_all (\<lambda>(p, n). p \<noteq> [] \<and> is_directory t (butlast p)) t \<Longrightarrow> well_formed t"
  unfolding well_formed_def by (auto simp: list_all_iff dest!: map_of_SomeD)

lemma tree0_well_formed: "well_formed tree0"
  by (rule well_formed_list) (simp add: tree0_def is_directory_get)

lemma tree0_idle: "dict_get tree0 state_file_rel = None"
  by (simp add: tree0_def dirs)

section \<open>Start, work and reset\<close>

definition tree1 :: tree where
  "tree1 = [([''workshop''], Directory 493), ([''workshop'', ''scenarios''], Directory 493), ([''workshop'', ''fallbacks''], Directory 493),
     ([''workshop'', ''scenarios'', ''a''], Directory 493), ([''workshop'', ''fallbacks'', ''a''], Directory 493),
     ([''workshop'', ''scenarios'', ''catalogue.json''], Regular ''C'' 420),
     ([''workshop'', ''scenarios'', ''a'', ''manifest.json''], Regular ''M'' 420),
     ([''workshop'', ''scenarios'', ''a'', ''d''], Regular ''doc'' 420), ([''workshop'', ''scenarios'', ''a'', ''p''], Regular ''q'' 420),
     ([''.workshop-state'', ''backups'', ''a'', ''pre-start-work''], Directory 493),
     ([''.workshop-state'', ''backups'', ''a'', ''pre-start-work'', ''n''], Regular ''mine'' 420),
     ([''.workshop-state''], Directory 493), ([''.workshop-state'', ''state.json''], Regular ''S3'' 384),
     ([''.workshop-state'', ''backups''], Directory 493), ([''.workshop-state'', ''backups'', ''a''], Directory 493),
     ([''workshop'', ''scenarios'', ''a'', ''work''], Directory 493),
     ([''workshop'', ''scenarios'', ''a'', ''work'', ''f''], Regular ''q'' 420)]"

definition tree2 :: tree where
  "tree2 = dict_set [''workshop'', ''scenarios'', ''a'', ''work'', ''g''] (Regular ''notes'' 420)
     (dict_set [''workshop'', ''scenarios'', ''a'', ''work'', ''f''] (Regular ''fixed'' 420) tree1)"

lemma start0: "cmd_start mc0 ''now'' None True ''a'' \<lparr>wd_tree = tree0, wd_fate = []\<rparr> = (Inr (), \<lparr>wd_tree = tree1, wd_fate = []\<rparr>)"
  by code_simp

definition archive0 :: archive where
  "archive0 = \<lparr>ar_path = [''.workshop-state'', ''attempts'', ''a'', ''T-01''], ar_whole = False\<rparr>"

definition tree3 :: tree where
  "tree3 = [([''workshop''], Directory 493), ([''workshop'', ''scenarios''], Directory 493), ([''workshop'', ''fallbacks''], Directory 493),
     ([''workshop'', ''scenarios'', ''a''], Directory 493), ([''workshop'', ''fallbacks'', ''a''], Directory 493),
     ([''workshop'', ''scenarios'', ''catalogue.json''], Regular ''C'' 420),
     ([''workshop'', ''scenarios'', ''a'', ''manifest.json''], Regular ''M'' 420),
     ([''workshop'', ''scenarios'', ''a'', ''d''], Regular ''doc'' 420), ([''workshop'', ''scenarios'', ''a'', ''p''], Regular ''q'' 420),
     ([''workshop'', ''scenarios'', ''a'', ''work''], Directory 493),
     ([''workshop'', ''scenarios'', ''a'', ''work'', ''n''], Regular ''mine'' 420),
     ([''.workshop-state''], Directory 493), ([''.workshop-state'', ''backups''], Directory 493),
     ([''.workshop-state'', ''attempts''], Directory 493), ([''.workshop-state'', ''attempts'', ''a''], Directory 493),
     (ar_path archive0, Directory 493), (ar_path archive0 @ [''workshop''], Directory 493),
     (ar_path archive0 @ [''workshop'', ''scenarios''], Directory 493), (ar_path archive0 @ [''workshop'', ''scenarios'', ''a''], Directory 493),
     (ar_path archive0 @ [''workshop'', ''scenarios'', ''a'', ''work''], Directory 493),
     (ar_path archive0 @ [''workshop'', ''scenarios'', ''a'', ''work'', ''f''], Regular ''fixed'' 420),
     (ar_path archive0 @ [''workshop'', ''scenarios'', ''a'', ''work'', ''g''], Regular ''notes'' 420),
     (ar_path archive0 @ [''attempt.json''], Regular ''A1'' 384)]"

lemma reset0: "cmd_reset mc0 ''then'' ''T'' ''a'' \<lparr>wd_tree = tree2, wd_fate = []\<rparr> = (Inr (Some archive0), \<lparr>wd_tree = tree3, wd_fate = []\<rparr>)"
  by code_simp

lemma aftermath0: "aftermath mc0 ''a'' True tree1 tree2"
proof (rule aftermath.edits [OF aftermath.nothing])
  show "dict_get tree1 state_file_rel \<noteq> None" by (simp add: tree1_def dirs)
  show "well_formed tree2"
    by (rule well_formed_list) (simp add: tree2_def tree1_def is_directory_get)
  show "dict_get tree2 p = dict_get tree1 p" if "\<not> in_work ''a'' p" for p
    using that by (auto simp: tree2_def dict_simps in_work_def dirs pure_path_def slash_def)
qed simp

lemma stages0: "stages_scenario mc0 ''a'' (cmd_start mc0 ''now'' None True ''a'')"
  by (auto simp: stages_scenario_def)

section \<open>A refused start, and an invocation\<close>

lemma refused0:
  "case cmd_start mc0 ''now'' None True ''a'' \<lparr>wd_tree = tree0, wd_fate = replicate 30 Works @ [Refused]\<rparr> of
     (r, w) \<Rightarrow> r = Inl WorkshopError \<and> dict_get (wd_tree w) state_file_rel = None"
  by code_simp

definition invocation0 :: invocation where
  "invocation0 = \<lparr>iv_machine = mc0,
     iv_host = \<lparr>ho_environ = [], ho_python = ''python'', ho_python_dir = ''/usr/bin'', ho_windows = False, ho_defpath = [],
       ho_separator = CHR '':''\<rparr>,
     iv_launcher = (\<lambda>_ _ _ t. (Exits 0, t)), iv_observe = (\<lambda>_. []), iv_now = ''now'', iv_later = ''then'', iv_stamp = ''T'',
     iv_git = None, iv_held = False, iv_note = ''note''\<rparr>"

lemma invocation0_confined: "launcher_confined i (iv_launcher invocation0)"
  by (simp add: launcher_confined_def invocation0_def orderly_refl [OF orderly_stays])

end
