(* ===== verification/Settings.thy ===== *)
theory Settings
  imports Api Serializer Policies
begin

text \<open>
  The configuration of the application, the first half of \<^verbatim>\<open>main.py\<close>: reading the settings and the equipment
  strictly, and validating sections, keys and values. A configuration is a dictionary with texts as keys;
  the reading of YAML is the library's. \<^verbatim>\<open>FileNotFoundError\<close> is an \<open>OSError\<close>.
\<close>

section \<open>Files\<close>

datatype settings_file = No_file | Unreadable exn | Parsed pyval

definition load_config :: "settings_file \<Rightarrow> exn + payload" where
  "load_config file = (case file of
      No_file \<Rightarrow> Inl OSError
    | Unreadable e \<Rightarrow> Inl e
    | Parsed (VDict d) \<Rightarrow> Inr d
    | Parsed _ \<Rightarrow> Inl ValueError)"

text \<open>\<open>validate\<close> constructs equipment from the fields of an object, the model library's \<^verbatim>\<open>Equipment(**item)\<close>.\<close>

fun add_assets :: "(payload \<Rightarrow> exn + equipment) \<Rightarrow> pyval list \<Rightarrow> (string, equipment) dict \<Rightarrow> exn + (string, equipment) dict" where
  "add_assets validate [] eqs = Inr eqs"
| "add_assets validate (item # items) eqs = (case item of
      VDict d \<Rightarrow> (case validate d of Inl e \<Rightarrow> Inl e | Inr asset \<Rightarrow>
        if eq_asset_id asset \<in> set (dict_keys eqs) then Inl ValueError
        else add_assets validate items (dict_set (eq_asset_id asset) asset eqs))
    | _ \<Rightarrow> Inl ValueError)"

definition load_assets ::
  "(string \<Rightarrow> json_text option) \<Rightarrow> (payload \<Rightarrow> exn + equipment) \<Rightarrow> string option \<Rightarrow> exn + (string, equipment) dict" where
  "load_assets parse validate file = (case file of
      None \<Rightarrow> Inl OSError
    | Some text \<Rightarrow> (case from_json parse (VStr text) of
        Inl e \<Rightarrow> Inl e
      | Inr (VList items) \<Rightarrow> (case add_assets validate items [] of Inl e \<Rightarrow> Inl e | Inr eqs \<Rightarrow>
          if eqs = [] then Inl ValueError else Inr eqs)
      | Inr _ \<Rightarrow> Inl ValueError))"

section \<open>Sections and keys\<close>

definition supported_config_keys :: "(string \<times> string list) list" where
  "supported_config_keys = [(''timezone'', [''application'', ''presentation'']),
     (''server'', [''host'', ''port'', ''log_level'', ''cors_origins'', ''cors_allow_credentials'']),
     (''risk'', [''hours_volatility'']), (''database'', [''url'', ''echo'']), (''feed'', [''mode'', ''interval_ms'', ''seed'']),
     (''dashboard'', [''currency'']), (''auth'', [''key_ttl_seconds'']), (''logging'', [''level'', ''format''])]"

definition config_section :: "payload \<Rightarrow> string \<Rightarrow> exn + payload" where
  "config_section config n = (case dict_get config n of
      None \<Rightarrow> Inr [] | Some (VDict d) \<Rightarrow> Inr d | Some _ \<Rightarrow> Inl ValueError)"

text \<open>Checks one after the other: the first error is the one that is raised.\<close>

fun first_error :: "(exn + unit) list \<Rightarrow> exn + unit" where
  "first_error [] = Inr ()"
| "first_error (c # cs) = (case c of Inl e \<Rightarrow> Inl e | Inr u \<Rightarrow> first_error cs)"

definition checks :: "exn + 'a \<Rightarrow> exn + unit" where
  "checks r = map_sum id (\<lambda>_. ()) r"

definition in_section :: "payload \<Rightarrow> string \<Rightarrow> (payload \<Rightarrow> (exn + unit) list) \<Rightarrow> exn + unit" where
  "in_section config n f = (case config_section config n of Inl e \<Rightarrow> Inl e | Inr section \<Rightarrow> first_error (f section))"

definition require_that :: "bool \<Rightarrow> exn \<Rightarrow> exn + unit" where
  "require_that b e = (if b then Inr () else Inl e)"

definition validate_config_keys :: "payload \<Rightarrow> exn + unit" where
  "validate_config_keys config = first_error
     (require_that (set (dict_keys config) \<subseteq> set (dict_keys supported_config_keys)) ValueError #
      map (\<lambda>(n, ks). in_section config n (\<lambda>section. [require_that (set (dict_keys section) \<subseteq> set ks) ValueError]))
        supported_config_keys)"

section \<open>Values\<close>

definition setting :: "payload \<Rightarrow> string \<Rightarrow> pyval \<Rightarrow> pyval" where
  "setting section k fallback = (case dict_get section k of None \<Rightarrow> fallback | Some v \<Rightarrow> v)"

definition strict_bool :: "pyval \<Rightarrow> exn + bool" where
  "strict_bool v = (case v of VBool b \<Rightarrow> Inr b | _ \<Rightarrow> Inl TypeError)"

definition nonblank_string :: "pyval \<Rightarrow> exn + string" where
  "nonblank_string v = (case v of VStr s \<Rightarrow> if strip s = [] then Inl ValueError else Inr (strip s) | _ \<Rightarrow> Inl ValueError)"

definition coerce_host :: "pyval \<Rightarrow> exn + string" where
  "coerce_host v = (case v of VStr s \<Rightarrow> if strip s = [] then Inl ValueError else Inr (strip s) | _ \<Rightarrow> Inl ValueError)"

definition port_in_range :: "int \<Rightarrow> exn + int" where
  "port_in_range n = (if 1 \<le> n \<and> n \<le> 65535 then Inr n else Inl ValueError)"

definition coerce_port :: "pyval \<Rightarrow> exn + int" where
  "coerce_port v = (case v of
      VStr s \<Rightarrow> if strip s = [] \<or> \<not> list_all is_digit (strip s) then Inl ValueError
        else port_in_range (int (digits_value (strip s)))
    | VInt n \<Rightarrow> port_in_range n
    | _ \<Rightarrow> Inl TypeError)"

definition optional_positive_float :: "pyval \<Rightarrow> exn + pyfloat option" where
  "optional_positive_float v = (case v of
      VNone \<Rightarrow> Inr None
    | _ \<Rightarrow> if \<not> is_number v then Inl TypeError
        else if num_le v (VInt 0) then Inl ValueError
        else (case math_isfinite v of
            Inl e \<Rightarrow> Inl e
          | Inr fin \<Rightarrow> if fin then map_sum id Some (as_float v) else Inl ValueError))"

definition feed_mode_simulated :: string where "feed_mode_simulated = ''simulated''"
definition feed_mode_websocket :: string where "feed_mode_websocket = ''websocket''"
definition feed_modes_disabled :: "string list" where "feed_modes_disabled = [''disabled'', ''off'', ''none'']"
definition default_feed_seed :: int where "default_feed_seed = 7"

definition resolve_feed_mode :: "pyval \<Rightarrow> exn + string" where
  "resolve_feed_mode v = (case v of
      VStr s \<Rightarrow> (let normalised = lower (strip s) in
        if normalised = feed_mode_websocket then Inl ValueError
        else if normalised = feed_mode_simulated \<or> normalised \<in> set feed_modes_disabled then Inr normalised
        else Inl ValueError)
    | _ \<Rightarrow> Inl ValueError)"

text \<open>The interval in seconds; a float divided by a thousand.\<close>

definition feed_interval_seconds :: "payload \<Rightarrow> exn + pyfloat" where
  "feed_interval_seconds section = (let v = setting section ''interval_ms'' (VInt 100) in
     if \<not> is_number v then Inl TypeError
     else if num_le v (VInt 0) then Inl ValueError
     else (case math_isfinite v of
         Inl e \<Rightarrow> Inl e
       | Inr fin \<Rightarrow> if \<not> fin then Inl ValueError
           else (case as_float v of Inl e \<Rightarrow> Inl e | Inr x \<Rightarrow> f_div x (Fin 1000))))"

definition feed_seed :: "payload \<Rightarrow> exn + int" where
  "feed_seed section = (case setting section ''seed'' (VInt default_feed_seed) of
      VInt n \<Rightarrow> if 0 \<le> n \<and> n \<le> 2 ^ 32 - 1 then Inr n else Inl ValueError
    | _ \<Rightarrow> Inl TypeError)"

definition default_display_currency :: string where "default_display_currency = ''EUR''"

definition currency_ok :: "pyval \<Rightarrow> bool" where
  "currency_ok v = (case v of VStr s \<Rightarrow> length (strip s) = 3 \<and> list_all is_alpha (strip s) | _ \<Rightarrow> False)"

definition ttl_ok :: "pyval \<Rightarrow> bool" where
  "ttl_ok v = (case v of VNone \<Rightarrow> True | VInt n \<Rightarrow> 0 < n | _ \<Rightarrow> False)"

definition server_log_levels :: "string list" where
  "server_log_levels = [''critical'', ''error'', ''warning'', ''info'', ''debug'', ''trace'']"

text \<open>\<^verbatim>\<open>logging.getLevelNamesMapping()\<close>.\<close>

definition logging_levels :: "string list" where
  "logging_levels = [''CRITICAL'', ''FATAL'', ''ERROR'', ''WARN'', ''WARNING'', ''INFO'', ''DEBUG'', ''NOTSET'']"

definition level_check :: "(string \<Rightarrow> string) \<Rightarrow> string list \<Rightarrow> pyval \<Rightarrow> exn + unit" where
  "level_check casing levels v = (case nonblank_string v of Inl e \<Rightarrow> Inl e | Inr s \<Rightarrow> require_that (casing s \<in> set levels) ValueError)"

definition default_log_format :: string where
  "default_log_format = ''%(asctime)s [%(name)s] %(levelname)s: %(message)s''"

definition validate_config_values :: "payload \<Rightarrow> exn + unit" where
  "validate_config_values config = first_error
     [in_section config ''timezone'' (\<lambda>c.
        [require_that (setting c ''application'' (VStr ''UTC'') = VStr ''UTC'') ValueError,
         require_that (setting c ''presentation'' (VStr ''Europe/Berlin'') = VStr ''Europe/Berlin'') ValueError]),
      in_section config ''server'' (\<lambda>c.
        [checks (coerce_host (setting c ''host'' (VStr ''127.0.0.1''))), checks (coerce_port (setting c ''port'' (VInt 8443))),
         level_check lower server_log_levels (setting c ''log_level'' (VStr ''info'')),
         checks (validate_cors_origins (setting c ''cors_origins'' VNone)),
         checks (validate_cors_credentials (setting c ''cors_allow_credentials'' (VBool False)))]),
      in_section config ''database'' (\<lambda>c.
        [checks (nonblank_string (setting c ''url'' (VStr ''sqlite:///mittelwerk.db''))),
         checks (strict_bool (setting c ''echo'' (VBool False)))]),
      in_section config ''feed'' (\<lambda>c.
        [checks (resolve_feed_mode (setting c ''mode'' (VStr feed_mode_simulated))), checks (feed_interval_seconds c), checks (feed_seed c)]),
      in_section config ''auth'' (\<lambda>c. [require_that (ttl_ok (setting c ''key_ttl_seconds'' VNone)) ValueError]),
      in_section config ''risk'' (\<lambda>c. [checks (optional_positive_float (setting c ''hours_volatility'' VNone))]),
      in_section config ''dashboard'' (\<lambda>c. [require_that (currency_ok (setting c ''currency'' (VStr default_display_currency))) ValueError]),
      in_section config ''logging'' (\<lambda>c.
        [level_check upper logging_levels (setting c ''level'' (VStr ''INFO'')),
         checks (nonblank_string (setting c ''format'' (VStr default_log_format)))])]"

end
