(* ===== verification/Application.thy ===== *)
theory Application
  imports Settings Feed
begin

text \<open>
  The application, the second half of \<^verbatim>\<open>main.py\<close>: wiring the parts from the configuration, driving the feed,
  and starting and stopping everything exactly once. The event bus is one object that the engine and the feed
  share: it lives in the state of the engine, and the feed gets it for the time of a step.
\<close>

section \<open>Wiring\<close>

text \<open>What other code provides: the parameters of the parts, and \<^verbatim>\<open>random.Random(seed)\<close>.\<close>

record 'g app_library =
  al_engine :: engine_config
  al_heap :: heap
  al_mac :: "string \<Rightarrow> string \<Rightarrow> string"
  al_like :: "string \<Rightarrow> string \<Rightarrow> bool"
  al_numerics :: numerics
  al_mix :: "int list \<Rightarrow> int"
  al_bucket_text :: "rat \<Rightarrow> string"
  al_version :: string
  al_policies :: "string list"
  al_seeded :: "int \<Rightarrow> 'g"
  al_parse :: "string \<Rightarrow> json_text option"
  al_validate :: "payload \<Rightarrow> exn + equipment"
  al_format_ok :: "pyval \<Rightarrow> bool"

text \<open>What the process finds: its files and variables, clock and random values, whether the database accepts.\<close>

record app_environment =
  ae_settings :: settings_file
  ae_equipment :: "string option"
  ae_key :: "string option"
  ae_organization :: "string option"
  ae_secret :: "string option"
  ae_fresh :: string
  ae_now :: datetime
  ae_hex :: string
  ae_upserted :: bool

record app_arguments =
  aa_config :: "payload option"
  aa_equipment :: "(string, equipment) dict option"
  aa_manager :: "key_manager option"
  aa_store :: "telemetry_store option"
  aa_enable_store :: bool
  aa_enable_feed :: "bool option"
  aa_key :: "string option"
  aa_organization :: "string option"
  aa_permissions :: "string list option"

record 'g application =
  ra_config :: app_config
  ra_app :: app
  ra_feed :: "'g feed option"
  ra_equipment :: "(string, equipment) dict"
  ra_layers :: "layer list"
  ra_owns_store :: bool

definition nonempty_or :: "string option \<Rightarrow> string \<Rightarrow> string" where
  "nonempty_or s d = (case s of None \<Rightarrow> d | Some t \<Rightarrow> if t = [] then d else t)"

definition install_bootstrap_key ::
  "(string \<Rightarrow> string \<Rightarrow> string) \<Rightarrow> app_environment \<Rightarrow> app_arguments \<Rightarrow> (key_manager, unit) action" where
  "install_bootstrap_key mac env args =
     (let key = (case aa_key args of Some k \<Rightarrow> Some k | None \<Rightarrow> ae_key env) in
      if key = None \<or> key = Some [] then ret ()
      else (let organization = nonempty_or (aa_organization args) (nonempty_or (ae_organization env) ''local_dispatcher'');
                granted = (case aa_permissions args of Some ps \<Rightarrow> ps | None \<Rightarrow> [''read'', ''dispatch''])
            in andthen (register_key mac (ae_now env) (ae_hex env) (VStr (the key)) (VStr organization)
                 (VList (map VStr granted)) VNone) (\<lambda>_. ret ())))"

definition build_feed ::
  "payload \<Rightarrow> event_bus \<Rightarrow> (string, equipment) dict \<Rightarrow> bool option \<Rightarrow> (int \<Rightarrow> 'g) \<Rightarrow> exn + 'g feed option" where
  "build_feed section b eqs enable seeded =
     (case resolve_feed_mode (setting section ''mode'' (VStr feed_mode_simulated)) of Inl e \<Rightarrow> Inl e | Inr md \<Rightarrow>
      (case feed_interval_seconds section of Inl e \<Rightarrow> Inl e | Inr interval \<Rightarrow>
      (case feed_seed section of Inl e \<Rightarrow> Inl e | Inr seed \<Rightarrow>
       if enable = Some False \<or> enable = None \<and> md \<in> set feed_modes_disabled then Inr None
       else map_sum id Some (new_feed b (Some (dict_keys eqs)) interval False True (seeded seed)))))"

definition resolve_equipment :: "'g app_library \<Rightarrow> app_environment \<Rightarrow> app_arguments \<Rightarrow> exn + (string, equipment) dict" where
  "resolve_equipment lib env args =
     (case (case aa_equipment args of Some eqs \<Rightarrow> Inr eqs
        | None \<Rightarrow> load_assets (al_parse lib) (al_validate lib) (ae_equipment env)) of
        Inl e \<Rightarrow> Inl e
      | Inr eqs \<Rightarrow> if eqs = [] \<or> list_ex (\<lambda>(k, a). k \<noteq> eq_asset_id a) eqs then Inl ValueError else Inr eqs)"

definition resolve_config :: "app_environment \<Rightarrow> app_arguments \<Rightarrow> exn + payload" where
  "resolve_config env args =
     (case (case aa_config args of Some c \<Rightarrow> Inr c | None \<Rightarrow> load_config (ae_settings env)) of
        Inl e \<Rightarrow> Inl e
      | Inr config \<Rightarrow> (case validate_config_keys config of Inl e \<Rightarrow> Inl e | Inr _ \<Rightarrow>
          (case validate_config_values config of Inl e \<Rightarrow> Inl e | Inr _ \<Rightarrow> Inr config)))"

definition resolve_manager :: "'g app_library \<Rightarrow> app_environment \<Rightarrow> app_arguments \<Rightarrow> payload \<Rightarrow> exn + key_manager" where
  "resolve_manager lib env args config =
     (case config_section config ''auth'' of Inl e \<Rightarrow> Inl e | Inr auth \<Rightarrow>
      (case (case aa_manager args of Some m \<Rightarrow> Inr m
         | None \<Rightarrow> new_key_manager None (ae_secret env) (ae_fresh env) (setting auth ''key_ttl_seconds'' VNone)) of
         Inl e \<Rightarrow> Inl e
       | Inr m \<Rightarrow> (case install_bootstrap_key (al_mac lib) env args m of (Inl e, _) \<Rightarrow> Inl e | (Inr _, m') \<Rightarrow> Inr m')))"

text \<open>The injected store, or a store of its own, or none.\<close>

definition resolve_store :: "app_arguments \<Rightarrow> payload \<Rightarrow> exn + telemetry_store option \<times> bool" where
  "resolve_store args config = (case aa_store args of
      Some s \<Rightarrow> Inr (Some s, False)
    | None \<Rightarrow> if \<not> aa_enable_store args then Inr (None, False)
        else (case config_section config ''database'' of Inl e \<Rightarrow> Inl e | Inr db \<Rightarrow>
         (case nonblank_string (setting db ''url'' (VStr ''sqlite:///mittelwerk.db'')) of Inl e \<Rightarrow> Inl e | Inr url \<Rightarrow>
         (case strict_bool (setting db ''echo'' (VBool False)) of Inl e \<Rightarrow> Inl e | Inr _ \<Rightarrow>
          map_sum id (\<lambda>s. (Some s, True)) (new_store url)))))"

definition fill_store ::
  "bool \<Rightarrow> (string, equipment) dict \<Rightarrow> telemetry_store option \<Rightarrow> (exn + unit) \<times> telemetry_store option" where
  "fill_store ok eqs store = (case store of
      None \<Rightarrow> (Inr (), None)
    | Some s \<Rightarrow> (case upsert_equipments ok (dict_values eqs) s of (r, s') \<Rightarrow> (map_sum id (\<lambda>_. ()) r, Some s')))"

text \<open>Wiring failed: a store of its own is closed, an injected one is left as it is.\<close>

definition give_up :: "bool \<Rightarrow> telemetry_store option \<Rightarrow> telemetry_store option" where
  "give_up owns store = (if owns then map_option close_store store else store)"

definition opt_float_value :: "pyfloat option \<Rightarrow> pyval" where
  "opt_float_value v = (case v of None \<Rightarrow> VNone | Some x \<Rightarrow> VFloat x)"

definition build_service :: "engine_config \<Rightarrow> payload \<Rightarrow> exn + service_config" where
  "build_service ec config =
     (case config_section config ''risk'' of Inl e \<Rightarrow> Inl e | Inr risk \<Rightarrow>
      (case config_section config ''dashboard'' of Inl e \<Rightarrow> Inl e | Inr dashboard \<Rightarrow>
      (case optional_positive_float (setting risk ''hours_volatility'' VNone) of Inl e \<Rightarrow> Inl e | Inr vol \<Rightarrow>
       new_service ec (setting dashboard ''currency'' (VStr default_display_currency)) (opt_float_value vol))))"

definition section_or_empty :: "payload \<Rightarrow> string \<Rightarrow> payload" where
  "section_or_empty config n = (case config_section config n of Inl e \<Rightarrow> [] | Inr d \<Rightarrow> d)"

definition assemble ::
  "'g app_library \<Rightarrow> service_config \<Rightarrow> (string, equipment) dict \<Rightarrow> event_bus \<Rightarrow> key_manager \<Rightarrow> telemetry_store option \<Rightarrow> bool \<Rightarrow>
   'g feed option \<Rightarrow> layer list \<Rightarrow> 'g application" where
  "assemble lib sc eqs b manager store owns feed layers =
     \<lparr>ra_config = \<lparr>ac_service = sc, ac_mac = al_mac lib, ac_public = default_public_paths, ac_like = al_like lib,
        ac_numerics = al_numerics lib, ac_mix = al_mix lib, ac_bucket_text = al_bucket_text lib, ac_version = al_version lib,
        ac_policies = al_policies lib, ac_feed = (feed \<noteq> None)\<rparr>,
      ra_app = \<lparr>ap_ready = True, ap_service = open_service (new_engine (al_heap lib) b) store, ap_keys = manager,
        ap_metrics = platform_registry, ap_next = 0, ap_feed_task = NoTask\<rparr>,
      ra_feed = feed, ra_equipment = eqs, ra_layers = layers, ra_owns_store = owns\<rparr>"

text \<open>The result, and what has become of the store.\<close>

definition create_app ::
  "'g app_library \<Rightarrow> app_environment \<Rightarrow> app_arguments \<Rightarrow> (exn + 'g application) \<times> telemetry_store option" where
  "create_app lib env args =
     (case resolve_config env args of Inl e \<Rightarrow> (Inl e, aa_store args) | Inr config \<Rightarrow>
      (case resolve_equipment lib env args of Inl e \<Rightarrow> (Inl e, aa_store args) | Inr eqs \<Rightarrow>
      (case new_event_bus True 10000 of Inl e \<Rightarrow> (Inl e, aa_store args) | Inr b \<Rightarrow>
      (case resolve_manager lib env args config of Inl e \<Rightarrow> (Inl e, aa_store args) | Inr manager \<Rightarrow>
      (case resolve_store args config of Inl e \<Rightarrow> (Inl e, aa_store args) | Inr (store, owns) \<Rightarrow>
      (case fill_store (ae_upserted env) eqs store of (Inl e, store') \<Rightarrow> (Inl e, give_up owns store') | (Inr _, store') \<Rightarrow>
      (case build_service ((al_engine lib)\<lparr>cfg_equipment := eqs, pre_check := None\<rparr>) config of
         Inl e \<Rightarrow> (Inl e, give_up owns store') | Inr sc \<Rightarrow>
      (case build_feed (section_or_empty config ''feed'') b eqs (aa_enable_feed args) (al_seeded lib) of
         Inl e \<Rightarrow> (Inl e, give_up owns store') | Inr feed \<Rightarrow>
      (case configure_middleware (setting (section_or_empty config ''server'') ''cors_origins'' VNone)
            (setting (section_or_empty config ''server'') ''cors_allow_credentials'' (VBool False)) of
         Inl e \<Rightarrow> (Inl e, store')
       | Inr layers \<Rightarrow> (Inr (assemble lib sc eqs b manager store' owns feed layers), store'))))))))))"

section \<open>Driving the feed\<close>

text \<open>
  The body of \<^verbatim>\<open>_pump_feed\<close> for one reading: the feed produces it on the shared bus, then the workloads of its
  asset are repriced. An exception ends the task.
\<close>

definition share_bus :: "event_bus \<Rightarrow> 'g feed \<Rightarrow> 'g feed" where
  "share_bus b f = f\<lparr>fd_bus := b\<rparr>"

definition on_engine :: "(engine_state \<Rightarrow> engine_state) \<Rightarrow> 'g application \<Rightarrow> 'g application" where
  "on_engine f a = a\<lparr>ra_app := (ra_app a)\<lparr>ap_service := (ap_service (ra_app a))\<lparr>sv_engine := f (sv_engine (ap_service (ra_app a)))\<rparr>\<rparr>\<rparr>"

definition the_engine :: "'g application \<Rightarrow> engine_state" where
  "the_engine a = sv_engine (ap_service (ra_app a))"

definition end_task :: "'g application \<Rightarrow> 'g application" where
  "end_task a = a\<lparr>ra_app := (ra_app a)\<lparr>ap_feed_task := TaskDone\<rparr>\<rparr>"

definition pump_reading ::
  "math_functions \<Rightarrow> 'g random_source \<Rightarrow> string \<times> string \<times> int \<times> int \<Rightarrow> ('g application, unit) action" where
  "pump_reading m rs stamp a = (case stamp of (asset, uid, now, later) \<Rightarrow>
     (case ra_feed a of None \<Rightarrow> (Inr (), a) | Some f0 \<Rightarrow>
      (case dict_get (fd_simulators f0) asset of None \<Rightarrow> (Inr (), a) | Some s \<Rightarrow>
       (case produce_reading m rs uid now later asset s (share_bus (bus (the_engine a)) f0) of
          (Inl e, f) \<Rightarrow> (Inl e, end_task (a\<lparr>ra_feed := Some f\<rparr>))
        | (Inr r, f) \<Rightarrow>
            (Inr (), on_engine (\<lambda>s. snd (reprice_asset (sc_engine (ac_service (ra_config a))) (tr_asset r) (last_reading r)
                 (s\<lparr>bus := fd_bus f\<rparr>))) (a\<lparr>ra_feed := Some f\<rparr>))))))"

text \<open>The pump along the readings it is asked for; it ends when the feed has stopped.\<close>

definition feed_is_running :: "'g application \<Rightarrow> bool" where
  "feed_is_running a = (case ra_feed a of None \<Rightarrow> False | Some f \<Rightarrow> fd_running f)"

fun pump_feed ::
  "math_functions \<Rightarrow> 'g random_source \<Rightarrow> (string \<times> string \<times> int \<times> int) list \<Rightarrow> ('g application, unit) action" where
  "pump_feed m rs [] a = (Inr (), a)"
| "pump_feed m rs (x # xs) a =
     (if feed_is_running a then andthen (pump_reading m rs x) (\<lambda>_. pump_feed m rs xs) a else (Inr (), end_task a))"

section \<open>Shutdown\<close>

datatype control = Cancelled | Interrupt

datatype step_result = Succeeded | Failed exn | Stopped_by control

record shutdown_outcome =
  so_failures :: "exn list"
  so_controlling :: "control option"

definition note_result :: "step_result \<Rightarrow> shutdown_outcome \<Rightarrow> shutdown_outcome" where
  "note_result r out = (case r of
      Succeeded \<Rightarrow> out
    | Failed e \<Rightarrow> out\<lparr>so_failures := so_failures out @ [e]\<rparr>
    | Stopped_by k \<Rightarrow> (if so_controlling out = None then out\<lparr>so_controlling := Some k\<rparr> else out))"

fun run_steps :: "('s \<Rightarrow> step_result \<times> 's) list \<Rightarrow> shutdown_outcome \<Rightarrow> 's \<Rightarrow> shutdown_outcome \<times> 's" where
  "run_steps [] out s = (out, s)"
| "run_steps (f # fs) out s = (case f s of (r, s') \<Rightarrow> run_steps fs (note_result r out) s')"

text \<open>
  How the feed task ends while it is awaited, \<^verbatim>\<open>_stop_task\<close>: it returns, raises, overruns and is cancelled (and
  raises or not), had been cancelled, or the awaiting task itself is cancelled.
\<close>

datatype task_end = Returned | Raised exn | Overran "exn option" | Was_cancelled | Caller_cancelled

definition stop_task :: "task_end \<Rightarrow> step_result" where
  "stop_task t = (case t of
      Returned \<Rightarrow> Succeeded | Raised e \<Rightarrow> Failed e | Overran None \<Rightarrow> Succeeded | Overran (Some e) \<Rightarrow> Failed e
    | Was_cancelled \<Rightarrow> Succeeded | Caller_cancelled \<Rightarrow> Stopped_by Cancelled)"

text \<open>
  What can go wrong while the resources are released: how the task ends, and whether stopping the bus or closing
  the store fails or is interrupted and what it has done by then.
\<close>

record teardown_faults =
  tf_task :: task_end
  tf_bus :: "(step_result \<times> event_bus) option"
  tf_store :: "(step_result \<times> telemetry_store) option"

definition stop_feed_step :: "'g application \<Rightarrow> step_result \<times> 'g application" where
  "stop_feed_step a = (Succeeded, a\<lparr>ra_feed := map_option (\<lambda>f. snd (stop_feed f)) (ra_feed a)\<rparr>)"

definition stop_task_step :: "teardown_faults \<Rightarrow> 'g application \<Rightarrow> step_result \<times> 'g application" where
  "stop_task_step t a = (stop_task (tf_task t),
     if tf_task t = Caller_cancelled then a else end_task a)"

definition stop_bus_step :: "teardown_faults \<Rightarrow> 'g application \<Rightarrow> step_result \<times> 'g application" where
  "stop_bus_step t a = (case tf_bus t of
      None \<Rightarrow> (Succeeded, on_engine (\<lambda>s. s\<lparr>bus := snd (stop_bus (bus s))\<rparr>) a)
    | Some (r, b) \<Rightarrow> (r, on_engine (\<lambda>s. s\<lparr>bus := b\<rparr>) a))"

definition on_store :: "(telemetry_store \<Rightarrow> telemetry_store) \<Rightarrow> 'g application \<Rightarrow> 'g application" where
  "on_store f a = a\<lparr>ra_app := (ra_app a)\<lparr>ap_service := (ap_service (ra_app a))\<lparr>sv_store := map_option f (sv_store (ap_service (ra_app a)))\<rparr>\<rparr>\<rparr>"

definition close_store_step :: "teardown_faults \<Rightarrow> 'g application \<Rightarrow> step_result \<times> 'g application" where
  "close_store_step t a = (case tf_store t of
      None \<Rightarrow> (Succeeded, on_store close_store a)
    | Some (r, s) \<Rightarrow> (r, on_store (\<lambda>_. s) a))"

text \<open>\<open>feed\<close>, \<open>task\<close> and \<open>store\<close> say what had been acquired; the bus always had.\<close>

definition release_resources ::
  "teardown_faults \<Rightarrow> bool \<Rightarrow> bool \<Rightarrow> bool \<Rightarrow> 'g application \<Rightarrow> shutdown_outcome \<times> 'g application" where
  "release_resources t feed task store = run_steps
     ((if feed then [stop_feed_step] else []) @ (if task then [stop_task_step t] else []) @ [stop_bus_step t] @
      (if store then [close_store_step t] else [])) \<lparr>so_failures = [], so_controlling = None\<rparr>"

text \<open>How the life cycle ends.\<close>

datatype ending = Ends | Raises_exn exn | Raises_control control | Raises_group "exn list"

definition report_shutdown_failures :: "shutdown_outcome \<Rightarrow> ending \<Rightarrow> ending" where
  "report_shutdown_failures out in_flight =
     (case so_controlling out of
        Some k \<Rightarrow> Raises_control k
      | None \<Rightarrow>
          if so_failures out = [] then in_flight
          else if in_flight \<noteq> Ends then in_flight
          else (case so_failures out of [e] \<Rightarrow> Raises_exn e | es \<Rightarrow> Raises_group es))"

section \<open>Life cycle\<close>

definition start_app :: "'g random_source \<Rightarrow> ('g application, unit) action" where
  "start_app rs a0 =
     (let a = on_engine (\<lambda>s. s\<lparr>bus := start_bus (bus s)\<rparr>) (a0\<lparr>ra_app := (ra_app a0)\<lparr>ap_feed_task := NoTask\<rparr>\<rparr>) in
      case ra_feed a of
        None \<Rightarrow> (Inr (), a)
      | Some f \<Rightarrow> (case start_feed rs f of
            (Inl e, f') \<Rightarrow> (Inl e, a\<lparr>ra_feed := Some f'\<rparr>)
          | (Inr _, f') \<Rightarrow> (Inr (), a\<lparr>ra_feed := Some f', ra_app := (ra_app a)\<lparr>ap_feed_task := TaskPending\<rparr>\<rparr>)))"

definition finish_app ::
  "teardown_faults \<Rightarrow> bool \<Rightarrow> bool \<Rightarrow> bool \<Rightarrow> ending \<Rightarrow> 'g application \<Rightarrow> ending \<times> 'g application" where
  "finish_app t feed task owns in_flight a =
     (case release_resources t feed task owns a of
        (out, a') \<Rightarrow> (report_shutdown_failures out in_flight, a'\<lparr>ra_app := (ra_app a')\<lparr>ap_feed_task := NoTask\<rparr>\<rparr>))"

text \<open>\<open>serve\<close> is the time between startup and shutdown: how it ends and the state it leaves.\<close>

definition lifespan ::
  "'g random_source \<Rightarrow> teardown_faults \<Rightarrow> ('g application \<Rightarrow> ending \<times> 'g application) \<Rightarrow> 'g application \<Rightarrow> ending \<times> 'g application" where
  "lifespan rs t serve a = (case start_app rs a of
      (Inl e, a1) \<Rightarrow> finish_app t (ra_feed a \<noteq> None) False (ra_owns_store a) (Raises_exn e) a1
    | (Inr _, a1) \<Rightarrow> (case serve a1 of (in_flight, a2) \<Rightarrow>
        finish_app t (ra_feed a \<noteq> None) (ra_feed a \<noteq> None) (ra_owns_store a) in_flight a2))"

section \<open>Command line\<close>

text \<open>The address \<^verbatim>\<open>main\<close> binds to, and the application; the arguments are parsed by the library.\<close>

definition main_address :: "string option \<Rightarrow> string option \<Rightarrow> payload \<Rightarrow> exn + string \<times> int" where
  "main_address host port config = (case config_section config ''server'' of Inl e \<Rightarrow> Inl e | Inr server \<Rightarrow>
     (case coerce_host (case host of Some h \<Rightarrow> VStr h | None \<Rightarrow> setting server ''host'' (VStr ''127.0.0.1'')) of Inl e \<Rightarrow> Inl e | Inr h \<Rightarrow>
      map_sum id (Pair h) (coerce_port (case port of Some p \<Rightarrow> VStr p | None \<Rightarrow> setting server ''port'' (VInt 8443)))))"

definition default_arguments :: "payload \<Rightarrow> app_arguments" where
  "default_arguments config = \<lparr>aa_config = Some config, aa_equipment = None, aa_manager = None, aa_store = None,
     aa_enable_store = True, aa_enable_feed = None, aa_key = None, aa_organization = None, aa_permissions = None\<rparr>"

text \<open>\<^verbatim>\<open>logging.basicConfig\<close> takes the level in upper case but as it stands, unlike the validation, which strips it.\<close>

definition basic_config :: "(pyval \<Rightarrow> bool) \<Rightarrow> payload \<Rightarrow> exn + unit" where
  "basic_config format_ok section = require_that (format_ok (setting section ''format'' (VStr default_log_format)) \<and>
     (case setting section ''level'' (VStr ''INFO'') of VStr s \<Rightarrow> upper s \<in> set logging_levels | _ \<Rightarrow> False)) ValueError"

definition run_main ::
  "'g app_library \<Rightarrow> app_environment \<Rightarrow> string option \<Rightarrow> string option \<Rightarrow> exn + string \<times> int \<times> 'g application" where
  "run_main lib env host port = (case load_config (ae_settings env) of Inl e \<Rightarrow> Inl e | Inr config \<Rightarrow>
     (case config_section config ''logging'' of Inl e \<Rightarrow> Inl e | Inr logs' \<Rightarrow>
     (case basic_config (al_format_ok lib) logs' of Inl e \<Rightarrow> Inl e | Inr _ \<Rightarrow>
     (case main_address host port config of Inl e \<Rightarrow> Inl e | Inr (h, p) \<Rightarrow>
      (case fst (create_app lib env (default_arguments config)) of Inl e \<Rightarrow> Inl e | Inr a \<Rightarrow> Inr (h, p, a))))))"

end
