(* ===== verification/ApplicationLaws.thy ===== *)
theory ApplicationLaws
  imports Application ApiLaws FeedLaws KeyLaws
begin

text \<open>
  Laws of the application: a validated configuration can always be wired, a failed construction closes the
  store it opened, the constructed application is one the interface can serve, the feed moves nothing but
  marks, and the shutdown releases everything whatever fails.
\<close>

section \<open>Validated configurations\<close>

lemma first_error_Inr [simp]: "first_error cs = Inr u \<longleftrightarrow> (\<forall>c\<in>set cs. c = Inr ())"
  by (induction cs) (auto split: sum.splits)

declare first_error.simps [simp del]

lemma in_section_Inr [simp]:
  "in_section config n f = Inr u \<longleftrightarrow> (\<exists>s. config_section config n = Inr s \<and> (\<forall>c\<in>set (f s). c = Inr ()))"
  by (auto simp: in_section_def split: sum.splits)

lemma checks_Inr [simp]: "checks r = Inr u \<longleftrightarrow> (\<exists>x. r = Inr x)"
  by (cases r) (simp_all add: checks_def)

lemma require_that_Inr [simp]: "require_that b e = Inr u \<longleftrightarrow> b"
  by (simp add: require_that_def)

lemma resolve_configD:
  assumes "resolve_config env args = Inr config"
  shows "validate_config_keys config = Inr ()" "validate_config_values config = Inr ()"
  using assms by (auto simp: resolve_config_def split: sum.splits)

lemma validated_server:
  assumes "validate_config_values config = Inr ()"
  obtains s h p origins creds where "config_section config ''server'' = Inr s"
    "coerce_host (setting s ''host'' (VStr ''127.0.0.1'')) = Inr h" "coerce_port (setting s ''port'' (VInt 8443)) = Inr p"
    "validate_cors_origins (setting s ''cors_origins'' VNone) = Inr origins"
    "validate_cors_credentials (setting s ''cors_allow_credentials'' (VBool False)) = Inr creds"
  using assms by (auto simp: validate_config_values_def)

lemma validated_database:
  assumes "validate_config_values config = Inr ()"
  obtains s url echo where "config_section config ''database'' = Inr s"
    "nonblank_string (setting s ''url'' (VStr ''sqlite:///mittelwerk.db'')) = Inr url"
    "strict_bool (setting s ''echo'' (VBool False)) = Inr echo"
  using assms by (auto simp: validate_config_values_def)

lemma validated_feed:
  assumes "validate_config_values config = Inr ()"
  obtains s md interval seed where "config_section config ''feed'' = Inr s"
    "resolve_feed_mode (setting s ''mode'' (VStr feed_mode_simulated)) = Inr md"
    "feed_interval_seconds s = Inr interval" "feed_seed s = Inr seed"
  using assms by (auto simp: validate_config_values_def)

lemma validated_rest:
  assumes "validate_config_values config = Inr ()"
  obtains auth risk vol dash logs' where "config_section config ''auth'' = Inr auth" "ttl_ok (setting auth ''key_ttl_seconds'' VNone)"
    "config_section config ''risk'' = Inr risk" "optional_positive_float (setting risk ''hours_volatility'' VNone) = Inr vol"
    "config_section config ''dashboard'' = Inr dash" "currency_ok (setting dash ''currency'' (VStr default_display_currency))"
    "config_section config ''logging'' = Inr logs'"
  using assms by (auto simp: validate_config_values_def)

lemma middleware_configured:
  assumes "validate_config_values config = Inr ()"
  shows "\<exists>layers. configure_middleware (setting (section_or_empty config ''server'') ''cors_origins'' VNone)
    (setting (section_or_empty config ''server'') ''cors_allow_credentials'' (VBool False)) = Inr layers"
  by (rule validated_server [OF assms]) (simp add: section_or_empty_def configure_middleware_def)

lemma address_resolved:
  assumes "validate_config_values config = Inr ()"
  shows "\<exists>h p. main_address None None config = Inr (h, p) \<and> h \<noteq> [] \<and> 1 \<le> p \<and> p \<le> 65535"
  by (rule validated_server [OF assms])
    (auto simp: main_address_def coerce_host_def coerce_port_def port_in_range_def split: pyval.splits if_splits)

text \<open>A positive finite number has a positive finite float.\<close>

lemma positive_as_float:
  assumes "is_number v" "\<not> num_le v (VInt 0)" "math_isfinite v = Inr True" "as_float v = Inr x"
  obtains y where "x = Fin y" "0 < y" "(\<And>z. v = VFloat z \<Longrightarrow> f_ok z) \<Longrightarrow> fl_rep y"
proof (cases v)
  case (VInt n)
  then obtain y where y: "x = Fin y" "to_float (of_int n) = Fin y"
    using assms(4) by (cases "to_float (rat_of_int n)") (auto simp: int_to_float_def)
  moreover have "1 \<le> n" using assms(2) VInt by (simp add: num_le_def f_le_def)
  then have "(1::rat) \<le> fl (of_int n)" using fl_rep_of_int [of 1] by (intro fl_ge_rep) (simp_all add: fl_rep_def)
  ultimately show ?thesis using that to_float_Fin [of "of_int n" y] by force
next
  case (VFloat z)
  then show ?thesis using assms that by (cases z) (auto simp: math_isfinite_def num_le_def f_le_def)
qed (use assms in auto)

definition floats_ok :: "pyval \<Rightarrow> bool" where
  "floats_ok v \<longleftrightarrow> (\<forall>x. v = VFloat x \<longrightarrow> f_ok x)"

lemma interval_nonneg:
  assumes "feed_interval_seconds s = Inr interval" "floats_ok (setting s ''interval_ms'' (VInt 100))"
  shows "\<not> f_lt interval (Fin 0) \<and> is_finite interval"
proof -
  let ?v = "setting s ''interval_ms'' (VInt 100)"
  from assms(1) obtain x where x: "is_number ?v" "\<not> num_le ?v (VInt 0)" "math_isfinite ?v = Inr True" "as_float ?v = Inr x"
    "f_div x (Fin 1000) = Inr interval"
    by (auto simp: feed_interval_seconds_def Let_def split: if_splits sum.splits)
  obtain y where y: "x = Fin y" "0 < y" "fl_rep y"
    using assms(2) positive_as_float [OF x(1-4)] unfolding floats_ok_def by metis
  then have "to_float (y / 1000) = Fin (fl (y / 1000))" "0 \<le> fl (y / 1000)"
    using to_float_bounded [of "y / 1000" y] y(2) by simp_all
  moreover from this(1) have "interval = Fin (fl (y / 1000))" using x(5) y(1) by simp
  ultimately show ?thesis by simp
qed

lemma feed_built:
  assumes "validate_config_values config = Inr ()" "floats_ok (setting (section_or_empty config ''feed'') ''interval_ms'' (VInt 100))"
  shows "\<exists>feed. build_feed (section_or_empty config ''feed'') b eqs enable seeded = Inr feed"
  by (rule validated_feed [OF assms(1)])
    (use assms(2) interval_nonneg in \<open>auto simp: build_feed_def section_or_empty_def new_feed_def\<close>)

lemma positive_floatD:
  assumes "optional_positive_float v = Inr (Some x)"
  obtains y where "x = Fin y" "0 < y"
proof -
  have "is_number v" "\<not> num_le v (VInt 0)" "math_isfinite v = Inr True" "as_float v = Inr x"
    using assms by (auto simp: optional_positive_float_def map_sum_Inr split: pyval.splits if_splits sum.splits)
  then show ?thesis using that by (rule positive_as_float)
qed

lemma service_built:
  assumes "validate_config_values config = Inr ()"
  shows "\<exists>sc. build_service ec config = Inr sc \<and> sc_engine sc = ec"
proof -
  obtain auth risk vol dash logs' where v: "config_section config ''risk'' = Inr risk"
    "optional_positive_float (setting risk ''hours_volatility'' VNone) = Inr vol" "config_section config ''dashboard'' = Inr dash"
    "currency_ok (setting dash ''currency'' (VStr default_display_currency))"
    using assms by (rule validated_rest)
  from v(4) obtain c where c: "setting dash ''currency'' (VStr default_display_currency) = VStr c" "length (strip c) = 3"
    "list_all is_alpha (strip c)" by (auto simp: currency_ok_def split: pyval.splits)
  show ?thesis
  proof (cases vol)
    case None
    with v c show ?thesis by (simp add: build_service_def new_service_def opt_float_value_def)
  next
    case (Some x)
    obtain y where "x = Fin y" "0 < y" using v(2) unfolding Some by (rule positive_floatD)
    with v c Some show ?thesis by (simp add: build_service_def new_service_def opt_float_value_def num_le_def f_le_def)
  qed
qed

section \<open>Construction\<close>

lemma upsert_close: "upsert_equipments ok es s = (r, s') \<Longrightarrow> is_closed s' = is_closed s \<and> st_readings s' = st_readings s \<and>
   st_intervals s' = st_intervals s \<and> st_assignments s' = st_assignments s"
  by (auto simp: upsert_equipments_def in_session_def split: sum.splits if_splits)

lemma fill_store_frame:
  assumes "fill_store ok eqs store = (r, store')"
  shows "(store' = None) = (store = None)" "store = Some s \<Longrightarrow> \<exists>s'. store' = Some s' \<and> is_closed s' = is_closed s \<and>
     st_readings s' = st_readings s \<and> st_intervals s' = st_intervals s \<and> st_assignments s' = st_assignments s"
  using assms upsert_close by (auto simp: fill_store_def split: option.splits prod.splits)

lemma resolve_store_cases:
  assumes "resolve_store args config = Inr (store, owns)"
  shows "if owns then aa_store args = None \<and> (\<exists>s. store = Some s) else store = aa_store args"
  using assms by (auto simp: resolve_store_def map_sum_Inr split: option.splits if_splits sum.splits)

text \<open>The outcomes of the construction; the middleware cannot refuse what has been validated.\<close>

lemma create_app_cases:
  assumes "create_app lib env args = (res, store')"
  obtains (Early) e where "res = Inl e" "store' = aa_store args"
  | (Wiring) e config eqs store owns r s where "res = Inl e" "resolve_config env args = Inr config"
      "resolve_store args config = Inr (store, owns)" "fill_store (ae_upserted env) eqs store = (r, s)" "store' = give_up owns s"
  | (Built) config eqs b manager store owns u sc feed layers where
      "res = Inr (assemble lib sc eqs b manager store' owns feed layers)" "resolve_config env args = Inr config"
      "resolve_equipment lib env args = Inr eqs" "new_event_bus True 10000 = Inr b" "resolve_manager lib env args config = Inr manager"
      "resolve_store args config = Inr (store, owns)" "fill_store (ae_upserted env) eqs store = (Inr u, store')"
      "build_service ((al_engine lib)\<lparr>cfg_equipment := eqs, pre_check := None\<rparr>) config = Inr sc"
      "build_feed (section_or_empty config ''feed'') b eqs (aa_enable_feed args) (al_seeded lib) = Inr feed"
proof (cases "resolve_config env args")
  case (Inr config)
  obtain layers where l: "configure_middleware (setting (section_or_empty config ''server'') ''cors_origins'' VNone)
      (setting (section_or_empty config ''server'') ''cors_allow_credentials'' (VBool False)) = Inr layers"
    using middleware_configured [OF resolve_configD(2) [OF Inr]] by blast
  show ?thesis
  proof (cases "resolve_equipment lib env args")
    case e: (Inr eqs)
    show ?thesis
    proof (cases "new_event_bus True 10000")
      case b: (Inr b)
      show ?thesis
      proof (cases "resolve_manager lib env args config")
        case m: (Inr manager)
        show ?thesis
        proof (cases "resolve_store args config")
          case s: (Inr so)
          obtain store owns r s' where so: "so = (store, owns)" "fill_store (ae_upserted env) eqs store = (r, s')"
            by (metis surj_pair)
          note all = Inr e b m s [unfolded so(1)] so(2) l
          show ?thesis
            using assms that(2) [OF _ Inr s [unfolded so(1)] so(2)] that(3) [OF _ Inr e b m s [unfolded so(1)]] all
            by (auto simp: create_app_def split: sum.splits)
        qed (use assms Inr e b m that(1) in \<open>auto simp: create_app_def\<close>)
      qed (use assms Inr e b that(1) in \<open>auto simp: create_app_def\<close>)
    qed (use assms Inr e that(1) in \<open>auto simp: create_app_def\<close>)
  qed (use assms Inr that(1) in \<open>auto simp: create_app_def\<close>)
qed (use assms that(1) in \<open>auto simp: create_app_def\<close>)

text \<open>What a construction that fails does to the store.\<close>

definition untouched :: "telemetry_store \<Rightarrow> telemetry_store \<Rightarrow> bool" where
  "untouched s s' \<longleftrightarrow> is_closed s' = is_closed s \<and> st_readings s' = st_readings s \<and> st_intervals s' = st_intervals s \<and>
     st_assignments s' = st_assignments s"

lemma create_app_store:
  assumes "create_app lib env args = (res, store')"
  shows "case aa_store args of
      Some s \<Rightarrow> \<exists>s'. store' = Some s' \<and> untouched s s'
    | None \<Rightarrow> (\<forall>e s. res = Inl e \<longrightarrow> store' = Some s \<longrightarrow> is_closed s)"
  using assms
proof (cases rule: create_app_cases)
  case (Wiring e config eqs store owns r s)
  note f = fill_store_frame [OF Wiring(4)] and c = resolve_store_cases [OF Wiring(3)]
  show ?thesis
  proof (cases owns)
    case True
    then show ?thesis using c Wiring(5) by (auto simp: give_up_def close_store_def)
  next
    case False
    then show ?thesis using c f Wiring(5) by (auto simp: give_up_def untouched_def split: option.split)
  qed
next
  case (Built config eqs b manager store owns u sc feed layers)
  note f = fill_store_frame [OF Built(7)] and c = resolve_store_cases [OF Built(6)]
  show ?thesis using c f Built(1) by (auto simp: untouched_def split: option.split if_splits)
qed (auto simp: untouched_def split: option.split)

lemma created_app:
  assumes "create_app lib env args = (Inr a, store')"
  shows "served (ra_config a) (ra_app a)" "ac_public (ra_config a) = default_public_paths" "ap_ready (ra_app a)"
    "engine_inv (the_engine a)" "sv_store (ap_service (ra_app a)) = store'" "ac_mac (ra_config a) = al_mac lib"
    "\<exists>config. resolve_config env args = Inr config \<and> resolve_manager lib env args config = Inr (ap_keys (ra_app a))"
proof -
  show "served (ra_config a) (ra_app a)" "ac_public (ra_config a) = default_public_paths" "ap_ready (ra_app a)"
    "engine_inv (the_engine a)" "sv_store (ap_service (ra_app a)) = store'" "ac_mac (ra_config a) = al_mac lib"
    "\<exists>config. resolve_config env args = Inr config \<and> resolve_manager lib env args config = Inr (ap_keys (ra_app a))"
    using assms by (cases rule: create_app_cases;
      auto simp: assemble_def the_engine_def open_service_def engine_inv_new intro: served.Opened [unfolded open_service_def])+
qed

text \<open>After the validation of the configuration only the equipment, the key and the store can fail.\<close>

lemma validated_config_wires:
  assumes "resolve_config env args = Inr config" "resolve_equipment lib env args = Inr eqs"
    "resolve_manager lib env args config = Inr manager" "resolve_store args config = Inr (store, owns)"
    "fill_store (ae_upserted env) eqs store = (Inr u, store')"
    "floats_ok (setting (section_or_empty config ''feed'') ''interval_ms'' (VInt 100))"
  shows "\<exists>a. create_app lib env args = (Inr a, store') \<and> ap_keys (ra_app a) = manager \<and> ra_equipment a = eqs"
proof -
  note v = resolve_configD(2) [OF assms(1)]
  obtain b where b: "new_event_bus True 10000 = Inr b" by (auto simp: new_event_bus_def new_event_log_def)
  obtain layers where l: "configure_middleware (setting (section_or_empty config ''server'') ''cors_origins'' VNone)
      (setting (section_or_empty config ''server'') ''cors_allow_credentials'' (VBool False)) = Inr layers"
    using middleware_configured [OF v] by blast
  obtain sc where sc: "build_service ((al_engine lib)\<lparr>cfg_equipment := eqs, pre_check := None\<rparr>) config = Inr sc"
    using service_built [OF v] by blast
  obtain feed where f: "build_feed (section_or_empty config ''feed'') b eqs (aa_enable_feed args) (al_seeded lib) = Inr feed"
    using feed_built [OF v assms(6)] by blast
  show ?thesis by (simp add: create_app_def assms b l sc f assemble_def)
qed

section \<open>Access without a key\<close>

lemma fresh_manager_empty:
  assumes "aa_manager args = None" "aa_key args \<in> {None, Some []}" "aa_key args = None \<longrightarrow> ae_key env \<in> {None, Some []}"
    "resolve_manager lib env args config = Inr m"
  shows "by_digest m = []"
proof -
  have "install_bootstrap_key (al_mac lib) env args = ret ()"
    using assms(2,3) by (auto simp: install_bootstrap_key_def Let_def split: option.split)
  then show ?thesis using assms(1,4)
    by (auto simp: resolve_manager_def new_key_manager_def ret_def split: sum.splits)
qed

lemma keyless_app_is_closed:
  assumes c: "create_app lib env args = (Inr a, store')"
    and none: "aa_manager args = None" "aa_key args \<in> {None, Some []}" "aa_key args = None \<longrightarrow> ae_key env \<in> {None, Some []}"
    and k: "k \<noteq> HealthCall"
  shows "\<exists>r. handle (ra_config a) n header k (ra_app a) = (Inr r, ra_app a) \<and> rs_status r \<in> {401, 403}"
proof -
  obtain config where "resolve_manager lib env args config = Inr (ap_keys (ra_app a))" using created_app(7) [OF c] by blast
  then have "by_digest (ap_keys (ra_app a)) = []" by (rule fresh_manager_empty [OF none])
  then have v: "validate_key mac now (VStr raw) (ap_keys (ra_app a)) = Inr None" for mac now raw
    by (simp add: validate_key_def)
  then have "key_of (ra_config a) n header (ra_app a) = None" by (simp add: key_of_def split: option.split)
  from no_key_no_access [OF k created_app(2) [OF c] this] v show ?thesis by (auto split: if_splits)
qed

section \<open>Shutdown\<close>

text \<open>The results of the steps that are taken, in their order.\<close>

definition step_results :: "teardown_faults \<Rightarrow> bool \<Rightarrow> bool \<Rightarrow> bool \<Rightarrow> step_result list" where
  "step_results t feed task store =
     (if feed then [Succeeded] else []) @ (if task then [stop_task (tf_task t)] else []) @
     [case tf_bus t of None \<Rightarrow> Succeeded | Some (r, b) \<Rightarrow> r] @
     (if store then [case tf_store t of None \<Rightarrow> Succeeded | Some (r, s) \<Rightarrow> r] else [])"

definition failures_of :: "step_result list \<Rightarrow> exn list" where
  "failures_of rs = concat (map (\<lambda>r. case r of Failed e \<Rightarrow> [e] | _ \<Rightarrow> []) rs)"

definition controls_of :: "step_result list \<Rightarrow> control list" where
  "controls_of rs = concat (map (\<lambda>r. case r of Stopped_by k \<Rightarrow> [k] | _ \<Rightarrow> []) rs)"

definition first_control :: "step_result list \<Rightarrow> control option" where
  "first_control rs = (case controls_of rs of [] \<Rightarrow> None | k # _ \<Rightarrow> Some k)"

definition noted :: "step_result list \<Rightarrow> shutdown_outcome \<Rightarrow> bool" where
  "noted rs out \<longleftrightarrow> so_failures out = failures_of rs \<and> so_controlling out = first_control rs"

lemma noted_Nil: "noted [] \<lparr>so_failures = [], so_controlling = None\<rparr>"
  by (simp add: noted_def failures_of_def first_control_def controls_of_def)

lemma noted_snoc:
  assumes "noted rs out"
  shows "noted (rs @ [r]) (note_result r out)"
proof -
  have "failures_of (rs @ [r]) = failures_of rs @ (case r of Failed e \<Rightarrow> [e] | _ \<Rightarrow> [])"
    "controls_of (rs @ [r]) = controls_of rs @ (case r of Stopped_by k \<Rightarrow> [k] | _ \<Rightarrow> [])"
    by (simp_all add: failures_of_def controls_of_def)
  with assms show ?thesis
    by (cases r; cases "controls_of rs") (simp_all add: noted_def note_result_def first_control_def)
qed

fun run_results :: "('s \<Rightarrow> step_result \<times> 's) list \<Rightarrow> 's \<Rightarrow> step_result list" where
  "run_results [] s = []"
| "run_results (f # fs) s = fst (f s) # run_results fs (snd (f s))"

lemma run_steps_noted:
  "noted rs out \<Longrightarrow> noted (rs @ run_results fs s) (fst (run_steps fs out s)) \<and>
   snd (run_steps fs out s) = foldl (\<lambda>s f. snd (f s)) s fs"
proof (induction fs arbitrary: out s rs)
  case (Cons f fs)
  from Cons.IH [OF noted_snoc [OF Cons.prems]] show ?case by (simp add: case_prod_beta)
qed simp

lemmas stepping = stop_feed_step_def stop_task_step_def stop_bus_step_def close_store_step_def

lemma release_resources_noted: "noted (step_results t feed task store) (fst (release_resources t feed task store a))"
proof -
  have "run_results ((if feed then [stop_feed_step] else []) @ (if task then [stop_task_step t] else []) @ [stop_bus_step t] @
      (if store then [close_store_step t] else [])) a = step_results t feed task store"
    by (auto simp: step_results_def stepping split: option.split)
  with run_steps_noted [OF noted_Nil] show ?thesis by (metis append_Nil release_resources_def)
qed

text \<open>What every step leaves, whatever failed before it.\<close>

lemma dispatch_turn_running: "dispatch_turn h b = (t, b') \<Longrightarrow> running b' = running b"
  by (auto simp: dispatch_turn_def take_event_def split: if_splits list.splits option.splits)

lemma drain_loop_running: "running (snd (drain_loop xs h b)) = running b"
proof (induction xs arbitrary: b)
  case (Cons x xs)
  obtain t b' where t: "dispatch_turn h b = (t, b')" by fastforce
  from Cons [of b'] dispatch_turn_running [OF t] show ?case by (cases t) (simp_all add: t case_prod_beta)
qed simp

lemma drain_tasks_running: "running (snd (drain_tasks hs b)) = running b"
  by (induction hs arbitrary: b) (simp_all add: case_prod_beta drain_loop_running)

lemma stop_bus_stopped: "\<not> running (snd (stop_bus b))" "dispatch_tasks (snd (stop_bus b)) = []"
  by (simp_all add: stop_bus_def stop_begin_def stop_end_def case_prod_beta drain_tasks_running Let_def)

definition released :: "teardown_faults \<Rightarrow> bool \<Rightarrow> bool \<Rightarrow> 'g application \<Rightarrow> bool" where
  "released t feed store a \<longleftrightarrow> (feed \<longrightarrow> \<not> feed_is_running a) \<and>
     (tf_bus t = None \<longrightarrow> \<not> running (bus (the_engine a)) \<and> dispatch_tasks (bus (the_engine a)) = []) \<and>
     (store \<and> tf_store t = None \<longrightarrow> (\<forall>s. sv_store (ap_service (ra_app a)) = Some s \<longrightarrow> is_closed s))"

lemma stop_feed_stops: "\<not> fd_running (snd (stop_feed f))"
  by (simp add: stop_feed_def)

lemma release_resources_released: "released t feed store (snd (release_resources t feed task store a))"
  unfolding release_resources_def conjunct2 [OF run_steps_noted [OF noted_Nil]]
  by (cases feed; cases task; cases store)
    (auto simp: released_def stepping feed_is_running_def the_engine_def on_engine_def on_store_def end_task_def
      close_store_def stop_bus_stopped stop_feed_stops split: option.splits)

text \<open>The end of the life cycle: every resource is released, and how it ends is what mattered most.\<close>

definition ends_with :: "step_result list \<Rightarrow> ending \<Rightarrow> ending" where
  "ends_with rs in_flight = (case first_control rs of Some k \<Rightarrow> Raises_control k | None \<Rightarrow>
     if in_flight \<noteq> Ends then in_flight else
       (case failures_of rs of [] \<Rightarrow> Ends | [e] \<Rightarrow> Raises_exn e | es \<Rightarrow> Raises_group es))"

lemma report_noted: "noted rs out \<Longrightarrow> report_shutdown_failures out in_flight = ends_with rs in_flight"
  by (auto simp: noted_def report_shutdown_failures_def ends_with_def split: option.split list.split)

lemma finish_app_spec:
  assumes "finish_app t feed task owns in_flight a = (e, a')"
  shows "e = ends_with (step_results t feed task owns) in_flight" "released t feed owns a'"
    "ap_feed_task (ra_app a') = NoTask"
proof -
  obtain out a1 where r: "release_resources t feed task owns a = (out, a1)" by fastforce
  then have a': "a' = a1\<lparr>ra_app := (ra_app a1)\<lparr>ap_feed_task := NoTask\<rparr>\<rparr>"
    and e: "e = report_shutdown_failures out in_flight" using assms by (auto simp: finish_app_def)
  have "noted (step_results t feed task owns) out" using release_resources_noted [of t feed task owns a] by (simp add: r)
  then show "e = ends_with (step_results t feed task owns) in_flight" using e report_noted by blast
  have "released t feed owns a1" using release_resources_released [of t feed owns task a] by (simp add: r)
  then show "released t feed owns a'" by (simp add: a' released_def feed_is_running_def the_engine_def)
  show "ap_feed_task (ra_app a') = NoTask" by (simp add: a')
qed

text \<open>
  A life cycle: a startup that fails ends it, otherwise the application serves what the startup has left. Either
  way whatever had been acquired is released, in the order of the steps.
\<close>

lemma lifespan_releases:
  assumes "lifespan rs t serve a = (e, a')"
  shows "released t (ra_feed a \<noteq> None) (ra_owns_store a) a' \<and> ap_feed_task (ra_app a') = NoTask \<and>
    (case start_app rs a of
       (Inl x, a1) \<Rightarrow> e = ends_with (step_results t (ra_feed a \<noteq> None) False (ra_owns_store a)) (Raises_exn x)
     | (Inr _, a1) \<Rightarrow> e = ends_with (step_results t (ra_feed a \<noteq> None) (ra_feed a \<noteq> None) (ra_owns_store a)) (fst (serve a1)))"
  using assms by (auto simp: lifespan_def dest: finish_app_spec split: prod.splits sum.splits)

section \<open>Readings that reprice the workloads\<close>

definition marked :: "string \<Rightarrow> rat \<Rightarrow> ((string \<times> string) \<times> workload) \<Rightarrow> ((string \<times> string) \<times> workload) \<Rightarrow> bool" where
  "marked asset rate kw kw' \<longleftrightarrow> fst kw' = fst kw \<and>
     (if snd (fst kw) = asset \<and> net_hours (snd kw) \<noteq> 0 then \<exists>now. snd kw' = snd (reprice rate now (snd kw))
      else snd kw' = snd kw)"

lemma reprice_entries_marked:
  "reprice_entries c asset rate n ws = (ws', n') \<Longrightarrow> list_all2 (marked asset rate) ws ws'"
  by (induction c asset rate n ws arbitrary: ws' n' rule: reprice_entries.induct)
    (auto simp: marked_def Let_def split: if_splits prod.splits)

text \<open>
  A reading that is produced goes out on the bus of the engine, is the latest of its asset, and sets the rate of
  the open workloads of that asset; the rest of the engine is as it was.
\<close>

lemma pump_reading_spec:
  assumes p: "pump_reading m rs (asset, uid, now, later) a = (Inr (), a')"
    and f: "ra_feed a = Some f" and s: "asset \<in> set (dict_keys (fd_simulators f))"
  shows "\<exists>r f' n. ra_feed a' = Some f' \<and> dict_get (fd_latest f') asset = Some r \<and>
    list_all2 (marked (tr_asset r) (last_reading r)) (workloads (the_engine a)) (workloads (the_engine a')) \<and>
    the_engine a' = (the_engine a)\<lparr>bus := publish (reading_event uid later ''telemetry_feed'' r) (bus (the_engine a)),
      workloads := workloads (the_engine a'), ticks := n\<rparr>"
proof -
  obtain sim where sim: "dict_get (fd_simulators f) asset = Some sim"
    using s by (metis dict_get_None not_None_eq)
  obtain r f' where r: "produce_reading m rs uid now later asset sim (share_bus (bus (the_engine a)) f) = (Inr r, f')"
    using p by (auto simp: pump_reading_def f sim split: sum.splits prod.splits)
  have f': "fd_latest f' = dict_set asset r (fd_latest (share_bus (bus (the_engine a)) f))"
    "fd_bus f' = publish (reading_event uid later ''telemetry_feed'' r) (bus (the_engine a))"
    using r by (auto simp: produce_reading_def share_bus_def Let_def split: prod.splits sum.splits)
  obtain ws n where e: "reprice_entries (sc_engine (ac_service (ra_config a))) (tr_asset r) (last_reading r)
      (ticks (the_engine a)) (workloads (the_engine a)) = (ws, n)" by fastforce
  have a': "a' = on_engine (\<lambda>s. s\<lparr>bus := fd_bus f', workloads := ws, ticks := n\<rparr>) (a\<lparr>ra_feed := Some f'\<rparr>)"
    using p e r by (simp add: pump_reading_def f sim reprice_asset_def on_engine_def the_engine_def)
  show ?thesis
    by (rule exI [of _ r], rule exI [of _ f'], rule exI [of _ n])
      (use reprice_entries_marked [OF e] in \<open>simp add: a' on_engine_def the_engine_def f' dict_simps\<close>)
qed

section \<open>A running application\<close>

text \<open>
  What happens to an application once it is built: it starts, it answers a request, the feed produces a reading,
  it shuts down with whatever goes wrong; every step in any state.
\<close>

inductive app_step :: "math_functions \<Rightarrow> 'g random_source \<Rightarrow> 'g application \<Rightarrow> 'g application \<Rightarrow> bool" for m rs where
  Starts: "start_app rs a = (res, a') \<Longrightarrow> app_step m rs a a'"
| Answers: "handle (ra_config a) n header k (ra_app a) = (res, b) \<Longrightarrow> app_step m rs a (a\<lparr>ra_app := b\<rparr>)"
| Reads: "pump_reading m rs stamp a = (res, a') \<Longrightarrow> app_step m rs a a'"
| Stops: "finish_app t feed task owns in_flight a = (e, a') \<Longrightarrow> app_step m rs a a'"

text \<open>Beside the requests, every step stays within what \<^verbatim>\<open>served\<close> allows to change.\<close>

definition keeps :: "'g application \<Rightarrow> 'g application \<Rightarrow> bool" where
  "keeps a a' \<longleftrightarrow> ra_config a' = ra_config a \<and> (\<forall>c. served c (ra_app a) \<longrightarrow> served c (ra_app a'))"

lemma keeps_refl: "keeps a a"
  by (simp add: keeps_def)

lemma keeps_trans: "keeps a b \<Longrightarrow> keeps b c \<Longrightarrow> keeps a c"
  by (simp add: keeps_def)

lemma keeps_feed: "keeps a b \<Longrightarrow> keeps a (b\<lparr>ra_feed := f\<rparr>)"
  by (simp add: keeps_def)

lemma served_task: "served c a \<Longrightarrow> served c (a\<lparr>ap_feed_task := t\<rparr>)"
  using served.Keys [of c a "ap_ready a" t "ap_metrics a" "ap_keys a"] by (cases a) simp

lemma served_shared: "served c a \<Longrightarrow> served c (a\<lparr>ap_service := (ap_service a)\<lparr>sv_store := st\<rparr>\<rparr>)"
  "served c a \<Longrightarrow> served c (a\<lparr>ap_service := (ap_service a)\<lparr>sv_engine := (sv_engine (ap_service a))\<lparr>bus := b\<rparr>\<rparr>\<rparr>)"
  "served c a \<Longrightarrow> served c (a\<lparr>ap_service := (ap_service a)\<lparr>sv_engine :=
     (sv_engine (ap_service a))\<lparr>bus := b, workloads := ws, ticks := n\<rparr>\<rparr>\<rparr>)"
proof -
  let ?s = "sv_engine (ap_service a)"
  assume a: "served c a"
  from served.Shared [OF a, of "ticks ?s" "workloads ?s" "bus ?s" st]
  show "served c (a\<lparr>ap_service := (ap_service a)\<lparr>sv_store := st\<rparr>\<rparr>)" by (cases "ap_service a"; cases ?s) simp
  from served.Shared [OF a, of "ticks ?s" "workloads ?s" b "sv_store (ap_service a)"]
  show "served c (a\<lparr>ap_service := (ap_service a)\<lparr>sv_engine := ?s\<lparr>bus := b\<rparr>\<rparr>\<rparr>)" by (cases "ap_service a"; cases ?s) simp
  from served.Shared [OF a, of n ws b "sv_store (ap_service a)"]
  show "served c (a\<lparr>ap_service := (ap_service a)\<lparr>sv_engine := ?s\<lparr>bus := b, workloads := ws, ticks := n\<rparr>\<rparr>\<rparr>)"
    by (cases "ap_service a") simp
qed

lemma keeps_task: "keeps a (a\<lparr>ra_app := (ra_app a)\<lparr>ap_feed_task := t\<rparr>\<rparr>)"
  by (simp add: keeps_def served_task)

lemma keeps_shared: "keeps a (on_store g a)" "keeps a (on_engine (\<lambda>s. s\<lparr>bus := f s\<rparr>) a)"
  "keeps a (on_engine (\<lambda>s. snd (reprice_asset c x rate (s\<lparr>bus := b\<rparr>))) a)"
  by (simp_all add: keeps_def on_store_def on_engine_def served_shared reprice_asset_def case_prod_beta)

lemma keeps_steps: "(\<And>f s. f \<in> set fs \<Longrightarrow> keeps s (snd (f s))) \<Longrightarrow> keeps a (foldl (\<lambda>s f. snd (f s)) a fs)"
proof (induction fs arbitrary: a)
  case (Cons f fs)
  have "keeps a (snd (f a))" "keeps (snd (f a)) (foldl (\<lambda>s f. snd (f s)) (snd (f a)) fs)"
    using Cons by simp_all
  then show ?case by (simp add: keeps_trans)
qed (simp add: keeps_refl)

lemma keeps_release: "keeps a (snd (release_resources t feed task store a))"
  unfolding release_resources_def conjunct2 [OF run_steps_noted [OF noted_Nil]]
  by (rule keeps_steps)
    (auto simp: stepping end_task_def keeps_feed [OF keeps_refl] keeps_refl keeps_task keeps_shared split: if_splits option.splits)

lemma keeps_finish: "finish_app t feed task owns in_flight a = (e, a') \<Longrightarrow> keeps a a'"
  using keeps_trans [OF keeps_release [of a t feed task owns] keeps_task]
  by (simp add: finish_app_def case_prod_beta) (metis snd_conv)

lemma keeps_start: "start_app rs a = (res, a') \<Longrightarrow> keeps a a'"
proof -
  let ?a = "on_engine (\<lambda>s. s\<lparr>bus := start_bus (bus s)\<rparr>) (a\<lparr>ra_app := (ra_app a)\<lparr>ap_feed_task := NoTask\<rparr>\<rparr>)"
  have a: "keeps a ?a" by (rule keeps_trans [OF keeps_task keeps_shared(2)])
  have "keeps a (?a\<lparr>ra_feed := f\<rparr>)" for f by (rule keeps_feed [OF a])
  then have t: "keeps a (?a\<lparr>ra_feed := f, ra_app := (ra_app ?a)\<lparr>ap_feed_task := TaskPending\<rparr>\<rparr>)" for f
    using keeps_trans [OF _ keeps_task [of "?a\<lparr>ra_feed := f\<rparr>" TaskPending]] by simp
  assume "start_app rs a = (res, a')"
  then consider "a' = ?a" | f where "a' = ?a\<lparr>ra_feed := f\<rparr>"
    | f where "a' = ?a\<lparr>ra_feed := f, ra_app := (ra_app ?a)\<lparr>ap_feed_task := TaskPending\<rparr>\<rparr>"
    unfolding start_app_def Let_def by (auto split: option.splits prod.splits sum.splits)
  then show "keeps a a'" using a keeps_feed [OF a] t by cases simp_all
qed

lemma keeps_pump: "pump_reading m rs stamp a = (res, a') \<Longrightarrow> keeps a a'"
proof -
  assume "pump_reading m rs stamp a = (res, a')"
  then consider "a' = a" | f where "a' = end_task (a\<lparr>ra_feed := f\<rparr>)"
    | f c x rate b where "a' = on_engine (\<lambda>s. snd (reprice_asset c x rate (s\<lparr>bus := b\<rparr>))) (a\<lparr>ra_feed := f\<rparr>)"
    unfolding pump_reading_def by (auto split: option.splits prod.splits sum.splits)
  then show "keeps a a'"
  proof cases
    case 2
    then show ?thesis using keeps_trans [OF keeps_feed [OF keeps_refl] keeps_task] by (simp add: end_task_def)
  next
    case 3
    then show ?thesis using keeps_trans [OF keeps_feed [OF keeps_refl] keeps_shared(3)] by simp
  qed (simp add: keeps_refl)
qed

lemma app_step_served:
  assumes "app_step m rs a a'"
  shows "ra_config a' = ra_config a \<and> (served (ra_config a) (ra_app a) \<longrightarrow> served (ra_config a) (ra_app a'))"
  using assms
proof cases
  case (Answers n header k res b)
  then show ?thesis using served.Request by fastforce
qed (auto dest!: keeps_start keeps_pump keeps_finish simp: keeps_def)

lemma app_run_served:
  assumes "(app_step m rs)\<^sup>*\<^sup>* a a'" "served (ra_config a) (ra_app a)"
  shows "ra_config a' = ra_config a \<and> served (ra_config a') (ra_app a')"
  using assms by (induction rule: rtranclp_induct) (auto dest: app_step_served)

end
