(* ===== verification/ApplicationScenario.thy ===== *)
theory ApplicationScenario
  imports ApplicationLaws ApiScenario ToolScenario
begin

text \<open>
  A small application for the witnesses: the built-in configuration, one asset, a store of its own and no key.
  The feed draws the middle of what it may draw; its simulator stands still.
\<close>

definition lib0 :: "unit app_library" where
  "lib0 = \<lparr>al_engine = cfg0, al_heap = heap0, al_mac = (\<lambda>s t. t), al_like = like_match, al_numerics = numerics0,
     al_mix = sum_list, al_bucket_text = (\<lambda>_. []), al_version = ''2'', al_policies = [], al_seeded = (\<lambda>_. ()),
     al_parse = (\<lambda>_. None), al_validate = (\<lambda>_. Inl ValidationError), al_format_ok = (\<lambda>_. True)\<rparr>"

definition machine0 :: "bool \<Rightarrow> app_environment" where
  "machine0 upserted = \<lparr>ae_settings = No_file, ae_equipment = None, ae_key = None, ae_organization = None, ae_secret = None,
     ae_fresh = ''s'', ae_now = Aware 7 0, ae_hex = ''k'', ae_upserted = upserted\<rparr>"

definition args0 :: app_arguments where
  "args0 = \<lparr>aa_config = Some [], aa_equipment = Some catalogue0, aa_manager = None, aa_store = None, aa_enable_store = True,
     aa_enable_feed = None, aa_key = None, aa_organization = None, aa_permissions = None\<rparr>"

definition keys_none :: key_manager where
  "keys_none = \<lparr>km_secret = ''s'', default_ttl = None, km_records = [], km_digests = [], by_digest = []\<rparr>"

lemma defaults0: "checks (feed_interval_seconds []) = Inr ()"
  "checks (coerce_host (VStr ''127.0.0.1'')) = Inr ()" "checks (coerce_port (VInt 8443)) = Inr ()"
  "level_check lower server_log_levels (VStr ''info'') = Inr ()" "checks (validate_cors_origins VNone) = Inr ()"
  "checks (validate_cors_credentials (VBool False)) = Inr ()" "checks (nonblank_string (VStr ''sqlite:///mittelwerk.db'')) = Inr ()"
  "checks (strict_bool (VBool False)) = Inr ()" "checks (resolve_feed_mode (VStr feed_mode_simulated)) = Inr ()"
  "checks (feed_seed []) = Inr ()" "currency_ok (VStr default_display_currency)" "checks (optional_positive_float VNone) = Inr ()"
  "level_check upper logging_levels (VStr ''INFO'') = Inr ()" "checks (nonblank_string (VStr default_log_format)) = Inr ()"
proof -
  have "\<exists>x. feed_interval_seconds [] = Inr x"
    using small_float [of 100] by (auto simp: feed_interval_seconds_def setting_def num_le_def f_le_def math_isfinite_def
        int_to_float_def)
  then show "checks (feed_interval_seconds []) = Inr ()" by (auto simp: checks_def)
qed code_simp+

lemmas default_values = validate_config_values_def in_section_def config_section_def setting_def defaults0 ttl_ok_def require_that_def

lemma config0: "resolve_config (machine0 b) args0 = Inr []"
proof -
  have "validate_config_keys [] = Inr ()" by code_simp
  moreover have "validate_config_values [] = Inr ()" by (simp add: default_values del: checks_Inr)
  ultimately show ?thesis by (simp add: resolve_config_def args0_def)
qed

text \<open>A level with blanks around it is valid for the application, but the command line does not accept it.\<close>

definition padded0 :: payload where
  "padded0 = [(''logging'', VDict [(''level'', VStr '' info'')])]"

lemma padded_level_refused:
  "resolve_config env (default_arguments padded0) = Inr padded0"
  "run_main lib ((machine0 b)\<lparr>ae_settings := Parsed (VDict padded0)\<rparr>) None None = Inl ValueError"
proof -
  have k: "validate_config_keys padded0 = Inr ()" by code_simp
  have l: "level_check upper logging_levels (VStr '' info'') = Inr ()" by code_simp
  have "validate_config_values padded0 = Inr ()" by (simp add: padded0_def default_values l del: checks_Inr)
  with k show "resolve_config env (default_arguments padded0) = Inr padded0" by (simp add: resolve_config_def default_arguments_def)
  have u: "upper '' info'' \<notin> set logging_levels" by code_simp
  show "run_main lib ((machine0 b)\<lparr>ae_settings := Parsed (VDict padded0)\<rparr>) None None = Inl ValueError"
    by (simp add: run_main_def load_config_def padded0_def config_section_def basic_config_def require_that_def setting_def u)
qed

lemma equipment0: "resolve_equipment lib0 (machine0 b) args0 = Inr catalogue0"
  by (simp add: resolve_equipment_def args0_def catalogue0_def press0_def press_def)

lemma manager0: "resolve_manager lib0 (machine0 b) args0 [] = Inr keys_none"
  by (simp add: resolve_manager_def config_section_def args0_def new_key_manager_def coerce_manager_secret_def machine0_def
      validate_ttl_def setting_def install_bootstrap_key_def ret_def keys_none_def)

definition store_empty :: telemetry_store where
  "store_empty = \<lparr>st_readings = [], st_intervals = [], st_assignments = [], st_equipment = [], is_closed = False\<rparr>"

lemma store_own: "resolve_store args0 [] = Inr (Some store_empty, True)"
proof -
  have "strip ''sqlite:///mittelwerk.db'' = ''sqlite:///mittelwerk.db''" by code_simp
  then show ?thesis
    by (simp add: resolve_store_def args0_def config_section_def setting_def nonblank_string_def strict_bool_def new_store_def
      store_empty_def)
qed

lemma filled0: "\<exists>s. fill_store True catalogue0 (Some store_empty) = (Inr (), Some s)"
  "fill_store False catalogue0 (Some store_empty) = (Inl DatabaseError, Some store_empty)"
proof -
  have "\<exists>row. equipment_payload press0 = Inr row"
    by (simp add: equipment_payload_def press0_def press_def validate_asset_id_def canonical_cnc) code_simp?
  then show "\<exists>s. fill_store True catalogue0 (Some store_empty) = (Inr (), Some s)"
    "fill_store False catalogue0 (Some store_empty) = (Inl DatabaseError, Some store_empty)"
    by (auto simp: fill_store_def upsert_equipments_def catalogue0_def in_session_def store_empty_def)
qed

lemma app_built: "\<exists>a s. create_app lib0 (machine0 True) args0 = (Inr a, s)"
  using validated_config_wires [OF config0 equipment0 manager0 store_own] filled0(1)
  by (fastforce simp: machine0_def floats_ok_def section_or_empty_def config_section_def setting_def)

lemma app_refused: "create_app lib0 (machine0 False) args0 = (Inl DatabaseError, Some (close_store store_empty))"
  by (simp add: create_app_def config0 equipment0 manager0 store_own new_event_bus_def new_event_log_def filled0 give_up_def)
    (simp add: machine0_def filled0 give_up_def)

section \<open>A feed that runs\<close>

definition math0 :: math_functions where
  "math0 = \<lparr>m_exp = (\<lambda>_. Inr (Fin 1)), m_square = Inr, m_sqrt = id\<rparr>"

definition draws0 :: "unit random_source" where
  "draws0 = \<lparr>rs_gauss = (\<lambda>g. (Fin 0, g)),
     rs_uniform = (\<lambda>lo hi g. (if f_le lo (Fin 0) \<and> f_le (Fin 0) hi then Fin 0
        else if f_le lo (Fin (1 / 1024)) \<and> f_le (Fin (1 / 1024)) hi then Fin (1 / 1024) else lo, g)),
     rs_randint = (\<lambda>lo hi g. (lo, g))\<rparr>"

definition still0 :: simulator where
  "still0 = \<lparr>sim_value = Fin 128, sim_mu = Fin 0, sim_sigma = Fin 0, sim_dt = Fin 1\<rparr>"

definition feed0 :: "unit feed" where
  "feed0 = \<lparr>fd_assets = [''CNC-01''], fd_interval = Fin 1, fd_random = (), fd_simulators = [(''CNC-01'', still0)],
     fd_running = True, fd_stopped = False, fd_latest = [], fd_bus = bus0\<rparr>"

definition held0 :: workload where
  "held0 = (new_workload ''o2'' ''CNC-01'' 7)\<lparr>net_hours := 4\<rparr>"

definition running0 :: "unit application" where
  "running0 = \<lparr>ra_config = conf0, ra_app = app0\<lparr>ap_service := (ap_service app0)\<lparr>sv_engine :=
       (new_engine heap0 bus0)\<lparr>workloads := [((''o2'', ''CNC-01''), held0)]\<rparr>\<rparr>\<rparr>,
     ra_feed = Some feed0, ra_equipment = catalogue0, ra_layers = [], ra_owns_store = False\<rparr>"

lemma dyadic: "x = of_int n / 2 ^ d \<Longrightarrow> \<bar>n\<bar> \<le> 2 ^ 53 \<Longrightarrow> d \<le> 1074 \<Longrightarrow> \<bar>x\<bar> < 2 ^ 53 \<Longrightarrow> fl_rep x"
  using fl_exact [of x n d] by (simp add: fl_rep_def)

lemma float_text_positive: "fl_rep x \<Longrightarrow> 0 < x \<Longrightarrow> 0 < float_text x"
proof (rule ccontr)
  assume x: "fl_rep x" "0 < x" "\<not> 0 < float_text x"
  then have "fl (float_text x) \<le> 0" by (intro fl_le_rep) (simp_all add: fl_rep_def [of 0, simplified])
  with x float_text_reads_back [of x] show False by (simp add: fl_rep_def)
qed

lemma draw_spread: "rs_uniform draws0 (to_float (1 / 10 ^ 4)) (to_float (1 / 10 ^ 3)) g = (Fin (1 / 1024), g)"
proof -
  have r: "fl_rep (1 / 1024)" "fl_rep (1 / 16384)" using dyadic [of "1 / 1024" 1 10] dyadic [of "1 / 16384" 1 14] by simp_all
  have "to_float (1 / 10 ^ 4) = Fin (fl (1 / 10 ^ 4))" "to_float (1 / 10 ^ 3) = Fin (fl (1 / 10 ^ 3))"
    using to_float_bounded(1) [of "1 / 10 ^ 3" 1] fl_pos_small(2) fl_rep_of_int [of 1] by simp_all
  moreover have "fl (1 / 10 ^ 4) \<le> 1 / 1024" by (rule fl_le_rep) (use r in \<open>simp_all add: fl_rep_def\<close>)
  moreover have "1 / 1024 \<le> fl (1 / 10 ^ 3)" by (rule fl_ge_rep) (use r in \<open>simp_all add: fl_rep_def\<close>)
  moreover have "1 / 16384 \<le> fl (1 / 10 ^ 4)" by (rule fl_ge_rep) (use r in \<open>simp_all add: fl_rep_def\<close>)
  ultimately show ?thesis by (auto simp: draws0_def f_le_def)
qed

lemma reading_produced:
  "\<exists>r f. produce_reading math0 draws0 ''u'' 7 8 ''CNC-01'' still0 (share_bus bus0 feed0) = (Inr r, f) \<and> tr_asset r = ''CNC-01''"
proof -
  have to: "to_float (1 / 8) = Fin (1 / 8)" "to_float (1 / 16) = Fin (1 / 16)" "to_float 128 = Fin 128"
    "to_float (2047 / 16) = Fin (2047 / 16)" "to_float (2049 / 16) = Fin (2049 / 16)"
    using dyadic [of "1 / 8" 1 3] dyadic [of "1 / 16" 1 4] dyadic [of 128 128 0] dyadic [of "2047 / 16" 2047 4]
      dyadic [of "2049 / 16" 2049 4] by (simp_all add: to_float_rep)
  have r: "fl_rep (2047 / 16)" "fl_rep (2049 / 16)" "fl_rep 128"
    using dyadic [of "2047 / 16" 2047 4] dyadic [of "2049 / 16" 2049 4] dyadic [of 128 128 0] by simp_all
  have round: "round_places (Fin (2047 / 16)) = Fin (2047 / 16)" "round_places (Fin (2049 / 16)) = Fin (2049 / 16)"
    "round_places (Fin 128) = Fin 128"
    using to by (simp_all add: rhe_of_int [of 1279375, simplified] rhe_of_int [of 1280625, simplified] rhe_of_int [of 1280000, simplified])
  have pos: "0 < float_text (2047 / 16)" "0 < float_text (2049 / 16)" "0 < float_text 128"
    by (rule float_text_positive; use r in simp)+
  moreover have "float_text (2047 / 16) \<le> float_text (2049 / 16)"
    by (rule float_text_mono) (use r in \<open>simp_all add: fl_rep_def\<close>)
  moreover have "asset_id_re ''CNC-01''" by code_simp
  ultimately have read: "\<exists>r. reading_of ''CNC-01'' (float_reading (round_places (Fin (2047 / 16)))) (float_reading (round_places (Fin (2049 / 16))))
      (float_reading (round_places (Fin 128))) 100 (Aware 7 0) = Inr r \<and> tr_asset r = ''CNC-01''"
    unfolding round by (simp add: reading_of_def float_reading_def mk_telemetry_reading_def canonical_cnc ensure_utc_def)
  have "sim_value still0 = Fin 128" by (simp add: still0_def)
  moreover have "next_value math0 draws0 still0 (fd_random (share_bus bus0 feed0)) = (Inr still0, ())"
    by (simp add: next_value_def math0_def draws0_def still0_def to)
  moreover have "rs_uniform draws0 (Fin (- (1 / 8))) (Fin (1 / 8)) g = (Fin 0, g)" for g by (simp add: draws0_def f_le_def)
  moreover have "rs_randint draws0 lo hi g = (lo, g)" for lo hi g by (simp add: draws0_def)
  ultimately show ?thesis
    using to read by (auto simp: produce_reading_def draw_spread [simplified] Let_def f_sub_def simp del: round_places.simps split: sum.split)
qed

lemma running0_parts: "ra_feed running0 = Some feed0" "bus (the_engine running0) = bus0"
  "workloads (the_engine running0) = [((''o2'', ''CNC-01''), held0)]"
  "''CNC-01'' \<in> set (dict_keys (fd_simulators feed0))"
  by (simp_all add: running0_def the_engine_def feed0_def new_engine_def)

lemma running0_reads: "\<exists>a'. pump_reading math0 draws0 (''CNC-01'', ''u'', 7, 8) running0 = (Inr (), a')"
proof -
  obtain r f where r: "produce_reading math0 draws0 ''u'' 7 8 ''CNC-01'' still0 (share_bus bus0 feed0) = (Inr r, f)"
    using reading_produced by blast
  have "dict_get (fd_simulators feed0) ''CNC-01'' = Some still0" by (simp add: feed0_def)
  with r running0_parts show ?thesis by (simp add: pump_reading_def)
qed

lemma app_started: "running (bus (the_engine (snd (start_app draws0 a))))"
  by (auto simp: start_app_def the_engine_def on_engine_def start_bus_def Let_def split: option.split prod.split sum.split)

end
