(* ===== verification/Spec2Isabelle.thy ===== *)
theory Spec2Isabelle
  imports RunnerScenario EdgeScenario ApplicationScenario
begin

text \<open>
  MittelWerk is a dispatch platform for field service: organizations request and offer service hours on
  pieces of equipment, an engine matches them by rate and time, and around it stand telemetry, dispatch
  policies, analytics, keys, an HTTP interface and an MCP server. This library models that program as
  shallow definitions, theory by theory along the files under \<^verbatim>\<open>src/mittelwerk\<close>, \<^verbatim>\<open>src/main.py\<close> and \<^verbatim>\<open>src/scripts/workshop.py\<close>, and proves what makes each part
  correct. The root states the properties of the whole; the theories ending in \<^verbatim>\<open>Laws\<close> hold the lemmas and
  those ending in \<^verbatim>\<open>Scenario\<close> the concrete scenes in which every property is shown to apply.

  \<^bold>\<open>Parts and theories.\<close>

  \<^item> Foundations: \<open>Prelude\<close> (dictionaries as association lists in insertion order, ASCII case and blanks),
    \<open>Rounding\<close> (rounding to a number of significant digits, half to even), \<open>Decimals\<close> (the arithmetic of
    \<^verbatim>\<open>decimal.Decimal\<close> in 28 digits), \<open>Floats\<close> (binary64), \<open>Numbers\<close> and \<open>Values\<close> (values whose type is checked
    at run time, exceptions, actions on a state), \<open>Texts\<close> (numbers as text, URL quoting).
  \<^item> Core, \<^verbatim>\<open>core/models.py\<close>, \<^verbatim>\<open>queue.py\<close>, \<^verbatim>\<open>events.py\<close>, \<^verbatim>\<open>engine.py\<close>: \<open>Models\<close> (equipment, work orders, workloads,
    readings), \<open>DispatchQueues\<close> (rate levels in two sorted books and an index), \<open>Events\<close> (the log and the bus with
    its subscribers, streams and dispatch loops), \<open>Engine\<close> (submission, matching, cancellation, workloads).
    Laws in \<open>QueueLaws\<close>, \<open>EngineSteps\<close>, \<open>MatchLaws\<close>, \<open>EngineLaws\<close>, \<open>SubmitLaws\<close>, \<open>EngineFrames\<close>, \<open>EventLaws\<close>.
  \<^item> Analytics, \<^verbatim>\<open>analytics/\<close>: \<open>Capacity\<close> (the plan and its cached metrics), \<open>BacklogRisk\<close>, \<open>Operations\<close> (the book
    of an organization and its algebra), with \<open>OperationsLaws\<close>.
  \<^item> Telemetry, \<^verbatim>\<open>telemetry/\<close>: \<open>Store\<close> (SQL tables as lists of rows), \<open>Transforms\<close> (interval bars, averages, deltas),
    \<open>Feed\<close> (the simulated feed) and \<open>Adapter\<close> (the WebSocket feed as a state machine), with \<open>StoreLaws\<close>,
    \<open>TransformLaws\<close>, \<open>FeedLaws\<close>.
  \<^item> Policies, \<^verbatim>\<open>dispatch_policies/\<close>: \<open>Policies\<close> (\<^verbatim>\<open>base.py\<close>), \<open>Thresholds\<close> (\<^verbatim>\<open>threshold.py\<close>), \<open>Deviations\<close>
    (\<^verbatim>\<open>telemetry_deviation.py\<close>), with \<open>PolicyLaws\<close>.
  \<^item> Utilities, \<^verbatim>\<open>utils/\<close> and \<^verbatim>\<open>auth/\<close>: \<open>Decorators\<close> (retries and the token bucket), \<open>Metrics\<close>, \<open>Serializer\<close>, \<open>Keys\<close>,
    \<open>Signing\<close>, with \<open>DecoratorLaws\<close>, \<open>MetricLaws\<close>, \<open>SerializerLaws\<close>, \<open>KeyLaws\<close>.
  \<^item> Interfaces, \<^verbatim>\<open>api/\<close> and \<^verbatim>\<open>mcp_server/\<close>: \<open>Service\<close> (\<^verbatim>\<open>service.py\<close>), \<open>Api\<close> (middleware, dependencies, schemas,
    routes), \<open>McpServer\<close> (\<^verbatim>\<open>server.py\<close>), with \<open>ServiceLaws\<close>, \<open>ApiLaws\<close>, \<open>McpLaws\<close>.
  \<^item> The application, \<^verbatim>\<open>main.py\<close>: \<open>Settings\<close> (reading and validating the configuration), \<open>Application\<close> (\<^verbatim>\<open>create_app\<close>, the
    pump of the feed, startup and shutdown, the command line), with \<open>ApplicationLaws\<close>.
  \<^item> The workshop runner, \<^verbatim>\<open>scripts/workshop.py\<close>, which stages exercises in a checkout and takes them back: \<open>Repository\<close>
    (its errors, the repository as a tree of files and programs on it), \<open>Manifests\<close> (typed reading of JSON objects, paths
    and manifests), \<open>Journal\<close> (the durable state of an attempt), \<open>Staging\<close> (payloads, the work directory moved away,
    restored and rolled back), \<open>Archives\<close> (inventories and archives of attempts), \<open>Evidence\<close> (judging notes, running
    acceptance commands), \<open>Runner\<close> and \<open>Commands\<close> (the commands, the lock, the exit code). Laws in \<open>RepositoryLaws\<close> (trees, and a
    calculus of how a program moves the tree), \<open>PathLaws\<close>, \<open>RunnerLaws\<close> (commands that only look), \<open>ConfinementLaws\<close>
    (regions), \<open>RecoveryLaws\<close> (what is recoverable, and that every step keeps it) and \<open>CommandLaws\<close>.

  \<^bold>\<open>How they interact.\<close> A request passes the middleware (\<open>authenticate\<close>), the permission of its route and the
  endpoint, which calls the service; the service files the order in the book of the organization and hands
  it to the engine; the engine changes orders in a shared heap (\<open>ref\<close>), queues and workloads and publishes
  events on the bus; the service records costs and stores the assignments. The MCP server calls the engine
  directly. The feeds publish readings on the bus; policies and analytics read them. The application builds the
  parts from the configuration, lets its feed mark the workloads of the engine, and releases everything at the end. Orders are objects that
  the heap, the queues and the books share, so they live in a heap and everything else holds references.

  \<^bold>\<open>What the properties show.\<close> The engine: submission refines a greedy allocation, always returns, treats
  \<^verbatim>\<open>COMPLETE\<close> orders as all or nothing, and keeps in every reachable state that net hours sum to zero and that the
  books are well formed and uncrossed (C1 to C7). Cancellation, queues and workloads (C8 to C11). Events: round
  trip, replay, delivery under every interleaving, draining, and the late clean-up of a stream (C12 to C16).
  Retries and the token bucket (C17, C18); keys and signatures (C19 to C21); caches and searches (C22 and C23);
  access and status of the HTTP interface as a whole (C24 to C26); telemetry, policies, feed, serializer
  and MCP server (C27 to C32); the application from its construction to its end (C33 to C36); the workshop runner, whose
  start, resume and reset are a transaction on the repository (C37 and C38), whose commands are confined (C39) and whose paths
  are exactly the safe ones (C40). Theorems without a number are further facts of the same kind. The abstract specifications are \<open>matched_outcome\<close> with
  \<open>allocation\<close>, \<open>cancelled_outcome\<close>, \<open>enqueue\<close> on books, the history of a subscriber, \<open>reference_bar\<close> and \<open>key_of\<close>.
  The locales are interfaces: \<open>rounding\<close> (what exactness proofs need of a rounding, interpreted for decimals and
  floats), \<open>sorted_keys\<close> (what the queue needs of \<^verbatim>\<open>SortedDict\<close>) and \<open>priority_side\<close> (what the engine needs of one side
  of a queue), which every sorted dictionary provides.

  \<^bold>\<open>Representation.\<close>

  \<^item> A \<^verbatim>\<open>Decimal\<close> is an exact rational; each operation rounds to 28 significant digits, half to even (\<open>dec\<close>). The limits of
    the exponent are not modelled. On multiples of \<open>10\<^sup>-\<^sup>8\<close> below \<open>10\<^sup>2\<^sup>0\<close> (\<open>grid\<close>) sums and differences are exact;
    the theorems on the engine ask that the hours traded so far and the order keep
    \<open>2 * volume + 2 * remaining_hours < 10\<^sup>2\<^sup>0\<close>, so that no counter leaves that range. The text of a decimal is symbolic (\<open>VNumText\<close>).
  \<^item> A float is \<open>pyfloat\<close>: a rational that binary64 represents, an infinity or NaN; operations round by \<open>fl\<close>. The
    sign of zero is not tracked. The token bucket is exact on times that are multiples of \<open>2\<^sup>-\<^sup>2\<^sup>0\<close> s, at
    integral rates and bursts up to \<open>2\<^sup>3\<^sup>2\<close>.
  \<^item> Texts are ASCII. Times are microseconds since the epoch, in UTC or with an offset (\<open>datetime\<close>).
  \<^item> An argument has its declared type, or is a \<open>pyval\<close> where the code inspects the type.
  \<^item> An exception is a value of \<open>exn\<close>; an operation returns a sum, and with a state an action \<open>'s \<Rightarrow> (exn + 'a) \<times> 's\<close>, so that
    what an exception leaves behind is visible. The text of a message is kept where the code passes it on.
  \<^item> Matching is a loop that might not end: it is a partial function and \<open>None\<close> means that it runs forever. The
    theorems show that it returns. No other fuel is used.
  \<^item> Clocks, identifiers, random tokens and draws, and the outcome of a database transaction are arguments.
  \<^item> The repository of the runner is a dictionary from paths to files with contents and mode, directories, links and devices. A
    program returns a sum and the changed world; beside the tree the world holds the decisions of the operating system
    about the calls to come (\<open>wd_fate\<close>): works, refused with an \<^verbatim>\<open>OSError\<close>, or the process is killed there. Theorems
    quantify over it, so they hold for every place of a failure. Calls on a handle that cannot change what is modelled (flush,
    sync, close) are no steps. Other processes do not change the tree while a command runs, which is what its lock is for.
  \<^item> Publishing never waits, so submissions and cancellations are atomic steps; what runs between awaits
    elsewhere (bus, streams, feeds, adapter) is a step relation or a list of events.

  \<^bold>\<open>Parameters.\<close> Code that is not under \<^verbatim>\<open>src/\<close> is a parameter with the laws that are relied on: the order of
  \<^verbatim>\<open>SortedDict\<close> (\<open>sorted_keys\<close>), SQL \<^verbatim>\<open>LIKE\<close> (\<open>like_laws\<close>), numpy and scipy (\<open>numerics\<close>, \<open>stats_laws\<close>), the mixing of tuple
  hashes, HMAC and SHA-256, JSON text (\<open>json_library\<close>) and ISO time stamps, the random generator (\<open>uniform_law\<close>), \<^verbatim>\<open>exp\<close> and \<^verbatim>\<open>sqrt\<close>,
  the WebSocket transport (\<open>ws_event\<close>), of the runner digests, JSON, UTF-8, the presence of modules, the umask
  (\<open>machine\<close>; \<open>reads_back\<close> is what is relied on: JSON reads back what it has written) and the launched processes
  (\<open>launcher\<close>, with \<open>launcher_confined\<close>), and the validation of equipment files by the model library.

  \<^bold>\<open>Not modelled.\<close> Routing, reading of request bodies, CORS headers and the wording of validation errors are
  the web framework's; registration, descriptions and transport of tools are the MCP library's; logging has no
  effect on the state, nor have the supervisor of the feed task, which only logs, and the static dashboard route of
  \<^verbatim>\<open>main.py\<close>; the parsing of arguments, of YAML and the run of the web server are the libraries'; the
  package interfaces re-export names. Of the runner, what is printed, the redaction of captured output, the line by line
  comparison, the fixed text of \<^verbatim>\<open>resync\<close>, the parsing of arguments and the calls of git are left out. The other files of
  \<^verbatim>\<open>scripts/\<close> and \<^verbatim>\<open>security_check.py\<close> probe the machine, drive other programs, write sample files or search sources by regular
  expressions, and print; they keep no state. Locks serialise threads and are left
  out; a second coroutine on one feed or adapter at the same time is not considered.
\<close>

section \<open>The dispatch engine\<close>





text \<open>C3. A \<open>COMPLETE\<close> work order is all or nothing: it is assigned in full, or it is cancelled and no
  order, workload, queue or assignment changes.\<close>

theorem complete_all_or_nothing:
  assumes "sorted_keys (key_enum c)" "engine_inv s" "work_order_ok (orders s r)"
    "work_order_id (orders s r) \<notin> known_ids s"
    "2 * volume s + 2 * remaining_hours (orders s r) < 10 ^ 20"
    "decide c s r = Admits" "dispatch_window (orders s r) = COMPLETE"
  shows "\<exists>res s'. submit_work_order c r s = Some (Inr res, s') \<and>
    (sum_list (map hours (dr_assignments res)) = remaining_hours (orders s r) \<and> status (orders s' r) = ASSIGNED \<or>
     dr_assignments res = [] \<and> status (orders s' r) = CANCELLED \<and> (\<forall>x. x \<noteq> r \<longrightarrow> orders s' x = orders s x) \<and>
     workloads s' = workloads s \<and> assignment_log s' = assignment_log s \<and> (\<forall>a. the_queue a s' = the_queue a s))"
proof (cases "stood_down c r s")
  case True
  from submit_stood_down_state [OF assms(2,4,3,6) this] show ?thesis by (fastforce simp: light_def)
next
  case False
  from submit_matched_state [OF assms(1-6) False] obtain ms s' where
    res: "submit_work_order c r s = Some (Inr \<lparr>dr_work_order = r, dr_assignments = map fst ms, rejection_reason = None\<rparr>, s')"
    and out: "matched_outcome c s r ms s'" by blast
  have full: "poured (allocation s r) = remaining_hours (orders s r)"
    using complete_allocation(1) [OF assms(1-4,7) False] .
  have "sum_list (map hours (map fst ms)) = remaining_hours (orders s r)" "status (orders s' r) = ASSIGNED"
    using out full hours_of_fills [of ms] by (auto simp: matched_outcome_def Let_def final_status_def simp del: map_map)
  with res show ?thesis by fastforce
qed

theorem complete_all_or_nothing_witness:
  "\<exists>res s'. submit_work_order cfg0 2 state0 = Some (Inr res, s') \<and>
    (sum_list (map hours (dr_assignments res)) = 12 \<and> status (orders s' 2) = ASSIGNED \<or>
     dr_assignments res = [] \<and> status (orders s' 2) = CANCELLED \<and> (\<forall>x. x \<noteq> 2 \<longrightarrow> orders s' x = orders state0 x) \<and>
     workloads s' = workloads state0 \<and> assignment_log s' = assignment_log state0 \<and> (\<forall>a. the_queue a s' = the_queue a state0))"
  using complete_all_or_nothing [OF cfg0_keys state0_inv, of 2]
  by (simp add: state0_simps state0_more heap0_remaining)

text \<open>C4. The capacity check of \<open>COMPLETE\<close> orders, a loop over rate levels, decides whether the
  resting hours within reach of the rate cap cover the order.\<close>

theorem capacity_check_exact:
  assumes "sorted_keys (key_enum c)" "queue_ok h known a q" "work_order_ok w"
    "length (side_queue (opposite (side w)) q) \<le> 1000000"
  shows "can_assign_fully c h w q \<longleftrightarrow>
    remaining_hours w \<le> reachable_hours (reach w) h (book (opposite (side w)) q)"
  using assms by (rule can_assign_fully_spec(2))

theorem capacity_check_exact_witness:
  "can_assign_fully cfg0 heap0 (heap0 2) queue0 \<longleftrightarrow>
    remaining_hours (heap0 2) \<le> reachable_hours (reach (heap0 2)) heap0 (book (opposite (side (heap0 2))) queue0)"
  by (rule capacity_check_exact [OF cfg0_keys queue0_ok heap0_ok]) (simp add: queue0_def side_queue_def)

text \<open>C5. In every reachable state of the engine the net hours of each asset sum to zero over the
  organizations, every queue is well formed and uncrossed, and every resting order is an open,
  rate-capped order of that asset with hours left.\<close>

theorem reachable_market:
  assumes "sorted_keys (key_enum c)" "reachable c s"
  shows "net_position a (workloads s) = 0 \<and> queue_inv (orders s) (the_queue a s) \<and>
    (\<forall>r\<in>set (all_refs (the_queue a s)). resting_ok (orders s) (known_ids s) a r) \<and>
    (\<forall>r\<in>set (book REQUEST (the_queue a s)). \<forall>x\<in>set (book OFFER (the_queue a s)).
       rate_of (orders s) r < rate_of (orders s) x)"
  using reachable_inv [OF assms] engine_inv_queue [of s a]
  by (simp add: engine_inv_def uncrossed_def queue_ok_def)

theorem reachable_market_witness:
  "\<exists>s. reachable cfg0 s \<and> Suc 0 \<in> set (book REQUEST (the_queue ''CNC-01'' s)) \<and>
    (\<forall>a. net_position a (workloads s) = 0 \<and> queue_inv (orders s) (the_queue a s) \<and>
    (\<forall>r\<in>set (all_refs (the_queue a s)). resting_ok (orders s) (known_ids s) a r) \<and>
    (\<forall>r\<in>set (book REQUEST (the_queue a s)). \<forall>x\<in>set (book OFFER (the_queue a s)).
       rate_of (orders s) r < rate_of (orders s) x))"
  using reachable_resting reachable_market [OF cfg0_keys] by blast



text \<open>A duplicate identifier is refused before anything is recorded: the state is unchanged.\<close>

theorem duplicate_refused:
  assumes "work_order_id (orders s r) \<in> known_ids s"
  shows "submit_work_order c r s = Some (Inl (DuplicateWorkOrderError (work_order_id (orders s r))), s)"
  using assms by (rule submit_known)

theorem duplicate_refused_witness:
  "submit_work_order cfg0 0 state0 = Some (Inl (DuplicateWorkOrderError ''a''), state0)"
  using duplicate_refused [of state0 0] by (simp add: state0_def heap0_def plain_order_def)



text \<open>C8. Cancelling an identifier either finds it resting, in some queue of those searched, and takes
  exactly that order out of its queue, marks it and publishes the cancellation; or nothing
  changes and no searched queue holds it.\<close>

theorem cancel_exact:
  assumes "engine_inv s"
  shows "\<exists>res s'. Engine.cancel_work_order c j asset s = (Inr res, s') \<and> engine_inv s' \<and>
     (case res of None \<Rightarrow> s' = s \<and> (\<forall>a\<in>set (searched s asset). \<not> contains j (the_queue a s))
                | Some r \<Rightarrow> cancelled_outcome s j r s')"
  using assms by (rule cancel_spec)

theorem cancel_exact_witness:
  "\<exists>s'. Engine.cancel_work_order cfg0 ''a'' None state0 = (Inr (Some 0), s') \<and> cancelled_outcome state0 ''a'' 0 s'"
proof -
  obtain res s' where e: "Engine.cancel_work_order cfg0 ''a'' None state0 = (Inr res, s')"
    and c: "case res of None \<Rightarrow> s' = state0 \<and> (\<forall>a\<in>set (searched state0 None). \<not> contains ''a'' (the_queue a state0))
                | Some r \<Rightarrow> cancelled_outcome state0 ''a'' r s'"
    using cancel_exact [OF state0_inv] by blast
  from c obtain r where r: "res = Some r" "cancelled_outcome state0 ''a'' r s'"
    by (cases res) (auto simp: state0_contains state0_queue)
  then have "r = 0" by (simp add: cancelled_outcome_def state0_simps heap0_id_a)
  with e r show ?thesis by blast
qed

section \<open>The dispatch queue\<close>

text \<open>C9. Adding a work order to a queue places it behind every order of a rate at least as good and
  before the others, keeps the invariant and the other side; only an order without a rate cap
  is refused.\<close>

theorem add_enqueues:
  assumes "queue_inv h q" "\<not> contains (work_order_id (h r)) q" "\<forall>x. max_hourly_rate (h r) = Some x \<longrightarrow> dec_rep x"
  shows "case add_work_order h r q of
      Inl e \<Rightarrow> e = ValueError \<and> max_hourly_rate (h r) = None
    | Inr q' \<Rightarrow> queue_inv h q' \<and> dq_asset q' = dq_asset q \<and>
        book (side (h r)) q' = enqueue h r (book (side (h r)) q) \<and>
        book (opposite (side (h r))) q' = book (opposite (side (h r))) q"
proof (cases "max_hourly_rate (h r)")
  case None
  then show ?thesis by (simp add: add_work_order_def)
next
  case (Some rt)
  with assms(3) have "dec_rep rt" by simp
  from add_work_order_spec [OF assms(1) Some this assms(2)] show ?thesis by force
qed

theorem add_enqueues_witness:
  "case add_work_order heap0 1 queue0 of Inl e \<Rightarrow> False
    | Inr q' \<Rightarrow> queue_inv heap0 q' \<and> book REQUEST q' = enqueue heap0 1 [] \<and> book OFFER q' = [0]"
proof -
  have "dec_rep 60" using grid_dec_rep [OF grid_numeral, of "num.Bit0 (num.Bit0 (num.Bit1 (num.Bit1 (num.Bit1 num.One))))"] by simp
  then show ?thesis
    using add_enqueues [of heap0 queue0 1] queue0_ok
    by (auto simp: queue_ok_def heap0_terms queue0_refs opposite_def state0_simps contains_def dict_keys_queue0
        split: sum.splits)
qed

text \<open>Popping takes the head of the side's book, the best rate and within it the earliest order,
  and leaves the rest; the book is ordered by rate. An empty side is left as it is.\<close>

theorem pop_takes_best:
  assumes "sorted_keys ks" "queue_inv h q"
  shows "sorted (map (order_key h) (book sd q)) \<and>
    (case book sd q of [] \<Rightarrow> pop_best ks h sd q = (None, q)
     | r # rs \<Rightarrow> \<exists>q'. pop_best ks h sd q = (Some r, q') \<and> queue_inv h q' \<and> book sd q' = rs \<and>
         book (opposite sd) q' = book (opposite sd) q)"
proof (cases "book sd q")
  case Nil
  then show ?thesis using sorted_keys.pop_best_empty [OF assms] by simp
next
  case (Cons r rs)
  have "sorted (map (order_key h) (book sd q))"
    using sorted_side_book assms(2) unfolding queue_inv_side book_side by blast
  with Cons sorted_keys.pop_best_spec [OF assms Cons] show ?thesis by auto
qed

theorem pop_takes_best_witness:
  "\<exists>q'. pop_best sort heap0 OFFER queue0 = (Some 0, q') \<and> queue_inv heap0 q' \<and> book OFFER q' = []"
  using pop_takes_best [OF sort_keys, of heap0 queue0 OFFER] queue0_ok by (auto simp: queue_ok_def queue0_refs)

text \<open>The depth view lists the best levels in the order of their rates, but never fewer than one of
  a non-empty side: a depth of zero or less is treated as one.\<close>

theorem levels_are_a_prefix:
  assumes "sorted_keys ks" "queue_inv h q"
  shows "request_levels ks depth q = take (max 1 (nat depth)) (map snd (sort_key fst (requests q))) \<and>
    offer_levels ks depth q = take (max 1 (nat depth)) (map snd (sort_key fst (offers q)))"
  using assms(2) unfolding request_levels_def offer_levels_def queue_inv_def
  by (blast intro: sorted_keys.side_levels_spec [OF assms(1)])

theorem levels_are_a_prefix_witness:
  "length (offer_levels sort 0 queue0) = 1 \<and> request_levels sort 0 queue0 = []"
  using levels_are_a_prefix [OF sort_keys, of heap0 queue0 0] queue0_ok by (simp add: queue_ok_def queue0_def)

section \<open>The models\<close>

text \<open>C10. An assignment within the exact range always succeeds, moves the net hours by exactly the
  signed hours, and leaves no average rate and no unrealised cost on an idle workload.\<close>

theorem assignment_moves_hours:
  assumes "0 < h" "grid h" "grid (net_hours w)" "\<bar>net_hours w + side_sign s * h\<bar> < 10 ^ 20"
  shows "\<exists>z w'. apply_assignment s h r now w = Inr (z, w') \<and>
    net_hours w' = net_hours w + side_sign s * h \<and> grid (net_hours w') \<and>
    wl_organization w' = wl_organization w \<and> wl_asset w' = wl_asset w \<and> last_rate w' = Some r \<and>
    (net_hours w' = 0 \<longrightarrow> average_service_rate w' = 0 \<and> unrealized_cost w' = 0)"
  using apply_assignment_grid [OF assms, of r now] apply_assignment_inv [OF _ assms(2-4)]
  by (fastforce simp: workload_inv_def dest: apply_assignment_keys)

theorem assignment_moves_hours_witness:
  "\<exists>z w'. apply_assignment OFFER 5 40 7 (new_workload ''o1'' ''CNC-01'' 0) = Inr (z, w') \<and> net_hours w' = -5"
  using assignment_moves_hours [of 5 "new_workload ''o1'' ''CNC-01'' 0" OFFER 40 7]
  by (fastforce simp: new_workload_def side_sign_def grid_numeral)

text \<open>Trading at a rate does not change the total cost marked at that rate, when no
  intermediate result needs more digits than the decimal context has.\<close>

theorem assignment_conserves_cost:
  assumes "apply_assignment s h r now w = Inr (z, w')" "exact_assignment s h r w"
  shows "realized_cost w' + unrealized_cost w' =
    realized_cost w + (r - average_service_rate w) * net_hours w"
  using assms by (rule apply_assignment_value)

theorem assignment_conserves_cost_witness:
  "\<exists>z w'. apply_assignment OFFER 5 40 7 (trader 10 30) = Inr (z, w') \<and> realized_cost w' + unrealized_cost w' = 100"
proof -
  obtain z w' where "apply_assignment OFFER 5 40 7 (trader 10 30) = Inr (z, w')" using trader_sells by blast
  note e = this
  from e show ?thesis using assignment_conserves_cost [OF _ trader_exact]
    by (auto simp: trader_def new_workload_def)
qed



text \<open>A number of hours is valid for a piece of equipment exactly if it is a positive multiple of
  the lot size; the check never raises in the admitted range.\<close>

theorem valid_hours_are_lots:
  assumes "grid hrs" "grid (hour_lot_size e)" "0 < hour_lot_size e" "hrs < 10 ^ 19"
  shows "is_valid_hours e hrs = Inr (\<exists>n::int. 0 < n \<and> hrs = of_int n * hour_lot_size e)"
  using assms by (rule is_valid_hours_iff)

theorem valid_hours_are_lots_witness:
  "is_valid_hours (press ''P'') 3 = Inr (\<exists>n::int. 0 < n \<and> 3 = of_int n * hour_lot_size (press ''P''))"
  by (rule valid_hours_are_lots) (simp_all add: press_def grid_numeral grid_one)

section \<open>Events\<close>

text \<open>C12. An event survives the round trip through its dictionary form.\<close>

theorem event_roundtrip:
  assumes "mk_domain_event e0 = Inr e"
  shows "event_from_dict fromiso uid now (event_to_dict e) = Inr e"
  using assms by (rule event_dict_roundtrip)

theorem event_roundtrip_witness:
  "event_from_dict (\<lambda>_. None) ''u'' 3 (event_to_dict event0) = Inr event0"
  by (rule event_roundtrip [where ?e0.0 = event0]) (simp add: mk_domain_event_def event0_def ensure_utc_def)

text \<open>C13. Replaying the log from a sequence number yields exactly the published events from that number
  on that are still retained, in order and of the wanted types: the oldest are dropped at the
  size limit and the numbering never shifts.\<close>

theorem replay_is_history:
  assumes "new_event_log m = Inr l"
  shows "log_replay n types (foldl (\<lambda>l e. snd (log_append e l)) l es) =
    filter (wanted types) (drop (nat (max n (int (length es) - m))) es)"
  using assms by (rule log_replay_history)

theorem replay_is_history_witness:
  "\<exists>l. new_event_log 2 = Inr l \<and>
    log_replay 0 None (foldl (\<lambda>l e. snd (log_append e l)) l [event0, event0, event0]) = [event0, event0]"
  using replay_is_history [of 2 _ 0 None "[event0, event0, event0]"]
  by (simp add: new_event_log_def wanted_def)





text \<open>C16. The clean-up of a stream removes whatever subscription bears its identifier: after its
  subscription was replaced under the same identifier, closing the old stream silences the
  new subscriber.\<close>

theorem stale_stream_close:
  assumes "stream_open u ts (Some i) b = Inr ((i', h), b1)" "subscribe u' ts' cb (Some i) (unsubscribe i b1) = Inr (j, b2)"
  shows "next_handle b1 \<in> live b2 \<and> i \<notin> set (dict_keys (subscriptions (stream_close i' b2)))"
  using assms
  by (auto simp: stream_open_def subscribe_def reserve_subscriber_id_def register_subscription_def unsubscribe_def
      stream_close_def live_def Let_def dict_ok_def in_values_set dict_pop_key split: if_splits)

theorem stale_stream_close_witness:
  "\<exists>h b1 j b2. stream_open ''u'' {} (Some ''x'') bus0 = Inr ((''x'', h), b1) \<and>
    subscribe ''v'' {} 1 (Some ''x'') (unsubscribe ''x'' b1) = Inr (j, b2) \<and> next_handle b1 \<in> live b2 \<and>
    ''x'' \<notin> set (dict_keys (subscriptions (stream_close ''x'' b2)))"
proof -
  obtain i h b1 j b2 where o: "stream_open ''u'' {} (Some ''x'') bus0 = Inr ((i, h), b1)"
    "subscribe ''v'' {} 1 (Some ''x'') (unsubscribe ''x'' b1) = Inr (j, b2)" using reopened by blast
  moreover from o(1) have "i = ''x''" by (auto simp: stream_open_def reserve_subscriber_id_def split: if_splits)
  ultimately show ?thesis using stale_stream_close [OF o] by blast
qed

section \<open>Utilities\<close>

text \<open>C17. A retried function that first succeeds, or raises something that is not retried, on attempt
  \<open>k\<close> (or was only given that many attempts) has been called \<open>k + 1\<close> times with at most \<open>k\<close> pauses,
  and the wrapper returns or raises what that attempt did.\<close>

theorem retry_first_success:
  assumes "retry (VInt (int (Suc n))) d b (Some c) False f = Inr g" "pauses_ok b d n" "k \<le> n"
    "\<forall>j<k. failed c (fst (attempt f j w))" "k = n \<or> \<not> failed c (fst (attempt f k w))"
  shows "\<exists>ds. g (w, []) = (fst (attempt f k w), (snd (attempt f k w), ds)) \<and> length ds \<le> k"
  unfolding retry_decorated [OF assms(1)] using retry_loop_spec [OF assms(2,4,3,5), of "[]"] by simp

theorem retry_first_success_witness:
  "\<exists>g ds. retry (VInt (int (Suc 3))) (VInt 1) (VInt 2) (Some only_value_errors) False flaky = Inr g \<and>
     g (0, []) = (Inr 2, (3, ds)) \<and> length ds \<le> 2"
proof -
  obtain g where g: "retry (VInt (int (Suc 3))) (VInt 1) (VInt 2) (Some only_value_errors) False flaky = Inr g"
    using flaky_decorated by blast
  have "(2::nat) = 3 \<or> \<not> failed only_value_errors (fst (attempt flaky 2 0))" by (simp add: flaky_attempts failed_def)
  from retry_first_success [OF g flaky_pauses _ flaky_attempts(1) this] g show ?thesis by (auto simp: flaky_attempts(2))
qed

text \<open>C18. However the calls are spaced, the tokens a rate limiter grants never exceed what the bucket
  held plus what accrued at its rate between its last refill and the last call.\<close>

theorem tokens_bounded:
  assumes "bucket_ok l r t u" "\<forall>(x, now)\<in>set cs. request_ok x l \<and> ticked now \<and> \<bar>now\<bar> \<le> 2 ^ 32"
    "sorted (u # map snd cs)"
  shows "fst (acquire_all cs l) \<le> t + of_int r * (last (u # map snd cs) - u)"
  using assms by (rule acquire_all_bound)

theorem tokens_bounded_witness:
  "new_rate_limiter (VInt 2) (VInt 5) (Fin 0) = Inr (bucket0 5) \<and> fst (acquire_all [(3, 0), (3, 1)] (bucket0 5)) \<le> 7"
  using tokens_bounded [OF bucket0_ok(1), of "[(3, 0), (3, 1)]"] bucket0_new
  by (simp add: request_ok_def ticked_numerals bucket0_ok(3))

text \<open>Waiting for tokens ends: it returns at the first reading of the clock at which enough tokens
  have accrued, however often it woke up too early before, and takes exactly the tokens asked.\<close>

theorem wait_returns:
  assumes "bucket_ok l r t u" "request_ok x l"
    "\<forall>j. clk j = Fin (tm j) \<and> ticked (tm j) \<and> \<bar>tm j\<bar> \<le> 2 ^ 32" "mono tm" "u \<le> tm k"
    "x \<le> filled_to (rl_burst l) r t u (tm n)" "k \<le> n"
    "\<forall>j. k \<le> j \<and> j < n \<longrightarrow> filled_to (rl_burst l) r t u (tm j) < x"
  shows "\<exists>waited l'. wait_tokens clk (VFloat (Fin x)) k l = Some (Inr waited, Suc n, l') \<and>
    bucket_ok l' r (filled_to (rl_burst l) r t u (tm n) - x) (tm n)"
  using wait_loop_spec [OF assms] validate_tokens_ok [OF assms(2)] by (simp add: wait_tokens_def)

theorem wait_returns_witness:
  "\<exists>waited l'. wait_tokens (\<lambda>j. Fin (seconds j)) (VFloat (Fin 3)) 0 (bucket0 0) = Some (Inr waited, 3, l')"
  using wait_returns [OF bucket0_ok(2), of 3 "\<lambda>j. Fin (seconds j)" seconds 0 2] seconds_ok
  by (auto simp: request_ok_def filled_to_def less_2_cases_iff numeral_3_eq_3 ticked_numerals bucket0_ok(3))

text \<open>After any sequence of observations a histogram has counted, for every bound, exactly the
  accepted values up to it, and its total and its sum are those of the accepted values.\<close>

theorem histogram_counts:
  assumes "new_histogram n d bs = Inr h"
  shows "h_count (observe_all vs h) = int (length (accepted_values vs h)) \<and>
    h_sum (observe_all vs h) = foldl f_add (Fin 0) (map Fin (accepted_values vs h)) \<and>
    (\<forall>b\<in>set (h_buckets (observe_all vs h)).
       dict_get (h_counts (observe_all vs h)) b = Some (int (length (filter (\<lambda>x. x \<le> b) (accepted_values vs h)))))"
  using observe_all_ok [OF new_histogram_ok [OF assms], of vs] by (simp add: histogram_ok_def)

theorem histogram_counts_witness:
  "\<exists>h. new_histogram ''t'' [] (Some [VInt 1, VInt 2]) = Inr h \<and> h_count (observe_all [VInt 1, VStr ''x'', VInt 2] h) = 2"
proof -
  obtain h where h: "new_histogram ''t'' [] (Some [VInt 1, VInt 2]) = Inr h" "h_sum h = Fin 0"
    using histogram0 by blast
  from histogram_counts [OF h(1), of "[VInt 1, VStr ''x'', VInt 2]"] h(1) show ?thesis
    unfolding histogram0_accepts [OF h(2)] by auto
qed

section \<open>Keys, signatures and plans\<close>

text \<open>C19. In every state a key manager can reach, a raw key is accepted exactly if it is the key of a
  stored record that is neither revoked nor expired, and the record returned is that one.\<close>

theorem key_validates_iff_active:
  assumes "managed mac m" "manager_now now = Inr t"
  shows "validate_key mac now (VStr raw) m = Inr (Some r) \<longleftrightarrow>
    raw \<noteq> [] \<and> (\<exists>i. dict_get (km_records m) i = Some r \<and> dict_get (km_digests m) i = Some (key_digest mac raw m)) \<and>
    key_is_active t r"
  using managed_inv [OF assms(1)] assms(2) by (rule validate_key_iff)

theorem key_validates_iff_active_witness:
  "validate_key mac0 (Aware 3 0) (VStr raw0) manager1 = Inr (Some record1)"
  using key_validates_iff_active [OF managed1, of "Aware 3 0" 3 raw0 record1] manager1_parts manager_now_aware
  by metis

text \<open>C20. Once a key is revoked no later operation of the manager, whatever keys are issued, registered,
  revoked or rotated, makes its raw key valid again.\<close>

theorem revoked_key_is_dead:
  assumes "managed mac m" "revoke_key now i m = (Inr True, m1)"
    "dict_get (km_digests m) i = Some (key_digest mac raw m)" "(manager_step mac)\<^sup>*\<^sup>* m1 m'"
  shows "validate_key mac now' (VStr raw) m' \<noteq> Inr (Some k)"
  using managed_inv [OF assms(1)] assms(2-4) by (rule revoked_never_validates)

theorem revoked_key_is_dead_witness:
  "\<exists>m. revoke_key (Aware 5 0) ''k'' manager1 = (Inr True, m) \<and>
     (\<forall>k. validate_key mac0 (Aware 6 0) (VStr raw0) m \<noteq> Inr (Some k))"
proof -
  obtain m where m: "revoke_key (Aware 5 0) ''k'' manager1 = (Inr True, m)" using manager1_revoked by blast
  from revoked_key_is_dead [OF managed1 m _ rtranclp.rtrancl_refl, of raw0 "Aware 6 0"] m show ?thesis by simp
qed

text \<open>Rotating an active or expired key replaces it: the old key is dead afterwards, and the new
  record carries its organization and permissions. When issuing the new key fails, the old key is
  dead all the same and no record replaces it.\<close>

theorem rotation_replaces_key:
  assumes "managed mac m" "dict_get (km_records m) i = Some r" "\<not> is_revoked r"
    "hex \<notin> set (dict_keys (km_records m))" "manager_now now = Inr t"
    "rotate_key mac now now' hex token i ttl m = (res, m')"
  shows "(\<exists>d. dict_get (km_digests m) i = Some d \<and> dead d m') \<and>
    (case res of
       Inl e \<Rightarrow> dict_keys (km_records m') = dict_keys (km_records m)
     | Inr raw \<Rightarrow> raw = Some (key_prefix @ token) \<and> (\<exists>r'. dict_get (km_records m') hex = Some r' \<and>
         ak_organization r' = ak_organization r \<and> ak_permissions r' = ak_permissions r \<and> revoked_at r' = None \<and>
         dict_get (km_digests m') hex = Some (key_digest mac (key_prefix @ token) m')))"
  using managed_inv [OF assms(1)] assms(2-6) by (rule rotate_key_spec)

theorem rotation_replaces_key_witness:
  "\<exists>e m'. rotate_key mac0 (Aware 5 0) (Aware 5 0) ''k2'' ''tok'' ''k'' (VInt 0) manager1 = (Inl e, m') \<and> dead raw0 m' \<and>
     dict_keys (km_records m') = [''k'']"
proof -
  obtain res m' where rot: "rotate_key mac0 (Aware 5 0) (Aware 5 0) ''k2'' ''tok'' ''k'' (VInt 0) manager1 = (res, m')"
    by fastforce
  then obtain e where "res = Inl e" using rotation_refused by fastforce
  with rotation_replaces_key [OF managed1 _ _ _ _ rot] rot show ?thesis by simp
qed

text \<open>C21. A signature is bound to the request it was made for: when it verifies for another request within
  the age limit, the verb (up to case and outer blanks), the path, the parameters, the digest of
  the body and the timestamp are the same, unless the keyed hash collides on the two canonical texts.\<close>

theorem signature_binds_request:
  assumes "request_wf q" "request_wf q'" "0 \<le> ts" "0 \<le> ts'" "key \<noteq> []" "0 < age" "\<bar>now - ts'\<bar> \<le> age"
    "\<forall>s. CHR ''\<newline>'' \<notin> set (sha s)" "mac key (canon sha q ts) \<noteq> []"
    "mac key (canon sha q ts) = mac key (canon sha q' ts') \<longrightarrow> canon sha q ts = canon sha q' ts'"
    "sign_request sha mac now0 (VStr key) (VStr (rq_verb q)) (VStr (rq_path q)) (param_value q) (VStr (rq_body q)) (VInt ts) = Inr sig"
  shows "verify_signature sha mac now (VStr key) (VStr sig) (VStr (rq_verb q')) (VStr (rq_path q')) (param_value q')
      (VStr (rq_body q')) (VInt ts') (VInt age) = Inr (same_request sha q q' \<and> ts = ts')"
proof -
  have sig: "sig = mac key (canon sha q ts)" using assms(1,3,5,11) by (simp add: sign_request_canon)
  have "mac key (canon sha q' ts') = mac key (canon sha q ts) \<longleftrightarrow> canon sha q ts = canon sha q' ts'"
    using assms(10) by metis
  also have "\<dots> \<longleftrightarrow> same_request sha q q' \<and> ts = ts'" using assms(8) by (intro canon_inj [OF assms(1,2)]) blast
  finally show ?thesis using assms(7) unfolding sig verify_signature_iff [OF assms(2,4,5,9,6)] by simp
qed

theorem signature_binds_request_witness:
  "verify_signature (\<lambda>s. ''h'') (\<lambda>k t. t) 20 (VStr ''s'') (VStr (canon (\<lambda>s. ''h'') request_a 15)) (VStr ''GET'') (VStr ''/x'')
      (param_value request_b) (VStr []) (VInt 15) (VInt 10) = Inr True"
  using signature_binds_request [OF requests_wf, of 15 15 "''s''" 10 20 "\<lambda>s. ''h''" "\<lambda>k t. t"] requests_same
    sign_request_canon [OF requests_wf(1), of 15 "''s''"] by (simp add: request_b_def canon_def)

text \<open>C22. Whatever parameters were assigned to a plan and however its metrics were read before, reading a
  metric gives the value for the current parameters, unless the hash of earlier parameters collides
  with theirs.\<close>

theorem cached_metric_fresh:
  assumes "plan_run mix seen m" "current_parameters m = Inr p"
    "\<forall>q\<in>seen. param_hash mix q = param_hash mix p \<longrightarrow> q = p"
  shows "fst (read_metric mix k m) = compute_metric k p"
  using plan_run_cache_ok [OF assms(1)] assms(2,3) by (rule read_metric_fresh)

theorem cached_metric_fresh_witness:
  "\<exists>m. cm_cache m CostEstimate \<noteq> None \<and> current_parameters m = Inr plan1 \<and>
    fst (read_metric sum_list CostEstimate m) = compute_metric CostEstimate plan1"
proof -
  obtain m where m: "plan_run sum_list {plan0} m" "current_parameters m = Inr plan1" "cm_cache m CostEstimate \<noteq> None"
    using model1_run by blast
  from cached_metric_fresh [OF m(1,2), of CostEstimate] m plan_hashes show ?thesis by auto
qed

section \<open>Books and records\<close>

text \<open>Adding two analytics, of any organizations and with overlapping assets, adds their total costs and
  their total exposures: what netting the hours of a shared asset changes in the exposure is carried
  by the budget.\<close>

theorem books_add_up:
  assumes "add_analytics mix w a b = Inr m" "current_workloads w a = (Inr left, a1)" "current_workloads w b = (Inr right, b1)"
    "\<forall>x\<in>set (left @ right). priced x" "turnovers (left @ right) < 10 ^ 20" "gross_hours (left @ right) < 10 ^ 20"
    "\<forall>x\<in>{exposure_sum left, exposure_sum right, an_budget a1, an_budget b1}. grid x \<and> \<bar>x\<bar> < 10 ^ 19"
    "\<And>ws. fst (current_workloads w' m) = Inr ws \<Longrightarrow> grid (exposure_sum ws) \<and> \<bar>exposure_sum ws\<bar> < 10 ^ 19"
  shows "(\<exists>x y. fst (total_cost w a) = Inr x \<and> fst (total_cost w b) = Inr y \<and> fst (total_cost w' m) = Inr (x + y)) \<and>
    (\<exists>x y. fst (total_exposure w a) = Inr x \<and> fst (total_exposure w b) = Inr y \<and> fst (total_exposure w' m) = Inr (x + y))"
  using total_cost_add [OF assms(1-6)] total_exposure_add [OF assms] by blast

theorem books_add_up_witness:
  "\<exists>m. add_analytics sum_list () analytics0 analytics1 = Inr m \<and>
     (\<exists>x y. fst (total_exposure () analytics0) = Inr x \<and> fst (total_exposure () analytics1) = Inr y \<and>
       fst (total_exposure () m) = Inr (x + y))"
proof -
  obtain m u m' where m: "add_analytics sum_list () analytics0 analytics1 = Inr m"
    "current_workloads () m = (Inr [u], m')" "exposure_sum [u] = 90" using analytics_sum by blast
  have "grid (exposure_sum ws) \<and> \<bar>exposure_sum ws\<bar> < 10 ^ 19" if "fst (current_workloads () m) = Inr ws" for ws
    using that m(2,3) by (simp add: grid_numeral)
  moreover have "\<forall>x\<in>{120, -50, 5, 7::rat}. grid x \<and> \<bar>x\<bar> < 10 ^ 19" by (simp add: grid_numeral grid_minus)
  ultimately show ?thesis
    using books_add_up [OF m(1) analytics_current analytics_priced(1), of "()"] m(1) unfolding analytics_priced by auto
qed

text \<open>A backlog change that is not a number is refused, but the refusal leaves an empty history behind
  when there was none, and from then on the risk of the organization cannot be computed.\<close>

theorem refused_delta_breaks_risk:
  assumes "dict_get (an_history a) organization_key = None" "finite_float delta = Inl e"
    "gross_committed_hours w a = (Inr g, a1)" "is_finite (to_float g)"
    "validate_confidence confidence = Inr c" "confidence \<noteq> VNone"
  shows "\<exists>a'. record_organization_backlog delta a = (Inl e, a') \<and>
    fst (compute_backlog_risk np w VNone confidence a') = Inl ValueError"
  using assms by (rule refused_delta)

theorem refused_delta_breaks_risk_witness:
  "\<exists>a'. record_organization_backlog VNone analytics0 = (Inl ValueError, a') \<and>
    fst (compute_backlog_risk numerics0 () VNone (VFloat (Fin (1 / 2))) a') = Inl ValueError"
proof -
  obtain g a1 where g: "gross_committed_hours () analytics0 = (Inr g, a1)" "g = 120" using analytics0_gross by blast
  obtain c where c: "validate_confidence (VFloat (Fin (1 / 2))) = Inr c" using half_confidence by blast
  show ?thesis
    by (rule refused_delta_breaks_risk [OF _ _ g(1) _ c]) (use g(2) in \<open>simp_all add: analytics0_def blank_analytics_def
      finite_float_def small_float [of 120, simplified]\<close>)
qed

text \<open>The reading inserted last at or after the stored ones of its asset is the latest reading, with its
  exact decimals and its timestamp in UTC, whatever the spelling of the asset.\<close>

theorem latest_is_last_inserted:
  assumes "insert_reading True r s = (Inr (), s')" "reading_record r = Inr row"
    "\<forall>x\<in>set (st_readings s). rd_asset x = rd_asset row \<longrightarrow> instant (rd_timestamp x) \<le> instant (rd_timestamp row)"
    "canonical a = rd_asset row"
  shows "latest_reading True a s' = (Inr (Some (read_reading row)), s')"
  using assms by (rule latest_after_insert)

theorem latest_is_last_inserted_witness:
  "\<exists>s. insert_reading True reading0 store0 = (Inr (), s) \<and>
     latest_reading True ''CNC-01'' s = (Inr (Some (row0\<lparr>rd_timestamp := Aware 9 0\<rparr>)), s)"
proof -
  obtain s where s: "insert_reading True reading0 store0 = (Inr (), s)"
    by (auto simp: insert_reading_def reading0_row in_session_def store0_def)
  have "canonical ''CNC-01'' = rd_asset row0" by (simp add: canonical_cnc row0_def canonical_def)
  from latest_is_last_inserted [OF s reading0_row _ this] s show ?thesis
    by (simp add: store0_def read_reading_def row0_def)
qed



section \<open>Access\<close>





text \<open>C26. Only a request whose key carries the dispatch permission, and only a submission or a cancellation,
  changes the engine: orders, queues, workloads, known identifiers and the log.\<close>

theorem changes_need_dispatch:
  assumes "handle c n header k a = (res, a')" "sv_engine (ap_service a') \<noteq> sv_engine (ap_service a)"
  shows "\<exists>key. key_of c n header a = Some key \<and> ''dispatch'' \<in> ak_permissions key \<and>
    ((\<exists>b. k = SubmitCall b) \<or> (\<exists>i. k = CancelCall i))"
  using assms by (rule engine_changes_need_dispatch)

theorem changes_need_dispatch_witness:
  "\<exists>r a key. handle conf0 env0 (Some ''raw'') (SubmitCall body0) app0 = (Inr r, a) \<and>
     key_of conf0 env0 (Some ''raw'') app0 = Some key \<and> ''dispatch'' \<in> ak_permissions key"
proof -
  obtain r a where a: "handle conf0 env0 (Some ''raw'') (SubmitCall body0) app0 = (Inr r, a)"
    "sv_engine (ap_service a) \<noteq> sv_engine (ap_service app0)" using order_changes_engine by blast
  from changes_need_dispatch [OF a] a(1) show ?thesis by blast
qed

section \<open>Telemetry and policies\<close>

text \<open>C27. The interval bars are exactly those of the groups of readings with the same asset and the same
  bucket of the epoch, each computed from the group as a whole, in strict order of time and asset.\<close>

theorem intervals_are_groups:
  assumes "readings_to_intervals rs (VInt n) = Inr bars"
    "\<forall>r\<in>set rs. 0 \<le> instant (tr_timestamp r) \<and> instant (tr_timestamp r) < 2 ^ 33 * 10 ^ 6"
  shows "set bars = (\<lambda>k. reference_bar n k (group n k (sort_readings rs))) ` bar_key n ` set rs \<and>
    sorted_wrt (\<lambda>b c. instant (ib_timestamp b) < instant (ib_timestamp c) \<or>
      instant (ib_timestamp b) = instant (ib_timestamp c) \<and> ib_asset b < ib_asset c) bars \<and>
    (\<forall>r\<in>set rs. bar_key n r = (tr_asset r, instant (tr_timestamp r) div (n * 1000000)))"
proof (intro conjI ballI)
  fix r assume "r \<in> set rs"
  moreover have "0 < n" using assms(1) by (auto simp: readings_to_intervals_def validate_window_def split: if_splits)
  ultimately show "bar_key n r = (tr_asset r, instant (tr_timestamp r) div (n * 1000000))"
    using assms(2) bucket_exact by (auto simp: bar_key_def)
qed (use intervals_spec [OF assms(1)] in blast)+

theorem intervals_are_groups_witness:
  "\<exists>bars. readings_to_intervals [tick 80 9, tick 5 4, tick 70 6] (VInt 60) = Inr bars \<and>
     bar_key 60 ` set [tick 80 9, tick 5 4, tick 70 6] = {(''CNC-01'', 0), (''CNC-01'', 1)} \<and>
     reference_bar 60 (''CNC-01'', 1) (group 60 (''CNC-01'', 1) (sort_readings [tick 80 9, tick 5 4, tick 70 6])) \<in> set bars"
proof -
  obtain bars where bars: "readings_to_intervals [tick 80 9, tick 5 4, tick 70 6] (VInt 60) = Inr bars"
    using tick_intervals by blast
  have k: "bar_key 60 (tick 80 9) = (''CNC-01'', 1)" "bar_key 60 (tick 70 6) = (''CNC-01'', 1)" "bar_key 60 (tick 5 4) = (''CNC-01'', 0)"
    by (simp_all add: bar_key_def tick_buckets) (simp_all add: tick_def)
  have "\<forall>r\<in>set [tick 80 9, tick 5 4, tick 70 6]. 0 \<le> instant (tr_timestamp r) \<and> instant (tr_timestamp r) < 2 ^ 33 * 10 ^ 6"
    by (simp add: tick_times)
  note b = intervals_are_groups [OF bars this]
  have s: "bar_key 60 ` set [tick 80 9, tick 5 4, tick 70 6] = {(''CNC-01'', 0), (''CNC-01'', 1)}" using k by auto
  moreover have "reference_bar 60 (''CNC-01'', 1) (group 60 (''CNC-01'', 1) (sort_readings [tick 80 9, tick 5 4, tick 70 6])) \<in> set bars"
    using b unfolding s by blast
  ultimately show ?thesis using bars by blast
qed



text \<open>From its constructor on, whatever readings arrive and whatever assignments it is told of, the breach
  policy never raises when it is asked for recommendations, as long as the readings are positive floats.\<close>

theorem breach_never_fails:
  assumes "stats_laws np" "breach_run np rs p" "\<forall>r\<in>set rs. \<exists>x. to_float (last_reading r) = Fin x \<and> 0 < x"
  shows "\<exists>recs p'. breach_generate np clk p = (Inr recs, p')"
  using breach_generate_total [OF assms] unfolding returns_def .

theorem breach_never_fails_witness:
  "\<exists>p recs p'. breach_run numerics1 [tick 5 100, tick 6 100, tick 7 200] p \<and> breach_generate numerics1 int p = (Inr recs, p')"
  using breach0_run breach_never_fails [OF numerics1_laws _ ticks_positive] by blast

text \<open>C30. Once disconnected the adapter publishes nothing, whatever the transport still delivers, until it is
  connected again.\<close>

theorem adapter_silent:
  assumes "ws_run loads read_time es a = Some a'" "\<not> wa_running a" "Connect_called \<notin> set es"
  shows "\<not> wa_running a' \<and> wa_bus a' = wa_bus a"
  using assms by (rule ws_run_stopped)

theorem adapter_silent_witness:
  "\<exists>a. ws_run (\<lambda>_. None) (\<lambda>_. None) [Received ''m'' 1 ''u'' 2] adapter0 = Some a \<and> wa_bus a = bus0"
proof -
  obtain a where a: "ws_run (\<lambda>_. None) (\<lambda>_. None) [Received ''m'' 1 ''u'' 2] adapter0 = Some a" using adapter0_run by blast
  from adapter_silent [OF a] a show ?thesis by (simp add: adapter0_def)
qed

section \<open>Serialization and tools\<close>



text \<open>C31. The MCP server cancels only what it owns: an order that changes by a cancellation was submitted by
  this server, is the one asked for, and belongs to the organization the server is bound to.\<close>

theorem mcp_cancels_only_own:
  assumes "mcp_run g m" "call_tool g now uid (Cancel_order i) m = Some (res, m')"
    "orders (ms_engine m') x \<noteq> orders (ms_engine m) x"
  shows "i \<in> ms_owned m \<and> work_order_id (orders (ms_engine m) x) = i \<and>
    mg_org g = Some (wo_organization (orders (ms_engine m) x))"
  using assms by (rule mcp_cancels_own)

theorem mcp_cancels_only_own_witness:
  "\<exists>m res m' x. mcp_run server0 m \<and> call_tool server0 8 ''v'' (Cancel_order ''b'') m = Some (res, m') \<and>
     work_order_id (orders (ms_engine m) x) = ''b'' \<and> wo_organization (orders (ms_engine m) x) = ''o2''"
proof -
  obtain m res m' x where m: "mcp_run server0 m" "call_tool server0 8 ''v'' (Cancel_order ''b'') m = Some (res, m')"
    "orders (ms_engine m') x \<noteq> orders (ms_engine m) x" using order0_cancelled by blast
  from mcp_cancels_only_own [OF m] m show ?thesis by auto
qed

text \<open>C32. A submission through the MCP server always returns, keeps the invariant of the engine, and answers
  within the stated bounds: at most the retained assignments, and a reason of bounded length exactly
  for a rejection.\<close>

theorem mcp_submission_returns:
  assumes "sorted_keys (key_enum (mg_engine g))" "mcp_run g m" "engine_inv (ms_engine m)" "volume (ms_engine m) < 4 * 10 ^ 19"
  shows "\<exists>res m'. call_tool g now uid (Submit_order q) m = Some (res, m') \<and> engine_inv (ms_engine m') \<and>
    (\<forall>r. res = Inr r \<longrightarrow> (\<exists>o'. r = Order o' \<and> answer_bounded o'))"
  using assms by (rule mcp_submission_total)

theorem mcp_submission_returns_witness:
  "\<exists>res m'. call_tool server0 7 ''u'' (Submit_order arguments0) fresh0 = Some (res, m') \<and> engine_inv (ms_engine m')"
proof -
  have "volume (ms_engine fresh0) < 4 * 10 ^ 19" by (simp add: new_engine_def volume_def)
  with mcp_submission_returns [OF _ fresh0_run, of 7 "''u''" arguments0] show ?thesis by (auto simp: engine_inv_new)
qed

section \<open>The application\<close>

text \<open>C33. In whatever order an application starts, answers requests, pumps readings and stops, its configuration
  stays that of its construction, every filed order belongs to the organization it is filed for under its own
  identifier, no order is filed twice, and every order the queues hold bears a known identifier.\<close>

theorem running_application:
  assumes "create_app lib env args = (Inr a0, store)" "(app_step m rs)\<^sup>*\<^sup>* a0 a"
  shows "ra_config a = ra_config a0 \<and>
    (\<forall>org i r. filed (ap_service (ra_app a)) org i r \<longrightarrow>
       wo_organization (orders (the_engine a) r) = org \<and> work_order_id (orders (the_engine a) r) = i \<and>
       (\<forall>org' r'. filed (ap_service (ra_app a)) org' i r' \<longrightarrow> r' = r \<and> org' = org)) \<and>
    (\<forall>r\<in>refs_in (the_engine a). work_order_id (orders (the_engine a) r) \<in> known_ids (the_engine a))"
proof -
  note run = app_run_served [OF assms(2) created_app(1) [OF assms(1)]]
  then have "books_ok (ap_service (ra_app a))" using served_ok by (auto simp: app_ok_def)
  note b = books_okD [OF this]
  show ?thesis unfolding the_engine_def using run b(1,2,5) b(4) by metis
qed

theorem running_application_witness:
  "\<exists>a0 store (a :: unit application). create_app lib0 (machine0 True) args0 = (Inr a0, store) \<and> running (bus (the_engine a)) \<and> ra_config a = ra_config a0"
proof -
  obtain a0 store where a: "create_app lib0 (machine0 True) args0 = (Inr a0, store)" using app_built by blast
  let ?a = "snd (start_app draws0 a0)"
  have "(app_step math0 draws0)\<^sup>*\<^sup>* a0 ?a" by (intro r_into_rtranclp app_step.Starts [OF surjective_pairing])
  from running_application [OF a this] have "ra_config ?a = ra_config a0" by (rule conjunct1)
  with a app_started [of a0] show ?thesis by (intro exI [of _ a0] exI [of _ store] exI [of _ ?a]) simp
qed

text \<open>A construction that fails closes the store it had opened itself; a store that was handed in stays open or
  closed as it was, with all its rows, whether the construction fails or not.\<close>

theorem failed_construction:
  assumes "create_app lib env args = (res, store)"
  shows "case aa_store args of
      Some s \<Rightarrow> \<exists>s'. store = Some s' \<and> untouched s s'
    | None \<Rightarrow> (\<forall>e s. res = Inl e \<longrightarrow> store = Some s \<longrightarrow> is_closed s)"
  using assms by (rule create_app_store)

theorem failed_construction_witness:
  "\<exists>s. create_app lib0 (machine0 False) args0 = (Inl DatabaseError, Some s) \<and> is_closed s"
  using failed_construction [OF app_refused] app_refused by (simp add: args0_def)



text \<open>C34. However the time of serving ends and whatever fails while the application is stopped, every step of the
  shutdown is taken: the feed, the bus and its tasks, and a store of its own end up stopped and closed unless
  that very step failed, no feed task is left, and the outcome is the first interruption, or else the failure
  in flight, or else what the steps raised, one alone or all as a group.\<close>

theorem lifecycle_releases:
  assumes "lifespan rs t serve a = (e, a')"
  shows "released t (ra_feed a \<noteq> None) (ra_owns_store a) a' \<and> ap_feed_task (ra_app a') = NoTask \<and>
    (case start_app rs a of
       (Inl x, a1) \<Rightarrow> e = ends_with (step_results t (ra_feed a \<noteq> None) False (ra_owns_store a)) (Raises_exn x)
     | (Inr _, a1) \<Rightarrow> e = ends_with (step_results t (ra_feed a \<noteq> None) (ra_feed a \<noteq> None) (ra_owns_store a)) (fst (serve a1)))"
  using assms by (rule lifespan_releases)

theorem lifecycle_releases_witness:
  "\<exists>e a'. lifespan draws0 \<lparr>tf_task = Raised RuntimeError, tf_bus = None, tf_store = None\<rparr> (Pair Ends) running0 = (e, a') \<and>
    \<not> feed_is_running a' \<and> \<not> running (bus (the_engine a')) \<and> e = Raises_exn RuntimeError"
proof -
  obtain e a' where l: "lifespan draws0 \<lparr>tf_task = Raised RuntimeError, tf_bus = None, tf_store = None\<rparr> (Pair Ends) running0 = (e, a')"
    by fastforce
  have "\<exists>a1. start_app draws0 running0 = (Inr (), a1)"
    by (simp add: start_app_def running0_def on_engine_def start_feed_def feed0_def Let_def)
  with lifecycle_releases [OF l] l show ?thesis
    by (auto simp: released_def running0_parts step_results_def ends_with_def first_control_def controls_of_def failures_of_def
        stop_task_def split: if_splits)
qed

text \<open>C36. A reading of the feed is published on the bus of the engine and kept as the latest of its asset, and marks
  exactly the open workloads of that asset with its rate; everything else of the engine stays as it was.\<close>

theorem reading_marks_workloads:
  assumes "pump_reading m rs (asset, uid, now, later) a = (Inr (), a')" "ra_feed a = Some f"
    "asset \<in> set (dict_keys (fd_simulators f))"
  shows "\<exists>r f' n. ra_feed a' = Some f' \<and> dict_get (fd_latest f') asset = Some r \<and>
    list_all2 (marked (tr_asset r) (last_reading r)) (workloads (the_engine a)) (workloads (the_engine a')) \<and>
    the_engine a' = (the_engine a)\<lparr>bus := publish (reading_event uid later ''telemetry_feed'' r) (bus (the_engine a)),
      workloads := workloads (the_engine a'), ticks := n\<rparr>"
  using assms by (rule pump_reading_spec)

theorem reading_marks_workloads_witness:
  "\<exists>a' r f'. pump_reading math0 draws0 (''CNC-01'', ''u'', 7, 8) running0 = (Inr (), a') \<and>
    ra_feed a' = Some f' \<and> dict_get (fd_latest f') ''CNC-01'' = Some r \<and>
    list_all2 (marked (tr_asset r) (last_reading r)) [((''o2'', ''CNC-01''), held0)] (workloads (the_engine a'))"
proof -
  obtain a' where a: "pump_reading math0 draws0 (''CNC-01'', ''u'', 7, 8) running0 = (Inr (), a')" using running0_reads by blast
  from reading_marks_workloads [OF a running0_parts(1,4)] a running0_parts(3) show ?thesis by metis
qed

section \<open>The workshop runner\<close>

text \<open>C37. Starting or resuming a scenario can be undone at any time. Whatever the file system refused and wherever the
  process was killed while it ran, and after any number of resets that were refused or killed as well, with
  any edits of the participant in the work directory of a started scenario between them, a reset that
  succeeds leaves no active scenario and every entry outside the state directory exactly as it was before
  the start.\<close>

theorem reset_restores_checkout:
  assumes "reads_back mc" "well_formed (wd_tree w)" "dict_get (wd_tree w) state_file_rel = None"
    "stages_scenario mc i m" "m w = (r, w1)" "aftermath mc i (r = Inr ()) (wd_tree w1) (wd_tree w2)"
    "cmd_reset mc now stamp i w2 = (Inr a, w3)"
  shows "dict_get (wd_tree w3) state_file_rel = None \<and> (\<forall>p. in_home p \<or> dict_get (wd_tree w3) p = dict_get (wd_tree w) p)"
  using opening_then_reset [OF assms] by blast

theorem reset_restores_checkout_witness:
  "\<exists>a w3. cmd_reset mc0 ''then'' ''T'' ''a'' \<lparr>wd_tree = tree2, wd_fate = []\<rparr> = (Inr a, w3) \<and>
    dict_get tree2 [''workshop'', ''scenarios'', ''a'', ''work'', ''n''] = None \<and>
    dict_get (wd_tree w3) [''workshop'', ''scenarios'', ''a'', ''work'', ''n''] = Some (Regular ''mine'' 420)"
proof -
  let ?p = "[''workshop'', ''scenarios'', ''a'', ''work'', ''n'']"
  have "\<forall>p. in_home p \<or> dict_get tree3 p = dict_get tree0 p"
    using reset_restores_checkout [OF reads_back0 _ _ stages0 start0 _ reset0] tree0_well_formed tree0_idle aftermath0 by simp
  then have "in_home ?p \<or> dict_get tree3 ?p = dict_get tree0 ?p" ..
  then have "dict_get tree3 ?p = dict_get tree0 ?p" by (simp add: in_home_def dirs)
  with reset0 show ?thesis by (simp add: tree0_def tree1_def tree2_def dict_simps)
qed

text \<open>C38. A start or resume that fails and leaves no active scenario behind has changed nothing outside the state
  directory.\<close>

theorem failed_start_leaves_nothing:
  assumes "reads_back mc" "well_formed (wd_tree w)" "stages_scenario mc i m" "m w = (r, w1)"
    "dict_get (wd_tree w1) state_file_rel = None" "\<not> in_home p"
  shows "dict_get (wd_tree w1) p = dict_get (wd_tree w) p"
  using assms by (rule opening_leaves_nothing)

theorem failed_start_leaves_nothing_witness:
  "\<exists>w1. cmd_start mc0 ''now'' None True ''a'' \<lparr>wd_tree = tree0, wd_fate = replicate 30 Works @ [Refused]\<rparr> = (Inl WorkshopError, w1) \<and>
    dict_get (wd_tree w1) [''workshop'', ''scenarios'', ''a'', ''work'', ''n''] = Some (Regular ''mine'' 420)"
proof -
  obtain w1 where w1: "cmd_start mc0 ''now'' None True ''a'' \<lparr>wd_tree = tree0, wd_fate = replicate 30 Works @ [Refused]\<rparr> =
      (Inl WorkshopError, w1)" "dict_get (wd_tree w1) state_file_rel = None"
    using refused0 by (auto split: prod.splits)
  have "dict_get (wd_tree w1) [''workshop'', ''scenarios'', ''a'', ''work'', ''n''] =
      dict_get tree0 [''workshop'', ''scenarios'', ''a'', ''work'', ''n'']"
    using failed_start_leaves_nothing [OF reads_back0 _ stages0 w1] tree0_well_formed by (auto simp: in_home_def dirs)
  with w1 show ?thesis by (simp add: tree0_def dict_simps)
qed




end
